(* ===== verification/Prelude.thy ===== *)
theory Prelude
  imports Main "HOL-Library.Word" "HOL-Library.AList" "HOL-Library.Sublist"
begin

text \<open>
  Shared vocabulary of the development: the machine integers of the Rust sources, time values,
  hash maps, substring search and little-endian byte readers.

  Conventions.
  \<^item> \<open>u8\<close> to \<open>u256\<close> are fixed-width words. The binaries are built with the release profile
    (\<^verbatim>\<open>cargo build --release\<close> in the Dockerfiles and the Makefile, no
    \<^verbatim>\<open>overflow-checks\<close> override), so the built-in \<open>+\<close>, \<open>-\<close> and \<open>*\<close> of the primitive
    integer types wrap around; \<^verbatim>\<open>checked_\<close> and \<^verbatim>\<open>saturating_\<close> variants are written out.
    The operators of \<^verbatim>\<open>primitive_types::U256\<close> panic on overflow in every profile.
  \<^item> \<open>i32\<close> values are mathematical integers with the two's complement wrap written out
    (\<open>wrap_i32\<close>).
  \<^item> A Rust panic is the value \<open>None\<close>; a \<^verbatim>\<open>Result\<close> is a sum with \<open>Inl\<close> for the error.
  \<^item> \<^verbatim>\<open>Instant\<close> and \<^verbatim>\<open>Duration\<close> are natural numbers of nanoseconds; subtraction of
    instants saturates at zero, as \<^verbatim>\<open>Instant::elapsed\<close> and \<^verbatim>\<open>duration_since\<close> do.
  \<^item> A \<^verbatim>\<open>HashMap\<close> is an association list with distinct keys. Its iteration order is not
    specified by the language: every operation that iterates takes the order as a parameter
    \<open>it\<close>, of which only \<open>hash_order it\<close> (it is a permutation) may be assumed.
\<close>

section \<open>Machine integers\<close>

type_synonym u8 = "8 word"
type_synonym u16 = "16 word"
type_synonym u32 = "32 word"
type_synonym u64 = "64 word"
type_synonym u128 = "128 word"
type_synonym u256 = "256 word"

definition wrap_i32 :: "int \<Rightarrow> int" where
  "wrap_i32 x = (x + 2 ^ 31) mod 2 ^ 32 - 2 ^ 31"

definition is_i32 :: "int \<Rightarrow> bool" where
  "is_i32 x \<longleftrightarrow> - (2 ^ 31) \<le> x \<and> x < 2 ^ 31"

definition checked_sub_i32 :: "int \<Rightarrow> int \<Rightarrow> int option" where
  "checked_sub_i32 a b = (if is_i32 (a - b) then Some (a - b) else None)"

definition checked_mul_w :: "'a::len word \<Rightarrow> 'a word \<Rightarrow> 'a word option" where
  "checked_mul_w a b = (if unat a * unat b < 2 ^ LENGTH('a) then Some (a * b) else None)"

definition checked_add_w :: "'a::len word \<Rightarrow> 'a word \<Rightarrow> 'a word option" where
  "checked_add_w a b = (if unat a + unat b < 2 ^ LENGTH('a) then Some (a + b) else None)"

definition saturating_sub_w :: "'a::len word \<Rightarrow> 'a word \<Rightarrow> 'a word" where
  "saturating_sub_w a b = (if b \<le> a then a - b else 0)"

definition saturating_add_w :: "'a::len word \<Rightarrow> 'a word \<Rightarrow> 'a word" where
  "saturating_add_w a b =
     (if unat a + unat b < 2 ^ LENGTH('a) then a + b else word_of_nat (2 ^ LENGTH('a) - 1))"

definition saturating_mul_w :: "'a::len word \<Rightarrow> 'a word \<Rightarrow> 'a word" where
  "saturating_mul_w a b =
     (if unat a * unat b < 2 ^ LENGTH('a) then a * b else word_of_nat (2 ^ LENGTH('a) - 1))"

text \<open>Truncating integer division, as Rust's \<open>/\<close> and \<open>%\<close> on signed integers; \<open>None\<close> is the
  panic on a zero divisor.\<close>

definition rust_div :: "int \<Rightarrow> int \<Rightarrow> int option" where
  "rust_div a b = (if b = 0 then None else Some (sgn a * sgn b * (\<bar>a\<bar> div \<bar>b\<bar>)))"

definition rust_rem :: "int \<Rightarrow> int \<Rightarrow> int option" where
  "rust_rem a b = (if b = 0 then None else Some (sgn a * (\<bar>a\<bar> mod \<bar>b\<bar>)))"

named_theorems word_bounds \<open>the value of a checked or saturating operation as a natural number\<close>

lemma unat_lt_2p: "unat (x :: 'a::len word) < 2 ^ LENGTH('a)"
  by (rule unsigned_less)

lemma unat_checked_mul [word_bounds]:
  "checked_mul_w a b = Some c \<longleftrightarrow> unat a * unat b < 2 ^ LENGTH('a) \<and> c = a * b"
  for a b c :: "'a::len word"
  by (auto simp: checked_mul_w_def)

lemma unat_checked_add [word_bounds]:
  "checked_add_w a b = Some c \<longleftrightarrow> unat a + unat b < 2 ^ LENGTH('a) \<and> c = a + b"
  for a b c :: "'a::len word"
  by (auto simp: checked_add_w_def)

lemma unat_mult_lt: "unat a * unat b < 2 ^ LENGTH('a) \<Longrightarrow> unat (a * b) = unat a * unat b"
  for a b :: "'a::len word"
  by (simp add: unat_word_ariths)

lemma unat_add_lt: "unat a + unat b < 2 ^ LENGTH('a) \<Longrightarrow> unat (a + b) = unat a + unat b"
  for a b :: "'a::len word"
  by (simp add: unat_word_ariths)

lemma unat_plus_one: "unat a < unat b \<Longrightarrow> unat (a + 1) = Suc (unat a)"
  for a b :: "'a::len word"
proof -
  assume "unat a < unat b"
  with unat_lt_2p [of b] have "Suc (unat a) < 2 ^ LENGTH('a)" by linarith
  with unat_add_lt [of a 1] show ?thesis by simp
qed

lemma unat_saturating_sub [word_bounds]:
  "unat (saturating_sub_w a b) = unat a - unat b"
  for a b :: "'a::len word"
  by (simp add: saturating_sub_w_def word_le_nat_alt unat_sub)

lemma wrap_i32_id [simp]: "is_i32 x \<Longrightarrow> wrap_i32 x = x"
  by (simp add: wrap_i32_def is_i32_def)

lemma wrap_i32_range: "is_i32 (wrap_i32 x)"
proof -
  have "0 \<le> (x + 2 ^ 31) mod 2 ^ 32" and "(x + 2 ^ 31) mod 2 ^ 32 < 2 ^ 32"
    by simp_all
  then show ?thesis unfolding is_i32_def wrap_i32_def by simp
qed

lemma rust_div_nonneg: "0 \<le> a \<Longrightarrow> 0 < b \<Longrightarrow> rust_div a b = Some (a div b)"
  by (cases "a = 0") (simp_all add: rust_div_def)

lemma rust_rem_0_iff: "b \<noteq> 0 \<Longrightarrow> rust_rem a b = Some 0 \<longleftrightarrow> b dvd a"
  by (auto simp: rust_rem_def sgn_0_0 dvd_eq_mod_eq_0[symmetric])

section \<open>Time\<close>

type_synonym instant = nat
type_synonym duration = nat

definition from_secs :: "nat \<Rightarrow> duration" where
  "from_secs s = s * 1000000000"

definition from_millis :: "nat \<Rightarrow> duration" where
  "from_millis ms = ms * 1000000"

definition elapsed :: "instant \<Rightarrow> instant \<Rightarrow> duration" where
  "elapsed now t = now - t"

lemma from_secs_mono [simp]: "from_secs a \<le> from_secs b \<longleftrightarrow> a \<le> b"
  by (simp add: from_secs_def)

section \<open>Hash maps\<close>

definition hash_order :: "(('k \<times> 'v) list \<Rightarrow> ('k \<times> 'v) list) \<Rightarrow> bool" where
  "hash_order it \<longleftrightarrow> (\<forall>m. distinct (map fst m) \<longrightarrow> distinct (map fst (it m)) \<and> set (it m) = set m)"

definition hm_retain :: "('k \<Rightarrow> 'v \<Rightarrow> bool) \<Rightarrow> ('k \<times> 'v) list \<Rightarrow> ('k \<times> 'v) list" where
  "hm_retain p m = filter (\<lambda>(k, v). p k v) m"

lemma hash_order_id [simp]: "hash_order (\<lambda>m. m)"
  by (simp add: hash_order_def)

lemma hash_order_set: "hash_order it \<Longrightarrow> distinct (map fst m) \<Longrightarrow> set (it m) = set m"
  by (simp add: hash_order_def)

lemma hash_order_distinct:
  "hash_order it \<Longrightarrow> distinct (map fst m) \<Longrightarrow> distinct (map fst (it m))"
  by (simp add: hash_order_def)

lemma hash_order_length:
  assumes "hash_order it" and "distinct (map fst m)"
  shows "length (it m) = length m"
proof -
  have "distinct (it m)" and "distinct m"
    using assms by (auto simp: hash_order_def distinct_map)
  with hash_order_set [OF assms] show ?thesis
    by (metis distinct_card)
qed

lemma distinct_hm_retain [simp]: "distinct (map fst m) \<Longrightarrow> distinct (map fst (hm_retain p m))"
  by (induction m) (auto simp: hm_retain_def)

lemma set_hm_retain [simp]: "set (hm_retain p m) = {(k, v) \<in> set m. p k v}"
  by (auto simp: hm_retain_def)

lemma length_hm_retain: "length (hm_retain p m) \<le> length m"
  by (simp add: hm_retain_def)

lemma map_of_hm_retain:
  "distinct (map fst m) \<Longrightarrow>
   map_of (hm_retain p m) k = (case map_of m k of None \<Rightarrow> None | Some v \<Rightarrow> if p k v then Some v else None)"
  by (induction m) (auto simp: hm_retain_def split: option.splits dest: map_of_SomeD
      intro!: map_of_eq_None_iff [THEN iffD2] rev_image_eqI)

lemma length_AList_update:
  "length (AList.update k v m) = (if k \<in> fst ` set m then length m else Suc (length m))"
  by (induction m) auto

lemma length_AList_delete:
  "distinct (map fst m) \<Longrightarrow> k \<in> fst ` set m \<Longrightarrow> Suc (length (AList.delete k m)) = length m"
  by (induction m) (auto simp: delete_notin_dom AList.delete_eq [symmetric])

section \<open>Strings\<close>

text \<open>Strings are lists of characters; the texts the program inspects (URLs, environment values,
  JSON-RPC messages, cache keys) are treated as ASCII.\<close>

fun contains :: "string \<Rightarrow> string \<Rightarrow> bool" where
  "contains [] p = (p = [])"
| "contains (c # cs) p = (prefix p (c # cs) \<or> contains cs p)"

fun join :: "string \<Rightarrow> string list \<Rightarrow> string" where
  "join sep [] = []"
| "join sep [x] = x"
| "join sep (x # y # ys) = x @ sep @ join sep (y # ys)"

definition is_space :: "char \<Rightarrow> bool" where
  "is_space c \<longleftrightarrow> of_char c \<in> {9, 10, 11, 12, 13, 32 :: nat}"

definition trim :: "string \<Rightarrow> string" where
  "trim s = rev (dropWhile is_space (rev (dropWhile is_space s)))"

fun split_on :: "char \<Rightarrow> string \<Rightarrow> string list" where
  "split_on c [] = [[]]"
| "split_on c (x # xs) =
     (if x = c then [] # split_on c xs
      else (case split_on c xs of [] \<Rightarrow> [[x]] | w # ws \<Rightarrow> (x # w) # ws))"

definition to_ascii_lowercase :: "string \<Rightarrow> string" where
  "to_ascii_lowercase s = map (\<lambda>c. if of_char c \<in> {65..90 :: nat} then char_of (of_char c + 32 :: nat) else c) s"

lemma contains_iff: "contains s p \<longleftrightarrow> sublist p s"
  by (induction s) (auto simp: sublist_Cons_right)

lemma contains_append: "contains b p \<Longrightarrow> contains (a @ b) p" "contains a p \<Longrightarrow> contains (a @ b) p"
  unfolding contains_iff sublist_def by (metis append.assoc)+

lemma contains_join: "x \<in> set xs \<Longrightarrow> contains x p \<Longrightarrow> contains (join sep xs) p"
  by (induction sep xs rule: join.induct) (auto intro: contains_append)

section \<open>Little-endian byte readers\<close>

text \<open>A Solana address: 32 bytes.\<close>

type_synonym pubkey = "u8 list"

fun of_le :: "u8 list \<Rightarrow> nat" where
  "of_le [] = 0"
| "of_le (b # bs) = unat b + 256 * of_le bs"

fun to_le :: "nat \<Rightarrow> nat \<Rightarrow> u8 list" where
  "to_le 0 n = []"
| "to_le (Suc k) n = word_of_nat (n mod 256) # to_le k (n div 256)"

definition slice :: "u8 list \<Rightarrow> nat \<Rightarrow> nat \<Rightarrow> u8 list option" where
  "slice data off n = (if off + n \<le> length data then Some (take n (drop off data)) else None)"

named_theorems le_simps \<open>decoding what was encoded, and lengths of encodings\<close>

lemma length_to_le [simp, le_simps]: "length (to_le k n) = k"
  by (induction k arbitrary: n) auto

lemma of_le_to_le [le_simps]: "n < 256 ^ k \<Longrightarrow> of_le (to_le k n) = n"
proof (induction k arbitrary: n)
  case 0
  then show ?case by simp
next
  case (Suc k)
  then have "n div 256 < 256 ^ k"
    by (simp add: less_mult_imp_div_less mult.commute)
  with Suc.IH have "of_le (to_le k (n div 256)) = n div 256" by blast
  moreover have "unat (word_of_nat (n mod 256) :: u8) = n mod 256"
    by (simp add: unat_of_nat)
  ultimately show ?case by simp
qed

lemma of_le_bound: "of_le bs < 256 ^ length bs"
proof (induction bs)
  case Nil
  then show ?case by simp
next
  case (Cons b bs)
  have "unat b < 256" using unsigned_less [of b] by simp
  with Cons show ?case by simp
qed

lemma to_le_of_le [le_simps]: "to_le (length bs) (of_le bs) = bs"
proof (induction bs)
  case Nil
  then show ?case by simp
next
  case (Cons b bs)
  have b: "unat b < 256" using unsigned_less [of b] by simp
  then have "(unat b + 256 * of_le bs) mod 256 = unat b"
    and "(unat b + 256 * of_le bs) div 256 = of_le bs"
    by simp_all
  with Cons show ?case by simp
qed

lemma slice_append_left [le_simps]:
  "off = length xs \<Longrightarrow> n = length ys \<Longrightarrow> slice (xs @ ys @ zs) off n = Some ys"
  by (simp add: slice_def)

lemma slice_Some_length: "slice data off n = Some bs \<Longrightarrow> length bs = n"
  by (auto simp: slice_def split: if_splits)

end
