(* ===== verification/Rpc_Config.thy ===== *)
theory Rpc_Config
  imports Prelude
begin

text \<open>
  \<^verbatim>\<open>crates/protocols/src/rpc/config.rs\<close>: the endpoint configuration. The process environment is
  a parameter \<open>env\<close> of the default configuration (\<^verbatim>\<open>std::env::var\<close>, \<open>None\<close> when unset).
\<close>

datatype commitment_level = Processed | Confirmed | Finalized

fun as_str :: "commitment_level \<Rightarrow> string" where
  "as_str Processed = ''processed''"
| "as_str Confirmed = ''confirmed''"
| "as_str Finalized = ''finalized''"

record rpc_config =
  primary_url :: string
  fallback_urls :: "string list"
  timeout :: duration
  max_retries :: u32
  retry_base_delay_ms :: u64
  retry_max_delay_ms :: u64
  health_check_interval_secs :: u64
  commitment :: commitment_level

definition csv_values :: "string \<Rightarrow> string list" where
  "csv_values s = filter (\<lambda>x. x \<noteq> []) (map trim (split_on (CHR '','') s))"

definition default_primary :: string where
  "default_primary = ''https://api.mainnet-beta.solana.com''"

definition public_fallbacks :: "string list" where
  "public_fallbacks = [''https://solana.publicnode.com'', ''https://solana-rpc.publicnode.com'']"

definition denied :: "string list \<Rightarrow> string \<Rightarrow> bool" where
  "denied denylist u \<longleftrightarrow> (\<exists>d \<in> set denylist. contains u d)"

definition default_config :: "(string \<Rightarrow> string option) \<Rightarrow> rpc_config" where
  "default_config env =
     (let env_primary = (case env ''SOLANA_RPC_URL'' of
                           None \<Rightarrow> None | Some s \<Rightarrow> if trim s = [] then None else Some s);
          env_fallbacks = (case env ''SOLANA_RPC_FALLBACK_URLS'' of None \<Rightarrow> [] | Some s \<Rightarrow> s);
          env_denylist = (case env ''CLMM_RPC_DENYLIST'' of None \<Rightarrow> [] | Some s \<Rightarrow> s);
          denylist = csv_values env_denylist;
          fallbacks = csv_values env_fallbacks;
          p = (case env_primary of None \<Rightarrow> [] | Some s \<Rightarrow> s);
          primary_is_devnet = (contains p ''devnet'' \<or> contains p ''api.devnet.solana.com'');
          fallbacks = (if primary_is_devnet then fallbacks else fallbacks @ public_fallbacks);
          fallbacks = (if denylist \<noteq> [] then filter (\<lambda>u. \<not> denied denylist u) fallbacks
                       else fallbacks);
          primary = (case env_primary of None \<Rightarrow> default_primary | Some s \<Rightarrow> s);
          primary = (if denylist \<noteq> [] \<and> denied denylist primary then default_primary else primary)
      in \<lparr>primary_url = primary, fallback_urls = fallbacks, timeout = from_secs 30,
          max_retries = 3, retry_base_delay_ms = 100, retry_max_delay_ms = 5000,
          health_check_interval_secs = 60, commitment = Confirmed\<rparr>)"

definition new_config :: "(string \<Rightarrow> string option) \<Rightarrow> string \<Rightarrow> rpc_config" where
  "new_config env url = (default_config env)\<lparr>primary_url := url\<rparr>"

definition with_fallback :: "string \<Rightarrow> rpc_config \<Rightarrow> rpc_config" where
  "with_fallback url c = c\<lparr>fallback_urls := fallback_urls c @ [url]\<rparr>"

definition with_timeout :: "duration \<Rightarrow> rpc_config \<Rightarrow> rpc_config" where
  "with_timeout t c = c\<lparr>timeout := t\<rparr>"

definition with_max_retries :: "u32 \<Rightarrow> rpc_config \<Rightarrow> rpc_config" where
  "with_max_retries n c = c\<lparr>max_retries := n\<rparr>"

definition with_commitment :: "commitment_level \<Rightarrow> rpc_config \<Rightarrow> rpc_config" where
  "with_commitment l c = c\<lparr>commitment := l\<rparr>"

definition devnet :: "(string \<Rightarrow> string option) \<Rightarrow> rpc_config" where
  "devnet env = (default_config env)
     \<lparr>primary_url := ''https://api.devnet.solana.com'', fallback_urls := []\<rparr>"

definition testnet :: "(string \<Rightarrow> string option) \<Rightarrow> rpc_config" where
  "testnet env = (default_config env)
     \<lparr>primary_url := ''https://api.testnet.solana.com'', fallback_urls := []\<rparr>"

definition localhost :: "(string \<Rightarrow> string option) \<Rightarrow> rpc_config" where
  "localhost env = (default_config env)
     \<lparr>primary_url := ''http://127.0.0.1:8899'', fallback_urls := []\<rparr>"

text \<open>The loop of \<^verbatim>\<open>all_endpoints\<close>: push each URL that is not in the output yet.\<close>

fun push_unique :: "string list \<Rightarrow> string list \<Rightarrow> string list" where
  "push_unique out [] = out"
| "push_unique out (url # rest) =
     push_unique (if url \<in> set out then out else out @ [url]) rest"

definition all_endpoints :: "rpc_config \<Rightarrow> string list" where
  "all_endpoints c = push_unique [] (primary_url c # fallback_urls c)"

section \<open>The endpoint list\<close>

lemma push_unique_distinct: "distinct out \<Longrightarrow> distinct (push_unique out xs)"
  by (induction out xs rule: push_unique.induct) auto

lemma push_unique_set: "set (push_unique out xs) = set out \<union> set xs"
  by (induction out xs rule: push_unique.induct) auto

lemma push_unique_prefix: "\<exists>ys. push_unique out xs = out @ ys"
proof (induction out xs rule: push_unique.induct)
  case (2 out url rest)
  then show ?case by (cases "url \<in> set out") auto
qed simp

lemma set_all_endpoints: "set (all_endpoints c) = insert (primary_url c) (set (fallback_urls c))"
  unfolding all_endpoints_def by (simp only: push_unique_set) simp

lemma all_endpoints_nonempty [simp]: "all_endpoints c \<noteq> []"
  using set_all_endpoints [of c] by auto

lemma length_all_endpoints_pos [simp]: "0 < length (all_endpoints c)"
  by simp

text \<open>The relative order of first occurrences is kept: the output is the input with every
  repeated element after its first occurrence removed.\<close>

fun first_occurrences :: "string list \<Rightarrow> string list" where
  "first_occurrences [] = []"
| "first_occurrences (x # xs) = x # filter (\<lambda>y. y \<noteq> x) (first_occurrences xs)"

lemma push_unique_eq:
  "push_unique out xs = out @ filter (\<lambda>y. y \<notin> set out) (first_occurrences xs)"
proof (induction out xs rule: push_unique.induct)
  case (1 out)
  then show ?case by simp
next
  case (2 out url rest)
  show ?case
  proof (cases "url \<in> set out")
    case True
    then have "filter (\<lambda>y. y \<notin> set out) (filter (\<lambda>y. y \<noteq> url) (first_occurrences rest)) =
        filter (\<lambda>y. y \<notin> set out) (first_occurrences rest)"
      by (auto intro!: filter_cong)
    with 2 True show ?thesis by simp
  next
    case False
    have "filter (\<lambda>y. y \<notin> set out) (filter (\<lambda>y. y \<noteq> url) (first_occurrences rest)) =
        filter (\<lambda>y. y \<notin> set (out @ [url])) (first_occurrences rest)"
      by (auto intro!: filter_cong)
    with 2 False show ?thesis by simp
  qed
qed

text \<open>The endpoint list of a configuration has no duplicates, starts with the primary URL,
  holds exactly the primary and the fallback URLs, and keeps each URL at the position of its
  first occurrence (the reference definition \<open>first_occurrences\<close>).\<close>

theorem all_endpoints_spec:
  "distinct (all_endpoints c)
   \<and> hd (all_endpoints c) = primary_url c
   \<and> set (all_endpoints c) = insert (primary_url c) (set (fallback_urls c))
   \<and> all_endpoints c = first_occurrences (primary_url c # fallback_urls c)"
proof -
  have "all_endpoints c = first_occurrences (primary_url c # fallback_urls c)"
    by (simp add: all_endpoints_def push_unique_eq)
  moreover have "distinct (all_endpoints c)"
    unfolding all_endpoints_def by (rule push_unique_distinct) simp
  ultimately show ?thesis
    using set_all_endpoints [of c] by simp
qed

section \<open>The default configuration\<close>

lemma csv_values_empty [simp]: "csv_values [] = []"
  by (simp add: csv_values_def trim_def)

lemma default_config_fallbacks_not_denied:
  assumes "env ''CLMM_RPC_DENYLIST'' = Some s" and "u \<in> set (fallback_urls (default_config env))"
  shows "\<not> denied (csv_values s) u"
  using assms by (auto simp: default_config_def Let_def denied_def split: if_splits)

text \<open>The default configuration honours the deny list for every endpoint it will contact: an
  endpoint that matches a deny-listed substring can only be the built-in mainnet default, and a
  devnet primary never receives the public mainnet fallbacks on top of the configured ones.\<close>

theorem default_config_endpoints:
  fixes env :: "string \<Rightarrow> string option"
  shows "(\<forall>s u. env ''CLMM_RPC_DENYLIST'' = Some s \<longrightarrow> u \<in> set (all_endpoints (default_config env)) \<longrightarrow>
             denied (csv_values s) u \<longrightarrow> u = default_primary)
    \<and> (\<forall>p. env ''SOLANA_RPC_URL'' = Some p \<longrightarrow> contains p ''devnet'' \<longrightarrow>
             set (fallback_urls (default_config env))
               \<subseteq> set (csv_values (case env ''SOLANA_RPC_FALLBACK_URLS'' of None \<Rightarrow> [] | Some s \<Rightarrow> s)))"
proof (intro conjI allI impI)
  fix s u
  assume deny: "env ''CLMM_RPC_DENYLIST'' = Some s"
    and u: "u \<in> set (all_endpoints (default_config env))" and d: "denied (csv_values s) u"
  from u d default_config_fallbacks_not_denied [of env, OF deny]
  have p: "u = primary_url (default_config env)"
    by (auto simp: set_all_endpoints)
  from d have "csv_values s \<noteq> []" by (auto simp: denied_def)
  with deny d p show "u = default_primary"
    by (auto simp: default_config_def Let_def split: if_splits)
next
  fix p
  assume env: "env ''SOLANA_RPC_URL'' = Some p" and dn: "contains p ''devnet''"
  have "trim p \<noteq> []"
  proof
    assume "trim p = []"
    then have "dropWhile is_space p = []"
      unfolding trim_def by (metis dropWhile_eq_Nil_conv hd_dropWhile hd_in_set rev_is_Nil_conv set_rev)
    then have "\<forall>c \<in> set p. is_space c"
      by (simp add: dropWhile_eq_Nil_conv)
    moreover from dn have "CHR ''d'' \<in> set p"
      by (auto simp: contains_iff sublist_def)
    ultimately show False by (auto simp: is_space_def)
  qed
  with env dn show "set (fallback_urls (default_config env))
      \<subseteq> set (csv_values (case env ''SOLANA_RPC_FALLBACK_URLS'' of None \<Rightarrow> [] | Some s \<Rightarrow> s))"
    by (auto simp: default_config_def Let_def)
qed

text \<open>A devnet primary with one configured fallback and a deny list that names it.\<close>

definition sample_env :: "string \<Rightarrow> string option" where
  "sample_env k = (if k = ''SOLANA_RPC_URL'' then Some ''devnet:8899''
     else if k = ''SOLANA_RPC_FALLBACK_URLS'' then Some ''a, b''
     else if k = ''CLMM_RPC_DENYLIST'' then Some ''a'' else None)"

theorem default_config_endpoints_witness:
  "fallback_urls (default_config sample_env) = [''b'']
   \<and> primary_url (default_config sample_env) = ''devnet:8899''
   \<and> \<not> denied [''a''] ''b''
   \<and> set (fallback_urls (default_config sample_env)) \<subseteq> {''a'', ''b''}"
proof -
  have vals: "sample_env ''CLMM_RPC_DENYLIST'' = Some ''a''" "sample_env ''SOLANA_RPC_URL'' = Some ''devnet:8899''"
    "sample_env ''SOLANA_RPC_FALLBACK_URLS'' = Some ''a, b''"
    by (simp_all add: sample_env_def)
  have csv: "csv_values ''a'' = [''a'']" "csv_values ''a, b'' = [''a'', ''b'']"
    and dev: "contains ''devnet:8899'' ''devnet''"
    by (simp_all add: csv_values_def trim_def is_space_def)
  have "fallback_urls (default_config sample_env) = [''b'']"
    and "primary_url (default_config sample_env) = ''devnet:8899''"
    using vals csv dev
    by (simp_all add: default_config_def Let_def denied_def trim_def is_space_def)
  moreover have "\<not> denied [''a''] ''b''"
    using default_config_endpoints [of sample_env] vals(1) csv(1) calculation
    by (auto simp: set_all_endpoints default_primary_def)
  moreover have "set (fallback_urls (default_config sample_env)) \<subseteq> {''a'', ''b''}"
    using default_config_endpoints [of sample_env] vals dev csv(2) by auto
  ultimately show ?thesis by simp
qed

end
