(* ===== verification/Rpc_Cluster.thy ===== *)
theory Rpc_Cluster
  imports Rpc_Config
begin

text \<open>
  \<^verbatim>\<open>crates/protocols/src/rpc/cluster.rs\<close>: the guard that compares the configured RPC URLs with
  the cluster the operator expects. The error messages are kept as structured values.
\<close>

datatype cluster_kind = MainnetBeta | Devnet | Testnet | Localnet

fun as_cli_label :: "cluster_kind \<Rightarrow> string" where
  "as_cli_label MainnetBeta = ''mainnet-beta''"
| "as_cli_label Devnet = ''devnet''"
| "as_cli_label Testnet = ''testnet''"
| "as_cli_label Localnet = ''localnet''"

datatype cluster_error =
    UnknownCluster string
  | ClusterMismatch cluster_kind cluster_kind string

definition cluster_from_str :: "string \<Rightarrow> cluster_error + cluster_kind" where
  "cluster_from_str s =
     (let l = to_ascii_lowercase (trim s) in
      if l \<in> {''mainnet'', ''mainnet-beta'', ''mainnet_beta''} then Inr MainnetBeta
      else if l = ''devnet'' then Inr Devnet
      else if l = ''testnet'' then Inr Testnet
      else if l \<in> {''local'', ''localhost'', ''localnet''} then Inr Localnet
      else Inl (UnknownCluster s))"

definition infer_cluster_hint_from_rpc_url :: "string \<Rightarrow> cluster_kind option" where
  "infer_cluster_hint_from_rpc_url url =
     (let u = to_ascii_lowercase url in
      if contains u ''devnet'' then Some Devnet
      else if contains u ''testnet'' then Some Testnet
      else if contains u ''mainnet'' then Some MainnetBeta
      else if contains u ''127.0.0.1'' \<or> contains u ''localhost'' then Some Localnet
      else None)"

fun check_hints :: "cluster_kind \<Rightarrow> string list \<Rightarrow> cluster_error + unit" where
  "check_hints expected [] = Inr ()"
| "check_hints expected (url # urls) =
     (case infer_cluster_hint_from_rpc_url url of
        None \<Rightarrow> check_hints expected urls
      | Some hint \<Rightarrow>
          if hint \<noteq> expected then Inl (ClusterMismatch hint expected url)
          else check_hints expected urls)"

definition enforce_expected_cluster_for_rpc_urls ::
    "(string \<Rightarrow> string option) \<Rightarrow> string list \<Rightarrow> cluster_error + unit" where
  "enforce_expected_cluster_for_rpc_urls env urls =
     (case env ''CLMM_EXPECTED_CLUSTER'' of
        None \<Rightarrow> Inr ()
      | Some raw \<Rightarrow>
          if trim raw = [] then Inr ()
          else (case cluster_from_str (trim raw) of
                  Inl e \<Rightarrow> Inl e
                | Inr expected \<Rightarrow> check_hints expected urls))"

definition enforce_expected_cluster_for_rpc_config ::
    "(string \<Rightarrow> string option) \<Rightarrow> rpc_config \<Rightarrow> cluster_error + unit" where
  "enforce_expected_cluster_for_rpc_config env c =
     enforce_expected_cluster_for_rpc_urls env (all_endpoints c)"

lemma check_hints_ok:
  "check_hints k urls = Inr () \<longleftrightarrow>
     (\<forall>u \<in> set urls. infer_cluster_hint_from_rpc_url u \<in> {None, Some k})"
  by (induction urls) (auto split: option.splits)

lemma check_hints_error:
  "check_hints k urls = Inl e \<Longrightarrow>
     \<exists>u h. u \<in> set urls \<and> infer_cluster_hint_from_rpc_url u = Some h \<and> h \<noteq> k
           \<and> e = ClusterMismatch h k u"
  by (induction urls) (auto split: option.splits if_splits)

text \<open>The cluster guard accepts a configuration exactly when no expectation is set, or the
  expectation parses and every configured endpoint whose cluster can be inferred from its URL
  is on that cluster. For the label of a cluster the parse gives that cluster back.\<close>

theorem cluster_guard_spec:
  "(enforce_expected_cluster_for_rpc_config env c = Inr () \<longleftrightarrow>
     (case env ''CLMM_EXPECTED_CLUSTER'' of
        None \<Rightarrow> True
      | Some raw \<Rightarrow> trim raw = [] \<or>
          (\<exists>k. cluster_from_str (trim raw) = Inr k \<and>
             (\<forall>u \<in> insert (primary_url c) (set (fallback_urls c)).
                infer_cluster_hint_from_rpc_url u \<in> {None, Some k}))))
   \<and> (\<forall>k. cluster_from_str (as_cli_label k) = Inr k)"
proof
  show "enforce_expected_cluster_for_rpc_config env c = Inr () \<longleftrightarrow>
     (case env ''CLMM_EXPECTED_CLUSTER'' of
        None \<Rightarrow> True
      | Some raw \<Rightarrow> trim raw = [] \<or>
          (\<exists>k. cluster_from_str (trim raw) = Inr k \<and>
             (\<forall>u \<in> insert (primary_url c) (set (fallback_urls c)).
                infer_cluster_hint_from_rpc_url u \<in> {None, Some k})))"
    by (auto simp: enforce_expected_cluster_for_rpc_config_def
        enforce_expected_cluster_for_rpc_urls_def check_hints_ok set_all_endpoints
        split: option.splits sum.splits)
  show "\<forall>k. cluster_from_str (as_cli_label k) = Inr k"
  proof
    fix k
    show "cluster_from_str (as_cli_label k) = Inr k"
      by (cases k) (simp_all add: cluster_from_str_def trim_def is_space_def to_ascii_lowercase_def)
  qed
qed

theorem cluster_guard_spec_witness:
  "enforce_expected_cluster_for_rpc_config (\<lambda>k. if k = ''CLMM_EXPECTED_CLUSTER'' then Some ''devnet'' else None)
     (default_config (\<lambda>_. None))
   \<noteq> Inr ()"
proof -
  let ?env = "\<lambda>k. if k = ''CLMM_EXPECTED_CLUSTER'' then Some ''devnet'' else None"
  have "infer_cluster_hint_from_rpc_url default_primary = Some MainnetBeta"
    by (simp add: infer_cluster_hint_from_rpc_url_def default_primary_def to_ascii_lowercase_def)
  moreover have "primary_url (default_config (\<lambda>_. None)) = default_primary"
    by (simp add: default_config_def Let_def)
  moreover have "trim ''devnet'' = ''devnet''" by (simp add: trim_def is_space_def)
  moreover have "cluster_from_str ''devnet'' = Inr Devnet"
    using cluster_guard_spec [of ?env "default_config (\<lambda>_. None)"] as_cli_label.simps(2) by metis
  ultimately show ?thesis
    using cluster_guard_spec [of ?env "default_config (\<lambda>_. None)"] by auto
qed

end
