(* ===== verification/F64.thy ===== *)
theory F64
  imports Complex_Main "HOL-Library.Log_Nat" Prelude
begin

text \<open>
  The IEEE 754 binary64 type \<^verbatim>\<open>f64\<close> and the operators of it that the modelled sources use:
  \<open>+\<close>, \<open>-\<close>, \<open>*\<close>, \<open>/\<close>, the comparisons, \<^verbatim>\<open>abs\<close>, \<^verbatim>\<open>floor\<close>, \<^verbatim>\<open>round\<close>, \<^verbatim>\<open>clamp\<close> and the conversions from and
  to integers. A finite value is a sign and an exact magnitude; every operation computes the
  exact rational result and rounds it once, to nearest with ties to even, as the standard
  prescribes.
\<close>

datatype f64 = F64_NaN | F64_Inf bool | F64_Fin bool rat

definition pow2 :: "int \<Rightarrow> rat" where
  "pow2 k = (if 0 \<le> k then 2 ^ nat k else 1 / 2 ^ nat (- k))"

definition flog2 :: "rat \<Rightarrow> int" where
  "flog2 r = (let (p, q) = quotient_of r; k = bitlen p - bitlen q
              in if pow2 k \<le> r then k else k - 1)"

definition round_half_even :: "rat \<Rightarrow> int" where
  "round_half_even r = (let f = \<lfloor>r\<rfloor>; d = r - of_int f
     in if d < 1 / 2 then f else if 1 / 2 < d then f + 1 else if even f then f else f + 1)"

definition f64_round :: "bool \<Rightarrow> rat \<Rightarrow> f64" where
  "f64_round neg r =
     (if r = 0 then F64_Fin neg 0
      else let e = max (flog2 r - 52) (- 1074);
               v = of_int (round_half_even (r / pow2 e)) * pow2 e
           in if pow2 1024 \<le> v then F64_Inf neg else F64_Fin neg v)"

definition signed_val :: "bool \<Rightarrow> rat \<Rightarrow> rat" where
  "signed_val neg m = (if neg then - m else m)"

definition f64_of_rat :: "bool \<Rightarrow> rat \<Rightarrow> f64" where
  "f64_of_rat zero_neg r = (if r = 0 then F64_Fin zero_neg 0 else f64_round (r < 0) \<bar>r\<bar>)"

definition f64_of_nat :: "nat \<Rightarrow> f64" where
  "f64_of_nat n = f64_round False (of_nat n)"

fun f64_neg :: "f64 \<Rightarrow> f64" where
  "f64_neg F64_NaN = F64_NaN"
| "f64_neg (F64_Inf s) = F64_Inf (\<not> s)"
| "f64_neg (F64_Fin s m) = F64_Fin (\<not> s) m"

fun f64_add :: "f64 \<Rightarrow> f64 \<Rightarrow> f64" where
  "f64_add F64_NaN _ = F64_NaN"
| "f64_add _ F64_NaN = F64_NaN"
| "f64_add (F64_Inf s) (F64_Inf t) = (if s = t then F64_Inf s else F64_NaN)"
| "f64_add (F64_Inf s) _ = F64_Inf s"
| "f64_add _ (F64_Inf t) = F64_Inf t"
| "f64_add (F64_Fin s m) (F64_Fin t n) = f64_of_rat (s \<and> t) (signed_val s m + signed_val t n)"

definition f64_sub :: "f64 \<Rightarrow> f64 \<Rightarrow> f64" where
  "f64_sub a b = f64_add a (f64_neg b)"

fun f64_mul :: "f64 \<Rightarrow> f64 \<Rightarrow> f64" where
  "f64_mul F64_NaN _ = F64_NaN"
| "f64_mul _ F64_NaN = F64_NaN"
| "f64_mul (F64_Inf s) (F64_Inf t) = F64_Inf (s \<noteq> t)"
| "f64_mul (F64_Inf s) (F64_Fin t n) = (if n = 0 then F64_NaN else F64_Inf (s \<noteq> t))"
| "f64_mul (F64_Fin s m) (F64_Inf t) = (if m = 0 then F64_NaN else F64_Inf (s \<noteq> t))"
| "f64_mul (F64_Fin s m) (F64_Fin t n) = f64_round (s \<noteq> t) (m * n)"

fun f64_div :: "f64 \<Rightarrow> f64 \<Rightarrow> f64" where
  "f64_div F64_NaN _ = F64_NaN"
| "f64_div _ F64_NaN = F64_NaN"
| "f64_div (F64_Inf s) (F64_Inf t) = F64_NaN"
| "f64_div (F64_Inf s) (F64_Fin t n) = F64_Inf (s \<noteq> t)"
| "f64_div (F64_Fin s m) (F64_Inf t) = F64_Fin (s \<noteq> t) 0"
| "f64_div (F64_Fin s m) (F64_Fin t n) =
     (if n = 0 then (if m = 0 then F64_NaN else F64_Inf (s \<noteq> t)) else f64_round (s \<noteq> t) (m / n))"

fun f64_lt :: "f64 \<Rightarrow> f64 \<Rightarrow> bool" where
  "f64_lt F64_NaN _ = False"
| "f64_lt _ F64_NaN = False"
| "f64_lt (F64_Inf s) (F64_Inf t) = (s \<and> \<not> t)"
| "f64_lt (F64_Inf s) (F64_Fin t n) = s"
| "f64_lt (F64_Fin s m) (F64_Inf t) = (\<not> t)"
| "f64_lt (F64_Fin s m) (F64_Fin t n) = (signed_val s m < signed_val t n)"

fun f64_eq :: "f64 \<Rightarrow> f64 \<Rightarrow> bool" where
  "f64_eq (F64_Inf s) (F64_Inf t) = (s = t)"
| "f64_eq (F64_Fin s m) (F64_Fin t n) = (signed_val s m = signed_val t n)"
| "f64_eq _ _ = False"

definition f64_le :: "f64 \<Rightarrow> f64 \<Rightarrow> bool" where
  "f64_le a b \<longleftrightarrow> f64_lt a b \<or> f64_eq a b"

definition f64_of_int :: "int \<Rightarrow> f64" where
  "f64_of_int i = f64_of_rat False (of_int i)"

fun f64_abs :: "f64 \<Rightarrow> f64" where
  "f64_abs F64_NaN = F64_NaN"
| "f64_abs (F64_Inf s) = F64_Inf False"
| "f64_abs (F64_Fin s m) = F64_Fin False m"

text \<open>\<^verbatim>\<open>floor\<close> and \<^verbatim>\<open>round\<close> (half away from zero) keep the sign of the operand; their results are
  integers of at most the operand's precision, so no rounding is needed.\<close>

fun f64_floor :: "f64 \<Rightarrow> f64" where
  "f64_floor (F64_Fin s m) = F64_Fin s (if s then of_int \<lceil>m\<rceil> else of_int \<lfloor>m\<rfloor>)"
| "f64_floor x = x"

fun f64_round_away :: "f64 \<Rightarrow> f64" where
  "f64_round_away (F64_Fin s m) = F64_Fin s (of_int \<lfloor>m + 1 / 2\<rfloor>)"
| "f64_round_away x = x"

text \<open>\<^verbatim>\<open>clamp\<close> panics unless the bounds are ordered.\<close>

definition f64_clamp :: "f64 \<Rightarrow> f64 \<Rightarrow> f64 \<Rightarrow> f64 option" where
  "f64_clamp x lo hi =
     (if f64_le lo hi then Some (if f64_lt x lo then lo else if f64_lt hi x then hi else x) else None)"

text \<open>\<^verbatim>\<open>as\<close> casts truncate towards zero, saturate and send NaN to zero.\<close>

fun f64_as_int :: "int \<Rightarrow> int \<Rightarrow> f64 \<Rightarrow> int" where
  "f64_as_int lo hi F64_NaN = 0"
| "f64_as_int lo hi (F64_Inf s) = (if s then lo else hi)"
| "f64_as_int lo hi (F64_Fin s m) = max lo (min hi (if s then - \<lfloor>m\<rfloor> else \<lfloor>m\<rfloor>))"

definition f64_as_i32 :: "f64 \<Rightarrow> int" where
  "f64_as_i32 x = f64_as_int (- (2 ^ 31)) (2 ^ 31 - 1) x"

definition f64_as_u128 :: "f64 \<Rightarrow> u128" where
  "f64_as_u128 x = word_of_int (f64_as_int 0 (2 ^ 128 - 1) x)"

text \<open>\<^verbatim>\<open>f64::max\<close> and \<^verbatim>\<open>f64::min\<close> ignore a NaN; which of two equal zeros they return is not specified.\<close>

definition f64_max :: "f64 \<Rightarrow> f64 \<Rightarrow> f64" where
  "f64_max a b = (if a = F64_NaN then b else if b = F64_NaN then a else if f64_lt a b then b else a)"

definition f64_min :: "f64 \<Rightarrow> f64 \<Rightarrow> f64" where
  "f64_min a b = (if a = F64_NaN then b else if b = F64_NaN then a else if f64_lt b a then b else a)"

fun f64_is_finite :: "f64 \<Rightarrow> bool" where
  "f64_is_finite (F64_Fin s r) = True"
| "f64_is_finite _ = False"

lemma f64_as_i32_range: "is_i32 (f64_as_i32 x)"
  by (cases x) (auto simp: f64_as_i32_def is_i32_def)

text \<open>A magnitude is never negative.\<close>

fun wf_f64 :: "f64 \<Rightarrow> bool" where
  "wf_f64 (F64_Fin s m) \<longleftrightarrow> 0 \<le> m"
| "wf_f64 _ \<longleftrightarrow> True"

lemma f64_as_i32_abs: "wf_f64 x \<Longrightarrow> 0 \<le> f64_as_i32 (f64_abs x)"
  by (cases x) (auto simp: f64_as_i32_def)

lemma f64_round_nonneg: "0 \<le> r \<Longrightarrow> wf_f64 (f64_round s r)"
proof -
  assume r: "0 \<le> r"
  have "0 \<le> pow2 e" for e by (simp add: pow2_def)
  then have "0 \<le> round_half_even (r / pow2 e)" for e
    using r by (simp add: round_half_even_def Let_def zero_le_floor)
  with \<open>\<And>e. 0 \<le> pow2 e\<close> show ?thesis by (simp add: f64_round_def Let_def)
qed

lemma wf_f64_of_rat: "wf_f64 (f64_of_rat z r)"
  by (simp add: f64_of_rat_def f64_round_nonneg)

lemma wf_f64_div: "wf_f64 a \<Longrightarrow> wf_f64 b \<Longrightarrow> wf_f64 (f64_div a b)"
  by (cases a; cases b) (auto intro: f64_round_nonneg)

lemma f64_lt_irrefl [simp]: "\<not> f64_lt x x"
  by (cases x) auto

lemma f64_lt_trans: "f64_lt x y \<Longrightarrow> f64_lt y z \<Longrightarrow> f64_lt x z"
  by (cases x; cases y; cases z) (auto split: if_splits)

lemma f64_not_lt_trans:
  "\<not> f64_lt y x \<Longrightarrow> \<not> f64_lt z y \<Longrightarrow> y \<noteq> F64_NaN \<Longrightarrow> \<not> f64_lt z x"
  by (cases x; cases y; cases z) (auto split: if_splits)

lemma f64_le_not_lt: "f64_le a b \<Longrightarrow> \<not> f64_lt b a"
  by (cases a; cases b) (auto simp: f64_le_def)

lemma f64_lt_asym: "f64_lt x y \<Longrightarrow> \<not> f64_lt y x"
  using f64_lt_trans [of x y x] by auto

lemma f64_min_le: "\<not> f64_lt a (f64_min a b)" "\<not> f64_lt b (f64_min a b)"
proof -
  have nan: "\<not> f64_lt F64_NaN x" for x by (cases x) simp_all
  show "\<not> f64_lt a (f64_min a b)" using f64_lt_asym [of b a] by (simp add: f64_min_def nan)
  show "\<not> f64_lt b (f64_min a b)" by (simp add: f64_min_def nan)
qed

lemma f64_clamp_range:
  "f64_le lo hi \<Longrightarrow> \<exists>y. f64_clamp x lo hi = Some y \<and> \<not> f64_lt hi y \<and> \<not> f64_lt y lo"
  by (auto simp: f64_clamp_def f64_le_not_lt)

lemma f64_as_int_range:
  assumes "\<not> f64_lt (F64_Fin False (of_nat n)) x" and "0 \<le> hi"
  shows "0 \<le> f64_as_int 0 hi x \<and> f64_as_int 0 hi x \<le> int n"
proof (cases x)
  case (F64_Fin s m)
  with assms(1) have "signed_val s m \<le> of_nat n" by (simp add: signed_val_def)
  then have "s \<Longrightarrow> of_int (- int n) \<le> m" "\<not> s \<Longrightarrow> m < of_int (int n + 1)"
    by (simp_all add: signed_val_def)
  then have "s \<longrightarrow> - int n \<le> \<lfloor>m\<rfloor>" "\<not> s \<longrightarrow> \<lfloor>m\<rfloor> < int n + 1"
    unfolding le_floor_iff floor_less_iff by blast+
  with F64_Fin assms(2) show ?thesis by auto
qed (use assms in auto)

lemma f64_round_not_NaN [simp]: "f64_round s r \<noteq> F64_NaN"
  by (simp add: f64_round_def Let_def)


section \<open>Rounding of concrete values\<close>

lemma pow2_pos [simp]: "0 < pow2 k"
  by (simp add: pow2_def)

lemma pow2_nonneg [simp]: "0 \<le> pow2 k" and pow2_nonzero [simp]: "pow2 k \<noteq> 0"
  using pow2_pos [of k] by linarith+

lemma pow2_powr: "real_of_rat (pow2 k) = 2 powr real_of_int k"
  by (auto simp: pow2_def of_rat_power of_rat_divide powr_realpow [symmetric] powr_minus divide_simps)

lemma pow2_add: "pow2 (i + j) = pow2 i * pow2 j"
proof -
  have "real_of_rat (pow2 (i + j)) = real_of_rat (pow2 i * pow2 j)"
    by (simp add: pow2_powr of_rat_mult powr_add)
  then show ?thesis by (simp only: of_rat_eq_iff)
qed

lemma pow2_le_iff [simp]: "pow2 i \<le> pow2 j \<longleftrightarrow> i \<le> j"
  using of_rat_less_eq [of "pow2 i" "pow2 j", where 'a = real] by (simp add: pow2_powr)

lemma pow2_less_iff [simp]: "pow2 i < pow2 j \<longleftrightarrow> i < j"
  by (simp add: not_le [symmetric])

lemma bitlen_range: "0 < x \<Longrightarrow> pow2 (bitlen x - 1) \<le> of_int x \<and> of_int x < pow2 (bitlen x)"
proof -
  assume x: "0 < x"
  have b: "2 ^ nat (bitlen x - 1) \<le> x \<and> x < 2 ^ nat (bitlen x)" by (rule bitlen_bounds [OF x])
  moreover have "0 < bitlen x" using x bitlen_eq_zero_iff [of x] bitlen_nonneg [of x] by linarith
  ultimately show ?thesis
    by (simp add: pow2_def)
qed

lemma flog2_eq:
  assumes "pow2 k \<le> r" and "r < pow2 (k + 1)"
  shows "flog2 r = k"
proof -
  obtain p q where pq: "quotient_of r = (p, q)" by fastforce
  have q: "0 < q" using pq by (rule quotient_of_denom_pos)
  have r: "r = of_int p / of_int q" using pq by (rule quotient_of_div)
  have "0 < r" using assms(1) pow2_pos [of k] by linarith
  then have p: "0 < p" using q r by (simp add: zero_less_divide_iff)
  let ?d = "bitlen p - bitlen q"
  have bp: "pow2 (bitlen p - 1) \<le> of_int p" "of_int p < pow2 (bitlen p)"
    and bq: "pow2 (bitlen q - 1) \<le> of_int q" "of_int q < pow2 (bitlen q)"
    using bitlen_range p q by auto
  have "pow2 (?d - 1) * pow2 (bitlen q) \<le> of_int p" using bp(1) by (simp add: pow2_add [symmetric])
  moreover have "pow2 (?d - 1) * of_int q < pow2 (?d - 1) * pow2 (bitlen q)"
    using bq(2) by simp
  ultimately have "pow2 (?d - 1) * of_int q < of_int p" by linarith
  then have lo: "pow2 (?d - 1) < r" using q by (simp add: r pos_less_divide_eq)
  have "of_int p < pow2 (?d + 1) * pow2 (bitlen q - 1)" using bp(2) by (simp add: pow2_add [symmetric])
  moreover have "pow2 (?d + 1) * pow2 (bitlen q - 1) \<le> pow2 (?d + 1) * of_int q"
    using bq(1) by simp
  ultimately have "of_int p < pow2 (?d + 1) * of_int q" by linarith
  then have hi: "r < pow2 (?d + 1)" using q by (simp add: r pos_divide_less_eq)
  have "?d - 1 < k + 1" using lo assms(2) by (metis less_trans pow2_less_iff)
  moreover have "k < ?d + 1" using hi assms(1) by (metis le_less_trans pow2_less_iff)
  ultimately consider "?d = k" | "?d = k + 1" by linarith
  then show ?thesis
    using assms by cases (simp_all add: flog2_def pq not_le)
qed

lemma round_half_even_eq: "\<bar>r - of_int n\<bar> < 1 / 2 \<Longrightarrow> round_half_even r = n"
proof (cases "of_int n \<le> r")
  case True
  moreover assume "\<bar>r - of_int n\<bar> < 1 / 2"
  ultimately have "\<lfloor>r\<rfloor> = n" "r - of_int n < 1 / 2" by (auto simp: floor_eq_iff)
  then show ?thesis by (simp add: round_half_even_def)
next
  case False
  moreover assume "\<bar>r - of_int n\<bar> < 1 / 2"
  ultimately have "\<lfloor>r\<rfloor> = n - 1" "1 / 2 < r - of_int (n - 1)" by (auto simp: floor_eq_iff)
  then show ?thesis by (simp add: round_half_even_def Let_def)
qed

lemma f64_round_eq:
  assumes "pow2 k \<le> r" and "r < pow2 (k + 1)" and "- 1022 \<le> k" and "k \<le> 1022"
    and n: "\<bar>r / pow2 (k - 52) - of_int n\<bar> < 1 / 2"
  shows "f64_round s r = F64_Fin s (of_int n * pow2 (k - 52))"
proof -
  have "0 < r" using assms(1) pow2_pos [of k] by linarith
  moreover have e: "max (flog2 r - 52) (- 1074) = k - 52"
    using flog2_eq [OF assms(1,2)] assms(3) by simp
  moreover have "of_int n * pow2 (k - 52) < pow2 1024"
  proof -
    have "of_int n < r / pow2 (k - 52) + 1 / 2" using n by linarith
    then have "of_int n * pow2 (k - 52) < (r / pow2 (k - 52) + 1 / 2) * pow2 (k - 52)"
      by (rule mult_strict_right_mono) simp
    also have "\<dots> = r + pow2 (k - 52) / 2" using pow2_pos [of "k - 52"] by (simp add: distrib_right less_imp_neq [symmetric])
    also have "\<dots> \<le> pow2 (k + 1) + pow2 (k + 1)"
      using assms(2) pow2_le_iff [of "k - 52" "k + 1"] pow2_pos [of "k - 52"] by linarith
    also have "\<dots> = pow2 (k + 2)" using pow2_add [of "k + 1" 1] by (simp add: pow2_def [of 1] add.commute)
    also have "\<dots> \<le> pow2 1024" using assms(4) by simp
    finally show ?thesis .
  qed
  ultimately show ?thesis
    using round_half_even_eq [OF n] by (simp add: f64_round_def Let_def)
qed

lemma round_half_even_error: "\<bar>of_int (round_half_even r) - r\<bar> \<le> 1 / 2"
  using floor_correct [of r] by (auto simp: round_half_even_def Let_def abs_le_iff)

lemma flog2_bounds: "0 < r \<Longrightarrow> pow2 (flog2 r) \<le> r \<and> r < pow2 (flog2 r + 1)"
proof -
  assume "0 < r"
  then have r: "0 < real_of_rat r" by simp
  define k where "k = \<lfloor>log 2 (real_of_rat r)\<rfloor>"
  have "2 powr k \<le> real_of_rat r" "real_of_rat r < 2 powr (k + 1)"
    using r floor_correct [of "log 2 (real_of_rat r)"]
    by (simp_all add: k_def le_log_iff [symmetric] log_less_iff [symmetric] add.commute)
  then have "real_of_rat (pow2 k) \<le> real_of_rat r" "real_of_rat r < real_of_rat (pow2 (k + 1))"
    by (simp_all add: pow2_powr)
  then have "pow2 k \<le> r" "r < pow2 (k + 1)" by (simp_all only: of_rat_less_eq of_rat_less)
  with flog2_eq show ?thesis by simp
qed

text \<open>In the normal range the relative error is at most \<open>2 ^ -53\<close>.\<close>

lemma f64_round_error:
  assumes "pow2 (- 1022) \<le> r" and "r < pow2 1022"
  shows "\<exists>m. f64_round s r = F64_Fin s m \<and> \<bar>m - r\<bar> \<le> r / 2 ^ 53"
proof -
  have r0: "0 < r" using assms(1) pow2_pos [of "- 1022"] by linarith
  define k where "k = flog2 r"
  have k: "pow2 k \<le> r" "r < pow2 (k + 1)" using flog2_bounds [OF r0] by (simp_all add: k_def)
  have "- 1022 < k + 1" using assms(1) k(2) by (metis le_less_trans pow2_less_iff)
  then have lo: "- 1022 \<le> k" by simp
  have hi: "k < 1022" using assms(2) k(1) by (metis le_less_trans pow2_less_iff)
  define n where "n = round_half_even (r / pow2 (k - 52))"
  have p: "0 < pow2 (k - 52)" by simp
  have e: "\<bar>of_int n * pow2 (k - 52) - r\<bar> \<le> pow2 (k - 52) / 2"
  proof -
    have "\<bar>of_int n - r / pow2 (k - 52)\<bar> * pow2 (k - 52) \<le> 1 / 2 * pow2 (k - 52)"
      unfolding n_def by (rule mult_right_mono [OF round_half_even_error less_imp_le [OF p]])
    moreover have "\<bar>of_int n - r / pow2 (k - 52)\<bar> * pow2 (k - 52) = \<bar>(of_int n - r / pow2 (k - 52)) * pow2 (k - 52)\<bar>"
      using p by (simp add: abs_mult)
    ultimately show ?thesis using p by (simp add: left_diff_distrib less_imp_neq [symmetric])
  qed
  have "pow2 k = pow2 (k - 52) * pow2 52" by (simp add: pow2_add [symmetric])
  then have b: "pow2 (k - 52) / 2 \<le> r / 2 ^ 53" using k(1) by (simp add: pow2_def [of 52])
  have "of_int n * pow2 (k - 52) < pow2 1024"
  proof -
    have "r / 2 ^ 53 \<le> r" using r0 by simp
    with e b have "of_int n * pow2 (k - 52) \<le> r + r" by linarith
    also have "\<dots> < pow2 1022 * 2" using assms(2) by simp
    also have "\<dots> = pow2 1023" using pow2_add [of 1022 1] by (simp add: pow2_def [of 1])
    also have "\<dots> < pow2 1024" by simp
    finally show ?thesis .
  qed
  then have "f64_round s r = F64_Fin s (of_int n * pow2 (k - 52))"
    using r0 lo by (simp add: f64_round_def Let_def k_def [symmetric] n_def [symmetric] max_absorb1)
  with e b show ?thesis by auto
qed

text \<open>Integers below \<open>2 ^ 53\<close> are exact.\<close>

lemma f64_round_exact:
  assumes "0 < n" and "n < 2 ^ 53"
  shows "f64_round s (of_nat n) = F64_Fin s (of_nat n)"
proof -
  define k where "k = bitlen (int n) - 1"
  have b: "pow2 k \<le> of_nat n" "of_nat n < pow2 (k + 1)"
    using bitlen_range [of "int n"] assms(1) by (simp_all add: k_def)
  have k0: "0 \<le> k" using assms(1) bitlen_eq_zero_iff [of "int n"] bitlen_nonneg [of "int n"] unfolding k_def by linarith
  have "pow2 k < pow2 53"
  proof -
    have "(of_nat n :: rat) < of_nat (2 ^ 53)" using assms(2) by (simp only: of_nat_less_iff)
    with b(1) show ?thesis by (simp add: pow2_def)
  qed
  then have k: "k \<le> 52" by simp
  define m where "m = int n * 2 ^ nat (52 - k)"
  have p: "pow2 (k - 52) = 1 / 2 ^ nat (52 - k)" using k by (cases "k = 52") (simp_all add: pow2_def)
  have m: "of_nat n / pow2 (k - 52) = of_int m" "of_int m * pow2 (k - 52) = of_nat n"
    by (simp_all add: m_def p)
  show ?thesis
    using f64_round_eq [OF b, of m s] k0 k m by simp
qed

end
