(* ===== verification/Interfaces.thy ===== *)
theory Interfaces
  imports Prelude
begin

text \<open>
  The two generic contracts that several components of the program satisfy, stated as locales and
  interpreted on the components' own definitions:
  \<^item> \<open>guarded_system\<close>: an object whose operations are events and whose invariant every operation
    keeps, so that it holds after any sequence of calls;
  \<^item> \<open>retry_loop\<close>: a bounded retry loop around a fallible attempt, as in
    \<^verbatim>\<open>RpcProvider::execute_with_retry\<close> and \<^verbatim>\<open>TransactionManager::send_transaction\<close>.
\<close>

section \<open>Objects with an invariant\<close>

locale guarded_system =
  fixes step :: "'s \<Rightarrow> 'e \<Rightarrow> 's"
    and inv :: "'s \<Rightarrow> bool"
  assumes step_inv: "inv s \<Longrightarrow> inv (step s e)"
begin

lemma run_inv: "inv s \<Longrightarrow> inv (foldl step s es)"
  by (induction es arbitrary: s) (auto intro: step_inv)

end

section \<open>Bounded retry loops\<close>

datatype ('e, 'a) verdict = Done 'a | Fatal 'e | Again 'e

locale retry_loop =
  fixes body :: "nat \<Rightarrow> 's \<Rightarrow> ('e, 'a) verdict \<times> 's"
    and loop :: "nat \<Rightarrow> 's \<Rightarrow> ('e + 'a) \<times> 's"
    and max_retries :: nat
  assumes loop_unfold:
    "n \<le> max_retries \<Longrightarrow> loop n s =
      (case body n s of
         (Done a, s') \<Rightarrow> (Inr a, s')
       | (Fatal e, s') \<Rightarrow> (Inl e, s')
       | (Again e, s') \<Rightarrow> if n < max_retries then loop (Suc n) s' else (Inl e, s'))"
begin

text \<open>The attempts the loop makes from attempt \<open>n\<close> in state \<open>s\<close>: the verdicts in order.\<close>

fun trace :: "nat \<Rightarrow> nat \<Rightarrow> 's \<Rightarrow> ('e, 'a) verdict list" where
  "trace 0 n s = []"
| "trace (Suc k) n s =
     (case body n s of (Again e, s') \<Rightarrow> Again e # trace k (Suc n) s' | (v, s') \<Rightarrow> [v])"

lemma length_trace: "length (trace k n s) \<le> k"
  by (induction k n s rule: trace.induct) (auto split: prod.splits verdict.splits)

lemma trace_not_Nil: "0 < k \<Longrightarrow> trace k n s \<noteq> []"
  by (cases k) (auto split: prod.splits verdict.splits)

text \<open>The loop's result is the verdict of its last attempt, every earlier attempt asked for a
  retry, and no more than \<open>max_retries + 1\<close> attempts are made.\<close>

lemma loop_last:
  assumes "n \<le> max_retries"
  shows "fst (loop n s) =
    (case last (trace (Suc (max_retries - n)) n s) of
       Done a \<Rightarrow> Inr a | Fatal e \<Rightarrow> Inl e | Again e \<Rightarrow> Inl e)"
  using assms
proof (induction "max_retries - n" arbitrary: n s)
  case 0
  then show ?case
    by (auto simp: loop_unfold split: prod.splits verdict.splits)
next
  case (Suc k)
  obtain v s' where b: "body n s = (v, s')" by fastforce
  show ?case
  proof (cases v)
    case (Again e)
    have k: "k = max_retries - Suc n" and le: "Suc n \<le> max_retries" using Suc.hyps(2) by simp_all
    from le have eq: "Suc (max_retries - n) = Suc (Suc (max_retries - Suc n))" by simp
    have "trace (Suc (max_retries - Suc n)) (Suc n) s' \<noteq> []"
      by (rule trace_not_Nil) simp
    with Again b le Suc.hyps(1) [OF k le, of s'] Suc.prems show ?thesis
      by (simp add: loop_unfold eq del: trace.simps(2) add: trace.simps(2) [of _ n])
  qed (use b Suc.prems in \<open>auto simp: loop_unfold\<close>)
qed

lemma trace_retries: "v \<in> set (butlast (trace k n s)) \<Longrightarrow> \<exists>e. v = Again e"
proof (induction k n s rule: trace.induct)
  case (1 n s)
  then show ?case by simp
next
  case (2 k n s)
  then show ?case
    by (auto split: prod.splits verdict.splits if_splits)
qed

lemma loop_preserves:
  assumes "\<And>m t. P t \<Longrightarrow> P (snd (body m t))" and "P s" and "n \<le> max_retries"
  shows "P (snd (loop n s))"
  using assms(2,3)
proof (induction "max_retries - n" arbitrary: n s)
  case 0
  have "P (snd (body n s))" using 0 by (intro assms(1))
  with 0 show ?case
    by (auto simp: loop_unfold split: prod.splits verdict.splits)
next
  case (Suc k)
  obtain v s' where b: "body n s = (v, s')" by fastforce
  with assms(1) [OF Suc.prems(1), of n] have s': "P s'" by simp
  from Suc.hyps(2) have "k = max_retries - Suc n" and "Suc n \<le> max_retries" by simp_all
  with Suc.hyps(1) s' have "P (snd (loop (Suc n) s'))" by blast
  with b s' Suc.prems(2) show ?case
    by (auto simp: loop_unfold split: verdict.splits)
qed

end

end
