(* ===== verification/Rpc_Health.thy ===== *)
theory Rpc_Health
  imports F64 Interfaces
begin

text \<open>
  \<^verbatim>\<open>crates/protocols/src/rpc/health.rs\<close>: per-endpoint health records and the health checker.
  The two lock-protected hash maps are association lists; each operation takes the instant
  \<open>now\<close> at which \<^verbatim>\<open>Instant::now()\<close> is read. The Solana client call of
  \<^verbatim>\<open>check_endpoint\<close> is a parameter: its outcome and the elapsed milliseconds.
\<close>

record endpoint_health =
  eh_is_healthy :: bool
  last_success :: "instant option"
  last_failure :: "instant option"
  consecutive_failures :: u32
  avg_response_time_ms :: f64
  total_requests :: u64
  successful_requests :: u64

definition default_health :: endpoint_health where
  "default_health = \<lparr>eh_is_healthy = True, last_success = None, last_failure = None,
     consecutive_failures = 0, avg_response_time_ms = F64_Fin False 0,
     total_requests = 0, successful_requests = 0\<rparr>"

definition eh_record_success :: "instant \<Rightarrow> f64 \<Rightarrow> endpoint_health \<Rightarrow> endpoint_health" where
  "eh_record_success now response_time_ms h =
     (let ok = successful_requests h + 1;
          n = f64_of_nat (unat ok)
      in h\<lparr>eh_is_healthy := True, last_success := Some now, consecutive_failures := 0,
           total_requests := total_requests h + 1, successful_requests := ok,
           avg_response_time_ms :=
             f64_add (f64_div (f64_mul (avg_response_time_ms h) (f64_sub n (f64_of_nat 1))) n)
                     (f64_div response_time_ms n)\<rparr>)"

definition eh_record_failure :: "instant \<Rightarrow> endpoint_health \<Rightarrow> endpoint_health" where
  "eh_record_failure now h =
     (let h = h\<lparr>last_failure := Some now, consecutive_failures := consecutive_failures h + 1,
                total_requests := total_requests h + 1\<rparr>
      in if 3 \<le> consecutive_failures h then h\<lparr>eh_is_healthy := False\<rparr> else h)"

definition success_rate :: "endpoint_health \<Rightarrow> f64" where
  "success_rate h =
     (if total_requests h = 0 then f64_of_nat 100
      else f64_mul (f64_div (f64_of_nat (unat (successful_requests h)))
                            (f64_of_nat (unat (total_requests h)))) (f64_of_nat 100))"

record health_checker =
  health_map :: "(string \<times> endpoint_health) list"
  disabled_endpoints :: "(string \<times> string) list"
  max_consecutive_failures :: u32
  recovery_timeout :: duration

definition new_checker :: health_checker where
  "new_checker = \<lparr>health_map = [], disabled_endpoints = [], max_consecutive_failures = 3,
     recovery_timeout = from_secs 60\<rparr>"

definition with_max_failures :: "u32 \<Rightarrow> health_checker \<Rightarrow> health_checker" where
  "with_max_failures n c = c\<lparr>max_consecutive_failures := n\<rparr>"

definition with_recovery_timeout :: "duration \<Rightarrow> health_checker \<Rightarrow> health_checker" where
  "with_recovery_timeout t c = c\<lparr>recovery_timeout := t\<rparr>"

definition is_disabled :: "string \<Rightarrow> health_checker \<Rightarrow> bool" where
  "is_disabled e c \<longleftrightarrow> map_of (disabled_endpoints c) e \<noteq> None"

definition get_health :: "string \<Rightarrow> health_checker \<Rightarrow> endpoint_health" where
  "get_health e c = (case map_of (health_map c) e of None \<Rightarrow> default_health | Some h \<Rightarrow> h)"

definition record_success :: "instant \<Rightarrow> string \<Rightarrow> f64 \<Rightarrow> health_checker \<Rightarrow> health_checker" where
  "record_success now e ms c =
     (if is_disabled e c then c
      else c\<lparr>health_map := AList.update e (eh_record_success now ms (get_health e c)) (health_map c)\<rparr>)"

definition record_failure :: "instant \<Rightarrow> string \<Rightarrow> health_checker \<Rightarrow> health_checker" where
  "record_failure now e c =
     (if is_disabled e c then c
      else c\<lparr>health_map := AList.update e (eh_record_failure now (get_health e c)) (health_map c)\<rparr>)"

definition is_healthy :: "instant \<Rightarrow> string \<Rightarrow> health_checker \<Rightarrow> bool" where
  "is_healthy now e c =
     (if is_disabled e c then False
      else case map_of (health_map c) e of
        None \<Rightarrow> True
      | Some h \<Rightarrow>
          if eh_is_healthy h then True
          else (case last_failure h of
                  None \<Rightarrow> False
                | Some t \<Rightarrow> recovery_timeout c < elapsed now t))"

definition disable_endpoint :: "string \<Rightarrow> string \<Rightarrow> health_checker \<Rightarrow> health_checker" where
  "disable_endpoint e reason c =
     c\<lparr>disabled_endpoints := AList.update e reason (disabled_endpoints c)\<rparr>"

definition disabled_reason :: "string \<Rightarrow> health_checker \<Rightarrow> string option" where
  "disabled_reason e c = map_of (disabled_endpoints c) e"

definition get_all_health :: "health_checker \<Rightarrow> (string \<times> endpoint_health) list" where
  "get_all_health c = health_map c"

definition check_endpoint ::
    "instant \<Rightarrow> string \<Rightarrow> (unit + u64) \<times> nat \<Rightarrow> health_checker \<Rightarrow> bool \<times> health_checker" where
  "check_endpoint now e slot_reply c =
     (case slot_reply of
        (Inr _, ms) \<Rightarrow> (True, record_success now e (f64_of_nat ms) c)
      | (Inl _, _) \<Rightarrow> (False, record_failure now e c))"

fun best_loop :: "health_checker \<Rightarrow> (string \<times> f64) option \<Rightarrow> string list \<Rightarrow> (string \<times> f64) option" where
  "best_loop c best [] = best"
| "best_loop c best (e # es) =
     (if is_disabled e c then best_loop c best es
      else let health = map_of (health_map c) e;
               healthy = (case health of Some h \<Rightarrow> eh_is_healthy h | None \<Rightarrow> True)
           in if \<not> healthy then best_loop c best es
              else let t = (case health of Some h \<Rightarrow> avg_response_time_ms h | None \<Rightarrow> F64_Fin False 0)
                   in best_loop c
                        (case best of
                           None \<Rightarrow> Some (e, t)
                         | Some (_, bt) \<Rightarrow> if f64_lt t bt then Some (e, t) else best) es)"

definition get_best_endpoint :: "string list \<Rightarrow> health_checker \<Rightarrow> string option" where
  "get_best_endpoint es c = map_option fst (best_loop c None es)"

section \<open>Operations as events\<close>

datatype health_op =
    RecordSuccess instant string f64
  | RecordFailure instant string
  | DisableEndpoint string string
  | CheckEndpoint instant string "(unit + u64) \<times> nat"

fun health_step :: "health_checker \<Rightarrow> health_op \<Rightarrow> health_checker" where
  "health_step c (RecordSuccess now e ms) = record_success now e ms c"
| "health_step c (RecordFailure now e) = record_failure now e c"
| "health_step c (DisableEndpoint e r) = disable_endpoint e r c"
| "health_step c (CheckEndpoint now e reply) = snd (check_endpoint now e reply c)"

lemmas health_ops = record_success_def record_failure_def disable_endpoint_def check_endpoint_def

text \<open>The well-formedness of one record: a count of three or more consecutive failures comes with
  the unhealthy mark, and an unhealthy record remembers when it last failed. A checker is well
  formed when its keys are distinct and each of its records is well formed.\<close>

definition wf_health :: "endpoint_health \<Rightarrow> bool" where
  "wf_health h \<longleftrightarrow>
     (3 \<le> consecutive_failures h \<longrightarrow> \<not> eh_is_healthy h)
   \<and> (\<not> eh_is_healthy h \<longrightarrow> last_failure h \<noteq> None)"

definition wf_checker :: "health_checker \<Rightarrow> bool" where
  "wf_checker c \<longleftrightarrow> distinct (map fst (health_map c)) \<and> (\<forall>h \<in> snd ` set (health_map c). wf_health h)"

lemma wf_default_health [simp]: "wf_health default_health"
  by (simp add: wf_health_def default_health_def)

lemma wf_eh_record_success: "wf_health (eh_record_success now ms h)"
  by (simp add: wf_health_def eh_record_success_def Let_def)

lemma wf_eh_record_failure: "wf_health h \<Longrightarrow> wf_health (eh_record_failure now h)"
  by (simp add: wf_health_def eh_record_failure_def Let_def)

lemma wf_get_health: "wf_checker c \<Longrightarrow> wf_health (get_health e c)"
  by (auto simp: wf_checker_def get_health_def split: option.splits dest: map_of_SomeD)

lemma snd_set_AList_update:
  "snd ` set (AList.update k v m) \<subseteq> insert v (snd ` set m)"
  by (induction m) auto

lemma wf_checker_update:
  assumes "wf_checker c" and "wf_health h"
  shows "wf_checker (c\<lparr>health_map := AList.update e h (health_map c)\<rparr>)"
proof -
  have "\<forall>x \<in> snd ` set (AList.update e h (health_map c)). wf_health x"
    using assms snd_set_AList_update [of e h "health_map c"] unfolding wf_checker_def by blast
  with assms(1) show ?thesis by (simp add: wf_checker_def distinct_update)
qed

lemma wf_health_step: "wf_checker c \<Longrightarrow> wf_checker (health_step c op)"
proof (cases op)
  case (DisableEndpoint e r)
  assume "wf_checker c"
  with DisableEndpoint show ?thesis by (simp add: disable_endpoint_def wf_checker_def)
qed (auto simp: health_ops wf_eh_record_success wf_eh_record_failure wf_get_health
    intro!: wf_checker_update split: prod.splits sum.splits)

lemma disabled_step: "is_disabled e c \<Longrightarrow> is_disabled e (health_step c op)"
  by (cases op) (auto simp: health_ops is_disabled_def update_conv' split: prod.splits sum.splits)

interpretation checker: guarded_system health_step wf_checker
  by unfold_locales (rule wf_health_step)

interpretation disabled: guarded_system health_step "is_disabled e"
  by unfold_locales (rule disabled_step)

section \<open>Hard-disabled endpoints\<close>

definition eligible :: "health_checker \<Rightarrow> string \<Rightarrow> bool" where
  "eligible c e \<longleftrightarrow> \<not> is_disabled e c \<and> eh_is_healthy (get_health e c)"

definition response_time :: "health_checker \<Rightarrow> string \<Rightarrow> f64" where
  "response_time c e = avg_response_time_ms (get_health e c)"

lemma best_loop_Cons:
  "best_loop c best (e # es) = best_loop c
     (if eligible c e \<and> (\<forall>b bt. best = Some (b, bt) \<longrightarrow> f64_lt (response_time c e) bt)
      then Some (e, response_time c e) else best) es"
  by (auto simp: eligible_def response_time_def get_health_def default_health_def Let_def split: option.splits)

declare best_loop.simps(2) [simp del]

lemma best_loop_member:
  "best_loop c best es = Some (e, t) \<Longrightarrow> best = Some (e, t) \<or> e \<in> set es \<and> \<not> is_disabled e c"
proof (induction es arbitrary: best)
  case (Cons a es)
  then show ?case by (fastforce simp: best_loop_Cons eligible_def split: if_splits)
qed simp

lemma get_best_endpoint_member:
  "get_best_endpoint es c = Some e \<Longrightarrow> e \<in> set es \<and> \<not> is_disabled e c"
  by (auto simp: get_best_endpoint_def dest: best_loop_member)

lemma disabled_frozen_step:
  "is_disabled e c \<Longrightarrow> map_of (health_map (health_step c op)) e = map_of (health_map c) e"
  by (cases op) (auto simp: health_ops update_conv' split: prod.splits sum.splits)

lemma disabled_frozen:
  "is_disabled e c \<Longrightarrow> map_of (health_map (foldl health_step c ops)) e = map_of (health_map c) e"
  by (induction ops arbitrary: c) (auto simp: disabled_frozen_step disabled_step)

lemma is_disabled_disable_endpoint [simp]: "is_disabled e (disable_endpoint e reason c)"
  by (simp add: disable_endpoint_def is_disabled_def update_conv')

text \<open>A hard-disabled endpoint stays disabled for the life of the checker: after any sequence of
  further operations it is never reported healthy, at any time, never chosen as the best
  endpoint, and its health record is the one it had when it was disabled.\<close>

theorem disabled_forever:
  "let d = foldl health_step (disable_endpoint e reason c) ops
   in is_disabled e d \<and> \<not> is_healthy now e d
      \<and> get_best_endpoint es d \<noteq> Some e \<and> get_health e d = get_health e c"
proof -
  let ?d = "disable_endpoint e reason c"
  have "is_disabled e (foldl health_step ?d ops)"
    by (rule disabled.run_inv) simp
  moreover have "map_of (health_map (foldl health_step ?d ops)) e = map_of (health_map ?d) e"
    by (rule disabled_frozen) simp
  ultimately show ?thesis
    by (auto simp: Let_def is_healthy_def get_health_def disable_endpoint_def
        dest: get_best_endpoint_member)
qed

section \<open>The failure threshold\<close>

lemma unat_Suc_u32: "unat (x :: u32) + 1 < 2 ^ 32 \<Longrightarrow> unat (x + 1) = unat x + 1"
  using unat_add_lt [of x 1] by simp

lemma not_disabled_failures:
  "\<not> is_disabled e c \<Longrightarrow> \<not> is_disabled e (foldl health_step c (map (\<lambda>t. RecordFailure t e) ts))"
  by (induction ts arbitrary: c) (auto simp: record_failure_def is_disabled_def)

lemma get_health_record_failure:
  "\<not> is_disabled e c \<Longrightarrow> get_health e (record_failure now e c) = eh_record_failure now (get_health e c)"
  by (simp add: record_failure_def get_health_def update_conv')

lemma is_healthy_get_health:
  "\<not> is_disabled e c \<Longrightarrow> is_healthy now e c =
     (let h = get_health e c in eh_is_healthy h \<or>
        (case last_failure h of None \<Rightarrow> False | Some t \<Rightarrow> recovery_timeout c < elapsed now t))"
  by (auto simp: is_healthy_def get_health_def default_health_def Let_def split: option.splits)

text \<open>After a success, a run of \<open>k\<close> failures leaves exactly \<open>k\<close> on the counter, and the record is
  marked unhealthy from the third on.\<close>

lemma failure_run:
  assumes "\<not> is_disabled e c" and "length ts < 2 ^ 32"
    and "consecutive_failures (get_health e c) = 0" and "eh_is_healthy (get_health e c)"
  shows "let h = get_health e (foldl health_step c (map (\<lambda>t. RecordFailure t e) ts))
         in unat (consecutive_failures h) = length ts \<and> (eh_is_healthy h \<longleftrightarrow> length ts < 3)
            \<and> (ts \<noteq> [] \<longrightarrow> last_failure h = Some (last ts))"
  using assms(2)
proof (induction ts rule: rev_induct)
  case Nil
  with assms show ?case by (simp add: Let_def)
next
  case (snoc t ts)
  let ?d = "foldl health_step c (map (\<lambda>t. RecordFailure t e) ts)"
  let ?h = "get_health e ?d"
  from snoc have ih: "unat (consecutive_failures ?h) = length ts" "eh_is_healthy ?h \<longleftrightarrow> length ts < 3"
    by (simp_all add: Let_def)
  with snoc.prems have cf: "unat (consecutive_failures ?h + 1) = Suc (length ts)"
    by (simp add: unat_Suc_u32)
  then have "3 \<le> consecutive_failures ?h + 1 \<longleftrightarrow> 3 \<le> Suc (length ts)"
    by (simp add: word_le_nat_alt)
  with ih cf show ?case
    by (auto simp: Let_def get_health_record_failure not_disabled_failures [OF assms(1)]
        eh_record_failure_def)
qed

lemma recovery_timeout_step [simp]: "recovery_timeout (health_step c op) = recovery_timeout c"
  by (cases op) (auto simp: health_ops split: prod.splits sum.splits)

lemma recovery_timeout_run [simp]: "recovery_timeout (foldl health_step c ops) = recovery_timeout c"
  by (induction ops arbitrary: c) simp_all

lemma record_success_resets:
  "\<not> is_disabled e c \<Longrightarrow>
   get_health e (record_success now e ms c) = eh_record_success now ms (get_health e c)
   \<and> \<not> is_disabled e (record_success now e ms c)"
  by (simp add: record_success_def get_health_def is_disabled_def update_conv')

text \<open>The failure threshold of an enabled endpoint: after a success followed by \<open>k\<close> consecutive
  failures (fewer than \<open>2^32\<close>), the endpoint is reported healthy while \<open>k\<close> is below three; from
  the third failure on it is reported healthy only once more than the recovery timeout has
  passed since the last failure.\<close>

theorem failure_threshold:
  assumes "\<not> is_disabled e c" and "length ts < 2 ^ 32"
  shows "is_healthy now e (foldl health_step (record_success t0 e ms c) (map (\<lambda>t. RecordFailure t e) ts))
     \<longleftrightarrow> length ts < 3 \<or> recovery_timeout c < elapsed now (last ts)"
proof -
  let ?c = "record_success t0 e ms c"
  let ?d = "foldl health_step ?c (map (\<lambda>t. RecordFailure t e) ts)"
  have nd: "\<not> is_disabled e ?c" and h: "get_health e ?c = eh_record_success t0 ms (get_health e c)"
    using record_success_resets [OF assms(1)] by simp_all
  have run: "let h = get_health e ?d in unat (consecutive_failures h) = length ts
      \<and> (eh_is_healthy h \<longleftrightarrow> length ts < 3) \<and> (ts \<noteq> [] \<longrightarrow> last_failure h = Some (last ts))"
    by (rule failure_run [OF nd assms(2)]) (simp_all add: h eh_record_success_def Let_def)
  have "recovery_timeout ?d = recovery_timeout c"
    by (simp add: record_success_def)
  with run show ?thesis
    using is_healthy_get_health [OF not_disabled_failures [OF nd, of ts], of now]
    by (cases "ts = []") (auto simp: Let_def)
qed

theorem failure_threshold_witness:
  "\<not> is_healthy 10 ''a'' (foldl health_step (record_success 0 ''a'' F64_NaN new_checker)
      (map (\<lambda>t. RecordFailure t ''a'') [1, 2, 3]))
   \<and> is_healthy 70000000000 ''a'' (foldl health_step (record_success 0 ''a'' F64_NaN new_checker)
      (map (\<lambda>t. RecordFailure t ''a'') [1, 2, 3]))"
proof -
  have "\<not> is_disabled ''a'' new_checker"
    by (simp add: is_disabled_def new_checker_def)
  then show ?thesis
    using failure_threshold [of "''a''" new_checker "[1, 2, 3]" 10 0 F64_NaN]
      failure_threshold [of "''a''" new_checker "[1, 2, 3]" 70000000000 0 F64_NaN]
    by (simp add: elapsed_def new_checker_def from_secs_def del: foldl_Cons list.map)
qed

section \<open>The configured threshold is not consulted\<close>

lemma max_failures_step:
  "health_step (with_max_failures n c) op = with_max_failures n (health_step c op)"
  by (cases op)
     (auto simp: health_ops with_max_failures_def is_disabled_def get_health_def split: prod.splits sum.splits)

text \<open>The setting \<^verbatim>\<open>with_max_failures\<close> has no effect: after any operations, from any checker
  and for any two settings, every endpoint has the same health verdict and the same best
  endpoint is chosen. The threshold is the constant three of \<^verbatim>\<open>EndpointHealth\<close>.\<close>

lemma max_failures_ignored:
  "is_healthy now e (foldl health_step (with_max_failures n c) ops) = is_healthy now e (foldl health_step c ops)
   \<and> get_best_endpoint es (foldl health_step (with_max_failures n c) ops)
       = get_best_endpoint es (foldl health_step c ops)"
proof -
  have "foldl health_step (with_max_failures n c) ops = with_max_failures n (foldl health_step c ops)"
    by (induction ops arbitrary: c) (simp_all add: max_failures_step)
  moreover have "is_healthy now e (with_max_failures n d) = is_healthy now e d" for d
    by (auto simp: is_healthy_def is_disabled_def with_max_failures_def split: option.splits)
  moreover have "best_loop (with_max_failures n d) b es = best_loop d b es" for d b
    by (induction es arbitrary: b)
       (auto simp: best_loop_Cons eligible_def response_time_def get_health_def
          is_disabled_def with_max_failures_def)
  ultimately show ?thesis by (simp add: get_best_endpoint_def)
qed

section \<open>Choice of the best endpoint\<close>

lemma best_loop_None: "best_loop c best es = None \<longleftrightarrow> best = None \<and> (\<forall>e \<in> set es. \<not> eligible c e)"
  by (induction es arbitrary: best) (auto simp: best_loop_Cons)

lemma best_loop_le:
  assumes "best_loop c best es = Some (b, bt)"
    and "\<And>e. e \<in> set es \<Longrightarrow> eligible c e \<Longrightarrow> response_time c e \<noteq> F64_NaN"
    and "\<And>x xt. best = Some (x, xt) \<Longrightarrow> xt \<noteq> F64_NaN"
  shows "bt \<noteq> F64_NaN \<and> (\<forall>e \<in> set es. eligible c e \<longrightarrow> \<not> f64_lt (response_time c e) bt)
     \<and> (\<forall>x xt. best = Some (x, xt) \<longrightarrow> \<not> f64_lt xt bt)
     \<and> (best = Some (b, bt) \<or> b \<in> set es \<and> eligible c b \<and> bt = response_time c b)"
  using assms
proof (induction es arbitrary: best)
  case Nil
  then show ?case by auto
next
  case (Cons e es)
  let ?best = "if eligible c e \<and> (\<forall>b bt. best = Some (b, bt) \<longrightarrow> f64_lt (response_time c e) bt)
      then Some (e, response_time c e) else best"
  have ih: "bt \<noteq> F64_NaN \<and> (\<forall>e \<in> set es. eligible c e \<longrightarrow> \<not> f64_lt (response_time c e) bt)
     \<and> (\<forall>x xt. ?best = Some (x, xt) \<longrightarrow> \<not> f64_lt xt bt)
     \<and> (?best = Some (b, bt) \<or> b \<in> set es \<and> eligible c b \<and> bt = response_time c b)"
    by (rule Cons.IH) (use Cons.prems in \<open>auto simp: best_loop_Cons split: if_splits\<close>)
  show ?case
  proof (cases "eligible c e \<and> (\<forall>b bt. best = Some (b, bt) \<longrightarrow> f64_lt (response_time c e) bt)")
    case True
    then have "\<not> f64_lt xt bt" if "best = Some (x, xt)" for x xt
      using ih that by (auto dest: f64_lt_trans)
    with True ih show ?thesis by auto
  next
    case False
    then have "\<not> f64_lt (response_time c e) bt" if "eligible c e"
      using ih that Cons.prems(3) by (auto dest: f64_not_lt_trans)
    with False ih show ?thesis by auto
  qed
qed

text \<open>\<^verbatim>\<open>get_best_endpoint\<close> returns nothing exactly when no listed endpoint is enabled and marked
  healthy; otherwise it returns a listed, enabled, healthy endpoint, and when no average is NaN
  no eligible endpoint has a strictly smaller average response time.\<close>

theorem get_best_endpoint_spec:
  assumes "\<And>e. e \<in> set es \<Longrightarrow> eligible c e \<Longrightarrow> response_time c e \<noteq> F64_NaN"
  shows "case get_best_endpoint es c of
      None \<Rightarrow> \<forall>e \<in> set es. \<not> eligible c e
    | Some b \<Rightarrow> b \<in> set es \<and> eligible c b
        \<and> (\<forall>e \<in> set es. eligible c e \<longrightarrow> \<not> f64_lt (response_time c e) (response_time c b))"
proof (cases "best_loop c None es")
  case None
  then have "\<forall>e \<in> set es. \<not> eligible c e" by (simp add: best_loop_None)
  with None show ?thesis by (simp add: get_best_endpoint_def)
next
  case (Some r)
  obtain b bt where r: "r = (b, bt)" by fastforce
  from best_loop_le [OF Some [unfolded r] assms] Some r show ?thesis
    by (auto simp: get_best_endpoint_def)
qed

theorem get_best_endpoint_spec_witness:
  "get_best_endpoint [''a'', ''b''] (record_failure 1 ''a'' new_checker) = Some ''a''
   \<and> \<not> f64_lt (response_time (record_failure 1 ''a'' new_checker) ''b'')
               (response_time (record_failure 1 ''a'' new_checker) ''a'')"
proof -
  let ?c = "record_failure 1 ''a'' new_checker"
  have b: "get_best_endpoint [''a'', ''b''] ?c = Some ''a''"
    and "eligible ?c ''b''"
    and "\<And>e. e \<in> set [''a'', ''b''] \<Longrightarrow> response_time ?c e \<noteq> F64_NaN"
    by (auto simp: record_failure_def new_checker_def is_disabled_def get_health_def
        eh_record_failure_def default_health_def get_best_endpoint_def best_loop_Cons eligible_def
        response_time_def signed_val_def Let_def word_le_nat_alt)
  with get_best_endpoint_spec [of "[''a'', ''b'']" ?c] show ?thesis by simp
qed

section \<open>Recovery\<close>

text \<open>No enabled endpoint is lost for good: in every state the checker can reach, an endpoint
  that is not hard-disabled is reported healthy again once more than the recovery timeout has
  passed since its last recorded failure (or at any time if it never failed).\<close>

theorem enabled_endpoint_recovers:
  assumes "c = foldl health_step new_checker ops" and "\<not> is_disabled e c"
  shows "case last_failure (get_health e c) of
      None \<Rightarrow> is_healthy now e c
    | Some f \<Rightarrow> f + recovery_timeout c < now \<longrightarrow> is_healthy now e c"
proof -
  have "wf_checker new_checker" by (simp add: wf_checker_def new_checker_def)
  then have "wf_health (get_health e c)"
    unfolding assms(1) by (intro wf_get_health checker.run_inv)
  with assms(2) show ?thesis
    by (auto simp: is_healthy_get_health wf_health_def Let_def elapsed_def split: option.splits)
qed

theorem enabled_endpoint_recovers_witness:
  "is_healthy 60000000004 ''a'' (foldl health_step new_checker
     [RecordFailure 1 ''a'', RecordFailure 2 ''a'', RecordFailure 3 ''a''])"
proof -
  let ?c = "foldl health_step new_checker
     [RecordFailure 1 ''a'', RecordFailure 2 ''a'', RecordFailure 3 ''a'']"
  have "\<not> is_disabled ''a'' ?c"
    by (simp add: record_failure_def is_disabled_def new_checker_def)
  moreover have "last_failure (get_health ''a'' ?c) = Some 3"
    by (simp add: record_failure_def get_health_def eh_record_failure_def is_disabled_def new_checker_def Let_def)
  moreover have "recovery_timeout ?c = 60000000000"
    by (simp add: record_failure_def new_checker_def is_disabled_def from_secs_def)
  ultimately show ?thesis
    using enabled_endpoint_recovers [OF refl, of "''a''" "[RecordFailure 1 ''a'', RecordFailure 2 ''a'', RecordFailure 3 ''a'']" 60000000004]
    by simp
qed

end
