(* ===== verification/Rpc_Provider.thy ===== *)
theory Rpc_Provider
  imports Rpc_Cluster Rpc_Health
begin

text \<open>
  \<^verbatim>\<open>crates/protocols/src/rpc/provider.rs\<close>: endpoint rotation, and the retry and failover loop every
  RPC call goes through.

  The Solana client, the clock and the timer are not part of the repository: they are the fields
  of an environment over an abstract world \<open>'w\<close> (\<open>env_now\<close>, \<open>env_sleep\<close> and the call itself, which
  gets the endpoint URL). An \<^verbatim>\<open>anyhow::Error\<close> is the list of the messages of its chain, outermost
  first. One provider is followed through one task: the locks of \<^verbatim>\<open>HealthChecker\<close> and of the
  endpoint index are taken and released inside each modelled operation.
\<close>

type_synonym rpc_error = "string list"

definition format_error_chain :: "rpc_error \<Rightarrow> string" where
  "format_error_chain chain = join '' | '' chain"

definition is_definitive_account_not_found :: "rpc_error \<Rightarrow> bool" where
  "is_definitive_account_not_found err =
     (let chain = format_error_chain err in
      contains chain ''AccountNotFound'' \<or> contains chain ''could not find account''
      \<or> contains chain ''Account does not exist''
      \<or> contains chain ''Invalid param: could not find account'')"

definition hard_disable_reason :: "rpc_error \<Rightarrow> string option" where
  "hard_disable_reason err =
     (let msg_joined = join '' | '' err; msg_lc = to_ascii_lowercase msg_joined in
      if contains msg_lc ''(402'' \<or> contains msg_lc ''402 payment required''
         \<or> contains msg_lc ''(401'' \<or> contains msg_lc ''401 unauthorized''
         \<or> contains msg_lc ''(403'' \<or> contains msg_lc ''403 forbidden''
      then Some msg_joined else None)"

definition calculate_backoff :: "u32 \<Rightarrow> u64 \<Rightarrow> u64 \<Rightarrow> u64" where
  "calculate_backoff retry base_ms max_ms = min (base_ms * 2 ^ unat retry) max_ms"

record rpc_state =
  rp_health :: health_checker
  current_endpoint_idx :: nat

record rpc_provider =
  rp_config :: rpc_config
  rp_state :: rpc_state

text \<open>\<^verbatim>\<open>RpcProvider::new\<close>: the cluster guard and the empty endpoint list are panics (\<open>None\<close>).\<close>

definition new_provider :: "(string \<Rightarrow> string option) \<Rightarrow> rpc_config \<Rightarrow> rpc_provider option" where
  "new_provider env config =
     (case enforce_expected_cluster_for_rpc_config env config of
        Inl _ \<Rightarrow> None
      | Inr () \<Rightarrow>
          if all_endpoints config = [] then None
          else Some \<lparr>rp_config = config,
                     rp_state = \<lparr>rp_health = new_checker, current_endpoint_idx = 0\<rparr>\<rparr>)"

definition current_endpoint :: "rpc_config \<Rightarrow> rpc_state \<Rightarrow> string" where
  "current_endpoint cfg st =
     (let es = all_endpoints cfg; i = current_endpoint_idx st
      in if i < length es then es ! i else es ! 0)"

fun rotate_loop :: "instant \<Rightarrow> health_checker \<Rightarrow> string list \<Rightarrow> nat \<Rightarrow> nat list \<Rightarrow> nat option" where
  "rotate_loop now h es idx [] = None"
| "rotate_loop now h es idx (i # is) =
     (let next_idx = (idx + i) mod length es; e = es ! next_idx in
      if disabled_reason e h \<noteq> None then rotate_loop now h es idx is
      else if is_healthy now e h then Some next_idx
      else rotate_loop now h es idx is)"

definition rotate_endpoint :: "rpc_config \<Rightarrow> instant \<Rightarrow> rpc_state \<Rightarrow> rpc_state" where
  "rotate_endpoint cfg now st =
     (let es = all_endpoints cfg; idx = current_endpoint_idx st in
      case rotate_loop now (rp_health st) es idx [1..<Suc (length es)] of
        Some j \<Rightarrow> st\<lparr>current_endpoint_idx := j\<rparr>
      | None \<Rightarrow> st\<lparr>current_endpoint_idx := (idx + 1) mod length es\<rparr>)"

section \<open>The retry loop\<close>

record ('w, 'a) rpc_env =
  env_now :: "'w \<Rightarrow> instant"
  env_sleep :: "duration \<Rightarrow> 'w \<Rightarrow> 'w"
  env_call :: "string \<Rightarrow> 'w \<Rightarrow> (rpc_error + 'a) \<times> 'w"

text \<open>One iteration of the \<^verbatim>\<open>while\<close> loop of \<^verbatim>\<open>execute_with_retry\<close>.\<close>

definition execute_attempt ::
    "('w, 'a) rpc_env \<Rightarrow> rpc_config \<Rightarrow> u32 \<Rightarrow> rpc_state \<times> 'w
     \<Rightarrow> (rpc_error, 'a) verdict \<times> (rpc_state \<times> 'w)" where
  "execute_attempt env cfg retry_count s =
     (let (st, w) = s;
          endpoint = current_endpoint cfg st;
          start = env_now env w;
          (reply, w) = env_call env endpoint w;
          now = env_now env w
      in case reply of
           Inr result \<Rightarrow>
             (Done result,
              (st\<lparr>rp_health := record_success now endpoint
                     (f64_of_nat (elapsed now start div 1000000)) (rp_health st)\<rparr>, w))
         | Inl e \<Rightarrow>
             if is_definitive_account_not_found e then (Fatal e, (st, w))
             else
               let st = (case hard_disable_reason e of
                           Some reason \<Rightarrow>
                             st\<lparr>rp_health := disable_endpoint endpoint reason (rp_health st)\<rparr>
                         | None \<Rightarrow> st);
                   st = st\<lparr>rp_health := record_failure now endpoint (rp_health st)\<rparr>;
                   st = rotate_endpoint cfg now st;
                   w = (if retry_count < max_retries cfg
                        then env_sleep env (from_millis (unat (calculate_backoff retry_count
                               (retry_base_delay_ms cfg) (retry_max_delay_ms cfg)))) w
                        else w)
               in (Again e, (st, w)))"

text \<open>The loop itself; the counter is a \<^verbatim>\<open>u32\<close>, so with \<^verbatim>\<open>max_retries = u32::MAX\<close> the loop
  condition never fails and the loop need not return: \<open>None\<close> stands for that.\<close>

partial_function (option) execute_loop ::
    "('w, 'a) rpc_env \<Rightarrow> rpc_config \<Rightarrow> u32 \<Rightarrow> rpc_error option \<Rightarrow> rpc_state \<times> 'w
     \<Rightarrow> ((rpc_error + 'a) \<times> (rpc_state \<times> 'w)) option" where
  "execute_loop env cfg retry_count last_error s =
     (if retry_count \<le> max_retries cfg then
        (case execute_attempt env cfg retry_count s of
           (v, s') \<Rightarrow>
             (case v of
                Done a \<Rightarrow> Some (Inr a, s')
              | Fatal e \<Rightarrow> Some (Inl e, s')
              | Again e \<Rightarrow> execute_loop env cfg (retry_count + 1) (Some e) s'))
      else Some (Inl (case last_error of Some e \<Rightarrow> e | None \<Rightarrow> [''Unknown error'']), s))"

definition execute_with_retry ::
    "('w, 'a) rpc_env \<Rightarrow> rpc_config \<Rightarrow> rpc_state \<times> 'w
     \<Rightarrow> ((rpc_error + 'a) \<times> (rpc_state \<times> 'w)) option" where
  "execute_with_retry env cfg s = execute_loop env cfg 0 None s"

section \<open>Backoff\<close>

text \<open>The backoff delay never exceeds the configured maximum, and as long as
  \<open>base * 2^retry\<close> fits in 64 bits it is exactly the exponential delay capped at the maximum,
  so it grows with the retry number.\<close>

theorem calculate_backoff_spec:
  "calculate_backoff retry base_ms max_ms \<le> max_ms
   \<and> (unat base_ms * 2 ^ unat retry < 2 ^ 64 \<longrightarrow>
        unat (calculate_backoff retry base_ms max_ms) = min (unat base_ms * 2 ^ unat retry) (unat max_ms))"
proof
  show "calculate_backoff retry base_ms max_ms \<le> max_ms"
    by (simp add: calculate_backoff_def)
  show "unat base_ms * 2 ^ unat retry < 2 ^ 64 \<longrightarrow>
      unat (calculate_backoff retry base_ms max_ms) = min (unat base_ms * 2 ^ unat retry) (unat max_ms)"
  proof
    assume fits: "unat base_ms * 2 ^ unat retry < 2 ^ 64"
    have p: "base_ms * 2 ^ unat retry = word_of_nat (unat base_ms * 2 ^ unat retry)"
      by simp
    have "unat (base_ms * 2 ^ unat retry) = unat base_ms * 2 ^ unat retry"
      unfolding p using fits by (simp add: unat_of_nat take_bit_nat_eq_self del: of_nat_mult)
    then show "unat (calculate_backoff retry base_ms max_ms) =
        min (unat base_ms * 2 ^ unat retry) (unat max_ms)"
      by (simp add: calculate_backoff_def min_def word_le_nat_alt)
  qed
qed

theorem calculate_backoff_spec_witness:
  "unat (calculate_backoff 3 100 5000) = 800 \<and> unat (calculate_backoff 10 100 5000) = 5000"
  using calculate_backoff_spec [of 3 100 5000] calculate_backoff_spec [of 10 100 5000] by simp

section \<open>Rotation\<close>

definition usable :: "instant \<Rightarrow> health_checker \<Rightarrow> string \<Rightarrow> bool" where
  "usable now h e \<longleftrightarrow> \<not> is_disabled e h \<and> is_healthy now e h"

definition idx_ok :: "rpc_config \<Rightarrow> rpc_state \<Rightarrow> bool" where
  "idx_ok cfg st \<longleftrightarrow> current_endpoint_idx st < length (all_endpoints cfg)"

lemma rotate_loop_eq:
  "rotate_loop now h es idx is =
     map_option (\<lambda>i. (idx + i) mod length es)
       (find (\<lambda>i. usable now h (es ! ((idx + i) mod length es))) is)"
  by (induction "is") (auto simp: usable_def Let_def disabled_reason_def is_disabled_def)

lemma find_upt_Some:
  "find P [a..<b] = Some i \<Longrightarrow> a \<le> i \<and> i < b \<and> P i \<and> (\<forall>j. a \<le> j \<and> j < i \<longrightarrow> \<not> P j)"
proof (induction "b - a" arbitrary: a)
  case 0
  then show ?case by simp
next
  case (Suc n)
  then have ab: "a < b" by simp
  show ?case
  proof (cases "P a")
    case True
    with Suc.prems ab show ?thesis by (auto simp: upt_conv_Cons)
  next
    case False
    with Suc.prems ab have "find P [Suc a..<b] = Some i" by (simp add: upt_conv_Cons)
    with Suc.hyps(1) [of "Suc a"] Suc.hyps(2) have "Suc a \<le> i \<and> i < b \<and> P i \<and> (\<forall>j. Suc a \<le> j \<and> j < i \<longrightarrow> \<not> P j)" by simp
    with False show ?thesis by (metis Suc_leD Suc_leI le_neq_implies_less)
  qed
qed

lemma find_upt_None: "find P [a..<b] = None \<longleftrightarrow> (\<forall>i. a \<le> i \<and> i < b \<longrightarrow> \<not> P i)"
  by (auto simp: find_None_iff)

lemma idx_ok_rotate: "idx_ok cfg (rotate_endpoint cfg now st)"
  by (auto simp: idx_ok_def rotate_endpoint_def Let_def rotate_loop_eq split: option.splits)

lemma rotate_health [simp]: "rp_health (rotate_endpoint cfg now st) = rp_health st"
  by (auto simp: rotate_endpoint_def Let_def split: option.splits)

lemma cyclic_index:
  assumes "k < n" and "i < n"
  shows "\<exists>j \<ge> 1. j < Suc n \<and> (i + j) mod n = (k :: nat)"
proof (cases "i < k")
  case True
  with assms have "(i + (k - i)) mod n = k" by simp
  with True assms show ?thesis by (intro exI [of _ "k - i"]) auto
next
  case False
  with assms have "(i + (n + k - i)) mod n = k" by simp
  with False assms show ?thesis by (intro exI [of _ "n + k - i"]) auto
qed

text \<open>Rotation keeps the endpoint index in range. If any configured endpoint is usable
  (enabled and healthy now), the new current endpoint is usable and is the first usable one met
  when walking cyclically from the endpoint after the current one; otherwise it is simply the
  next endpoint.\<close>

theorem rotate_endpoint_spec:
  assumes "idx_ok cfg st"
  shows "idx_ok cfg (rotate_endpoint cfg now st)
    \<and> (if \<exists>e \<in> set (all_endpoints cfg). usable now (rp_health st) e
       then usable now (rp_health st) (current_endpoint cfg (rotate_endpoint cfg now st))
            \<and> (\<exists>k \<ge> 1. k \<le> length (all_endpoints cfg)
                 \<and> current_endpoint_idx (rotate_endpoint cfg now st)
                     = (current_endpoint_idx st + k) mod length (all_endpoints cfg)
                 \<and> (\<forall>j. 1 \<le> j \<and> j < k \<longrightarrow> \<not> usable now (rp_health st)
                       (all_endpoints cfg ! ((current_endpoint_idx st + j) mod length (all_endpoints cfg)))))
       else current_endpoint_idx (rotate_endpoint cfg now st)
              = (current_endpoint_idx st + 1) mod length (all_endpoints cfg))"
proof -
  let ?es = "all_endpoints cfg" and ?i = "current_endpoint_idx st"
  let ?n = "length ?es"
  let ?P = "\<lambda>k. usable now (rp_health st) (?es ! ((?i + k) mod ?n))"
  have n: "?i < ?n" using assms by (simp add: idx_ok_def)
  have ex: "(\<exists>e \<in> set ?es. usable now (rp_health st) e) \<longleftrightarrow> find ?P [1..<Suc ?n] \<noteq> None"
  proof
    assume "\<exists>e \<in> set ?es. usable now (rp_health st) e"
    then obtain k where k: "k < ?n" "usable now (rp_health st) (?es ! k)"
      by (auto simp: in_set_conv_nth)
    then obtain j where "1 \<le> j" "j < Suc ?n" "(?i + j) mod ?n = k"
      using cyclic_index [OF k(1) n] by blast
    with k(2) show "find ?P [1..<Suc ?n] \<noteq> None"
      unfolding find_upt_None by auto
  next
    assume "find ?P [1..<Suc ?n] \<noteq> None"
    then obtain k where "?P k" unfolding find_upt_None by auto
    moreover have "(?i + k) mod ?n < ?n" using n by (intro mod_less_divisor) simp
    ultimately show "\<exists>e \<in> set ?es. usable now (rp_health st) e"
      using nth_mem by blast
  qed
  show ?thesis
  proof (cases "find ?P [1..<Suc ?n]")
    case None
    then have "rotate_endpoint cfg now st = st\<lparr>current_endpoint_idx := (?i + 1) mod ?n\<rparr>"
      by (simp add: rotate_endpoint_def Let_def rotate_loop_eq del: upt_Suc)
    moreover from None have "\<not> (\<exists>e \<in> set ?es. usable now (rp_health st) e)" by (simp add: ex del: upt_Suc)
    ultimately show ?thesis using idx_ok_rotate [of cfg now st] by simp
  next
    case (Some k)
    then have r: "rotate_endpoint cfg now st = st\<lparr>current_endpoint_idx := (?i + k) mod ?n\<rparr>"
      by (simp add: rotate_endpoint_def Let_def rotate_loop_eq del: upt_Suc)
    from Some have E: "\<exists>e \<in> set ?es. usable now (rp_health st) e" by (simp add: ex del: upt_Suc)
    from find_upt_Some [OF Some] have "1 \<le> k" "k \<le> ?n" "?P k" "\<forall>j. 1 \<le> j \<and> j < k \<longrightarrow> \<not> ?P j"
      by auto
    with E r n show ?thesis
      using idx_ok_rotate [of cfg now st] by (auto simp: current_endpoint_def Let_def)
  qed
qed

theorem rotate_endpoint_spec_witness:
  "current_endpoint_idx (rotate_endpoint (with_fallback ''b'' (localhost (\<lambda>_. None))) 0
      \<lparr>rp_health = new_checker, current_endpoint_idx = 0\<rparr>) = 1"
proof -
  let ?cfg = "with_fallback ''b'' (localhost (\<lambda>_. None))"
  let ?st = "\<lparr>rp_health = new_checker, current_endpoint_idx = 0\<rparr> :: rpc_state"
  have es: "all_endpoints ?cfg = [''http://127.0.0.1:8899'', ''b'']"
    by (simp add: all_endpoints_def with_fallback_def localhost_def)
  have u: "usable 0 new_checker e" for e
    by (simp add: usable_def new_checker_def is_disabled_def is_healthy_def)
  have "idx_ok ?cfg ?st" by (simp add: idx_ok_def es)
  note spec = rotate_endpoint_spec [OF this, of 0]
  have "\<exists>e \<in> set (all_endpoints ?cfg). usable 0 (rp_health ?st) e" by (auto simp: es u)
  with spec obtain k where
    k: "Suc 0 \<le> k" "k \<le> Suc (Suc 0)"
      "current_endpoint_idx (rotate_endpoint ?cfg 0 ?st) = k mod Suc (Suc 0)"
      "\<forall>j. \<not> (Suc 0 \<le> j \<and> j < k)"
    by (simp only: if_P) (auto simp: es u)
  then have "k = 1" by (metis One_nat_def le_antisym linorder_not_le order_refl)
  with k(3) show ?thesis by simp
qed

section \<open>The retry loop returns, and what it returns\<close>

lemma u32_le: "n < 2 ^ 32 \<Longrightarrow> (word_of_nat n :: u32) \<le> m \<longleftrightarrow> n \<le> unat m"
  by (simp add: word_le_nat_alt unat_of_nat take_bit_nat_eq_self)

text \<open>Below the wrap-around bound the loop satisfies the contract of a bounded retry loop.\<close>

lemma execute_loop_unfold:
  assumes n: "n \<le> unat (max_retries cfg)" and m: "unat (max_retries cfg) < 2 ^ 32 - 1"
  shows "execute_loop env cfg (word_of_nat n) le s =
    (case execute_attempt env cfg (word_of_nat n) s of
       (Done a, s') \<Rightarrow> Some (Inr a, s')
     | (Fatal e, s') \<Rightarrow> Some (Inl e, s')
     | (Again e, s') \<Rightarrow>
         if n < unat (max_retries cfg) then execute_loop env cfg (word_of_nat (Suc n)) (Some e) s'
         else Some (Inl e, s'))"
proof -
  have le: "(word_of_nat n :: u32) \<le> max_retries cfg"
    using n m by (subst u32_le) auto
  have suc: "(word_of_nat n :: u32) + 1 = word_of_nat (Suc n)" by (simp add: add.commute)
  have stop: "\<not> (word_of_nat (Suc n) :: u32) \<le> max_retries cfg" if "\<not> n < unat (max_retries cfg)"
    using n m that by (subst u32_le) auto
  obtain v s' where b: "execute_attempt env cfg (word_of_nat n) s = (v, s')"
    by (cases "execute_attempt env cfg (word_of_nat n) s") blast
  have "execute_loop env cfg (word_of_nat (Suc n)) (Some e) s' = Some (Inl e, s')"
    if "\<not> n < unat (max_retries cfg)" for e
    using stop [OF that] by (subst execute_loop.simps) simp
  then show ?thesis
    by (subst execute_loop.simps) (simp add: le suc b split: verdict.splits del: of_nat_Suc)
qed

lemma execute_loop_returns:
  assumes m: "unat (max_retries cfg) < 2 ^ 32 - 1" and n: "n \<le> unat (max_retries cfg)"
  shows "\<exists>r. execute_loop env cfg (word_of_nat n) le s = Some r"
  using n
proof (induction "unat (max_retries cfg) - n" arbitrary: n le s)
  case 0
  then show ?case
    by (subst execute_loop_unfold [OF _ m]) (auto split: verdict.splits prod.splits)
next
  case (Suc k)
  then have "\<exists>r. execute_loop env cfg (word_of_nat (Suc n)) le' s' = Some r" for le' s'
    by (intro Suc.hyps(1)) auto
  with Suc.prems show ?case
    by (subst execute_loop_unfold [OF _ m]) (auto split: verdict.splits prod.splits simp del: of_nat_Suc)
qed

lemma execute_loop_last_error:
  assumes m: "unat (max_retries cfg) < 2 ^ 32 - 1" and n: "n \<le> unat (max_retries cfg)"
  shows "execute_loop env cfg (word_of_nat n) le s = execute_loop env cfg (word_of_nat n) le' s"
  by (simp add: execute_loop_unfold [OF n m])

lemma rpc_retry_loop:
  fixes env :: "('w, 'a) rpc_env"
  assumes m: "unat (max_retries cfg) < 2 ^ 32 - 1"
  shows "retry_loop (\<lambda>n. execute_attempt env cfg (word_of_nat n))
           (\<lambda>n s. the (execute_loop env cfg (word_of_nat n) None s)) (unat (max_retries cfg))"
proof
  fix n and s :: "rpc_state \<times> 'w"
  assume n: "n \<le> unat (max_retries cfg)"
  obtain v s' where b: "execute_attempt env cfg (word_of_nat n) s = (v, s')"
    by (cases "execute_attempt env cfg (word_of_nat n) s") blast
  have "execute_loop env cfg (word_of_nat (Suc n)) (Some e) s' =
      execute_loop env cfg (word_of_nat (Suc n)) None s'" if "n < unat (max_retries cfg)" for e
    using that by (intro execute_loop_last_error [OF m]) simp
  with b show "the (execute_loop env cfg (word_of_nat n) None s) =
      (case execute_attempt env cfg (word_of_nat n) s of
         (Done a, s') \<Rightarrow> (Inr a, s')
       | (Fatal e, s') \<Rightarrow> (Inl e, s')
       | (Again e, s') \<Rightarrow>
           if n < unat (max_retries cfg)
           then the (execute_loop env cfg (word_of_nat (Suc n)) None s') else (Inl e, s'))"
    by (simp add: execute_loop_unfold [OF n m] del: of_nat_Suc split: verdict.splits)
qed

lemma default_max_retries [simp]: "max_retries (default_config env) = 3"
  by (simp add: default_config_def Let_def)

interpretation default_rpc: retry_loop
  "\<lambda>n. execute_attempt env (default_config vars) (word_of_nat n)"
  "\<lambda>n s. the (execute_loop env (default_config vars) (word_of_nat n) None s)"
  "unat (max_retries (default_config vars))"
  by (rule rpc_retry_loop) simp

text \<open>The replies a call gets, in the order of the attempts the retry loop makes.\<close>

definition attempt_verdicts ::
    "('w, 'a) rpc_env \<Rightarrow> rpc_config \<Rightarrow> rpc_state \<times> 'w \<Rightarrow> (rpc_error, 'a) verdict list" where
  "attempt_verdicts env cfg s =
     retry_loop.trace (\<lambda>n. execute_attempt env cfg (word_of_nat n)) (Suc (unat (max_retries cfg))) 0 s"

text \<open>C26. For every configuration whose retry count is below \<^verbatim>\<open>u32::MAX\<close> the retry loop returns,
  after at least one and at most \<open>max_retries + 1\<close> attempts; every attempt but the last failed
  with a retryable error, and the result is that of the last attempt: its value, or its error.\<close>

theorem execute_with_retry_result:
  assumes "unat (max_retries cfg) < 2 ^ 32 - 1"
  shows "\<exists>r s'. execute_with_retry env cfg s = Some (r, s')
    \<and> 1 \<le> length (attempt_verdicts env cfg s)
    \<and> length (attempt_verdicts env cfg s) \<le> Suc (unat (max_retries cfg))
    \<and> (\<forall>v \<in> set (butlast (attempt_verdicts env cfg s)). \<exists>e. v = Again e)
    \<and> r = (case last (attempt_verdicts env cfg s) of Done a \<Rightarrow> Inr a | Fatal e \<Rightarrow> Inl e | Again e \<Rightarrow> Inl e)"
proof -
  note rl = rpc_retry_loop [OF assms, of env]
  obtain r s' where r: "execute_loop env cfg (word_of_nat 0) None s = Some (r, s')"
    using execute_loop_returns [OF assms, of 0 env None s] by auto
  have "fst (the (execute_loop env cfg (word_of_nat 0) None s)) =
      (case last (attempt_verdicts env cfg s) of Done a \<Rightarrow> Inr a | Fatal e \<Rightarrow> Inl e | Again e \<Rightarrow> Inl e)"
    unfolding attempt_verdicts_def using retry_loop.loop_last [OF rl, of 0 s] by simp
  moreover have "attempt_verdicts env cfg s \<noteq> []"
    unfolding attempt_verdicts_def by (rule retry_loop.trace_not_Nil [OF rl]) simp
  moreover have "length (attempt_verdicts env cfg s) \<le> Suc (unat (max_retries cfg))"
    unfolding attempt_verdicts_def by (rule retry_loop.length_trace [OF rl])
  moreover have "\<forall>v \<in> set (butlast (attempt_verdicts env cfg s)). \<exists>e. v = Again e"
    unfolding attempt_verdicts_def using retry_loop.trace_retries [OF rl] by blast
  ultimately show ?thesis
    using r by (auto simp: execute_with_retry_def Suc_le_eq)
qed

text \<open>An environment whose first two calls time out: the third attempt succeeds.\<close>

definition flaky_env :: "(nat, nat) rpc_env" where
  "flaky_env = \<lparr>env_now = (\<lambda>w. w), env_sleep = (\<lambda>d w. w + d),
     env_call = (\<lambda>e w. (if w < 300000000 then Inl [''timed out''] else Inr w, w))\<rparr>"

theorem execute_with_retry_result_witness:
  "\<exists>r s'. execute_with_retry flaky_env (localhost (\<lambda>_. None))
      (\<lparr>rp_health = new_checker, current_endpoint_idx = 0\<rparr>, 0) = Some (r, s')
    \<and> length (attempt_verdicts flaky_env (localhost (\<lambda>_. None))
        (\<lparr>rp_health = new_checker, current_endpoint_idx = 0\<rparr>, 0)) \<le> 4"
proof -
  have m: "max_retries (localhost (\<lambda>_. None)) = 3" by (simp add: localhost_def)
  then have "unat (max_retries (localhost (\<lambda>_. None))) < 2 ^ 32 - 1" by simp
  from execute_with_retry_result [OF this, of flaky_env] m show ?thesis by fastforce
qed

section \<open>Definitive errors and hard failures\<close>

text \<open>A definitive "account not found" error is final: the call makes one attempt, returns that
  error, and leaves the health records and the endpoint index as they were, whatever the retry
  configuration.\<close>

theorem definitive_error_not_retried:
  assumes "env_call env (current_endpoint cfg st) w = (Inl e, w')"
    and "is_definitive_account_not_found e"
  shows "execute_with_retry env cfg (st, w) = Some (Inl e, (st, w'))"
  unfolding execute_with_retry_def
  using assms by (subst execute_loop.simps) (simp add: execute_attempt_def Let_def)

theorem definitive_error_not_retried_witness:
  "execute_with_retry
     \<lparr>env_now = (\<lambda>w. w), env_sleep = (\<lambda>d w. w + d),
      env_call = (\<lambda>e w. (Inl [''Failed to get account'', ''AccountNotFound: x''] :: rpc_error + nat, w + 1))\<rparr>
     (localhost (\<lambda>_. None)) (\<lparr>rp_health = new_checker, current_endpoint_idx = 0\<rparr>, 0 :: nat)
   = Some (Inl [''Failed to get account'', ''AccountNotFound: x''],
           (\<lparr>rp_health = new_checker, current_endpoint_idx = 0\<rparr>, 1))"
proof -
  have "is_definitive_account_not_found [''Failed to get account'', ''AccountNotFound: x'']"
    by (simp add: is_definitive_account_not_found_def format_error_chain_def Let_def)
  then show ?thesis by (intro definitive_error_not_retried) simp_all
qed

lemma execute_attempt_idx_ok:
  "idx_ok cfg (fst s) \<Longrightarrow> idx_ok cfg (fst (snd (execute_attempt env cfg n s)))"
  using idx_ok_rotate
  by (auto simp: execute_attempt_def Let_def idx_ok_def split: prod.splits sum.splits option.splits)

lemma execute_attempt_wf:
  "wf_checker (rp_health (fst s)) \<Longrightarrow> wf_checker (rp_health (fst (snd (execute_attempt env cfg n s))))"
  using wf_health_step [of _ "RecordSuccess _ _ _"] wf_health_step [of _ "RecordFailure _ _"]
    wf_health_step [of _ "DisableEndpoint _ _"]
  by (auto simp: execute_attempt_def Let_def split: prod.splits sum.splits option.splits)

text \<open>The states in which a call makes its attempts, the attempt \<open>n\<close> being the first of at most \<open>k\<close>.\<close>

fun attempt_states ::
    "('w, 'a) rpc_env \<Rightarrow> rpc_config \<Rightarrow> nat \<Rightarrow> nat \<Rightarrow> rpc_state \<times> 'w \<Rightarrow> (rpc_state \<times> 'w) list" where
  "attempt_states env cfg 0 n s = []"
| "attempt_states env cfg (Suc k) n s =
     s # (case execute_attempt env cfg (word_of_nat n) s of
            (Again e, s') \<Rightarrow> attempt_states env cfg k (Suc n) s'
          | _ \<Rightarrow> [])"

text \<open>In the state \<open>(st, w)\<close> the current endpoint is \<open>x\<close>, and it answers with a payment or authorisation error
  that is not a definitive "account not found".\<close>

definition hard_failure :: "('w, 'a) rpc_env \<Rightarrow> rpc_config \<Rightarrow> string \<Rightarrow> rpc_state \<times> 'w \<Rightarrow> bool" where
  "hard_failure env cfg x s \<longleftrightarrow>
     x = current_endpoint cfg (fst s) \<and>
     (case fst (env_call env x (snd s)) of
        Inl e \<Rightarrow> hard_disable_reason e \<noteq> None \<and> \<not> is_definitive_account_not_found e
      | Inr _ \<Rightarrow> False)"

lemma disabled_by [simp]:
  "is_disabled x (disable_endpoint e reason c) \<longleftrightarrow> x = e \<or> is_disabled x c"
  "is_disabled x (record_success now e ms c) \<longleftrightarrow> is_disabled x c"
  "is_disabled x (record_failure now e c) \<longleftrightarrow> is_disabled x c"
  by (simp_all add: is_disabled_def disable_endpoint_def record_success_def record_failure_def update_conv')

lemma execute_attempt_disabled:
  "is_disabled x (rp_health (fst (snd (execute_attempt env cfg n s)))) \<longleftrightarrow>
     is_disabled x (rp_health (fst s)) \<or> hard_failure env cfg x s"
  by (auto simp: execute_attempt_def hard_failure_def Let_def split: prod.splits sum.splits option.splits)

lemma execute_loop_disabled:
  assumes m: "unat (max_retries cfg) < 2 ^ 32 - 1" and "n \<le> unat (max_retries cfg)"
    and "execute_loop env cfg (word_of_nat n) le s = Some (r, s')"
  shows "is_disabled x (rp_health (fst s')) \<longleftrightarrow> is_disabled x (rp_health (fst s))
    \<or> (\<exists>t \<in> set (attempt_states env cfg (Suc (unat (max_retries cfg) - n)) n s). hard_failure env cfg x t)"
  using assms(2,3)
proof (induction "unat (max_retries cfg) - n" arbitrary: n le s)
  case 0
  with execute_attempt_disabled [of x env cfg "word_of_nat n" s] show ?case
    by (auto simp: execute_loop_unfold [OF _ m] split: prod.splits verdict.splits)
next
  case (Suc k)
  then have eq: "unat (max_retries cfg) - n = Suc (unat (max_retries cfg) - Suc n)" and lt: "n < unat (max_retries cfg)" by simp_all
  obtain v s1 where a: "execute_attempt env cfg (word_of_nat n) s = (v, s1)"
    by (cases "execute_attempt env cfg (word_of_nat n) s") blast
  note one = execute_attempt_disabled [of x env cfg "word_of_nat n" s, unfolded a]
  show ?case
  proof (cases v)
    case (Again e)
    have "execute_loop env cfg (word_of_nat (Suc n)) (Some e) s1 = Some (r, s')"
      using Suc.prems a Again lt by (simp add: execute_loop_unfold [OF _ m] del: of_nat_Suc)
    with Suc.hyps(1) [of "Suc n" "Some e" s1] Suc.hyps(2) lt one a Again show ?thesis
      by (auto simp: eq simp del: of_nat_Suc attempt_states.simps(2) simp add: attempt_states.simps(2) [of _ _ _ n s])
  qed (use Suc.prems a one in \<open>auto simp: execute_loop_unfold [OF _ m]\<close>)
qed

lemma execute_loop_preserves:
  assumes "unat (max_retries cfg) < 2 ^ 32 - 1"
    and "\<And>m t. P t \<Longrightarrow> P (snd (execute_attempt env cfg m t))" and "P s" and "n \<le> unat (max_retries cfg)"
    and "execute_loop env cfg (word_of_nat n) None s = Some (r, s')"
  shows "P s'"
  using retry_loop.loop_preserves [OF rpc_retry_loop [OF assms(1)], of P env s n] assms(2-5) by simp

text \<open>C27. Every call keeps the provider's state well formed: the endpoint index stays in range and
  the health records keep their invariant. When it returns, the endpoints that are hard-disabled are exactly those
  that were before the call and those that answered one of its attempts, the first or any
  retry, with a payment or authorisation error which is not a definitive "account not found".
  The retry count is below \<^verbatim>\<open>u32::MAX\<close>.\<close>

theorem execute_with_retry_state:
  assumes m: "unat (max_retries cfg) < 2 ^ 32 - 1"
    and wf: "idx_ok cfg st" "wf_checker (rp_health st)"
    and ret: "execute_with_retry env cfg (st, w) = Some (r, (st', w'))"
  shows "idx_ok cfg st' \<and> wf_checker (rp_health st')
    \<and> (\<forall>x. is_disabled x (rp_health st') \<longleftrightarrow> is_disabled x (rp_health st)
         \<or> (\<exists>t \<in> set (attempt_states env cfg (Suc (unat (max_retries cfg))) 0 (st, w)). hard_failure env cfg x t))"
proof -
  have ret0: "execute_loop env cfg (word_of_nat 0) None (st, w) = Some (r, (st', w'))"
    using ret by (simp add: execute_with_retry_def)
  have "idx_ok cfg (fst (st', w'))"
    by (rule execute_loop_preserves [OF m _ _ _ ret0, where P = "\<lambda>s. idx_ok cfg (fst s)"])
       (use wf in \<open>auto intro: execute_attempt_idx_ok\<close>)
  moreover have "wf_checker (rp_health (fst (st', w')))"
    by (rule execute_loop_preserves [OF m _ _ _ ret0, where P = "\<lambda>s. wf_checker (rp_health (fst s))"])
       (use wf in \<open>auto intro: execute_attempt_wf\<close>)
  ultimately show ?thesis using execute_loop_disabled [OF m _ ret0] by simp
qed

text \<open>An environment whose first call times out and whose later calls are refused: the endpoint is disabled by
  the second attempt.\<close>

definition refusing_env :: "(nat, nat) rpc_env" where
  "refusing_env = \<lparr>env_now = (\<lambda>w. w), env_sleep = (\<lambda>d w. w + d),
     env_call = (\<lambda>e w. (Inl (if w = 0 then [''timed out''] else [''HTTP (402 Payment Required)'']), w + 1))\<rparr>"

theorem execute_with_retry_state_witness:
  "\<exists>r st' w'. execute_with_retry refusing_env (localhost (\<lambda>_. None)) (\<lparr>rp_health = new_checker, current_endpoint_idx = 0\<rparr>, 0)
     = Some (r, (st', w'))
   \<and> is_disabled ''http://127.0.0.1:8899'' (rp_health st')"
proof -
  let ?cfg = "localhost (\<lambda>_. None)" and ?x = "''http://127.0.0.1:8899''"
  let ?st = "\<lparr>rp_health = new_checker, current_endpoint_idx = 0\<rparr> :: rpc_state"
  have m: "unat (max_retries ?cfg) < 2 ^ 32 - 1" and m3: "unat (max_retries ?cfg) = Suc 2" by (simp_all add: localhost_def)
  have es: "all_endpoints ?cfg = [?x]"
    by (simp add: all_endpoints_def localhost_def)
  then have i: "idx_ok ?cfg ?st" and ce: "current_endpoint ?cfg st = ?x" for st
    by (simp_all add: idx_ok_def current_endpoint_def Let_def)
  have wf: "wf_checker (rp_health ?st)" by (simp add: wf_checker_def new_checker_def)
  have err: "hard_disable_reason [''HTTP (402 Payment Required)''] \<noteq> None"
    "\<not> is_definitive_account_not_found [''HTTP (402 Payment Required)'']"
    "\<not> is_definitive_account_not_found [''timed out'']"
    by (simp_all add: hard_disable_reason_def is_definitive_account_not_found_def
        format_error_chain_def to_ascii_lowercase_def Let_def)
  obtain st1 w1 where one: "execute_attempt refusing_env ?cfg 0 (?st, 0) = (Again [''timed out''], (st1, w1))" "0 < w1"
    using err(3) by (auto simp: execute_attempt_def refusing_env_def Let_def)
  have "hard_failure refusing_env ?cfg ?x (st1, w1)"
    using err(1,2) one(2) by (simp add: hard_failure_def ce refusing_env_def)
  moreover have "(st1, w1) \<in> set (attempt_states refusing_env ?cfg (Suc (unat (max_retries ?cfg))) 0 (?st, 0))"
    using one(1) by (simp add: m3 del: Suc_numeral)
  moreover obtain r st' w' where "execute_with_retry refusing_env ?cfg (?st, 0) = Some (r, (st', w'))"
    using execute_loop_returns [OF m, of 0 refusing_env None "(?st, 0)"] by (auto simp: execute_with_retry_def)
  ultimately show ?thesis
    using execute_with_retry_state [OF m i wf, of refusing_env 0 r st' w'] by blast
qed

end
