(* ===== verification/Rpc_Send.thy ===== *)
theory Rpc_Send
  imports Rpc_Provider
begin

text \<open>
  \<^verbatim>\<open>RpcProvider::send_and_confirm_transaction\<close>: for each endpoint in turn, send with retries on
  that endpoint, then poll the signature status on the same endpoint until it is final, failed
  or 90 seconds have passed. The client calls for the one transaction being sent are fields of
  the environment; error texts are structured values.
\<close>

datatype instr_error = CustomError nat | OtherInstrError string
datatype tx_error = InstructionError nat instr_error | OtherTxError string

datatype confirmation = StProcessed | StConfirmed | StFinalized

record tx_status =
  ts_slot :: u64
  ts_err :: "tx_error option"
  confirmation_status :: "confirmation option"

record tx_message =
  account_keys :: "string list"
  program_id_indices :: "nat list"

datatype 'sig send_error =
    SendTransactionFailed string string "(tx_error option \<times> string option) option" "(nat \<times> string) list"
  | ConfirmTimeout string 'sig
  | TransactionFailed string 'sig tx_error "(nat \<times> string) list" "string option" "nat option"
  | StatusQueryFailed rpc_error
  | FailedToSendAndConfirm

record ('w, 'sig) send_env =
  se_now :: "'w \<Rightarrow> instant"
  se_sleep :: "duration \<Rightarrow> 'w \<Rightarrow> 'w"
  se_send :: "string \<Rightarrow> 'w \<Rightarrow> (string + 'sig) \<times> 'w"
  se_simulate :: "string \<Rightarrow> 'w \<Rightarrow> (string + (tx_error option \<times> string list option)) \<times> 'w"
  se_statuses :: "string \<Rightarrow> 'sig \<Rightarrow> 'w \<Rightarrow> (rpc_error + tx_status option list) \<times> 'w"

definition format_instruction_program_ids :: "tx_message \<Rightarrow> (nat \<times> string) list" where
  "format_instruction_program_ids tx =
     concat (map (\<lambda>(i, idx). if idx < length (account_keys tx) then [(i, account_keys tx ! idx)] else [])
       (enumerate 0 (program_id_indices tx)))"

text \<open>The logs of the runtime are cut after 2500 bytes. \<^verbatim>\<open>truncate\<close> panics when that is inside a character of several
  bytes; the model is that of logs in ASCII.\<close>

definition truncate_logs :: "string \<Rightarrow> string" where
  "truncate_logs joined = (if 2500 < length joined then take 2500 joined @ ''...'' else joined)"

text \<open>The error built when a send fails; when preflight simulation failed the transaction is
  simulated again on the same endpoint to fetch its error and logs.\<close>

definition describe_send_failure ::
    "('w, 'sig) send_env \<Rightarrow> tx_message \<Rightarrow> string \<Rightarrow> string \<Rightarrow> 'w \<Rightarrow> 'sig send_error \<times> 'w" where
  "describe_send_failure env tx endpoint e_dbg w =
     (if contains e_dbg ''Transaction simulation failed'' then
        (case se_simulate env endpoint w of
           (Inr (sim_err, logs), w) \<Rightarrow>
             (SendTransactionFailed endpoint e_dbg
                (Some (sim_err, map_option (\<lambda>l. truncate_logs (join '' | '' l)) logs))
                (format_instruction_program_ids tx), w)
         | (Inl _, w) \<Rightarrow>
             (SendTransactionFailed endpoint e_dbg None (format_instruction_program_ids tx), w))
      else (SendTransactionFailed endpoint e_dbg None [], w))"

text \<open>Step 1: the send loop on one endpoint (\<open>Inl ()\<close> when the retries are used up).\<close>

function send_loop ::
    "('w, 'sig) send_env \<Rightarrow> rpc_config \<Rightarrow> tx_message \<Rightarrow> string \<Rightarrow> nat \<Rightarrow> 'sig send_error option \<Rightarrow> 'w
     \<Rightarrow> (unit + 'sig) \<times> 'sig send_error option \<times> 'w" where
  "send_loop env cfg tx endpoint send_attempt last_err w =
     (case se_send env endpoint w of
        (Inr sig, w) \<Rightarrow> (Inr sig, last_err, w)
      | (Inl e, w) \<Rightarrow>
          (let (err, w) = describe_send_failure env tx endpoint e w in
           if unat (max_retries cfg) \<le> send_attempt then (Inl (), Some err, w)
           else send_loop env cfg tx endpoint (Suc send_attempt) (Some err)
                  (se_sleep env (from_millis (unat (calculate_backoff (word_of_nat send_attempt)
                     (retry_base_delay_ms cfg) (retry_max_delay_ms cfg)))) w)))"
  by pat_completeness auto
termination
  by (relation "measure (\<lambda>(env, cfg, tx, e, n, l, w). unat (max_retries cfg) - n)") auto

declare send_loop.simps [simp del]

definition commitment_ok :: "commitment_level \<Rightarrow> tx_status \<Rightarrow> bool" where
  "commitment_ok level status =
     (case level of
        Processed \<Rightarrow> True
      | Confirmed \<Rightarrow> confirmation_status status \<in> {Some StConfirmed, Some StFinalized}
      | Finalized \<Rightarrow> confirmation_status status = Some StFinalized)"

definition describe_tx_error ::
    "tx_message \<Rightarrow> string \<Rightarrow> 'sig \<Rightarrow> tx_error \<Rightarrow> 'sig send_error" where
  "describe_tx_error tx endpoint sig err =
     (case err of
        InstructionError ix ix_err \<Rightarrow>
          TransactionFailed endpoint sig err (format_instruction_program_ids tx)
            (if ix < length (program_id_indices tx)
                \<and> program_id_indices tx ! ix < length (account_keys tx)
             then Some (account_keys tx ! (program_id_indices tx ! ix)) else None)
            (case ix_err of CustomError code \<Rightarrow> Some code | OtherInstrError _ \<Rightarrow> None)
      | OtherTxError _ \<Rightarrow> TransactionFailed endpoint sig err [] None None)"

datatype 'sig confirm_outcome = ConfirmedOk | TimedOut | Abort "'sig send_error"

text \<open>Step 2: the polling loop. It has no bound of its own besides the clock.\<close>

partial_function (option) confirm_loop ::
    "('w, 'sig) send_env \<Rightarrow> rpc_config \<Rightarrow> tx_message \<Rightarrow> string \<Rightarrow> 'sig \<Rightarrow> instant \<Rightarrow> 'w
     \<Rightarrow> ('sig confirm_outcome \<times> 'w) option" where
  "confirm_loop env cfg tx endpoint sig deadline w =
     (if deadline \<le> se_now env w then Some (TimedOut, w)
      else case se_statuses env endpoint sig w of
        (reply, w1) \<Rightarrow>
          (case reply of
             Inl e \<Rightarrow> Some (Abort (StatusQueryFailed (''get_signature_statuses'' # e)), w1)
           | Inr statuses \<Rightarrow>
               (case (if statuses = [] then None else hd statuses) of
                  None \<Rightarrow> confirm_loop env cfg tx endpoint sig deadline (se_sleep env (from_millis 800) w1)
                | Some status \<Rightarrow>
                    (case ts_err status of
                       Some err \<Rightarrow> Some (Abort (describe_tx_error tx endpoint sig err), w1)
                     | None \<Rightarrow>
                         if commitment_ok (commitment cfg) status then Some (ConfirmedOk, w1)
                         else confirm_loop env cfg tx endpoint sig deadline
                                (se_sleep env (from_millis 800) w1)))))"

text \<open>The loop over endpoints.\<close>

fun endpoints_loop ::
    "('w, 'sig) send_env \<Rightarrow> rpc_config \<Rightarrow> tx_message \<Rightarrow> nat \<Rightarrow> 'sig send_error option \<Rightarrow> rpc_state \<Rightarrow> 'w
     \<Rightarrow> (('sig send_error + 'sig) \<times> rpc_state \<times> 'w) option" where
  "endpoints_loop env cfg tx 0 last_err st w =
     Some (Inl (case last_err of Some e \<Rightarrow> e | None \<Rightarrow> FailedToSendAndConfirm), st, w)"
| "endpoints_loop env cfg tx (Suc n) last_err st w =
     (let endpoint = current_endpoint cfg st in
      case send_loop env cfg tx endpoint 0 last_err w of
        (Inl _, last_err, w) \<Rightarrow>
          endpoints_loop env cfg tx n last_err (rotate_endpoint cfg (se_now env w) st) w
      | (Inr sig, last_err, w) \<Rightarrow>
          (case confirm_loop env cfg tx endpoint sig (se_now env w + from_secs 90) w of
             None \<Rightarrow> None
           | Some (ConfirmedOk, w) \<Rightarrow> Some (Inr sig, st, w)
           | Some (Abort e, w) \<Rightarrow> Some (Inl e, st, w)
           | Some (TimedOut, w) \<Rightarrow>
               endpoints_loop env cfg tx n (Some (ConfirmTimeout endpoint sig))
                 (rotate_endpoint cfg (se_now env w) st) w))"

definition send_and_confirm_transaction ::
    "('w, 'sig) send_env \<Rightarrow> rpc_config \<Rightarrow> tx_message \<Rightarrow> rpc_state \<Rightarrow> 'w
     \<Rightarrow> (('sig send_error + 'sig) \<times> rpc_state \<times> 'w) option" where
  "send_and_confirm_transaction env cfg tx st w =
     endpoints_loop env cfg tx (max (length (all_endpoints cfg)) 1) None st w"

section \<open>Termination\<close>

text \<open>What the code relies on of the runtime: time never goes back, and a sleep lasts at least as
  long as asked.\<close>

definition clock_laws :: "('w, 'sig) send_env \<Rightarrow> bool" where
  "clock_laws env \<longleftrightarrow>
     (\<forall>d w. se_now env w + d \<le> se_now env (se_sleep env d w))
   \<and> (\<forall>e w. se_now env w \<le> se_now env (snd (se_send env e w)))
   \<and> (\<forall>e w. se_now env w \<le> se_now env (snd (se_simulate env e w)))
   \<and> (\<forall>e s w. se_now env w \<le> se_now env (snd (se_statuses env e s w)))"

lemma confirm_loop_returns:
  assumes "clock_laws env"
  shows "\<exists>r. confirm_loop env cfg tx endpoint sig deadline w = Some r"
proof (induction "deadline - se_now env w" arbitrary: w rule: less_induct)
  case less
  show ?case
  proof (cases "deadline \<le> se_now env w")
    case True
    then show ?thesis by (subst confirm_loop.simps) simp
  next
    case False
    obtain reply w1 where r: "se_statuses env endpoint sig w = (reply, w1)" by fastforce
    let ?w2 = "se_sleep env (from_millis 800) w1"
    have "se_now env w \<le> se_now env w1"
      using assms r by (metis clock_laws_def snd_conv)
    moreover have "se_now env w1 + from_millis 800 \<le> se_now env ?w2"
      using assms by (simp add: clock_laws_def)
    ultimately have "deadline - se_now env ?w2 < deadline - se_now env w"
      using False by (simp add: from_millis_def)
    from less [OF this] False r show ?thesis
      by (subst confirm_loop.simps) (auto split: sum.splits option.splits)
  qed
qed

lemma endpoints_loop_returns:
  assumes "clock_laws env"
  shows "\<exists>r. endpoints_loop env cfg tx n last_err st w = Some r"
proof (induction n arbitrary: last_err st w)
  case (Suc n)
  obtain r l w1 where s: "send_loop env cfg tx (current_endpoint cfg st) 0 last_err w = (r, l, w1)"
    by (cases "send_loop env cfg tx (current_endpoint cfg st) 0 last_err w") blast
  obtain o' w2 where c: "confirm_loop env cfg tx (current_endpoint cfg st) (projr r)
      (se_now env w1 + from_secs 90) w1 = Some (o', w2)"
    using confirm_loop_returns [OF assms] by fastforce
  show ?case
  proof (cases r)
    case (Inr sig)
    with s c Suc.IH show ?thesis by (cases o') (simp_all add: Let_def)
  qed (use s Suc.IH in \<open>simp add: Let_def\<close>)
qed simp

text \<open>With a clock that does not run backwards and sleeps that last, sending and confirming a
  transaction always returns: no status reply sequence keeps it polling forever.\<close>

theorem send_and_confirm_returns:
  assumes "clock_laws env"
  shows "\<exists>r st' w'. send_and_confirm_transaction env cfg tx st w = Some (r, st', w')"
  using endpoints_loop_returns [OF assms] by (auto simp: send_and_confirm_transaction_def)

text \<open>An environment in which the transaction is accepted at once but never reaches a final status.\<close>

definition never_final_env :: "(nat, nat) send_env" where
  "never_final_env = \<lparr>se_now = (\<lambda>w. w), se_sleep = (\<lambda>d w. w + d),
     se_send = (\<lambda>e w. (Inr 7, w + 1)), se_simulate = (\<lambda>e w. (Inl ''offline'', w)),
     se_statuses = (\<lambda>e s w. (Inr [Some \<lparr>ts_slot = 1, ts_err = None,
        confirmation_status = Some StProcessed\<rparr>], w))\<rparr>"

theorem send_and_confirm_returns_witness:
  "\<exists>r st' w'. send_and_confirm_transaction never_final_env (localhost (\<lambda>_. None))
     \<lparr>account_keys = [], program_id_indices = []\<rparr>
     \<lparr>rp_health = new_checker, current_endpoint_idx = 0\<rparr> 0 = Some (r, st', w')"
  by (rule send_and_confirm_returns) (simp add: clock_laws_def never_final_env_def)

section \<open>Safety of a reported success\<close>

lemma send_loop_sent:
  "send_loop env cfg tx e n l w = (Inr sig, l', w') \<Longrightarrow> \<exists>w0. se_send env e w0 = (Inr sig, w')"
proof (induction env cfg tx e n l w rule: send_loop.induct)
  case (1 env cfg tx e n l w)
  then show ?case
    unfolding send_loop.simps [of env cfg tx e n l w]
    by (fastforce simp: Let_def split: prod.splits sum.splits if_splits)
qed

text \<open>What a successful confirmation on endpoint \<open>e\<close> rests on: a status reply for that signature
  from that endpoint, with no error and at the configured commitment level.\<close>

definition confirmed_on :: "('w, 'sig) send_env \<Rightarrow> rpc_config \<Rightarrow> string \<Rightarrow> 'sig \<Rightarrow> bool" where
  "confirmed_on env cfg e sig \<longleftrightarrow>
     (\<exists>w status rest w'. se_statuses env e sig w = (Inr (Some status # rest), w')
        \<and> ts_err status = None \<and> commitment_ok (commitment cfg) status)"

lemma confirm_loop_ok:
  assumes "confirm_loop env cfg tx e sig deadline w = Some (ConfirmedOk, w')"
  shows "confirmed_on env cfg e sig"
proof -
  have "fst r = ConfirmedOk \<longrightarrow> confirmed_on env cfg e sig"
    if "confirm_loop env cfg tx e sig deadline w = Some r" for r
  proof (rule confirm_loop.raw_induct
      [where P = "\<lambda>env cfg tx e sig d w r. fst r = ConfirmedOk \<longrightarrow> confirmed_on env cfg e sig", OF _ that],
      goal_cases)
    case prems: (1 f env cfg tx e sig d w r)
    have "confirmed_on env cfg e sig"
      if "se_statuses env e sig w = (Inr ss, w1)" "ss \<noteq> []" "hd ss = Some st" "ts_err st = None"
        "commitment_ok (commitment cfg) st" for ss w1 st
      unfolding confirmed_on_def using that by (metis list.collapse)
    with prems show "fst r = ConfirmedOk \<longrightarrow> confirmed_on env cfg e sig"
      by (auto split: if_splits prod.splits sum.splits option.splits)
  qed
  with assms show ?thesis by fastforce
qed

lemma endpoints_loop_ok:
  "idx_ok cfg st \<Longrightarrow> endpoints_loop env cfg tx n l st w = Some (Inr sig, st', w') \<Longrightarrow>
   \<exists>e \<in> set (all_endpoints cfg). (\<exists>w0 w1. se_send env e w0 = (Inr sig, w1)) \<and> confirmed_on env cfg e sig"
proof (induction n arbitrary: l st w)
  case (Suc n)
  let ?e = "current_endpoint cfg st"
  have mem: "?e \<in> set (all_endpoints cfg)"
    using Suc.prems(1) by (simp add: current_endpoint_def idx_ok_def Let_def)
  obtain r l1 w1 where s: "send_loop env cfg tx ?e 0 l w = (r, l1, w1)"
    by (cases "send_loop env cfg tx ?e 0 l w") blast
  show ?case
  proof (cases r)
    case (Inl u)
    with s Suc.prems(2) show ?thesis
      by (intro Suc.IH [OF idx_ok_rotate]) (simp add: Let_def)
  next
    case (Inr sg)
    note sent = send_loop_sent [OF s [unfolded Inr]]
    show ?thesis
    proof (cases "confirm_loop env cfg tx ?e sg (se_now env w1 + from_secs 90) w1")
      case None
      with s Inr Suc.prems(2) show ?thesis by (simp add: Let_def)
    next
      case (Some ow)
      obtain oc w2 where ow: "ow = (oc, w2)" by fastforce
      show ?thesis
      proof (cases oc)
        case ConfirmedOk
        with s Inr Some ow Suc.prems(2) have "sg = sig" by (simp add: Let_def)
        moreover have "confirmed_on env cfg ?e sg"
          by (rule confirm_loop_ok) (use Some ow ConfirmedOk in simp)
        ultimately show ?thesis using sent mem by blast
      next
        case TimedOut
        with s Inr Some ow Suc.prems(2) show ?thesis
          by (intro Suc.IH [OF idx_ok_rotate]) (simp add: Let_def)
      next
        case (Abort e)
        with s Inr Some ow Suc.prems(2) show ?thesis by (simp add: Let_def)
      qed
    qed
  qed
qed simp

text \<open>C9. A reported success is never unfounded: if sending and confirming returns a signature, some
  configured endpoint accepted the transaction with exactly that signature, and that same
  endpoint later reported the signature with no error at the configured commitment level.\<close>

theorem send_and_confirm_safe:
  assumes "idx_ok cfg st"
    and "send_and_confirm_transaction env cfg tx st w = Some (Inr sig, st', w')"
  shows "\<exists>e \<in> set (all_endpoints cfg).
    (\<exists>w0 w1. se_send env e w0 = (Inr sig, w1)) \<and> confirmed_on env cfg e sig"
  using assms endpoints_loop_ok by (simp add: send_and_confirm_transaction_def)

text \<open>An environment that reports the transaction as finalized on the first poll.\<close>

definition final_env :: "(nat, nat) send_env" where
  "final_env = \<lparr>se_now = (\<lambda>w. w), se_sleep = (\<lambda>d w. w + d),
     se_send = (\<lambda>e w. (Inr 7, w + 1)), se_simulate = (\<lambda>e w. (Inl ''offline'', w)),
     se_statuses = (\<lambda>e s w. (Inr [Some \<lparr>ts_slot = 1, ts_err = None,
        confirmation_status = Some StFinalized\<rparr>], w))\<rparr>"

theorem send_and_confirm_safe_witness:
  "send_and_confirm_transaction final_env (localhost (\<lambda>_. None))
     \<lparr>account_keys = [], program_id_indices = []\<rparr>
     \<lparr>rp_health = new_checker, current_endpoint_idx = 0\<rparr> 0
     = Some (Inr 7, \<lparr>rp_health = new_checker, current_endpoint_idx = 0\<rparr>, 1)
   \<and> confirmed_on final_env (localhost (\<lambda>_. None)) ''http://127.0.0.1:8899'' 7"
proof -
  let ?cfg = "localhost (\<lambda>_. None)" and ?st = "\<lparr>rp_health = new_checker, current_endpoint_idx = 0\<rparr> :: rpc_state"
  let ?tx = "\<lparr>account_keys = [], program_id_indices = []\<rparr> :: tx_message"
  have es: "all_endpoints ?cfg = [''http://127.0.0.1:8899'']" and c: "commitment ?cfg = Confirmed"
    by (simp_all add: all_endpoints_def localhost_def default_config_def Let_def)
  have run: "send_and_confirm_transaction final_env ?cfg ?tx ?st 0 = Some (Inr 7, ?st, 1)"
    by (simp add: send_and_confirm_transaction_def es current_endpoint_def send_loop.simps
        confirm_loop.simps final_env_def commitment_ok_def c from_secs_def)
  have "idx_ok ?cfg ?st" by (simp add: idx_ok_def es)
  from send_and_confirm_safe [OF this run] run show ?thesis by (simp add: es)
qed

end
