(* ===== verification/Transaction_Manager.thy ===== *)
theory Transaction_Manager
  imports Rpc_Provider
begin

text \<open>
  \<^verbatim>\<open>crates/execution/src/transaction\<close>: the transaction builder, and the manager that simulates,
  sends with retries and waits for the confirmation of a transaction. Every RPC call goes through
  \<open>execute_with_retry\<close> of the provider, as in the code; the client calls, the clock and the
  timer are fields of an environment. An outer \<open>None\<close> means that a call does not return.
\<close>

section \<open>Types\<close>

datatype 'sig transaction_status = Building | Simulating | Ready | Sent 'sig | Confirmed 'sig | TxFailed string

record 'sig transaction_result =
  tr_signature :: 'sig
  tr_slot :: u64
  confirmation_time :: duration
  tr_compute_units :: "u64 option"
  fee :: u64

datatype priority_level = Low | Medium | High | Urgent

definition price_multiplier :: "priority_level \<Rightarrow> u64" where
  "price_multiplier p = (case p of Low \<Rightarrow> 1 | Medium \<Rightarrow> 10 | High \<Rightarrow> 100 | Urgent \<Rightarrow> 1000)"

text \<open>Priority levels are ordered as they are declared, from slow and cheap to fast and expensive, which
  is the order of their prices.\<close>

lemma price_multiplier_inj: "price_multiplier p = price_multiplier q \<longleftrightarrow> p = q"
  by (cases p; cases q) (simp_all add: price_multiplier_def)

instantiation priority_level :: linorder
begin

definition less_eq_priority_level :: "priority_level \<Rightarrow> priority_level \<Rightarrow> bool" where
  "less_eq_priority_level p q \<longleftrightarrow> price_multiplier p \<le> price_multiplier q"

definition less_priority_level :: "priority_level \<Rightarrow> priority_level \<Rightarrow> bool" where
  "less_priority_level p q \<longleftrightarrow> price_multiplier p < price_multiplier q"

instance
  by standard (auto simp: less_eq_priority_level_def less_priority_level_def price_multiplier_inj [symmetric])

end

lemma priority_order: "Low < Medium" "Medium < High" "High < Urgent"
  by (simp_all add: less_priority_level_def price_multiplier_def word_less_nat_alt)

section \<open>The builder\<close>

text \<open>\<open>'i\<close> are instructions, \<open>'h\<close> block hashes, \<open>'k\<close> key pairs with their address \<open>key_pubkey\<close>;
  \<open>make_tx\<close> stands for the message construction and signing of the Solana SDK.\<close>

record ('i, 'h) transaction_builder =
  instructions :: "'i list"
  tb_compute_units :: "u32 option"
  priority :: priority_level
  blockhash :: "'h option"
  fee_payer :: "pubkey option"

definition new_builder :: "('i, 'h) transaction_builder" where
  "new_builder = \<lparr>instructions = [], tb_compute_units = None, priority = Medium, blockhash = None, fee_payer = None\<rparr>"

definition add_instruction :: "'i \<Rightarrow> ('i, 'h) transaction_builder \<Rightarrow> ('i, 'h) transaction_builder" where
  "add_instruction i b = b\<lparr>instructions := instructions b @ [i]\<rparr>"

definition add_instructions :: "'i list \<Rightarrow> ('i, 'h) transaction_builder \<Rightarrow> ('i, 'h) transaction_builder" where
  "add_instructions is b = b\<lparr>instructions := instructions b @ is\<rparr>"

definition with_compute_units :: "u32 \<Rightarrow> ('i, 'h) transaction_builder \<Rightarrow> ('i, 'h) transaction_builder" where
  "with_compute_units n b = b\<lparr>tb_compute_units := Some n\<rparr>"

definition with_priority :: "priority_level \<Rightarrow> ('i, 'h) transaction_builder \<Rightarrow> ('i, 'h) transaction_builder" where
  "with_priority p b = b\<lparr>priority := p\<rparr>"

definition with_blockhash :: "'h \<Rightarrow> ('i, 'h) transaction_builder \<Rightarrow> ('i, 'h) transaction_builder" where
  "with_blockhash h b = b\<lparr>blockhash := Some h\<rparr>"

definition with_fee_payer :: "pubkey \<Rightarrow> ('i, 'h) transaction_builder \<Rightarrow> ('i, 'h) transaction_builder" where
  "with_fee_payer k b = b\<lparr>fee_payer := Some k\<rparr>"

definition build ::
    "('i list \<Rightarrow> pubkey \<Rightarrow> 'k list \<Rightarrow> 'h \<Rightarrow> 'tx) \<Rightarrow> ('k \<Rightarrow> pubkey) \<Rightarrow> 'k list \<Rightarrow> ('i, 'h) transaction_builder
     \<Rightarrow> string + 'tx" where
  "build make_tx key_pubkey signers b =
     (case blockhash b of
        None \<Rightarrow> Inl ''Blockhash not set''
      | Some h \<Rightarrow>
          (case (case fee_payer b of
                   Some k \<Rightarrow> Some k
                 | None \<Rightarrow> (case signers of [] \<Rightarrow> None | s # _ \<Rightarrow> Some (key_pubkey s))) of
             None \<Rightarrow> Inl ''Fee payer not set''
           | Some payer \<Rightarrow> Inr (make_tx (instructions b) payer signers h)))"

definition estimated_compute_units :: "('i, 'h) transaction_builder \<Rightarrow> u32" where
  "estimated_compute_units b = (case tb_compute_units b of None \<Rightarrow> 200000 | Some n \<Rightarrow> n)"

section \<open>The manager\<close>

record transaction_config =
  tm_max_retries :: u32
  tm_retry_base_delay_ms :: u64
  confirmation_timeout_secs :: u64
  simulate_before_send :: bool

definition default_transaction_config :: transaction_config where
  "default_transaction_config = \<lparr>tm_max_retries = 3, tm_retry_base_delay_ms = 500,
     confirmation_timeout_secs = 60, simulate_before_send = True\<rparr>"

record signature_status_info =
  ss_slot :: u64
  ss_err :: "string option"

record rpc_simulation =
  rs_err :: "string option"
  rs_logs :: "string list option"
  rs_units_consumed :: "u64 option"

record simulation_result =
  success :: bool
  logs :: "string list"
  compute_units :: u64
  sim_error :: "string option"

text \<open>The client calls for one transaction, on a given endpoint.\<close>

record ('w, 'sig) tm_env =
  tm_now :: "'w \<Rightarrow> instant"
  tm_sleep :: "duration \<Rightarrow> 'w \<Rightarrow> 'w"
  call_simulate :: "string \<Rightarrow> 'w \<Rightarrow> (rpc_error + rpc_simulation) \<times> 'w"
  call_send :: "string \<Rightarrow> 'w \<Rightarrow> (rpc_error + 'sig) \<times> 'w"
  call_statuses :: "'sig \<Rightarrow> string \<Rightarrow> 'w \<Rightarrow> (rpc_error + signature_status_info option list) \<times> 'w"

type_synonym ('w, 'a) call_result = "((rpc_error + 'a) \<times> (rpc_state \<times> 'w)) option"

definition rpc :: "('w, 'sig) tm_env \<Rightarrow> (string \<Rightarrow> 'w \<Rightarrow> (rpc_error + 'a) \<times> 'w) \<Rightarrow> ('w, 'a) rpc_env" where
  "rpc env call = \<lparr>env_now = tm_now env, env_sleep = tm_sleep env, env_call = call\<rparr>"

definition provider_simulate_transaction ::
    "('w, 'sig) tm_env \<Rightarrow> rpc_config \<Rightarrow> rpc_state \<times> 'w \<Rightarrow> ('w, rpc_simulation) call_result" where
  "provider_simulate_transaction env pc s = execute_with_retry (rpc env (call_simulate env)) pc s"

definition provider_send_transaction ::
    "('w, 'sig) tm_env \<Rightarrow> rpc_config \<Rightarrow> rpc_state \<times> 'w \<Rightarrow> ('w, 'sig) call_result" where
  "provider_send_transaction env pc s = execute_with_retry (rpc env (call_send env)) pc s"

definition get_signature_status ::
    "('w, 'sig) tm_env \<Rightarrow> rpc_config \<Rightarrow> 'sig \<Rightarrow> rpc_state \<times> 'w \<Rightarrow> ('w, signature_status_info option) call_result" where
  "get_signature_status env pc sig s =
     execute_with_retry (rpc env (\<lambda>e w. case call_statuses env sig e w of
         (Inl err, w') \<Rightarrow> (Inl err, w')
       | (Inr [], w') \<Rightarrow> (Inr None, w')
       | (Inr (st # _), w') \<Rightarrow> (Inr st, w'))) pc s"

definition simulate ::
    "('w, 'sig) tm_env \<Rightarrow> rpc_config \<Rightarrow> rpc_state \<times> 'w \<Rightarrow> ('w, simulation_result) call_result" where
  "simulate env pc s =
     (case provider_simulate_transaction env pc s of
        None \<Rightarrow> None
      | Some (Inl e, s') \<Rightarrow> Some (Inl e, s')
      | Some (Inr r, s') \<Rightarrow>
          let lgs = (case rs_logs r of None \<Rightarrow> [] | Some l \<Rightarrow> l);
              units = (case rs_units_consumed r of None \<Rightarrow> 0 | Some n \<Rightarrow> n)
          in case rs_err r of
               Some err \<Rightarrow> Some (Inr \<lparr>success = False, logs = lgs, compute_units = units, sim_error = Some err\<rparr>, s')
             | None \<Rightarrow> Some (Inr \<lparr>success = True, logs = lgs, compute_units = units, sim_error = None\<rparr>, s'))"

text \<open>The preflight simulation, with the error it turns into when it does not succeed.\<close>

definition preflight ::
    "('w, 'sig) tm_env \<Rightarrow> rpc_config \<Rightarrow> transaction_config \<Rightarrow> rpc_state \<times> 'w \<Rightarrow> ('w, unit) call_result" where
  "preflight env pc tc s =
     (if simulate_before_send tc then
        (case simulate env pc s of
           None \<Rightarrow> None
         | Some (Inl e, s') \<Rightarrow> Some (Inl e, s')
         | Some (Inr sim, s') \<Rightarrow>
             if success sim then Some (Inr (), s')
             else Some (Inl [''Transaction simulation failed: '' @
                    (case sim_error sim of None \<Rightarrow> ''simulation failed without error details'' | Some m \<Rightarrow> m)], s'))
      else Some (Inr (), s))"

definition try_send_transaction ::
    "('w, 'sig) tm_env \<Rightarrow> rpc_config \<Rightarrow> transaction_config \<Rightarrow> rpc_state \<times> 'w \<Rightarrow> ('w, 'sig) call_result" where
  "try_send_transaction env pc tc s =
     (case preflight env pc tc s of
        None \<Rightarrow> None
      | Some (Inl e, s') \<Rightarrow> Some (Inl e, s')
      | Some (Inr _, s') \<Rightarrow> provider_send_transaction env pc s')"

text \<open>The delay before a retry; \<^verbatim>\<open>2u64.pow\<close> and the product wrap around.\<close>

definition retry_delay :: "transaction_config \<Rightarrow> nat \<Rightarrow> u64" where
  "retry_delay tc attempt = tm_retry_base_delay_ms tc * 2 ^ (attempt - 1)"

fun send_attempts ::
    "('w, 'sig) tm_env \<Rightarrow> rpc_config \<Rightarrow> transaction_config \<Rightarrow> nat list \<Rightarrow> rpc_error option \<Rightarrow> rpc_state \<times> 'w
     \<Rightarrow> ('w, 'sig) call_result" where
  "send_attempts env pc tc [] last_error s =
     Some (Inl (case last_error of None \<Rightarrow> [''Unknown error''] | Some e \<Rightarrow> e), s)"
| "send_attempts env pc tc (attempt # rest) last_error (st, w) =
     (let w = (if 0 < attempt then tm_sleep env (from_millis (unat (retry_delay tc attempt))) w else w)
      in case try_send_transaction env pc tc (st, w) of
           None \<Rightarrow> None
         | Some (Inr sig, s') \<Rightarrow> Some (Inr sig, s')
         | Some (Inl e, s') \<Rightarrow> send_attempts env pc tc rest (Some e) s')"

definition send_transaction ::
    "('w, 'sig) tm_env \<Rightarrow> rpc_config \<Rightarrow> transaction_config \<Rightarrow> rpc_state \<times> 'w \<Rightarrow> ('w, 'sig) call_result" where
  "send_transaction env pc tc s = send_attempts env pc tc [0..<Suc (unat (tm_max_retries tc))] None s"

definition map_signature_status ::
    "'sig \<Rightarrow> signature_status_info option \<Rightarrow> rpc_error + 'sig transaction_result option" where
  "map_signature_status sig status =
     (case status of
        Some st \<Rightarrow>
          (case ss_err st of
             Some err \<Rightarrow> Inl [''Transaction failed: '' @ err]
           | None \<Rightarrow> Inr (Some \<lparr>tr_signature = sig, tr_slot = ss_slot st, confirmation_time = 0,
                            tr_compute_units = None, fee = 0\<rparr>))
      | None \<Rightarrow> Inr None)"

definition check_confirmation ::
    "('w, 'sig) tm_env \<Rightarrow> rpc_config \<Rightarrow> 'sig \<Rightarrow> rpc_state \<times> 'w \<Rightarrow> ('w, 'sig transaction_result option) call_result" where
  "check_confirmation env pc sig s =
     (case get_signature_status env pc sig s of
        None \<Rightarrow> None
      | Some (Inl e, s') \<Rightarrow> Some (Inl e, s')
      | Some (Inr status, s') \<Rightarrow> Some (map_signature_status sig status, s'))"

partial_function (option) wait_loop ::
    "('w, 'sig) tm_env \<Rightarrow> rpc_config \<Rightarrow> 'sig \<Rightarrow> instant \<Rightarrow> duration \<Rightarrow> rpc_state \<times> 'w
     \<Rightarrow> ('w, 'sig transaction_result) call_result" where
  "wait_loop env pc sig start time_limit s =
     (if time_limit < elapsed (tm_now env (snd s)) start then Some (Inl [''Confirmation timeout''], s)
      else (case check_confirmation env pc sig s of
              None \<Rightarrow> None
            | Some (r, s') \<Rightarrow>
                (case r of
                   Inl e \<Rightarrow> Some (Inl e, s')
                 | Inr None \<Rightarrow>
                     wait_loop env pc sig start time_limit (fst s', tm_sleep env (from_millis 500) (snd s'))
                 | Inr (Some result) \<Rightarrow>
                     Some (Inr (result\<lparr>confirmation_time := elapsed (tm_now env (snd s')) start\<rparr>), s'))))"

definition wait_for_confirmation ::
    "('w, 'sig) tm_env \<Rightarrow> rpc_config \<Rightarrow> transaction_config \<Rightarrow> 'sig \<Rightarrow> rpc_state \<times> 'w
     \<Rightarrow> ('w, 'sig transaction_result) call_result" where
  "wait_for_confirmation env pc tc sig s =
     wait_loop env pc sig (tm_now env (snd s)) (from_secs (unat (confirmation_timeout_secs tc))) s"

definition send_and_confirm ::
    "('w, 'sig) tm_env \<Rightarrow> rpc_config \<Rightarrow> transaction_config \<Rightarrow> rpc_state \<times> 'w
     \<Rightarrow> ('w, 'sig transaction_result) call_result" where
  "send_and_confirm env pc tc s =
     (case preflight env pc tc s of
        None \<Rightarrow> None
      | Some (Inl e, s') \<Rightarrow> Some (Inl e, s')
      | Some (Inr _, s') \<Rightarrow>
          (case send_transaction env pc tc s' of
             None \<Rightarrow> None
           | Some (Inl e, s'') \<Rightarrow> Some (Inl e, s'')
           | Some (Inr sig, s'') \<Rightarrow> wait_for_confirmation env pc tc sig s''))"

section \<open>Every call returns\<close>

text \<open>What is relied on of the runtime: time never goes back and a sleep lasts at least as long as
  asked.\<close>

definition tm_clock_laws :: "('w, 'sig) tm_env \<Rightarrow> bool" where
  "tm_clock_laws env \<longleftrightarrow>
     (\<forall>d w. tm_now env w + d \<le> tm_now env (tm_sleep env d w))
   \<and> (\<forall>e w. tm_now env w \<le> tm_now env (snd (call_simulate env e w)))
   \<and> (\<forall>e w. tm_now env w \<le> tm_now env (snd (call_send env e w)))
   \<and> (\<forall>sig e w. tm_now env w \<le> tm_now env (snd (call_statuses env sig e w)))"

lemma execute_returns:
  "unat (max_retries pc) < 2 ^ 32 - 1 \<Longrightarrow> \<exists>r s'. execute_with_retry env pc s = Some (r, s')"
  using execute_loop_returns [of pc 0 env None s] by (auto simp: execute_with_retry_def)

lemma execute_time:
  fixes env :: "('w, 'a) rpc_env"
  assumes "unat (max_retries pc) < 2 ^ 32 - 1"
    and "\<And>d w. env_now env w \<le> env_now env (env_sleep env d w)"
    and "\<And>e w. env_now env w \<le> env_now env (snd (env_call env e w))"
    and "execute_with_retry env pc s = Some (r, s')"
  shows "env_now env (snd s) \<le> env_now env (snd s')"
proof -
  have "env_now env (snd s) \<le> env_now env (snd (snd (the (execute_loop env pc (word_of_nat 0) None s))))"
  proof (rule retry_loop.loop_preserves [OF rpc_retry_loop [OF assms(1)],
        where P = "\<lambda>t. env_now env (snd s) \<le> env_now env (snd t)"])
    fix m and t :: "rpc_state \<times> 'w"
    assume t: "env_now env (snd s) \<le> env_now env (snd t)"
    obtain st w where tw: "t = (st, w)" by fastforce
    have "env_now env w \<le> env_now env (snd (snd (execute_attempt env pc (word_of_nat m) (st, w))))"
      using assms(3) [of w "current_endpoint pc st"] assms(2)
      by (auto simp: execute_attempt_def Let_def split: prod.splits sum.splits intro: order_trans)
    with t tw show "env_now env (snd s) \<le> env_now env (snd (snd (execute_attempt env pc (word_of_nat m) t)))"
      by simp
  qed simp_all
  with assms(4) show ?thesis by (simp add: execute_with_retry_def)
qed

lemma rpc_time:
  assumes "unat (max_retries pc) < 2 ^ 32 - 1" and "tm_clock_laws env"
    and "\<And>e w. tm_now env w \<le> tm_now env (snd (call e w))"
    and "execute_with_retry (rpc env call) pc s = Some (r, s')"
  shows "tm_now env (snd s) \<le> tm_now env (snd s')"
proof -
  have "tm_now env w \<le> tm_now env (tm_sleep env d w)" for d w
    using assms(2) add_leD1 unfolding tm_clock_laws_def by blast
  with execute_time [OF assms(1) _ _ assms(4)] assms(3) show ?thesis by (simp add: rpc_def)
qed

lemma status_time:
  assumes "unat (max_retries pc) < 2 ^ 32 - 1" and "tm_clock_laws env"
    and "check_confirmation env pc sig s = Some (r, s')"
  shows "tm_now env (snd s) \<le> tm_now env (snd s')"
proof -
  obtain r0 where "get_signature_status env pc sig s = Some (r0, s')"
    using assms(3) by (auto simp: check_confirmation_def split: option.splits sum.splits prod.splits)
  moreover have "tm_now env w \<le> tm_now env (snd (case call_statuses env sig e w of
         (Inl err, w') \<Rightarrow> (Inl err, w') | (Inr [], w') \<Rightarrow> (Inr None, w') | (Inr (st # _), w') \<Rightarrow> (Inr st, w')))" for e w
  proof -
    have "tm_now env w \<le> tm_now env (snd (call_statuses env sig e w))" using assms(2) by (simp add: tm_clock_laws_def)
    then show ?thesis by (auto split: prod.splits sum.splits list.splits)
  qed
  ultimately show ?thesis
    unfolding get_signature_status_def by (intro rpc_time [OF assms(1,2)])
qed

lemma check_returns:
  assumes "unat (max_retries pc) < 2 ^ 32 - 1"
  shows "\<exists>r s'. check_confirmation env pc sig s = Some (r, s')"
proof -
  obtain r s' where "get_signature_status env pc sig s = Some (r, s')"
    unfolding get_signature_status_def using execute_returns [OF assms] by blast
  then show ?thesis by (cases r) (simp_all add: check_confirmation_def)
qed

lemma wait_loop_returns:
  assumes m: "unat (max_retries pc) < 2 ^ 32 - 1" and c: "tm_clock_laws env"
  shows "\<exists>r. wait_loop env pc sig start limit s = Some r"
proof (induction "Suc (start + limit) - tm_now env (snd s)" arbitrary: s rule: less_induct)
  case less
  show ?case
  proof (cases "limit < elapsed (tm_now env (snd s)) start")
    case True
    then show ?thesis by (subst wait_loop.simps) simp
  next
    case False
    obtain r s' where r: "check_confirmation env pc sig s = Some (r, s')" using check_returns [OF m, of env sig s] by blast
    let ?s = "(fst s', tm_sleep env (from_millis 500) (snd s'))"
    have "tm_now env (snd s) + from_millis 500 \<le> tm_now env (snd ?s)"
      using status_time [OF m c r] c by (simp add: tm_clock_laws_def) (meson add_le_mono1 order_trans)
    then have "Suc (start + limit) - tm_now env (snd ?s) < Suc (start + limit) - tm_now env (snd s)"
      using False by (simp add: from_millis_def elapsed_def)
    from less [OF this] False r show ?thesis
      by (subst wait_loop.simps) (auto split: sum.splits option.splits)
  qed
qed

lemma preflight_returns:
  "unat (max_retries pc) < 2 ^ 32 - 1 \<Longrightarrow> \<exists>r s'. preflight env pc tc s = Some (r, s')"
  using execute_returns [of pc "rpc env (call_simulate env)" s]
  by (auto simp: preflight_def simulate_def provider_simulate_transaction_def Let_def split: sum.splits option.splits)

lemma try_send_returns:
  assumes "unat (max_retries pc) < 2 ^ 32 - 1"
  shows "\<exists>r s'. try_send_transaction env pc tc s = Some (r, s')"
proof -
  obtain r s1 where "preflight env pc tc s = Some (r, s1)" using preflight_returns [OF assms] by blast
  with execute_returns [OF assms, of "rpc env (call_send env)" s1] show ?thesis
    by (cases r) (auto simp: try_send_transaction_def provider_send_transaction_def)
qed

lemma send_attempts_returns:
  assumes "unat (max_retries pc) < 2 ^ 32 - 1"
  shows "\<exists>r s'. send_attempts env pc tc as last_error s = Some (r, s')"
proof (induction as arbitrary: last_error s)
  case (Cons a as)
  obtain st w where s: "s = (st, w)" by fastforce
  let ?w = "if 0 < a then tm_sleep env (from_millis (unat (retry_delay tc a))) w else w"
  obtain r s' where t: "try_send_transaction env pc tc (st, ?w) = Some (r, s')"
    using try_send_returns [OF assms] by blast
  with Cons.IH s show ?case by (cases r) (simp_all add: Let_def)
qed (cases s, simp)

section \<open>Sending is a bounded retry loop\<close>

definition tm_attempt ::
    "('w, 'sig) tm_env \<Rightarrow> rpc_config \<Rightarrow> transaction_config \<Rightarrow> nat \<Rightarrow> rpc_state \<times> 'w
     \<Rightarrow> (rpc_error, 'sig) verdict \<times> (rpc_state \<times> 'w)" where
  "tm_attempt env pc tc attempt s =
     (let w = (if 0 < attempt then tm_sleep env (from_millis (unat (retry_delay tc attempt))) (snd s) else snd s)
      in case the (try_send_transaction env pc tc (fst s, w)) of
           (Inr sig, s') \<Rightarrow> (Done sig, s')
         | (Inl e, s') \<Rightarrow> (Again e, s'))"

lemma send_attempts_last_error:
  "as \<noteq> [] \<Longrightarrow> send_attempts env pc tc as le s = send_attempts env pc tc as le' s"
  by (cases as; cases s) simp_all

lemma tm_retry_loop:
  fixes env :: "('w, 'sig) tm_env"
  assumes m: "unat (max_retries pc) < 2 ^ 32 - 1"
  shows "retry_loop (tm_attempt env pc tc)
    (\<lambda>n s. the (send_attempts env pc tc [n..<Suc (unat (tm_max_retries tc))] None s)) (unat (tm_max_retries tc))"
proof
  fix n and s :: "rpc_state \<times> 'w"
  let ?m = "unat (tm_max_retries tc)"
  assume n: "n \<le> ?m"
  let ?w = "if 0 < n then tm_sleep env (from_millis (unat (retry_delay tc n))) (snd s) else snd s"
  obtain r s' where t: "try_send_transaction env pc tc (fst s, ?w) = Some (r, s')"
    using try_send_returns [OF m] by blast
  have list: "[n..<Suc ?m] = n # [Suc n..<Suc ?m]" using n by (simp add: upt_conv_Cons del: upt_Suc)
  have body: "tm_attempt env pc tc n s = (case r of Inr sig \<Rightarrow> (Done sig, s') | Inl e \<Rightarrow> (Again e, s'))"
    using t by (cases r) (simp_all add: tm_attempt_def)
  have loop: "send_attempts env pc tc [n..<Suc ?m] None s =
      (case r of Inr sig \<Rightarrow> Some (Inr sig, s') | Inl e \<Rightarrow> send_attempts env pc tc [Suc n..<Suc ?m] (Some e) s')"
    unfolding list using t by (cases s; cases r; cases "0 < n") (simp_all add: Let_def del: upt_Suc)
  have rest: "send_attempts env pc tc [Suc n..<Suc ?m] (Some e) s' =
      (if n < ?m then send_attempts env pc tc [Suc n..<Suc ?m] None s' else Some (Inl e, s'))" for e
    using send_attempts_last_error [of "[Suc n..<Suc ?m]" env pc tc "Some e" s' None] n by (cases s') auto
  show "the (send_attempts env pc tc [n..<Suc ?m] None s) =
    (case tm_attempt env pc tc n s of
       (Done a, s') \<Rightarrow> (Inr a, s') | (Fatal e, s') \<Rightarrow> (Inl e, s')
     | (Again e, s') \<Rightarrow> if n < ?m then the (send_attempts env pc tc [Suc n..<Suc ?m] None s') else (Inl e, s'))"
    unfolding body loop rest by (cases r) simp_all
qed

interpretation default_tm: retry_loop
  "tm_attempt env (default_config vars) default_transaction_config"
  "\<lambda>n s. the (send_attempts env (default_config vars) default_transaction_config
      [n..<Suc (unat (tm_max_retries default_transaction_config))] None s)"
  "unat (tm_max_retries default_transaction_config)"
  by (rule tm_retry_loop) simp

definition send_verdicts ::
    "('w, 'sig) tm_env \<Rightarrow> rpc_config \<Rightarrow> transaction_config \<Rightarrow> rpc_state \<times> 'w \<Rightarrow> (rpc_error, 'sig) verdict list" where
  "send_verdicts env pc tc s = retry_loop.trace (tm_attempt env pc tc) (Suc (unat (tm_max_retries tc))) 0 s"

text \<open>Sending a transaction returns after at least one and at most \<^verbatim>\<open>max_retries + 1\<close> attempts, each of
  them a preflight simulation followed by a send through the provider: every attempt but the last
  failed, and the result is the signature or the error of the last attempt.\<close>

theorem tm_send_transaction_result:
  assumes "unat (max_retries pc) < 2 ^ 32 - 1"
  shows "\<exists>r s'. send_transaction env pc tc s = Some (r, s')
    \<and> 1 \<le> length (send_verdicts env pc tc s) \<and> length (send_verdicts env pc tc s) \<le> Suc (unat (tm_max_retries tc))
    \<and> (\<forall>v \<in> set (butlast (send_verdicts env pc tc s)). \<exists>e. v = Again e)
    \<and> r = (case last (send_verdicts env pc tc s) of Done a \<Rightarrow> Inr a | Fatal e \<Rightarrow> Inl e | Again e \<Rightarrow> Inl e)"
proof -
  note rl = tm_retry_loop [OF assms, of env tc]
  obtain r s' where r: "send_transaction env pc tc s = Some (r, s')"
    unfolding send_transaction_def using send_attempts_returns [OF assms] by blast
  then have "fst (r, s') = (case last (send_verdicts env pc tc s) of Done a \<Rightarrow> Inr a | Fatal e \<Rightarrow> Inl e | Again e \<Rightarrow> Inl e)"
    unfolding send_verdicts_def using retry_loop.loop_last [OF rl, of 0 s]
    by (simp add: send_transaction_def del: upt_Suc)
  moreover have "send_verdicts env pc tc s \<noteq> []"
    unfolding send_verdicts_def by (rule retry_loop.trace_not_Nil [OF rl]) simp
  moreover have "length (send_verdicts env pc tc s) \<le> Suc (unat (tm_max_retries tc))"
    unfolding send_verdicts_def by (rule retry_loop.length_trace [OF rl])
  moreover have "\<forall>v \<in> set (butlast (send_verdicts env pc tc s)). \<exists>e. v = Again e"
    unfolding send_verdicts_def using retry_loop.trace_retries [OF rl] by blast
  ultimately show ?thesis using r by (auto simp: Suc_le_eq)
qed

text \<open>An environment that accepts every transaction at once.\<close>

definition happy_env :: "(nat, nat) tm_env" where
  "happy_env = \<lparr>tm_now = (\<lambda>w. w), tm_sleep = (\<lambda>d w. w + d),
     call_simulate = (\<lambda>e w. (Inr \<lparr>rs_err = None, rs_logs = None, rs_units_consumed = None\<rparr>, w + 1)),
     call_send = (\<lambda>e w. (Inr 7, w + 1)),
     call_statuses = (\<lambda>sig e w. (Inr [Some \<lparr>ss_slot = 42, ss_err = None\<rparr>], w + 1))\<rparr>"

abbreviation start_rpc :: "rpc_state \<times> nat" where
  "start_rpc \<equiv> (\<lparr>rp_health = new_checker, current_endpoint_idx = 0\<rparr>, 0)"

theorem tm_send_transaction_result_witness:
  "\<exists>r s'. send_transaction happy_env (localhost (\<lambda>_. None)) default_transaction_config start_rpc = Some (r, s')
     \<and> length (send_verdicts happy_env (localhost (\<lambda>_. None)) default_transaction_config start_rpc) \<le> 4"
proof -
  have m: "unat (max_retries (localhost (\<lambda>_. None))) < 2 ^ 32 - 1" by (simp add: localhost_def)
  have "Suc (unat (tm_max_retries default_transaction_config)) = 4" by (simp add: default_transaction_config_def)
  with tm_send_transaction_result [OF m, of happy_env default_transaction_config start_rpc] show ?thesis by metis
qed

section \<open>A reported confirmation is genuine\<close>

text \<open>What the client has to have answered at some point.\<close>

definition replied :: "('w, 'a) rpc_env \<Rightarrow> 'a \<Rightarrow> bool" where
  "replied env a \<longleftrightarrow> (\<exists>e w w'. env_call env e w = (Inr a, w'))"

definition sent :: "('w, 'sig) tm_env \<Rightarrow> 'sig \<Rightarrow> bool" where
  "sent env sig \<longleftrightarrow> (\<exists>e w w'. call_send env e w = (Inr sig, w'))"

definition simulated_ok :: "('w, 'sig) tm_env \<Rightarrow> bool" where
  "simulated_ok env \<longleftrightarrow> (\<exists>e w w' r. call_simulate env e w = (Inr r, w') \<and> rs_err r = None)"

definition status_ok :: "('w, 'sig) tm_env \<Rightarrow> 'sig \<Rightarrow> u64 \<Rightarrow> bool" where
  "status_ok env sig n \<longleftrightarrow> (\<exists>e w w' st rest. call_statuses env sig e w = (Inr (Some st # rest), w')
     \<and> ss_err st = None \<and> ss_slot st = n)"

lemma attempt_replied: "execute_attempt env pc n s = (Done x, s1) \<Longrightarrow> replied env x"
  unfolding replied_def
  by (auto simp: execute_attempt_def Let_def split: prod.splits sum.splits if_splits)

lemma execute_ok:
  assumes "execute_with_retry env pc s = Some (Inr a, s')"
  shows "replied env a"
proof -
  have "fst r = Inr a \<longrightarrow> replied env a" if "execute_loop env pc n le s = Some r" for n le s r
  proof (rule execute_loop.raw_induct [where P = "\<lambda>env pc n le s r. fst r = Inr a \<longrightarrow> replied env a", OF _ that],
      goal_cases)
    case prems: (1 f env pc n le s r)
    then show ?case by (auto split: if_splits prod.splits verdict.splits dest: attempt_replied)
  qed
  with assms show ?thesis unfolding execute_with_retry_def by fastforce
qed

lemma preflight_ok:
  assumes "preflight env pc tc s = Some (Inr u, s')" and "simulate_before_send tc"
  shows "simulated_ok env"
proof -
  obtain r s1 where "provider_simulate_transaction env pc s = Some (Inr r, s1)" "rs_err r = None"
    using assms by (auto simp: preflight_def simulate_def Let_def split: option.splits sum.splits prod.splits if_splits)
  with execute_ok [of "rpc env (call_simulate env)" pc s r s1] show ?thesis
    unfolding provider_simulate_transaction_def rpc_def replied_def simulated_ok_def by auto
qed

lemma try_send_ok:
  assumes "try_send_transaction env pc tc s = Some (Inr sig, s')"
  shows "sent env sig"
proof -
  obtain s1 where "provider_send_transaction env pc s1 = Some (Inr sig, s')"
    using assms by (auto simp: try_send_transaction_def split: option.splits sum.splits prod.splits)
  with execute_ok [of "rpc env (call_send env)" pc s1 sig s'] show ?thesis
    unfolding provider_send_transaction_def rpc_def replied_def sent_def by auto
qed

lemma send_attempts_ok: "send_attempts env pc tc as le s = Some (Inr sig, s') \<Longrightarrow> sent env sig"
proof (induction as arbitrary: le s)
  case (Cons a as)
  obtain st w where "s = (st, w)" by fastforce
  with Cons show ?case by (auto simp: Let_def split: option.splits sum.splits prod.splits dest: try_send_ok)
qed (cases s, simp)

lemma check_confirmation_ok:
  assumes "check_confirmation env pc sig s = Some (Inr (Some r), s')"
  shows "tr_signature r = sig \<and> status_ok env sig (tr_slot r)"
proof -
  obtain st where g: "get_signature_status env pc sig s = Some (Inr (Some st), s')"
    and st: "ss_err st = None" "tr_slot r = ss_slot st" "tr_signature r = sig"
    using assms by (auto simp: check_confirmation_def map_signature_status_def split: option.splits sum.splits prod.splits)
  from execute_ok [OF g [unfolded get_signature_status_def]]
  obtain e w w' where c: "(case call_statuses env sig e w of (Inl err, w') \<Rightarrow> (Inl err, w')
      | (Inr [], w') \<Rightarrow> (Inr None, w') | (Inr (st # _), w') \<Rightarrow> (Inr st, w')) = (Inr (Some st), w')"
    unfolding replied_def rpc_def by auto
  obtain y w1 where y: "call_statuses env sig e w = (y, w1)" by fastforce
  from c y obtain rest where "call_statuses env sig e w = (Inr (Some st # rest), w1)"
    by (auto split: sum.splits list.splits)
  with st show ?thesis unfolding status_ok_def by metis
qed

lemma wait_loop_ok:
  assumes "wait_loop env pc sig start limit s = Some (Inr r, s')"
  shows "tr_signature r = sig \<and> status_ok env sig (tr_slot r)"
proof -
  have "fst x = Inr r \<longrightarrow> tr_signature r = sig \<and> status_ok env sig (tr_slot r)"
    if "wait_loop env pc sig start limit s = Some x" for s x
  proof (rule wait_loop.raw_induct [where P = "\<lambda>env pc sig start limit s x. fst x = Inr r \<longrightarrow> tr_signature r = sig
        \<and> status_ok env sig (tr_slot r)", OF _ that], goal_cases)
    case prems: (1 f env pc sig start limit s x)
    then show ?case
      by (auto split: if_splits option.splits sum.splits prod.splits dest!: check_confirmation_ok)
  qed
  with assms show ?thesis by fastforce
qed

text \<open>C7. Sending and confirming a transaction always returns, given a clock that does not run backwards
  and sleeps that last; and when it reports success, the signature was returned by a send call of
  an endpoint, a status reply for that signature carried no error and has the reported slot, and
  if the manager is configured to simulate first, a simulation without error took place.\<close>

theorem tm_send_and_confirm:
  assumes "unat (max_retries pc) < 2 ^ 32 - 1" and "tm_clock_laws env"
  shows "\<exists>r s'. send_and_confirm env pc tc s = Some (r, s')
    \<and> (case r of
         Inl e \<Rightarrow> True
       | Inr result \<Rightarrow> sent env (tr_signature result) \<and> status_ok env (tr_signature result) (tr_slot result)
           \<and> (simulate_before_send tc \<longrightarrow> simulated_ok env))"
proof -
  obtain p s1 where p: "preflight env pc tc s = Some (p, s1)" using preflight_returns [OF assms(1)] by blast
  obtain q s2 where q: "send_transaction env pc tc s1 = Some (q, s2)"
    unfolding send_transaction_def using send_attempts_returns [OF assms(1)] by blast
  show ?thesis
  proof (cases "\<exists>v sig. p = Inr v \<and> q = Inr sig")
    case True
    then obtain v sig where v: "p = Inr v" "q = Inr sig" by blast
    obtain r s3 where r: "wait_for_confirmation env pc tc sig s2 = Some (r, s3)"
      unfolding wait_for_confirmation_def using wait_loop_returns [OF assms] by fastforce
    have eq: "send_and_confirm env pc tc s = Some (r, s3)" using p q r v by (simp add: send_and_confirm_def)
    have "sent env sig" using q v(2) unfolding send_transaction_def by (auto intro: send_attempts_ok)
    with eq r v p show ?thesis
      unfolding wait_for_confirmation_def by (cases r) (auto dest: wait_loop_ok preflight_ok)
  next
    case False
    then obtain e s' where "send_and_confirm env pc tc s = Some (Inl e, s')"
      using p q by (cases p; cases q) (auto simp: send_and_confirm_def)
    then show ?thesis by simp
  qed
qed

theorem tm_send_and_confirm_witness:
  "\<exists>r s'. send_and_confirm happy_env (localhost (\<lambda>_. None)) default_transaction_config start_rpc = Some (r, s')"
proof -
  have m: "unat (max_retries (localhost (\<lambda>_. None))) < 2 ^ 32 - 1" by (simp add: localhost_def)
  have "tm_clock_laws happy_env" by (simp add: tm_clock_laws_def happy_env_def)
  from tm_send_and_confirm [OF m this, of default_transaction_config start_rpc] show ?thesis by blast
qed

end
