(* ===== verification/Cache_Types.thy ===== *)
theory Cache_Types
  imports Prelude
begin

text \<open>
  \<^verbatim>\<open>crates/data/src/cache/types.rs\<close>: cache entries, keys, the \<^verbatim>\<open>Cache\<close> trait and the caching
  wrapper. The trait is the locale \<open>cache_contract\<close>: what a client may rely on of every
  implementation, stated over an abstraction of the cache as a map from keys to data with an
  expiry time. Operations get the wall-clock second \<open>now\<close> they read.
\<close>

type_synonym bytes = "u8 list"

record cache_entry =
  data :: bytes
  expires_at :: u64

definition new_entry :: "u64 \<Rightarrow> bytes \<Rightarrow> u64 \<Rightarrow> cache_entry" where
  "new_entry now d ttl_secs = \<lparr>data = d, expires_at = now + ttl_secs\<rparr>"

definition is_expired :: "u64 \<Rightarrow> cache_entry \<Rightarrow> bool" where
  "is_expired now e \<longleftrightarrow> expires_at e \<le> now"

definition build_key :: "string list \<Rightarrow> string" where
  "build_key parts = join '':'' parts"

text \<open>\<^verbatim>\<open>CachedProvider::get_or_fetch\<close> over any cache with operations \<open>get\<close> and \<open>put\<close>;
  \<open>from_slice\<close> and \<open>to_vec\<close> are the JSON conversions of the value type, \<open>fetch\<close> the call to the
  wrapped provider. The first component of the result tells whether the provider was called.\<close>

definition get_or_fetch ::
    "(u64 \<Rightarrow> string \<Rightarrow> 'c \<Rightarrow> bytes option) \<Rightarrow> (u64 \<Rightarrow> string \<Rightarrow> bytes \<Rightarrow> u64 \<Rightarrow> 'c \<Rightarrow> 'c)
     \<Rightarrow> (bytes \<Rightarrow> 't option) \<Rightarrow> ('t \<Rightarrow> bytes option)
     \<Rightarrow> u64 \<Rightarrow> string \<Rightarrow> ('e + 't) \<Rightarrow> u64 \<Rightarrow> 'c \<Rightarrow> bool \<times> ('e + 't) \<times> 'c" where
  "get_or_fetch get put from_slice to_vec now key fetch default_ttl c =
     (case Option.bind (get now key c) from_slice of
        Some value \<Rightarrow> (False, Inr value, c)
      | None \<Rightarrow>
          (case fetch of
             Inl e \<Rightarrow> (True, Inl e, c)
           | Inr value \<Rightarrow>
               (case to_vec value of
                  Some d \<Rightarrow> (True, Inr value, put now key d default_ttl c)
                | None \<Rightarrow> (True, Inr value, c))))"

section \<open>The contract of a cache\<close>

locale cache_contract =
  fixes get :: "u64 \<Rightarrow> string \<Rightarrow> 'c \<Rightarrow> bytes option"
    and put :: "u64 \<Rightarrow> string \<Rightarrow> bytes \<Rightarrow> u64 \<Rightarrow> 'c \<Rightarrow> 'c"
    and remove :: "string \<Rightarrow> 'c \<Rightarrow> 'c"
    and clear :: "'c \<Rightarrow> 'c"
    and abs :: "'c \<Rightarrow> string \<Rightarrow> (bytes \<times> u64) option"
    and inv :: "'c \<Rightarrow> bool"
  assumes get_abs: "inv c \<Longrightarrow> get now k c =
        (case abs c k of None \<Rightarrow> None | Some (d, e) \<Rightarrow> if now < e then Some d else None)"
    and set_same: "inv c \<Longrightarrow> abs (put now k d ttl c) k = Some (d, now + ttl)"
    and set_other: "inv c \<Longrightarrow> k' \<noteq> k \<Longrightarrow> abs (put now k d ttl c) k' \<in> {abs c k', None}"
    and remove_same: "inv c \<Longrightarrow> abs (remove k c) k = None"
    and remove_other: "inv c \<Longrightarrow> k' \<noteq> k \<Longrightarrow> abs (remove k c) k' = abs c k'"
    and clear_abs: "inv c \<Longrightarrow> abs (clear c) k = None"
    and inv_set: "inv c \<Longrightarrow> inv (put now k d ttl c)"
    and inv_remove: "inv c \<Longrightarrow> inv (remove k c)"
    and inv_clear: "inv c \<Longrightarrow> inv (clear c)"
begin

lemma get_after_set:
  assumes "inv c" and "unat now + unat ttl < 2 ^ 64" and "now \<le> now'" and "unat now' < unat now + unat ttl"
  shows "get now' k (put now k d ttl c) = Some d"
proof -
  have "unat (now + ttl) = unat now + unat ttl"
    using assms(2) by (intro unat_add_lt) simp
  with assms(4) have "now' < now + ttl" by (simp add: word_less_nat_alt)
  with assms(1) show ?thesis by (simp add: get_abs inv_set set_same)
qed

lemma get_expired: "inv c \<Longrightarrow> now + ttl \<le> now' \<Longrightarrow> get now' k (put now k d ttl c) = None"
  by (simp add: get_abs inv_set set_same not_less)

lemma get_after_remove: "inv c \<Longrightarrow> get now k (remove k c) = None"
  by (simp add: get_abs inv_remove remove_same)

lemma get_after_clear: "inv c \<Longrightarrow> get now k (clear c) = None"
  by (simp add: get_abs inv_clear clear_abs)

text \<open>A stored value is never replaced by another one behind the client's back: after storing
  under one key, any other key reads as before or as absent.\<close>

lemma get_other_set: "inv c \<Longrightarrow> k' \<noteq> k \<Longrightarrow> get now' k' (put now k d ttl c) \<in> {get now' k' c, None}"
  using set_other [of c k' k now d ttl] by (auto simp: get_abs inv_set)

lemma fetch_then_hit:
  assumes "inv c" and "unat now + unat ttl < 2 ^ 64" and "now \<le> now'" and "unat now' < unat now + unat ttl"
    and "to_vec v = Some d" and "from_slice d = Some v"
    and "get_or_fetch get put from_slice to_vec now key (Inr v) ttl c = (True, r, c')"
  shows "r = Inr v \<and> get_or_fetch get put from_slice to_vec now' key fetch' ttl' c' = (False, Inr v, c')"
  using assms get_after_set [OF assms(1-4), of key d]
  by (auto simp: get_or_fetch_def split: option.splits)

lemma fetch_error_keeps_cache:
  "get_or_fetch get put from_slice to_vec now key (Inl e) ttl c = (called, r, c') \<Longrightarrow> c' = c"
  by (auto simp: get_or_fetch_def split: option.splits)

end

section \<open>Caches that lose nothing\<close>

text \<open>The calls of a client, with the caching wrapper among them, and their replies. \<open>serve\<close>
  performs one call on any cache, \<open>replies\<close> a sequence of calls.\<close>

datatype ('e, 't) cache_call =
    Read u64 string
  | Store u64 string bytes u64
  | Remove string
  | Clear
  | Fetch u64 string "'e + 't" u64

datatype ('e, 't) cache_reply = Value "bytes option" | Done | Fetched bool "'e + 't"

fun serve ::
    "(u64 \<Rightarrow> string \<Rightarrow> 'c \<Rightarrow> bytes option) \<Rightarrow> (u64 \<Rightarrow> string \<Rightarrow> bytes \<Rightarrow> u64 \<Rightarrow> 'c \<Rightarrow> 'c)
     \<Rightarrow> (string \<Rightarrow> 'c \<Rightarrow> 'c) \<Rightarrow> ('c \<Rightarrow> 'c) \<Rightarrow> (bytes \<Rightarrow> 't option) \<Rightarrow> ('t \<Rightarrow> bytes option)
     \<Rightarrow> ('e, 't) cache_call \<Rightarrow> 'c \<Rightarrow> ('e, 't) cache_reply \<times> 'c" where
  "serve get put remove clear from_slice to_vec (Read now k) c = (Value (get now k c), c)"
| "serve get put remove clear from_slice to_vec (Store now k d ttl) c = (Done, put now k d ttl c)"
| "serve get put remove clear from_slice to_vec (Remove k) c = (Done, remove k c)"
| "serve get put remove clear from_slice to_vec Clear c = (Done, clear c)"
| "serve get put remove clear from_slice to_vec (Fetch now k fetch ttl) c =
     (let (called, r, c') = get_or_fetch get put from_slice to_vec now k fetch ttl c
      in (Fetched called r, c'))"

fun replies ::
    "('call \<Rightarrow> 'c \<Rightarrow> 'reply \<times> 'c) \<Rightarrow> 'call list \<Rightarrow> 'c \<Rightarrow> 'reply list" where
  "replies sv [] c = []"
| "replies sv (q # qs) c = (let (r, c') = sv q c in r # replies sv qs c')"

text \<open>The specification: a map from keys to data with an expiry time.\<close>

type_synonym cache_map = "string \<Rightarrow> (bytes \<times> u64) option"

definition spec_get :: "u64 \<Rightarrow> string \<Rightarrow> cache_map \<Rightarrow> bytes option" where
  "spec_get now k m = (case m k of None \<Rightarrow> None | Some (d, e) \<Rightarrow> if now < e then Some d else None)"

definition spec_put :: "u64 \<Rightarrow> string \<Rightarrow> bytes \<Rightarrow> u64 \<Rightarrow> cache_map \<Rightarrow> cache_map" where
  "spec_put now k d ttl m = m(k \<mapsto> (d, now + ttl))"

definition spec_remove :: "string \<Rightarrow> cache_map \<Rightarrow> cache_map" where
  "spec_remove k m = m(k := None)"

definition spec_clear :: "cache_map \<Rightarrow> cache_map" where
  "spec_clear m = Map.empty"

locale exact_cache = cache_contract get put remove clear abs inv
  for get :: "u64 \<Rightarrow> string \<Rightarrow> 'c \<Rightarrow> bytes option"
    and put :: "u64 \<Rightarrow> string \<Rightarrow> bytes \<Rightarrow> u64 \<Rightarrow> 'c \<Rightarrow> 'c"
    and remove :: "string \<Rightarrow> 'c \<Rightarrow> 'c"
    and clear :: "'c \<Rightarrow> 'c"
    and abs :: "'c \<Rightarrow> string \<Rightarrow> (bytes \<times> u64) option"
    and inv :: "'c \<Rightarrow> bool" +
  assumes set_keeps: "inv c \<Longrightarrow> k' \<noteq> k \<Longrightarrow> abs (put now k d ttl c) k' = abs c k'"
begin

lemma get_refines: "inv c \<Longrightarrow> get now k c = spec_get now k (abs c)"
  by (simp add: get_abs spec_get_def)

lemma put_refines: "inv c \<Longrightarrow> abs (put now k d ttl c) = spec_put now k d ttl (abs c)"
  by (rule ext) (simp add: spec_put_def set_same set_keeps)

lemma remove_refines: "inv c \<Longrightarrow> abs (remove k c) = spec_remove k (abs c)"
  by (rule ext) (simp add: spec_remove_def remove_same remove_other)

lemma clear_refines: "inv c \<Longrightarrow> abs (clear c) = spec_clear (abs c)"
  by (rule ext) (simp add: spec_clear_def clear_abs)

lemmas refines = get_refines put_refines remove_refines clear_refines

lemma serve_refines:
  assumes "inv c" and "serve get put remove clear from_slice to_vec q c = (r, c')"
  shows "serve spec_get spec_put spec_remove spec_clear from_slice to_vec q (abs c) = (r, abs c') \<and> inv c'"
  using assms
  by (cases q)
     (auto simp: refines inv_set inv_remove inv_clear get_or_fetch_def
        split: option.splits sum.splits)

lemma replies_refine:
  "inv c \<Longrightarrow> replies (serve get put remove clear from_slice to_vec) qs c =
     replies (serve spec_get spec_put spec_remove spec_clear from_slice to_vec) qs (abs c)"
proof (induction qs arbitrary: c)
  case (Cons q qs)
  obtain r c' where q: "serve get put remove clear from_slice to_vec q c = (r, c')" by fastforce
  with serve_refines [OF Cons.prems q] Cons.IH [of c'] show ?case by simp
qed simp

end

end
