(* ===== verification/Memory_Cache.thy ===== *)
theory Memory_Cache
  imports Cache_Types Interfaces
begin

text \<open>
  \<^verbatim>\<open>crates/data/src/cache/memory.rs\<close>: the in-memory cache with a bound on the number of entries.
  The iteration order of the hash map decides which of several entries with the same expiry time
  is evicted; it is the parameter \<open>it\<close>.
\<close>

record memory_cache =
  entries :: "(string \<times> cache_entry) list"
  max_entries :: nat

definition new_cache :: memory_cache where
  "new_cache = \<lparr>entries = [], max_entries = 0\<rparr>"

definition with_max_entries :: "nat \<Rightarrow> memory_cache" where
  "with_max_entries n = \<lparr>entries = [], max_entries = n\<rparr>"

definition cleanup_expired :: "u64 \<Rightarrow> memory_cache \<Rightarrow> memory_cache" where
  "cleanup_expired now c = c\<lparr>entries := hm_retain (\<lambda>_ e. \<not> is_expired now e) (entries c)\<rparr>"

record cache_stats =
  total_entries :: nat
  expired_entries :: nat
  active_entries :: nat

definition stats :: "u64 \<Rightarrow> memory_cache \<Rightarrow> cache_stats" where
  "stats now c =
     (let total = length (entries c);
          expired = length (filter (\<lambda>(_, e). is_expired now e) (entries c))
      in \<lparr>total_entries = total, expired_entries = expired, active_entries = total - expired\<rparr>)"

text \<open>\<^verbatim>\<open>min_by_key\<close> over the entries' expiry times: the first minimum in iteration order.\<close>

fun min_by_expiry :: "(string \<times> cache_entry) list \<Rightarrow> (string \<times> cache_entry) option" where
  "min_by_expiry [] = None"
| "min_by_expiry (x # xs) =
     (case min_by_expiry xs of
        None \<Rightarrow> Some x
      | Some y \<Rightarrow> if expires_at (snd y) < expires_at (snd x) then Some y else Some x)"

definition mc_get :: "u64 \<Rightarrow> string \<Rightarrow> memory_cache \<Rightarrow> bytes option" where
  "mc_get now key c =
     (case map_of (entries c) key of
        None \<Rightarrow> None
      | Some e \<Rightarrow> if is_expired now e then None else Some (data e))"

text \<open>The eviction step of \<^verbatim>\<open>set\<close>.\<close>

definition evict ::
    "((string \<times> cache_entry) list \<Rightarrow> (string \<times> cache_entry) list) \<Rightarrow> u64 \<Rightarrow> nat
     \<Rightarrow> (string \<times> cache_entry) list \<Rightarrow> (string \<times> cache_entry) list" where
  "evict it now cap es =
     (if 0 < cap \<and> cap \<le> length es then
        let es = hm_retain (\<lambda>_ e. \<not> is_expired now e) es in
        if cap \<le> length es then
          (case min_by_expiry (it es) of None \<Rightarrow> es | Some (oldest_key, _) \<Rightarrow> AList.delete oldest_key es)
        else es
      else es)"

definition mc_set ::
    "((string \<times> cache_entry) list \<Rightarrow> (string \<times> cache_entry) list)
     \<Rightarrow> u64 \<Rightarrow> string \<Rightarrow> bytes \<Rightarrow> u64 \<Rightarrow> memory_cache \<Rightarrow> memory_cache" where
  "mc_set it now key value ttl c =
     c\<lparr>entries := AList.update key (new_entry now value ttl) (evict it now (max_entries c) (entries c))\<rparr>"

definition mc_remove :: "string \<Rightarrow> memory_cache \<Rightarrow> memory_cache" where
  "mc_remove key c = c\<lparr>entries := AList.delete key (entries c)\<rparr>"

definition mc_clear :: "memory_cache \<Rightarrow> memory_cache" where
  "mc_clear c = c\<lparr>entries := []\<rparr>"

definition mc_len :: "memory_cache \<Rightarrow> nat" where
  "mc_len c = length (entries c)"

section \<open>Eviction\<close>

lemma min_by_expiry_None [simp]: "min_by_expiry xs = None \<longleftrightarrow> xs = []"
  by (cases xs) (auto split: option.splits)

lemma min_by_expiry_Some:
  "min_by_expiry xs = Some (k, e) \<Longrightarrow> (k, e) \<in> set xs \<and> (\<forall>x \<in> set xs. expires_at e \<le> expires_at (snd x))"
proof (induction xs arbitrary: k e)
  case (Cons x xs)
  then show ?case by (fastforce split: option.splits if_splits)
qed simp

definition live :: "u64 \<Rightarrow> (string \<times> cache_entry) list \<Rightarrow> (string \<times> cache_entry) list" where
  "live now es = hm_retain (\<lambda>_ e. \<not> is_expired now e) es"

text \<open>Eviction keeps distinct keys, never adds or changes an entry, and makes room.\<close>

lemma distinct_evict: "distinct (map fst es) \<Longrightarrow> distinct (map fst (evict it now m es))"
  by (auto simp: evict_def Let_def distinct_delete split: option.splits)

lemma evict_subset: "set (evict it now m es) \<subseteq> set es"
  by (auto simp: evict_def Let_def AList.delete_eq split: option.splits if_splits)

lemma map_of_subset:
  "distinct (map fst es) \<Longrightarrow> distinct (map fst fs) \<Longrightarrow> set fs \<subseteq> set es \<Longrightarrow> map_of fs k \<in> {map_of es k, None}"
  by (metis insert_iff map_of_SomeD map_of_is_SomeI not_None_eq subsetD)

lemma length_evict:
  assumes "hash_order it" and "distinct (map fst es)" and "0 < m" and "length es \<le> m"
  shows "length (evict it now m es) < m"
proof (cases "m \<le> length es")
  case True
  let ?l = "hm_retain (\<lambda>_ e. \<not> is_expired now e) es"
  have ll: "length ?l \<le> length es" by (rule length_hm_retain)
  show ?thesis
  proof (cases "m \<le> length ?l")
    case True2: True
    have dl: "distinct (map fst ?l)" using assms(2) by simp
    then have "length (it ?l) = length ?l" by (rule hash_order_length [OF assms(1)])
    with True2 assms(3) have "it ?l \<noteq> []" by auto
    then obtain k e where k: "min_by_expiry (it ?l) = Some (k, e)"
      by (metis min_by_expiry_None not_None_eq surj_pair)
    then have "(k, e) \<in> set ?l"
      using min_by_expiry_Some [OF k] hash_order_set [OF assms(1) dl] by blast
    then have "k \<in> fst ` set ?l" by force
    then have "Suc (length (AList.delete k ?l)) = length ?l"
      by (rule length_AList_delete [OF dl])
    with True True2 k assms ll show ?thesis by (auto simp: evict_def)
  qed (use True assms in \<open>simp add: evict_def\<close>)
qed (use assms in \<open>simp add: evict_def\<close>)

section \<open>Invariant and contract\<close>

definition mc_inv :: "memory_cache \<Rightarrow> bool" where
  "mc_inv c \<longleftrightarrow> distinct (map fst (entries c)) \<and> (0 < max_entries c \<longrightarrow> mc_len c \<le> max_entries c)"

definition mc_abs :: "memory_cache \<Rightarrow> string \<Rightarrow> (bytes \<times> u64) option" where
  "mc_abs c k = map_option (\<lambda>e. (data e, expires_at e)) (map_of (entries c) k)"

lemma length_update_le: "length (AList.update k v m) \<le> Suc (length m)"
  by (simp add: length_AList_update)

lemma mc_inv_set:
  assumes "hash_order it" and "mc_inv c"
  shows "mc_inv (mc_set it now k v ttl c)"
proof -
  let ?es = "evict it now (max_entries c) (entries c)"
  have d: "distinct (map fst (entries c))" using assms(2) by (simp add: mc_inv_def)
  have "length ?es < max_entries c" if "0 < max_entries c"
    using assms(2) that by (intro length_evict [OF assms(1) d that]) (simp add: mc_inv_def mc_len_def)
  moreover have "length (AList.update k (new_entry now v ttl) ?es) \<le> Suc (length ?es)"
    by (rule length_update_le)
  ultimately show ?thesis
    using distinct_evict [OF d] by (auto simp: mc_inv_def mc_set_def mc_len_def distinct_update)
qed

lemma length_delete_le: "length (AList.delete k m) \<le> length m"
  by (simp add: AList.delete_eq)

lemma mc_inv_remove: "mc_inv c \<Longrightarrow> mc_inv (mc_remove k c)"
  using length_delete_le [of k "entries c"]
  by (auto simp: mc_inv_def mc_remove_def mc_len_def distinct_delete)

lemma mc_inv_clear: "mc_inv (mc_clear c)"
  by (simp add: mc_inv_def mc_clear_def mc_len_def)

lemma mc_inv_cleanup: "mc_inv c \<Longrightarrow> mc_inv (cleanup_expired now c)"
  using length_hm_retain [of "\<lambda>_ e. \<not> is_expired now e" "entries c"]
  by (auto simp: mc_inv_def cleanup_expired_def mc_len_def)

lemma mc_abs_remove: "mc_abs (mc_remove k c) k' = (if k' = k then None else mc_abs c k')"
  by (simp add: mc_abs_def mc_remove_def delete_conv')

lemma mc_abs_clear: "mc_abs (mc_clear c) k = None"
  by (simp add: mc_abs_def mc_clear_def)

lemma mc_contract:
  assumes "hash_order it"
  shows "cache_contract mc_get (mc_set it) mc_remove mc_clear mc_abs mc_inv"
proof
  fix c now k
  show "mc_get now k c = (case mc_abs c k of None \<Rightarrow> None | Some (d, e) \<Rightarrow> if now < e then Some d else None)"
    by (auto simp: mc_get_def mc_abs_def is_expired_def not_le split: option.splits)
next
  fix c now k d ttl
  show "mc_abs (mc_set it now k d ttl c) k = Some (d, now + ttl)"
    by (simp add: mc_abs_def mc_set_def update_conv' new_entry_def)
next
  fix c :: memory_cache and now d ttl and k k' :: string
  assume inv: "mc_inv c" and k: "k' \<noteq> k"
  have "map_of (evict it now (max_entries c) (entries c)) k' \<in> {map_of (entries c) k', None}"
    using inv by (intro map_of_subset distinct_evict evict_subset) (simp_all add: mc_inv_def)
  with k show "mc_abs (mc_set it now k d ttl c) k' \<in> {mc_abs c k', None}"
    by (auto simp: mc_abs_def mc_set_def update_conv')
qed (use assms in \<open>simp_all add: mc_inv_set mc_inv_remove mc_inv_clear mc_abs_remove mc_abs_clear\<close>)

interpretation mc: cache_contract mc_get "mc_set (\<lambda>m. m)" mc_remove mc_clear mc_abs mc_inv
  by (rule mc_contract) simp

text \<open>Without a bound nothing is evicted.\<close>

definition mc_unbounded :: "memory_cache \<Rightarrow> bool" where
  "mc_unbounded c \<longleftrightarrow> mc_inv c \<and> max_entries c = 0"

lemma max_entries_ops [simp]:
  "max_entries (mc_set it now k d ttl c) = max_entries c"
  "max_entries (mc_remove k c) = max_entries c"
  "max_entries (mc_clear c) = max_entries c"
  "max_entries (cleanup_expired now c) = max_entries c"
  by (simp_all add: mc_set_def mc_remove_def mc_clear_def cleanup_expired_def)

lemma mc_abs_set_unbounded:
  "max_entries c = 0 \<Longrightarrow> mc_abs (mc_set it now k d ttl c) = (mc_abs c)(k \<mapsto> (d, now + ttl))"
  by (rule ext) (simp add: mc_abs_def mc_set_def evict_def update_conv' new_entry_def)

lemma mc_exact:
  assumes "hash_order it"
  shows "exact_cache mc_get (mc_set it) mc_remove mc_clear mc_abs mc_unbounded"
proof -
  note con = mc_contract [OF assms]
  show ?thesis
    by unfold_locales
       (auto simp: mc_unbounded_def cache_contract.get_abs [OF con] mc_abs_set_unbounded
          mc_inv_set [OF assms] mc_inv_remove mc_inv_clear mc_abs_remove mc_abs_clear)
qed

interpretation mc_exact: exact_cache mc_get "mc_set (\<lambda>m. m)" mc_remove mc_clear mc_abs mc_unbounded
  by (rule mc_exact) simp

section \<open>Any sequence of operations\<close>

datatype mc_op = McSet u64 string bytes u64 | McRemove string | McClear | McCleanup u64

fun mc_step ::
    "((string \<times> cache_entry) list \<Rightarrow> (string \<times> cache_entry) list) \<Rightarrow> memory_cache \<Rightarrow> mc_op \<Rightarrow> memory_cache" where
  "mc_step it c (McSet now k v ttl) = mc_set it now k v ttl c"
| "mc_step it c (McRemove k) = mc_remove k c"
| "mc_step it c McClear = mc_clear c"
| "mc_step it c (McCleanup now) = cleanup_expired now c"

lemma mc_guarded: "hash_order it \<Longrightarrow> guarded_system (mc_step it) mc_inv"
proof
  fix c op
  assume "hash_order it" and "mc_inv c"
  then show "mc_inv (mc_step it c op)"
    by (cases op) (simp_all add: mc_inv_set mc_inv_remove mc_inv_clear mc_inv_cleanup)
qed

interpretation mc_run: guarded_system "mc_step (\<lambda>m. m)" mc_inv
  by (rule mc_guarded) simp

lemma max_entries_step [simp]: "max_entries (mc_step it c op) = max_entries c"
  by (cases op) simp_all

lemma max_entries_run [simp]: "max_entries (foldl (mc_step it) c ops) = max_entries c"
  by (induction ops arbitrary: c) simp_all

text \<open>A bounded memory cache never holds more entries than its bound, and never two entries for
  one key, whatever sequence of stores, removals, clears and clean-ups it goes through and
  whatever iteration order the hash map has.\<close>

theorem mc_capacity:
  assumes "hash_order it" and "0 < n"
  shows "let c = foldl (mc_step it) (with_max_entries n) ops
         in mc_len c \<le> n \<and> distinct (map fst (entries c))"
proof -
  have "mc_inv (with_max_entries n)" by (simp add: mc_inv_def with_max_entries_def mc_len_def)
  then have "mc_inv (foldl (mc_step it) (with_max_entries n) ops)"
    by (rule guarded_system.run_inv [OF mc_guarded [OF assms(1)]])
  with assms(2) show ?thesis by (simp add: mc_inv_def Let_def) (simp add: with_max_entries_def)
qed

theorem mc_capacity_witness:
  "let c = foldl (mc_step (\<lambda>m. m)) (with_max_entries 1) [McSet 0 ''a'' [1] 10, McSet 0 ''b'' [2] 10]
   in mc_len c \<le> 1 \<and> distinct (map fst (entries c))"
  by (rule mc_capacity) simp_all

section \<open>Stored values are read back\<close>

text \<open>A value stored in the memory cache is returned for its key at every later time before its
  expiry (given that the expiry time does not overflow) and at no time from the expiry on; after a
  removal or a clear the key is absent.\<close>

theorem mc_read_back:
  assumes "hash_order it" and "mc_inv c" and "unat now + unat ttl < 2 ^ 64" and "now \<le> now'"
  shows "mc_get now' k (mc_set it now k v ttl c) = (if unat now' < unat now + unat ttl then Some v else None)
    \<and> mc_get now' k (mc_remove k (mc_set it now k v ttl c)) = None
    \<and> mc_get now' k (mc_clear c) = None"
proof -
  note con = mc_contract [OF assms(1)]
  have "now + ttl \<le> now'" if "\<not> unat now' < unat now + unat ttl"
    using that assms(3) by (simp add: word_le_nat_alt unat_add_lt)
  then show ?thesis
    using cache_contract.get_after_set [OF con assms(2-4)] cache_contract.get_expired [OF con assms(2)]
      cache_contract.get_after_remove [OF con] cache_contract.get_after_clear [OF con assms(2)]
      mc_inv_set [OF assms(1,2)] by auto
qed

theorem mc_read_back_witness:
  "mc_get 14 ''k'' (mc_set (\<lambda>m. m) 5 ''k'' [1, 2] 10 new_cache) = Some [1, 2]
   \<and> mc_get 15 ''k'' (mc_set (\<lambda>m. m) 5 ''k'' [1, 2] 10 new_cache) = None"
proof -
  have "mc_inv new_cache" by (simp add: mc_inv_def new_cache_def)
  then show ?thesis
    using mc_read_back [of "\<lambda>m. m" new_cache 5 10 14 "''k''" "[1, 2]"]
      mc_read_back [of "\<lambda>m. m" new_cache 5 10 15 "''k''" "[1, 2]"]
    by (simp add: word_le_nat_alt)
qed

section \<open>What a store may evict\<close>

lemma map_of_live:
  "distinct (map fst es) \<Longrightarrow>
   map_of (live now es) k = (case map_of es k of None \<Rightarrow> None | Some e \<Rightarrow> if is_expired now e then None else Some e)"
  by (simp add: live_def map_of_hm_retain split: option.splits)

lemma evict_loses:
  assumes "hash_order it" and d: "distinct (map fst es)" and "map_of es k = Some e" and "\<not> is_expired now e"
    and lost: "map_of (evict it now m es) k = None"
  shows "0 < m \<and> m \<le> length (live now es) \<and> (\<forall>x \<in> set (live now es). expires_at e \<le> expires_at (snd x))"
proof -
  let ?l = "live now es"
  have k: "map_of ?l k = Some e" using assms(2-4) by (simp add: map_of_live)
  have dl: "distinct (map fst ?l)" using d by (simp add: live_def)
  from lost assms(3) k have full: "0 < m" "m \<le> length ?l"
    by (auto simp: evict_def live_def Let_def split: if_splits)
  with length_hm_retain [of _ es] have len: "m \<le> length es"
    by (metis live_def order_trans)
  obtain k0 e0 where m0: "min_by_expiry (it ?l) = Some (k0, e0)"
    using full hash_order_length [OF assms(1) dl] by (metis le_zero_eq list.size(3) min_by_expiry_None
        not_None_eq not_gr_zero surj_pair)
  with lost full len have "map_of (AList.delete k0 ?l) k = None"
    by (simp add: evict_def live_def)
  with k have "k = k0" by (auto simp: delete_conv' split: if_splits)
  moreover have "(k0, e0) \<in> set ?l" and min: "\<forall>x \<in> set ?l. expires_at e0 \<le> expires_at (snd x)"
    using min_by_expiry_Some [OF m0] hash_order_set [OF assms(1) dl] by auto
  ultimately have "e0 = e" using k dl by (simp add: map_of_is_SomeI)
  with min full show ?thesis by simp
qed

text \<open>A store disturbs another key only when it must: if an unexpired entry of another key is no
  longer readable after a store, the cache was bounded and full of unexpired entries, and the
  lost entry was one that expires first among them.\<close>

theorem mc_set_evicts_first_to_expire:
  assumes "hash_order it" and "mc_inv c" and "k' \<noteq> k"
    and "mc_get now k' c = Some d" and "mc_get now k' (mc_set it now k v ttl c) = None"
  shows "0 < max_entries c \<and> length (live now (entries c)) = max_entries c
    \<and> (\<exists>e. map_of (entries c) k' = Some e \<and> (\<forall>x \<in> set (live now (entries c)). expires_at e \<le> expires_at (snd x)))"
proof -
  have d: "distinct (map fst (entries c))" using assms(2) by (simp add: mc_inv_def)
  obtain e where e: "map_of (entries c) k' = Some e" "\<not> is_expired now e"
    using assms(4) by (auto simp: mc_get_def split: option.splits if_splits)
  have "map_of (evict it now (max_entries c) (entries c)) k' \<in> {map_of (entries c) k', None}"
    using d by (intro map_of_subset distinct_evict evict_subset)
  with assms(3,5) e have "map_of (evict it now (max_entries c) (entries c)) k' = None"
    by (auto simp: mc_get_def mc_set_def update_conv' split: option.splits if_splits)
  from evict_loses [OF assms(1) d e this]
  have "0 < max_entries c" "max_entries c \<le> length (live now (entries c))"
    and m: "\<forall>x \<in> set (live now (entries c)). expires_at e \<le> expires_at (snd x)" by auto
  moreover have "length (live now (entries c)) \<le> max_entries c"
    using assms(2) length_hm_retain [of "\<lambda>_ e. \<not> is_expired now e" "entries c"] calculation(1)
    by (simp add: mc_inv_def live_def mc_len_def)
  ultimately show ?thesis using e(1) by auto
qed

text \<open>A full cache of two unexpired entries in which one of them is stored again.\<close>

definition full_cache :: memory_cache where
  "full_cache = mc_set (\<lambda>m. m) 0 ''b'' [2] 5 (mc_set (\<lambda>m. m) 0 ''a'' [1] 10 (with_max_entries 2))"

theorem mc_set_evicts_first_to_expire_witness:
  "mc_get 1 ''b'' full_cache = Some [2] \<and> mc_get 1 ''b'' (mc_set (\<lambda>m. m) 1 ''c'' [3] 10 full_cache) = None
   \<and> length (live 1 (entries full_cache)) = max_entries full_cache"
proof -
  have full: "full_cache = \<lparr>entries = [(''a'', \<lparr>data = [1], expires_at = 10\<rparr>),
      (''b'', \<lparr>data = [2], expires_at = 5\<rparr>)], max_entries = 2\<rparr>"
    by (simp add: full_cache_def mc_set_def with_max_entries_def evict_def new_entry_def)
  have r: "mc_get 1 ''b'' full_cache = Some [2]"
    and n: "mc_get 1 ''b'' (mc_set (\<lambda>m. m) 1 ''c'' [3] 10 full_cache) = None"
    by (simp_all add: full mc_get_def mc_set_def evict_def hm_retain_def is_expired_def word_le_nat_alt
        word_less_nat_alt)
  have "mc_inv full_cache" by (simp add: full mc_inv_def mc_len_def)
  from mc_set_evicts_first_to_expire [OF hash_order_id this _ r n] r n show ?thesis by simp
qed

text \<open>Storing a new value for a key that is already present in a full cache drops another,
  unexpired entry although no room is needed: the two-entry cache above loses \<^verbatim>\<open>b\<close> when \<^verbatim>\<open>a\<close> is
  overwritten, and holds one entry afterwards.\<close>

lemma mc_overwrite_evicts:
  "mc_len full_cache = 2 \<and> mc_get 1 ''b'' full_cache = Some [2]
   \<and> mc_get 1 ''b'' (mc_set (\<lambda>m. m) 1 ''a'' [9] 10 full_cache) = None
   \<and> mc_len (mc_set (\<lambda>m. m) 1 ''a'' [9] 10 full_cache) = 1"
  by (simp add: full_cache_def mc_set_def with_max_entries_def evict_def new_entry_def mc_get_def
      hm_retain_def is_expired_def mc_len_def word_le_nat_alt word_less_nat_alt)

section \<open>The caching wrapper over the memory cache\<close>

text \<open>The caching wrapper calls the wrapped provider at most once per lifetime of a value: once it
  has fetched a value whose JSON text reads back, every call for the same key before the expiry
  returns that value without calling the provider and leaves the cache as it is; a failing
  provider changes nothing.\<close>

theorem cached_fetch_once:
  fixes e :: 'e and v :: 't and fetch' :: "'e + 't"
  assumes "hash_order it" and "mc_inv c" and "unat now + unat ttl < 2 ^ 64" and "now \<le> now'"
    and "unat now' < unat now + unat ttl" and "to_vec v = Some d" and "from_slice d = Some v"
    and "mc_get now key c = None"
  shows "(\<exists>c'. get_or_fetch mc_get (mc_set it) from_slice to_vec now key (Inr v :: 'e + 't) ttl c = (True, Inr v, c')
           \<and> get_or_fetch mc_get (mc_set it) from_slice to_vec now' key fetch' ttl' c' = (False, Inr v, c'))
    \<and> get_or_fetch mc_get (mc_set it) from_slice to_vec now key (Inl e) ttl c = (True, Inl e, c)"
proof -
  have miss: "get_or_fetch mc_get (mc_set it) from_slice to_vec now key (Inr v :: 'e + 't) ttl c
      = (True, Inr v, mc_set it now key d ttl c)"
    using assms(6,8) by (simp add: get_or_fetch_def)
  from cache_contract.fetch_then_hit [OF mc_contract [OF assms(1)] assms(2-7) this, of fetch' ttl']
  have "get_or_fetch mc_get (mc_set it) from_slice to_vec now' key fetch' ttl' (mc_set it now key d ttl c)
      = (False, Inr v, mc_set it now key d ttl c)" by blast
  moreover have "get_or_fetch mc_get (mc_set it) from_slice to_vec now key (Inl e) ttl c = (True, Inl e, c)"
    using assms(8) by (simp add: get_or_fetch_def)
  ultimately show ?thesis using miss by blast
qed

theorem cached_fetch_once_witness:
  "\<exists>c'. get_or_fetch mc_get (mc_set (\<lambda>m. m)) (Some :: bytes \<Rightarrow> bytes option) Some 5 ''k'' (Inr [1]) 10 new_cache
        = (True, Inr [1] :: unit + bytes, c')
     \<and> get_or_fetch mc_get (mc_set (\<lambda>m. m)) (Some :: bytes \<Rightarrow> bytes option) Some 7 ''k'' (Inl ()) 10 c'
        = (False, Inr [1], c')"
proof -
  have inv: "mc_inv new_cache" and miss: "mc_get 5 ''k'' new_cache = None"
    by (simp_all add: mc_inv_def new_cache_def mc_get_def)
  show ?thesis
    using cached_fetch_once [OF hash_order_id inv _ _ _ _ _ miss, of 10 7 Some "[1]" "[1]" Some "Inl ()" 10 "()"]
    by (auto simp: word_le_nat_alt word_less_nat_alt)
qed

end
