(* ===== verification/File_Cache.thy ===== *)
theory File_Cache
  imports Cache_Types "HOL-Library.Countable"
begin

text \<open>
  \<^verbatim>\<open>crates/data/src/cache/persistent.rs\<close>: the file cache, in its single-file and its
  one-file-per-key mode. The cache directory is a map from file names to contents; reads fail
  when the file is missing and writes succeed (the code ignores write errors). The JSON
  conversions of \<^verbatim>\<open>serde_json\<close> are the fields of a codec parameter, of which \<open>codec_laws\<close> is
  assumed: a map that was written is read back as an equal map (its iteration order is free), a
  parsed map has distinct keys, and the text \<^verbatim>\<open>{}\<close> is not a cache file with entries.
\<close>

record cache_entry_metadata =
  meta_expires_at :: u64
  location :: string

record serialized_entry =
  se_data :: bytes
  se_expires_at :: u64

type_synonym cache_file = "(string \<times> serialized_entry) list"

record codec =
  file_to_string :: "cache_file \<Rightarrow> string option"
  file_from_str :: "string \<Rightarrow> cache_file option"
  entry_to_string :: "serialized_entry \<Rightarrow> string option"
  entry_from_str :: "string \<Rightarrow> serialized_entry option"

definition codec_laws :: "codec \<Rightarrow> bool" where
  "codec_laws j \<longleftrightarrow>
     (\<forall>f. distinct (map fst f) \<longrightarrow>
        (\<exists>s f'. file_to_string j f = Some s \<and> file_from_str j s = Some f' \<and> map_of f' = map_of f))
   \<and> (\<forall>s f. file_from_str j s = Some f \<longrightarrow> distinct (map fst f))
   \<and> (\<forall>e. \<exists>s. entry_to_string j e = Some s \<and> entry_from_str j s = Some e)
   \<and> file_from_str j ''{}'' \<in> {None, Some []}"

record file_cache =
  index :: "(string \<times> cache_entry_metadata) list"
  single_file :: bool
  disk :: "(string \<times> string) list"

definition key_to_filename :: "string \<Rightarrow> string" where
  "key_to_filename key =
     map (\<lambda>c. if of_char c \<in> {48..57 :: nat} \<union> {65..90} \<union> {97..122} \<or> c = CHR ''-'' \<or> c = CHR ''_''
              then c else CHR ''_'') key @ ''.cache''"

definition read_cache_file :: "codec \<Rightarrow> file_cache \<Rightarrow> cache_file option" where
  "read_cache_file j c = Option.bind (map_of (disk c) ''cache.json'') (file_from_str j)"

definition cache_data_or_default :: "codec \<Rightarrow> file_cache \<Rightarrow> cache_file" where
  "cache_data_or_default j c = (case read_cache_file j c of None \<Rightarrow> [] | Some f \<Rightarrow> f)"

definition write_cache_file :: "codec \<Rightarrow> cache_file \<Rightarrow> file_cache \<Rightarrow> file_cache" where
  "write_cache_file j f c =
     (case file_to_string j f of
        None \<Rightarrow> c
      | Some content \<Rightarrow> c\<lparr>disk := AList.update ''cache.json'' content (disk c)\<rparr>)"

definition load_single_file_index :: "codec \<Rightarrow> file_cache \<Rightarrow> file_cache" where
  "load_single_file_index j c =
     (case read_cache_file j c of
        None \<Rightarrow> c
      | Some f \<Rightarrow> c\<lparr>index := foldl (\<lambda>m (key, e). AList.update key
            \<lparr>meta_expires_at = se_expires_at e, location = key\<rparr> m) (index c) f\<rparr>)"

text \<open>\<^verbatim>\<open>trim_end_matches\<close> removes the suffix as often as it occurs.\<close>

function trim_cache_suffix :: "string \<Rightarrow> string" where
  "trim_cache_suffix s =
     (if suffix ''.cache'' s then trim_cache_suffix (take (length s - 6) s) else s)"
  by pat_completeness auto
termination
  by (relation "measure length") (auto simp: suffix_def)

declare trim_cache_suffix.simps [simp del]

definition load_multi_file_index :: "codec \<Rightarrow> file_cache \<Rightarrow> file_cache" where
  "load_multi_file_index j c =
     c\<lparr>index := foldl (\<lambda>m (filename, content).
          if suffix ''.cache'' filename then
            (case entry_from_str j content of
               None \<Rightarrow> m
             | Some cached \<Rightarrow> AList.update (trim_cache_suffix filename)
                 \<lparr>meta_expires_at = se_expires_at cached, location = filename\<rparr> m)
          else m) (index c) (disk c)\<rparr>"

definition load_index :: "codec \<Rightarrow> file_cache \<Rightarrow> file_cache" where
  "load_index j c = (if single_file c then load_single_file_index j c else load_multi_file_index j c)"

definition new_file_cache :: "codec \<Rightarrow> (string \<times> string) list \<Rightarrow> file_cache" where
  "new_file_cache j d = load_index j \<lparr>index = [], single_file = True, disk = d\<rparr>"

definition multi_file :: "codec \<Rightarrow> (string \<times> string) list \<Rightarrow> file_cache" where
  "multi_file j d = load_index j \<lparr>index = [], single_file = False, disk = d\<rparr>"

definition save_single_file :: "codec \<Rightarrow> file_cache \<Rightarrow> file_cache" where
  "save_single_file j c =
     write_cache_file j (hm_retain (\<lambda>k _. map_of (index c) k \<noteq> None) (cache_data_or_default j c)) c"

definition fc_cleanup_expired :: "codec \<Rightarrow> u64 \<Rightarrow> file_cache \<Rightarrow> file_cache" where
  "fc_cleanup_expired j now c =
     (let expired_keys = map fst (filter (\<lambda>(_, m). meta_expires_at m \<le> now) (index c));
          c = foldl (\<lambda>c key.
                let c = (if single_file c then c
                         else c\<lparr>disk := AList.delete (key_to_filename key) (disk c)\<rparr>)
                in c\<lparr>index := AList.delete key (index c)\<rparr>) c expired_keys
      in if single_file c then save_single_file j c else c)"

definition fc_get :: "codec \<Rightarrow> u64 \<Rightarrow> string \<Rightarrow> file_cache \<Rightarrow> bytes option" where
  "fc_get j now key c =
     (case map_of (index c) key of
        None \<Rightarrow> None
      | Some meta \<Rightarrow>
          if meta_expires_at meta \<le> now then None
          else if single_file c then
            (case read_cache_file j c of
               None \<Rightarrow> None
             | Some f \<Rightarrow> map_option se_data (map_of f key))
          else
            (case map_of (disk c) (key_to_filename key) of
               None \<Rightarrow> None
             | Some content \<Rightarrow> map_option se_data (entry_from_str j content)))"

definition fc_set :: "codec \<Rightarrow> u64 \<Rightarrow> string \<Rightarrow> bytes \<Rightarrow> u64 \<Rightarrow> file_cache \<Rightarrow> file_cache" where
  "fc_set j now key value ttl c =
     (let entry = new_entry now value ttl;
          c = c\<lparr>index := AList.update key
                  \<lparr>meta_expires_at = expires_at entry, location = key\<rparr> (index c)\<rparr>;
          serialized = \<lparr>se_data = value, se_expires_at = expires_at entry\<rparr>
      in if single_file c then
           write_cache_file j (AList.update key serialized (cache_data_or_default j c)) c
         else
           (case entry_to_string j serialized of
              None \<Rightarrow> c
            | Some content \<Rightarrow> c\<lparr>disk := AList.update (key_to_filename key) content (disk c)\<rparr>))"

definition fc_remove :: "codec \<Rightarrow> string \<Rightarrow> file_cache \<Rightarrow> file_cache" where
  "fc_remove j key c =
     (let c = c\<lparr>index := AList.delete key (index c)\<rparr>
      in if single_file c then save_single_file j c
         else c\<lparr>disk := AList.delete (key_to_filename key) (disk c)\<rparr>)"

definition fc_clear :: "file_cache \<Rightarrow> file_cache" where
  "fc_clear c =
     (let c = c\<lparr>index := []\<rparr>
      in if single_file c then c\<lparr>disk := AList.update ''cache.json'' ''{}'' (disk c)\<rparr>
         else c\<lparr>disk := filter (\<lambda>(f, _). \<not> suffix ''.cache'' f) (disk c)\<rparr>)"

definition fc_len :: "file_cache \<Rightarrow> nat" where
  "fc_len c = length (index c)"

section \<open>The single-file mode meets the cache contract\<close>

text \<open>The invariant: index and cache file hold the same keys with the same expiry times.\<close>

definition fc_inv :: "codec \<Rightarrow> file_cache \<Rightarrow> bool" where
  "fc_inv j c \<longleftrightarrow> single_file c
     \<and> (\<forall>k. map_option meta_expires_at (map_of (index c) k) =
             map_option se_expires_at (map_of (cache_data_or_default j c) k))"

definition fc_abs :: "codec \<Rightarrow> file_cache \<Rightarrow> string \<Rightarrow> (bytes \<times> u64) option" where
  "fc_abs j c k =
     map_option (\<lambda>e. (se_data e, se_expires_at e)) (map_of (cache_data_or_default j c) k)"

lemma distinct_cache_data: "codec_laws j \<Longrightarrow> distinct (map fst (cache_data_or_default j c))"
  by (auto simp: codec_laws_def cache_data_or_default_def read_cache_file_def bind_eq_Some_conv split: option.splits)

lemma read_after_write:
  assumes "codec_laws j" and "distinct (map fst f)"
  shows "map_of (cache_data_or_default j (write_cache_file j f c)) = map_of f"
    and "index (write_cache_file j f c) = index c"
    and "single_file (write_cache_file j f c) = single_file c"
proof -
  obtain s f' where "file_to_string j f = Some s" "file_from_str j s = Some f'" "map_of f' = map_of f"
    using assms unfolding codec_laws_def by blast
  then show "map_of (cache_data_or_default j (write_cache_file j f c)) = map_of f"
    and "index (write_cache_file j f c) = index c"
    and "single_file (write_cache_file j f c) = single_file c"
    by (simp_all add: cache_data_or_default_def read_cache_file_def write_cache_file_def update_conv')
qed

lemma cache_data_index [simp]: "cache_data_or_default j (c\<lparr>index := m\<rparr>) = cache_data_or_default j c"
  by (simp add: cache_data_or_default_def read_cache_file_def)

lemma fc_inv_index:
  "fc_inv j c \<Longrightarrow> map_of (index c) k = Some m \<Longrightarrow>
   \<exists>e. map_of (cache_data_or_default j c) k = Some e \<and> se_expires_at e = meta_expires_at m"
  unfolding fc_inv_def by (metis map_option_eq_Some)

lemma fc_inv_data:
  "fc_inv j c \<Longrightarrow> map_of (index c) k = None \<longleftrightarrow> map_of (cache_data_or_default j c) k = None"
  unfolding fc_inv_def by (metis option.map_disc_iff)

lemma fc_get_abs:
  assumes inv: "fc_inv j c"
  shows "fc_get j now k c =
     (case fc_abs j c k of None \<Rightarrow> None | Some (d, e) \<Rightarrow> if now < e then Some d else None)"
proof (cases "map_of (index c) k")
  case (Some m)
  with inv obtain e where e: "map_of (cache_data_or_default j c) k = Some e"
      "se_expires_at e = meta_expires_at m"
    by (blast dest: fc_inv_index)
  then obtain f where "read_cache_file j c = Some f" "map_of f k = Some e"
    by (auto simp: cache_data_or_default_def split: option.splits)
  moreover have "single_file c" using inv by (simp add: fc_inv_def)
  ultimately show ?thesis using Some e by (simp add: fc_get_def fc_abs_def not_less)
next
  case None
  moreover from None fc_inv_data [OF inv, of k] have "map_of (cache_data_or_default j c) k = None" by blast
  ultimately show ?thesis by (simp add: fc_get_def fc_abs_def)
qed

lemma fc_set_single:
  assumes "codec_laws j" and "single_file c"
  shows "index (fc_set j now k v ttl c) =
           AList.update k \<lparr>meta_expires_at = now + ttl, location = k\<rparr> (index c)"
    and "map_of (cache_data_or_default j (fc_set j now k v ttl c)) =
           (map_of (cache_data_or_default j c))(k \<mapsto> \<lparr>se_data = v, se_expires_at = now + ttl\<rparr>)"
    and "single_file (fc_set j now k v ttl c)"
  using assms
  by (simp_all add: fc_set_def Let_def new_entry_def read_after_write distinct_update distinct_cache_data update_conv')

lemma save_single_file:
  assumes "codec_laws j"
  shows "index (save_single_file j c) = index c"
    and "map_of (cache_data_or_default j (save_single_file j c)) =
           (\<lambda>k. if map_of (index c) k = None then None else map_of (cache_data_or_default j c) k)"
    and "single_file (save_single_file j c) = single_file c"
proof -
  have "map_of (hm_retain (\<lambda>k _. map_of (index c) k \<noteq> None) (cache_data_or_default j c)) =
      (\<lambda>k. if map_of (index c) k = None then None else map_of (cache_data_or_default j c) k)"
    by (rule ext) (simp add: map_of_hm_retain distinct_cache_data assms split: option.splits)
  then show "map_of (cache_data_or_default j (save_single_file j c)) =
      (\<lambda>k. if map_of (index c) k = None then None else map_of (cache_data_or_default j c) k)"
    by (simp add: save_single_file_def read_after_write distinct_cache_data assms)
  show "index (save_single_file j c) = index c" "single_file (save_single_file j c) = single_file c"
    by (simp_all add: save_single_file_def read_after_write distinct_cache_data assms)
qed

lemma fc_remove_single:
  assumes "codec_laws j" and "single_file c"
  shows "index (fc_remove j k c) = AList.delete k (index c)"
    and "map_of (cache_data_or_default j (fc_remove j k c)) =
           (\<lambda>k'. if map_of (AList.delete k (index c)) k' = None then None
                 else map_of (cache_data_or_default j c) k')"
    and "single_file (fc_remove j k c)"
  using assms by (simp_all add: fc_remove_def Let_def save_single_file cong: if_cong)

lemma fc_clear_single:
  assumes "codec_laws j" and "single_file c"
  shows "index (fc_clear c) = []" and "cache_data_or_default j (fc_clear c) = []" and "single_file (fc_clear c)"
  using assms
  by (auto simp: fc_clear_def Let_def cache_data_or_default_def read_cache_file_def update_conv' codec_laws_def)

lemma fc_abs_remove:
  "codec_laws j \<Longrightarrow> fc_inv j c \<Longrightarrow> fc_abs j (fc_remove j k c) k' = (if k' = k then None else fc_abs j c k')"
  using fc_inv_data [of j c k']
  by (auto simp: fc_inv_def fc_abs_def fc_remove_single delete_conv')

lemma fc_inv_remove: "codec_laws j \<Longrightarrow> fc_inv j c \<Longrightarrow> fc_inv j (fc_remove j k c)"
  using fc_inv_data [of j c]
  by (auto simp: fc_inv_def fc_remove_single delete_conv')

lemma fc_contract:
  assumes laws: "codec_laws j"
  shows "cache_contract (fc_get j) (fc_set j) (fc_remove j) fc_clear (fc_abs j) (fc_inv j)"
proof
  fix c now k
  assume "fc_inv j c"
  then show "fc_get j now k c =
      (case fc_abs j c k of None \<Rightarrow> None | Some (d, e) \<Rightarrow> if now < e then Some d else None)"
    by (rule fc_get_abs)
next
  fix c now k d ttl
  assume "fc_inv j c"
  then show "fc_abs j (fc_set j now k d ttl c) k = Some (d, now + ttl)"
    using laws by (simp add: fc_inv_def fc_abs_def fc_set_single update_conv')
next
  fix c :: file_cache and now d ttl and k k' :: string
  assume "fc_inv j c" and "k' \<noteq> k"
  then show "fc_abs j (fc_set j now k d ttl c) k' \<in> {fc_abs j c k', None}"
    using laws by (simp add: fc_inv_def fc_abs_def fc_set_single update_conv')
next
  fix c k
  assume "fc_inv j c"
  then show "fc_abs j (fc_remove j k c) k = None"
    using laws by (simp add: fc_abs_remove)
next
  fix c :: file_cache and k k' :: string
  assume "fc_inv j c" and "k' \<noteq> k"
  then show "fc_abs j (fc_remove j k c) k' = fc_abs j c k'"
    using laws by (simp add: fc_abs_remove)
next
  fix c k
  assume "fc_inv j c"
  then show "fc_abs j (fc_clear c) k = None"
    using laws by (simp add: fc_inv_def fc_abs_def fc_clear_single)
next
  fix c now k d ttl
  assume "fc_inv j c"
  then show "fc_inv j (fc_set j now k d ttl c)"
    using laws by (simp add: fc_inv_def fc_set_single update_conv')
next
  fix c k
  assume "fc_inv j c"
  then show "fc_inv j (fc_remove j k c)"
    by (rule fc_inv_remove [OF laws])
next
  fix c
  assume "fc_inv j c"
  then show "fc_inv j (fc_clear c)"
    using laws by (simp add: fc_inv_def fc_clear_single)
qed

lemma fc_exact:
  assumes "codec_laws j"
  shows "exact_cache (fc_get j) (fc_set j) (fc_remove j) fc_clear (fc_abs j) (fc_inv j)"
proof (rule exact_cache.intro [OF fc_contract [OF assms]])
  show "exact_cache_axioms (fc_set j) (fc_abs j) (fc_inv j)"
    using assms by unfold_locales (simp add: fc_inv_def fc_abs_def fc_set_single)
qed

locale file_codec =
  fixes j :: codec
  assumes laws: "codec_laws j"

sublocale file_codec \<subseteq> fc: cache_contract "fc_get j" "fc_set j" "fc_remove j" fc_clear "fc_abs j" "fc_inv j"
  by (rule fc_contract [OF laws])

sublocale file_codec \<subseteq> fc_exact: exact_cache "fc_get j" "fc_set j" "fc_remove j" fc_clear "fc_abs j" "fc_inv j"
  by (rule fc_exact [OF laws])

text \<open>A lawful codec: texts are numbers in unary, through the countability of the data.\<close>

definition entry_pair :: "serialized_entry \<Rightarrow> bytes \<times> u64" where
  "entry_pair e = (se_data e, se_expires_at e)"

definition pair_entry :: "bytes \<times> u64 \<Rightarrow> serialized_entry" where
  "pair_entry p = \<lparr>se_data = fst p, se_expires_at = snd p\<rparr>"

definition unary_codec :: codec where
  "unary_codec = \<lparr>
     file_to_string = (\<lambda>f. if distinct (map fst f)
        then Some (replicate (3 + to_nat (map (\<lambda>(k, e). (k, entry_pair e)) f)) (CHR ''1'')) else None),
     file_from_str = (\<lambda>s. if length s < 3 then None
        else let f = map (\<lambda>(k, p). (k, pair_entry p)) (from_nat (length s - 3) :: (string \<times> bytes \<times> u64) list)
             in if distinct (map fst f) then Some f else None),
     entry_to_string = (\<lambda>e. Some (replicate (to_nat (entry_pair e)) (CHR ''1''))),
     entry_from_str = (\<lambda>s. Some (pair_entry (from_nat (length s))))\<rparr>"

lemma pair_entry_pair [simp]: "pair_entry (entry_pair e) = e"
  by (simp add: pair_entry_def entry_pair_def)

lemma unary_codec_laws: "codec_laws unary_codec"
proof -
  have "map ((\<lambda>(k, p). (k, pair_entry p)) \<circ> (\<lambda>(k, e). (k, entry_pair e))) f = f" for f :: cache_file
    by (induction f) auto
  then show ?thesis
    by (auto simp: codec_laws_def unary_codec_def Let_def)
qed

interpretation unary: file_codec unary_codec
  by unfold_locales (rule unary_codec_laws)

section \<open>Properties\<close>

text \<open>C30. The single-file cache implements the abstract map: from a state in which index and file
  agree, a store makes the key readable with its value exactly until the expiry time and changes
  no other key, a removal affects only its key, a clear empties the cache, and index and file
  agree again after each of them.\<close>

theorem fc_single_file_refines:
  assumes "codec_laws j" and "fc_inv j c" and "unat now + unat ttl < 2 ^ 64" and "now \<le> now'"
  shows "fc_get j now' k' (fc_set j now k v ttl c) =
           (if k' = k then (if unat now' < unat now + unat ttl then Some v else None) else fc_get j now' k' c)
    \<and> fc_get j now' k' (fc_remove j k c) = (if k' = k then None else fc_get j now' k' c)
    \<and> fc_get j now' k' (fc_clear c) = None
    \<and> fc_inv j (fc_set j now k v ttl c) \<and> fc_inv j (fc_remove j k c) \<and> fc_inv j (fc_clear c)"
proof -
  note fc = fc_contract [OF assms(1)]
  have inv: "fc_inv j (fc_set j now k v ttl c)" "fc_inv j (fc_remove j k c)" "fc_inv j (fc_clear c)"
    using assms(2) by (auto intro: cache_contract.inv_set [OF fc] cache_contract.inv_remove [OF fc]
        cache_contract.inv_clear [OF fc])
  have "now' < now + ttl \<longleftrightarrow> unat now' < unat now + unat ttl"
    using assms(3) by (simp add: word_less_nat_alt unat_add_lt)
  moreover have "fc_abs j (fc_set j now k v ttl c) k' = (if k' = k then Some (v, now + ttl) else fc_abs j c k')"
    using assms(1,2) by (simp add: fc_abs_def fc_set_single fc_inv_def)
  ultimately show ?thesis
    using inv assms(1,2) by (simp add: fc_get_abs fc_abs_remove cache_contract.clear_abs [OF fc])
qed

lemma fc_inv_empty: "codec_laws j \<Longrightarrow> fc_inv j \<lparr>index = [], single_file = True, disk = []\<rparr>"
  by (simp add: fc_inv_def cache_data_or_default_def read_cache_file_def)

theorem fc_single_file_refines_witness:
  "fc_get unary_codec 3 ''k'' (fc_set unary_codec 1 ''k'' [7] 5
      \<lparr>index = [], single_file = True, disk = []\<rparr>) = Some [7]"
  using fc_single_file_refines [OF unary_codec_laws fc_inv_empty [OF unary_codec_laws], of 1 5 3 "''k''" "''k''" "[7]"]
  by (simp add: word_le_nat_alt)

subsection \<open>Reopening the cache\<close>

lemma map_of_load:
  "distinct (map fst f) \<Longrightarrow>
   map_of (foldl (\<lambda>m (key, e). AList.update key \<lparr>meta_expires_at = se_expires_at e, location = key\<rparr> m) m0 f) k
     = (case map_of f k of None \<Rightarrow> map_of m0 k
        | Some e \<Rightarrow> Some \<lparr>meta_expires_at = se_expires_at e, location = k\<rparr>)"
proof (induction f arbitrary: m0)
  case (Cons x f)
  obtain k0 e0 where x: "x = (k0, e0)" by fastforce
  from Cons.prems x have "map_of f k0 = None" by (simp add: map_of_eq_None_iff)
  with Cons x show ?case by (auto simp: update_conv' split: option.splits)
qed simp

lemma new_file_cache_data: "cache_data_or_default j (new_file_cache j d) =
    cache_data_or_default j \<lparr>index = [], single_file = True, disk = d\<rparr>"
  by (auto simp: new_file_cache_def load_index_def load_single_file_index_def cache_data_or_default_def
      read_cache_file_def split: option.splits)

lemma fc_inv_new: "codec_laws j \<Longrightarrow> fc_inv j (new_file_cache j d)"
proof -
  assume laws: "codec_laws j"
  let ?c = "\<lparr>index = [], single_file = True, disk = d\<rparr> :: file_cache"
  show ?thesis
  proof (cases "read_cache_file j ?c")
    case None
    then show ?thesis
      by (simp add: fc_inv_def new_file_cache_data)
         (simp add: new_file_cache_def load_index_def load_single_file_index_def cache_data_or_default_def)
  next
    case (Some f)
    then have "distinct (map fst f)"
      using distinct_cache_data [OF laws, of ?c] by (simp add: cache_data_or_default_def)
    with Some show ?thesis
      by (auto simp: fc_inv_def new_file_cache_data)
         (auto simp: new_file_cache_def load_index_def load_single_file_index_def cache_data_or_default_def
            map_of_load split: option.splits)
  qed
qed

text \<open>C39. The single-file cache survives a restart: a cache opened on the directory that a cache in a
  consistent state left behind answers every lookup, at every time, as that cache would, and is in a
  consistent state itself. The invariant holds of an empty cache and is kept by every operation.\<close>

theorem fc_reopen:
  assumes "codec_laws j" and "fc_inv j c"
  shows "fc_get j now k (new_file_cache j (disk c)) = fc_get j now k c \<and> fc_inv j (new_file_cache j (disk c))"
proof -
  have "cache_data_or_default j (new_file_cache j (disk c)) = cache_data_or_default j c"
    by (simp add: new_file_cache_data) (simp add: cache_data_or_default_def read_cache_file_def)
  then show ?thesis
    using assms fc_inv_new [OF assms(1)] by (simp add: fc_get_abs fc_abs_def)
qed

theorem fc_reopen_witness:
  "fc_get unary_codec 3 ''k'' (new_file_cache unary_codec (disk (fc_set unary_codec 1 ''k'' [7] 5
      \<lparr>index = [], single_file = True, disk = []\<rparr>))) =
   fc_get unary_codec 3 ''k'' (fc_set unary_codec 1 ''k'' [7] 5 \<lparr>index = [], single_file = True, disk = []\<rparr>)"
proof -
  have "fc_inv unary_codec (fc_set unary_codec 1 ''k'' [7] 5 \<lparr>index = [], single_file = True, disk = []\<rparr>)"
    using fc_inv_empty [OF unary_codec_laws] by (rule unary.fc.inv_set)
  from fc_reopen [OF unary_codec_laws this] show ?thesis by simp
qed

subsection \<open>The multi-file mode does not separate keys\<close>

lemma entry_roundtrip:
  "codec_laws j \<Longrightarrow> \<exists>s. entry_to_string j e = Some s \<and> entry_from_str j s = Some e"
  by (simp add: codec_laws_def)

lemma fc_set_multi:
  assumes "codec_laws j" and "\<not> single_file c"
  shows "index (fc_set j now k v ttl c) = AList.update k \<lparr>meta_expires_at = now + ttl, location = k\<rparr> (index c)"
    and "\<not> single_file (fc_set j now k v ttl c)"
    and "Option.bind (map_of (disk (fc_set j now k v ttl c)) (key_to_filename k)) (entry_from_str j) =
      Some \<lparr>se_data = v, se_expires_at = now + ttl\<rparr>"
  using entry_roundtrip [OF assms(1), of "\<lparr>se_data = v, se_expires_at = now + ttl\<rparr>"] assms(2)
  by (auto simp: fc_set_def Let_def new_entry_def update_conv')

text \<open>In the multi-file mode two different keys with the same file name are not kept apart:
  after storing \<open>v1\<close> under \<open>k1\<close> and \<open>v2\<close> under \<open>k2\<close>, a lookup of \<open>k1\<close> returns \<open>v2\<close>. The
  key separator \<^verbatim>\<open>:\<close> of the key builder and the underscore collide in this way.\<close>

theorem fc_multi_file_collision:
  assumes "codec_laws j" and "\<not> single_file c" and "key_to_filename k1 = key_to_filename k2" and "k1 \<noteq> k2"
    and "now < now + ttl"
  shows "fc_get j now k1 (fc_set j now k2 v2 ttl (fc_set j now k1 v1 ttl c)) = Some v2
    \<and> key_to_filename (build_key [''a'', ''b'']) = key_to_filename ''a_b''"
proof -
  let ?c1 = "fc_set j now k1 v1 ttl c"
  note c1 = fc_set_multi [OF assms(1,2), of now k1 v1 ttl]
  note c2 = fc_set_multi [OF assms(1) c1(2), of now k2 v2 ttl]
  have "map_of (index (fc_set j now k2 v2 ttl ?c1)) k1 = Some \<lparr>meta_expires_at = now + ttl, location = k1\<rparr>"
    using assms(4) by (simp add: c1(1) c2(1) update_conv')
  with c2(2,3) assms(3,5) have "fc_get j now k1 (fc_set j now k2 v2 ttl ?c1) = Some v2"
    by (auto simp: fc_get_def not_le bind_eq_Some_conv)
  moreover have "key_to_filename (build_key [''a'', ''b'']) = key_to_filename ''a_b''"
    by (simp add: key_to_filename_def build_key_def)
  ultimately show ?thesis by blast
qed

theorem fc_multi_file_collision_witness:
  "fc_get unary_codec 1 ''a:b'' (fc_set unary_codec 1 ''a_b'' [2] 9 (fc_set unary_codec 1 ''a:b'' [1] 9
      \<lparr>index = [], single_file = False, disk = []\<rparr>)) = Some [2]"
proof -
  have "key_to_filename ''a:b'' = key_to_filename ''a_b''" by (simp add: key_to_filename_def)
  then show ?thesis
    using fc_multi_file_collision [OF unary_codec_laws, of "\<lparr>index = [], single_file = False, disk = []\<rparr>"
        "''a:b''" "''a_b''" 1 9 "[2]" "[1]"] by (simp add: word_less_nat_alt)
qed

end
