(* ===== verification/Scheduler.thy ===== *)
theory Scheduler
  imports Interfaces
begin

text \<open>
  \<^verbatim>\<open>crates/execution/src/scheduler\<close> (\<^verbatim>\<open>types.rs\<close>, \<^verbatim>\<open>runner.rs\<close>): tasks, schedules and the
  scheduler loop. The asynchronous loop of \<^verbatim>\<open>Scheduler::start\<close> is a step relation: one step per
  point at which the loop awaits (the tick of the check interval, the send into the bounded
  channel), interleaved with the steps of the consumer that holds the receiver. \<^verbatim>\<open>start\<close> borrows
  the scheduler mutably for its whole duration, so the task list changes only by the loop itself.
  Sums of instants and durations do not overflow in the model.
\<close>

datatype schedule =
    Interval duration
  | Daily "(u8 \<times> u8) list"
  | Once duration
  | Cron string

record scheduled_task =
  st_name :: string
  st_schedule :: schedule
  enabled :: bool
  last_run :: "instant option"
  next_run :: "instant option"

definition new_task :: "string \<Rightarrow> schedule \<Rightarrow> scheduled_task" where
  "new_task n sched = \<lparr>st_name = n, st_schedule = sched, enabled = True, last_run = None, next_run = None\<rparr>"

definition disabled :: "scheduled_task \<Rightarrow> scheduled_task" where
  "disabled t = t\<lparr>enabled := False\<rparr>"

record task_event =
  task_name :: string
  scheduled_at :: instant
  triggered_at :: instant

definition every :: "duration \<Rightarrow> schedule" where
  "every d = Interval d"

definition every_secs :: "u64 \<Rightarrow> schedule" where
  "every_secs s = Interval (from_secs (unat s))"

definition every_mins :: "u64 \<Rightarrow> schedule" where
  "every_mins m = Interval (from_secs (unat (m * 60)))"

definition every_hours :: "u64 \<Rightarrow> schedule" where
  "every_hours h = Interval (from_secs (unat (h * 60 * 60)))"

definition once_after :: "duration \<Rightarrow> schedule" where
  "once_after d = Once d"

definition daily_at :: "(u8 \<times> u8) list \<Rightarrow> schedule" where
  "daily_at ts = Daily ts"

text \<open>The scheduler. The channel of capacity 100 is its buffer and whether the receiving half still
  exists; \<open>event_rx\<close> tells whether the receiver is still inside the scheduler.\<close>

record scheduler =
  tasks :: "scheduled_task list"
  buffer :: "task_event list"
  receiver_open :: bool
  event_rx :: bool
  running :: bool

definition channel_capacity :: nat where
  "channel_capacity = 100"

definition new_scheduler :: scheduler where
  "new_scheduler = \<lparr>tasks = [], buffer = [], receiver_open = True, event_rx = True, running = False\<rparr>"

definition add_task :: "scheduled_task \<Rightarrow> scheduler \<Rightarrow> scheduler" where
  "add_task t s = s\<lparr>tasks := tasks s @ [t]\<rparr>"

definition remove_task :: "string \<Rightarrow> scheduler \<Rightarrow> scheduler" where
  "remove_task n s = s\<lparr>tasks := filter (\<lambda>t. st_name t \<noteq> n) (tasks s)\<rparr>"

text \<open>\<^verbatim>\<open>iter_mut().find(..)\<close>: the first task of that name is changed.\<close>

fun update_first :: "string \<Rightarrow> (scheduled_task \<Rightarrow> scheduled_task) \<Rightarrow> scheduled_task list \<Rightarrow> scheduled_task list" where
  "update_first n f [] = []"
| "update_first n f (t # ts) = (if st_name t = n then f t # ts else t # update_first n f ts)"

definition enable_task :: "string \<Rightarrow> scheduler \<Rightarrow> scheduler" where
  "enable_task n s = s\<lparr>tasks := update_first n (\<lambda>t. t\<lparr>enabled := True\<rparr>) (tasks s)\<rparr>"

definition disable_task :: "string \<Rightarrow> scheduler \<Rightarrow> scheduler" where
  "disable_task n s = s\<lparr>tasks := update_first n (\<lambda>t. t\<lparr>enabled := False\<rparr>) (tasks s)\<rparr>"

definition take_receiver :: "scheduler \<Rightarrow> bool \<times> scheduler" where
  "take_receiver s = (event_rx s, s\<lparr>event_rx := False\<rparr>)"

definition stop :: "scheduler \<Rightarrow> scheduler" where
  "stop s = s\<lparr>running := False\<rparr>"

definition calculate_next_run :: "schedule \<Rightarrow> instant \<Rightarrow> instant" where
  "calculate_next_run sched t =
     (case sched of
        Interval d \<Rightarrow> t + d
      | Once d \<Rightarrow> t + d
      | Daily _ \<Rightarrow> t + from_secs (24 * 60 * 60)
      | Cron _ \<Rightarrow> t + from_secs (60 * 60))"

text \<open>The beginning of \<^verbatim>\<open>start\<close>.\<close>

definition start_init :: "instant \<Rightarrow> scheduler \<Rightarrow> scheduler" where
  "start_init now s =
     s\<lparr>running := True,
       tasks := map (\<lambda>t. t\<lparr>next_run := Some (calculate_next_run (st_schedule t) now)\<rparr>) (tasks s)\<rparr>"

text \<open>The loop body for one task, and for the task list: the tasks that are due send an event.\<close>

definition check_task :: "instant \<Rightarrow> scheduled_task \<Rightarrow> task_event list \<times> scheduled_task" where
  "check_task now t =
     (if \<not> enabled t then ([], t)
      else (case next_run t of
              None \<Rightarrow> ([], t)
            | Some nr \<Rightarrow>
                if nr \<le> now then
                  ([\<lparr>task_name = st_name t, scheduled_at = nr, triggered_at = now\<rparr>],
                   t\<lparr>last_run := Some now,
                     next_run := Some (calculate_next_run (st_schedule t) now)\<rparr>)
                else ([], t)))"

fun check_tasks :: "instant \<Rightarrow> scheduled_task list \<Rightarrow> task_event list \<times> scheduled_task list" where
  "check_tasks now [] = ([], [])"
| "check_tasks now (t # ts) =
     (let (ev, t') = check_task now t; (evs, ts') = check_tasks now ts in (ev @ evs, t' # ts'))"

section \<open>The loop as a step relation\<close>

text \<open>\<open>pending\<close> are the events collected at a tick and not sent yet; \<open>clock\<close> is the time of the last
  tick. \<open>fired\<close> (with the task's position), \<open>received\<close> and \<open>lost\<close> record what happened.\<close>

record loop_state =
  sched :: scheduler
  pending :: "task_event list"
  clock :: instant
  fired :: "(nat \<times> task_event) list"
  received :: "task_event list"
  lost :: "task_event list"

definition start_state :: "instant \<Rightarrow> scheduler \<Rightarrow> loop_state" where
  "start_state now s = \<lparr>sched = start_init now s, pending = [], clock = now, fired = [], received = [], lost = []\<rparr>"

definition fired_at_tick :: "instant \<Rightarrow> scheduled_task list \<Rightarrow> (nat \<times> task_event) list" where
  "fired_at_tick now ts = concat (map (\<lambda>(i, t). map (Pair i) (fst (check_task now t))) (enumerate 0 ts))"

inductive sched_step :: "loop_state \<Rightarrow> loop_state \<Rightarrow> bool" where
  tick: "running (sched l) \<Longrightarrow> pending l = [] \<Longrightarrow> clock l \<le> now \<Longrightarrow>
     check_tasks now (tasks (sched l)) = (evs, ts) \<Longrightarrow>
     sched_step l (l\<lparr>sched := (sched l)\<lparr>tasks := ts\<rparr>, pending := evs, clock := now,
       fired := fired l @ fired_at_tick now (tasks (sched l))\<rparr>)"
| send: "pending l = e # es \<Longrightarrow> receiver_open (sched l) \<Longrightarrow> length (buffer (sched l)) < channel_capacity \<Longrightarrow>
     sched_step l (l\<lparr>sched := (sched l)\<lparr>buffer := buffer (sched l) @ [e]\<rparr>, pending := es\<rparr>)"
| send_closed: "pending l = e # es \<Longrightarrow> \<not> receiver_open (sched l) \<Longrightarrow>
     sched_step l (l\<lparr>pending := es, lost := lost l @ [e]\<rparr>)"
| recv: "receiver_open (sched l) \<Longrightarrow> buffer (sched l) = e # es \<Longrightarrow>
     sched_step l (l\<lparr>sched := (sched l)\<lparr>buffer := es\<rparr>, received := received l @ [e]\<rparr>)"
| drop_receiver: "\<not> event_rx (sched l) \<Longrightarrow>
     sched_step l (l\<lparr>sched := (sched l)\<lparr>receiver_open := False, buffer := []\<rparr>, lost := lost l @ buffer (sched l)\<rparr>)"

inductive_cases sched_stepE: "sched_step l l'"

definition loop_reach :: "loop_state \<Rightarrow> loop_state \<Rightarrow> bool" where
  "loop_reach = sched_step\<^sup>*\<^sup>*"

section \<open>Events of one tick\<close>

lemma check_task_simps [simp]:
  "st_name (snd (check_task now t)) = st_name t"
  "st_schedule (snd (check_task now t)) = st_schedule t"
  "enabled (snd (check_task now t)) = enabled t"
  by (auto simp: check_task_def split: option.splits)

lemma check_tasks_map: "check_tasks now ts = (concat (map (fst \<circ> check_task now) ts), map (snd \<circ> check_task now) ts)"
  by (induction ts) (auto simp: Let_def split: prod.splits)

lemma map_snd_fired: "map snd (concat (map (\<lambda>(i, t). map (Pair i) (f t)) (enumerate k ts))) = concat (map f ts)"
  by (induction ts arbitrary: k) (simp_all add: map_idI)

lemma fired_events: "map snd (fired_at_tick now ts) = fst (check_tasks now ts)"
  by (simp add: fired_at_tick_def check_tasks_map map_snd_fired comp_def)

definition fired_of :: "nat \<Rightarrow> (nat \<times> task_event) list \<Rightarrow> task_event list" where
  "fired_of i fs = map snd (filter (\<lambda>(j, _). j = i) fs)"

lemma fired_of_append [simp]: "fired_of i (fs @ gs) = fired_of i fs @ fired_of i gs"
  by (simp add: fired_of_def)

lemma fired_of_enumerate:
  "fired_of i (concat (map (\<lambda>(i, t). map (Pair i) (f t)) (enumerate k ts))) =
   (if k \<le> i \<and> i < k + length ts then f (ts ! (i - k)) else [])"
proof (induction ts arbitrary: k)
  case Nil
  then show ?case by (auto simp: fired_of_def)
next
  case (Cons t ts)
  have "fired_of i (map (Pair k) xs) = (if i = k then xs else [])" for xs
    by (auto simp: fired_of_def filter_map comp_def map_idI)
  with Cons [of "Suc k"] show ?case by (auto simp: nth_Cons')
qed

lemma fired_of_tick:
  "fired_of i (fired_at_tick now ts) = (if i < length ts then fst (check_task now (ts ! i)) else [])"
  using fired_of_enumerate [of i "fst \<circ> check_task now" 0 ts] by (simp add: fired_at_tick_def comp_def)

section \<open>The invariant of the loop\<close>

text \<open>The events of one task: each is scheduled one period after the trigger time of the one
  before (the start of the scheduler for the first), and is triggered no earlier than scheduled.\<close>

fun period :: "schedule \<Rightarrow> duration" where
  "period (Interval d) = d"
| "period (Once d) = d"
| "period (Daily ts) = from_secs 86400"
| "period (Cron ex) = from_secs 3600"

fun spaced :: "duration \<Rightarrow> instant \<Rightarrow> task_event list \<Rightarrow> bool" where
  "spaced p t [] = True"
| "spaced p t (e # es) =
     (scheduled_at e = t + p \<and> scheduled_at e \<le> triggered_at e \<and> spaced p (triggered_at e) es)"

definition last_trigger :: "instant \<Rightarrow> task_event list \<Rightarrow> instant" where
  "last_trigger t es = (if es = [] then t else triggered_at (last es))"

lemma next_run_period: "calculate_next_run sc t = t + period sc"
  by (cases sc) (simp_all add: calculate_next_run_def)

lemma spaced_snoc: "spaced p t (es @ [e]) \<longleftrightarrow>
    spaced p t es \<and> scheduled_at e = last_trigger t es + p \<and> scheduled_at e \<le> triggered_at e"
  by (induction es arbitrary: t) (auto simp: last_trigger_def)

definition loop_inv :: "instant \<Rightarrow> scheduler \<Rightarrow> loop_state \<Rightarrow> bool" where
  "loop_inv t0 s0 l \<longleftrightarrow>
     length (tasks (sched l)) = length (tasks s0)
   \<and> length (buffer (sched l)) \<le> channel_capacity
   \<and> (receiver_open (sched l) \<longrightarrow> lost l = [] \<and> map snd (fired l) = received l @ buffer (sched l) @ pending l)
   \<and> (\<forall>i < length (tasks s0).
        st_schedule (tasks (sched l) ! i) = st_schedule (tasks s0 ! i)
      \<and> enabled (tasks (sched l) ! i) = enabled (tasks s0 ! i)
      \<and> (\<not> enabled (tasks s0 ! i) \<longrightarrow> fired_of i (fired l) = [])
      \<and> spaced (period (st_schedule (tasks s0 ! i))) t0 (fired_of i (fired l))
      \<and> next_run (tasks (sched l) ! i) =
          Some (last_trigger t0 (fired_of i (fired l)) + period (st_schedule (tasks s0 ! i)))
      \<and> (enabled (tasks s0 ! i) \<longrightarrow> 0 < period (st_schedule (tasks s0 ! i)) \<longrightarrow>
          clock l < last_trigger t0 (fired_of i (fired l)) + period (st_schedule (tasks s0 ! i))))"

lemma loop_inv_start:
  assumes "buffer s = []" and "receiver_open s"
  shows "loop_inv t0 s (start_state t0 s)"
  using assms
  by (simp add: loop_inv_def start_state_def start_init_def fired_of_def last_trigger_def next_run_period)

lemma task_inv_tick:
  assumes "fs' = fs @ fst (check_task now t)" and "t' = snd (check_task now t)"
    and "\<not> enabled t \<longrightarrow> fs = []" and "spaced (period (st_schedule t)) t0 fs"
    and "next_run t = Some (last_trigger t0 fs + period (st_schedule t))"
  shows "(\<not> enabled t \<longrightarrow> fs' = []) \<and> spaced (period (st_schedule t)) t0 fs'
    \<and> next_run t' = Some (last_trigger t0 fs' + period (st_schedule t))
    \<and> (enabled t \<longrightarrow> 0 < period (st_schedule t) \<longrightarrow> now < last_trigger t0 fs' + period (st_schedule t))"
  using assms by (auto simp: check_task_def spaced_snoc last_trigger_def next_run_period)

lemma loop_inv_step:
  assumes "sched_step l l'" and "loop_inv t0 s0 l"
  shows "loop_inv t0 s0 l'"
  using assms(1)
proof cases
  case (tick now evs ts)
  have ts: "ts = map (snd \<circ> check_task now) (tasks (sched l))"
    and evs: "map snd (fired_at_tick now (tasks (sched l))) = evs"
    using tick by (auto simp: fired_events check_tasks_map)
  have "(\<not> enabled (tasks s0 ! i) \<longrightarrow> fired_of i (fired l') = [])
      \<and> spaced (period (st_schedule (tasks s0 ! i))) t0 (fired_of i (fired l'))
      \<and> next_run (tasks (sched l') ! i) =
          Some (last_trigger t0 (fired_of i (fired l')) + period (st_schedule (tasks s0 ! i)))
      \<and> (enabled (tasks s0 ! i) \<longrightarrow> 0 < period (st_schedule (tasks s0 ! i)) \<longrightarrow>
          clock l' < last_trigger t0 (fired_of i (fired l')) + period (st_schedule (tasks s0 ! i)))"
    if "i < length (tasks s0)" for i
    using that assms(2) task_inv_tick [of "fired_of i (fired l')" "fired_of i (fired l)" now "tasks (sched l) ! i"
        "tasks (sched l') ! i" t0]
    by (simp add: loop_inv_def tick ts fired_of_tick)
  with assms(2) tick(1,3) ts evs show ?thesis
    by (simp add: loop_inv_def)
qed (use assms(2) in \<open>auto simp: loop_inv_def\<close>)

lemma loop_inv_reach: "loop_reach l l' \<Longrightarrow> loop_inv t0 s0 l \<Longrightarrow> loop_inv t0 s0 l'"
  unfolding loop_reach_def by (induction rule: rtranclp_induct) (auto intro: loop_inv_step)

text \<open>C32. The scheduler loop, after any interleaving with the consumer: every event was sent or is
  waiting in the order in which the tasks fired and none is lost while the receiver exists, the
  channel holds at most 100 events, and a disabled task never fires. The events of a task with an interval \<open>d\<close> are spaced
  by it: the first is scheduled \<open>d\<close> after the start, each later one \<open>d\<close> after the previous trigger, none
  is triggered before its scheduled time, and none is overdue after the last tick.\<close>

theorem scheduler_events:
  assumes "buffer s = []" and "receiver_open s" and "loop_reach (start_state t0 s) l"
  shows "length (buffer (sched l)) \<le> 100
    \<and> (receiver_open (sched l) \<longrightarrow> map snd (fired l) = received l @ buffer (sched l) @ pending l)
    \<and> (\<forall>i < length (tasks s). \<not> enabled (tasks s ! i) \<longrightarrow> fired_of i (fired l) = [])
    \<and> (\<forall>i < length (tasks s). \<forall>d. st_schedule (tasks s ! i) = Interval d \<longrightarrow>
        spaced d t0 (fired_of i (fired l))
        \<and> (enabled (tasks s ! i) \<longrightarrow> 0 < d \<longrightarrow> clock l < last_trigger t0 (fired_of i (fired l)) + d))"
proof -
  have inv: "loop_inv t0 s l" by (rule loop_inv_reach [OF assms(3) loop_inv_start [OF assms(1,2)]])
  show ?thesis
  proof (intro conjI allI impI)
    fix i d assume i: "i < length (tasks s)" "st_schedule (tasks s ! i) = Interval d"
    with inv show "spaced d t0 (fired_of i (fired l))" unfolding loop_inv_def by (metis period.simps(1))
    assume "enabled (tasks s ! i)" "0 < d"
    with inv i show "clock l < last_trigger t0 (fired_of i (fired l)) + d" unfolding loop_inv_def by (metis period.simps(1))
  qed (use inv in \<open>auto simp: loop_inv_def channel_capacity_def\<close>)
qed

definition demo :: scheduler where
  "demo = add_task (new_task ''m'' (every_secs 2)) new_scheduler"

theorem scheduler_events_witness:
  "\<exists>l :: loop_state. fired l = [(0, \<lparr>task_name = ''m'', scheduled_at = 2000000000, triggered_at = 3000000000\<rparr>)]
     \<and> length (buffer (sched l)) \<le> 100
     \<and> spaced 2000000000 0 (fired_of 0 (fired l)) \<and> clock l < 5000000000"
proof -
  have demo: "tasks demo = [new_task ''m'' (every_secs 2)]" "buffer demo = []" "receiver_open demo"
    by (simp_all add: demo_def add_task_def new_scheduler_def)
  let ?a = "start_state 0 demo"
  let ?e = "\<lparr>task_name = ''m'', scheduled_at = 2000000000, triggered_at = 3000000000\<rparr>"
  obtain evs ts where c: "check_tasks 3000000000 (tasks (sched ?a)) = (evs, ts)" by fastforce
  let ?l = "?a\<lparr>sched := (sched ?a)\<lparr>tasks := ts\<rparr>, pending := evs, clock := 3000000000,
       fired := fired ?a @ fired_at_tick 3000000000 (tasks (sched ?a))\<rparr>"
  have "sched_step ?a ?l"
    by (rule sched_step.tick [OF _ _ _ c]) (simp_all add: start_state_def start_init_def)
  then have "loop_reach ?a ?l" by (simp add: loop_reach_def)
  from scheduler_events [OF demo(2,3) this]
  have "length (buffer (sched ?l)) \<le> 100 \<and> spaced 2000000000 0 (fired_of 0 (fired ?l))"
    by (simp add: demo new_task_def every_secs_def from_secs_def)
  moreover have "fired ?l = [(0, ?e)]"
    by (simp add: start_state_def start_init_def demo fired_at_tick_def check_task_def new_task_def every_secs_def
        calculate_next_run_def from_secs_def enumerate_eq_zip)
  moreover have "clock ?l < 5000000000" by simp
  ultimately show ?thesis by blast
qed

section \<open>One-time schedules\<close>

text \<open>The loop body over a sequence of tick times.\<close>

fun run_ticks :: "instant list \<Rightarrow> scheduled_task list \<Rightarrow> task_event list \<times> scheduled_task list" where
  "run_ticks [] ts = ([], ts)"
| "run_ticks (now # nows) ts =
     (let (evs, ts') = check_tasks now ts; (evs', ts'') = run_ticks nows ts' in (evs @ evs', ts''))"

lemma run_ticks_single:
  assumes "enabled t" and "next_run t = Some (now + period (st_schedule t))"
  shows "length (fst (run_ticks (map (\<lambda>i. now + Suc i * period (st_schedule t)) [0..<n]) [t])) = n"
  using assms
proof (induction n arbitrary: t now)
  case (Suc n)
  define t' where "t' = t\<lparr>last_run := Some (now + period (st_schedule t)),
      next_run := Some (calculate_next_run (st_schedule t) (now + period (st_schedule t)))\<rparr>"
  have c: "check_tasks (now + period (st_schedule t)) [t] =
      ([\<lparr>task_name = st_name t, scheduled_at = now + period (st_schedule t), triggered_at = now + period (st_schedule t)\<rparr>], [t'])"
    using Suc.prems by (simp add: check_task_def t'_def)
  have times: "map (\<lambda>i. now + Suc i * period (st_schedule t)) [0..<Suc n] =
      (now + period (st_schedule t)) #
      map (\<lambda>i. now + period (st_schedule t) + Suc i * period (st_schedule t)) [0..<n]"
    by (simp add: map_upt_Suc algebra_simps del: upt_Suc)
  have "length (fst (run_ticks (map (\<lambda>i. now + period (st_schedule t') + Suc i * period (st_schedule t')) [0..<n]) [t'])) = n"
    using Suc.prems by (intro Suc.IH) (simp_all add: t'_def next_run_period)
  then show ?case
    unfolding times by (simp add: c t'_def case_prod_beta del: check_tasks.simps)
qed simp

text \<open>A one-time task fires again and again: a task with the schedule \<^verbatim>\<open>Once(delay)\<close> that is started
  at time \<open>now\<close> sends \<open>n\<close> events in \<open>n\<close> delays, exactly as \<^verbatim>\<open>Interval(delay)\<close> does, although it is
  documented to run once.\<close>

theorem once_fires_again:
  "length (fst (run_ticks (map (\<lambda>i. now + Suc i * d) [0..<n])
      (tasks (start_init now (add_task (new_task a (once_after d)) new_scheduler))))) = n"
  using run_ticks_single [of "(new_task a (once_after d))\<lparr>next_run := Some (now + d)\<rparr>" now n]
  by (simp add: start_init_def add_task_def new_scheduler_def new_task_def once_after_def calculate_next_run_def)

end
