(* ===== verification/Decimals.thy ===== *)
theory Decimals
  imports F64
begin

text \<open>
  The interface of the \<^verbatim>\<open>rust_decimal\<close> crate: a type of decimals and the operations the modelled
  sources use on it, as the fields of a record. The operators panic on overflow and on division
  by zero, which is \<open>None\<close>. \<^verbatim>\<open>dec_new n s\<close> is \<^verbatim>\<open>Decimal::new(n, s)\<close>, that is \<open>n\<close> times ten to the
  minus \<open>s\<close>; \<^verbatim>\<open>dec_to_f64\<close> stands for \<^verbatim>\<open>to_string().parse::<f64>()\<close>.
\<close>

record 'd decimal_ops =
  dec_new :: "int \<Rightarrow> nat \<Rightarrow> 'd"
  dec_abs :: "'d \<Rightarrow> 'd"
  dec_gt :: "'d \<Rightarrow> 'd \<Rightarrow> bool"

record 'd decimal_arith = "'d decimal_ops" +
  dec_add :: "'d \<Rightarrow> 'd \<Rightarrow> 'd option"
  dec_sub :: "'d \<Rightarrow> 'd \<Rightarrow> 'd option"
  dec_mul :: "'d \<Rightarrow> 'd \<Rightarrow> 'd option"
  dec_div :: "'d \<Rightarrow> 'd \<Rightarrow> 'd option"
  dec_from_f64 :: "f64 \<Rightarrow> 'd option"
  dec_to_f64 :: "'d \<Rightarrow> f64 option"

text \<open>Conversions used where decimals are read from JSON and turned into raw token amounts:
  \<^verbatim>\<open>from_str\<close>, \<^verbatim>\<open>from_f64_retain\<close>, \<^verbatim>\<open>From\<close> of the integer types, \<^verbatim>\<open>trunc\<close> and \<^verbatim>\<open>to_i128\<close>.\<close>

record 'd decimal_json = "'d decimal_arith" +
  dec_from_str :: "string \<Rightarrow> 'd option"
  dec_from_f64_retain :: "f64 \<Rightarrow> 'd option"
  dec_from_int :: "int \<Rightarrow> 'd"
  dec_trunc :: "'d \<Rightarrow> 'd"
  dec_to_i128 :: "'d \<Rightarrow> int option"

definition dec_zero :: "('d, 'a) decimal_ops_scheme \<Rightarrow> 'd" where
  "dec_zero ops = dec_new ops 0 0"

definition dec_one :: "('d, 'a) decimal_ops_scheme \<Rightarrow> 'd" where
  "dec_one ops = dec_new ops 1 0"

text \<open>Decimals are totally ordered, so \<open>a \<ge> b\<close> is the negation of \<open>b > a\<close>, and equality is the
  absence of both strict comparisons.\<close>

definition dec_ge :: "('d, 'a) decimal_ops_scheme \<Rightarrow> 'd \<Rightarrow> 'd \<Rightarrow> bool" where
  "dec_ge ops a b \<longleftrightarrow> \<not> dec_gt ops b a"

definition dec_max :: "('d, 'a) decimal_ops_scheme \<Rightarrow> 'd \<Rightarrow> 'd \<Rightarrow> 'd" where
  "dec_max ops a b = (if dec_gt ops a b then a else b)"

definition dec_is_zero :: "('d, 'a) decimal_ops_scheme \<Rightarrow> 'd \<Rightarrow> bool" where
  "dec_is_zero ops a \<longleftrightarrow> \<not> dec_gt ops a (dec_zero ops) \<and> \<not> dec_gt ops (dec_zero ops) a"

text \<open>Folds that end at the first panic; \<^verbatim>\<open>Sum\<close> of decimals adds from zero.\<close>

fun fold_option :: "('a \<Rightarrow> 'b \<Rightarrow> 'b option) \<Rightarrow> 'a list \<Rightarrow> 'b \<Rightarrow> 'b option" where
  "fold_option f [] b = Some b"
| "fold_option f (x # xs) b = Option.bind (f x b) (fold_option f xs)"

definition dec_sum :: "('d, 'a) decimal_arith_scheme \<Rightarrow> 'd list \<Rightarrow> 'd option" where
  "dec_sum ops xs = fold_option (\<lambda>x acc. dec_add ops acc x) xs (dec_zero ops)"

end
