(* ===== verification/Circuit_Breaker.thy ===== *)
theory Circuit_Breaker
  imports Interfaces Decimals
begin

text \<open>
  \<^verbatim>\<open>crates/execution/src/emergency/circuit_breaker.rs\<close>: the circuit breaker that blocks trading
  after failures, losses or fees over a threshold. Each call is one step; an operation that reads
  the clock gets the time as an argument. Decimals (\<^verbatim>\<open>rust_decimal\<close>) are a type parameter; the
  operations the code uses on them are fields of \<open>decimal_ops\<close>. The state-change callback is
  never set or called by the code and is left out.
\<close>

datatype circuit_state = Closed | Open | HalfOpen

record 'd cb_config =
  max_failures :: u32
  max_loss_pct :: 'd
  max_priority_fee_lamports :: u64
  recovery_timeout_secs :: u64
  success_threshold :: u32

definition default_cb_config :: "'d decimal_ops \<Rightarrow> 'd cb_config" where
  "default_cb_config ops = \<lparr>max_failures = 3, max_loss_pct = dec_new ops 10 2,
     max_priority_fee_lamports = 100000000, recovery_timeout_secs = 300, success_threshold = 2\<rparr>"

record 'd circuit_breaker =
  cb_state :: circuit_state
  cb_conf :: "'d cb_config"
  failure_count :: u32
  success_count :: u32
  opened_at :: "instant option"
  manually_tripped :: bool

definition new_breaker :: "'d cb_config \<Rightarrow> 'd circuit_breaker" where
  "new_breaker cfg = \<lparr>cb_state = Closed, cb_conf = cfg, failure_count = 0, success_count = 0,
     opened_at = None, manually_tripped = False\<rparr>"

definition transition_to :: "circuit_state \<Rightarrow> 'd circuit_breaker \<Rightarrow> 'd circuit_breaker" where
  "transition_to new cb = (if cb_state cb \<noteq> new then cb\<lparr>cb_state := new\<rparr> else cb)"

definition trip :: "instant \<Rightarrow> 'd circuit_breaker \<Rightarrow> 'd circuit_breaker" where
  "trip now cb = (transition_to Open cb)\<lparr>opened_at := Some now, failure_count := 0\<rparr>"

definition is_allowed :: "instant \<Rightarrow> 'd circuit_breaker \<Rightarrow> bool \<times> 'd circuit_breaker" where
  "is_allowed now cb =
     (if manually_tripped cb then (False, cb)
      else (case cb_state cb of
              Closed \<Rightarrow> (True, cb)
            | Open \<Rightarrow>
                (case opened_at cb of
                   Some t \<Rightarrow>
                     if from_secs (unat (recovery_timeout_secs (cb_conf cb))) \<le> elapsed now t
                     then (True, transition_to HalfOpen cb)
                     else (False, cb)
                 | None \<Rightarrow> (False, cb))
            | HalfOpen \<Rightarrow> (True, cb)))"

definition cb_record_success :: "'d circuit_breaker \<Rightarrow> 'd circuit_breaker" where
  "cb_record_success cb =
     (let cb = cb\<lparr>failure_count := 0\<rparr>
      in if cb_state cb = HalfOpen then
           let cb = cb\<lparr>success_count := success_count cb + 1\<rparr>
           in if success_threshold (cb_conf cb) \<le> success_count cb
              then (transition_to Closed cb)\<lparr>success_count := 0\<rparr>
              else cb
         else cb)"

definition cb_record_failure :: "instant \<Rightarrow> 'd circuit_breaker \<Rightarrow> 'd circuit_breaker" where
  "cb_record_failure now cb =
     (let count = failure_count cb + 1;
          cb = cb\<lparr>failure_count := count, success_count := 0\<rparr>
      in case cb_state cb of
           Closed \<Rightarrow> if max_failures (cb_conf cb) \<le> count then trip now cb else cb
         | HalfOpen \<Rightarrow> trip now cb
         | Open \<Rightarrow> cb)"

definition check_loss :: "'d decimal_ops \<Rightarrow> instant \<Rightarrow> 'd \<Rightarrow> 'd circuit_breaker \<Rightarrow> bool \<times> 'd circuit_breaker" where
  "check_loss ops now loss_pct cb =
     (if dec_gt ops (dec_abs ops loss_pct) (max_loss_pct (cb_conf cb)) then (False, trip now cb) else (True, cb))"

definition check_priority_fee :: "instant \<Rightarrow> u64 \<Rightarrow> 'd circuit_breaker \<Rightarrow> bool \<times> 'd circuit_breaker" where
  "check_priority_fee now fee_lamports cb =
     (if max_priority_fee_lamports (cb_conf cb) < fee_lamports then (False, trip now cb) else (True, cb))"

definition manual_trip :: "instant \<Rightarrow> 'd circuit_breaker \<Rightarrow> 'd circuit_breaker" where
  "manual_trip now cb = trip now (cb\<lparr>manually_tripped := True\<rparr>)"

definition reset_manual_trip :: "'d circuit_breaker \<Rightarrow> 'd circuit_breaker" where
  "reset_manual_trip cb = cb\<lparr>manually_tripped := False\<rparr>"

definition reset :: "'d circuit_breaker \<Rightarrow> 'd circuit_breaker" where
  "reset cb = (transition_to Closed cb)\<lparr>failure_count := 0, success_count := 0, manually_tripped := False,
     opened_at := None\<rparr>"

section \<open>Calls as events\<close>

datatype 'd cb_call =
    IsAllowed instant
  | RecordSuccess
  | RecordFailure instant
  | CheckLoss instant 'd
  | CheckFee instant u64
  | ManualTrip instant
  | ResetManual
  | Reset

fun cb_step :: "'d decimal_ops \<Rightarrow> 'd circuit_breaker \<Rightarrow> 'd cb_call \<Rightarrow> 'd circuit_breaker" where
  "cb_step ops cb (IsAllowed now) = snd (is_allowed now cb)"
| "cb_step ops cb RecordSuccess = cb_record_success cb"
| "cb_step ops cb (RecordFailure now) = cb_record_failure now cb"
| "cb_step ops cb (CheckLoss now l) = snd (check_loss ops now l cb)"
| "cb_step ops cb (CheckFee now f) = snd (check_priority_fee now f cb)"
| "cb_step ops cb (ManualTrip now) = manual_trip now cb"
| "cb_step ops cb ResetManual = reset_manual_trip cb"
| "cb_step ops cb Reset = reset cb"

fun call_time :: "'d cb_call \<Rightarrow> instant option" where
  "call_time (IsAllowed now) = Some now"
| "call_time (RecordFailure now) = Some now"
| "call_time (CheckLoss now l) = Some now"
| "call_time (CheckFee now f) = Some now"
| "call_time (ManualTrip now) = Some now"
| "call_time _ = None"

lemmas cb_defs = is_allowed_def cb_record_success_def cb_record_failure_def
  check_loss_def check_priority_fee_def manual_trip_def reset_manual_trip_def reset_def Let_def

lemma transition_to_simps [simp]:
  "cb_state (transition_to st cb) = st" "cb_conf (transition_to st cb) = cb_conf cb"
  "failure_count (transition_to st cb) = failure_count cb" "success_count (transition_to st cb) = success_count cb"
  "opened_at (transition_to st cb) = opened_at cb" "manually_tripped (transition_to st cb) = manually_tripped cb"
  by (simp_all add: transition_to_def)

lemma trip_simps [simp]:
  "cb_state (trip now cb) = Open" "cb_conf (trip now cb) = cb_conf cb" "failure_count (trip now cb) = 0"
  "success_count (trip now cb) = success_count cb" "opened_at (trip now cb) = Some now"
  "manually_tripped (trip now cb) = manually_tripped cb"
  by (simp_all add: trip_def)

lemma cb_conf_step [simp]: "cb_conf (cb_step ops cb c) = cb_conf cb"
  by (cases c) (auto simp: cb_defs split: circuit_state.splits option.splits)

section \<open>The invariant\<close>

text \<open>With positive thresholds: an open circuit has its opening time, the counters of a closed
  circuit are below the failure threshold and zero, and the success counter never reaches its
  threshold.\<close>

definition cb_inv :: "'d cb_config \<Rightarrow> 'd circuit_breaker \<Rightarrow> bool" where
  "cb_inv cfg cb \<longleftrightarrow> cb_conf cb = cfg
     \<and> (cb_state cb = Open \<longrightarrow> opened_at cb \<noteq> None)
     \<and> (cb_state cb = Closed \<longrightarrow> unat (failure_count cb) < unat (max_failures cfg) \<and> success_count cb = 0)
     \<and> unat (success_count cb) < unat (success_threshold cfg)"

lemma cb_inv_step:
  assumes "cb_inv cfg cb" and "0 < unat (max_failures cfg)" and "0 < unat (success_threshold cfg)"
  shows "cb_inv cfg (cb_step ops cb c)"
proof -
  have s: "unat (success_count cb + 1) = Suc (unat (success_count cb))"
    using assms(1) by (intro unat_plus_one [of _ "success_threshold cfg"]) (simp add: cb_inv_def)
  have f: "unat (failure_count cb + 1) = Suc (unat (failure_count cb))" if "cb_state cb = Closed"
    using assms(1) that by (intro unat_plus_one [of _ "max_failures cfg"]) (simp add: cb_inv_def)
  show ?thesis
    by (cases c) (use assms s f in \<open>auto simp: cb_inv_def cb_defs word_le_nat_alt
        split: circuit_state.splits option.splits if_splits\<close>)
qed

lemma cb_guarded:
  "0 < unat (max_failures cfg) \<Longrightarrow> 0 < unat (success_threshold cfg) \<Longrightarrow>
   guarded_system (cb_step ops) (cb_inv cfg)"
  by unfold_locales (rule cb_inv_step)

interpretation cb_default: guarded_system "cb_step ops" "cb_inv (default_cb_config ops)"
  for ops :: "'d decimal_ops"
  by (rule cb_guarded) (simp_all add: default_cb_config_def)

section \<open>Opening\<close>

fun outcome :: "'d circuit_breaker \<Rightarrow> bool \<times> instant \<Rightarrow> 'd circuit_breaker" where
  "outcome cb (ok, now) = (if ok then cb_record_success cb else cb_record_failure now cb)"

lemma outcome_open: "cb_state cb = Open \<Longrightarrow> cb_state (foldl outcome cb os) = Open"
proof (induction os arbitrary: cb)
  case (Cons x os)
  have "cb_state (outcome cb x) = Open"
    using Cons.prems by (cases x) (simp add: cb_defs)
  then show ?case using Cons.IH by simp
qed simp

lemma sublist_replicate_break:
  assumes "k < n" and "a \<noteq> b"
  shows "sublist (replicate n a) (replicate k a @ b # ys) \<longleftrightarrow> sublist (replicate n a) ys"
proof
  assume "sublist (replicate n a) (replicate k a @ b # ys)"
  with assms(1) show "sublist (replicate n a) ys"
  proof (induction k)
    case 0
    from 0 assms(2) have "\<not> prefix (replicate n a) (b # ys)" by (cases n) auto
    with 0 show ?case by (simp add: sublist_Cons_right)
  next
    case (Suc k)
    have "\<not> prefix (replicate n a) (replicate (Suc k) a @ b # ys)"
    proof
      assume "prefix (replicate n a) (replicate (Suc k) a @ b # ys)"
      then have "replicate n a ! Suc k = (replicate (Suc k) a @ b # ys) ! Suc k"
        using Suc.prems(1) by (metis length_replicate nth_append prefixE)
      with Suc.prems(1) assms(2) show False by (simp add: nth_append)
    qed
    with Suc show ?case by (simp add: sublist_Cons_right)
  qed
next
  assume "sublist (replicate n a) ys"
  then show "sublist (replicate n a) (replicate k a @ b # ys)"
    by (metis append_Cons append_assoc append_eq_Cons_conv sublist_def)
qed

lemma outcome_closed:
  assumes "cb_inv cfg cb" and "cb_state cb = Closed" and "0 < unat (success_threshold cfg)"
  shows "cb_state (foldl outcome cb os) =
    (if sublist (replicate (unat (max_failures cfg)) False)
          (replicate (unat (failure_count cb)) False @ map fst os) then Open else Closed)"
  using assms(1,2)
proof (induction os arbitrary: cb)
  case Nil
  then have "\<not> sublist (replicate (unat (max_failures cfg)) False) (replicate (unat (failure_count cb)) False)"
    by (auto simp: cb_inv_def dest: sublist_length_le)
  with Nil show ?case by simp
next
  case (Cons x os)
  obtain ok now where x: "x = (ok, now)" by fastforce
  let ?n = "unat (max_failures cfg)" and ?k = "unat (failure_count cb)"
  have kn: "?k < ?n" "cb_conf cb = cfg" using Cons.prems by (auto simp: cb_inv_def)
  then have inv: "cb_inv cfg (outcome cb x)"
    using cb_inv_step [of cfg cb undefined RecordSuccess] cb_inv_step [of cfg cb undefined "RecordFailure now"]
      Cons.prems(1) assms(3) x by (cases ok) simp_all
  show ?case
  proof (cases ok)
    case True
    have "failure_count (outcome cb x) = 0" "cb_state (outcome cb x) = Closed"
      using Cons.prems True x by (simp_all add: cb_record_success_def Let_def)
    with Cons.IH [OF inv] x True kn show ?thesis by (simp add: sublist_replicate_break)
  next
    case False
    have k1: "unat (failure_count cb + 1) = Suc ?k" using kn by (intro unat_plus_one)
    have eq: "replicate ?k False @ map fst (x # os) = replicate (Suc ?k) False @ map fst os"
      using False x by (simp add: replicate_append_same [symmetric])
    show ?thesis
    proof (cases "?n \<le> Suc ?k")
      case True
      then have "?n = Suc ?k" using kn by simp
      then have "sublist (replicate ?n False) (replicate ?k False @ map fst (x # os))"
        unfolding eq by (metis prefixI prefix_imp_sublist)
      moreover have "cb_state (outcome cb x) = Open"
        using True False x Cons.prems k1 kn by (simp add: cb_record_failure_def Let_def word_le_nat_alt)
      ultimately show ?thesis by (simp add: outcome_open del: map_eq_conv list.map)
    next
      case noopen: False
      then have "unat (failure_count (outcome cb x)) = Suc ?k" "cb_state (outcome cb x) = Closed"
        using False x Cons.prems k1 kn by (simp_all add: cb_record_failure_def Let_def word_le_nat_alt)
      with Cons.IH [OF inv] show ?thesis unfolding eq by simp
    qed
  qed
qed

text \<open>C28. A new circuit breaker is open after a sequence of recorded outcomes exactly if the sequence
  contains \<^verbatim>\<open>max_failures\<close> failures in a row; otherwise it is closed.\<close>

theorem cb_opens_on_consecutive_failures:
  assumes "0 < unat (max_failures cfg)" and "0 < unat (success_threshold cfg)"
  shows "cb_state (foldl outcome (new_breaker cfg) os) =
    (if sublist (replicate (unat (max_failures cfg)) False) (map fst os) then Open else Closed)"
  using outcome_closed [of cfg "new_breaker cfg" os] assms by (simp add: cb_inv_def new_breaker_def)

definition unit_config :: "unit cb_config" where
  "unit_config = \<lparr>max_failures = 2, max_loss_pct = (), max_priority_fee_lamports = 9,
     recovery_timeout_secs = 300, success_threshold = 2\<rparr>"

theorem cb_opens_on_consecutive_failures_witness:
  "cb_state (foldl outcome (new_breaker unit_config) [(False, 0), (True, 1), (False, 2), (False, 3)]) = Open
   \<and> cb_state (foldl outcome (new_breaker unit_config) [(False, 0), (True, 1), (False, 2)]) = Closed"
proof -
  have two: "replicate 2 False = [False, False]" by (simp add: numeral_2_eq_2)
  show ?thesis
    using cb_opens_on_consecutive_failures [of unit_config "[(False, 0), (True, 1), (False, 2), (False, 3)]"]
      cb_opens_on_consecutive_failures [of unit_config "[(False, 0), (True, 1), (False, 2)]"]
    by (simp add: unit_config_def sublist_Cons_right two)
qed

section \<open>Blocking and recovery\<close>

definition blocked :: "instant \<Rightarrow> u64 \<Rightarrow> 'd circuit_breaker \<Rightarrow> bool" where
  "blocked t timeout_secs cb \<longleftrightarrow> cb_state cb = Open \<and> recovery_timeout_secs (cb_conf cb) = timeout_secs
     \<and> (\<exists>u. opened_at cb = Some u \<and> t \<le> u)"

lemma blocked_not_allowed:
  "blocked t timeout_secs cb \<Longrightarrow> t \<le> now \<Longrightarrow> now < t + from_secs (unat timeout_secs) \<Longrightarrow> is_allowed now cb = (False, cb)"
  by (auto simp: blocked_def is_allowed_def elapsed_def)

lemma blocked_step:
  assumes "blocked t timeout_secs cb" and "c \<noteq> Reset"
    and "case call_time c of None \<Rightarrow> True | Some now \<Rightarrow> t \<le> now \<and> now < t + from_secs (unat timeout_secs)"
  shows "blocked t timeout_secs (cb_step ops cb c)"
proof (cases c)
  case (IsAllowed now)
  with assms show ?thesis by (simp add: blocked_not_allowed)
qed (use assms in \<open>auto simp: blocked_def cb_record_success_def cb_record_failure_def check_loss_def
  check_priority_fee_def manual_trip_def reset_manual_trip_def Let_def\<close>)

lemma blocked_run:
  "blocked t timeout_secs cb \<Longrightarrow> Reset \<notin> set cs \<Longrightarrow>
   (\<forall>c \<in> set cs. case call_time c of None \<Rightarrow> True | Some now \<Rightarrow> t \<le> now \<and> now < t + from_secs (unat timeout_secs)) \<Longrightarrow>
   blocked t timeout_secs (foldl (cb_step ops) cb cs)"
  by (induction cs arbitrary: cb) (simp_all, metis blocked_step)

lemma manual_step:
  "manually_tripped cb \<Longrightarrow> c \<noteq> Reset \<Longrightarrow> c \<noteq> ResetManual \<Longrightarrow> manually_tripped (cb_step ops cb c)"
  by (cases c) (auto simp: cb_defs split: circuit_state.splits option.splits)

lemma manual_run:
  "manually_tripped cb \<Longrightarrow> {Reset, ResetManual} \<inter> set cs = {} \<Longrightarrow> manually_tripped (foldl (cb_step ops) cb cs)"
  by (induction cs arbitrary: cb) (auto intro: manual_step)

text \<open>C29. Once tripped at time \<open>t\<close>, for whatever reason, the breaker refuses every operation until the
  recovery timeout has passed, whatever calls other than a reset are made meanwhile; after a
  manual trip it refuses at every time until the flag or the breaker is reset.\<close>

theorem cb_blocks_until_timeout:
  assumes "Reset \<notin> set cs"
    and "\<forall>c \<in> set cs. case call_time c of None \<Rightarrow> True
           | Some u \<Rightarrow> t \<le> u \<and> u < t + from_secs (unat (recovery_timeout_secs (cb_conf cb)))"
    and "t \<le> now" and "now < t + from_secs (unat (recovery_timeout_secs (cb_conf cb)))"
  shows "fst (is_allowed now (foldl (cb_step ops) (trip t cb) cs)) = False
    \<and> ({Reset, ResetManual} \<inter> set ds = {} \<longrightarrow> fst (is_allowed any (foldl (cb_step ops) (manual_trip t cb) ds)) = False)"
proof -
  have "blocked t (recovery_timeout_secs (cb_conf cb)) (foldl (cb_step ops) (trip t cb) cs)"
    using assms by (intro blocked_run) (auto simp: blocked_def)
  moreover have "manually_tripped (manual_trip t cb)" by (simp add: manual_trip_def)
  then have "manually_tripped (foldl (cb_step ops) (manual_trip t cb) ds)" if "{Reset, ResetManual} \<inter> set ds = {}"
    using that by (rule manual_run)
  ultimately show ?thesis
    using assms(3,4) by (simp add: blocked_not_allowed) (simp add: is_allowed_def)
qed

definition unit_ops :: "unit decimal_ops" where
  "unit_ops = \<lparr>dec_new = (\<lambda>_ _. ()), dec_abs = (\<lambda>_. ()), dec_gt = (\<lambda>_ _. False)\<rparr>"

theorem cb_blocks_until_timeout_witness:
  "fst (is_allowed 9000000000 (foldl (cb_step unit_ops) (trip 0 (new_breaker unit_config))
      [RecordSuccess, RecordFailure 1000000000, IsAllowed 2000000000])) = False
   \<and> fst (is_allowed 999000000000 (manual_trip 0 (new_breaker unit_config))) = False"
  using cb_blocks_until_timeout [of "[RecordSuccess, RecordFailure 1000000000, IsAllowed 2000000000]" 0
      "new_breaker unit_config" 9000000000 unit_ops "[]" 999000000000]
  by (simp add: unit_config_def new_breaker_def from_secs_def)

text \<open>A run of successes in the half-open state.\<close>

lemma half_open_successes:
  assumes "cb_state cb = HalfOpen" and "unat (success_count cb) + n < unat (success_threshold (cb_conf cb))"
  shows "cb_state ((cb_record_success ^^ n) cb) = HalfOpen
    \<and> unat (success_count ((cb_record_success ^^ n) cb)) = unat (success_count cb) + n
    \<and> cb_conf ((cb_record_success ^^ n) cb) = cb_conf cb"
  using assms(2)
proof (induction n)
  case (Suc n)
  then have IH: "cb_state ((cb_record_success ^^ n) cb) = HalfOpen"
    "unat (success_count ((cb_record_success ^^ n) cb)) = unat (success_count cb) + n"
    "cb_conf ((cb_record_success ^^ n) cb) = cb_conf cb" by simp_all
  then have "unat (success_count ((cb_record_success ^^ n) cb) + 1) = Suc (unat (success_count cb) + n)"
    using Suc.prems unat_plus_one [of "success_count ((cb_record_success ^^ n) cb)" "success_threshold (cb_conf cb)"]
    by simp
  with IH Suc.prems show ?case
    by (simp add: cb_record_success_def [of "(cb_record_success ^^ n) cb"] Let_def word_le_nat_alt)
qed (simp add: assms(1))

text \<open>Recovery: a tripped breaker lets the first operation after the timeout through and goes
  half-open; from there a failure opens it again, and successes close it exactly when their
  number reaches the threshold (the success counter being zero when recovery starts).\<close>

theorem cb_recovery:
  assumes "t + from_secs (unat (recovery_timeout_secs (cb_conf cb))) \<le> now" and "\<not> manually_tripped cb"
    and "success_count cb = 0" and "0 < unat (success_threshold (cb_conf cb))"
    and "is_allowed now (trip t cb) = (ok, h)"
  shows "ok \<and> cb_state h = HalfOpen \<and> fst (is_allowed u h)
    \<and> cb_state (cb_record_failure u h) = Open \<and> opened_at (cb_record_failure u h) = Some u
    \<and> (\<forall>n < unat (success_threshold (cb_conf cb)). cb_state ((cb_record_success ^^ n) h) = HalfOpen)
    \<and> cb_state ((cb_record_success ^^ unat (success_threshold (cb_conf cb))) h) = Closed"
proof -
  have ok: "ok" and h: "h = transition_to HalfOpen (trip t cb)"
    using assms(1,2,5) by (auto simp: is_allowed_def elapsed_def split: if_splits)
  obtain m where m: "unat (success_threshold (cb_conf cb)) = Suc m" using assms(4) by (cases "unat (success_threshold (cb_conf cb))") auto
  let ?s = "(cb_record_success ^^ m) h"
  have s: "cb_state ?s = HalfOpen" "unat (success_count ?s) = m" "cb_conf ?s = cb_conf cb"
    using half_open_successes [of h m] assms(3) m by (simp_all add: h)
  have "unat (success_count ?s + 1) = Suc m"
    using unat_plus_one [of "success_count ?s" "success_threshold (cb_conf cb)"] s(2) m by simp
  with s m have "cb_state ((cb_record_success ^^ Suc m) h) = Closed"
    by (simp add: cb_record_success_def [of ?s] Let_def word_le_nat_alt)
  moreover have "cb_state ((cb_record_success ^^ n) h) = HalfOpen" if "n < Suc m" for n
    using half_open_successes [of h n] that m assms(3) by (simp add: h)
  ultimately show ?thesis
    using ok assms(2) m by (simp add: h is_allowed_def cb_record_failure_def Let_def del: funpow.simps)
qed

theorem cb_recovery_witness:
  "fst (is_allowed 300000000000 (trip 0 (new_breaker unit_config)))
   \<and> cb_state ((cb_record_success ^^ 2) (snd (is_allowed 300000000000 (trip 0 (new_breaker unit_config))))) = Closed"
  using cb_recovery [of 0 "new_breaker unit_config" 300000000000
      "fst (is_allowed 300000000000 (trip 0 (new_breaker unit_config)))"
      "snd (is_allowed 300000000000 (trip 0 (new_breaker unit_config)))" 0]
  by (simp add: unit_config_def new_breaker_def from_secs_def)

text \<open>The success counter survives a trip by the loss or the fee check, so that the successes that
  close the circuit need not be consecutive nor all follow the last recovery: with threshold two,
  one success, a fee trip, a recovery and one more success close it.\<close>

lemma cb_stale_success_count:
  "cb_state (foldl (cb_step ops) (trip 0 (new_breaker unit_config))
      [IsAllowed 300000000000, RecordSuccess, CheckFee 300000000000 10, IsAllowed 600000000000]) = HalfOpen
   \<and> cb_state (foldl (cb_step ops) (trip 0 (new_breaker unit_config))
      [IsAllowed 300000000000, RecordSuccess, CheckFee 300000000000 10, IsAllowed 600000000000, RecordSuccess]) = Closed"
  by (simp add: unit_config_def new_breaker_def from_secs_def is_allowed_def elapsed_def cb_record_success_def
      Let_def check_priority_fee_def trip_def transition_to_def word_le_nat_alt word_less_nat_alt)

end
