(* ===== verification/Emergency_Exit.thy ===== *)
theory Emergency_Exit
  imports Prelude
begin

text \<open>
  \<^verbatim>\<open>crates/execution/src/emergency/emergency_exit.rs\<close>: the emergency exit of positions in three
  steps (collect fees, remove the liquidity, close). The position monitor and the rebalance
  executor are other components with state of their own: they are fields of an environment over
  an abstract world \<open>'w\<close>, read and changed at each step.
\<close>

datatype exit_status = Pending | CollectingFees | DecreasingLiquidity | ClosingPosition | Completed | ExitFailed

record exit_result =
  er_position :: pubkey
  er_status :: exit_status
  er_error :: "string option"
  fees_collected :: "(u64 \<times> u64) option"
  liquidity_removed :: "u128 option"

record emergency_exit_config =
  collect_fees_first :: bool
  max_slippage_bps :: u16
  retry_on_failure :: bool
  ee_max_retries :: u32

definition default_exit_config :: emergency_exit_config where
  "default_exit_config = \<lparr>collect_fees_first = True, max_slippage_bps = 100, retry_on_failure = True, ee_max_retries = 3\<rparr>"

record 'w rebalance_executor =
  emergency_collect_fees :: "pubkey \<Rightarrow> pubkey \<Rightarrow> 'w \<Rightarrow> (string + u64 \<times> u64) \<times> 'w"
  emergency_decrease_all_liquidity :: "pubkey \<Rightarrow> pubkey \<Rightarrow> 'w \<Rightarrow> (string + u128) \<times> 'w"
  emergency_close_position :: "pubkey \<Rightarrow> pubkey \<Rightarrow> 'w \<Rightarrow> (string + unit) \<times> 'w"

record 'w exit_manager =
  monitored_pool :: "'w \<Rightarrow> pubkey \<Rightarrow> pubkey option"
  monitored_positions :: "'w \<Rightarrow> pubkey list"
  executor :: "'w rebalance_executor option"
  ee_config :: emergency_exit_config
  results :: "exit_result list"
  in_progress :: bool

definition new_exit_manager ::
    "('w \<Rightarrow> pubkey \<Rightarrow> pubkey option) \<Rightarrow> ('w \<Rightarrow> pubkey list) \<Rightarrow> emergency_exit_config \<Rightarrow> 'w exit_manager" where
  "new_exit_manager pool_of positions cfg = \<lparr>monitored_pool = pool_of, monitored_positions = positions, executor = None,
     ee_config = cfg, results = [], in_progress = False\<rparr>"

definition new_with_rebalance ::
    "('w \<Rightarrow> pubkey \<Rightarrow> pubkey option) \<Rightarrow> ('w \<Rightarrow> pubkey list) \<Rightarrow> 'w rebalance_executor \<Rightarrow> emergency_exit_config
     \<Rightarrow> 'w exit_manager" where
  "new_with_rebalance pool_of positions r cfg = (new_exit_manager pool_of positions cfg)\<lparr>executor := Some r\<rparr>"

definition collect_fees :: "'w exit_manager \<Rightarrow> pubkey \<Rightarrow> 'w \<Rightarrow> (string + u64 \<times> u64) \<times> 'w" where
  "collect_fees m pos w =
     (case monitored_pool m w pos of
        None \<Rightarrow> (Inl ''position not in monitor'', w)
      | Some pool \<Rightarrow>
          (case executor m of
             Some r \<Rightarrow> emergency_collect_fees r pos pool w
           | None \<Rightarrow> (Inr (0, 0), w)))"

definition decrease_all_liquidity :: "'w exit_manager \<Rightarrow> pubkey \<Rightarrow> 'w \<Rightarrow> (string + u128) \<times> 'w" where
  "decrease_all_liquidity m pos w =
     (case monitored_pool m w pos of
        None \<Rightarrow> (Inl ''position not in monitor'', w)
      | Some pool \<Rightarrow>
          (case executor m of
             Some r \<Rightarrow> emergency_decrease_all_liquidity r pos pool w
           | None \<Rightarrow> (Inr 0, w)))"

definition close_position :: "'w exit_manager \<Rightarrow> pubkey \<Rightarrow> 'w \<Rightarrow> (string + unit) \<times> 'w" where
  "close_position m pos w =
     (case monitored_pool m w pos of
        None \<Rightarrow> (Inl ''position not in monitor'', w)
      | Some pool \<Rightarrow>
          (case executor m of
             Some r \<Rightarrow> emergency_close_position r pos pool w
           | None \<Rightarrow> (Inr (), w)))"

definition exit_position :: "'w exit_manager \<Rightarrow> pubkey \<Rightarrow> 'w \<Rightarrow> exit_result \<times> 'w" where
  "exit_position m pos w =
     (let result = \<lparr>er_position = pos, er_status = Pending, er_error = None, fees_collected = None,
            liquidity_removed = None\<rparr>;
          (result, w) = (if collect_fees_first (ee_config m) then
              let result = result\<lparr>er_status := CollectingFees\<rparr>
              in case collect_fees m pos w of
                   (Inr fees, w) \<Rightarrow> (result\<lparr>fees_collected := Some fees\<rparr>, w)
                 | (Inl _, w) \<Rightarrow> (result, w)
            else (result, w));
          result = result\<lparr>er_status := DecreasingLiquidity\<rparr>
      in case decrease_all_liquidity m pos w of
           (Inl e, w) \<Rightarrow> (result\<lparr>er_status := ExitFailed, er_error := Some e\<rparr>, w)
         | (Inr liq, w) \<Rightarrow>
             let result = result\<lparr>liquidity_removed := Some liq, er_status := ClosingPosition\<rparr>
             in case close_position m pos w of
                  (Inr _, w) \<Rightarrow> (result\<lparr>er_status := Completed\<rparr>, w)
                | (Inl e, w) \<Rightarrow> (result\<lparr>er_status := ExitFailed, er_error := Some e\<rparr>, w))"

fun exit_loop :: "'w exit_manager \<Rightarrow> pubkey list \<Rightarrow> 'w \<Rightarrow> exit_result list \<times> 'w" where
  "exit_loop m [] w = ([], w)"
| "exit_loop m (p # ps) w =
     (let (r, w) = exit_position m p w; (rs, w) = exit_loop m ps w in (r # rs, w))"

definition exit_all :: "'w exit_manager \<Rightarrow> 'w \<Rightarrow> exit_result list \<times> 'w exit_manager \<times> 'w" where
  "exit_all m w =
     (if in_progress m then (results m, m, w)
      else
        let m = m\<lparr>in_progress := True\<rparr>;
            (rs, w) = exit_loop m (monitored_positions m w) w
        in (rs, m\<lparr>results := rs, in_progress := False\<rparr>, w))"

section \<open>What an exit reports\<close>

text \<open>The calls an exit makes on the executor, in order, with their outcomes: the specification of
  the three steps as a sequence.\<close>

definition after_fees :: "'w exit_manager \<Rightarrow> pubkey \<Rightarrow> 'w \<Rightarrow> 'w" where
  "after_fees m pos w = (if collect_fees_first (ee_config m) then snd (collect_fees m pos w) else w)"

lemma exit_position_cases:
  assumes "exit_position m pos w = (r, w')"
  shows "er_position r = pos
    \<and> fees_collected r = (if collect_fees_first (ee_config m)
         then (case fst (collect_fees m pos w) of Inr f \<Rightarrow> Some f | Inl _ \<Rightarrow> None) else None)
    \<and> (case decrease_all_liquidity m pos (after_fees m pos w) of
         (Inl e, w1) \<Rightarrow> er_status r = ExitFailed \<and> er_error r = Some e \<and> liquidity_removed r = None \<and> w' = w1
       | (Inr liq, w1) \<Rightarrow> liquidity_removed r = Some liq
           \<and> (case close_position m pos w1 of
                (Inl e, w2) \<Rightarrow> er_status r = ExitFailed \<and> er_error r = Some e \<and> w' = w2
              | (Inr _, w2) \<Rightarrow> er_status r = Completed \<and> er_error r = None \<and> w' = w2))"
proof -
  obtain f wf where f: "collect_fees m pos w = (f, wf)" by fastforce
  obtain d w1 where d: "decrease_all_liquidity m pos (after_fees m pos w) = (d, w1)" by fastforce
  obtain c w2 where c: "close_position m pos w1 = (c, w2)" by fastforce
  show ?thesis
    using assms d c
    by (cases "collect_fees_first (ee_config m)"; cases f; cases d; cases c)
       (simp_all add: exit_position_def after_fees_def f, auto)
qed

text \<open>An emergency exit with an executor reports completion exactly when, after the optional fee
  collection, the liquidity was removed and then the position was closed by the executor, in that
  order; the liquidity it reports is the one the executor removed, a failed removal stops the exit
  before the close, and a failed fee collection does not stop it.\<close>

theorem exit_position_completed:
  assumes "executor m = Some x" and "exit_position m pos w = (r, w')"
  shows "(er_status r = Completed \<longleftrightarrow>
      (\<exists>pool liq w1 pool'. monitored_pool m (after_fees m pos w) pos = Some pool
         \<and> emergency_decrease_all_liquidity x pos pool (after_fees m pos w) = (Inr liq, w1)
         \<and> monitored_pool m w1 pos = Some pool'
         \<and> emergency_close_position x pos pool' w1 = (Inr (), w') \<and> liquidity_removed r = Some liq))
    \<and> (er_status r \<noteq> Completed \<longrightarrow> er_status r = ExitFailed \<and> er_error r \<noteq> None)
    \<and> (liquidity_removed r = None \<longrightarrow> w' = snd (decrease_all_liquidity m pos (after_fees m pos w)))"
proof -
  let ?w = "after_fees m pos w"
  obtain d w1 where d: "decrease_all_liquidity m pos ?w = (d, w1)" by fastforce
  obtain c w2 where c: "close_position m pos w1 = (c, w2)" by fastforce
  note out = exit_position_cases [OF assms(2), unfolded d prod.case c]
  have d_ok: "d = Inr liq \<longleftrightarrow> (\<exists>pool. monitored_pool m ?w pos = Some pool
      \<and> emergency_decrease_all_liquidity x pos pool ?w = (Inr liq, w1))" for liq
    using d assms(1) by (auto simp: decrease_all_liquidity_def split: option.splits)
  have c_ok: "c = Inr () \<longleftrightarrow> (\<exists>pool. monitored_pool m w1 pos = Some pool
      \<and> emergency_close_position x pos pool w1 = (Inr (), w2))"
    using c assms(1) by (auto simp: close_position_def split: option.splits)
  show ?thesis
  proof (cases d)
    case (Inl e)
    with out d assms(1) show ?thesis by (auto simp: decrease_all_liquidity_def split: option.splits)
  next
    case (Inr liq)
    with d_ok obtain pool where p: "monitored_pool m ?w pos = Some pool"
      "emergency_decrease_all_liquidity x pos pool ?w = (Inr liq, w1)" by blast
    show ?thesis
    proof (cases c)
      case (Inl e)
      with out p c c_ok \<open>d = Inr liq\<close> show ?thesis by auto
    next
      case (Inr u)
      then have u: "c = Inr ()" by simp
      with c_ok obtain pool' where "monitored_pool m w1 pos = Some pool'"
        "emergency_close_position x pos pool' w1 = (Inr (), w2)" by blast
      with out p u \<open>d = Inr liq\<close> show ?thesis by simp
    qed
  qed
qed

text \<open>An executor that counts its calls and succeeds.\<close>

definition counting_executor :: "nat rebalance_executor" where
  "counting_executor = \<lparr>emergency_collect_fees = (\<lambda>_ _ w. (Inl ''rpc'', w + 1)),
     emergency_decrease_all_liquidity = (\<lambda>_ _ w. (Inr 9, w + 1)),
     emergency_close_position = (\<lambda>_ _ w. (Inr (), w + 1))\<rparr>"

definition counting_manager :: "nat exit_manager" where
  "counting_manager = new_with_rebalance (\<lambda>_ _. Some [1]) (\<lambda>_. [[2]]) counting_executor default_exit_config"

theorem exit_position_completed_witness:
  "er_status (fst (exit_position counting_manager [2] 0)) = Completed
   \<and> liquidity_removed (fst (exit_position counting_manager [2] 0)) = Some 9
   \<and> snd (exit_position counting_manager [2] 0) = 3"
proof -
  have x: "executor counting_manager = Some counting_executor"
    by (simp add: counting_manager_def new_with_rebalance_def)
  obtain r w' where e: "exit_position counting_manager [2] 0 = (r, w')" by fastforce
  have "(r, w') = (\<lparr>er_position = [2], er_status = Completed, er_error = None, fees_collected = None,
      liquidity_removed = Some 9\<rparr>, 3)"
    unfolding e [symmetric]
    by (simp add: exit_position_def counting_manager_def new_with_rebalance_def new_exit_manager_def
        default_exit_config_def collect_fees_def decrease_all_liquidity_def close_position_def counting_executor_def Let_def)
  with exit_position_completed [OF x e] e show ?thesis by simp
qed

text \<open>Without an executor every monitored position is reported as completely exited although
  nothing is done.\<close>

lemma no_executor_reports_completed:
  assumes "executor m = None" and "monitored_pool m w pos = Some pool"
  shows "er_status (fst (exit_position m pos w)) = Completed \<and> snd (exit_position m pos w) = w"
  using assms by (simp add: exit_position_def collect_fees_def decrease_all_liquidity_def close_position_def Let_def)

section \<open>Exiting all positions\<close>

lemma exit_loop_results: "map er_position (fst (exit_loop m ps w)) = ps"
proof (induction ps arbitrary: w)
  case (Cons p ps)
  obtain r w1 where r: "exit_position m p w = (r, w1)" by fastforce
  from exit_position_cases [OF r] have "er_position r = p" by blast
  with Cons [of w1] r show ?case by (simp add: case_prod_beta)
qed simp

lemma exit_all_results:
  assumes "\<not> in_progress m" and "exit_all m w = (rs, m', w')"
  shows "map er_position rs = monitored_positions m w \<and> results m' = rs \<and> \<not> in_progress m'"
  using assms exit_loop_results [of "m\<lparr>in_progress := True\<rparr>" "monitored_positions m w" w]
  by (auto simp: exit_all_def Let_def split: prod.splits)

end
