(* ===== verification/Account_Sync.thy ===== *)
theory Account_Sync
  imports Interfaces
begin

text \<open>
  \<^verbatim>\<open>crates/execution/src/sync\<close>: the reconciler (\<^verbatim>\<open>reconciler.rs\<close>) that keeps the local view of
  tracked accounts in step with the chain, and the account listener (\<^verbatim>\<open>account_listener.rs\<close>) with
  its subscriptions and reconnect loop. Both hold their state behind locks that are released while
  they await; what other tasks do in the meantime is a parameter (\<open>during\<close>), as are the answers
  of the RPC provider and the clock.
\<close>

section \<open>The reconciler\<close>

datatype reconcile_status = InSync | NeedsUpdate | Updating | Failed

record account_state =
  rs_address :: pubkey
  last_slot :: u64
  last_update :: instant
  status :: reconcile_status
  rs_failure_count :: u32

record reconciler_config =
  max_age_secs :: u64
  reconcile_interval_secs :: u64
  rc_max_failures :: u32

definition default_reconciler_config :: reconciler_config where
  "default_reconciler_config = \<lparr>max_age_secs = 60, reconcile_interval_secs = 30, rc_max_failures = 3\<rparr>"

record account_update =
  au_address :: pubkey
  slot :: u64
  au_data :: "u8 list"
  lamports :: u64
  owner :: pubkey

record reconciler =
  rc_config :: reconciler_config
  accounts :: "(pubkey \<times> account_state) list"
  current_slot :: u64

definition new_reconciler :: "reconciler_config \<Rightarrow> reconciler" where
  "new_reconciler cfg = \<lparr>rc_config = cfg, accounts = [], current_slot = 0\<rparr>"

definition track_account :: "instant \<Rightarrow> pubkey \<Rightarrow> reconciler \<Rightarrow> reconciler" where
  "track_account now a r = r\<lparr>accounts := AList.update a
     \<lparr>rs_address = a, last_slot = 0, last_update = now, status = NeedsUpdate, rs_failure_count = 0\<rparr> (accounts r)\<rparr>"

definition untrack_account :: "pubkey \<Rightarrow> reconciler \<Rightarrow> reconciler" where
  "untrack_account a r = r\<lparr>accounts := AList.delete a (accounts r)\<rparr>"

definition modify_account :: "pubkey \<Rightarrow> (account_state \<Rightarrow> account_state) \<Rightarrow> reconciler \<Rightarrow> reconciler" where
  "modify_account a f r = r\<lparr>accounts := AList.map_entry a f (accounts r)\<rparr>"

definition process_update :: "instant \<Rightarrow> account_update \<Rightarrow> reconciler \<Rightarrow> reconciler" where
  "process_update now u r = modify_account (au_address u)
     (\<lambda>s. s\<lparr>last_slot := slot u, last_update := now, status := InSync, rs_failure_count := 0\<rparr>) r"

datatype sync_call = Track instant pubkey | Untrack pubkey | Update instant account_update

fun sync_step :: "reconciler \<Rightarrow> sync_call \<Rightarrow> reconciler" where
  "sync_step r (Track now a) = track_account now a r"
| "sync_step r (Untrack a) = untrack_account a r"
| "sync_step r (Update now u) = process_update now u r"

text \<open>What a cycle sees of its environment: the slot the provider reports, whether the fetch of an
  account succeeds, when it completes, and the calls other tasks make while it is awaited.\<close>

record sync_env =
  get_slot :: "u64 option"
  get_account_ok :: "pubkey \<Rightarrow> bool"
  done_at :: "pubkey \<Rightarrow> instant"
  during :: "pubkey \<Rightarrow> sync_call list"

record reconcile_result =
  res_current_slot :: u64
  in_sync :: u32
  reconciled :: u32
  failed :: u32

definition fetch_current_slot :: "sync_env \<Rightarrow> u64" where
  "fetch_current_slot env = (case get_slot env of None \<Rightarrow> 0 | Some s \<Rightarrow> s)"

definition needs_reconcile :: "reconciler_config \<Rightarrow> instant \<Rightarrow> account_state \<Rightarrow> bool" where
  "needs_reconcile cfg now s \<longleftrightarrow>
     from_secs (unat (max_age_secs cfg)) < elapsed now (last_update s) \<or> status s = NeedsUpdate"

definition reconcile_account :: "sync_env \<Rightarrow> pubkey \<Rightarrow> reconciler \<Rightarrow> bool \<times> reconciler" where
  "reconcile_account env a r =
     (let r = modify_account a (\<lambda>s. s\<lparr>status := Updating\<rparr>) r;
          r = foldl sync_step r (during env a)
      in if get_account_ok env a
         then (True, modify_account a (\<lambda>s. s\<lparr>last_slot := current_slot r, last_update := done_at env a,
                 status := InSync, rs_failure_count := 0\<rparr>) r)
         else (False, r))"

definition note_failure :: "reconciler_config \<Rightarrow> account_state \<Rightarrow> account_state" where
  "note_failure cfg s =
     (let s = s\<lparr>rs_failure_count := rs_failure_count s + 1\<rparr>
      in if rc_max_failures cfg \<le> rs_failure_count s then s\<lparr>status := Failed\<rparr> else s)"

fun reconcile_one :: "instant \<Rightarrow> sync_env \<Rightarrow> reconciler \<times> reconcile_result \<Rightarrow> pubkey \<Rightarrow> reconciler \<times> reconcile_result" where
  "reconcile_one now env (r, res) a =
     (if (case map_of (accounts r) a of None \<Rightarrow> False | Some s \<Rightarrow> needs_reconcile (rc_config r) now s) then
        (case reconcile_account env a r of
           (True, r') \<Rightarrow> (r', res\<lparr>reconciled := reconciled res + 1\<rparr>)
         | (False, r') \<Rightarrow> (modify_account a (note_failure (rc_config r')) r', res\<lparr>failed := failed res + 1\<rparr>))
      else (r, res\<lparr>in_sync := in_sync res + 1\<rparr>))"

definition reconcile ::
    "((pubkey \<times> account_state) list \<Rightarrow> (pubkey \<times> account_state) list)
     \<Rightarrow> instant \<Rightarrow> sync_env \<Rightarrow> reconciler \<Rightarrow> reconcile_result \<times> reconciler" where
  "reconcile it now env r =
     (let slot = fetch_current_slot env;
          r = r\<lparr>current_slot := slot\<rparr>;
          (r', res) = foldl (reconcile_one now env)
            (r, \<lparr>res_current_slot = 0, in_sync = 0, reconciled = 0, failed = 0\<rparr>) (map fst (it (accounts r)))
      in (res\<lparr>res_current_slot := slot\<rparr>, r'))"

definition get_stale_accounts ::
    "((pubkey \<times> account_state) list \<Rightarrow> (pubkey \<times> account_state) list) \<Rightarrow> instant \<Rightarrow> reconciler \<Rightarrow> pubkey list" where
  "get_stale_accounts it now r =
     map fst (filter (\<lambda>(_, s). from_secs (unat (max_age_secs (rc_config r))) < elapsed now (last_update s)
        \<or> status s \<noteq> InSync) (it (accounts r)))"

definition get_failed_accounts ::
    "((pubkey \<times> account_state) list \<Rightarrow> (pubkey \<times> account_state) list) \<Rightarrow> reconciler \<Rightarrow> pubkey list" where
  "get_failed_accounts it r = map fst (filter (\<lambda>(_, s). status s = Failed) (it (accounts r)))"

subsection \<open>One cycle\<close>

text \<open>What a cycle does to one account, without reference to the order or to other accounts.\<close>

definition cycle_account :: "reconciler_config \<Rightarrow> instant \<Rightarrow> sync_env \<Rightarrow> pubkey \<Rightarrow> account_state \<Rightarrow> account_state" where
  "cycle_account cfg now env a s =
     (if \<not> needs_reconcile cfg now s then s
      else if get_account_ok env a then
        s\<lparr>last_slot := fetch_current_slot env, last_update := done_at env a, status := InSync, rs_failure_count := 0\<rparr>
      else if rc_max_failures cfg \<le> rs_failure_count s + 1 then
        s\<lparr>status := Failed, rs_failure_count := rs_failure_count s + 1\<rparr>
      else s\<lparr>status := Updating, rs_failure_count := rs_failure_count s + 1\<rparr>)"

lemma modify_account_simps [simp]:
  "rc_config (modify_account a f r) = rc_config r" "current_slot (modify_account a f r) = current_slot r"
  "map_of (accounts (modify_account a f r)) =
     (\<lambda>b. if b = a then map_option f (map_of (accounts r) b) else map_of (accounts r) b)"
  by (auto simp: modify_account_def map_of_map_entry split: option.splits intro!: ext)

lemma reconcile_one_quiet:
  assumes "during env a = []" and "current_slot r = fetch_current_slot env"
    and "map_of (accounts r) a = Some s"
  shows "\<exists>r'. reconcile_one now env (r, res) a = (r',
      if \<not> needs_reconcile (rc_config r) now s then res\<lparr>in_sync := in_sync res + 1\<rparr>
      else if get_account_ok env a then res\<lparr>reconciled := reconciled res + 1\<rparr>
      else res\<lparr>failed := failed res + 1\<rparr>)
    \<and> rc_config r' = rc_config r \<and> current_slot r' = current_slot r
    \<and> map_of (accounts r') = (map_of (accounts r))(a \<mapsto> cycle_account (rc_config r) now env a s)"
  using assms
  by (auto simp: reconcile_account_def Let_def cycle_account_def note_failure_def fun_upd_def intro!: ext)

lemma reconcile_loop:
  assumes "distinct as" and "\<forall>a \<in> set as. map_of (accounts r) a \<noteq> None" and "\<forall>a. during env a = []"
    and "current_slot r = fetch_current_slot env"
    and "foldl (reconcile_one now env) (r, res) as = (r', res')"
  shows "map_of (accounts r') = (\<lambda>a. if a \<in> set as
        then map_option (cycle_account (rc_config r) now env a) (map_of (accounts r) a) else map_of (accounts r) a)
    \<and> in_sync res' + reconciled res' + failed res' = in_sync res + reconciled res + failed res + of_nat (length as)
    \<and> reconciled res' = reconciled res + of_nat (length (filter (\<lambda>a. get_account_ok env a
        \<and> needs_reconcile (rc_config r) now (the (map_of (accounts r) a))) as))"
  using assms
proof (induction as arbitrary: r res)
  case (Cons a as)
  obtain s where s: "map_of (accounts r) a = Some s" using Cons.prems(2) by auto
  define res1 where "res1 = (if \<not> needs_reconcile (rc_config r) now s then res\<lparr>in_sync := in_sync res + 1\<rparr>
      else if get_account_ok env a then res\<lparr>reconciled := reconciled res + 1\<rparr>
      else res\<lparr>failed := failed res + 1\<rparr>)"
  from reconcile_one_quiet [OF _ Cons.prems(4) s, where now = now and res = res] Cons.prems(3)
  obtain r1 where r1: "reconcile_one now env (r, res) a = (r1, res1)" "rc_config r1 = rc_config r"
    "current_slot r1 = current_slot r"
    "map_of (accounts r1) = (map_of (accounts r))(a \<mapsto> cycle_account (rc_config r) now env a s)"
    unfolding res1_def by blast
  have flt: "filter (\<lambda>b. get_account_ok env b \<and> needs_reconcile (rc_config r) now
        (the (((map_of (accounts r))(a \<mapsto> cycle_account (rc_config r) now env a s)) b))) as
      = filter (\<lambda>b. get_account_ok env b \<and> needs_reconcile (rc_config r) now (the (map_of (accounts r) b))) as"
    using Cons.prems(1) by (intro filter_cong) auto
  have fin: "foldl (reconcile_one now env) (r1, res1) as = (r', res')"
    using Cons.prems(5) r1(1) by (simp del: reconcile_one.simps)
  have as: "distinct as" "\<forall>b \<in> set as. map_of (accounts r1) b \<noteq> None" "current_slot r1 = fetch_current_slot env"
    using Cons.prems(1,2,4) r1 by auto
  have sums: "in_sync res1 + reconciled res1 + failed res1 = in_sync res + reconciled res + failed res + 1"
    "reconciled res1 = reconciled res + (if get_account_ok env a \<and> needs_reconcile (rc_config r) now s then 1 else 0)"
    by (simp_all add: res1_def)
  note IH = Cons.IH [OF as(1,2) Cons.prems(3) as(3) fin, unfolded r1 flt]
  from conjunct1 [OF IH] Cons.prems(1) s
  have "map_of (accounts r') = (\<lambda>b. if b \<in> set (a # as)
      then map_option (cycle_account (rc_config r) now env b) (map_of (accounts r) b) else map_of (accounts r) b)"
    by (simp add: fun_eq_iff)
  moreover from conjunct1 [OF conjunct2 [OF IH]]
  have "in_sync res' + reconciled res' + failed res' =
      in_sync res + reconciled res + failed res + of_nat (length (a # as))"
    unfolding sums(1) by (simp only: length_Cons of_nat_Suc ac_simps)
  moreover from conjunct2 [OF conjunct2 [OF IH]] s
  have "reconciled res' = reconciled res + of_nat (length (filter (\<lambda>a. get_account_ok env a
      \<and> needs_reconcile (rc_config r) now (the (map_of (accounts r) a))) (a # as)))"
    by (simp add: sums(2))
  ultimately show ?case by blast
qed simp

text \<open>A reconciliation cycle that is not disturbed treats every tracked account exactly once and
  independently of the iteration order: an account that is due and fetched is in sync at the
  reported slot with no failures, one that is due and not fetched has one failure more and is
  marked failed at the limit, every other account is unchanged; the three counters add up to the
  number of accounts.\<close>

theorem reconcile_cycle:
  assumes "hash_order it" and "distinct (map fst (accounts r))" and "\<forall>a. during env a = []"
    and "reconcile it now env r = (res, r')"
  shows "map_of (accounts r') = (\<lambda>a. map_option (cycle_account (rc_config r) now env a) (map_of (accounts r) a))
    \<and> in_sync res + reconciled res + failed res = of_nat (length (accounts r))
    \<and> reconciled res = of_nat (card {a. get_account_ok env a
        \<and> (\<exists>s. map_of (accounts r) a = Some s \<and> needs_reconcile (rc_config r) now s)})
    \<and> res_current_slot res = fetch_current_slot env"
proof -
  let ?r = "r\<lparr>current_slot := fetch_current_slot env\<rparr>"
  let ?z = "\<lparr>res_current_slot = 0, in_sync = 0, reconciled = 0, failed = 0\<rparr>"
  let ?as = "map fst (it (accounts r))"
  let ?due = "\<lambda>a. get_account_ok env a \<and> needs_reconcile (rc_config r) now (the (map_of (accounts r) a))"
  obtain r1 res1 where f: "foldl (reconcile_one now env) (?r, ?z) ?as = (r1, res1)" by fastforce
  have it: "distinct ?as" "set ?as = fst ` set (accounts r)" "length ?as = length (accounts r)"
    using assms(1,2) by (simp_all add: hash_order_distinct hash_order_set hash_order_length)
  then have dom: "\<forall>a \<in> set ?as. map_of (accounts ?r) a \<noteq> None"
    by (auto simp: map_of_eq_None_iff rev_image_eqI)
  have "current_slot ?r = fetch_current_slot env" by simp
  note L = reconcile_loop [OF it(1) dom assms(3) this f]
  from conjunct1 [OF L] it have loop: "map_of (accounts r1) = (\<lambda>a. if a \<in> fst ` set (accounts r)
        then map_option (cycle_account (rc_config r) now env a) (map_of (accounts r) a) else map_of (accounts r) a)"
    by (simp cong: if_cong)
  from conjunct1 [OF conjunct2 [OF L]] it(3)
  have sums: "in_sync res1 + reconciled res1 + failed res1 = of_nat (length (accounts r))" by simp
  from conjunct2 [OF conjunct2 [OF L]] have rec: "reconciled res1 = of_nat (length (filter ?due ?as))" by simp
  have tracked: "a \<in> fst ` set (accounts r) \<longleftrightarrow> (\<exists>s. map_of (accounts r) a = Some s)" for a
    by (metis map_of_eq_None_iff not_None_eq)
  have "set (filter ?due ?as) = {a. get_account_ok env a
      \<and> (\<exists>s. map_of (accounts r) a = Some s \<and> needs_reconcile (rc_config r) now s)}"
    using it(2) tracked by auto
  with distinct_card [OF distinct_filter [OF it(1), of ?due]]
  have "length (filter ?due ?as) = card {a. get_account_ok env a
      \<and> (\<exists>s. map_of (accounts r) a = Some s \<and> needs_reconcile (rc_config r) now s)}" by (simp only:)
  moreover have "map_of (accounts r1) = (\<lambda>a. map_option (cycle_account (rc_config r) now env a) (map_of (accounts r) a))"
    unfolding loop by (rule ext) (simp add: map_of_eq_None_iff [THEN iffD2])
  ultimately show ?thesis using sums rec assms(4) f by (auto simp: reconcile_def Let_def)
qed

definition quiet_env :: "bool \<Rightarrow> sync_env" where
  "quiet_env ok = \<lparr>get_slot = Some 7, get_account_ok = (\<lambda>_. ok), done_at = (\<lambda>_. 5), during = (\<lambda>_. [])\<rparr>"

definition one_account :: reconciler where
  "one_account = track_account 0 [1] (new_reconciler default_reconciler_config)"

theorem reconcile_cycle_witness:
  "map_of (accounts (snd (reconcile (\<lambda>m. m) 3 (quiet_env True) one_account))) [1] =
     Some \<lparr>rs_address = [1], last_slot = 7, last_update = 5, status = InSync, rs_failure_count = 0\<rparr>"
proof -
  have one: "accounts one_account = [([1], \<lparr>rs_address = [1], last_slot = 0, last_update = 0,
      status = NeedsUpdate, rs_failure_count = 0\<rparr>)]"
    by (simp add: one_account_def track_account_def new_reconciler_def)
  have "distinct (map fst (accounts one_account))" and "\<forall>a. during (quiet_env True) a = []"
    by (simp_all add: one quiet_env_def)
  from reconcile_cycle [OF hash_order_id this prod.collapse [symmetric]] show ?thesis
    by (simp add: one cycle_account_def needs_reconcile_def) (simp add: quiet_env_def fetch_current_slot_def)
qed

subsection \<open>A failed fetch is not retried\<close>

lemma distinct_modify_account [simp]:
  "distinct (map fst (accounts r)) \<Longrightarrow> distinct (map fst (accounts (modify_account a f r)))"
  by (simp add: modify_account_def distinct_map_entry)

lemma reconcile_one_keeps:
  assumes "\<forall>a. during env a = []" and "reconcile_one now env (r, res) a = (r', res')"
    and "distinct (map fst (accounts r))"
  shows "distinct (map fst (accounts r')) \<and> rc_config r' = rc_config r"
  using assms by (auto simp: reconcile_account_def Let_def split: if_splits)

lemma reconcile_keeps:
  assumes "\<forall>a. during env a = []" and "reconcile it now env r = (res, r')" and "distinct (map fst (accounts r))"
  shows "distinct (map fst (accounts r')) \<and> rc_config r' = rc_config r"
proof -
  have "distinct (map fst (accounts (fst p))) \<Longrightarrow>
      distinct (map fst (accounts (fst (foldl (reconcile_one now env) p as))))
      \<and> rc_config (fst (foldl (reconcile_one now env) p as)) = rc_config (fst p)" for p as
  proof (induction as arbitrary: p)
    case (Cons a as)
    obtain r1 res1 where "reconcile_one now env p a = (r1, res1)" by fastforce
    with reconcile_one_keeps [OF assms(1), of now "fst p" "snd p" a r1 res1] Cons show ?case
      by (simp del: reconcile_one.simps)
  qed simp
  from this [of "(r\<lparr>current_slot := fetch_current_slot env\<rparr>, \<lparr>res_current_slot = 0, in_sync = 0, reconciled = 0, failed = 0\<rparr>)"
      "map fst (it (accounts r))"]
  show ?thesis using assms(2,3) by (auto simp: reconcile_def Let_def case_prod_beta)
qed

text \<open>An account whose fetch failed below the failure limit stays in the state \<^verbatim>\<open>Updating\<close>: until
  its last update is older than the maximal age, later cycles neither fetch it nor change it and
  count it as in sync, whatever the provider would answer, although it is reported as stale.\<close>

theorem failed_fetch_not_retried:
  assumes "hash_order it" and "distinct (map fst (accounts r))" and "\<forall>a. during env a = []" and "\<forall>a. during env' a = []"
    and "map_of (accounts r) a = Some s" and "status s = NeedsUpdate" and "\<not> get_account_ok env a"
    and "rs_failure_count s + 1 < rc_max_failures (rc_config r)"
    and "reconcile it now env r = (res, r1)" and "reconcile it now' env' r1 = (res', r2)"
    and "now' \<le> last_update s + from_secs (unat (max_age_secs (rc_config r)))"
  shows "map_of (accounts r2) a = map_of (accounts r1) a
    \<and> map_option status (map_of (accounts r2) a) = Some Updating
    \<and> a \<in> set (get_stale_accounts it now' r1)"
proof -
  let ?s = "s\<lparr>status := Updating, rs_failure_count := rs_failure_count s + 1\<rparr>"
  have r1: "map_of (accounts r1) a = Some ?s"
    using reconcile_cycle [OF assms(1-3,9)] assms(5-8)
    by (simp add: cycle_account_def needs_reconcile_def not_le)
  have keep: "distinct (map fst (accounts r1))" "rc_config r1 = rc_config r"
    using reconcile_keeps [OF assms(3,9,2)] by simp_all
  have "cycle_account (rc_config r1) now' env' a ?s = ?s"
    using keep(2) assms(11) by (simp add: cycle_account_def needs_reconcile_def elapsed_def)
  with reconcile_cycle [OF assms(1) keep(1) assms(4,10)] r1
  have r2: "map_of (accounts r2) a = Some ?s" by simp
  have "(a, ?s) \<in> set (it (accounts r1))"
    using hash_order_set [OF assms(1) keep(1)] map_of_SomeD [OF r1] by simp
  then have "a \<in> set (get_stale_accounts it now' r1)"
    by (force simp: get_stale_accounts_def)
  with r1 r2 show ?thesis by simp
qed

theorem failed_fetch_not_retried_witness:
  "let r1 = snd (reconcile (\<lambda>m. m) 3 (quiet_env False) one_account);
       r2 = snd (reconcile (\<lambda>m. m) 6 (quiet_env True) r1)
   in map_option status (map_of (accounts r2) [1]) = Some Updating"
proof -
  let ?s = "\<lparr>rs_address = [1], last_slot = 0, last_update = 0, status = NeedsUpdate, rs_failure_count = 0\<rparr>"
  have one: "accounts one_account = [([1], ?s)]" "rc_config one_account = default_reconciler_config"
    by (simp_all add: one_account_def track_account_def new_reconciler_def)
  have a: "distinct (map fst (accounts one_account))" "\<forall>a. during (quiet_env False) a = []"
      "\<forall>a. during (quiet_env True) a = []" "map_of (accounts one_account) [1] = Some ?s"
      "status ?s = NeedsUpdate" "\<not> get_account_ok (quiet_env False) [1]"
      "rs_failure_count ?s + 1 < rc_max_failures (rc_config one_account)"
      "6 \<le> last_update ?s + from_secs (unat (max_age_secs (rc_config one_account)))"
    by (simp_all add: one quiet_env_def default_reconciler_config_def from_secs_def word_less_nat_alt)
  from failed_fetch_not_retried [where now = 3, OF hash_order_id a(1-7) prod.collapse [symmetric] prod.collapse [symmetric] a(8)]
  show ?thesis unfolding Let_def by blast
qed

section \<open>The account listener\<close>

datatype subscription_type = Pool | Position | TokenAccount

record subscription =
  sub_address :: pubkey
  sub_type :: subscription_type
  ws_subscription_id :: "u64 option"
  active :: bool

record listener_config =
  ws_url :: string
  reconnect_delay_secs :: u64
  max_reconnect_attempts :: u32
  ls_commitment :: string

definition default_listener_config :: listener_config where
  "default_listener_config = \<lparr>ws_url = ''wss://api.mainnet-beta.solana.com'', reconnect_delay_secs = 5,
     max_reconnect_attempts = 10, ls_commitment = ''confirmed''\<rparr>"

record account_listener =
  ls_config :: listener_config
  subscriptions :: "(pubkey \<times> subscription) list"
  updates :: "account_update list"
  update_rx :: bool
  connected :: bool
  reconnect_attempts :: u32

definition new_listener :: "listener_config \<Rightarrow> account_listener" where
  "new_listener cfg = \<lparr>ls_config = cfg, subscriptions = [], updates = [], update_rx = True, connected = False,
     reconnect_attempts = 0\<rparr>"

definition take_update_receiver :: "account_listener \<Rightarrow> bool \<times> account_listener" where
  "take_update_receiver l = (update_rx l, l\<lparr>update_rx := False\<rparr>)"

definition activate_subscription :: "account_listener \<Rightarrow> pubkey \<Rightarrow> account_listener" where
  "activate_subscription l a = l\<lparr>subscriptions := AList.map_entry a
     (\<lambda>sub. sub\<lparr>active := True, ws_subscription_id := Some 1\<rparr>) (subscriptions l)\<rparr>"

definition subscribe :: "pubkey \<Rightarrow> subscription_type \<Rightarrow> account_listener \<Rightarrow> account_listener" where
  "subscribe a ty l =
     (let l = l\<lparr>subscriptions := AList.update a
            \<lparr>sub_address = a, sub_type = ty, ws_subscription_id = None, active = False\<rparr> (subscriptions l)\<rparr>
      in if connected l then activate_subscription l a else l)"

definition unsubscribe :: "pubkey \<Rightarrow> account_listener \<Rightarrow> account_listener" where
  "unsubscribe a l = l\<lparr>subscriptions := AList.delete a (subscriptions l)\<rparr>"

definition connect :: "account_listener \<Rightarrow> account_listener" where
  "connect l =
     (let l = l\<lparr>connected := True\<rparr> in foldl activate_subscription l (map fst (subscriptions l)))"

text \<open>The calls other tasks make on the listener while its loop sleeps.\<close>

datatype listener_call = Subscribe pubkey subscription_type | Unsubscribe pubkey

fun listener_step :: "account_listener \<Rightarrow> listener_call \<Rightarrow> account_listener" where
  "listener_step l (Subscribe a ty) = subscribe a ty l"
| "listener_step l (Unsubscribe a) = unsubscribe a l"

definition run_event_loop :: "listener_call list \<Rightarrow> account_listener \<Rightarrow> account_listener" where
  "run_event_loop calls l = (foldl listener_step l calls)\<lparr>connected := False\<rparr>"

text \<open>One round of the loop of \<^verbatim>\<open>start\<close> (\<^verbatim>\<open>connect\<close> always succeeds), and the loop. \<open>calls n\<close> and
  \<open>calls (n + 1)\<close> are what happens during the event loop and during the reconnect delay.\<close>

definition listen_round :: "listener_call list \<Rightarrow> account_listener \<Rightarrow> account_listener" where
  "listen_round calls l =
     (let l = connect l;
          l = l\<lparr>reconnect_attempts := 0\<rparr>;
          l = run_event_loop calls l
      in l\<lparr>reconnect_attempts := reconnect_attempts l + 1\<rparr>)"

partial_function (option) listen :: "(nat \<Rightarrow> listener_call list) \<Rightarrow> nat \<Rightarrow> account_listener \<Rightarrow> account_listener option" where
  "listen calls n l =
     (let l = listen_round (calls n) l
      in if max_reconnect_attempts (ls_config l) \<le> reconnect_attempts l then Some l
         else listen calls (n + 2) (foldl listener_step l (calls (n + 1))))"

text \<open>The channel of capacity 1000; \<open>None\<close> is a sender that waits for room.\<close>

definition simulate_update :: "bool \<Rightarrow> account_update \<Rightarrow> account_listener \<Rightarrow> account_listener option" where
  "simulate_update receiver_alive u l =
     (if \<not> receiver_alive then Some l
      else if length (updates l) < 1000 then Some (l\<lparr>updates := updates l @ [u]\<rparr>) else None)"

lemma listener_step_simps [simp]:
  "ls_config (listener_step l c) = ls_config l" "reconnect_attempts (listener_step l c) = reconnect_attempts l"
  "connected (listener_step l c) = connected l"
  by (cases c; simp add: subscribe_def unsubscribe_def activate_subscription_def Let_def)+

lemma listener_steps [simp]:
  "ls_config (foldl listener_step l cs) = ls_config l"
  "reconnect_attempts (foldl listener_step l cs) = reconnect_attempts l"
  "connected (foldl listener_step l cs) = connected l"
  by (induction cs arbitrary: l) simp_all

lemma activate_all:
  "ls_config (foldl activate_subscription l as) = ls_config l"
  "connected (foldl activate_subscription l as) = connected l"
  "map_of (subscriptions (foldl activate_subscription l as)) a =
     (if a \<in> set as then map_option (\<lambda>sub. sub\<lparr>active := True, ws_subscription_id := Some 1\<rparr>) (map_of (subscriptions l) a)
      else map_of (subscriptions l) a)"
  by (induction as arbitrary: l)
     (auto simp: activate_subscription_def map_of_map_entry option.map_comp comp_def split: option.splits)

lemma listen_round_simps [simp]:
  "ls_config (listen_round cs l) = ls_config l" "reconnect_attempts (listen_round cs l) = 1"
  "connected (listen_round cs l) = False"
  by (simp_all add: listen_round_def run_event_loop_def connect_def Let_def activate_all)

text \<open>While the listener is connected, every subscription is active.\<close>

definition all_active :: "account_listener \<Rightarrow> bool" where
  "all_active l \<longleftrightarrow> (\<forall>a sub. map_of (subscriptions l) a = Some sub \<longrightarrow> active sub)"

lemma all_active_connect: "all_active (connect l) \<and> connected (connect l)"
  by (force simp: all_active_def connect_def Let_def activate_all split: if_splits dest: map_of_SomeD)

lemma all_active_step: "all_active l \<Longrightarrow> connected l \<Longrightarrow> all_active (listener_step l c)"
  by (cases c) (auto simp: all_active_def subscribe_def unsubscribe_def activate_subscription_def Let_def
      map_of_map_entry update_conv' delete_conv' split: if_splits option.splits)

lemma all_active_steps: "all_active l \<Longrightarrow> connected l \<Longrightarrow> all_active (foldl listener_step l cs)"
  by (induction cs arbitrary: l) (simp_all add: all_active_step)

lemma all_active_round: "all_active (listen_round cs l)"
proof -
  have "all_active (foldl listener_step ((connect l)\<lparr>reconnect_attempts := 0\<rparr>) cs)"
    using all_active_connect [of l] by (intro all_active_steps) (simp_all add: all_active_def)
  then show ?thesis by (simp add: listen_round_def run_event_loop_def Let_def all_active_def)
qed

text \<open>The reconnect limit never takes effect beyond the first round: since connecting always
  succeeds and resets the counter, the listener loop returns exactly if the limit is at most one,
  and otherwise runs forever. After every round all subscriptions are marked active although the
  listener is disconnected.\<close>

theorem listener_reconnects_forever:
  "listen calls n l = (if max_reconnect_attempts (ls_config l) \<le> 1 then Some (listen_round (calls n) l) else None)
   \<and> all_active (listen_round (calls n) l) \<and> \<not> connected (listen_round (calls n) l)"
proof (cases "max_reconnect_attempts (ls_config l) \<le> 1")
  case True
  then show ?thesis by (subst listen.simps) (simp add: Let_def all_active_round)
next
  case False
  have "\<not> max_reconnect_attempts (ls_config l) \<le> 1 \<longrightarrow> r = undefined \<and> False"
    if "listen calls n l = Some r" for r
  proof (rule listen.raw_induct [where P = "\<lambda>calls n l r. \<not> max_reconnect_attempts (ls_config l) \<le> 1
        \<longrightarrow> r = undefined \<and> False", OF _ that], goal_cases)
    case prems: (1 f calls n l r)
    then show ?case by (fastforce simp: Let_def split: if_splits dest!: prems(1))
  qed
  with False have "listen calls n l = None" by (cases "listen calls n l") auto
  with False show ?thesis by (simp add: all_active_round)
qed

end
