(* ===== verification/Whirlpool.thy ===== *)
theory Whirlpool
  imports Prelude "HOL-Library.Monad_Syntax"
begin

text \<open>
  \<^verbatim>\<open>crates/protocols/src/orca/whirlpool.rs\<close>: the two parsers of an Orca Whirlpool account, the
  Borsh one and the fixed-offset one. The deserializer that Borsh derives for
  \<^verbatim>\<open>WhirlpoolAccountBody\<close> is a parameter; \<open>borsh_law\<close> is the documented format: the fields in
  declaration order, integers little endian, arrays without a length, nothing left over.
\<close>

record whirlpool_reward_info =
  mint :: pubkey
  vault :: pubkey
  extension :: "u8 list"
  emissions_per_second_x64 :: u128
  growth_global_x64 :: u128

record whirlpool_account_body =
  b_whirlpools_config :: pubkey
  b_whirlpool_bump :: "u8 list"
  b_tick_spacing :: u16
  b_fee_tier_index_seed :: "u8 list"
  b_fee_rate :: u16
  b_protocol_fee_rate :: u16
  b_liquidity :: u128
  b_sqrt_price :: u128
  b_tick_current_index :: int
  b_protocol_fee_owed_a :: u64
  b_protocol_fee_owed_b :: u64
  b_token_mint_a :: pubkey
  b_token_vault_a :: pubkey
  b_fee_growth_global_a :: u128
  b_token_mint_b :: pubkey
  b_token_vault_b :: pubkey
  b_fee_growth_global_b :: u128
  b_reward_last_updated_timestamp :: u64
  b_reward_infos :: "whirlpool_reward_info list"

record whirlpool_minimal =
  tick_spacing :: u16
  fee_rate :: u16
  protocol_fee_rate :: u16
  liquidity :: u128
  sqrt_price :: u128
  tick_current_index :: int
  protocol_fee_owed_a :: u64
  protocol_fee_owed_b :: u64
  token_mint_a :: pubkey
  token_vault_a :: pubkey
  fee_growth_global_a :: u128
  token_mint_b :: pubkey
  token_vault_b :: pubkey
  fee_growth_global_b :: u128

definition parse_whirlpool_account_borsh ::
    "(u8 list \<Rightarrow> whirlpool_account_body option) \<Rightarrow> u8 list \<Rightarrow> whirlpool_minimal option" where
  "parse_whirlpool_account_borsh try_from_slice data =
     (if length data < 653 then None
      else do {
        body \<leftarrow> slice data 8 (653 - 8);
        parsed \<leftarrow> try_from_slice body;
        Some \<lparr>tick_spacing = b_tick_spacing parsed,
          fee_rate = b_fee_rate parsed,
          protocol_fee_rate = b_protocol_fee_rate parsed,
          liquidity = b_liquidity parsed,
          sqrt_price = b_sqrt_price parsed,
          tick_current_index = b_tick_current_index parsed,
          protocol_fee_owed_a = b_protocol_fee_owed_a parsed,
          protocol_fee_owed_b = b_protocol_fee_owed_b parsed,
          token_mint_a = b_token_mint_a parsed,
          token_vault_a = b_token_vault_a parsed,
          fee_growth_global_a = b_fee_growth_global_a parsed,
          token_mint_b = b_token_mint_b parsed,
          token_vault_b = b_token_vault_b parsed,
          fee_growth_global_b = b_fee_growth_global_b parsed\<rparr>
      })"

definition read_u16_le :: "u8 list \<Rightarrow> nat \<Rightarrow> u16 option" where
  "read_u16_le data off = map_option (\<lambda>b. word_of_nat (of_le b)) (slice data off 2)"

definition read_i32_le :: "u8 list \<Rightarrow> nat \<Rightarrow> int option" where
  "read_i32_le data off = map_option (\<lambda>b. sint (word_of_nat (of_le b) :: u32)) (slice data off 4)"

definition read_u64_le :: "u8 list \<Rightarrow> nat \<Rightarrow> u64 option" where
  "read_u64_le data off = map_option (\<lambda>b. word_of_nat (of_le b)) (slice data off 8)"

definition read_u128_le :: "u8 list \<Rightarrow> nat \<Rightarrow> u128 option" where
  "read_u128_le data off = map_option (\<lambda>b. word_of_nat (of_le b)) (slice data off 16)"

definition read_pubkey :: "u8 list \<Rightarrow> nat \<Rightarrow> pubkey option" where
  "read_pubkey data off = slice data off 32"

definition parse_whirlpool_minimal :: "u8 list \<Rightarrow> whirlpool_minimal option" where
  "parse_whirlpool_minimal data =
     (let off_tick_spacing = 8 + 32 + 1;
          off_fee_rate = off_tick_spacing + 2 + 2;
          off_liquidity = off_fee_rate + 2 + 2;
          off_fee_owed_a = off_liquidity + 32 + 4;
          off_token_mint_a = off_fee_owed_a + 8 + 8;
          off_token_vault_a = off_token_mint_a + 32;
          off_fee_growth_a = off_token_vault_a + 32;
          off_token_mint_b = off_fee_growth_a + 16;
          off_token_vault_b = off_token_mint_b + 32;
          off_fee_growth_b = off_token_vault_b + 32
      in do {
        spacing \<leftarrow> read_u16_le data off_tick_spacing;
        fee \<leftarrow> read_u16_le data off_fee_rate;
        protocol_fee \<leftarrow> read_u16_le data (off_fee_rate + 2);
        liq \<leftarrow> read_u128_le data off_liquidity;
        sqrt_p \<leftarrow> read_u128_le data (off_liquidity + 16);
        tick \<leftarrow> read_i32_le data (off_liquidity + 32);
        fee_owed_a \<leftarrow> read_u64_le data off_fee_owed_a;
        fee_owed_b \<leftarrow> read_u64_le data (off_fee_owed_a + 8);
        mint_a \<leftarrow> read_pubkey data off_token_mint_a;
        vault_a \<leftarrow> read_pubkey data off_token_vault_a;
        fee_growth_a \<leftarrow> read_u128_le data off_fee_growth_a;
        mint_b \<leftarrow> read_pubkey data off_token_mint_b;
        vault_b \<leftarrow> read_pubkey data off_token_vault_b;
        fee_growth_b \<leftarrow> read_u128_le data off_fee_growth_b;
        Some \<lparr>tick_spacing = spacing, fee_rate = fee, protocol_fee_rate = protocol_fee, liquidity = liq,
          sqrt_price = sqrt_p, tick_current_index = tick, protocol_fee_owed_a = fee_owed_a,
          protocol_fee_owed_b = fee_owed_b, token_mint_a = mint_a, token_vault_a = vault_a,
          fee_growth_global_a = fee_growth_a, token_mint_b = mint_b, token_vault_b = vault_b,
          fee_growth_global_b = fee_growth_b\<rparr>
      })"

section \<open>The Borsh format of the account body\<close>

definition reward_bytes :: "whirlpool_reward_info \<Rightarrow> u8 list" where
  "reward_bytes r = mint r @ vault r @ extension r @ to_le 16 (unat (emissions_per_second_x64 r))
     @ to_le 16 (unat (growth_global_x64 r))"

definition wf_reward :: "whirlpool_reward_info \<Rightarrow> bool" where
  "wf_reward r \<longleftrightarrow> length (mint r) = 32 \<and> length (vault r) = 32 \<and> length (extension r) = 32"

definition body_bytes :: "whirlpool_account_body \<Rightarrow> u8 list" where
  "body_bytes b = b_whirlpools_config b
     @ b_whirlpool_bump b
     @ to_le 2 (unat (b_tick_spacing b))
     @ b_fee_tier_index_seed b
     @ to_le 2 (unat (b_fee_rate b))
     @ to_le 2 (unat (b_protocol_fee_rate b))
     @ to_le 16 (unat (b_liquidity b))
     @ to_le 16 (unat (b_sqrt_price b))
     @ to_le 4 (unat (word_of_int (b_tick_current_index b) :: u32))
     @ to_le 8 (unat (b_protocol_fee_owed_a b))
     @ to_le 8 (unat (b_protocol_fee_owed_b b))
     @ b_token_mint_a b
     @ b_token_vault_a b
     @ to_le 16 (unat (b_fee_growth_global_a b))
     @ b_token_mint_b b
     @ b_token_vault_b b
     @ to_le 16 (unat (b_fee_growth_global_b b))
     @ to_le 8 (unat (b_reward_last_updated_timestamp b))
     @ concat (map reward_bytes (b_reward_infos b))"

definition wf_body :: "whirlpool_account_body \<Rightarrow> bool" where
  "wf_body b \<longleftrightarrow> length (b_whirlpools_config b) = 32 \<and> length (b_whirlpool_bump b) = 1 \<and> length (b_fee_tier_index_seed b) = 2
     \<and> length (b_token_mint_a b) = 32 \<and> length (b_token_vault_a b) = 32
     \<and> length (b_token_mint_b b) = 32 \<and> length (b_token_vault_b b) = 32
     \<and> is_i32 (b_tick_current_index b) \<and> length (b_reward_infos b) = 3 \<and> list_all wf_reward (b_reward_infos b)"

definition borsh_law :: "(u8 list \<Rightarrow> whirlpool_account_body option) \<Rightarrow> bool" where
  "borsh_law try_from_slice \<longleftrightarrow> (\<forall>bs b. try_from_slice bs = Some b \<longleftrightarrow> wf_body b \<and> bs = body_bytes b)"

text \<open>A deserializer with this law, as a sequence of reads from a cursor.\<close>

definition take_n :: "nat \<Rightarrow> u8 list \<Rightarrow> (u8 list \<times> u8 list) option" where
  "take_n n bs = (if n \<le> length bs then Some (take n bs, drop n bs) else None)"

definition take_word :: "nat \<Rightarrow> u8 list \<Rightarrow> ('a::len word \<times> u8 list) option" where
  "take_word n bs = map_option (\<lambda>(x, r). (word_of_nat (of_le x), r)) (take_n n bs)"

definition decode_reward :: "u8 list \<Rightarrow> (whirlpool_reward_info \<times> u8 list) option" where
  "decode_reward bs = do {
     (m, bs) \<leftarrow> take_n 32 bs; (v, bs) \<leftarrow> take_n 32 bs; (x, bs) \<leftarrow> take_n 32 bs;
     (e, bs) \<leftarrow> take_word 16 bs; (g, bs) \<leftarrow> take_word 16 bs;
     Some (\<lparr>mint = m, vault = v, extension = x, emissions_per_second_x64 = e, growth_global_x64 = g\<rparr>, bs)
   }"

fun decode_rewards :: "nat \<Rightarrow> u8 list \<Rightarrow> (whirlpool_reward_info list \<times> u8 list) option" where
  "decode_rewards 0 bs = Some ([], bs)"
| "decode_rewards (Suc n) bs = do {
     (r, bs) \<leftarrow> decode_reward bs; (rs, bs) \<leftarrow> decode_rewards n bs; Some (r # rs, bs)
   }"

definition decode_body :: "u8 list \<Rightarrow> whirlpool_account_body option" where
  "decode_body bs = do {
     (x0, bs) \<leftarrow> take_n 32 bs;
     (x1, bs) \<leftarrow> take_n 1 bs;
     (x2, bs) \<leftarrow> take_word 2 bs;
     (x3, bs) \<leftarrow> take_n 2 bs;
     (x4, bs) \<leftarrow> take_word 2 bs;
     (x5, bs) \<leftarrow> take_word 2 bs;
     (x6, bs) \<leftarrow> take_word 16 bs;
     (x7, bs) \<leftarrow> take_word 16 bs;
     (x8, bs) \<leftarrow> take_word 4 bs;
     (x9, bs) \<leftarrow> take_word 8 bs;
     (x10, bs) \<leftarrow> take_word 8 bs;
     (x11, bs) \<leftarrow> take_n 32 bs;
     (x12, bs) \<leftarrow> take_n 32 bs;
     (x13, bs) \<leftarrow> take_word 16 bs;
     (x14, bs) \<leftarrow> take_n 32 bs;
     (x15, bs) \<leftarrow> take_n 32 bs;
     (x16, bs) \<leftarrow> take_word 16 bs;
     (x17, bs) \<leftarrow> take_word 8 bs;
     (rs, bs) \<leftarrow> decode_rewards 3 bs;
     if bs = [] then Some \<lparr>b_whirlpools_config = x0, b_whirlpool_bump = x1, b_tick_spacing = x2,
       b_fee_tier_index_seed = x3, b_fee_rate = x4, b_protocol_fee_rate = x5, b_liquidity = x6,
       b_sqrt_price = x7, b_tick_current_index = sint (x8 :: u32), b_protocol_fee_owed_a = x9,
       b_protocol_fee_owed_b = x10, b_token_mint_a = x11, b_token_vault_a = x12,
       b_fee_growth_global_a = x13, b_token_mint_b = x14, b_token_vault_b = x15,
       b_fee_growth_global_b = x16, b_reward_last_updated_timestamp = x17, b_reward_infos = rs\<rparr>
     else None
   }"

section \<open>Reading back\<close>

lemma take_n_Some: "take_n n bs = Some (x, r) \<longleftrightarrow> bs = x @ r \<and> length x = n"
  by (auto simp: take_n_def)

lemma pow_256: "8 * n = k \<Longrightarrow> (256 :: nat) ^ n = 2 ^ k"
proof -
  assume "8 * n = k"
  then have "(2 :: nat) ^ k = (2 ^ 8) ^ n" by (simp only: power_mult [symmetric])
  then show ?thesis by simp
qed

lemma word_of_le_unat [le_simps]:
  "8 * n = LENGTH('a) \<Longrightarrow> word_of_nat (of_le (to_le n (unat w))) = (w :: 'a::len word)"
  using unat_lt_2p [of w] pow_256 [of n] by (simp add: of_le_to_le)

lemma to_le_word [le_simps]:
  assumes "8 * n = LENGTH('a)" and "length x = n"
  shows "to_le n (unat (word_of_nat (of_le x) :: 'a::len word)) = x"
proof -
  have "of_le x < 2 ^ LENGTH('a)"
    using of_le_bound [of x] pow_256 [OF assms(1)] assms(2) by simp
  then have "unat (word_of_nat (of_le x) :: 'a word) = of_le x"
    by (simp add: unat_of_nat)
  with assms(2) show ?thesis using to_le_of_le [of x] by simp
qed

lemma take_word_Some:
  assumes "8 * n = LENGTH('a)"
  shows "take_word n bs = Some (w :: 'a::len word, r) \<longleftrightarrow> bs = to_le n (unat w) @ r"
proof
  assume "take_word n bs = Some (w, r)"
  then obtain x where "bs = x @ r" "length x = n" "w = word_of_nat (of_le x)"
    by (auto simp: take_word_def take_n_Some)
  with to_le_word [OF assms, of x] show "bs = to_le n (unat w) @ r" by simp
next
  assume "bs = to_le n (unat w) @ r"
  with word_of_le_unat [OF assms, of w] show "take_word n bs = Some (w, r)"
    by (simp add: take_word_def take_n_def)
qed

lemma decode_reward_Some:
  "decode_reward bs = Some (r, rest) \<longleftrightarrow> wf_reward r \<and> bs = reward_bytes r @ rest"
  by (cases r) (auto simp: decode_reward_def bind_eq_Some_conv take_n_Some take_word_Some wf_reward_def reward_bytes_def)

lemma decode_rewards_Some:
  "decode_rewards n bs = Some (rs, rest) \<longleftrightarrow>
   length rs = n \<and> list_all wf_reward rs \<and> bs = concat (map reward_bytes rs) @ rest"
proof (induction n arbitrary: bs rs)
  case (Suc n)
  show ?case
    by (cases rs) (auto simp: bind_eq_Some_conv decode_reward_Some Suc.IH)
qed auto

lemma sint_of_i32: "is_i32 i \<Longrightarrow> sint (word_of_int i :: u32) = i"
  by (simp add: is_i32_def int_word_sint)

lemma is_i32_sint: "is_i32 (sint (w :: u32))"
  using sint_range_size [of w] by (simp add: is_i32_def word_size)

lemma decode_body_law: "borsh_law decode_body"
  unfolding borsh_law_def
proof (intro allI iffI)
  fix bs b
  assume "decode_body bs = Some b"
  then show "wf_body b \<and> bs = body_bytes b"
    by (auto simp: decode_body_def bind_eq_Some_conv take_n_Some take_word_Some decode_rewards_Some
        wf_body_def body_bytes_def is_i32_sint split: if_splits)
next
  fix bs b
  assume b: "wf_body b \<and> bs = body_bytes b"
  have "take_n n (x @ r) = Some (x, r)" if "length x = n" for n x r
    using that by (simp add: take_n_Some)
  moreover have "take_word 2 (to_le 2 (unat w) @ r) = Some (w :: u16, r)"
    "take_word 4 (to_le 4 (unat v) @ r) = Some (v :: u32, r)"
    "take_word 8 (to_le 8 (unat x) @ r) = Some (x :: u64, r)"
    "take_word 16 (to_le 16 (unat y) @ r) = Some (y :: u128, r)" for w v x y r
    by (simp_all add: take_word_Some)
  moreover have "decode_rewards 3 (concat (map reward_bytes (b_reward_infos b))) = Some (b_reward_infos b, [])"
    using b by (simp add: decode_rewards_Some wf_body_def)
  ultimately show "decode_body bs = Some b"
    using b by (simp add: decode_body_def body_bytes_def wf_body_def sint_of_i32)
qed

section \<open>The parsers agree\<close>

lemma decode_body_total:
  assumes "length bs = 645"
  shows "decode_body bs \<noteq> None"
  using assms
  by (simp add: decode_body_def take_word_def take_n_def numeral_3_eq_3 decode_reward_def)

lemma slice_skip [le_simps]:
  "length xs \<le> off \<Longrightarrow> slice (xs @ zs) off n = slice zs (off - length xs) n"
  by (auto simp: slice_def)

lemma slice_here [le_simps]: "length xs = n \<Longrightarrow> slice (xs @ zs) 0 n = Some xs"
  by (simp add: slice_def)

lemma minimal_of_body:
  assumes "wf_body b" and "length disc = 8"
  shows "parse_whirlpool_minimal (disc @ body_bytes b @ rest) =
    Some \<lparr>tick_spacing = b_tick_spacing b, fee_rate = b_fee_rate b, protocol_fee_rate = b_protocol_fee_rate b,
      liquidity = b_liquidity b, sqrt_price = b_sqrt_price b, tick_current_index = b_tick_current_index b,
      protocol_fee_owed_a = b_protocol_fee_owed_a b, protocol_fee_owed_b = b_protocol_fee_owed_b b,
      token_mint_a = b_token_mint_a b, token_vault_a = b_token_vault_a b,
      fee_growth_global_a = b_fee_growth_global_a b, token_mint_b = b_token_mint_b b,
      token_vault_b = b_token_vault_b b, fee_growth_global_b = b_fee_growth_global_b b\<rparr>"
  using assms
  by (simp add: parse_whirlpool_minimal_def body_bytes_def wf_body_def read_u16_le_def read_u64_le_def
      read_u128_le_def read_i32_le_def read_pubkey_def le_simps sint_of_i32)

text \<open>C38. On every account of at least 653 bytes the fixed-offset parser and the Borsh parser return the
  same pool fields, and both succeed; on shorter data the Borsh parser refuses.\<close>

theorem whirlpool_parsers_agree:
  assumes "borsh_law try_from_slice"
  shows "(653 \<le> length data \<longrightarrow> parse_whirlpool_minimal data = parse_whirlpool_account_borsh try_from_slice data
      \<and> parse_whirlpool_minimal data \<noteq> None)
    \<and> (length data < 653 \<longrightarrow> parse_whirlpool_account_borsh try_from_slice data = None)"
proof (intro conjI impI)
  assume len: "653 \<le> length data"
  define disc body rest where "disc = take 8 data" and "body = take 645 (drop 8 data)" and "rest = drop 653 data"
  have "drop 8 data = body @ rest"
    using append_take_drop_id [of 645 "drop 8 data"] by (simp add: body_def rest_def)
  then have data: "data = disc @ body @ rest"
    using append_take_drop_id [of 8 data] by (simp add: disc_def)
  have lens: "length disc = 8" "length body = 645" using len by (simp_all add: disc_def body_def)
  from decode_body_total [OF lens(2)] obtain b where "decode_body body = Some b" by blast
  with decode_body_law have b: "wf_body b" "body = body_bytes b" by (simp_all add: borsh_law_def)
  with assms have "try_from_slice body = Some b" by (simp add: borsh_law_def)
  moreover have "slice data 8 645 = Some body" using lens by (simp add: data le_simps)
  ultimately show "parse_whirlpool_minimal data = parse_whirlpool_account_borsh try_from_slice data"
    and "parse_whirlpool_minimal data \<noteq> None"
    using len minimal_of_body [OF b(1) lens(1), of rest] b(2)
    by (simp_all add: parse_whirlpool_account_borsh_def data)
qed (simp add: parse_whirlpool_account_borsh_def)

theorem whirlpool_parsers_agree_witness:
  "parse_whirlpool_minimal (replicate 700 1) = parse_whirlpool_account_borsh decode_body (replicate 700 1)
   \<and> parse_whirlpool_minimal (replicate 700 1) \<noteq> None"
proof -
  have "653 \<le> length (replicate 700 (1 :: u8))" by simp
  with whirlpool_parsers_agree [OF decode_body_law, of "replicate 700 1"] show ?thesis by blast
qed

end
