(* ===== verification/Tick_Array.thy ===== *)
theory Tick_Array
  imports Prelude
begin

text \<open>
  \<^verbatim>\<open>crates/protocols/src/orca/tick_array.rs\<close> and \<^verbatim>\<open>tick_reader.rs\<close>: locating a tick in its tick
  array, reading its boundary state, and the fee growth inside a range. \<^verbatim>\<open>i32\<close> arithmetic wraps
  and its division panics on zero (\<open>None\<close>). The address derivation, the account fetch and the
  Borsh deserializer are parameters.
\<close>

record tick =
  initialized :: bool
  liquidity_gross :: u128
  liquidity_net :: int
  fee_growth_outside_a :: u128
  fee_growth_outside_b :: u128
  reward_growths_outside :: "u128 list"

record tick_array_account_body =
  whirlpool :: pubkey
  start_tick_index :: int
  ticks :: "tick list"

record tick_boundary_state =
  tb_fee_growth_outside_a :: u128
  tb_fee_growth_outside_b :: u128
  tb_initialized :: bool

definition tick_array_start_index :: "int \<Rightarrow> u16 \<Rightarrow> int option" where
  "tick_array_start_index tick_index tick_spacing =
     (let spacing = uint tick_spacing;
          array_size = wrap_i32 (spacing * 88);
          q = (if 0 \<le> tick_index then rust_div tick_index array_size
               else map_option (\<lambda>d. wrap_i32 (- d))
                      (rust_div (wrap_i32 (wrap_i32 (wrap_i32 (- tick_index) + array_size) - 1)) array_size))
      in map_option (\<lambda>q. wrap_i32 (q * array_size)) q)"

definition tick_array_offset :: "int \<Rightarrow> int \<Rightarrow> u16 \<Rightarrow> nat option" where
  "tick_array_offset tick_index start tick_spacing =
     (let spacing = uint tick_spacing
      in if spacing \<le> 0 then None
         else (case checked_sub_i32 tick_index start of
                 None \<Rightarrow> None
               | Some rel \<Rightarrow>
                   (if rust_rem rel spacing \<noteq> Some 0 then None
                    else (case rust_div rel spacing of
                            None \<Rightarrow> None
                          | Some idx \<Rightarrow> if 0 \<le> idx \<and> idx < 88 then Some (nat idx) else None))))"

definition compute_fee_growth_inside_single :: "u128 \<Rightarrow> u128 \<Rightarrow> u128 \<Rightarrow> int \<Rightarrow> int \<Rightarrow> int \<Rightarrow> u128" where
  "compute_fee_growth_inside_single fee_growth_global fee_growth_outside_lower fee_growth_outside_upper
     tick_current tick_lower tick_upper =
     (let fee_growth_below = (if tick_current < tick_lower then fee_growth_global - fee_growth_outside_lower
                              else fee_growth_outside_lower);
          fee_growth_above = (if tick_upper \<le> tick_current then fee_growth_global - fee_growth_outside_upper
                              else fee_growth_outside_upper)
      in fee_growth_global - fee_growth_below - fee_growth_above)"

datatype tick_error =
    Invalid_Program_Id
  | Rpc_Failed string
  | Account_Too_Small
  | Deserialize_Failed
  | Start_Mismatch int int
  | Not_In_Array

record tick_env =
  whirlpool_program_id :: "pubkey option"
  find_program_address :: "u8 list list \<Rightarrow> pubkey \<Rightarrow> pubkey"
  get_account :: "pubkey \<Rightarrow> string + u8 list"
  tick_array_from_slice :: "u8 list \<Rightarrow> tick_array_account_body option"

definition derive_tick_array_address :: "tick_env \<Rightarrow> pubkey \<Rightarrow> int \<Rightarrow> tick_error + pubkey" where
  "derive_tick_array_address env pool start =
     (case whirlpool_program_id env of
        None \<Rightarrow> Inl Invalid_Program_Id
      | Some program_id \<Rightarrow>
          Inr (find_program_address env
            [map (\<lambda>c. word_of_nat (of_char c)) ''tick_array'', pool, to_le 4 (unat (word_of_int start :: u32))]
            program_id))"

text \<open>\<open>None\<close> is the panic of the division by a zero array size.\<close>

definition get_tick_boundary_state ::
    "tick_env \<Rightarrow> pubkey \<Rightarrow> int \<Rightarrow> u16 \<Rightarrow> (tick_error + tick_boundary_state) option" where
  "get_tick_boundary_state env pool tick_index tick_spacing =
     (case tick_array_start_index tick_index tick_spacing of
        None \<Rightarrow> None
      | Some start \<Rightarrow> Some (
          case derive_tick_array_address env pool start of Inl e \<Rightarrow> Inl e | Inr addr \<Rightarrow>
          (case get_account env addr of
            Inl e \<Rightarrow> Inl (Rpc_Failed e)
          | Inr account \<Rightarrow>
              if length account < 8 then Inl Account_Too_Small
              else (case tick_array_from_slice env (drop 8 account) of
                      None \<Rightarrow> Inl Deserialize_Failed
                    | Some parsed \<Rightarrow>
                        if start_tick_index parsed \<noteq> start then Inl (Start_Mismatch start (start_tick_index parsed))
                        else (case tick_array_offset tick_index (start_tick_index parsed) tick_spacing of
                                None \<Rightarrow> Inl Not_In_Array
                              | Some off \<Rightarrow>
                                  let t = ticks parsed ! off
                                  in Inr \<lparr>tb_fee_growth_outside_a = fee_growth_outside_a t,
                                       tb_fee_growth_outside_b = fee_growth_outside_b t,
                                       tb_initialized = initialized t\<rparr>)))))"

section \<open>Locating a tick\<close>

lemma ceil_neg: "0 < (a :: int) \<Longrightarrow> t < 0 \<Longrightarrow> - ((- t + a - 1) div a) = t div a"
proof -
  assume a: "0 < a" and t: "t < 0"
  have "t div a * a \<le> t" and "t < t div a * a + a"
    using a by (simp_all add: minus_mod_eq_div_mult [symmetric])
  then have "(- t + a - 1) div a = - (t div a)"
    using a by (intro int_div_pos_eq [where r = "- t + a - 1 + t div a * a"]) (auto simp: algebra_simps)
  then show ?thesis by simp
qed

definition array_size :: "u16 \<Rightarrow> int" where
  "array_size sp = uint sp * 88"

lemma uint_u16: "0 \<le> uint sp" "uint sp < 65536" for sp :: u16
  using uint_bounded [of sp] by simp_all

lemma array_size_i32: "is_i32 (array_size sp)" "0 \<le> array_size sp" "array_size sp \<le> 5767080"
proof -
  note u = uint_u16 [of sp]
  show "array_size sp \<le> 5767080" "0 \<le> array_size sp" using u unfolding array_size_def by linarith+
  then show "is_i32 (array_size sp)" unfolding is_i32_def by simp
qed

lemma start_index_floor:
  assumes sp: "0 < uint sp" and lo: "array_size sp - 2 ^ 31 \<le> t" and hi: "t < 2 ^ 31"
  shows "tick_array_start_index t sp = Some (t div array_size sp * array_size sp)"
proof -
  let ?a = "array_size sp"
  have a: "0 < ?a" using sp by (simp add: array_size_def)
  have floor: "t div ?a * ?a \<le> t" "t < t div ?a * ?a + ?a"
    using a by (simp_all add: minus_mod_eq_div_mult [symmetric])
  have res: "is_i32 (t div ?a * ?a)" using floor lo hi by (simp add: is_i32_def)
  have wrap: "wrap_i32 (uint sp * 88) = ?a" using array_size_i32(1) by (simp add: array_size_def)
  show ?thesis
  proof (cases "0 \<le> t")
    case True
    with res a wrap show ?thesis by (simp add: tick_array_start_index_def rust_div_nonneg Let_def)
  next
    case False
    have i: "is_i32 (- t)" "is_i32 (- t + ?a - 1)"
      using False lo array_size_i32 [of sp] a by (simp_all add: is_i32_def)
    have w: "wrap_i32 (wrap_i32 (- t + ?a) - 1) = - t + ?a - 1"
    proof -
      have "wrap_i32 (wrap_i32 x - 1) = wrap_i32 (x - 1)" for x
        unfolding wrap_i32_def by (simp add: mod_diff_left_eq mod_simps algebra_simps)
      with i(2) show ?thesis by simp
    qed
    have q: "is_i32 (t div ?a)" 
    proof -
      have "t \<le> t div ?a" using a False by (metis div_by_1 less_le_not_le linorder_not_le int_one_le_iff_zero_less zdiv_mono2_neg zero_less_one)
      moreover have "t div ?a < 0" using a False by (simp add: pos_imp_zdiv_neg_iff)
      ultimately show ?thesis using lo a by (simp add: is_i32_def)
    qed
    have "0 \<le> - t + ?a - 1" using False a by simp
    with False a w wrap i(1) res q ceil_neg [OF a] show ?thesis
      by (simp add: tick_array_start_index_def rust_div_nonneg Let_def)
  qed
qed

lemma rust_div_mult: "0 < u \<Longrightarrow> rust_div (u * k) u = Some k"
  by (simp add: rust_div_def abs_mult sgn_mult sgn_mult_abs)

lemma offset_iff:
  assumes "0 < uint sp" and "is_i32 (t - s)"
  shows "tick_array_offset t s sp = Some i \<longleftrightarrow> t = s + int i * uint sp \<and> i < 88"
proof -
  let ?u = "uint sp"
  have rem: "rust_rem (t - s) ?u = Some 0 \<longleftrightarrow> ?u dvd t - s"
    using assms(1) by (simp add: rust_rem_0_iff)
  have quot: "rust_div (?u * k) ?u = Some k" for k
    using assms(1) by (rule rust_div_mult)
  show ?thesis
  proof (cases "?u dvd t - s")
    case True
    then obtain k where k: "t - s = ?u * k" by (elim dvdE)
    then have "tick_array_offset t s sp = (if 0 \<le> k \<and> k < 88 then Some (nat k) else None)"
      using assms rem True quot [of k] by (simp add: tick_array_offset_def checked_sub_i32_def)
    moreover have "t = s + int i * ?u \<longleftrightarrow> k = int i"
      using assms(1) k by (metis add_diff_cancel_left' diff_add_cancel add.commute mult.commute mult_cancel_left less_irrefl)
    ultimately show ?thesis by auto
  next
    case False
    then have "t \<noteq> s + int i * ?u" by auto
    with False rem assms show ?thesis by (simp add: tick_array_offset_def checked_sub_i32_def)
  qed
qed

text \<open>Reading the boundary state of a tick never panics for a positive tick spacing and a tick in
  the protocol's range, asks for the array that starts at the floor multiple of the array size
  (also for negative ticks), and on an account of that array returns exactly the entry at the
  tick's position, or reports that a tick that is no multiple of the spacing is not in the array.\<close>

theorem tick_boundary_state_spec:
  assumes "0 < uint sp" and "\<bar>t\<bar> \<le> 443636"
    and "start = t div (uint sp * 88) * (uint sp * 88)"
    and "derive_tick_array_address env pool start = Inr addr"
    and "get_account env addr = Inr (disc @ body)" and "length disc = 8"
    and "tick_array_from_slice env body = Some parsed" and "start_tick_index parsed = start"
  shows "get_tick_boundary_state env pool t sp = Some (
      if uint sp dvd t then
        let e = ticks parsed ! nat ((t - start) div uint sp)
        in Inr \<lparr>tb_fee_growth_outside_a = fee_growth_outside_a e, tb_fee_growth_outside_b = fee_growth_outside_b e,
             tb_initialized = initialized e\<rparr>
      else Inl Not_In_Array)
    \<and> start \<le> t \<and> t < start + uint sp * 88"
proof -
  have a: "0 < array_size sp" using assms(1) by (simp add: array_size_def)
  have st: "start = t div array_size sp * array_size sp" using assms(3) by (simp add: array_size_def)
  have floor: "start \<le> t" "t < start + array_size sp"
    using a by (simp_all add: st minus_mod_eq_div_mult [symmetric])
  have "tick_array_start_index t sp = Some start"
    unfolding st using assms(1,2) array_size_i32(3) [of sp] by (intro start_index_floor) auto
  moreover have i32: "is_i32 (t - start)" using floor array_size_i32(3) [of sp] by (simp add: is_i32_def)
  have dvd_start: "uint sp dvd start" by (simp add: assms(3))
  have "tick_array_offset t start sp = (if uint sp dvd t then Some (nat ((t - start) div uint sp)) else None)"
  proof (cases "uint sp dvd t")
    case True
    with dvd_start obtain k where k: "t - start = uint sp * k" by (meson dvd_diff dvdE)
    then have "0 \<le> uint sp * k" "uint sp * k < uint sp * 88"
      using floor unfolding array_size_def by linarith+
    then have "0 \<le> k" "k < 88"
      using assms(1) by (metis zero_le_mult_iff not_less, metis mult_less_cancel_left_pos)
    with k assms(1) offset_iff [OF assms(1) i32, of "nat k"] True show ?thesis by (simp add: mult.commute)
  next
    case False
    with dvd_start have "t \<noteq> start + int i * uint sp" for i by auto
    with False offset_iff [OF assms(1) i32] show ?thesis by (metis not_None_eq)
  qed
  ultimately show ?thesis
    using assms(4-8) floor by (simp add: get_tick_boundary_state_def Let_def array_size_def)
qed

definition demo_env :: tick_env where
  "demo_env = \<lparr>whirlpool_program_id = Some [], find_program_address = (\<lambda>_ _. [7]), get_account = (\<lambda>_. Inr (replicate 8 0 @ [])),
     tick_array_from_slice = (\<lambda>_. Some \<lparr>whirlpool = [], start_tick_index = -5632,
       ticks = replicate 88 \<lparr>initialized = True, liquidity_gross = 0, liquidity_net = 0, fee_growth_outside_a = 3,
         fee_growth_outside_b = 4, reward_growths_outside = [0, 0, 0]\<rparr>\<rparr>)\<rparr>"

theorem tick_boundary_state_spec_witness:
  "get_tick_boundary_state demo_env [] (- 128) 64 = Some (Inr \<lparr>tb_fee_growth_outside_a = 3,
     tb_fee_growth_outside_b = 4, tb_initialized = True\<rparr>)"
proof -
  obtain parsed where p: "tick_array_from_slice demo_env [] = Some parsed" "start_tick_index parsed = - 5632"
    "ticks parsed ! 86 = \<lparr>initialized = True, liquidity_gross = 0, liquidity_net = 0, fee_growth_outside_a = 3,
         fee_growth_outside_b = 4, reward_growths_outside = [0, 0, 0]\<rparr>"
    by (simp add: demo_env_def del: replicate.simps)
  have g: "derive_tick_array_address demo_env [] (- 5632) = Inr [7]"
    "get_account demo_env [7] = Inr (replicate 8 0 @ [])"
    by (simp_all add: demo_env_def derive_tick_array_address_def)
  from tick_boundary_state_spec [of 64 "- 128" "- 5632", OF _ _ _ g _ p(1,2)] p(3) show ?thesis by simp
qed

text \<open>With a tick spacing of zero the division by the array size panics before the range check.\<close>

lemma zero_spacing_panics: "get_tick_boundary_state env pool t 0 = None"
  by (simp add: get_tick_boundary_state_def tick_array_start_index_def rust_div_def Let_def wrap_i32_def)

section \<open>Fee growth inside a range\<close>

text \<open>The fee growth inside a range is computed correctly modulo \<open>2 ^ 128\<close>: if the global growth is
  the sum of the growths below, inside and above the range and each boundary stores the growth on
  the side of it that the current tick is not on, the result is the growth inside, whatever the
  position of the current tick and however often the accumulators wrapped around.\<close>

theorem fee_growth_inside_correct:
  "compute_fee_growth_inside_single (g_below + g_inside + g_above)
      (if lower \<le> current then g_below else g_inside + g_above)
      (if current < upper then g_above else g_below + g_inside) current lower upper = g_inside"
  by (simp add: compute_fee_growth_inside_single_def Let_def)

end
