(* ===== verification/Swap_Events.thy ===== *)
theory Swap_Events
  imports Prelude
begin

text \<open>
  \<^verbatim>\<open>crates/protocols/src/events\<close> (\<^verbatim>\<open>whirlpool_traded.rs\<close>, \<^verbatim>\<open>raydium_swap_event.rs\<close>,
  \<^verbatim>\<open>meteora_swap_event.rs\<close>): decoding the swap event of a pool from the log lines of a
  transaction. Base64, the address conversions of the Solana SDK and the Borsh deserializers are
  parameters.
\<close>

record whirlpool_traded_event =
  tev_whirlpool :: "u8 list"
  a_to_b :: bool
  pre_sqrt_price :: u128
  post_sqrt_price :: u128
  input_amount :: u64
  output_amount :: u64
  input_transfer_fee :: u64
  output_transfer_fee :: u64
  lp_fee :: u64
  tev_protocol_fee :: u64

record meteora_dlmm_swap_event =
  lb_pair :: pubkey
  mev_from :: pubkey
  start_bin_id :: int
  end_bin_id :: int
  amount_in :: u64
  amount_out :: u64
  swap_for_y :: bool
  mev_fee :: u64
  mev_protocol_fee :: u64
  mev_fee_bps :: u128
  host_fee :: u64

text \<open>What the parsers use of other crates; \<open>'r\<close> is Raydium's swap event.\<close>

record 'r event_env =
  base64 :: "string \<Rightarrow> u8 list option"
  pubkey_from_str :: "string \<Rightarrow> pubkey option"
  pubkey_to_string :: "pubkey \<Rightarrow> string"
  traded_deserialize :: "u8 list \<Rightarrow> whirlpool_traded_event option"
  raydium_deserialize :: "u8 list \<Rightarrow> 'r option"
  raydium_pool_state :: "'r \<Rightarrow> pubkey"
  meteora_deserialize :: "u8 list \<Rightarrow> meteora_dlmm_swap_event option"

definition base64_decode :: "'r event_env \<Rightarrow> string \<Rightarrow> u8 list option" where
  "base64_decode env s = base64 env (trim s)"

definition strip_prefix :: "string \<Rightarrow> string \<Rightarrow> string option" where
  "strip_prefix p s = (if prefix p s then Some (drop (length p) s) else None)"

definition program_data :: "string \<Rightarrow> string option" where
  "program_data line =
     map_option trim (case strip_prefix ''Program data: '' line of
                        Some rest \<Rightarrow> Some rest
                      | None \<Rightarrow> strip_prefix ''Program Data: '' line)"

definition TRADED_EVENT_DISCRIMINATOR :: "u8 list" where
  "TRADED_EVENT_DISCRIMINATOR = [225, 202, 73, 175, 147, 43, 160, 150]"

definition SWAP_EVENT_DISCRIMINATOR :: "u8 list" where
  "SWAP_EVENT_DISCRIMINATOR = [64, 198, 205, 232, 38, 8, 113, 226]"

definition METEORA_SWAP_EVENT_DISCRIMINATOR :: "u8 list" where
  "METEORA_SWAP_EVENT_DISCRIMINATOR = [81, 108, 227, 190, 205, 208, 10, 196]"

text \<open>The question marks inside the loops return from the function.\<close>

fun traded_loop :: "'r event_env \<Rightarrow> pubkey \<Rightarrow> string list \<Rightarrow> whirlpool_traded_event option" where
  "traded_loop env pool [] = None"
| "traded_loop env pool (line # lines) =
     (case program_data line of
        None \<Rightarrow> None
      | Some rest \<Rightarrow>
          (case base64_decode env rest of
             None \<Rightarrow> None
           | Some bytes \<Rightarrow>
               if length bytes < 8 + 32 then traded_loop env pool lines
               else if take 8 bytes \<noteq> TRADED_EVENT_DISCRIMINATOR then traded_loop env pool lines
               else (case traded_deserialize env (drop 8 bytes) of
                       None \<Rightarrow> None
                     | Some ev \<Rightarrow> if tev_whirlpool ev = pool then Some ev else traded_loop env pool lines)))"

definition parse_traded_event_for_pool :: "'r event_env \<Rightarrow> string list \<Rightarrow> string \<Rightarrow> whirlpool_traded_event option" where
  "parse_traded_event_for_pool env logs pool_address =
     (case pubkey_from_str env pool_address of None \<Rightarrow> None | Some pool \<Rightarrow> traded_loop env pool logs)"

fun parse_raydium_swap_event_for_pool :: "'r event_env \<Rightarrow> string list \<Rightarrow> string \<Rightarrow> 'r option" where
  "parse_raydium_swap_event_for_pool env [] pool_address = None"
| "parse_raydium_swap_event_for_pool env (line # lines) pool_address =
     (case program_data line of
        None \<Rightarrow> None
      | Some rest \<Rightarrow>
          (case base64_decode env rest of
             None \<Rightarrow> None
           | Some bytes \<Rightarrow>
               if length bytes < 8 + 32 then parse_raydium_swap_event_for_pool env lines pool_address
               else if take 8 bytes \<noteq> SWAP_EVENT_DISCRIMINATOR
               then parse_raydium_swap_event_for_pool env lines pool_address
               else (case raydium_deserialize env (drop 8 bytes) of
                       None \<Rightarrow> None
                     | Some ev \<Rightarrow>
                         if pubkey_to_string env (raydium_pool_state env ev) = pool_address then Some ev
                         else parse_raydium_swap_event_for_pool env lines pool_address)))"

fun parse_meteora_swap_event_for_pool :: "'r event_env \<Rightarrow> string list \<Rightarrow> string \<Rightarrow> meteora_dlmm_swap_event option" where
  "parse_meteora_swap_event_for_pool env [] pool_address = None"
| "parse_meteora_swap_event_for_pool env (line # lines) pool_address =
     (case program_data line of
        None \<Rightarrow> None
      | Some rest \<Rightarrow>
          (case base64_decode env rest of
             None \<Rightarrow> None
           | Some bytes \<Rightarrow>
               if length bytes < 8 + 32 then parse_meteora_swap_event_for_pool env lines pool_address
               else if take 8 bytes \<noteq> METEORA_SWAP_EVENT_DISCRIMINATOR
               then parse_meteora_swap_event_for_pool env lines pool_address
               else (case meteora_deserialize env (drop 8 bytes) of
                       None \<Rightarrow> None
                     | Some ev \<Rightarrow>
                         if pubkey_to_string env (lb_pair ev) = pool_address then Some ev
                         else parse_meteora_swap_event_for_pool env lines pool_address)))"

section \<open>The first event of the pool\<close>

text \<open>The event a log line carries: \<open>None\<close> when the loop gives up on the line, \<open>Some None\<close> when it skips it.\<close>

definition line_event :: "'r event_env \<Rightarrow> u8 list \<Rightarrow> (u8 list \<Rightarrow> 'e option) \<Rightarrow> string \<Rightarrow> 'e option option" where
  "line_event env disc deser line =
     Option.bind (Option.bind (program_data line) (base64_decode env))
       (\<lambda>bytes. if length bytes < 40 \<or> take 8 bytes \<noteq> disc then Some None
                else map_option Some (deser (drop 8 bytes)))"

fun first_event :: "('l \<Rightarrow> 'e option option) \<Rightarrow> ('e \<Rightarrow> bool) \<Rightarrow> 'l list \<Rightarrow> 'e option" where
  "first_event f p [] = None"
| "first_event f p (l # ls) =
     (case f l of
        None \<Rightarrow> None
      | Some None \<Rightarrow> first_event f p ls
      | Some (Some e) \<Rightarrow> if p e then Some e else first_event f p ls)"

lemma traded_loop_first:
  "traded_loop env pool logs =
     first_event (line_event env TRADED_EVENT_DISCRIMINATOR (traded_deserialize env)) (\<lambda>e. tev_whirlpool e = pool) logs"
  by (induction logs) (auto simp: line_event_def split: option.splits)

lemma raydium_first:
  "parse_raydium_swap_event_for_pool env logs a =
     first_event (line_event env SWAP_EVENT_DISCRIMINATOR (raydium_deserialize env))
       (\<lambda>e. pubkey_to_string env (raydium_pool_state env e) = a) logs"
  by (induction logs) (auto simp: line_event_def split: option.splits)

lemma meteora_first:
  "parse_meteora_swap_event_for_pool env logs a =
     first_event (line_event env METEORA_SWAP_EVENT_DISCRIMINATOR (meteora_deserialize env))
       (\<lambda>e. pubkey_to_string env (lb_pair e) = a) logs"
  by (induction logs) (auto simp: line_event_def split: option.splits)

lemma first_event_Some:
  "first_event f p ls = Some e \<longleftrightarrow>
   (\<exists>pre l post. ls = pre @ l # post \<and> f l = Some (Some e) \<and> p e
     \<and> (\<forall>k \<in> set pre. \<exists>x. f k = Some x \<and> (case x of None \<Rightarrow> True | Some e' \<Rightarrow> \<not> p e')))"
proof (induction ls)
  case (Cons a ls)
  show ?case
  proof
    assume "first_event f p (a # ls) = Some e"
    then consider "f a = Some (Some e)" "p e"
      | x where "f a = Some x" "case x of None \<Rightarrow> True | Some e' \<Rightarrow> \<not> p e'" "first_event f p ls = Some e"
      by (auto split: option.splits if_splits)
    then show "\<exists>pre l post. a # ls = pre @ l # post \<and> f l = Some (Some e) \<and> p e
        \<and> (\<forall>k \<in> set pre. \<exists>x. f k = Some x \<and> (case x of None \<Rightarrow> True | Some e' \<Rightarrow> \<not> p e'))"
    proof cases
      case 1
      then show ?thesis by (intro exI [of _ "[]"]) auto
    next
      case 2
      then obtain pre l post where "ls = pre @ l # post" "f l = Some (Some e)" "p e"
        "\<forall>k \<in> set pre. \<exists>x. f k = Some x \<and> (case x of None \<Rightarrow> True | Some e' \<Rightarrow> \<not> p e')"
        using Cons.IH by blast
      with 2 show ?thesis by (intro exI [of _ "a # pre"] exI [of _ l] exI [of _ post]) auto
    qed
  next
    assume "\<exists>pre l post. a # ls = pre @ l # post \<and> f l = Some (Some e) \<and> p e
        \<and> (\<forall>k \<in> set pre. \<exists>x. f k = Some x \<and> (case x of None \<Rightarrow> True | Some e' \<Rightarrow> \<not> p e'))"
    then obtain pre l post where d: "a # ls = pre @ l # post" "f l = Some (Some e)" "p e"
      "\<forall>k \<in> set pre. \<exists>x. f k = Some x \<and> (case x of None \<Rightarrow> True | Some e' \<Rightarrow> \<not> p e')" by blast
    show "first_event f p (a # ls) = Some e"
    proof (cases pre)
      case Nil
      with d show ?thesis by simp
    next
      case (Cons b pre')
      with d Cons.IH have "first_event f p ls = Some e" by auto
      with d Cons show ?thesis by (auto split: option.splits)
    qed
  qed
qed simp

text \<open>A parser returns an event exactly if it is the first event of the pool in the log and every
  line before it is a well-formed data line: a single ordinary log line, such as the invocation
  line that starts every transaction log, or a data line that is no valid Base64, hides every
  event after it. Stated for the Whirlpool parser.\<close>

theorem traded_event_first:
  assumes "pubkey_from_str env pool_address = Some pool"
  shows "parse_traded_event_for_pool env logs pool_address = Some ev \<longleftrightarrow>
    (\<exists>pre l post. logs = pre @ l # post
       \<and> line_event env TRADED_EVENT_DISCRIMINATOR (traded_deserialize env) l = Some (Some ev)
       \<and> tev_whirlpool ev = pool
       \<and> (\<forall>k \<in> set pre. \<exists>x. line_event env TRADED_EVENT_DISCRIMINATOR (traded_deserialize env) k = Some x
            \<and> (case x of None \<Rightarrow> True | Some ev' \<Rightarrow> tev_whirlpool ev' \<noteq> pool)))"
  using assms by (simp add: parse_traded_event_for_pool_def traded_loop_first first_event_Some)

definition traded_demo_event :: whirlpool_traded_event where
  "traded_demo_event = \<lparr>tev_whirlpool = [1], a_to_b = True, pre_sqrt_price = 1, post_sqrt_price = 2, input_amount = 3,
     output_amount = 4, input_transfer_fee = 0, output_transfer_fee = 0, lp_fee = 5, tev_protocol_fee = 6\<rparr>"

definition traded_demo_env :: "unit event_env" where
  "traded_demo_env = \<lparr>base64 = (\<lambda>s. Some (TRADED_EVENT_DISCRIMINATOR @ replicate 32 0)), pubkey_from_str = (\<lambda>_. Some [1]),
     pubkey_to_string = (\<lambda>_. []), traded_deserialize = (\<lambda>_. Some traded_demo_event), raydium_deserialize = (\<lambda>_. None),
     raydium_pool_state = (\<lambda>_. []), meteora_deserialize = (\<lambda>_. None)\<rparr>"

theorem traded_event_first_witness:
  "parse_traded_event_for_pool traded_demo_env [''Program data: QUJD''] ''pool'' = Some traded_demo_event"
proof -
  have "line_event traded_demo_env TRADED_EVENT_DISCRIMINATOR (traded_deserialize traded_demo_env) ''Program data: QUJD'' = Some (Some traded_demo_event)"
    by (simp add: line_event_def program_data_def strip_prefix_def base64_decode_def traded_demo_env_def TRADED_EVENT_DISCRIMINATOR_def)
  moreover have "tev_whirlpool traded_demo_event = [1]" by (simp add: traded_demo_event_def)
  moreover have "pubkey_from_str traded_demo_env ''pool'' = Some [1]" by (simp add: traded_demo_env_def)
  ultimately show ?thesis
    using traded_event_first [of traded_demo_env "''pool''" "[1]" "[''Program data: QUJD'']" traded_demo_event]
    by (metis append_Nil empty_iff list.set(1))
qed

text \<open>A line that is not a data line ends all three parsers without an event.\<close>

lemma ordinary_line_hides_events:
  assumes "program_data line = None"
  shows "parse_traded_event_for_pool env (line # logs) a = None"
    and "parse_raydium_swap_event_for_pool env (line # logs) a = None"
    and "parse_meteora_swap_event_for_pool env (line # logs) a = None"
  using assms by (simp_all add: parse_traded_event_for_pool_def split: option.splits)

lemma invoke_line_is_ordinary: "program_data ''Program whirLbMi invoke [1]'' = None"
  by (simp add: program_data_def strip_prefix_def)

end
