(* ===== verification/Q64_Math.thy ===== *)
theory Q64_Math
  imports Prelude "HOL-Library.Monad_Syntax"
begin

text \<open>
  The integer liquidity mathematics on Q64.64 square-root prices: the module \<^verbatim>\<open>q64_64\<close> of
  \<^verbatim>\<open>crates/domain/src/math/concentrated_liquidity.rs\<close>, and the token amount of
  \<^verbatim>\<open>crates/protocols/src/orca/deposit_quote.rs\<close>. The 256-bit integers of \<^verbatim>\<open>primitive_types\<close>
  are a parameter: a type with its operations, and \<open>u256_laws\<close> as their documented behaviour
  (operators panic on overflow and on division by zero, casts panic when the value does not fit).
  A panic is \<open>None\<close>.
\<close>

record 'u u256_ops =
  u_val :: "'u \<Rightarrow> nat"
  u_from :: "nat \<Rightarrow> 'u"
  u_add :: "'u \<Rightarrow> 'u \<Rightarrow> 'u option"
  u_sub :: "'u \<Rightarrow> 'u \<Rightarrow> 'u option"
  u_mul :: "'u \<Rightarrow> 'u \<Rightarrow> 'u option"
  u_div :: "'u \<Rightarrow> 'u \<Rightarrow> 'u option"
  u_min :: "'u \<Rightarrow> 'u \<Rightarrow> 'u"
  u_gt :: "'u \<Rightarrow> 'u \<Rightarrow> bool"
  as_u128 :: "'u \<Rightarrow> u128 option"
  as_u64 :: "'u \<Rightarrow> u64 option"

definition u256_laws :: "'u u256_ops \<Rightarrow> bool" where
  "u256_laws u \<longleftrightarrow>
     (\<forall>a. u_val u a < 2 ^ 256)
   \<and> (\<forall>n. n < 2 ^ 128 \<longrightarrow> u_val u (u_from u n) = n)
   \<and> (\<forall>a b. map_option (u_val u) (u_add u a b) =
        (if u_val u a + u_val u b < 2 ^ 256 then Some (u_val u a + u_val u b) else None))
   \<and> (\<forall>a b. map_option (u_val u) (u_sub u a b) =
        (if u_val u b \<le> u_val u a then Some (u_val u a - u_val u b) else None))
   \<and> (\<forall>a b. map_option (u_val u) (u_mul u a b) =
        (if u_val u a * u_val u b < 2 ^ 256 then Some (u_val u a * u_val u b) else None))
   \<and> (\<forall>a b. map_option (u_val u) (u_div u a b) =
        (if u_val u b = 0 then None else Some (u_val u a div u_val u b)))
   \<and> (\<forall>a b. u_val u (u_min u a b) = min (u_val u a) (u_val u b))
   \<and> (\<forall>a b. u_gt u a b \<longleftrightarrow> u_val u b < u_val u a)
   \<and> (\<forall>a. as_u128 u a = (if u_val u a < 2 ^ 128 then Some (word_of_nat (u_val u a)) else None))
   \<and> (\<forall>a. as_u64 u a = (if u_val u a < 2 ^ 64 then Some (word_of_nat (u_val u a)) else None))"

definition Q64 :: u128 where
  "Q64 = push_bit 64 1"

definition order_prices :: "u128 \<Rightarrow> u128 \<Rightarrow> u128 \<times> u128" where
  "order_prices a b = (if a < b then (a, b) else (b, a))"

definition liquidity_from_amount0 :: "'u u256_ops \<Rightarrow> u64 \<Rightarrow> u128 \<Rightarrow> u128 \<Rightarrow> u128 option" where
  "liquidity_from_amount0 u amount0 sqrt_lower sqrt_upper =
     (if amount0 = 0 \<or> sqrt_lower = 0 \<or> sqrt_upper = 0 then Some 0
      else let (sl, su) = order_prices sqrt_lower sqrt_upper;
               delta = saturating_sub_w su sl
           in if delta = 0 then Some 0
              else do {
                m \<leftarrow> u_mul u (u_from u (unat amount0)) (u_from u (unat sl));
                num \<leftarrow> u_mul u m (u_from u (unat su));
                liq \<leftarrow> u_div u num (u_from u (unat delta));
                as_u128 u (u_min u liq (u_from u (2 ^ 128 - 1)))
              })"

definition liquidity_from_amount1 :: "'u u256_ops \<Rightarrow> u64 \<Rightarrow> u128 \<Rightarrow> u128 \<Rightarrow> u128 option" where
  "liquidity_from_amount1 u amount1 sqrt_lower sqrt_upper =
     (if amount1 = 0 then Some 0
      else let (sl, su) = order_prices sqrt_lower sqrt_upper;
               delta = saturating_sub_w su sl
           in if delta = 0 then Some 0
              else do {
                num \<leftarrow> u_mul u (u_from u (unat amount1)) (u_from u (unat Q64));
                liq \<leftarrow> u_div u num (u_from u (unat delta));
                as_u128 u (u_min u liq (u_from u (2 ^ 128 - 1)))
              })"

definition liquidity_from_amount0_in_range :: "'u u256_ops \<Rightarrow> u64 \<Rightarrow> u128 \<Rightarrow> u128 \<Rightarrow> u128 option" where
  "liquidity_from_amount0_in_range u amount0 sqrt_p sqrt_upper =
     (if amount0 = 0 \<or> sqrt_p = 0 \<or> sqrt_upper = 0 then Some 0
      else let (sp, su) = order_prices sqrt_p sqrt_upper;
               delta = saturating_sub_w su sp
           in if delta = 0 then Some 0
              else do {
                m \<leftarrow> u_mul u (u_from u (unat amount0)) (u_from u (unat sp));
                num \<leftarrow> u_mul u m (u_from u (unat su));
                liq \<leftarrow> u_div u num (u_from u (unat delta));
                as_u128 u (u_min u liq (u_from u (2 ^ 128 - 1)))
              })"

definition liquidity_from_amount1_in_range :: "'u u256_ops \<Rightarrow> u64 \<Rightarrow> u128 \<Rightarrow> u128 \<Rightarrow> u128 option" where
  "liquidity_from_amount1_in_range u amount1 sqrt_lower sqrt_p =
     (if amount1 = 0 then Some 0
      else let (sl, sp) = order_prices sqrt_lower sqrt_p;
               delta = saturating_sub_w sp sl
           in if delta = 0 then Some 0
              else do {
                num \<leftarrow> u_mul u (u_from u (unat amount1)) (u_from u (unat Q64));
                liq \<leftarrow> u_div u num (u_from u (unat delta));
                as_u128 u (u_min u liq (u_from u (2 ^ 128 - 1)))
              })"

text \<open>The token0 budget that remains when \<open>y\<close> of the value is kept in token1.\<close>

definition token0_budget :: "'u u256_ops \<Rightarrow> u64 \<Rightarrow> u128 \<Rightarrow> u64 \<Rightarrow> u64 option" where
  "token0_budget u value_token1 price_q64 mid_y =
     do {
       m \<leftarrow> u_mul u (u_from u (unat (value_token1 - mid_y))) (u_from u (unat Q64));
       q \<leftarrow> u_div u m (u_from u (unat price_q64));
       as_u64 u (u_min u q (u_from u (2 ^ 64 - 1)))
     }"

text \<open>The binary search; the first argument counts the iterations that are left.\<close>

fun max_liquidity_loop ::
    "nat \<Rightarrow> 'u u256_ops \<Rightarrow> u64 \<Rightarrow> u128 \<Rightarrow> u128 \<Rightarrow> u128 \<Rightarrow> u128 \<Rightarrow> u64 \<Rightarrow> u64 \<Rightarrow> u128 \<times> u64 \<times> u64
     \<Rightarrow> (u128 \<times> u64 \<times> u64) option" where
  "max_liquidity_loop 0 u v price sqrt_lower sqrt_p sqrt_upper lo_y hi_y best = Some best"
| "max_liquidity_loop (Suc n) u v price sqrt_lower sqrt_p sqrt_upper lo_y hi_y best =
     (let mid_y = lo_y + (hi_y - lo_y) div 2
      in do {
        x \<leftarrow> token0_budget u v price mid_y;
        l0 \<leftarrow> liquidity_from_amount0_in_range u x sqrt_p sqrt_upper;
        l1 \<leftarrow> liquidity_from_amount1_in_range u mid_y sqrt_lower sqrt_p;
        (let l = min l0 l1;
             best = (if fst best < l then (l, x, mid_y) else best);
             lo_y = (if l1 < l0 then saturating_add_w mid_y 1 else lo_y);
             hi_y = (if l1 < l0 then hi_y else mid_y)
         in if hi_y \<le> lo_y then Some best
            else max_liquidity_loop n u v price sqrt_lower sqrt_p sqrt_upper lo_y hi_y best)
      })"

definition max_liquidity_for_value_in_range ::
    "'u u256_ops \<Rightarrow> u64 \<Rightarrow> u128 \<Rightarrow> u128 \<Rightarrow> u128 \<Rightarrow> u128 \<Rightarrow> (u128 \<times> u64 \<times> u64) option" where
  "max_liquidity_for_value_in_range u value_token1 price_q64 sqrt_lower sqrt_p sqrt_upper =
     (if value_token1 = 0 \<or> price_q64 = 0 then Some (0, 0, 0)
      else max_liquidity_loop 64 u value_token1 price_q64 sqrt_lower sqrt_p sqrt_upper 0 value_token1 (0, 0, 0))"

definition amount_a_in_range_q64 :: "'u u256_ops \<Rightarrow> u128 \<Rightarrow> u128 \<Rightarrow> u128 \<Rightarrow> u64 option" where
  "amount_a_in_range_q64 u liq sqrt_current sqrt_upper =
     (if sqrt_current = 0 \<or> sqrt_upper = 0 \<or> sqrt_upper \<le> sqrt_current then Some 0
      else let l = u_from u (unat liq); sc = u_from u (unat sqrt_current); su = u_from u (unat sqrt_upper)
           in do {
             diff \<leftarrow> u_sub u su sc;
             (if u_val u diff = 0 then Some 0
              else do {
                m \<leftarrow> u_mul u l diff;
                num \<leftarrow> u_mul u m (u_from u (2 ^ 64));
                den \<leftarrow> u_mul u sc su;
                (if u_val u den = 0 then Some 0
                 else do {
                   q \<leftarrow> u_div u num den;
                   (if u_gt u q (u_from u (2 ^ 64 - 1)) then Some (word_of_nat (2 ^ 64 - 1)) else as_u64 u q)
                 })
              })
           })"

section \<open>256-bit words have the laws\<close>

definition word_ops :: "u256 u256_ops" where
  "word_ops = \<lparr>u_val = unat, u_from = word_of_nat, u_add = checked_add_w,
     u_sub = (\<lambda>a b. if b \<le> a then Some (a - b) else None), u_mul = checked_mul_w,
     u_div = (\<lambda>a b. if b = 0 then None else Some (a div b)), u_min = min, u_gt = (\<lambda>a b. b < a),
     as_u128 = (\<lambda>a. if unat a < 2 ^ 128 then Some (word_of_nat (unat a)) else None),
     as_u64 = (\<lambda>a. if unat a < 2 ^ 64 then Some (word_of_nat (unat a)) else None)\<rparr>"

lemma unat_min: "unat (min a b) = min (unat a) (unat b)" for a b :: "'a::len word"
  by (simp add: min_def word_le_nat_alt)

lemma word_ops_laws: "u256_laws word_ops"
proof -
  have "unat a < 2 ^ 256" for a :: u256 using unat_lt_2p [of a] by simp
  moreover have "unat (word_of_nat n :: u256) = n" if "n < 2 ^ 128" for n
    using that by (simp add: unat_of_nat)
  ultimately show ?thesis
    by (auto simp: u256_laws_def word_ops_def checked_mul_w_def checked_add_w_def unat_mult_lt unat_add_lt
        unat_min word_le_nat_alt word_less_nat_alt unat_sub unat_div_distrib unat_eq_zero)
qed

section \<open>Closed forms\<close>

locale u256 =
  fixes u :: "'u u256_ops"
  assumes laws: "u256_laws u"
begin

lemma from_val [simp]: "n < 2 ^ 128 \<Longrightarrow> u_val u (u_from u n) = n"
  using laws by (simp add: u256_laws_def)

lemma from_word [simp]: "u_val u (u_from u (unat (w :: u64))) = unat w" "u_val u (u_from u (unat (z :: u128))) = unat z"
  using unat_lt_2p [of w] unat_lt_2p [of z] by simp_all

lemma mul_cases:
  obtains (ok) c where "u_mul u a b = Some c" "u_val u c = u_val u a * u_val u b" "u_val u a * u_val u b < 2 ^ 256"
  | (panic) "u_mul u a b = None" "2 ^ 256 \<le> u_val u a * u_val u b"
proof -
  have "map_option (u_val u) (u_mul u a b) =
      (if u_val u a * u_val u b < 2 ^ 256 then Some (u_val u a * u_val u b) else None)"
    using laws by (simp add: u256_laws_def)
  then show thesis by (cases "u_mul u a b") (auto intro: that split: if_splits)
qed

lemma div_ok: "u_val u b \<noteq> 0 \<Longrightarrow> \<exists>c. u_div u a b = Some c \<and> u_val u c = u_val u a div u_val u b"
proof -
  assume "u_val u b \<noteq> 0"
  then have "map_option (u_val u) (u_div u a b) = Some (u_val u a div u_val u b)"
    using laws by (simp add: u256_laws_def)
  then show ?thesis by auto
qed

lemma sub_ok: "u_val u b \<le> u_val u a \<Longrightarrow> \<exists>c. u_sub u a b = Some c \<and> u_val u c = u_val u a - u_val u b"
proof -
  assume "u_val u b \<le> u_val u a"
  then have "map_option (u_val u) (u_sub u a b) = Some (u_val u a - u_val u b)"
    using laws by (simp add: u256_laws_def)
  then show ?thesis by auto
qed

lemma saturate_u128: "as_u128 u (u_min u a (u_from u (2 ^ 128 - 1))) = Some (word_of_nat (min (u_val u a) (2 ^ 128 - 1)))"
  using laws by (simp add: u256_laws_def min_less_iff_disj)

lemma saturate_u64: "as_u64 u (u_min u a (u_from u (2 ^ 64 - 1))) = Some (word_of_nat (min (u_val u a) (2 ^ 64 - 1)))"
  using laws by (simp add: u256_laws_def min_less_iff_disj)

lemma as_u64_val: "as_u64 u a = (if u_val u a < 2 ^ 64 then Some (word_of_nat (u_val u a)) else None)"
  and gt_val: "u_gt u a b \<longleftrightarrow> u_val u b < u_val u a"
  using laws by (simp_all add: u256_laws_def)

text \<open>The two quotients all four liquidity functions compute.\<close>

lemma quotient0:
  assumes "delta \<noteq> 0"
  shows "do {
      m \<leftarrow> u_mul u (u_from u (unat (n :: u64))) (u_from u (unat (sl :: u128)));
      num \<leftarrow> u_mul u m (u_from u (unat (su :: u128)));
      liq \<leftarrow> u_div u num (u_from u (unat (delta :: u128)));
      as_u128 u (u_min u liq (u_from u (2 ^ 128 - 1)))
    } = (if unat n * unat sl * unat su < 2 ^ 256
         then Some (word_of_nat (min (unat n * unat sl * unat su div unat delta) (2 ^ 128 - 1))) else None)"
proof -
  have d: "u_val u (u_from u (unat delta)) \<noteq> 0" using assms by (simp add: unat_eq_zero)
  have "unat n * unat sl < 2 ^ 64 * 2 ^ 128"
    using unat_lt_2p [of n] unat_lt_2p [of sl] by (intro mult_strict_mono) simp_all
  then obtain m where m: "u_mul u (u_from u (unat n)) (u_from u (unat sl)) = Some m" "u_val u m = unat n * unat sl"
    by (rule_tac mul_cases [of "u_from u (unat n)" "u_from u (unat sl)"]) auto
  show ?thesis
  proof (cases rule: mul_cases [of m "u_from u (unat su)"])
    case (ok c)
    with div_ok [OF d, of c] m show ?thesis by (auto simp: saturate_u128 [simplified])
  next
    case panic
    with m show ?thesis by simp
  qed
qed

lemma unat_Q64: "unat Q64 = 2 ^ 64"
  by (simp add: Q64_def push_bit_eq_mult)

lemma quotient1:
  assumes "delta \<noteq> 0"
  shows "do {
      num \<leftarrow> u_mul u (u_from u (unat (n :: u64))) (u_from u (unat Q64));
      liq \<leftarrow> u_div u num (u_from u (unat (delta :: u128)));
      as_u128 u (u_min u liq (u_from u (2 ^ 128 - 1)))
    } = Some (word_of_nat (min (unat n * 2 ^ 64 div unat delta) (2 ^ 128 - 1)))"
proof -
  have d: "u_val u (u_from u (unat delta)) \<noteq> 0" using assms by (simp add: unat_eq_zero)
  have "unat n * unat Q64 < 2 ^ 256" using unat_lt_2p [of n] by (simp add: unat_Q64)
  then obtain m where m: "u_mul u (u_from u (unat n)) (u_from u (unat Q64)) = Some m" "u_val u m = unat n * 2 ^ 64"
    by (rule_tac mul_cases [of "u_from u (unat n)" "u_from u (unat Q64)"]) (auto simp: unat_Q64)
  with div_ok [OF d, of m] show ?thesis by (auto simp: saturate_u128 [simplified])
qed

lemma budget:
  assumes "price \<noteq> 0"
  shows "token0_budget u v price y = Some (word_of_nat (min (unat (v - y) * 2 ^ 64 div unat price) (2 ^ 64 - 1)))"
proof -
  have d: "u_val u (u_from u (unat price)) \<noteq> 0" using assms by (simp add: unat_eq_zero)
  have "unat (v - y) * unat Q64 < 2 ^ 256" using unat_lt_2p [of "v - y"] by (simp add: unat_Q64)
  then obtain m where m: "u_mul u (u_from u (unat (v - y))) (u_from u (unat Q64)) = Some m"
      "u_val u m = unat (v - y) * 2 ^ 64"
    by (rule_tac mul_cases [of "u_from u (unat (v - y))" "u_from u (unat Q64)"]) (auto simp: unat_Q64)
  with div_ok [OF d, of m] show ?thesis by (auto simp: token0_budget_def saturate_u64 [simplified])
qed

end

interpretation words: u256 word_ops
  by unfold_locales (rule word_ops_laws)

text \<open>The closed forms on natural numbers: \<open>lo\<close> and \<open>hi\<close> are the smaller and the larger price.\<close>

definition liq0 :: "nat \<Rightarrow> nat \<Rightarrow> nat \<Rightarrow> nat" where
  "liq0 n lo hi = (if lo = hi then 0 else min (n * lo * hi div (hi - lo)) (2 ^ 128 - 1))"

definition liq1 :: "nat \<Rightarrow> nat \<Rightarrow> nat \<Rightarrow> nat" where
  "liq1 n lo hi = (if lo = hi then 0 else min (n * 2 ^ 64 div (hi - lo)) (2 ^ 128 - 1))"

lemma order_prices_nat:
  "order_prices a b = (sl, su) \<Longrightarrow> unat sl = min (unat a) (unat b) \<and> unat su = max (unat a) (unat b)
     \<and> unat (saturating_sub_w su sl) = max (unat a) (unat b) - min (unat a) (unat b)"
  by (auto simp: order_prices_def word_less_nat_alt unat_saturating_sub split: if_splits)

lemma order_prices_delta: "order_prices a b = (sl, su) \<Longrightarrow> saturating_sub_w su sl = 0 \<longleftrightarrow> a = b"
  by (auto simp: order_prices_def saturating_sub_w_def word_less_nat_alt word_le_nat_alt split: if_splits)

lemma order_prices_prod: "order_prices a b = (sl, su) \<Longrightarrow> unat n * unat sl * unat su = unat n * unat a * unat b"
  by (auto simp: order_prices_def split: if_splits)

lemma liq0_zero: "n = 0 \<or> lo = 0 \<Longrightarrow> liq0 n lo hi = 0"
  by (auto simp: liq0_def)

lemma liquidity_from_amount0_closed:
  assumes "u256_laws u"
  shows "liquidity_from_amount0 u n a b =
    (if a \<noteq> b \<and> 2 ^ 256 \<le> unat n * unat a * unat b then None
     else Some (word_of_nat (liq0 (unat n) (min (unat a) (unat b)) (max (unat a) (unat b)))))"
proof -
  obtain sl su where o: "order_prices a b = (sl, su)" by fastforce
  note facts = order_prices_nat [OF o] order_prices_delta [OF o] order_prices_prod [OF o, of n]
  consider (zero) "n = 0 \<or> a = 0 \<or> b = 0" | (eq) "n \<noteq> 0" "a \<noteq> 0" "b \<noteq> 0" "a = b"
    | (pos) "n \<noteq> 0" "a \<noteq> 0" "b \<noteq> 0" "a \<noteq> b" by blast
  then show ?thesis
  proof cases
    case zero
    then show ?thesis by (auto simp: liquidity_from_amount0_def liq0_zero)
  next
    case eq
    with facts o show ?thesis by (simp add: liquidity_from_amount0_def liq0_def)
  next
    case pos
    then have delta: "saturating_sub_w su sl \<noteq> 0" using facts by simp
    have "liquidity_from_amount0 u n a b = (if unat n * unat sl * unat su < 2 ^ 256
        then Some (word_of_nat (min (unat n * unat sl * unat su div unat (saturating_sub_w su sl)) (2 ^ 128 - 1))) else None)"
      unfolding u256.quotient0 [OF u256.intro [OF assms] delta, of n sl su, symmetric]
      using pos(1-3) delta o by (simp add: liquidity_from_amount0_def)
    moreover have "min (unat a) (unat b) \<noteq> max (unat a) (unat b)"
      using pos(4) by (auto simp: min_def max_def word_unat_eq_iff)
    moreover have "unat n * min (unat a) (unat b) * max (unat a) (unat b) = unat n * unat a * unat b"
      by (simp add: min_def max_def)
    ultimately show ?thesis
      using pos(4) facts by (simp only: liq0_def if_False not_less [symmetric] simp_thms if_not_P) simp
  qed
qed

lemma liquidity_from_amount1_closed:
  assumes "u256_laws u"
  shows "liquidity_from_amount1 u n a b =
    Some (word_of_nat (liq1 (unat n) (min (unat a) (unat b)) (max (unat a) (unat b))))"
proof -
  obtain sl su where o: "order_prices a b = (sl, su)" by fastforce
  note facts = order_prices_nat [OF o] order_prices_delta [OF o]
  consider (zero) "n = 0" | (eq) "n \<noteq> 0" "a = b" | (pos) "n \<noteq> 0" "a \<noteq> b" by blast
  then show ?thesis
  proof cases
    case pos
    then have "saturating_sub_w su sl \<noteq> 0" using facts by simp
    note q = u256.quotient1 [OF u256.intro [OF assms] this, of n]
    have "min (unat a) (unat b) \<noteq> max (unat a) (unat b)" using pos(2) by (auto simp: min_def max_def word_unat_eq_iff)
    with pos o q facts show ?thesis
      by (simp add: liquidity_from_amount1_def liq1_def)
  qed (use facts o in \<open>auto simp: liquidity_from_amount1_def liq1_def\<close>)
qed

text \<open>The in-range variants are the same functions of the current price and one bound.\<close>

lemma in_range_eq:
  "liquidity_from_amount0_in_range u n a b = liquidity_from_amount0 u n a b"
  "liquidity_from_amount1_in_range u n a b = liquidity_from_amount1 u n a b"
  by (simp_all add: liquidity_from_amount0_in_range_def liquidity_from_amount0_def
      liquidity_from_amount1_in_range_def liquidity_from_amount1_def)

lemma product_fits:
  fixes n :: u64 and a b :: u128
  assumes "unat a < 2 ^ 96" and "unat b < 2 ^ 96"
  shows "unat n * unat a * unat b < 2 ^ 256"
proof -
  have "unat n * unat a * unat b < 2 ^ 64 * 2 ^ 96 * 2 ^ 96"
    using assms unat_lt_2p [of n] by (intro mult_strict_mono) simp_all
  then show ?thesis by simp
qed

text \<open>The liquidity of a token amount over a price range is the exact rational quotient, rounded
  down and saturated at the largest 128-bit value, and does not depend on the order of the bounds;
  for token 1 the computation never panics, for token 0 it panics exactly when the product of
  amount and prices does not fit in 256 bits, which never happens for square-root prices below
  \<open>2 ^ 96\<close>, the range of the protocol.\<close>

theorem liquidity_from_amounts:
  assumes "u256_laws u" and "a < b"
  shows "liquidity_from_amount0 u n a b = liquidity_from_amount0 u n b a
    \<and> liquidity_from_amount1 u n a b = liquidity_from_amount1 u n b a
    \<and> liquidity_from_amount0 u n a b =
        (if unat n * unat a * unat b < 2 ^ 256
         then Some (word_of_nat (min (unat n * unat a * unat b div (unat b - unat a)) (2 ^ 128 - 1))) else None)
    \<and> liquidity_from_amount1 u n a b =
        Some (word_of_nat (min (unat n * 2 ^ 64 div (unat b - unat a)) (2 ^ 128 - 1)))
    \<and> (unat b < 2 ^ 96 \<longrightarrow> liquidity_from_amount0 u n a b \<noteq> None)"
proof -
  have ab: "unat a < unat b" "a \<noteq> b" using assms(2) by (auto simp: word_less_nat_alt)
  have form: "liquidity_from_amount0 u n a b = (if unat n * unat a * unat b < 2 ^ 256
      then Some (word_of_nat (min (unat n * unat a * unat b div (unat b - unat a)) (2 ^ 128 - 1))) else None)"
    using ab by (simp add: liquidity_from_amount0_closed [OF assms(1)] liq0_def min_absorb1 max_absorb2)
  moreover have "unat n * unat a * unat b < 2 ^ 256" if "unat b < 2 ^ 96"
    using that ab by (intro product_fits) auto
  with form have "unat b < 2 ^ 96 \<longrightarrow> liquidity_from_amount0 u n a b \<noteq> None" by (simp del: not_None_eq)
  moreover have "liquidity_from_amount0 u n a b = liquidity_from_amount0 u n b a"
    unfolding liquidity_from_amount0_closed [OF assms(1)] using ab(2) by (simp add: ac_simps)
  ultimately show ?thesis
    using ab by (simp add: liquidity_from_amount1_closed [OF assms(1)] liq1_def min.commute max.commute
        min_absorb1 max_absorb2)
qed

theorem liquidity_from_amounts_witness:
  "liquidity_from_amount1 word_ops 1000 (2 ^ 64) (2 ^ 65) = Some 1000"
  using liquidity_from_amounts [OF word_ops_laws, of "2 ^ 64" "2 ^ 65" 1000]
  by (simp add: word_less_nat_alt) metis

section \<open>The binary search for the best split\<close>

lemma liq0_mono: "n \<le> n' \<Longrightarrow> liq0 n lo hi \<le> liq0 n' lo hi"
proof -
  assume "n \<le> n'"
  then have "n * lo * hi div (hi - lo) \<le> n' * lo * hi div (hi - lo)"
    by (intro div_le_mono mult_right_mono) simp_all
  then show ?thesis by (simp add: liq0_def min.coboundedI1)
qed

lemma liq1_mono: "n \<le> n' \<Longrightarrow> liq1 n lo hi \<le> liq1 n' lo hi"
proof -
  assume "n \<le> n'"
  then have "n * 2 ^ 64 div (hi - lo) \<le> n' * 2 ^ 64 div (hi - lo)" by (intro div_le_mono) simp
  then show ?thesis by (simp add: liq1_def min.coboundedI1)
qed

lemma liq_bound: "liq0 n lo hi < 2 ^ 128" "liq1 n lo hi < 2 ^ 128"
  by (auto simp: liq0_def liq1_def min_less_iff_disj)

text \<open>The liquidities of a split that keeps \<open>y\<close> of the value \<open>v\<close> in token 1, as natural numbers.\<close>

definition split_x :: "u64 \<Rightarrow> u128 \<Rightarrow> nat \<Rightarrow> nat" where
  "split_x v price y = min ((unat v - y) * 2 ^ 64 div unat price) (2 ^ 64 - 1)"

definition split_l0 :: "u64 \<Rightarrow> u128 \<Rightarrow> u128 \<Rightarrow> u128 \<Rightarrow> nat \<Rightarrow> nat" where
  "split_l0 v price p b y = liq0 (split_x v price y) (min (unat p) (unat b)) (max (unat p) (unat b))"

definition split_l1 :: "u128 \<Rightarrow> u128 \<Rightarrow> nat \<Rightarrow> nat" where
  "split_l1 a p y = liq1 y (min (unat a) (unat p)) (max (unat a) (unat p))"

lemma split_x_antimono: "y \<le> y' \<Longrightarrow> split_x v price y' \<le> split_x v price y"
proof -
  assume "y \<le> y'"
  then have "(unat v - y') * 2 ^ 64 div unat price \<le> (unat v - y) * 2 ^ 64 div unat price"
    by (intro div_le_mono mult_right_mono) simp_all
  then show ?thesis by (simp add: split_x_def min.coboundedI1)
qed

lemma split_x_bound: "split_x v price y < 2 ^ 64"
  by (simp add: split_x_def min_less_iff_disj)

lemma split_l0_antimono: "y \<le> y' \<Longrightarrow> split_l0 v price p b y' \<le> split_l0 v price p b y"
  by (simp add: split_l0_def liq0_mono split_x_antimono)

lemma split_l1_mono: "y \<le> y' \<Longrightarrow> split_l1 a p y \<le> split_l1 a p y'"
  by (simp add: split_l1_def liq1_mono)

lemma split_l0_end: "split_l0 v price p b (unat v) = 0"
  by (simp add: split_l0_def split_x_def liq0_zero)

lemma unat_of_small: "n < 2 ^ LENGTH('a) \<Longrightarrow> unat (word_of_nat n :: 'a::len word) = n"
  by (simp add: unat_of_nat)

text \<open>What one probe of the search computes.\<close>

lemma probe:
  assumes laws: "u256_laws u" and price: "price \<noteq> 0" and y: "y \<le> v"
    and p: "unat p < 2 ^ 96" and b: "unat b < 2 ^ 96"
  shows "\<exists>x l0 l1. token0_budget u v price y = Some x \<and> unat x = split_x v price (unat y)
    \<and> liquidity_from_amount0_in_range u x p b = Some l0 \<and> unat l0 = split_l0 v price p b (unat y)
    \<and> liquidity_from_amount1_in_range u y a p = Some l1 \<and> unat l1 = split_l1 a p (unat y)"
proof -
  let ?x = "word_of_nat (split_x v price (unat y)) :: u64"
  have vy: "unat (v - y) = unat v - unat y" using y by (simp add: unat_sub)
  have x: "unat ?x = split_x v price (unat y)" using split_x_bound by (intro unat_of_small) simp
  have "token0_budget u v price y = Some ?x"
    unfolding u256.budget [OF u256.intro [OF laws] price] vy split_x_def ..
  moreover have "\<not> 2 ^ 256 \<le> unat ?x * unat p * unat b"
    using product_fits [OF p b, of ?x] by simp
  then have "liquidity_from_amount0_in_range u ?x p b = Some (word_of_nat (split_l0 v price p b (unat y)))"
    unfolding in_range_eq liquidity_from_amount0_closed [OF laws] x split_l0_def by simp
  moreover have "liquidity_from_amount1_in_range u y a p = Some (word_of_nat (split_l1 a p (unat y)))"
    unfolding in_range_eq liquidity_from_amount1_closed [OF laws] split_l1_def ..
  moreover have "unat (word_of_nat (split_l0 v price p b (unat y)) :: u128) = split_l0 v price p b (unat y)"
    "unat (word_of_nat (split_l1 a p (unat y)) :: u128) = split_l1 a p (unat y)"
    using liq_bound by (auto intro!: unat_of_small simp: split_l0_def split_l1_def)
  ultimately show ?thesis using x by blast
qed

text \<open>The best split of a set of probes: the value of \<open>best\<close> and where it comes from.\<close>

definition split_value :: "u64 \<Rightarrow> u128 \<Rightarrow> u128 \<Rightarrow> u128 \<Rightarrow> u128 \<Rightarrow> nat \<Rightarrow> nat" where
  "split_value v price a p b y = min (split_l0 v price p b y) (split_l1 a p y)"

definition sound_best :: "u64 \<Rightarrow> u128 \<Rightarrow> u128 \<Rightarrow> u128 \<Rightarrow> u128 \<Rightarrow> u128 \<times> u64 \<times> u64 \<Rightarrow> bool" where
  "sound_best v price a p b best \<longleftrightarrow> (case best of (l, x, y) \<Rightarrow>
     (l, x, y) = (0, 0, 0)
     \<or> y \<le> v \<and> unat x = split_x v price (unat y) \<and> unat l = split_value v price a p b (unat y))"

text \<open>One comparison discards half of the candidates: none of them beats the probe.\<close>

lemma probe_below:
  assumes "split_l1 a p m < split_l0 v price p b m" and "y \<le> m"
  shows "split_value v price a p b y \<le> split_value v price a p b m"
  using assms split_l1_mono [OF assms(2), of a p] by (simp add: split_value_def)

lemma probe_above:
  assumes "\<not> split_l1 a p m < split_l0 v price p b m" and "m \<le> y"
  shows "split_value v price a p b y \<le> split_value v price a p b m"
  using assms split_l0_antimono [OF assms(2), of v price p b] by (simp add: split_value_def)

definition covered :: "u64 \<Rightarrow> u128 \<Rightarrow> u128 \<Rightarrow> u128 \<Rightarrow> u128 \<Rightarrow> u64 \<Rightarrow> u64 \<Rightarrow> u128 \<Rightarrow> bool" where
  "covered v price a p b lo hi l \<longleftrightarrow>
     (\<forall>y. y < unat lo \<or> unat hi \<le> y \<and> y \<le> unat v \<longrightarrow> split_value v price a p b y \<le> unat l)"

lemma covered_all: "covered v price a p b lo hi l \<Longrightarrow> hi \<le> lo \<Longrightarrow> y \<le> unat v \<Longrightarrow> split_value v price a p b y \<le> unat l"
  unfolding covered_def word_le_nat_alt by (meson le_trans not_less)

text \<open>After a probe at \<open>m\<close> everything on the discarded side is covered.\<close>

lemma covered_up:
  assumes "covered v price a p b lo hi l" and "split_l1 a p (unat m) < split_l0 v price p b (unat m)"
    and "unat lo' = Suc (unat m)" and "unat l \<le> unat l'" and "split_value v price a p b (unat m) \<le> unat l'"
  shows "covered v price a p b lo' hi l'"
  unfolding covered_def
proof (intro allI impI, elim disjE)
  fix y
  assume "y < unat lo'"
  then have "y \<le> unat m" using assms(3) by simp
  from probe_below [OF assms(2) this] assms(5) show "split_value v price a p b y \<le> unat l'" by (rule order_trans)
next
  fix y
  assume "unat hi \<le> y \<and> y \<le> unat v"
  with assms(1) have "split_value v price a p b y \<le> unat l" unfolding covered_def by blast
  with assms(4) show "split_value v price a p b y \<le> unat l'" by (rule order_trans [rotated])
qed

lemma covered_down:
  assumes "covered v price a p b lo hi l" and "\<not> split_l1 a p (unat m) < split_l0 v price p b (unat m)"
    and "unat l \<le> unat l'" and "split_value v price a p b (unat m) \<le> unat l'"
  shows "covered v price a p b lo m l'"
  unfolding covered_def
proof (intro allI impI, elim disjE)
  fix y
  assume "y < unat lo"
  with assms(1) have "split_value v price a p b y \<le> unat l" unfolding covered_def by blast
  with assms(3) show "split_value v price a p b y \<le> unat l'" by (rule order_trans [rotated])
next
  fix y
  assume "unat m \<le> y \<and> y \<le> unat v"
  then have "unat m \<le> y" ..
  from probe_above [OF assms(2) this] assms(4) show "split_value v price a p b y \<le> unat l'" by (rule order_trans)
qed

lemma search_mid:
  assumes "lo < (hi :: u64)"
  shows "unat (lo + (hi - lo) div 2) = unat lo + (unat hi - unat lo) div 2"
proof -
  have lt: "unat lo < unat hi" using assms by (simp add: word_less_nat_alt)
  then have "unat ((hi - lo) div 2) = (unat hi - unat lo) div 2"
    by (simp add: unat_div_distrib unat_sub word_le_nat_alt)
  with lt unat_lt_2p [of hi] show ?thesis by (subst unat_add_lt) auto
qed

declare max_liquidity_loop.simps(2) [simp del]

text \<open>One iteration halves the interval, keeps the best split sound and the rest covered.\<close>

lemma search_step:
  assumes laws: "u256_laws u" and price: "price \<noteq> 0" and p: "unat p < 2 ^ 96" and b: "unat b < 2 ^ 96"
    and lohi: "lo < hi" "hi \<le> v" and best: "sound_best v price a p b best" "covered v price a p b lo hi (fst best)"
  shows "\<exists>lo' hi' best'. max_liquidity_loop (Suc n) u v price a p b lo hi best =
        (if hi' \<le> lo' then Some best' else max_liquidity_loop n u v price a p b lo' hi' best')
    \<and> hi' \<le> v \<and> unat hi' - unat lo' \<le> (unat hi - unat lo) div 2
    \<and> sound_best v price a p b best' \<and> covered v price a p b lo' hi' (fst best')"
proof -
  define mid where "mid = lo + (hi - lo) div 2"
  have mid: "unat mid = unat lo + (unat hi - unat lo) div 2" unfolding mid_def by (rule search_mid [OF lohi(1)])
  then have midhi: "unat mid < unat hi" "mid \<le> v"
    using lohi by (auto simp: word_le_nat_alt word_less_nat_alt)
  obtain x l0 l1 where probed: "token0_budget u v price mid = Some x" "unat x = split_x v price (unat mid)"
    "liquidity_from_amount0_in_range u x p b = Some l0" "unat l0 = split_l0 v price p b (unat mid)"
    "liquidity_from_amount1_in_range u mid a p = Some l1" "unat l1 = split_l1 a p (unat mid)"
    using probe [OF laws price midhi(2) p b] by blast
  define best' where "best' = (if fst best < min l0 l1 then (min l0 l1, x, mid) else best)"
  have val: "unat (min l0 l1) = split_value v price a p b (unat mid)"
    by (simp add: unat_min probed split_value_def)
  have sound: "sound_best v price a p b best'"
    using best(1) val probed(2) midhi(2) by (simp add: best'_def sound_best_def)
  have ge: "unat (fst best) \<le> unat (fst best')" "split_value v price a p b (unat mid) \<le> unat (fst best')"
    using val by (auto simp: best'_def word_less_nat_alt)
  have sat: "unat (saturating_add_w mid 1) = Suc (unat mid)"
    using midhi(1) unat_lt_2p [of hi] by (simp add: saturating_add_w_def unat_add_lt)
  have step: "max_liquidity_loop (Suc n) u v price a p b lo hi best =
      (if (if l1 < l0 then hi else mid) \<le> (if l1 < l0 then saturating_add_w mid 1 else lo) then Some best'
       else max_liquidity_loop n u v price a p b (if l1 < l0 then saturating_add_w mid 1 else lo)
         (if l1 < l0 then hi else mid) best')"
    by (simp only: max_liquidity_loop.simps mid_def [symmetric] Let_def probed(1,3,5) Option.bind.simps(2) best'_def)
  show ?thesis
  proof (cases "l1 < l0")
    case True
    with probed have "covered v price a p b (saturating_add_w mid 1) hi (fst best')"
      by (intro covered_up [OF best(2) _ sat ge]) (simp add: word_less_nat_alt)
    moreover have "unat hi - unat (saturating_add_w mid 1) \<le> (unat hi - unat lo) div 2" using mid sat by simp
    ultimately show ?thesis using step True lohi(2) sound unfolding if_P [OF True] by blast
  next
    case False
    with probed have "covered v price a p b lo mid (fst best')"
      by (intro covered_down [OF best(2) _ ge]) (simp add: word_less_nat_alt)
    moreover have "unat mid - unat lo \<le> (unat hi - unat lo) div 2" using mid by simp
    ultimately show ?thesis using step False midhi(2) sound unfolding if_not_P [OF False] by blast
  qed
qed

lemma loop_optimal:
  assumes ok: "u256_laws u" "price \<noteq> 0" "unat p < 2 ^ 96" "unat b < 2 ^ 96"
  shows "lo < hi \<Longrightarrow> hi \<le> v \<Longrightarrow> unat hi - unat lo < 2 ^ n \<Longrightarrow> sound_best v price a p b best \<Longrightarrow>
    covered v price a p b lo hi (fst best) \<Longrightarrow>
    \<exists>best'. max_liquidity_loop n u v price a p b lo hi best = Some best' \<and> sound_best v price a p b best'
      \<and> (\<forall>y \<le> unat v. split_value v price a p b y \<le> unat (fst best'))"
proof (induction n arbitrary: lo hi best)
  case 0
  then show ?case by (simp add: word_less_nat_alt)
next
  case (Suc n)
  obtain lo' hi' best' where step: "max_liquidity_loop (Suc n) u v price a p b lo hi best =
        (if hi' \<le> lo' then Some best' else max_liquidity_loop n u v price a p b lo' hi' best')"
    "hi' \<le> v" "unat hi' - unat lo' \<le> (unat hi - unat lo) div 2"
    "sound_best v price a p b best'" "covered v price a p b lo' hi' (fst best')"
    using search_step [OF ok Suc.prems(1,2,4,5)] by blast
  show ?case
  proof (cases "hi' \<le> lo'")
    case True
    with step covered_all [OF step(5) True] show ?thesis by simp
  next
    case False
    have "unat hi' - unat lo' < 2 ^ n" using step(3) Suc.prems(3) by simp
    from Suc.IH [OF _ step(2) this step(4,5)] False show ?thesis
      unfolding step(1) if_not_P [OF False] by (simp add: not_le)
  qed
qed

text \<open>C10. The search for the largest liquidity of a given value returns, never panics, and is optimal:
  for prices in the protocol's range no split of the value over the two tokens, that is no amount
  of token 1 up to the value with the rest converted to token 0, gives a larger minimum of the two
  liquidities than the one returned, and the returned amounts are such a split.\<close>

theorem max_liquidity_optimal:
  assumes "u256_laws u" and "v \<noteq> 0" and "price \<noteq> 0" and "unat p < 2 ^ 96" and "unat b < 2 ^ 96"
  shows "\<exists>l x y. max_liquidity_for_value_in_range u v price a p b = Some (l, x, y)
    \<and> (\<forall>y' x' l0 l1. y' \<le> v \<and> token0_budget u v price y' = Some x'
         \<and> liquidity_from_amount0_in_range u x' p b = Some l0 \<and> liquidity_from_amount1_in_range u y' a p = Some l1
         \<longrightarrow> min l0 l1 \<le> l)
    \<and> ((l, x, y) = (0, 0, 0) \<or> y \<le> v \<and> token0_budget u v price y = Some x
         \<and> (\<exists>l0 l1. liquidity_from_amount0_in_range u x p b = Some l0
              \<and> liquidity_from_amount1_in_range u y a p = Some l1 \<and> l = min l0 l1))"
proof -
  have v: "0 < v" "unat v - unat (0 :: u64) < 2 ^ 64"
    using assms(2) unat_lt_2p [of v] by (simp_all add: word_neq_0_conv)
  have init: "covered v price a p b 0 v (fst (0 :: u128, 0 :: u64, 0 :: u64))"
    by (auto simp: covered_def split_value_def split_l0_end)
  have "sound_best v price a p b (0, 0, 0)" by (simp add: sound_best_def)
  from loop_optimal [OF assms(1,3-5) v(1) order_refl v(2) this init]
  obtain l x y where r: "max_liquidity_for_value_in_range u v price a p b = Some (l, x, y)"
    and snd: "sound_best v price a p b (l, x, y)" and opt: "\<forall>y \<le> unat v. split_value v price a p b y \<le> unat l"
    using assms(2,3) by (auto simp: max_liquidity_for_value_in_range_def)
  have "min l0 l1 \<le> l" if "y' \<le> v" "token0_budget u v price y' = Some x'"
    "liquidity_from_amount0_in_range u x' p b = Some l0" "liquidity_from_amount1_in_range u y' a p = Some l1"
    for y' x' l0 l1
  proof -
    have "unat (min l0 l1) = split_value v price a p b (unat y')"
      using probe [OF assms(1,3) that(1) assms(4,5), of a] that(2-4) by (auto simp: unat_min split_value_def)
    with opt that(1) show ?thesis by (simp add: word_le_nat_alt)
  qed
  moreover have "\<exists>l0 l1. token0_budget u v price y = Some x \<and> liquidity_from_amount0_in_range u x p b = Some l0
      \<and> liquidity_from_amount1_in_range u y a p = Some l1 \<and> l = min l0 l1"
    if "y \<le> v" "unat x = split_x v price (unat y)" "unat l = split_value v price a p b (unat y)"
  proof -
    note s = that
    obtain x' l0 l1 where pr: "token0_budget u v price y = Some x'" "unat x' = split_x v price (unat y)"
      "liquidity_from_amount0_in_range u x' p b = Some l0" "unat l0 = split_l0 v price p b (unat y)"
      "liquidity_from_amount1_in_range u y a p = Some l1" "unat l1 = split_l1 a p (unat y)"
      using probe [OF assms(1,3) s(1) assms(4,5), of a] by blast
    then have "x' = x" "l = min l0 l1" using s(2,3) by (simp_all add: word_unat_eq_iff unat_min split_value_def)
    with pr show ?thesis by blast
  qed
  ultimately show ?thesis using r snd unfolding sound_best_def prod.case by blast
qed

theorem max_liquidity_optimal_witness:
  "\<exists>l x y. max_liquidity_for_value_in_range word_ops 100 (2 ^ 64) (2 ^ 63) (2 ^ 64) (2 ^ 65) = Some (l, x, y)
     \<and> 100 \<le> l"
proof -
  have "token0_budget word_ops 100 (2 ^ 64) 50 = Some 50"
    by (subst words.budget) simp_all
  moreover have "liquidity_from_amount0_in_range word_ops 50 (2 ^ 64) (2 ^ 65) = Some (50 * 2 ^ 65)"
    "liquidity_from_amount1_in_range word_ops 50 (2 ^ 63) (2 ^ 64) = Some 100"
    by (simp_all add: in_range_eq liquidity_from_amount0_closed [OF word_ops_laws]
        liquidity_from_amount1_closed [OF word_ops_laws] liq0_def liq1_def)
  moreover have "(50 :: u64) \<le> 100" "min (50 * 2 ^ 65) (100 :: u128) = 100"
    by (simp_all add: word_le_nat_alt min_def)
  moreover obtain l x y where
    r: "max_liquidity_for_value_in_range word_ops 100 (2 ^ 64) (2 ^ 63) (2 ^ 64) (2 ^ 65) = Some (l, x, y)"
    and opt: "\<forall>y' x' l0 l1. y' \<le> 100 \<and> token0_budget word_ops 100 (2 ^ 64) y' = Some x'
         \<and> liquidity_from_amount0_in_range word_ops x' (2 ^ 64) (2 ^ 65) = Some l0
         \<and> liquidity_from_amount1_in_range word_ops y' (2 ^ 63) (2 ^ 64) = Some l1 \<longrightarrow> min l0 l1 \<le> l"
    using max_liquidity_optimal [OF word_ops_laws, of 100 "2 ^ 64" "2 ^ 64" "2 ^ 65" "2 ^ 63"] by auto
  ultimately have "100 \<le> l" by metis
  with r show ?thesis by blast
qed

section \<open>The scale of the token 0 formulas\<close>

text \<open>The two token formulas are on different scales: over the range of square-root prices from 1 to 2
  (prices from 1 to 4) both 500 units of token 0 and 1000 units of token 1 are the amounts of
  liquidity 1000, as the deposit quote computes for token 0, but the token 0 formula returns
  \<open>1000 * 2 ^ 64\<close>: the division by \<open>2 ^ 64\<close> of the fixed-point product is missing.\<close>

lemma amount0_scale:
  "amount_a_in_range_q64 word_ops 1000 (2 ^ 64) (2 ^ 65) = Some 500
   \<and> liquidity_from_amount0_in_range word_ops 500 (2 ^ 64) (2 ^ 65) = Some (1000 * 2 ^ 64)
   \<and> liquidity_from_amount1 word_ops 1000 (2 ^ 64) (2 ^ 65) = Some 1000"
proof -
  have "amount_a_in_range_q64 word_ops 1000 (2 ^ 64) (2 ^ 65) = Some 500"
    by (simp add: amount_a_in_range_q64_def word_ops_def checked_mul_w_def word_le_nat_alt word_less_nat_alt)
  then show ?thesis
    by (simp add: in_range_eq liquidity_from_amount0_closed [OF word_ops_laws]
        liquidity_from_amount1_closed [OF word_ops_laws] liq0_def liq1_def)
qed

end
