(* ===== verification/Constant_Product.thy ===== *)
theory Constant_Product
  imports Q64_Math
begin

text \<open>
  \<^verbatim>\<open>crates/domain/src/math/constant_product.rs\<close>: swaps in a constant product pool. The checked and
  saturating operations of the 256-bit integers extend the parameter of \<^theory_text>\<open>Q64_Math\<close>; a token
  amount is its 256-bit value.
\<close>

record 'u u256_checked_ops = "'u u256_ops" +
  checked_mul :: "'u \<Rightarrow> 'u \<Rightarrow> 'u option"
  checked_add :: "'u \<Rightarrow> 'u \<Rightarrow> 'u option"
  saturating_mul :: "'u \<Rightarrow> 'u \<Rightarrow> 'u"
  u_zero :: 'u

definition checked_laws :: "'u u256_checked_ops \<Rightarrow> bool" where
  "checked_laws u \<longleftrightarrow> u256_laws (u256_ops.truncate u) \<and> u_val u (u_zero u) = 0
   \<and> (\<forall>a b. map_option (u_val u) (checked_add u a b) =
        (if u_val u a + u_val u b < 2 ^ 256 then Some (u_val u a + u_val u b) else None))
   \<and> (\<forall>a b. map_option (u_val u) (checked_mul u a b) =
        (if u_val u a * u_val u b < 2 ^ 256 then Some (u_val u a * u_val u b) else None))
   \<and> (\<forall>a b. u_val u (saturating_mul u a b) = min (u_val u a * u_val u b) (2 ^ 256 - 1))"

definition ok_or :: "'a option \<Rightarrow> string \<Rightarrow> string + 'a" where
  "ok_or x e = (case x of None \<Rightarrow> Inl e | Some a \<Rightarrow> Inr a)"

text \<open>The outer \<open>None\<close> is the panic of the division; \<open>10000 - fee_bps\<close> wraps around.\<close>

definition calculate_out_amount ::
    "'u u256_checked_ops \<Rightarrow> 'u \<Rightarrow> 'u \<Rightarrow> 'u \<Rightarrow> u32 \<Rightarrow> (string + 'u) option" where
  "calculate_out_amount u amount_in reserve_in reserve_out fee_bps =
     (if u_val u amount_in = 0 then Some (Inr (u_zero u))
      else if u_val u reserve_in = 0 \<or> u_val u reserve_out = 0 then Some (Inl ''Reserves must be non-zero'')
      else
        case ok_or (checked_mul u amount_in (u_from u (unat (10000 - fee_bps)))) ''Overflow'' of
          Inl e \<Rightarrow> Some (Inl e)
        | Inr amount_in_with_fee \<Rightarrow>
        (case ok_or (checked_mul u amount_in_with_fee reserve_out) ''Overflow'' of
          Inl e \<Rightarrow> Some (Inl e)
        | Inr numerator \<Rightarrow>
        (case ok_or (checked_mul u reserve_in (u_from u 10000)) ''Overflow'' of
          Inl e \<Rightarrow> Some (Inl e)
        | Inr scaled \<Rightarrow>
        (case ok_or (checked_add u scaled amount_in_with_fee) ''Overflow'' of
          Inl e \<Rightarrow> Some (Inl e)
        | Inr denominator \<Rightarrow> map_option Inr (u_div u numerator denominator)))))"

definition calculate_k :: "'u u256_checked_ops \<Rightarrow> 'u \<Rightarrow> 'u \<Rightarrow> 'u" where
  "calculate_k u reserve0 reserve1 = saturating_mul u reserve0 reserve1"

section \<open>256-bit words with checked operations\<close>

definition checked_word_ops :: "u256 u256_checked_ops" where
  "checked_word_ops = u256_ops.extend word_ops
     \<lparr>checked_mul = checked_mul_w, checked_add = checked_add_w, saturating_mul = saturating_mul_w, u_zero = 0\<rparr>"

lemma unat_saturating_mul: "unat (saturating_mul_w a b) = min (unat a * unat b) (2 ^ 256 - 1)" for a b :: u256
proof (cases "unat a * unat b < 2 ^ LENGTH(256)")
  case True
  then show ?thesis by (simp add: saturating_mul_w_def unat_mult_lt min_def)
next
  case False
  then show ?thesis by (simp add: saturating_mul_w_def min_def)
qed

lemma checked_word_laws: "checked_laws checked_word_ops"
proof -
  have "u256_ops.truncate checked_word_ops = word_ops"
    by (simp add: u256_ops.defs checked_word_ops_def)
  then show ?thesis
    using word_ops_laws unfolding checked_laws_def
    by (auto simp: checked_word_ops_def u256_ops.defs word_ops_def checked_mul_w_def checked_add_w_def
        unat_mult_lt unat_add_lt unat_saturating_mul)
qed

section \<open>Swaps\<close>

locale u256_checked =
  fixes u :: "'u u256_checked_ops"
  assumes laws: "checked_laws u"
begin

lemma checked_mul_iff:
  "checked_mul u a b = Some c \<Longrightarrow> u_val u c = u_val u a * u_val u b \<and> u_val u a * u_val u b < 2 ^ 256"
  "checked_mul u a b = None \<longleftrightarrow> 2 ^ 256 \<le> u_val u a * u_val u b"
proof -
  have m: "map_option (u_val u) (checked_mul u a b) =
      (if u_val u a * u_val u b < 2 ^ 256 then Some (u_val u a * u_val u b) else None)"
    using laws by (simp add: checked_laws_def)
  from m show "checked_mul u a b = Some c \<Longrightarrow> u_val u c = u_val u a * u_val u b \<and> u_val u a * u_val u b < 2 ^ 256"
    by (auto split: if_splits)
  from m show "checked_mul u a b = None \<longleftrightarrow> 2 ^ 256 \<le> u_val u a * u_val u b"
    by (cases "checked_mul u a b") (auto split: if_splits)
qed

lemma checked_add_iff:
  "checked_add u a b = Some c \<Longrightarrow> u_val u c = u_val u a + u_val u b"
proof -
  have "map_option (u_val u) (checked_add u a b) =
      (if u_val u a + u_val u b < 2 ^ 256 then Some (u_val u a + u_val u b) else None)"
    using laws by (simp add: checked_laws_def)
  then show "checked_add u a b = Some c \<Longrightarrow> u_val u c = u_val u a + u_val u b"
    by (auto split: if_splits)
qed

lemma base_laws: "u256_laws (u256_ops.truncate u)"
  using laws by (simp add: checked_laws_def)

lemma from_val: "n < 2 ^ 128 \<Longrightarrow> u_val u (u_from u n) = n"
  using base_laws by (cases u) (simp add: u256_laws_def u256_ops.defs)

lemma div_ok: "u_val u b \<noteq> 0 \<Longrightarrow> \<exists>c. u_div u a b = Some c \<and> u_val u c = u_val u a div u_val u b"
proof -
  assume "u_val u b \<noteq> 0"
  then have "map_option (u_val u) (u_div u a b) = Some (u_val u a div u_val u b)"
    using base_laws by (cases u) (simp add: u256_laws_def u256_ops.defs)
  then show ?thesis by auto
qed

lemma zero_val: "u_val u (u_zero u) = 0"
  using laws by (simp add: checked_laws_def)

text \<open>A swap never panics; when it succeeds, the output is the rounded-down quotient.\<close>

lemma out_amount_cases:
  assumes "u_val u dx \<noteq> 0" and "u_val u x \<noteq> 0" and "u_val u y \<noteq> 0"
  obtains e where "calculate_out_amount u dx x y fee_bps = Some (Inl e)"
  | out where "calculate_out_amount u dx x y fee_bps = Some (Inr out)"
    "u_val u out = u_val u dx * unat (10000 - fee_bps) * u_val u y
       div (u_val u x * 10000 + u_val u dx * unat (10000 - fee_bps))"
proof -
  have fee: "u_val u (u_from u (unat (10000 - fee_bps))) = unat (10000 - fee_bps)"
    using unat_lt_2p [of "10000 - fee_bps"] by (intro from_val) simp
  have tenk: "u_val u (u_from u 10000) = 10000" by (rule from_val) simp
  show thesis
  proof (cases "\<exists>a n s d. checked_mul u dx (u_from u (unat (10000 - fee_bps))) = Some a
      \<and> checked_mul u a y = Some n \<and> checked_mul u x (u_from u 10000) = Some s \<and> checked_add u s a = Some d")
    case True
    then obtain a n s d where ops: "checked_mul u dx (u_from u (unat (10000 - fee_bps))) = Some a"
      "checked_mul u a y = Some n" "checked_mul u x (u_from u 10000) = Some s" "checked_add u s a = Some d" by blast
    then have v: "u_val u n = u_val u dx * unat (10000 - fee_bps) * u_val u y"
      "u_val u d = u_val u x * 10000 + u_val u dx * unat (10000 - fee_bps)"
      by (simp_all add: checked_mul_iff(1) checked_add_iff fee tenk)
    then have "u_val u d \<noteq> 0" using assms(2) by simp
    from div_ok [OF this, of n] obtain out where "u_div u n d = Some out" "u_val u out = u_val u n div u_val u d" by blast
    with ops v assms show thesis by (intro that(2)) (simp_all add: calculate_out_amount_def ok_or_def)
  next
    case False
    with assms show thesis
      by (intro that(1)) (auto simp: calculate_out_amount_def ok_or_def split: option.splits)
  qed
qed

end

interpretation checked_words: u256_checked checked_word_ops
  by unfold_locales (rule checked_word_laws)

lemma swap_bounds:
  fixes x y dx a :: nat
  assumes "0 < x" and "0 < y" and "a \<le> 10000 * dx"
  defines "out \<equiv> a * y div (x * 10000 + a)"
  shows "out < y" and "x * y \<le> (x + dx) * (y - out)"
proof -
  let ?d = "x * 10000 + a"
  have d: "0 < ?d" using assms(1) by simp
  have le: "out * ?d \<le> a * y" unfolding out_def by (rule div_times_less_eq_dividend)
  have "a * y < y * ?d" using assms(1,2) by (simp add: algebra_simps)
  with le d show lt: "out < y" by (metis le_less_trans mult.commute mult_less_cancel2)
  have "x * 10000 * y + a * y = y * ?d" by (simp add: algebra_simps)
  also have "\<dots> = (y - out) * ?d + out * ?d" using lt by (simp add: diff_mult_distrib)
  also have "\<dots> \<le> (y - out) * ?d + a * y" using le by simp
  finally have "x * 10000 * y \<le> (y - out) * ?d" by simp
  also have "\<dots> \<le> (y - out) * (10000 * (x + dx))" using assms(3) by (intro mult_left_mono) simp_all
  finally show "x * y \<le> (x + dx) * (y - out)" by (simp add: algebra_simps)
qed

text \<open>C40. For reserves that are not zero and a fee of at most 10000 basis points a swap in a constant
  product pool never panics, and a successful one pays out less than the reserve and does not decrease
  the product of the reserves.\<close>

theorem constant_product_swap:
  assumes "checked_laws u" and "fee_bps \<le> 10000" and "u_val u x \<noteq> 0" and "u_val u y \<noteq> 0"
  shows "\<exists>r. calculate_out_amount u dx x y fee_bps = Some r
    \<and> (case r of Inl e \<Rightarrow> True
       | Inr out \<Rightarrow> u_val u out < u_val u y
           \<and> u_val u x * u_val u y \<le> (u_val u x + u_val u dx) * (u_val u y - u_val u out))"
proof (cases "u_val u dx = 0")
  case True
  then show ?thesis
    using assms(4) u256_checked.zero_val [OF u256_checked.intro [OF assms(1)]]
    by (simp add: calculate_out_amount_def)
next
  case False
  have "unat (10000 - fee_bps) \<le> 10000" using assms(2) by (simp add: unat_sub word_le_nat_alt)
  then have fee: "u_val u dx * unat (10000 - fee_bps) \<le> 10000 * u_val u dx" by (simp add: mult.commute)
  have pos: "0 < u_val u x" "0 < u_val u y" using assms(3,4) by simp_all
  note bounds = swap_bounds [OF pos fee]
  show ?thesis
    by (rule u256_checked.out_amount_cases [OF u256_checked.intro [OF assms(1)] False assms(3,4), of fee_bps])
       (use bounds in simp_all)
qed

theorem constant_product_swap_witness:
  "\<exists>r. calculate_out_amount checked_word_ops 1000 100000 200000 30 = Some r"
  using constant_product_swap [OF checked_word_laws, of 30 100000 200000 1000]
  by (auto simp: checked_word_ops_def u256_ops.defs word_ops_def word_le_nat_alt)

end
