(* ===== verification/Pool_Reader.thy ===== *)
theory Pool_Reader
  imports Whirlpool Decimals
begin

text \<open>
  \<^verbatim>\<open>crates/protocols/src/orca/pool_reader.rs\<close>: the state of a pool read from its account, and the
  conversions between ticks, prices and ranges. Address parsing and the account reads of the
  provider are parameters, as are \<^verbatim>\<open>rust_decimal\<close> and the \<^verbatim>\<open>f64\<close> functions of the standard
  library that are not exact operators (\<open>float_fns\<close>: their precision is left unspecified). \<^verbatim>\<open>full_range_tick_indexes\<close> only calls the Orca SDK.
\<close>

record float_fns =
  f64_ln :: "f64 \<Rightarrow> f64"
  f64_powi :: "f64 \<Rightarrow> int \<Rightarrow> f64"
  f64_sqrt :: "f64 \<Rightarrow> f64"

definition f64_lit :: "rat \<Rightarrow> f64" where
  "f64_lit r = f64_of_rat False r"

section \<open>Pool state\<close>

record 'd whirlpool_state =
  ws_address :: string
  ws_token_mint_a :: pubkey
  ws_token_mint_b :: pubkey
  ws_token_vault_a :: pubkey
  ws_token_vault_b :: pubkey
  ws_tick_current :: int
  ws_tick_spacing :: u16
  ws_sqrt_price :: u128
  ws_price :: 'd
  ws_liquidity :: u128
  ws_fee_rate_bps :: u16
  ws_protocol_fee_rate_bps :: u16
  ws_protocol_fee_owed_a :: u64
  ws_protocol_fee_owed_b :: u64
  ws_fee_growth_global_a :: u128
  ws_fee_growth_global_b :: u128

definition sqrt_price_to_price :: "'d decimal_arith \<Rightarrow> u128 \<Rightarrow> 'd" where
  "sqrt_price_to_price ops sqrt_p =
     (let sqrt_price_f64 = f64_div (f64_of_nat (unat sqrt_p)) (f64_of_nat (2 ^ 64));
          price = f64_mul sqrt_price_f64 sqrt_price_f64
      in case dec_from_f64 ops price of Some d \<Rightarrow> d | None \<Rightarrow> dec_zero ops)"

definition from_whirlpool :: "'d decimal_arith \<Rightarrow> whirlpool_minimal \<Rightarrow> string \<Rightarrow> 'd whirlpool_state" where
  "from_whirlpool ops wp address = \<lparr>ws_address = address,
     ws_token_mint_a = token_mint_a wp, ws_token_mint_b = token_mint_b wp,
     ws_token_vault_a = token_vault_a wp, ws_token_vault_b = token_vault_b wp,
     ws_tick_current = tick_current_index wp, ws_tick_spacing = tick_spacing wp,
     ws_sqrt_price = sqrt_price wp, ws_price = sqrt_price_to_price ops (sqrt_price wp),
     ws_liquidity = liquidity wp, ws_fee_rate_bps = fee_rate wp,
     ws_protocol_fee_rate_bps = protocol_fee_rate wp,
     ws_protocol_fee_owed_a = protocol_fee_owed_a wp, ws_protocol_fee_owed_b = protocol_fee_owed_b wp,
     ws_fee_growth_global_a = fee_growth_global_a wp, ws_fee_growth_global_b = fee_growth_global_b wp\<rparr>"

definition is_tick_in_range :: "int \<Rightarrow> int \<Rightarrow> 'd whirlpool_state \<Rightarrow> bool" where
  "is_tick_in_range tick_lower tick_upper s \<longleftrightarrow> tick_lower \<le> ws_tick_current s \<and> ws_tick_current s < tick_upper"

datatype pool_error = InvalidPoolAddress | PoolAccount "string list" | PoolParse

definition get_pool_state ::
    "'d decimal_arith \<Rightarrow> (string \<Rightarrow> pubkey option) \<Rightarrow> (pubkey \<Rightarrow> 's \<Rightarrow> (string list + u8 list) \<times> 's)
     \<Rightarrow> string \<Rightarrow> 's \<Rightarrow> (pool_error + 'd whirlpool_state) \<times> 's" where
  "get_pool_state ops from_str get_account pool_address s =
     (case from_str pool_address of
        None \<Rightarrow> (Inl InvalidPoolAddress, s)
      | Some pubkey \<Rightarrow>
          (case get_account pubkey s of
             (Inl e, s') \<Rightarrow> (Inl (PoolAccount e), s')
           | (Inr data, s') \<Rightarrow>
               (case parse_whirlpool_minimal data of
                  None \<Rightarrow> (Inl PoolParse, s')
                | Some minimal \<Rightarrow> (Inr (from_whirlpool ops minimal pool_address), s'))))"

text \<open>The loop of \<^verbatim>\<open>get_multiple_pools\<close>: the account number \<open>i\<close> is labelled with \<^verbatim>\<open>addresses[i]\<close>,
  an index that panics out of range.\<close>

fun collect_pools ::
    "'d decimal_arith \<Rightarrow> (u8 list \<Rightarrow> whirlpool_account_body option) \<Rightarrow> string list \<Rightarrow> nat \<Rightarrow> u8 list option list
     \<Rightarrow> 'd whirlpool_state list option" where
  "collect_pools ops borsh addresses i [] = Some []"
| "collect_pools ops borsh addresses i (None # accounts) = collect_pools ops borsh addresses (Suc i) accounts"
| "collect_pools ops borsh addresses i (Some data # accounts) =
     (case (case parse_whirlpool_account_borsh borsh data of
              Some m \<Rightarrow> Some m
            | None \<Rightarrow> parse_whirlpool_minimal data) of
        None \<Rightarrow> collect_pools ops borsh addresses (Suc i) accounts
      | Some minimal \<Rightarrow>
          if i < length addresses
          then map_option ((#) (from_whirlpool ops minimal (addresses ! i)))
                 (collect_pools ops borsh addresses (Suc i) accounts)
          else None)"

definition get_multiple_pools ::
    "'d decimal_arith \<Rightarrow> (u8 list \<Rightarrow> whirlpool_account_body option) \<Rightarrow> (string \<Rightarrow> pubkey option)
     \<Rightarrow> (pubkey list \<Rightarrow> 's \<Rightarrow> (string list + u8 list option list) \<times> 's) \<Rightarrow> string list \<Rightarrow> 's
     \<Rightarrow> ((string list + 'd whirlpool_state list) \<times> 's) option" where
  "get_multiple_pools ops borsh from_str get_multiple_accounts addresses s =
     (let pubkeys = List.map_filter from_str addresses
      in case get_multiple_accounts pubkeys s of
           (Inl e, s') \<Rightarrow> Some (Inl e, s')
         | (Inr accounts, s') \<Rightarrow>
             map_option (\<lambda>states. (Inr states, s')) (collect_pools ops borsh addresses 0 accounts))"

section \<open>Ticks and prices\<close>

definition tick_to_price :: "'d decimal_arith \<Rightarrow> float_fns \<Rightarrow> int \<Rightarrow> 'd" where
  "tick_to_price ops fl tick =
     (case dec_from_f64 ops (f64_powi fl (f64_lit (10001 / 10000)) tick) of
        Some d \<Rightarrow> d | None \<Rightarrow> dec_zero ops)"

definition price_to_tick :: "'d decimal_arith \<Rightarrow> float_fns \<Rightarrow> 'd \<Rightarrow> int" where
  "price_to_tick ops fl price =
     (let price_f64 = (case dec_to_f64 ops price of Some x \<Rightarrow> x | None \<Rightarrow> f64_lit 1);
          tick = f64_div (f64_ln fl price_f64) (f64_ln fl (f64_lit (10001 / 10000)))
      in f64_as_i32 (f64_round_away tick))"

text \<open>The half width of \<^verbatim>\<open>calculate_tick_range\<close> in ticks.\<close>

definition tick_delta :: "'d decimal_arith \<Rightarrow> float_fns \<Rightarrow> 'd \<Rightarrow> int" where
  "tick_delta ops fl width_pct =
     (let width_f64 = (case dec_to_f64 ops width_pct of Some x \<Rightarrow> x | None \<Rightarrow> f64_lit (1 / 10));
          half_width = f64_div width_f64 (f64_lit 2)
      in f64_as_i32 (f64_abs (f64_div half_width (f64_ln fl (f64_lit (10001 / 10000))))))"

definition calculate_tick_range ::
    "'d decimal_arith \<Rightarrow> float_fns \<Rightarrow> int \<Rightarrow> 'd \<Rightarrow> u16 \<Rightarrow> (int \<times> int) option" where
  "calculate_tick_range ops fl current_tick width_pct spacing_u16 =
     (let delta = tick_delta ops fl width_pct; spacing = uint spacing_u16
      in do {
        lo \<leftarrow> rust_div (wrap_i32 (current_tick - delta)) spacing;
        hi \<leftarrow> rust_div (wrap_i32 (current_tick + delta)) spacing;
        Some (wrap_i32 (lo * spacing), wrap_i32 (wrap_i32 (hi + 1) * spacing))
      })"

definition liquidity_amount_from_pct :: "u128 \<Rightarrow> f64 \<Rightarrow> u128 option" where
  "liquidity_amount_from_pct liq pct =
     (if \<not> (f64_le (f64_lit 0) pct \<and> f64_le pct (f64_lit 100)) \<or> liq = 0 then Some 0
      else let scaled = f64_mul (f64_of_nat (unat liq)) (f64_div pct (f64_lit 100))
           in map_option f64_as_u128 (f64_clamp (f64_floor scaled) (f64_lit 0) (f64_of_nat (unat liq))))"

text \<open>An exact instance of the parameters: decimals are rational numbers, the logarithm of every
  number is the one of 1.0001 to four digits, and powers are rounded once.\<close>

definition rat_ops :: "rat decimal_arith" where
  "rat_ops = \<lparr>dec_new = (\<lambda>n s. of_int n / 10 ^ s), dec_abs = abs, dec_gt = (\<lambda>a b. b < a),
     dec_add = (\<lambda>a b. Some (a + b)), dec_sub = (\<lambda>a b. Some (a - b)), dec_mul = (\<lambda>a b. Some (a * b)),
     dec_div = (\<lambda>a b. if b = 0 then None else Some (a / b)),
     dec_from_f64 = (\<lambda>x. case x of F64_Fin s m \<Rightarrow> Some (signed_val s m) | _ \<Rightarrow> None),
     dec_to_f64 = (\<lambda>d. Some (f64_of_rat False d))\<rparr>"

definition approx_fns :: float_fns where
  "approx_fns = \<lparr>f64_ln = (\<lambda>_. f64_lit (13421 / 2 ^ 27)),
     f64_powi = (\<lambda>x k. case x of
        F64_Fin s m \<Rightarrow> f64_of_rat False (if 0 \<le> k then m ^ nat k else 1 / m ^ nat (- k)) | _ \<Rightarrow> F64_NaN),
     f64_sqrt = (\<lambda>x. x)\<rparr>"

section \<open>Pools and their addresses\<close>

text \<open>The state that the reader reports for one address and account.\<close>

definition pool_of :: "'d decimal_arith \<Rightarrow> (u8 list \<Rightarrow> whirlpool_account_body option) \<Rightarrow> string \<times> u8 list option
     \<Rightarrow> 'd whirlpool_state option" where
  "pool_of ops borsh = (\<lambda>(address, account). do {
     data \<leftarrow> account;
     m \<leftarrow> (case parse_whirlpool_account_borsh borsh data of
            Some m \<Rightarrow> Some m | None \<Rightarrow> parse_whirlpool_minimal data);
     Some (from_whirlpool ops m address) })"

lemma map_filter_Cons:
  "List.map_filter f (x # xs) = (case f x of None \<Rightarrow> List.map_filter f xs | Some y \<Rightarrow> y # List.map_filter f xs)"
  by (simp add: List.map_filter_def split: option.splits)

lemma map_filter_Nil: "List.map_filter f [] = []"
  by (simp add: List.map_filter_def)

lemma collect_pools_zip:
  "i + length accounts \<le> length addresses \<Longrightarrow>
   collect_pools ops borsh addresses i accounts =
     Some (List.map_filter (pool_of ops borsh) (zip (drop i addresses) accounts))"
proof (induction ops borsh addresses i accounts rule: collect_pools.induct)
  case (1 ops borsh addresses i)
  then show ?case by (simp add: map_filter_Nil)
next
  case (2 ops borsh addresses i accounts)
  then have "i < length addresses" by simp
  with 2 show ?case by (simp add: Cons_nth_drop_Suc [symmetric] map_filter_Cons pool_of_def)
next
  case (3 ops borsh addresses i data accounts)
  then have "i < length addresses" by simp
  with 3 show ?case
    by (auto simp: Cons_nth_drop_Suc [symmetric] map_filter_Cons pool_of_def split: option.splits)
qed

lemma map_filter_total: "\<forall>x \<in> set xs. f x \<noteq> None \<Longrightarrow> List.map_filter f xs = map (the \<circ> f) xs"
  by (induction xs) (auto simp: map_filter_Nil map_filter_Cons)

text \<open>Reading several pools at once: when every address is well formed and the node answers with
  one entry per requested account, the call returns without a panic and reports, in order, for
  each address whose account exists and parses, the state of that account under that address.\<close>

theorem multiple_pools_labelled:
  assumes "\<forall>a \<in> set addresses. from_str a \<noteq> None"
    and "get_multiple_accounts (map (the \<circ> from_str) addresses) s = (Inr accounts, s')"
    and "length accounts = length addresses"
  shows "get_multiple_pools ops borsh from_str get_multiple_accounts addresses s =
    Some (Inr (List.map_filter (pool_of ops borsh) (zip addresses accounts)), s')"
  using assms collect_pools_zip [of 0 accounts addresses ops borsh]
  by (simp add: get_multiple_pools_def map_filter_total)

theorem multiple_pools_labelled_witness:
  "get_multiple_pools rat_ops (\<lambda>_. None) (\<lambda>a. Some []) (\<lambda>_ s. (Inr [None, Some (replicate 653 0)], s))
     [''a'', ''b''] () =
   Some (Inr (List.map_filter (pool_of rat_ops (\<lambda>_. None)) [(''a'', None), (''b'', Some (replicate 653 0))]), ())"
  using multiple_pools_labelled [of "[''a'', ''b'']" "\<lambda>a. Some []"
      "\<lambda>_ s. (Inr [None, Some (replicate 653 0)], s)" "()" "[None, Some (replicate 653 0)]" "()" rat_ops "\<lambda>_. None"]
  by simp

text \<open>A malformed address shifts the labels: the pool of the next, well-formed address is reported
  under the malformed one.\<close>

lemma multiple_pools_mislabelled:
  assumes "from_str bad = None" and "from_str good = Some pk"
    and "get_multiple_accounts [pk] s = (Inr [Some data], s')"
    and "parse_whirlpool_account_borsh borsh data = Some m"
  shows "get_multiple_pools ops borsh from_str get_multiple_accounts [bad, good] s =
    Some (Inr [from_whirlpool ops m bad], s')"
  using assms by (simp add: get_multiple_pools_def map_filter_Cons map_filter_Nil)

section \<open>New ranges\<close>

definition float_laws :: "'d decimal_arith \<Rightarrow> float_fns \<Rightarrow> bool" where
  "float_laws ops fl \<longleftrightarrow> (\<forall>x. wf_f64 (f64_ln fl x)) \<and> (\<forall>d x. dec_to_f64 ops d = Some x \<longrightarrow> wf_f64 x)"

lemma tick_delta_nonneg: "float_laws ops fl \<Longrightarrow> 0 \<le> tick_delta ops fl w"
  unfolding tick_delta_def Let_def
  by (intro f64_as_i32_abs wf_f64_div) (auto simp: float_laws_def f64_lit_def wf_f64_of_rat split: option.splits)

lemma rust_div_multiple:
  assumes "0 < s" and "rust_div a s = Some q"
  shows "(if 0 \<le> a then 0 \<le> q * s \<and> q * s \<le> a \<and> a < q * s + s else q * s \<le> 0 \<and> a \<le> q * s \<and> q * s - s < a)"
proof (cases "0 \<le> a")
  case True
  then have q: "q = a div s" using assms rust_div_nonneg by auto
  have "0 \<le> q * s" using True assms(1) by (simp add: q pos_imp_zdiv_nonneg_iff)
  moreover have "q * s \<le> a" "a < q * s + s"
    using div_mult_mod_eq [of a s] pos_mod_bound [OF assms(1), of a] pos_mod_sign [OF assms(1), of a]
    unfolding q by linarith+
  ultimately show ?thesis using True by simp
next
  case False
  then have q: "- q = (- a) div s" using assms by (simp add: rust_div_def)
  have "0 \<le> (- q) * s" using False assms(1) unfolding q by (simp add: pos_imp_zdiv_nonneg_iff)
  moreover have "(- q) * s \<le> - a" "- a < (- q) * s + s"
    using div_mult_mod_eq [of "- a" s] pos_mod_bound [OF assms(1), of "- a"] pos_mod_sign [OF assms(1), of "- a"]
    unfolding q by linarith+
  ultimately show ?thesis using False by simp
qed

lemma rust_div_mono:
  assumes "0 < s" and "rust_div a s = Some p" and "rust_div b s = Some q" and "a \<le> b"
  shows "p \<le> q"
proof (rule ccontr)
  assume "\<not> p \<le> q"
  then have "(q + 1) * s \<le> p * s" using assms(1) by (intro mult_right_mono) simp_all
  then have "q * s + s \<le> p * s" by (simp add: distrib_right)
  with rust_div_multiple [OF assms(1,2)] rust_div_multiple [OF assms(1,3)] assms(1,4) show False
    by (auto split: if_splits)
qed

lemma tick_range_exact:
  assumes "0 < uint sp" and "\<bar>t\<bar> \<le> 443636" and "0 \<le> tick_delta ops fl w" and "tick_delta ops fl w \<le> 2 ^ 30"
  obtains lo hi where "rust_div (t - tick_delta ops fl w) (uint sp) = Some lo"
    and "rust_div (t + tick_delta ops fl w) (uint sp) = Some hi"
    and "calculate_tick_range ops fl t w sp = Some (lo * uint sp, (hi + 1) * uint sp)"
proof -
  let ?d = "tick_delta ops fl w" and ?s = "uint sp"
  have sp: "?s < 2 ^ 16" using uint_lt2p [of sp] by simp
  obtain lo hi where lo: "rust_div (t - ?d) ?s = Some lo" and hi: "rust_div (t + ?d) ?s = Some hi"
    using assms(1) by (simp add: rust_div_def)
  note b = rust_div_multiple [OF assms(1) lo] rust_div_multiple [OF assms(1) hi]
  have l: "\<bar>lo * ?s\<bar> \<le> 2 ^ 30 + 443636" using b(1) assms(2-4) by (cases "0 \<le> t - ?d") (simp_all, linarith+)
  have h: "\<bar>hi * ?s\<bar> \<le> 2 ^ 30 + 443636" using b(2) assms(2-4) by (cases "0 \<le> t + ?d") (simp_all, linarith+)
  have "\<bar>hi\<bar> \<le> \<bar>hi\<bar> * ?s" using assms(1) by (simp add: mult_le_cancel_left1)
  then have "\<bar>hi\<bar> \<le> 2 ^ 30 + 443636" using h assms(1) by (simp add: abs_mult)
  then have "is_i32 (t - ?d)" "is_i32 (t + ?d)" "is_i32 (lo * ?s)" "is_i32 (hi + 1)" "is_i32 ((hi + 1) * ?s)"
    using assms l h sp by (auto simp: is_i32_def distrib_right)
  with lo hi show ?thesis by (intro that [of lo hi]) (simp_all add: calculate_tick_range_def Let_def)
qed

lemma tick_range_bounds:
  fixes t :: int
  assumes "float_laws ops fl" and "0 < uint sp" and "\<bar>t\<bar> \<le> 443636" and "tick_delta ops fl w \<le> 2 ^ 30"
  obtains l u where "calculate_tick_range ops fl t w sp = Some (l, u)" and "uint sp dvd l" and "uint sp dvd u"
    and "l < u" and "t < u" and "uint sp \<le> tick_delta ops fl w + 1 \<or> tick_delta ops fl w \<le> t \<Longrightarrow> l \<le> t"
    and "t < 0 \<and> tick_delta ops fl w - t < uint sp \<Longrightarrow> l = 0"
proof -
  let ?d = "tick_delta ops fl w" and ?s = "uint sp"
  have d: "0 \<le> ?d" by (rule tick_delta_nonneg [OF assms(1)])
  obtain lo hi where lo: "rust_div (t - ?d) ?s = Some lo" and hi: "rust_div (t + ?d) ?s = Some hi"
    and r: "calculate_tick_range ops fl t w sp = Some (lo * ?s, (hi + 1) * ?s)"
    by (rule tick_range_exact [OF assms(2,3) d assms(4)])
  note bl = rust_div_multiple [OF assms(2) lo] and bh = rust_div_multiple [OF assms(2) hi]
  have u: "t + ?d < (hi + 1) * ?s" using bh assms(2) by (auto simp: distrib_right split: if_splits)
  have "lo \<le> hi" using rust_div_mono [OF assms(2) lo hi] d by simp
  then have lu: "lo * ?s < (hi + 1) * ?s" using assms(2) by simp
  show ?thesis
  proof (rule that [OF r _ _ lu])
    show "lo * ?s \<le> t" if "?s \<le> ?d + 1 \<or> ?d \<le> t" using bl that d by (auto split: if_splits)
    show "lo * ?s = 0" if "t < 0 \<and> ?d - t < ?s" using that lo d by (simp add: rust_div_def)
  qed (use u d in simp_all)
qed

text \<open>A new range: for a tick of the protocol, a positive spacing and any half width \<open>d\<close> of at most
  \<open>2 ^ 30\<close> ticks, the computed bounds are multiples of the spacing in the right order, and the
  current tick is below the upper one. It is not below the lower one provided that \<open>d\<close> is at least
  the spacing less one, or that \<open>t - d\<close> is not negative. For a negative tick nearer to zero than
  that, the lower bound is zero and the range lies above the current price.\<close>

theorem tick_range_spec:
  fixes t :: int
  assumes "float_laws ops fl" and "0 < uint sp" and "\<bar>t\<bar> \<le> 443636" and "tick_delta ops fl w \<le> 2 ^ 30"
  shows "\<exists>l u. calculate_tick_range ops fl t w sp = Some (l, u) \<and> uint sp dvd l \<and> uint sp dvd u \<and> l < u \<and> t < u
    \<and> (uint sp \<le> tick_delta ops fl w + 1 \<or> tick_delta ops fl w \<le> t \<longrightarrow> l \<le> t)
    \<and> (t < 0 \<and> tick_delta ops fl w - t < uint sp \<longrightarrow> l = 0)"
  by (rule tick_range_bounds [OF assms]) blast

lemma float_laws_rat: "float_laws rat_ops approx_fns"
  by (auto simp: float_laws_def rat_ops_def approx_fns_def f64_lit_def wf_f64_of_rat)

lemma tick_delta_example: "tick_delta rat_ops approx_fns (1 / 1024) = 4"
proof -
  have w: "f64_of_rat False (1 / 1024) = F64_Fin False (1 / 1024)"
    unfolding f64_of_rat_def
    by (subst f64_round_eq [where k = "- 10" and n = "2 ^ 52"]) (simp_all add: pow2_def)
  have two: "f64_lit 2 = F64_Fin False 2"
    using f64_round_exact [of 2] by (simp add: f64_lit_def f64_of_rat_def)
  have half: "f64_round False (1 / 2048) = F64_Fin False (1 / 2048)"
    by (subst f64_round_eq [where k = "- 11" and n = "2 ^ 52"]) (simp_all add: pow2_def)
  have ln: "f64_lit (13421 / 2 ^ 27) = F64_Fin False (13421 / 2 ^ 27)"
    unfolding f64_lit_def f64_of_rat_def
    by (subst f64_round_eq [where k = "- 14" and n = "13421 * 2 ^ 39"]) (simp_all add: pow2_def)
  have q: "f64_round False (65536 / 13421) = F64_Fin False (of_int 5497874695986753 * pow2 (2 - 52))"
    by (rule f64_round_eq) (simp_all add: pow2_def)
  show ?thesis
    by (simp add: tick_delta_def Let_def rat_ops_def approx_fns_def w two half ln [simplified] q f64_as_i32_def pow2_def floor_eq_iff)
qed

text \<open>With the spacing 64 and a width of about a thousandth, the range around tick \<open>- 10\<close> starts at
  zero.\<close>

theorem tick_range_spec_witness:
  "\<exists>l u. calculate_tick_range rat_ops approx_fns (- 10) (1 / 1024) 64 = Some (l, u) \<and> 64 dvd u \<and> l < u \<and> l = 0"
proof -
  from tick_range_spec [OF float_laws_rat, of 64 "- 10" "1 / 1024"] show ?thesis
    by (simp add: tick_delta_example) blast
qed

section \<open>Withdrawal amounts\<close>

text \<open>The liquidity to withdraw for a percentage: nothing for a percentage outside 0 to 100, and
  otherwise, for a position of less than \<open>2 ^ 53\<close>, at most the whole position and without a
  panic.\<close>

theorem liquidity_amount_bounds:
  assumes "unat liq < 2 ^ 53"
  shows "\<exists>r. liquidity_amount_from_pct liq pct = Some r \<and> r \<le> liq
    \<and> (\<not> (f64_le (f64_lit 0) pct \<and> f64_le pct (f64_lit 100)) \<longrightarrow> r = 0)"
proof (cases "\<not> (f64_le (f64_lit 0) pct \<and> f64_le pct (f64_lit 100)) \<or> liq = 0")
  case True
  then show ?thesis by (auto simp: liquidity_amount_from_pct_def)
next
  case False
  then have pos: "0 < unat liq" by (simp add: unat_gt_0)
  have n: "f64_of_nat (unat liq) = F64_Fin False (of_nat (unat liq))"
    using f64_round_exact [OF pos assms] by (simp add: f64_of_nat_def)
  have z: "f64_lit 0 = F64_Fin False 0" by (simp add: f64_lit_def f64_of_rat_def)
  have le: "f64_le (f64_lit 0) (f64_of_nat (unat liq))"
    using pos by (simp add: n z f64_le_def signed_val_def del: of_nat_unat)
  obtain x where c: "f64_clamp (f64_floor (f64_mul (f64_of_nat (unat liq)) (f64_div pct (f64_lit 100))))
      (f64_lit 0) (f64_of_nat (unat liq)) = Some x"
    and x: "\<not> f64_lt (F64_Fin False (of_nat (unat liq))) x"
    using f64_clamp_range [OF le] unfolding n z by blast
  have "0 \<le> f64_as_int 0 (2 ^ 128 - 1) x \<and> f64_as_int 0 (2 ^ 128 - 1) x \<le> int (unat liq)"
    by (rule f64_as_int_range [OF x]) simp
  then have "uint (f64_as_u128 x) \<le> uint liq"
    unfolding f64_as_u128_def uint_word_of_int_eq
    by (metis order_trans take_bit_int_less_eq_self_iff uint_nat)
  with False c show ?thesis
    by (auto simp: liquidity_amount_from_pct_def Let_def word_le_def)
qed

theorem liquidity_amount_bounds_witness:
  "\<exists>r. liquidity_amount_from_pct 1000 (f64_lit 50) = Some r \<and> r \<le> 1000"
  using liquidity_amount_bounds [of 1000 "f64_lit 50"] by auto

text \<open>Larger positions can be exceeded: the whole of a position of \<open>2 ^ 54 + 3\<close> is \<open>2 ^ 54 + 4\<close>,
  because the bound itself is rounded to the next \<^verbatim>\<open>f64\<close>.\<close>

lemma liquidity_amount_exceeds:
  "liquidity_amount_from_pct (2 ^ 54 + 3) (f64_lit 100) = Some (2 ^ 54 + 4)"
proof -
  have n: "f64_of_nat (unat (2 ^ 54 + 3 :: u128)) = F64_Fin False (2 ^ 54 + 4)"
    unfolding f64_of_nat_def
    by (subst f64_round_eq [where k = 54 and n = "2 ^ 52 + 1"]) (simp_all add: pow2_def)
  have h: "f64_lit 100 = F64_Fin False 100" and z: "f64_lit 0 = F64_Fin False 0"
    and one: "f64_round False 1 = F64_Fin False 1"
    using f64_round_exact [of 100] f64_round_exact [of 1] by (simp_all add: f64_lit_def f64_of_rat_def)
  have m: "f64_round False (2 ^ 54 + 4) = F64_Fin False (2 ^ 54 + 4)"
    by (subst f64_round_eq [where k = 54 and n = "2 ^ 52 + 1"]) (simp_all add: pow2_def)
  show ?thesis
    using n m by (simp add: liquidity_amount_from_pct_def Let_def h z one f64_le_def signed_val_def
        f64_clamp_def f64_as_u128_def)
qed

end
