(* ===== verification/Position_Reader.thy ===== *)
theory Position_Reader
  imports Pool_Reader Q64_Math
begin

text \<open>
  \<^verbatim>\<open>crates/protocols/src/orca/position_reader.rs\<close> and the position type of
  \<^verbatim>\<open>crates/protocols/src/events/types.rs\<close>: reading a position account, and the token amounts that a
  position holds at a price. Address parsing, the account read, the Borsh deserializer, the 256-bit
  integers and the \<^verbatim>\<open>f64\<close> functions are parameters. The two listing functions of the reader are
  unimplemented in the source (they return no positions).
\<close>

record position_reward_info =
  growth_inside_checkpoint :: u128
  amount_owed :: u64

record whirlpool_position =
  wp_discriminator :: "u8 list"
  wp_whirlpool :: pubkey
  wp_position_mint :: pubkey
  wp_liquidity :: u128
  wp_tick_lower_index :: int
  wp_tick_upper_index :: int
  wp_fee_growth_checkpoint_a :: u128
  wp_fee_owed_a :: u64
  wp_fee_growth_checkpoint_b :: u128
  wp_fee_owed_b :: u64
  wp_reward_infos :: "position_reward_info list"

record on_chain_position =
  oc_address :: pubkey
  oc_pool :: pubkey
  oc_owner :: pubkey
  oc_tick_lower :: int
  oc_tick_upper :: int
  oc_liquidity :: u128
  oc_fee_growth_inside_a :: u128
  oc_fee_growth_inside_b :: u128
  oc_fees_owed_a :: u64
  oc_fees_owed_b :: u64

definition account_data_looks_like_whirlpool_pool :: "u8 list \<Rightarrow> bool" where
  "account_data_looks_like_whirlpool_pool data \<longleftrightarrow>
     length data = 653 \<and> take 8 data = [63, 149, 209, 12, 225, 128, 99, 9]"

datatype position_error =
    InvalidPositionAddress
  | PositionAccount "string list"
  | PoolNotPosition
  | PositionParse

definition get_position ::
    "(string \<Rightarrow> pubkey option) \<Rightarrow> (pubkey \<Rightarrow> 's \<Rightarrow> (string list + u8 list) \<times> 's)
     \<Rightarrow> (u8 list \<Rightarrow> whirlpool_position option) \<Rightarrow> string \<Rightarrow> 's \<Rightarrow> (position_error + on_chain_position) \<times> 's" where
  "get_position from_str get_account try_from_slice position_address s =
     (case from_str position_address of
        None \<Rightarrow> (Inl InvalidPositionAddress, s)
      | Some pubkey \<Rightarrow>
          (case get_account pubkey s of
             (Inl e, s') \<Rightarrow> (Inl (PositionAccount e), s')
           | (Inr data, s') \<Rightarrow>
               if account_data_looks_like_whirlpool_pool data then (Inl PoolNotPosition, s')
               else (case try_from_slice data of
                       None \<Rightarrow> (Inl PositionParse, s')
                     | Some p \<Rightarrow>
                         (Inr \<lparr>oc_address = pubkey, oc_pool = wp_whirlpool p, oc_owner = replicate 32 0,
                            oc_tick_lower = wp_tick_lower_index p, oc_tick_upper = wp_tick_upper_index p,
                            oc_liquidity = wp_liquidity p,
                            oc_fee_growth_inside_a = wp_fee_growth_checkpoint_a p,
                            oc_fee_growth_inside_b = wp_fee_growth_checkpoint_b p,
                            oc_fees_owed_a = wp_fee_owed_a p, oc_fees_owed_b = wp_fee_owed_b p\<rparr>, s'))))"

section \<open>Token amounts\<close>

definition tick_to_sqrt_price :: "float_fns \<Rightarrow> int \<Rightarrow> u128" where
  "tick_to_sqrt_price fl tick =
     f64_as_u128 (f64_mul (f64_sqrt fl (f64_powi fl (f64_lit (10001 / 10000)) tick)) (f64_of_nat (2 ^ 64)))"

definition amount_a_q64_exact :: "'u u256_ops \<Rightarrow> u128 \<Rightarrow> u128 \<Rightarrow> u128 \<Rightarrow> u64 option" where
  "amount_a_q64_exact u liq sqrt_lower_or_current sqrt_upper =
     (if sqrt_lower_or_current = 0 \<or> sqrt_upper = 0 \<or> sqrt_upper \<le> sqrt_lower_or_current then Some 0
      else let l = u_from u (unat liq); sl = u_from u (unat sqrt_lower_or_current);
               su = u_from u (unat sqrt_upper)
           in do {
             diff \<leftarrow> u_sub u su sl;
             (if u_val u diff = 0 then Some 0
              else do {
                m \<leftarrow> u_mul u l diff;
                num \<leftarrow> u_mul u m (u_from u (2 ^ 64));
                den \<leftarrow> u_mul u sl su;
                (if u_val u den = 0 then Some 0
                 else do {
                   q \<leftarrow> u_div u num den;
                   (if u_gt u q (u_from u (2 ^ 64 - 1)) then Some (word_of_nat (2 ^ 64 - 1)) else as_u64 u q)
                 })
              })
           })"

definition get_amount_a :: "'u u256_ops \<Rightarrow> float_fns \<Rightarrow> u128 \<Rightarrow> int \<Rightarrow> int \<Rightarrow> u64 option" where
  "get_amount_a u fl liq tick_lower tick_upper =
     amount_a_q64_exact u liq (tick_to_sqrt_price fl tick_lower) (tick_to_sqrt_price fl tick_upper)"

text \<open>The product is a 128-bit one that wraps around.\<close>

definition get_amount_b :: "float_fns \<Rightarrow> u128 \<Rightarrow> int \<Rightarrow> int \<Rightarrow> u64" where
  "get_amount_b fl liq tick_lower tick_upper =
     (let delta = saturating_sub_w (tick_to_sqrt_price fl tick_upper) (tick_to_sqrt_price fl tick_lower)
      in ucast (drop_bit 64 (liq * delta)))"

definition get_amount_a_in_range :: "'u u256_ops \<Rightarrow> float_fns \<Rightarrow> u128 \<Rightarrow> int \<Rightarrow> u128 \<Rightarrow> u64 option" where
  "get_amount_a_in_range u fl liq tick_upper sqrt_p =
     amount_a_q64_exact u liq sqrt_p (tick_to_sqrt_price fl tick_upper)"

definition get_amount_b_in_range :: "float_fns \<Rightarrow> u128 \<Rightarrow> int \<Rightarrow> u128 \<Rightarrow> u64" where
  "get_amount_b_in_range fl liq tick_lower sqrt_p =
     (let delta = saturating_sub_w sqrt_p (tick_to_sqrt_price fl tick_lower)
      in ucast (drop_bit 64 (liq * delta)))"

definition calculate_token_amounts ::
    "'u u256_ops \<Rightarrow> float_fns \<Rightarrow> on_chain_position \<Rightarrow> int \<Rightarrow> u128 \<Rightarrow> (u64 \<times> u64) option" where
  "calculate_token_amounts u fl p current_tick sqrt_p =
     (if current_tick < oc_tick_lower p then
        map_option (\<lambda>a. (a, 0)) (get_amount_a u fl (oc_liquidity p) (oc_tick_lower p) (oc_tick_upper p))
      else if oc_tick_upper p \<le> current_tick then
        Some (0, get_amount_b fl (oc_liquidity p) (oc_tick_lower p) (oc_tick_upper p))
      else
        map_option (\<lambda>a. (a, get_amount_b_in_range fl (oc_liquidity p) (oc_tick_lower p) sqrt_p))
          (get_amount_a_in_range u fl (oc_liquidity p) (oc_tick_upper p) sqrt_p))"

section \<open>Exact amounts\<close>

text \<open>The amounts of the constant-liquidity curve, rounded down: token A between two square-root
  prices, saturated at 64 bits, and token B.\<close>

definition exact_a :: "nat \<Rightarrow> nat \<Rightarrow> nat \<Rightarrow> nat" where
  "exact_a l lo hi = (if lo = 0 \<or> hi \<le> lo then 0 else min (l * (hi - lo) * 2 ^ 64 div (lo * hi)) (2 ^ 64 - 1))"

definition exact_b :: "nat \<Rightarrow> nat \<Rightarrow> nat \<Rightarrow> nat" where
  "exact_b l lo hi = l * (hi - lo) div 2 ^ 64"

lemma amount_a_exact:
  assumes laws: "u256_laws u" and fits: "unat l * (unat su - unat sl) < 2 ^ 192"
  shows "amount_a_q64_exact u l sl su = Some (word_of_nat (exact_a (unat l) (unat sl) (unat su)))"
proof (cases "sl = 0 \<or> su = 0 \<or> su \<le> sl")
  case True
  then show ?thesis
    by (auto simp: amount_a_q64_exact_def exact_a_def unat_eq_zero word_le_nat_alt)
next
  case False
  have loc: "u256 u" using laws by unfold_locales
  note fw = u256.from_word(2) [OF loc]
  let ?l = "u_from u (unat l)" and ?sl = "u_from u (unat sl)" and ?su = "u_from u (unat su)"
  have lt: "unat sl < unat su" "0 < unat sl" using False by (auto simp: word_le_nat_alt unat_gt_0)
  obtain d where d: "u_sub u ?su ?sl = Some d" "u_val u d = unat su - unat sl"
    using u256.sub_ok [OF loc, of ?sl ?su] lt(1) fw by auto
  have c1: "u_val u ?l * u_val u d < 2 ^ 256" using fits d(2) fw by simp
  obtain m where m: "u_mul u ?l d = Some m" "u_val u m = unat l * (unat su - unat sl)"
    using u256.mul_cases [OF loc, of ?l d] c1 d(2) fw by (metis not_le)
  have p64: "u_val u (u_from u (2 ^ 64)) = 2 ^ 64" by (rule u256.from_val [OF loc]) simp
  have "u_val u m * u_val u (u_from u (2 ^ 64)) < 2 ^ 256" using fits m(2) p64 by simp
  then obtain n where n: "u_mul u m (u_from u (2 ^ 64)) = Some n" "u_val u n = unat l * (unat su - unat sl) * 2 ^ 64"
    using u256.mul_cases [OF loc, of m "u_from u (2 ^ 64)"] m(2) p64 by (metis not_le)
  have "unat sl * unat su < 2 ^ 128 * 2 ^ 128"
    using unat_lt_2p [of sl] unat_lt_2p [of su] by (intro mult_strict_mono) simp_all
  then have "\<not> 2 ^ 256 \<le> u_val u ?sl * u_val u ?su" using fw by simp
  then obtain e where e: "u_mul u ?sl ?su = Some e" "u_val u e = unat sl * unat su"
    using u256.mul_cases [OF loc, of ?sl ?su] fw by metis
  have e0: "u_val u e \<noteq> 0" using e(2) lt by simp
  obtain q where q: "u_div u n e = Some q" "u_val u q = unat l * (unat su - unat sl) * 2 ^ 64 div (unat sl * unat su)"
    using u256.div_ok [OF loc e0, of n] n(2) e(2) by auto
  have m64: "u_val u (u_from u (2 ^ 64 - 1)) = 2 ^ 64 - 1" by (rule u256.from_val [OF loc]) simp
  show ?thesis
    using False lt d m n e e0 q m64
    by (auto simp: amount_a_q64_exact_def Let_def exact_a_def u256.gt_val [OF loc] u256.as_u64_val [OF loc] min_def)
qed

lemma amount_b_exact:
  fixes l lo hi :: u128
  assumes "unat l * (unat hi - unat lo) < 2 ^ 128"
  shows "unat (ucast (drop_bit 64 (l * saturating_sub_w hi lo)) :: u64) = exact_b (unat l) (unat lo) (unat hi)"
proof -
  have "unat (l * saturating_sub_w hi lo) = unat l * (unat hi - unat lo)"
    using assms by (simp add: unat_mult_lt unat_saturating_sub)
  then have "unat (drop_bit 64 (l * saturating_sub_w hi lo)) = exact_b (unat l) (unat lo) (unat hi)"
    by (simp add: exact_b_def unat_drop_bit_eq drop_bit_eq_div unat_div_distrib)
  moreover have "exact_b (unat l) (unat lo) (unat hi) < 2 ^ 64"
    using assms unfolding exact_b_def by (simp add: div_less_iff_less_mult flip: power_add)
  ultimately show ?thesis by (simp add: unsigned_ucast_eq take_bit_nat_eq_self)
qed

lemma exact_a_lt: "exact_a l lo hi < 2 ^ 64"
  by (simp add: exact_a_def min_def)

lemma amount_a_value:
  assumes "u256_laws u" and "unat l * (unat su - unat sl) < 2 ^ 192"
  shows "\<exists>x. amount_a_q64_exact u l sl su = Some x \<and> unat x = exact_a (unat l) (unat sl) (unat su)"
  using amount_a_exact [OF assms] exact_a_lt [of "unat l" "unat sl" "unat su"] by (auto simp: unat_of_nat)

text \<open>The token amounts of a position: below its range the position is all token A, above it all
  token B, and inside it holds token A for the part of the range above the price and token B for
  the part below. Each amount is the exact amount of the curve, rounded down (token A saturated
  at 64 bits), and nothing panics, provided that liquidity times the width of the range in
  square-root price is below \<open>2 ^ 128\<close> and the price of a position in range is in range.\<close>

theorem token_amounts_spec:
  fixes fl :: float_fns and p :: on_chain_position
  defines "l \<equiv> unat (oc_liquidity p)" and "lo \<equiv> unat (tick_to_sqrt_price fl (oc_tick_lower p))"
    and "hi \<equiv> unat (tick_to_sqrt_price fl (oc_tick_upper p))"
  assumes "u256_laws u" and "l * (hi - lo) < 2 ^ 128"
    and "oc_tick_lower p \<le> t \<and> t < oc_tick_upper p \<longrightarrow> lo \<le> unat sqrt_p \<and> unat sqrt_p \<le> hi"
  shows "\<exists>x y. calculate_token_amounts u fl p t sqrt_p = Some (x, y)
    \<and> (unat x, unat y) = (if t < oc_tick_lower p then (exact_a l lo hi, 0)
         else if oc_tick_upper p \<le> t then (0, exact_b l lo hi)
         else (exact_a l (unat sqrt_p) hi, exact_b l lo (unat sqrt_p)))"
proof -
  have le: "l * (hi - unat sqrt_p) \<le> l * (hi - lo) \<and> l * (unat sqrt_p - lo) \<le> l * (hi - lo)"
    if "lo \<le> unat sqrt_p" "unat sqrt_p \<le> hi"
    using that by (intro conjI mult_le_mono2) simp_all
  consider (below) "t < oc_tick_lower p" | (above) "\<not> t < oc_tick_lower p" "oc_tick_upper p \<le> t"
    | (inside) "\<not> t < oc_tick_lower p" "t < oc_tick_upper p" by linarith
  then show ?thesis
  proof cases
    case below
    with amount_a_value [OF assms(4)] assms(5) show ?thesis
      by (fastforce simp: calculate_token_amounts_def get_amount_a_def l_def lo_def hi_def)
  next
    case above
    with amount_b_exact assms(5) show ?thesis
      by (simp add: calculate_token_amounts_def get_amount_b_def Let_def l_def lo_def hi_def)
  next
    case inside
    then have "lo \<le> unat sqrt_p" "unat sqrt_p \<le> hi" using assms(6) by auto
    then have "l * (hi - unat sqrt_p) < 2 ^ 128" "l * (unat sqrt_p - lo) < 2 ^ 128"
      using le assms(5) by (metis le_less_trans)+
    with inside amount_a_value [OF assms(4)] amount_b_exact show ?thesis
      by (fastforce simp: calculate_token_amounts_def get_amount_a_in_range_def get_amount_b_in_range_def
          Let_def l_def lo_def hi_def)
  qed
qed

text \<open>A position from price 1 to price 4 with the whole prices as square-root prices.\<close>

definition two_ticks :: float_fns where
  "two_ticks = approx_fns\<lparr>f64_powi := (\<lambda>_ k. f64_of_int k)\<rparr>"

definition sample_position :: on_chain_position where
  "sample_position = \<lparr>oc_address = [], oc_pool = [], oc_owner = [], oc_tick_lower = 1, oc_tick_upper = 2,
     oc_liquidity = 1000, oc_fee_growth_inside_a = 0, oc_fee_growth_inside_b = 0, oc_fees_owed_a = 0,
     oc_fees_owed_b = 0\<rparr>"

lemma two_ticks_sqrt: "tick_to_sqrt_price two_ticks 1 = 2 ^ 64" "tick_to_sqrt_price two_ticks 2 = 2 ^ 65"
proof -
  have e: "f64_of_nat (2 ^ 64) = F64_Fin False (2 ^ 64)" "f64_round False (2 ^ 64) = F64_Fin False (2 ^ 64)"
    unfolding f64_of_nat_def
    by (subst f64_round_eq [where k = 64 and n = "2 ^ 52"]; simp add: pow2_def)+
  have e2: "f64_round False (2 ^ 65) = F64_Fin False (2 ^ 65)"
    by (subst f64_round_eq [where k = 65 and n = "2 ^ 52"]; simp add: pow2_def)
  have i: "f64_of_int 1 = F64_Fin False 1" "f64_of_int 2 = F64_Fin False 2"
    using f64_round_exact [of 1] f64_round_exact [of 2] by (simp_all add: f64_of_int_def f64_of_rat_def)
  show "tick_to_sqrt_price two_ticks 1 = 2 ^ 64" "tick_to_sqrt_price two_ticks 2 = 2 ^ 65"
    using e e2 by (simp_all add: tick_to_sqrt_price_def two_ticks_def approx_fns_def i f64_as_u128_def)
qed

theorem token_amounts_spec_witness:
  "\<exists>x y. calculate_token_amounts word_ops two_ticks sample_position 1 (3 * 2 ^ 63) = Some (x, y)
     \<and> unat x = 166 \<and> unat y = 500"
  using token_amounts_spec [OF word_ops_laws, of sample_position two_ticks 1 "3 * 2 ^ 63"]
  by (simp add: sample_position_def two_ticks_sqrt exact_a_def exact_b_def)

text \<open>Token A saturates at 64 bits, but token B wraps around: at the first amount that does not fit
  it is reported as nothing.\<close>

lemma amount_b_wraps:
  assumes "unat liq * (unat sqrt_p - unat (tick_to_sqrt_price fl tick)) = 2 ^ 128"
  shows "get_amount_b_in_range fl liq tick sqrt_p = 0"
proof -
  have "unat (liq * saturating_sub_w sqrt_p (tick_to_sqrt_price fl tick)) = 0"
    using assms by (simp add: unat_word_ariths unat_saturating_sub)
  then show ?thesis by (simp add: get_amount_b_in_range_def unat_eq_zero)
qed

end
