(* ===== verification/Positions.thy ===== *)
theory Positions
  imports Position_Reader
begin

text \<open>
  The monitored position of \<^verbatim>\<open>crates/execution/src/monitor/position_monitor.rs\<close>, shared by the
  monitor, the alert rules and the decision engine. Times of day (\<^verbatim>\<open>chrono::DateTime<Utc>\<close>) are
  integers of nanoseconds.
\<close>

type_synonym datetime = int

record 'd position_pnl =
  entry_price :: "'d option"
  entry_value_usd :: 'd
  current_value_usd :: 'd
  fees_earned_a :: u64
  fees_earned_b :: u64
  fees_usd :: 'd
  il_pct :: 'd
  net_pnl_usd :: 'd
  net_pnl_pct :: 'd
  apy :: 'd

definition default_pnl :: "('d, 'a) decimal_ops_scheme \<Rightarrow> 'd position_pnl" where
  "default_pnl ops = \<lparr>entry_price = None, entry_value_usd = dec_zero ops, current_value_usd = dec_zero ops,
     fees_earned_a = 0, fees_earned_b = 0, fees_usd = dec_zero ops, il_pct = dec_zero ops,
     net_pnl_usd = dec_zero ops, net_pnl_pct = dec_zero ops, apy = dec_zero ops\<rparr>"

record 'd monitored_position =
  mp_address :: pubkey
  mp_pool :: pubkey
  on_chain :: on_chain_position
  pnl :: "'d position_pnl"
  in_range :: bool
  last_updated :: datetime

text \<open>\<^verbatim>\<open>Duration::num_seconds\<close> of the difference of two times: whole seconds, truncated towards zero.\<close>

definition num_seconds :: "datetime \<Rightarrow> datetime \<Rightarrow> int" where
  "num_seconds now earlier = sgn (now - earlier) * (\<bar>now - earlier\<bar> div 1000000000)"

lemma num_seconds_mono: "earlier \<le> a \<Longrightarrow> a \<le> b \<Longrightarrow> num_seconds a earlier \<le> num_seconds b earlier"
  by (cases "a = earlier"; cases "b = earlier") (auto simp: num_seconds_def zdiv_mono1 pos_imp_zdiv_nonneg_iff)

end
