(* ===== verification/Decision_Engine.thy ===== *)
theory Decision_Engine
  imports Positions
begin

text \<open>
  \<^verbatim>\<open>crates/execution/src/strategy/decision.rs\<close> and \<^verbatim>\<open>types.rs\<close>: what a strategy does with a position.
  The configuration lock is taken and released inside one decision; a panic (an overflow of a
  decimal, a pool with tick spacing zero) is \<open>None\<close>.
\<close>

datatype 'd decision =
    Hold
  | Rebalance int int
  | Close
  | IncreaseLiquidity 'd
  | DecreaseLiquidity 'd
  | CollectFees

definition requires_transaction :: "'d decision \<Rightarrow> bool" where
  "requires_transaction d \<longleftrightarrow> (case d of Hold \<Rightarrow> False | _ \<Rightarrow> True)"

datatype strategy_mode =
    StaticRange | Periodic | Threshold | Bollinger | OorRecenter | RetouchShift
  | LastCandle | LastCandlePeriodic | IlLimit

record 'd decision_config =
  strategy_mode :: strategy_mode
  il_rebalance_threshold :: 'd
  il_close_threshold :: 'd
  min_rebalance_interval_minutes :: u64
  periodic_interval_minutes :: u64
  periodic_requires_out_of_range :: bool
  rebalance_on_range_exit_immediately :: bool
  threshold_pct :: 'd
  bollinger_window_points :: u64
  bollinger_k :: 'd
  retouch_offset_pct :: 'd
  range_width_pct :: 'd
  last_candle_seconds :: u64
  auto_collect_fees :: bool
  min_fees_to_collect :: 'd

definition default_decision_config :: "('d, 'a) decimal_ops_scheme \<Rightarrow> 'd decision_config" where
  "default_decision_config ops = \<lparr>strategy_mode = IlLimit,
     il_rebalance_threshold = dec_new ops 5 2, il_close_threshold = dec_new ops 15 2,
     min_rebalance_interval_minutes = 24 * 60, periodic_interval_minutes = 24 * 60,
     periodic_requires_out_of_range = False, rebalance_on_range_exit_immediately = True,
     threshold_pct = dec_new ops 5 3, bollinger_window_points = 20, bollinger_k = dec_new ops 2 0,
     retouch_offset_pct = dec_zero ops, range_width_pct = dec_new ops 10 2, last_candle_seconds = 3600,
     auto_collect_fees = True, min_fees_to_collect = dec_new ops 10 0\<rparr>"

record 'd decision_context =
  position :: "'d monitored_position"
  pool :: "'d whirlpool_state"
  minutes_since_rebalance :: u64
  retouch_armed :: "bool option"
  last_candle_ticks :: "(int \<times> int) option"
  bollinger_ticks :: "(int \<times> int) option"

definition calculate_new_range ::
    "'d decimal_arith \<Rightarrow> float_fns \<Rightarrow> 'd decision_config \<Rightarrow> 'd whirlpool_state \<Rightarrow> (int \<times> int) option" where
  "calculate_new_range ops fl cfg pl =
     calculate_tick_range ops fl (ws_tick_current pl) (range_width_pct cfg) (ws_tick_spacing pl)"

text \<open>The two steps of \<^verbatim>\<open>calculate_retouch_range\<close>: the shifted prices, and their ticks on the grid.\<close>

definition retouch_prices ::
    "'d decimal_arith \<Rightarrow> float_fns \<Rightarrow> 'd decision_config \<Rightarrow> 'd monitored_position \<Rightarrow> 'd whirlpool_state
     \<Rightarrow> ('d \<times> 'd) option" where
  "retouch_prices ops fl cfg pos pl =
     (let lower_price = tick_to_price ops fl (oc_tick_lower (on_chain pos));
          upper_price = tick_to_price ops fl (oc_tick_upper (on_chain pos));
          current_price = ws_price pl
      in do {
        (new_lower_price, new_upper_price) \<leftarrow>
          (if dec_gt ops current_price upper_price then do {
             overflow \<leftarrow> dec_sub ops current_price upper_price;
             l \<leftarrow> dec_add ops lower_price overflow;
             Some (l, current_price) }
           else do {
             overflow \<leftarrow> dec_sub ops lower_price current_price;
             h \<leftarrow> dec_sub ops upper_price overflow;
             Some (current_price, h) });
        shift \<leftarrow> dec_add ops (dec_one ops) (retouch_offset_pct cfg);
        (if dec_gt ops shift (dec_zero ops) then do {
           l \<leftarrow> dec_mul ops new_lower_price shift;
           h \<leftarrow> dec_mul ops new_upper_price shift;
           Some (l, h) }
         else Some (new_lower_price, new_upper_price))
      })"

definition align_tick :: "int \<Rightarrow> int \<Rightarrow> int" where
  "align_tick spacing tick =
     (if 0 < spacing
      then wrap_i32 (f64_as_i32 (f64_round_away (f64_div (f64_of_int tick) (f64_of_int spacing))) * spacing)
      else tick)"

definition calculate_retouch_range ::
    "'d decimal_arith \<Rightarrow> float_fns \<Rightarrow> 'd decision_config \<Rightarrow> 'd monitored_position \<Rightarrow> 'd whirlpool_state
     \<Rightarrow> (int \<times> int) option" where
  "calculate_retouch_range ops fl cfg pos pl =
     (let spacing = uint (ws_tick_spacing pl)
      in do {
        (new_lower_price, new_upper_price) \<leftarrow> retouch_prices ops fl cfg pos pl;
        (let new_lower_tick = align_tick spacing (price_to_tick ops fl (dec_max ops new_lower_price (dec_zero ops)));
             new_upper_tick = align_tick spacing (price_to_tick ops fl (dec_max ops new_upper_price (dec_zero ops)));
             new_upper_tick = (if new_upper_tick \<le> new_lower_tick
                               then wrap_i32 (new_lower_tick + max spacing 1) else new_upper_tick)
         in Some (new_lower_tick, new_upper_tick))
      })"

abbreviation rebalance_to :: "(int \<times> int) option \<Rightarrow> 'd decision option" where
  "rebalance_to r \<equiv> map_option (\<lambda>(l, u). Rebalance l u) r"

text \<open>A rebalance after a range exit that has to wait for the schedule.\<close>

definition exit_must_wait :: "'d decision_config \<Rightarrow> 'd decision_context \<Rightarrow> bool" where
  "exit_must_wait cfg ctx \<longleftrightarrow> \<not> rebalance_on_range_exit_immediately cfg
     \<and> minutes_since_rebalance ctx < min_rebalance_interval_minutes cfg"

definition decide ::
    "'d decimal_arith \<Rightarrow> float_fns \<Rightarrow> 'd decision_config \<Rightarrow> 'd decision_context \<Rightarrow> 'd decision option" where
  "decide ops fl cfg ctx =
     (let pos = position ctx; pl = pool ctx in
      case strategy_mode cfg of
        StaticRange \<Rightarrow> Some Hold
      | Periodic \<Rightarrow>
          if periodic_interval_minutes cfg \<le> minutes_since_rebalance ctx
             \<and> (\<not> periodic_requires_out_of_range cfg \<or> \<not> in_range pos)
          then rebalance_to (calculate_new_range ops fl cfg pl)
          else Some Hold
      | OorRecenter \<Rightarrow>
          if \<not> in_range pos then
            if exit_must_wait cfg ctx then Some Hold
            else rebalance_to (calculate_new_range ops fl cfg pl)
          else Some Hold
      | Threshold \<Rightarrow>
          if \<not> in_range pos then
            if exit_must_wait cfg ctx then Some Hold
            else rebalance_to (calculate_new_range ops fl cfg pl)
          else do {
            sum \<leftarrow> dec_add ops (tick_to_price ops fl (oc_tick_lower (on_chain pos)))
                    (tick_to_price ops fl (oc_tick_upper (on_chain pos)));
            mid \<leftarrow> dec_div ops sum (dec_new ops 2 0);
            (if dec_is_zero ops mid then Some Hold
             else do {
               diff \<leftarrow> dec_sub ops (ws_price pl) mid;
               change \<leftarrow> dec_div ops (dec_abs ops diff) mid;
               (if dec_ge ops change (threshold_pct cfg)
                then rebalance_to (calculate_new_range ops fl cfg pl)
                else Some Hold) }) }
      | Bollinger \<Rightarrow>
          if min_rebalance_interval_minutes cfg \<le> minutes_since_rebalance ctx then
            (case bollinger_ticks ctx of
               Some (l, u) \<Rightarrow> Some (Rebalance l u)
             | None \<Rightarrow> Some Hold)
          else Some Hold
      | RetouchShift \<Rightarrow>
          if in_range pos then Some Hold
          else if \<not> (case retouch_armed ctx of Some b \<Rightarrow> b | None \<Rightarrow> False) then Some Hold
          else if exit_must_wait cfg ctx then Some Hold
          else rebalance_to (calculate_retouch_range ops fl cfg pos pl)
      | LastCandle \<Rightarrow>
          if \<not> in_range pos then
            if exit_must_wait cfg ctx then Some Hold
            else rebalance_to (case last_candle_ticks ctx of
                                 Some r \<Rightarrow> Some r
                               | None \<Rightarrow> calculate_new_range ops fl cfg pl)
          else Some Hold
      | LastCandlePeriodic \<Rightarrow>
          if periodic_interval_minutes cfg \<le> minutes_since_rebalance ctx then
            rebalance_to (case last_candle_ticks ctx of
                            Some r \<Rightarrow> Some r
                          | None \<Rightarrow> calculate_new_range ops fl cfg pl)
          else Some Hold
      | IlLimit \<Rightarrow>
          if \<not> in_range pos
             \<and> (rebalance_on_range_exit_immediately cfg
                \<or> min_rebalance_interval_minutes cfg \<le> minutes_since_rebalance ctx)
          then rebalance_to (calculate_new_range ops fl cfg pl)
          else if dec_gt ops (dec_abs ops (il_pct (pnl pos))) (il_close_threshold cfg) then Some Close
          else if dec_gt ops (dec_abs ops (il_pct (pnl pos))) (il_rebalance_threshold cfg)
                  \<and> min_rebalance_interval_minutes cfg \<le> minutes_since_rebalance ctx
          then rebalance_to (calculate_new_range ops fl cfg pl)
          else Some Hold)"

section \<open>Discipline of the decisions\<close>

text \<open>Where the target of a rebalance comes from.\<close>

definition rebalance_target ::
    "'d decimal_arith \<Rightarrow> float_fns \<Rightarrow> 'd decision_config \<Rightarrow> 'd decision_context \<Rightarrow> (int \<times> int) option set" where
  "rebalance_target ops fl cfg ctx =
     (case strategy_mode cfg of
        StaticRange \<Rightarrow> {}
      | Bollinger \<Rightarrow> {bollinger_ticks ctx}
      | RetouchShift \<Rightarrow> {calculate_retouch_range ops fl cfg (position ctx) (pool ctx)}
      | LastCandle \<Rightarrow> {last_candle_ticks ctx, calculate_new_range ops fl cfg (pool ctx)}
      | LastCandlePeriodic \<Rightarrow> {last_candle_ticks ctx, calculate_new_range ops fl cfg (pool ctx)}
      | _ \<Rightarrow> {calculate_new_range ops fl cfg (pool ctx)})"

text \<open>The interval a strategy waits between rebalances.\<close>

definition waiting_time :: "'d decision_config \<Rightarrow> u64" where
  "waiting_time cfg = (if strategy_mode cfg \<in> {Periodic, LastCandlePeriodic}
     then periodic_interval_minutes cfg else min_rebalance_interval_minutes cfg)"

lemmas decide_splits = if_splits option.splits strategy_mode.splits prod.splits

lemma map_option_Rebalance: "rebalance_to r = Some d \<longleftrightarrow> (\<exists>l u. r = Some (l, u) \<and> d = Rebalance l u)"
  by auto

text \<open>C14. Discipline of the decision engine, for every configuration and context: it only holds,
  rebalances or closes. It closes only under the loss limit, with the loss above the closing
  threshold and while no recentering of an exited range is due. A position in range is left alone
  by the three range-exit strategies. A rebalance that is not an immediate reaction to a range
  exit, nor the midpoint rule of the threshold strategy, happens only after the configured
  interval, and its target is the one the strategy prescribes.\<close>

theorem decide_discipline:
  assumes "decide ops fl cfg ctx = Some d"
  shows "(d = Hold \<or> d = Close \<or> (\<exists>l u. d = Rebalance l u \<and> Some (l, u) \<in> rebalance_target ops fl cfg ctx))
    \<and> (d = Close \<longrightarrow> strategy_mode cfg = IlLimit
         \<and> dec_gt ops (dec_abs ops (il_pct (pnl (position ctx)))) (il_close_threshold cfg)
         \<and> (in_range (position ctx) \<or> exit_must_wait cfg ctx))
    \<and> (strategy_mode cfg \<in> {OorRecenter, RetouchShift, LastCandle} \<and> in_range (position ctx) \<longrightarrow> d = Hold)
    \<and> (\<forall>l u. d = Rebalance l u \<and> \<not> (\<not> in_range (position ctx) \<and> rebalance_on_range_exit_immediately cfg)
         \<and> \<not> (strategy_mode cfg = Threshold \<and> in_range (position ctx))
         \<longrightarrow> waiting_time cfg \<le> minutes_since_rebalance ctx)"
  using assms
  by (cases "strategy_mode cfg")
     (auto simp: decide_def Let_def rebalance_target_def waiting_time_def exit_must_wait_def bind_eq_Some_conv
        not_less map_option_Rebalance split: if_splits option.splits)

definition sample_pool :: "rat whirlpool_state" where
  "sample_pool = \<lparr>ws_address = [], ws_token_mint_a = [], ws_token_mint_b = [], ws_token_vault_a = [],
     ws_token_vault_b = [], ws_tick_current = 100, ws_tick_spacing = 4, ws_sqrt_price = 0, ws_price = 1,
     ws_liquidity = 0, ws_fee_rate_bps = 0, ws_protocol_fee_rate_bps = 0, ws_protocol_fee_owed_a = 0,
     ws_protocol_fee_owed_b = 0, ws_fee_growth_global_a = 0, ws_fee_growth_global_b = 0\<rparr>"

definition sample_context :: "bool \<Rightarrow> rat \<Rightarrow> u64 \<Rightarrow> rat decision_context" where
  "sample_context inside il minutes =
     \<lparr>position = \<lparr>mp_address = [], mp_pool = [], on_chain = sample_position,
        pnl = (default_pnl rat_ops)\<lparr>il_pct := il\<rparr>, in_range = inside, last_updated = 0\<rparr>,
      pool = sample_pool, minutes_since_rebalance = minutes, retouch_armed = None,
      last_candle_ticks = None, bollinger_ticks = None\<rparr>"

text \<open>An in-range position with a loss of 20\%, under the default configuration.\<close>

theorem decide_discipline_witness:
  "decide rat_ops approx_fns (default_decision_config rat_ops) (sample_context True (- 20 / 100) 0) = Some Close
   \<and> 15 / 100 < \<bar>- 20 / 100 :: rat\<bar>"
proof -
  have d: "decide rat_ops approx_fns (default_decision_config rat_ops) (sample_context True (- 20 / 100) 0) = Some Close"
    by (simp add: decide_def default_decision_config_def sample_context_def Let_def rat_ops_def)
  with decide_discipline [OF d] show ?thesis
    by (simp add: default_decision_config_def sample_context_def rat_ops_def)
qed

text \<open>The midpoint rule of the threshold strategy ignores the interval between rebalances.\<close>

lemma threshold_ignores_interval:
  assumes "strategy_mode cfg = Threshold" and "in_range (position ctx)"
  shows "decide ops fl cfg (ctx\<lparr>minutes_since_rebalance := m\<rparr>) = decide ops fl cfg ctx"
  using assms by (simp add: decide_def Let_def)

section \<open>Recentering\<close>

text \<open>When the price has left the range and no waiting time applies, the recentering strategies
  (and the loss limit, whatever the loss) rebalance to a range of ticks on the pool's grid that
  contains the current tick, if the configured half width is at least the spacing less one.\<close>

theorem exit_recenters:
  assumes "strategy_mode cfg \<in> {OorRecenter, Threshold, IlLimit}" and "\<not> in_range (position ctx)"
    and "\<not> exit_must_wait cfg ctx" and "float_laws ops fl"
    and "0 < uint (ws_tick_spacing (pool ctx))" and "\<bar>ws_tick_current (pool ctx)\<bar> \<le> 443636"
    and "uint (ws_tick_spacing (pool ctx)) \<le> tick_delta ops fl (range_width_pct cfg) + 1"
    and "tick_delta ops fl (range_width_pct cfg) \<le> 2 ^ 30"
  shows "\<exists>l u. decide ops fl cfg ctx = Some (Rebalance l u) \<and> is_tick_in_range l u (pool ctx)
    \<and> uint (ws_tick_spacing (pool ctx)) dvd l \<and> uint (ws_tick_spacing (pool ctx)) dvd u"
proof -
  obtain l u where r: "calculate_new_range ops fl cfg (pool ctx) = Some (l, u)"
    and "uint (ws_tick_spacing (pool ctx)) dvd l" "uint (ws_tick_spacing (pool ctx)) dvd u"
      "l \<le> ws_tick_current (pool ctx)" "ws_tick_current (pool ctx) < u"
    using tick_range_bounds [OF assms(4-6,8)] assms(7) unfolding calculate_new_range_def by metis
  moreover have "decide ops fl cfg ctx = Some (Rebalance l u)"
    using assms(1-3) r by (auto simp: decide_def Let_def exit_must_wait_def not_less)
  ultimately show ?thesis by (auto simp: is_tick_in_range_def)
qed

theorem exit_recenters_witness:
  "\<exists>l u. decide rat_ops approx_fns ((default_decision_config rat_ops)\<lparr>range_width_pct := 1 / 1024\<rparr>)
       (sample_context False (- 20 / 100) 0) = Some (Rebalance l u)
     \<and> is_tick_in_range l u sample_pool"
proof -
  have "(\<exists>l u. decide rat_ops approx_fns ((default_decision_config rat_ops)\<lparr>range_width_pct := 1 / 1024\<rparr>)
       (sample_context False (- 20 / 100) 0) = Some (Rebalance l u)
     \<and> is_tick_in_range l u (pool (sample_context False (- 20 / 100) 0))
     \<and> uint (ws_tick_spacing (pool (sample_context False (- 20 / 100) 0))) dvd l
     \<and> uint (ws_tick_spacing (pool (sample_context False (- 20 / 100) 0))) dvd u)"
    by (rule exit_recenters)
       (simp_all add: default_decision_config_def sample_context_def sample_pool_def exit_must_wait_def
          float_laws_rat tick_delta_example)
  then show ?thesis by (auto simp: sample_context_def)
qed

section \<open>Retouching\<close>

lemma f64_of_int_exact:
  assumes "\<bar>t\<bar> < 2 ^ 53"
  shows "f64_of_int t = F64_Fin (t < 0) (of_int \<bar>t\<bar>)"
proof (cases "t = 0")
  case False
  then have "f64_round (t < 0) (of_nat (nat \<bar>t\<bar>)) = F64_Fin (t < 0) (of_nat (nat \<bar>t\<bar>))"
    using assms by (intro f64_round_exact) auto
  with False show ?thesis by (simp add: f64_of_int_def f64_of_rat_def)
qed (simp add: f64_of_int_def f64_of_rat_def)

lemma quotient_rounding:
  assumes "0 < s" and "s < 2 ^ 16" and "0 < a" and "a \<le> 2 ^ 30"
  shows "\<exists>m n. f64_round neg (of_int a / of_int s) = F64_Fin neg m \<and> \<lfloor>m + 1 / 2\<rfloor> = n
    \<and> \<bar>n * s - a\<bar> < s \<and> 0 \<le> n"
proof -
  let ?r = "of_int a / of_int s :: rat"
  have s: "0 < (of_int s :: rat)" "(of_int s :: rat) < 2 ^ 16" "1 \<le> (of_int a :: rat)" "(of_int a :: rat) \<le> 2 ^ 30"
  proof -
    show "0 < (of_int s :: rat)" "1 \<le> (of_int a :: rat)" using assms by simp_all
    have "(of_int s :: rat) < of_int (2 ^ 16)" "(of_int a :: rat) \<le> of_int (2 ^ 30)"
      using assms by (simp_all only: of_int_less_iff of_int_le_iff)
    then show "(of_int s :: rat) < 2 ^ 16" "(of_int a :: rat) \<le> 2 ^ 30" by simp_all
  qed
  have hi: "?r \<le> 2 ^ 30" using s assms(1) by (simp add: pos_divide_le_eq)
  have "1 / 2 ^ 16 \<le> 1 / (of_int s :: rat)" using s by (intro divide_left_mono) simp_all
  also have "\<dots> \<le> ?r" using s by (intro divide_right_mono) simp_all
  finally have lo: "1 / 2 ^ 16 \<le> ?r" .
  have "pow2 (- 1022) \<le> pow2 (- 16)" "pow2 30 < pow2 1022" by (simp_all only: pow2_le_iff pow2_less_iff)
  moreover have "pow2 (- 16) = 1 / 2 ^ 16" "pow2 30 = 2 ^ 30" by (simp_all add: pow2_def)
  ultimately have "pow2 (- 1022) \<le> ?r" "?r < pow2 1022" using lo hi by linarith+
  from f64_round_error [OF this, of neg]
  obtain m where m: "f64_round neg ?r = F64_Fin neg m" "\<bar>m - ?r\<bar> \<le> ?r / 2 ^ 53" by blast
  define n where "n = \<lfloor>m + 1 / 2\<rfloor>"
  have "\<bar>m - ?r\<bar> < 1 / 4" using m(2) hi by simp
  moreover have "of_int n \<le> m + 1 / 2" "m - 1 / 2 < of_int n"
    using floor_correct [of "m + 1 / 2"] unfolding n_def by linarith+
  moreover have "0 \<le> ?r" using s by simp
  ultimately have "\<bar>of_int n - ?r\<bar> < 1" "- 1 < (of_int n :: rat)" by linarith+
  then have r: "\<bar>of_int n - ?r\<bar> < 1" "of_int (- 1) < (of_int n :: rat)" by simp_all
  have "\<bar>of_int n - ?r\<bar> * of_int s < 1 * of_int s" by (rule mult_strict_right_mono [OF r(1) s(1)])
  moreover have "\<bar>of_int n - ?r\<bar> * of_int s = \<bar>(of_int n - ?r) * of_int s\<bar>" using s(1) by (simp add: abs_mult)
  moreover have "(of_int n - ?r) * of_int s = of_int (n * s - a)" using s(1) by (simp add: left_diff_distrib)
  ultimately have "(of_int \<bar>n * s - a\<bar> :: rat) < of_int s" by simp
  then have "\<bar>n * s - a\<bar> < s" by (simp only: of_int_less_iff)
  moreover have "0 \<le> n" using r(2) by (simp only: of_int_less_iff)
  ultimately show ?thesis using m(1) n_def by blast
qed

lemma align_tick_grid:
  assumes "0 < s" and "s < 2 ^ 16" and "\<bar>t\<bar> \<le> 2 ^ 30"
  shows "s dvd align_tick s t \<and> \<bar>align_tick s t - t\<bar> < s"
proof (cases "t = 0")
  case True
  moreover have "\<lfloor>1 / 2 :: rat\<rfloor> = 0" by (simp add: floor_eq_iff)
  ultimately show ?thesis
    using assms by (simp add: align_tick_def f64_of_int_exact f64_round_def f64_as_i32_def wrap_i32_def)
next
  case False
  then obtain m n where m: "f64_round (t < 0) (of_int \<bar>t\<bar> / of_int s) = F64_Fin (t < 0) m"
    "\<lfloor>m + 1 / 2\<rfloor> = n" "\<bar>n * s - \<bar>t\<bar>\<bar> < s" "0 \<le> n"
    using quotient_rounding [OF assms(1,2), of "\<bar>t\<bar>" "t < 0"] assms(3) by auto
  have "n \<le> n * s" using m(4) assms(1) by (simp add: mult_le_cancel_left1)
  moreover have "0 \<le> n * s" using m(4) assms(1) by simp
  ultimately have n: "n < 2 ^ 31 - 1" "\<bar>n * s\<bar> < 2 ^ 31" using m(3) assms(2,3) by simp_all
  have "f64_div (f64_of_int t) (f64_of_int s) = F64_Fin (t < 0) m"
    using m(1) assms False by (simp add: f64_of_int_exact)
  then have "f64_as_i32 (f64_round_away (f64_div (f64_of_int t) (f64_of_int s))) = (if t < 0 then - n else n)"
    using m(2,4) n(1) by (auto simp: f64_as_i32_def)
  moreover have "is_i32 ((if t < 0 then - n else n) * s)" using n(2) by (auto simp: is_i32_def)
  ultimately have "align_tick s t = (if t < 0 then - n else n) * s" using assms(1) by (simp add: align_tick_def)
  with m(3) show ?thesis by auto
qed

text \<open>Retouching: whenever the shifted prices correspond to ticks of at most \<open>2 ^ 30\<close>, the new range
  is on the pool's grid, not empty, and starts within one spacing of the new lower price.\<close>

theorem retouch_range_valid:
  assumes "retouch_prices ops fl cfg pos pl = Some (a, b)" and "0 < uint (ws_tick_spacing pl)"
    and "\<bar>price_to_tick ops fl (dec_max ops a (dec_zero ops))\<bar> \<le> 2 ^ 30"
    and "\<bar>price_to_tick ops fl (dec_max ops b (dec_zero ops))\<bar> \<le> 2 ^ 30"
  shows "\<exists>l u. calculate_retouch_range ops fl cfg pos pl = Some (l, u) \<and> l < u
    \<and> uint (ws_tick_spacing pl) dvd l \<and> uint (ws_tick_spacing pl) dvd u
    \<and> \<bar>l - price_to_tick ops fl (dec_max ops a (dec_zero ops))\<bar> < uint (ws_tick_spacing pl)"
proof -
  let ?s = "uint (ws_tick_spacing pl)"
  have s: "?s < 2 ^ 16" using uint_lt2p [of "ws_tick_spacing pl"] by simp
  let ?l = "align_tick ?s (price_to_tick ops fl (dec_max ops a (dec_zero ops)))"
  let ?u = "align_tick ?s (price_to_tick ops fl (dec_max ops b (dec_zero ops)))"
  have l: "?s dvd ?l" "\<bar>?l - price_to_tick ops fl (dec_max ops a (dec_zero ops))\<bar> < ?s" and u: "?s dvd ?u"
    using align_tick_grid [OF assms(2) s] assms(3,4) by blast+
  have "is_i32 (?l + ?s)" using l(2) assms(2,3) s by (simp add: is_i32_def abs_less_iff abs_le_iff)
  then have "wrap_i32 (?l + max ?s 1) = ?l + ?s" using assms(2) by (simp add: max_absorb1)
  with assms(1,2) l u show ?thesis by (auto simp: calculate_retouch_range_def Let_def)
qed

lemma two_ticks_price: "tick_to_price rat_ops two_ticks 1 = 1" "tick_to_price rat_ops two_ticks 2 = 2"
  by (simp_all add: tick_to_price_def two_ticks_def rat_ops_def f64_of_int_exact signed_val_def)

lemma two_ticks_tick: "price_to_tick rat_ops two_ticks p = 1"
proof -
  have "f64_lit (13421 / 2 ^ 27) = F64_Fin False (13421 / 2 ^ 27)"
    unfolding f64_lit_def f64_of_rat_def
    by (subst f64_round_eq [where k = "- 14" and n = "13421 * 2 ^ 39"]) (simp_all add: pow2_def)
  moreover have "f64_round False 1 = F64_Fin False 1" using f64_round_exact [of 1] by simp
  moreover have "\<lfloor>3 / 2 :: rat\<rfloor> = 1" by (simp add: floor_eq_iff)
  ultimately show ?thesis
    by (simp add: price_to_tick_def two_ticks_def approx_fns_def Let_def f64_as_i32_def)
qed

text \<open>A price of 3 above a range from 1 to 2 gives the range from 2 to 3, with no offset.\<close>

theorem retouch_range_valid_witness:
  "\<exists>l u. calculate_retouch_range rat_ops two_ticks (default_decision_config rat_ops)
       (position (sample_context False 0 0)) (sample_pool\<lparr>ws_price := 3\<rparr>) = Some (l, u) \<and> l < u \<and> 4 dvd l"
proof -
  have "retouch_prices rat_ops two_ticks (default_decision_config rat_ops)
      (position (sample_context False 0 0)) (sample_pool\<lparr>ws_price := 3\<rparr>) = Some (2, 3)"
    by (simp add: retouch_prices_def Let_def sample_context_def sample_position_def two_ticks_price
        sample_pool_def) (simp add: rat_ops_def default_decision_config_def dec_one_def dec_zero_def)
  from retouch_range_valid [OF this] show ?thesis
    by (simp add: two_ticks_tick) (auto simp: sample_pool_def)
qed

end
