(* ===== verification/Json.thy ===== *)
theory Json
  imports F64 "HOL-Library.Char_ord" "HOL-Library.List_Lexorder"
begin

text \<open>
  Data formats the accounting code reads and writes: ordered maps (\<^verbatim>\<open>BTreeMap\<close> with string keys, an
  association list in ascending byte order of the keys), decimal numerals (\<^verbatim>\<open>to_string\<close> and \<^verbatim>\<open>parse\<close>
  of the integer types), and the value type of \<^verbatim>\<open>serde_json\<close> with its accessors. The parser of
  JSON texts itself belongs to that crate and is a parameter where it is used.
\<close>

section \<open>Ordered maps\<close>

type_synonym 'v btree = "(string \<times> 'v) list"

fun bt_insert :: "string \<Rightarrow> 'v \<Rightarrow> 'v btree \<Rightarrow> 'v btree" where
  "bt_insert k v [] = [(k, v)]"
| "bt_insert k v ((k', v') # m) =
     (if k = k' then (k, v) # m
      else if k < k' then (k, v) # (k', v') # m
      else (k', v') # bt_insert k v m)"

text \<open>The value of a key, or a default: \<^verbatim>\<open>get(k).copied().unwrap_or(d)\<close>.\<close>

definition bt_get_or :: "'v \<Rightarrow> 'v btree \<Rightarrow> string \<Rightarrow> 'v" where
  "bt_get_or d m k = (case map_of m k of None \<Rightarrow> d | Some v \<Rightarrow> v)"

definition bt_wf :: "'v btree \<Rightarrow> bool" where
  "bt_wf m \<longleftrightarrow> sorted_wrt (<) (map fst m)"

named_theorems btree \<open>lookup, keys and order of ordered maps\<close>

lemma map_of_bt_insert [btree, simp]: "map_of (bt_insert k v m) = (map_of m)(k \<mapsto> v)"
  by (induction k v m rule: bt_insert.induct) (auto simp: fun_eq_iff)

lemma keys_bt_insert [btree, simp]: "fst ` set (bt_insert k v m) = insert k (fst ` set m)"
  by (induction k v m rule: bt_insert.induct) auto

lemma bt_wf_Nil [btree, simp]: "bt_wf []"
  by (simp add: bt_wf_def)

lemma bt_wf_Cons: "bt_wf ((k, v) # m) \<longleftrightarrow> (\<forall>k' \<in> fst ` set m. k < k') \<and> bt_wf m"
  by (simp add: bt_wf_def)

lemma bt_wf_insert [btree, simp]: "bt_wf m \<Longrightarrow> bt_wf (bt_insert k v m)"
  by (induction k v m rule: bt_insert.induct) (auto simp: bt_wf_Cons)

lemma bt_wf_distinct: "bt_wf m \<Longrightarrow> distinct (map fst m)"
  using strict_sorted_iff [of "map fst m"] by (simp add: bt_wf_def)

lemma bt_wf_map_of: "bt_wf m \<Longrightarrow> (k, v) \<in> set m \<longleftrightarrow> map_of m k = Some v"
  using bt_wf_distinct by fastforce

lemma bt_get_or_insert [btree, simp]:
  "bt_get_or d (bt_insert k v m) k' = (if k' = k then v else bt_get_or d m k')"
  by (simp add: bt_get_or_def)

lemma bt_get_or_Nil [simp]: "bt_get_or d [] k = d"
  by (simp add: bt_get_or_def)

text \<open>An ordered map is determined by its lookup function.\<close>

lemma bt_ext:
  assumes "bt_wf m" "bt_wf m'" "map_of m = map_of m'"
  shows "m = m'"
proof -
  have "set m = set m'" using assms by (auto simp: bt_wf_map_of)
  moreover have "sorted_wrt (\<lambda>x y. fst x < fst y) m" "sorted_wrt (\<lambda>x y. fst x < fst y) m'"
    using assms by (simp_all add: bt_wf_def sorted_wrt_map)
  ultimately show ?thesis
  proof (induction m arbitrary: m')
    case Nil
    then show ?case by simp
  next
    case (Cons x m)
    then obtain y n where m': "m' = y # n" by (cases m') auto
    have "x = y"
    proof (rule ccontr)
      assume "x \<noteq> y"
      with Cons.prems(1) m' have "x \<in> set n" "y \<in> set m" by auto
      with Cons.prems(2,3) m' have "fst x < fst y" "fst y < fst x" by simp_all
      then show False by simp
    qed
    moreover have "x \<notin> set m" "y \<notin> set n" using Cons.prems m' by auto
    ultimately have "set m = set n" using Cons.prems(1) m' by auto
    with Cons.IH [of n] Cons.prems m' \<open>x = y\<close> show ?case by simp
  qed
qed

section \<open>Decimal numerals\<close>

definition digit_char :: "nat \<Rightarrow> char" where
  "digit_char d = char_of (48 + d)"

definition digit_value :: "char \<Rightarrow> nat option" where
  "digit_value c = (if 48 \<le> (of_char c :: nat) \<and> (of_char c :: nat) \<le> 57 then Some (of_char c - 48) else None)"

fun show_nat :: "nat \<Rightarrow> string" where
  "show_nat n = (if n < 10 then [digit_char n] else show_nat (n div 10) @ [digit_char (n mod 10)])"

declare show_nat.simps [simp del]

definition show_int :: "int \<Rightarrow> string" where
  "show_int i = (if i < 0 then CHR ''-'' # show_nat (nat (- i)) else show_nat (nat i))"

fun digits_value :: "nat \<Rightarrow> string \<Rightarrow> nat option" where
  "digits_value acc [] = Some acc"
| "digits_value acc (c # cs) =
     (case digit_value c of None \<Rightarrow> None | Some d \<Rightarrow> digits_value (10 * acc + d) cs)"

definition parse_nat :: "string \<Rightarrow> nat option" where
  "parse_nat s = (if s = [] then None else digits_value 0 s)"

text \<open>\<^verbatim>\<open>str::parse\<close> at a signed and at an unsigned integer type: an optional sign (only a plus for an
  unsigned type), at least one digit, and a value within the type.\<close>

definition parse_signed :: "int \<Rightarrow> int \<Rightarrow> string \<Rightarrow> int option" where
  "parse_signed lo hi s =
     (case (case s of
              c # cs \<Rightarrow> if c = CHR ''-'' then map_option (\<lambda>n. - int n) (parse_nat cs)
                         else if c = CHR ''+'' then map_option int (parse_nat cs)
                         else map_option int (parse_nat s)
            | [] \<Rightarrow> None) of
        None \<Rightarrow> None
      | Some v \<Rightarrow> if lo \<le> v \<and> v \<le> hi then Some v else None)"

definition parse_unsigned :: "nat \<Rightarrow> string \<Rightarrow> nat option" where
  "parse_unsigned hi s =
     (case (case s of
              c # cs \<Rightarrow> if c = CHR ''+'' then parse_nat cs else parse_nat s
            | [] \<Rightarrow> None) of
        None \<Rightarrow> None
      | Some v \<Rightarrow> if v \<le> hi then Some v else None)"

lemma digit_value_char [simp]: "d < 10 \<Longrightarrow> digit_value (digit_char d) = Some d"
  by (simp add: digit_value_def digit_char_def)

lemma digit_char_plain [simp]:
  assumes "d < 10"
  shows "digit_char d \<noteq> CHR ''-''" "digit_char d \<noteq> CHR ''+''" "\<not> is_space (digit_char d)"
proof -
  have "of_char (digit_char d) = 48 + d" using assms by (simp add: digit_char_def)
  then show "digit_char d \<noteq> CHR ''-''" "digit_char d \<noteq> CHR ''+''" "\<not> is_space (digit_char d)"
    by (auto simp: is_space_def)
qed

lemma digits_value_append:
  "digits_value a (xs @ ys) = (case digits_value a xs of None \<Rightarrow> None | Some b \<Rightarrow> digits_value b ys)"
  by (induction xs arbitrary: a) (auto split: option.splits)

lemma digits_value_show: "digits_value 0 (show_nat n) = Some n"
proof (induction n rule: show_nat.induct)
  case (1 n)
  then show ?case by (subst show_nat.simps) (simp add: digits_value_append)
qed

lemma show_nat_not_Nil [simp]: "show_nat n \<noteq> []"
  by (subst show_nat.simps) simp

lemma show_nat_chars: "c \<in> set (show_nat n) \<Longrightarrow> \<exists>d < 10. c = digit_char d"
proof (induction n rule: show_nat.induct)
  case (1 n)
  have "n mod 10 < 10" by simp
  then have last: "\<exists>d < 10. digit_char (n mod 10) = digit_char d" by blast
  from 1 show ?case
    by (subst (asm) (2) show_nat.simps) (auto split: if_splits intro: last)
qed

lemma parse_nat_show [simp]: "parse_nat (show_nat n) = Some n"
  by (simp add: parse_nat_def digits_value_show)

lemma show_nat_head:
  obtains c cs where "show_nat n = c # cs" "c \<noteq> CHR ''-''" "c \<noteq> CHR ''+''"
proof -
  obtain c cs where s: "show_nat n = c # cs" by (cases "show_nat n") auto
  then obtain d where "d < 10" "c = digit_char d" using show_nat_chars [of c n] by auto
  with s that show thesis by simp
qed

lemma parse_signed_show:
  assumes "lo \<le> i" "i \<le> hi"
  shows "parse_signed lo hi (show_int i) = Some i"
proof (cases "i < 0")
  case True
  with assms show ?thesis by (simp add: parse_signed_def show_int_def)
next
  case False
  obtain c cs where "show_nat (nat i) = c # cs" "c \<noteq> CHR ''-''" "c \<noteq> CHR ''+''"
    by (rule show_nat_head)
  with False assms parse_nat_show [of "nat i"] show ?thesis
    by (simp add: parse_signed_def show_int_def)
qed

lemma parse_signed_range: "parse_signed lo hi s = Some i \<Longrightarrow> lo \<le> i \<and> i \<le> hi"
  by (simp add: parse_signed_def split: option.splits if_splits)

lemma trim_no_space: "\<forall>c \<in> set s. \<not> is_space c \<Longrightarrow> trim s = s"
proof -
  assume s: "\<forall>c \<in> set s. \<not> is_space c"
  have "dropWhile is_space t = t" if "\<forall>c \<in> set t. \<not> is_space c" for t
    using that by (cases t) auto
  from this [of s] this [of "rev s"] s show "trim s = s" by (simp add: trim_def)
qed

lemma trim_show_int [simp]: "trim (show_int i) = show_int i"
proof (rule trim_no_space)
  have "\<not> is_space c" if "c \<in> set (show_nat n)" for c n
    using show_nat_chars [OF that] by auto
  moreover have "\<not> is_space (CHR ''-'')" by (simp add: is_space_def)
  ultimately show "\<forall>c \<in> set (show_int i). \<not> is_space c"
    by (auto simp: show_int_def)
qed

lemma dropWhile_last: "dropWhile P xs \<noteq> [] \<Longrightarrow> last (dropWhile P xs) = last xs"
  by (induction xs) (auto split: if_splits)

lemma trim_idem [simp]: "trim (trim s) = trim s"
proof -
  define t where "t = dropWhile is_space s"
  have hd_t: "t = [] \<or> \<not> is_space (hd t)" unfolding t_def by (metis hd_dropWhile)
  define u where "u = dropWhile is_space (rev t)"
  have "u = [] \<or> \<not> is_space (hd u)" unfolding u_def by (metis hd_dropWhile)
  moreover have "u = [] \<or> \<not> is_space (last u)"
  proof (cases "u = []")
    case False
    then have "t \<noteq> []" "last u = hd t"
      using dropWhile_last [of is_space "rev t"] unfolding u_def by (auto simp: last_rev)
    with hd_t show ?thesis by simp
  qed simp
  moreover have drop: "w = [] \<or> \<not> is_space (hd w) \<Longrightarrow> dropWhile is_space w = w" for w
    by (cases w) auto
  ultimately show ?thesis
    by (simp add: trim_def t_def [symmetric] u_def [symmetric] drop hd_rev)
qed

section \<open>JSON values\<close>

text \<open>\<^verbatim>\<open>serde_json::Number\<close>: an unsigned 64-bit integer, a negative signed 64-bit integer, or a float.\<close>

datatype json_number = PosInt u64 | NegInt int | FloatNum f64

datatype json =
  JNull | JBool bool | JNumber json_number | JString string | JArray "json list" | JObject "(string \<times> json) list"

fun json_get :: "string \<Rightarrow> json \<Rightarrow> json option" where
  "json_get k (JObject m) = map_of m k"
| "json_get k _ = None"

fun as_str_json :: "json \<Rightarrow> string option" where
  "as_str_json (JString s) = Some s"
| "as_str_json _ = None"

fun as_object :: "json \<Rightarrow> (string \<times> json) list option" where
  "as_object (JObject m) = Some m"
| "as_object _ = None"

fun num_as_f64 :: "json_number \<Rightarrow> f64" where
  "num_as_f64 (PosInt n) = f64_of_nat (unat n)"
| "num_as_f64 (NegInt i) = f64_of_int i"
| "num_as_f64 (FloatNum x) = x"

fun num_as_u64 :: "json_number \<Rightarrow> u64 option" where
  "num_as_u64 (PosInt n) = Some n"
| "num_as_u64 _ = None"

fun num_as_i64 :: "json_number \<Rightarrow> int option" where
  "num_as_i64 (PosInt n) = (if unat n < 2 ^ 63 then Some (int (unat n)) else None)"
| "num_as_i64 (NegInt i) = Some i"
| "num_as_i64 (FloatNum x) = None"

fun as_u64 :: "json \<Rightarrow> u64 option" where
  "as_u64 (JNumber n) = num_as_u64 n"
| "as_u64 _ = None"

fun as_i64 :: "json \<Rightarrow> int option" where
  "as_i64 (JNumber n) = num_as_i64 n"
| "as_i64 _ = None"

text \<open>\<^verbatim>\<open>v.as_object_mut()\<close> followed by \<^verbatim>\<open>insert\<close>; other values are left alone.\<close>

fun json_insert :: "string \<Rightarrow> json \<Rightarrow> json \<Rightarrow> json" where
  "json_insert k x (JObject m) = JObject (bt_insert k x m)"
| "json_insert k x v = v"

lemma json_get_insert [simp]:
  "json_get k' (json_insert k x v) = (if k' = k \<and> as_object v \<noteq> None then Some x else json_get k' v)"
  by (cases v) auto

text \<open>The recurring chain \<^verbatim>\<open>.and_then(as_str).map(str::trim).filter(non-empty)\<close>.\<close>

definition non_empty_str :: "json option \<Rightarrow> string option" where
  "non_empty_str v =
     (case Option.bind v as_str_json of
        None \<Rightarrow> None
      | Some s \<Rightarrow> if trim s = [] then None else Some (trim s))"

lemma non_empty_str_trimmed: "non_empty_str v = Some s \<Longrightarrow> trim s = s \<and> s \<noteq> []"
  by (auto simp: non_empty_str_def split: option.splits if_splits)

definition or_else :: "'a option \<Rightarrow> 'a option \<Rightarrow> 'a option" where
  "or_else a b = (case a of None \<Rightarrow> b | Some _ \<Rightarrow> a)"

lemma or_else_simps [simp]: "or_else None b = b" "or_else (Some x) b = Some x"
  by (simp_all add: or_else_def)

lemma or_else_cases: "or_else a b = Some x \<longleftrightarrow> a = Some x \<or> a = None \<and> b = Some x"
  by (cases a) auto

end
