(* ===== verification/Session_Deltas.thy ===== *)
theory Session_Deltas
  imports Json Decimals "HOL-Library.Monad_Syntax"
begin

text \<open>
  The pure part of \<^verbatim>\<open>data/src/wallet_session.rs\<close>: which signed token amounts a row of the lifecycle
  ledger posts to the logical wallet of its session (or chain of sessions), how debits of position
  openings are capped, how rows are summed up, and how balances become spending caps.

  A 128-bit signed amount is an integer in the range \<open>is_i128\<close>; a panic (an overflow of a decimal
  multiplication) is the outer \<open>None\<close>; the ordered maps are those of \<open>Json\<close>.
\<close>

section \<open>Identifiers\<close>

definition WSOL_MINT :: string where
  "WSOL_MINT = ''So11111111111111111111111111111111111111112''"

definition USDC_MINT :: string where
  "USDC_MINT = ''EPjFWdd5AufqSSqeM2qN1xzybapC8G4wEGGkZwyTDt1v''"

definition TX_FEE_ACCOUNT_CODE :: string where
  "TX_FEE_ACCOUNT_CODE = ''TX_FEE''"

definition wallet_account_code :: "string \<Rightarrow> string" where
  "wallet_account_code owner = ''WALLET:'' @ trim owner"

definition wallet_opening_import_event_id :: "string \<Rightarrow> string" where
  "wallet_opening_import_event_id owner = ''opening_import:'' @ trim owner"

definition wallet_journal_posting_event_id :: "string \<Rightarrow> string" where
  "wallet_journal_posting_event_id j = ''wallet_journal:'' @ trim j"

definition session_account_code :: "string \<Rightarrow> string" where
  "session_account_code session_id = ''SESSION:'' @ session_id"

definition chain_account_code :: "string \<Rightarrow> string" where
  "chain_account_code chain_session_id = ''CHAIN:'' @ chain_session_id"

definition lifecycle_posting_event_id :: "string \<Rightarrow> string" where
  "lifecycle_posting_event_id signature = ''lifecycle:'' @ trim signature"

definition chain_lifecycle_posting_event_id :: "string \<Rightarrow> string" where
  "chain_lifecycle_posting_event_id signature = ''chain_lifecycle:'' @ trim signature"

definition tx_fee_posting_event_id :: "string \<Rightarrow> string" where
  "tx_fee_posting_event_id signature = ''tx_fee:'' @ trim signature"

lemmas account_code_defs = session_account_code_def chain_account_code_def wallet_account_code_def
  TX_FEE_ACCOUNT_CODE_def

lemmas event_id_defs = lifecycle_posting_event_id_def chain_lifecycle_posting_event_id_def
  tx_fee_posting_event_id_def wallet_opening_import_event_id_def wallet_journal_posting_event_id_def

section \<open>Raw amounts\<close>

definition i128_min :: int where "i128_min = - (2 ^ 127)"
definition i128_max :: int where "i128_max = 2 ^ 127 - 1"

definition is_i128 :: "int \<Rightarrow> bool" where
  "is_i128 x \<longleftrightarrow> i128_min \<le> x \<and> x \<le> i128_max"

definition saturate_i128 :: "int \<Rightarrow> int" where
  "saturate_i128 x = max i128_min (min i128_max x)"

definition saturating_add_i128 :: "int \<Rightarrow> int \<Rightarrow> int" where
  "saturating_add_i128 a b = saturate_i128 (a + b)"

definition saturating_neg_i128 :: "int \<Rightarrow> int" where
  "saturating_neg_i128 a = saturate_i128 (- a)"

lemmas i128_defs = i128_min_def i128_max_def is_i128_def saturate_i128_def saturating_add_i128_def
  saturating_neg_i128_def

lemma is_i128_saturate [simp]: "is_i128 (saturate_i128 x)" "is_i128 (saturating_add_i128 a b)"
  by (simp_all add: i128_defs)

definition parse_raw_i128 :: "string \<Rightarrow> int option" where
  "parse_raw_i128 s =
     (let t = trim s in if t = [] then None else parse_signed i128_min i128_max t)"

definition format_raw_i128 :: "int \<Rightarrow> string" where
  "format_raw_i128 v = show_int v"

definition raw_i128_to_spend_cap :: "int \<Rightarrow> u64" where
  "raw_i128_to_spend_cap v =
     (if v \<le> 0 then 0 else word_of_int (min v (2 ^ 64 - 1)))"

lemma parse_format_i128 [simp]: "is_i128 v \<Longrightarrow> parse_raw_i128 (format_raw_i128 v) = Some v"
proof -
  assume "is_i128 v"
  moreover have "show_int v \<noteq> []" by (simp add: show_int_def)
  ultimately show ?thesis
    by (simp add: parse_raw_i128_def format_raw_i128_def is_i128_def parse_signed_show)
qed

lemma parse_raw_i128_range: "parse_raw_i128 s = Some v \<Longrightarrow> is_i128 v"
  by (auto simp: parse_raw_i128_def is_i128_def Let_def dest: parse_signed_range split: if_splits)

lemma spend_cap_value: "int (unat (raw_i128_to_spend_cap v)) = max 0 (min v (2 ^ 64 - 1))"
proof (cases "v \<le> 0")
  case False
  then have "uint (word_of_int (min v (2 ^ 64 - 1)) :: u64) = min v (2 ^ 64 - 1)"
    by (simp add: unsigned_of_int take_bit_int_eq_self)
  with False show ?thesis by (simp add: raw_i128_to_spend_cap_def)
qed (simp add: raw_i128_to_spend_cap_def)

section \<open>Reading a lifecycle row\<close>

definition dec_from_json :: "'d decimal_json \<Rightarrow> json \<Rightarrow> 'd option" where
  "dec_from_json ops v =
     (case v of
        JString s \<Rightarrow> dec_from_str ops (trim s)
      | JNumber n \<Rightarrow>
          or_else (dec_from_f64_retain ops (num_as_f64 n))
            (map_option (\<lambda>u. dec_from_int ops (int (unat u))) (num_as_u64 n))
      | _ \<Rightarrow> None)"

definition parse_u64_json :: "json \<Rightarrow> u64 option" where
  "parse_u64_json v =
     or_else (as_u64 v)
       (or_else (case as_i64 v of Some x \<Rightarrow> if 0 \<le> x then Some (word_of_int x) else None | None \<Rightarrow> None)
         (case as_str_json v of
            Some s \<Rightarrow> map_option word_of_nat (parse_unsigned (2 ^ 64 - 1) s)
          | None \<Rightarrow> None))"

definition default_mint_decimals :: "string \<Rightarrow> nat" where
  "default_mint_decimals mint =
     (if mint = WSOL_MINT then 9 else if mint = USDC_MINT then 6 else 9)"

definition ui_decimal_to_raw_i128 :: "'d decimal_json \<Rightarrow> 'd \<Rightarrow> nat \<Rightarrow> int option option" where
  "ui_decimal_to_raw_i128 ops ui decimals =
     (if dec_is_zero ops ui then Some (Some 0)
      else do {
        scaled \<leftarrow> dec_mul ops ui (dec_from_int ops (10 ^ decimals));
        Some (dec_to_i128 ops (dec_trunc ops scaled))
      })"

datatype pool_mint_resolve_source = Details | PoolAddress | Unresolved

fun pool_mint_source_as_str :: "pool_mint_resolve_source \<Rightarrow> string" where
  "pool_mint_source_as_str Details = ''details''"
| "pool_mint_source_as_str PoolAddress = ''pool_address''"
| "pool_mint_source_as_str Unresolved = ''incomplete''"

definition known_pool_leg_mints :: "string \<Rightarrow> (string \<times> string) option" where
  "known_pool_leg_mints pool_address = map_of
     [(''Czfq3xZZDmsdGdUyrNLtRhGc47cXcZtLG4crryfu44zE'', (WSOL_MINT, USDC_MINT)),
      (''HktfL7iwGKT5QHjywQkcDnZXScoh811k7akrMZJkCcEF'',
         (WSOL_MINT, ''7vfCXTUXx5WJV5JADk17DUJ4ksgau7utNKj4b963voxs'')),
      (''HxA6SKW5qA4o12fjVgTpXdq2YnZ5Zv1s7SB4FFomsyLM'',
         (''cbbtcf3aa214zXHbiAZQwf4122FBYbraNdFqgw4iMij'', USDC_MINT)),
      (''4v8ufj8Hj7UvFgtofQJAtzUud5xomwZfEqfCTHZ4wM72'',
         (''cbbtcf3aa214zXHbiAZQwf4122FBYbraNdFqgw4iMij'', ''3NZ9JMVBmGAqocybic2c7LQCJScmgsAZ6vQqTDzcqmJh'')),
      (''3nMFwZXwY1s1M5s8vYAHqd4wGs4iSxXE4LRoUMMYqEgF'',
         (WSOL_MINT, ''Es9vMFrzaCERmJfrF4H2FYD4KCoNkY11McCe8BenwNYB'')),
      (''HTvjzsfX3yU6BUodCjZ5vZkUrAxMDTrBs3CJaq43ashR'', (WSOL_MINT, USDC_MINT)),
      (''5rCf1DM8LjKTw4YqhnoLcngyZYeNnQqztScTogYHAS6'', (WSOL_MINT, USDC_MINT)),
      (''BGm1tav58oGcsQJehL9WXBFXF7D27vZsKefj4xJKD5Y'', (WSOL_MINT, USDC_MINT))] (trim pool_address)"

text \<open>Lookup in \<^verbatim>\<open>details\<close>, an optional object.\<close>

definition details_get :: "(string \<times> json) list option \<Rightarrow> string \<Rightarrow> json option" where
  "details_get details k = Option.bind details (\<lambda>d. map_of d k)"

definition pool_address_from_row :: "json \<Rightarrow> (string \<times> json) list option \<Rightarrow> string option" where
  "pool_address_from_row v details =
     or_else (non_empty_str (json_get ''pool_address'' v)) (non_empty_str (details_get details ''pool''))"

definition pool_mints_from_lifecycle_row ::
    "json \<Rightarrow> (string \<times> json) list option \<Rightarrow> string option \<times> string option \<times> pool_mint_resolve_source" where
  "pool_mints_from_lifecycle_row v details =
     (let mint_a = non_empty_str (details_get details ''token_mint_a'');
          mint_b = non_empty_str (details_get details ''token_mint_b'') in
      if mint_a \<noteq> None \<and> mint_b \<noteq> None then (mint_a, mint_b, Details)
      else case Option.bind (pool_address_from_row v details) known_pool_leg_mints of
             Some (ma, mb) \<Rightarrow> (or_else mint_a (Some ma), or_else mint_b (Some mb), PoolAddress)
           | None \<Rightarrow> (mint_a, mint_b, Unresolved))"

section \<open>Postings of a row\<close>

type_synonym postings = "(string \<times> int) list"

definition push_raw_delta :: "postings \<Rightarrow> string \<Rightarrow> int \<Rightarrow> postings" where
  "push_raw_delta out mint delta =
     (if trim mint = [] \<or> delta = 0 then out else out @ [(trim mint, delta)])"

definition push_positive_u64 :: "postings \<Rightarrow> string \<Rightarrow> u64 \<Rightarrow> postings" where
  "push_positive_u64 out mint amount =
     (if 0 < amount then push_raw_delta out mint (int (unat amount)) else out)"

definition is_lifecycle_close_event :: "string \<Rightarrow> bool" where
  "is_lifecycle_close_event ev \<longleftrightarrow> ev \<in> {''bot_close_position'', ''position_close''}"

definition is_lifecycle_open_event :: "string \<Rightarrow> bool" where
  "is_lifecycle_open_event ev \<longleftrightarrow>
     ev \<in> {''bot_open_position'', ''bot_open_position_full_range'', ''position_open''}"

definition is_lifecycle_collect_event :: "string \<Rightarrow> bool" where
  "is_lifecycle_collect_event ev \<longleftrightarrow> ev = ''bot_collect_fees''"

definition is_lifecycle_swap_event :: "string \<Rightarrow> bool" where
  "is_lifecycle_swap_event ev \<longleftrightarrow>
     ev \<in> {''cli_swap'', ''bot_swap_exact_in'', ''bot_swap'', ''bot_orca_tx''}"

lemmas lifecycle_event_defs = is_lifecycle_close_event_def is_lifecycle_open_event_def
  is_lifecycle_collect_event_def is_lifecycle_swap_event_def

text \<open>The loops over \<^verbatim>\<open>fee_payer_token_deltas\<close>; \<open>keep\<close> is the negation of the test that skips an entry.\<close>

fun token_delta_postings ::
    "'d decimal_json \<Rightarrow> ('d \<Rightarrow> bool) \<Rightarrow> postings \<Rightarrow> (string \<times> json) list \<Rightarrow> postings option" where
  "token_delta_postings ops keep out [] = Some out"
| "token_delta_postings ops keep out ((mint, dv) # obj) =
     (case dec_from_json ops dv of
        None \<Rightarrow> token_delta_postings ops keep out obj
      | Some ui \<Rightarrow>
          if \<not> keep ui then token_delta_postings ops keep out obj
          else do {
            raw \<leftarrow> ui_decimal_to_raw_i128 ops ui (default_mint_decimals mint);
            token_delta_postings ops keep
              (case raw of None \<Rightarrow> out | Some r \<Rightarrow> push_raw_delta out mint r) obj
          })"

text \<open>The liquidity-provider amounts of one leg: the stored column, the row, then its details.\<close>

definition lp_collected ::
    "string \<Rightarrow> int option \<Rightarrow> json \<Rightarrow> (string \<times> json) list option \<Rightarrow> int option" where
  "lp_collected key column v details =
     or_else column
       (or_else (map_option sint (Option.bind (json_get key v) parse_u64_json))
         (map_option sint (Option.bind (details_get details key) parse_u64_json)))"

definition push_lp :: "postings \<Rightarrow> string \<Rightarrow> int option \<Rightarrow> postings" where
  "push_lp out mint lp = (case lp of Some a \<Rightarrow> if 0 < a then push_raw_delta out mint a else out | None \<Rightarrow> out)"

definition push_principal :: "postings \<Rightarrow> string \<Rightarrow> u64 option \<Rightarrow> postings" where
  "push_principal out mint a = (case a of Some x \<Rightarrow> push_positive_u64 out mint x | None \<Rightarrow> out)"

definition push_debit :: "postings \<Rightarrow> string \<Rightarrow> u64 option \<Rightarrow> postings" where
  "push_debit out mint a =
     (case a of Some x \<Rightarrow> if 0 < x then push_raw_delta out mint (- int (unat x)) else out | None \<Rightarrow> out)"

text \<open>What each kind of event posts, given the resolved mints of the two legs. In the first
  branch the fallback on token deltas is excluded by \<open>principal_events\<close>, as in the source.\<close>

definition event_postings ::
    "'d decimal_json \<Rightarrow> string \<Rightarrow> (string \<times> string) option \<Rightarrow> (string \<times> json) list option
      \<Rightarrow> int option \<Rightarrow> int option \<Rightarrow> (string \<times> json) list option \<Rightarrow> postings option option" where
  "event_postings ops event legs details lp_a lp_b token_deltas =
     (let amount = (\<lambda>k. Option.bind (details_get details k) parse_u64_json);
          principal_events = (is_lifecycle_close_event event \<or> is_lifecycle_open_event event
                               \<or> is_lifecycle_collect_event event);
          positive = (\<lambda>ui. dec_gt ops ui (dec_zero ops));
          nonzero = (\<lambda>ui. \<not> dec_is_zero ops ui);
          fallback = (\<lambda>keep out. case token_deltas of
                        None \<Rightarrow> Some out
                      | Some obj \<Rightarrow> token_delta_postings ops keep out obj) in
      if is_lifecycle_close_event event then
        (let out = (case legs of
                      Some (ma, mb) \<Rightarrow>
                        push_lp (push_lp
                          (push_principal (push_principal [] ma (amount ''close_amount_a_raw''))
                             mb (amount ''close_amount_b_raw'')) ma lp_a) mb lp_b
                    | None \<Rightarrow> []) in
         map_option Some (if out = [] \<and> \<not> principal_events then fallback positive out else Some out))
      else if is_lifecycle_collect_event event then
        (let out = (case legs of
                      Some (ma, mb) \<Rightarrow> push_lp (push_lp [] ma lp_a) mb lp_b
                    | None \<Rightarrow> []) in
         map_option Some (if out = [] then fallback positive out else Some out))
      else if is_lifecycle_open_event event then
        (let out = (case legs of
                      Some (ma, mb) \<Rightarrow>
                        push_debit (push_debit [] ma (amount ''open_amount_a_raw''))
                          mb (amount ''open_amount_b_raw'')
                    | None \<Rightarrow> []) in
         map_option Some (if out = [] then fallback nonzero out else Some out))
      else if is_lifecycle_swap_event event then map_option Some (fallback nonzero [])
      else Some None)"

type_synonym lifecycle_deltas = "string \<times> string \<times> string \<times> postings"

definition session_mint_deltas_from_lifecycle_json ::
    "'d decimal_json \<Rightarrow> json \<Rightarrow> int option \<Rightarrow> int option \<Rightarrow> lifecycle_deltas option option" where
  "session_mint_deltas_from_lifecycle_json ops v lp_collected_a_raw lp_collected_b_raw =
     (case (non_empty_str (json_get ''rebalance_session_id'' v), non_empty_str (json_get ''event'' v),
            non_empty_str (json_get ''signature'' v)) of
        (Some session_id, Some event, Some signature) \<Rightarrow>
          (let details = Option.bind (json_get ''details'' v) as_object;
               token_deltas = Option.bind (json_get ''fee_payer_token_deltas'' v) as_object;
               (mint_a, mint_b, _) = pool_mints_from_lifecycle_row v details;
               legs = (case (mint_a, mint_b) of (Some ma, Some mb) \<Rightarrow> Some (ma, mb) | _ \<Rightarrow> None);
               lp_a = lp_collected ''lp_collected_token_a_raw'' lp_collected_a_raw v details;
               lp_b = lp_collected ''lp_collected_token_b_raw'' lp_collected_b_raw v details in
           do {
             out \<leftarrow> event_postings ops event legs details lp_a lp_b token_deltas;
             Some (case out of
                     None \<Rightarrow> None
                   | Some ps \<Rightarrow> if ps = [] then None else Some (session_id, signature, event, ps))
           })
      | _ \<Rightarrow> Some None)"

section \<open>Capping and summing\<close>

definition cap_open_debits_against_running_balance ::
    "string \<Rightarrow> int btree \<Rightarrow> postings \<Rightarrow> postings" where
  "cap_open_debits_against_running_balance event running postings =
     (if \<not> is_lifecycle_open_event event then postings
      else map (\<lambda>(mint, delta).
             if 0 \<le> delta then (mint, delta)
             else (let available = max (bt_get_or 0 running mint) 0;
                       want = saturating_neg_i128 delta;
                       actual = min want available in
                   (mint, - actual))) postings)"

definition add_posting :: "string \<times> int \<Rightarrow> int btree \<Rightarrow> int btree" where
  "add_posting p totals =
     (let (mint, delta) = p in
      if delta = 0 then totals
      else bt_insert mint (saturating_add_i128 (bt_get_or 0 totals mint) delta) totals)"

definition apply_capped_postings_to_sums :: "int btree \<Rightarrow> string \<Rightarrow> postings \<Rightarrow> int btree" where
  "apply_capped_postings_to_sums totals event postings =
     fold add_posting (cap_open_debits_against_running_balance event totals postings) totals"

type_synonym lifecycle_row = "json \<times> int option \<times> int option"

fun aggregate_session_loop ::
    "'d decimal_json \<Rightarrow> string \<Rightarrow> int btree \<Rightarrow> lifecycle_row list \<Rightarrow> int btree option" where
  "aggregate_session_loop ops sid totals [] = Some totals"
| "aggregate_session_loop ops sid totals ((raw, lp_a, lp_b) # rows) = do {
     deltas \<leftarrow> session_mint_deltas_from_lifecycle_json ops raw lp_a lp_b;
     (case deltas of
        None \<Rightarrow> aggregate_session_loop ops sid totals rows
      | Some (row_sid, _, event, postings) \<Rightarrow>
          if trim row_sid \<noteq> sid then aggregate_session_loop ops sid totals rows
          else aggregate_session_loop ops sid (apply_capped_postings_to_sums totals event postings) rows)
   }"

definition aggregate_session_sums_from_lifecycle_rows ::
    "'d decimal_json \<Rightarrow> lifecycle_row list \<Rightarrow> string \<Rightarrow> int btree option" where
  "aggregate_session_sums_from_lifecycle_rows ops rows session_id =
     aggregate_session_loop ops (trim session_id) [] rows"

section \<open>Chains of sessions\<close>

definition chain_session_id_from_lifecycle_json :: "json \<Rightarrow> string option" where
  "chain_session_id_from_lifecycle_json v =
     or_else (non_empty_str (json_get ''chain_session_id'' v))
       (non_empty_str (Option.bind (json_get ''details'' v) (json_get ''chain_session_id'')))"

definition ensure_chain_session_id_on_lifecycle_row :: "json \<Rightarrow> string \<Rightarrow> json" where
  "ensure_chain_session_id_on_lifecycle_row raw chain_session_id =
     (if chain_session_id_from_lifecycle_json raw \<noteq> None then raw
      else let cid = trim chain_session_id in
        if cid = [] then raw else json_insert ''chain_session_id'' (JString cid) raw)"

definition chain_mint_deltas_from_lifecycle_json ::
    "'d decimal_json \<Rightarrow> json \<Rightarrow> int option \<Rightarrow> int option \<Rightarrow> lifecycle_deltas option option" where
  "chain_mint_deltas_from_lifecycle_json ops v lp_collected_a_raw lp_collected_b_raw =
     (case chain_session_id_from_lifecycle_json v of
        None \<Rightarrow> Some None
      | Some chain_id \<Rightarrow>
          session_mint_deltas_from_lifecycle_json ops
            (json_insert ''rebalance_session_id'' (JString chain_id) v) lp_collected_a_raw lp_collected_b_raw)"

fun aggregate_chain_loop ::
    "'d decimal_json \<Rightarrow> string \<Rightarrow> int btree \<Rightarrow> lifecycle_row list \<Rightarrow> int btree option" where
  "aggregate_chain_loop ops cid totals [] = Some totals"
| "aggregate_chain_loop ops cid totals ((raw0, lp_a, lp_b) # rows) =
     (let raw = ensure_chain_session_id_on_lifecycle_row raw0 cid;
          row_cid = (case chain_session_id_from_lifecycle_json raw of None \<Rightarrow> [] | Some c \<Rightarrow> c) in
      if trim row_cid \<noteq> cid then aggregate_chain_loop ops cid totals rows
      else do {
        deltas \<leftarrow> chain_mint_deltas_from_lifecycle_json ops raw lp_a lp_b;
        (case deltas of
           None \<Rightarrow> aggregate_chain_loop ops cid totals rows
         | Some (_, _, event, postings) \<Rightarrow>
             aggregate_chain_loop ops cid (apply_capped_postings_to_sums totals event postings) rows)
      })"

definition aggregate_chain_sums_from_lifecycle_rows ::
    "'d decimal_json \<Rightarrow> lifecycle_row list \<Rightarrow> string \<Rightarrow> int btree option" where
  "aggregate_chain_sums_from_lifecycle_rows ops rows chain_session_id =
     aggregate_chain_loop ops (trim chain_session_id) [] rows"

section \<open>The ledger file\<close>

text \<open>A ledger file is \<open>None\<close> when it cannot be opened, and otherwise its lines up to the first one that
  cannot be read. \<open>from_str\<close> is the JSON parser.\<close>

definition row_of_value :: "json \<Rightarrow> lifecycle_row" where
  "row_of_value v =
     (v, map_option sint (Option.bind (json_get ''lp_collected_token_a_raw'' v) parse_u64_json),
      map_option sint (Option.bind (json_get ''lp_collected_token_b_raw'' v) parse_u64_json))"

fun ledger_rows :: "(string \<Rightarrow> json option) \<Rightarrow> string list \<Rightarrow> lifecycle_row list" where
  "ledger_rows from_str [] = []"
| "ledger_rows from_str (line # ls) =
     (if trim line = [] then ledger_rows from_str ls
      else case from_str (trim line) of
             None \<Rightarrow> ledger_rows from_str ls
           | Some v \<Rightarrow> row_of_value v # ledger_rows from_str ls)"

fun find_signature :: "(string \<Rightarrow> json option) \<Rightarrow> string \<Rightarrow> string list \<Rightarrow> lifecycle_row option" where
  "find_signature from_str sig [] = None"
| "find_signature from_str sig (line # ls) =
     (case from_str (trim line) of
        None \<Rightarrow> find_signature from_str sig ls
      | Some v \<Rightarrow>
          if trim (case Option.bind (json_get ''signature'' v) as_str_json of None \<Rightarrow> [] | Some s \<Rightarrow> s) \<noteq> sig
          then find_signature from_str sig ls else Some (row_of_value v))"

definition find_lifecycle_row_by_signature ::
    "(string \<Rightarrow> json option) \<Rightarrow> string list option \<Rightarrow> string \<Rightarrow> nat \<Rightarrow> lifecycle_row option" where
  "find_lifecycle_row_by_signature from_str file signature max_lines =
     (let sig = trim signature in
      if sig = [] then None
      else case file of
             None \<Rightarrow> None
           | Some all \<Rightarrow>
               (let ls = filter (\<lambda>l. trim l \<noteq> []) all;
                    start = length ls - max max_lines 1 in
                find_signature from_str sig (rev (drop start ls))))"

fun chain_funding_loop :: "(string \<Rightarrow> json option) \<Rightarrow> string \<Rightarrow> string list \<Rightarrow> bool" where
  "chain_funding_loop from_str cid [] = False"
| "chain_funding_loop from_str cid (line # ls) =
     (if trim line = [] then chain_funding_loop from_str cid ls
      else case from_str (trim line) of
             None \<Rightarrow> chain_funding_loop from_str cid ls
           | Some v \<Rightarrow>
               if chain_session_id_from_lifecycle_json v \<noteq> Some cid then chain_funding_loop from_str cid ls
               else (case Option.bind (json_get ''event'' v) as_str_json of None \<Rightarrow> [] | Some e \<Rightarrow> e)
                     \<in> {''bot_close_position'', ''position_close'', ''bot_collect_fees'', ''swap_exact_in''}
                  \<or> chain_funding_loop from_str cid ls)"

definition chain_has_funding_lifecycle_rows ::
    "(string \<Rightarrow> json option) \<Rightarrow> string list option \<Rightarrow> string \<Rightarrow> bool" where
  "chain_has_funding_lifecycle_rows from_str file chain_session_id =
     (let cid = trim chain_session_id in
      if cid = [] then False
      else case file of None \<Rightarrow> False | Some ls \<Rightarrow> chain_funding_loop from_str cid ls)"

definition default_lifecycle_ledger_path :: "(string \<rightharpoonup> string) \<Rightarrow> string" where
  "default_lifecycle_ledger_path env =
     (case or_else (env ''CLMM_POSITION_LIFECYCLE_LEDGER_PATH'') (env ''CLMM_POSITION_OPEN_LEDGER_PATH'') of
        Some p \<Rightarrow> p
      | None \<Rightarrow> ''data/ledger/orca_position_lifecycle.jsonl'')"

section \<open>Well-formed postings\<close>

definition wf_posting :: "string \<times> int \<Rightarrow> bool" where
  "wf_posting p \<longleftrightarrow> (case p of (mint, delta) \<Rightarrow>
     mint \<noteq> [] \<and> trim mint = mint \<and> delta \<noteq> 0 \<and> is_i128 delta)"

text \<open>The documented range of \<^verbatim>\<open>Decimal::to_i128\<close>.\<close>

definition to_i128_law :: "'d decimal_json \<Rightarrow> bool" where
  "to_i128_law ops \<longleftrightarrow> (\<forall>d i. dec_to_i128 ops d = Some i \<longrightarrow> is_i128 i)"

named_theorems wf_postings \<open>the push operations keep postings well formed\<close>

lemma i128_uint: "is_i128 (uint (a :: u64))" "is_i128 (- uint (a :: u64))"
proof -
  define x where "x = uint a"
  have "0 \<le> x" "x < 2 ^ 64" using uint_bounded [of a] unfolding x_def by simp_all
  then have "is_i128 x" "is_i128 (- x)" by (simp_all add: i128_defs)
  then show "is_i128 (uint a)" "is_i128 (- uint a)" unfolding x_def .
qed

lemma i128_sint: "is_i128 (sint (a :: u64))"
  using sint_ge [of a] sint_lt [of a] by (auto simp: i128_defs)

lemma wf_push_raw [wf_postings]:
  "list_all wf_posting out \<Longrightarrow> is_i128 d \<Longrightarrow> list_all wf_posting (push_raw_delta out m d)"
  by (auto simp: push_raw_delta_def wf_posting_def)

lemma wf_push_principal [wf_postings]:
  "list_all wf_posting out \<Longrightarrow> list_all wf_posting (push_principal out m a)"
  by (auto simp: push_principal_def push_positive_u64_def i128_uint intro!: wf_push_raw split: option.split)

lemma wf_push_debit [wf_postings]:
  "list_all wf_posting out \<Longrightarrow> list_all wf_posting (push_debit out m a)"
  by (auto simp: push_debit_def i128_uint intro!: wf_push_raw split: option.split)

lemma wf_push_lp [wf_postings]:
  "list_all wf_posting out \<Longrightarrow> pred_option is_i128 lp \<Longrightarrow> list_all wf_posting (push_lp out m lp)"
  by (auto simp: push_lp_def intro!: wf_push_raw split: option.split)

lemma wf_ui_raw: "to_i128_law ops \<Longrightarrow> ui_decimal_to_raw_i128 ops ui n = Some (Some r) \<Longrightarrow> is_i128 r"
  by (auto simp: ui_decimal_to_raw_i128_def to_i128_law_def bind_eq_Some_conv i128_defs split: if_splits)

lemma wf_token_deltas [wf_postings]:
  "to_i128_law ops \<Longrightarrow> token_delta_postings ops keep out obj = Some ps \<Longrightarrow> list_all wf_posting out
    \<Longrightarrow> list_all wf_posting ps"
proof (induction obj arbitrary: out)
  case (Cons x obj)
  obtain mint dv where x: "x = (mint, dv)" by fastforce
  from Cons show ?case unfolding x
    by (cases "dec_from_json ops dv")
      (force simp: bind_eq_Some_conv intro: wf_push_raw wf_ui_raw split: option.splits if_splits)+
qed simp

lemma event_postings_wf:
  assumes law: "to_i128_law ops"
    and lp: "pred_option is_i128 lp_a" "pred_option is_i128 lp_b"
    and ps: "event_postings ops ev legs details lp_a lp_b td = Some (Some ps)"
  shows "list_all wf_posting ps"
proof -
  have fb: "list_all wf_posting ps" if "token_delta_postings ops keep [] obj = Some ps" for keep obj
    using wf_token_deltas [OF law that] by simp
  note split = option.splits prod.splits if_splits
  consider (close) "is_lifecycle_close_event ev"
    | (collect) "\<not> is_lifecycle_close_event ev" "is_lifecycle_collect_event ev"
    | (open_ev) "\<not> is_lifecycle_close_event ev" "\<not> is_lifecycle_collect_event ev" "is_lifecycle_open_event ev"
    | (other) "\<not> is_lifecycle_close_event ev" "\<not> is_lifecycle_collect_event ev" "\<not> is_lifecycle_open_event ev"
    by blast
  then show ?thesis
  proof cases
    case close
    with ps show ?thesis
      by (auto simp: event_postings_def Let_def intro!: wf_push_lp wf_push_principal lp split: split)
  next
    case collect
    with ps show ?thesis
      by (auto simp: event_postings_def Let_def intro!: wf_push_lp lp dest: fb split: split)
  next
    case open_ev
    with ps show ?thesis
      by (auto simp: event_postings_def Let_def intro!: wf_push_debit dest: fb split: split)
  next
    case other
    with ps show ?thesis by (auto simp: event_postings_def Let_def dest: fb split: split)
  qed
qed

lemma lp_collected_i128:
  "pred_option is_i128 column \<Longrightarrow> pred_option is_i128 (lp_collected key column v details)"
  by (auto simp: lp_collected_def or_else_def pred_option_def i128_sint split: option.split)

lemma event_postings_kind:
  "event_postings ops ev legs details lp_a lp_b td = Some (Some ps) \<Longrightarrow>
     is_lifecycle_close_event ev \<or> is_lifecycle_open_event ev \<or> is_lifecycle_collect_event ev \<or> is_lifecycle_swap_event ev"
  by (auto simp: event_postings_def Let_def split: if_splits)

lemma push_principal_pos: "list_all (\<lambda>p. 0 < snd p) out \<Longrightarrow> list_all (\<lambda>p. 0 < snd p) (push_principal out m a)"
  by (auto simp: push_principal_def push_positive_u64_def push_raw_delta_def word_gt_0 unat_gt_0 uint_0_iff
      order_less_le split: option.split)

lemma push_lp_pos: "list_all (\<lambda>p. 0 < snd p) out \<Longrightarrow> list_all (\<lambda>p. 0 < snd p) (push_lp out m a)"
  by (auto simp: push_lp_def push_raw_delta_def split: option.split)

lemma close_postings_pos:
  "is_lifecycle_close_event ev \<Longrightarrow> event_postings ops ev legs details lp_a lp_b td = Some (Some ps)
    \<Longrightarrow> list_all (\<lambda>p. 0 < snd p) ps"
  by (auto simp: event_postings_def Let_def intro!: push_lp_pos push_principal_pos split: option.splits)

lemma session_deltas_elim:
  assumes "session_mint_deltas_from_lifecycle_json ops v a b = Some (Some (sid, sig, ev, ps))"
  obtains legs details td where
    "non_empty_str (json_get ''rebalance_session_id'' v) = Some sid"
    "non_empty_str (json_get ''event'' v) = Some ev"
    "non_empty_str (json_get ''signature'' v) = Some sig"
    "details = Option.bind (json_get ''details'' v) as_object"
    "event_postings ops ev legs details (lp_collected ''lp_collected_token_a_raw'' a v details)
       (lp_collected ''lp_collected_token_b_raw'' b v details) td = Some (Some ps)"
    "ps \<noteq> []"
  using assms unfolding session_mint_deltas_from_lifecycle_json_def Let_def
  by (auto simp: bind_eq_Some_conv split: option.splits prod.splits if_splits)

text \<open>C25. Whatever a lifecycle row contains, the postings derived from it are well typed: session,
  signature and event are trimmed and not empty, the event is of one of the four accounted kinds,
  and there is at least one posting, each for a trimmed mint with a nonzero amount of 128 bits. A
  row that closes a position only credits.\<close>

theorem session_deltas_typed:
  assumes "to_i128_law ops"
    and "pred_option is_i128 a" "pred_option is_i128 b"
    and "session_mint_deltas_from_lifecycle_json ops v a b = Some (Some (sid, sig, ev, ps))"
  shows "list_all (\<lambda>s. s \<noteq> [] \<and> trim s = s) [sid, sig, ev] \<and> ps \<noteq> [] \<and> list_all wf_posting ps
    \<and> (is_lifecycle_close_event ev \<or> is_lifecycle_open_event ev \<or> is_lifecycle_collect_event ev
        \<or> is_lifecycle_swap_event ev)
    \<and> (is_lifecycle_close_event ev \<longrightarrow> list_all (\<lambda>p. 0 < snd p) ps)"
proof -
  obtain legs details td where
    str: "non_empty_str (json_get ''rebalance_session_id'' v) = Some sid"
      "non_empty_str (json_get ''event'' v) = Some ev" "non_empty_str (json_get ''signature'' v) = Some sig"
    and ev: "event_postings ops ev legs details (lp_collected ''lp_collected_token_a_raw'' a v details)
       (lp_collected ''lp_collected_token_b_raw'' b v details) td = Some (Some ps)" and "ps \<noteq> []"
    using assms(4) by (rule session_deltas_elim)
  moreover have "list_all wf_posting ps"
    using event_postings_wf [OF assms(1) _ _ ev] lp_collected_i128 assms(2,3) by blast
  ultimately show ?thesis
    using event_postings_kind [OF ev] close_postings_pos [OF _ ev] str [THEN non_empty_str_trimmed] by simp
qed

text \<open>A concrete decimal type: rationals, without literals in text form.\<close>

definition rat_json :: "rat decimal_json" where
  "rat_json = \<lparr>dec_new = (\<lambda>n s. of_int n / 10 ^ s), dec_abs = abs, dec_gt = (\<lambda>a b. b < a),
     dec_add = (\<lambda>a b. Some (a + b)), dec_sub = (\<lambda>a b. Some (a - b)), dec_mul = (\<lambda>a b. Some (a * b)),
     dec_div = (\<lambda>a b. if b = 0 then None else Some (a / b)),
     dec_from_f64 = (\<lambda>x. case x of F64_Fin z r \<Rightarrow> Some (signed_val z r) | _ \<Rightarrow> None),
     dec_to_f64 = (\<lambda>r. Some (f64_of_rat False r)),
     dec_from_str = (\<lambda>s. map_option of_int (parse_signed i128_min i128_max s)),
     dec_from_f64_retain = (\<lambda>x. case x of F64_Fin z r \<Rightarrow> Some (signed_val z r) | _ \<Rightarrow> None),
     dec_from_int = of_int, dec_trunc = (\<lambda>r. of_int (if 0 \<le> r then \<lfloor>r\<rfloor> else \<lceil>r\<rceil>)),
     dec_to_i128 = (\<lambda>r. if is_i128 \<lfloor>r\<rfloor> then Some \<lfloor>r\<rfloor> else None)\<rparr>"

lemma rat_json_i128 [simp]: "to_i128_law rat_json"
  by (simp add: to_i128_law_def rat_json_def)

definition close_row :: "string \<Rightarrow> string \<Rightarrow> nat \<Rightarrow> string \<Rightarrow> json" where
  "close_row sid sig a b = JObject
     [(''details'', JObject
         [(''close_amount_a_raw'', JNumber (PosInt (word_of_nat a))),
          (''close_amount_b_raw'', JString b),
          (''token_mint_a'', JString ''A''), (''token_mint_b'', JString ''B'')]),
      (''event'', JString ''bot_close_position''), (''lp_collected_token_a_raw'', JNumber (PosInt 7)),
      (''rebalance_session_id'', JString sid), (''signature'', JString sig)]"

definition open_row :: "string \<Rightarrow> string \<Rightarrow> nat \<Rightarrow> nat \<Rightarrow> json" where
  "open_row sid sig a b = JObject
     [(''details'', JObject
         [(''open_amount_a_raw'', JNumber (PosInt (word_of_nat a))),
          (''open_amount_b_raw'', JNumber (PosInt (word_of_nat b))),
          (''token_mint_a'', JString ''A''), (''token_mint_b'', JString ''B'')]),
      (''event'', JString ''position_open''),
      (''rebalance_session_id'', JString sid), (''signature'', JString sig)]"

lemmas row_simps = session_mint_deltas_from_lifecycle_json_def event_postings_def details_get_def
  pool_mints_from_lifecycle_row_def non_empty_str_def trim_def is_space_def lifecycle_event_defs
  push_principal_def push_positive_u64_def push_lp_def push_raw_delta_def push_debit_def lp_collected_def
  parse_u64_json_def parse_unsigned_def word_gt_0 close_row_def open_row_def

theorem session_deltas_typed_witness:
  "session_mint_deltas_from_lifecycle_json rat_json (close_row '' s1'' ''x'' 100 ''5'') None None =
     Some (Some (''s1'', ''x'', ''bot_close_position'', [(''A'', 100), (''B'', 5), (''A'', 7)]))
   \<and> list_all wf_posting [(''A'', 100), (''B'', 5), (''A'', 7)]"
proof -
  have row: "session_mint_deltas_from_lifecycle_json rat_json (close_row '' s1'' ''x'' 100 ''5'') None None =
     Some (Some (''s1'', ''x'', ''bot_close_position'', [(''A'', 100), (''B'', 5), (''A'', 7)]))"
    by (simp add: row_simps parse_nat_def digit_value_def)
  with session_deltas_typed [OF rat_json_i128 _ _ row] show ?thesis by simp
qed

section \<open>Running balances\<close>

definition wf_sums :: "int btree \<Rightarrow> bool" where
  "wf_sums t \<longleftrightarrow> bt_wf t \<and> (\<forall>m. is_i128 (bt_get_or 0 t m))"

lemma saturating_add_0 [simp]: "is_i128 x \<Longrightarrow> saturating_add_i128 x 0 = x"
  by (simp add: i128_defs)

lemma is_i128_0 [simp]: "is_i128 0"
  by (simp add: i128_defs)

lemma wf_sums_Nil [simp]: "wf_sums []"
  by (simp add: wf_sums_def)

lemma add_posting_get:
  "bt_get_or 0 (add_posting (m, d) t) k =
     (if k = m \<and> d \<noteq> 0 then saturating_add_i128 (bt_get_or 0 t m) d else bt_get_or 0 t k)"
  by (simp add: add_posting_def)

lemma wf_sums_add [simp]: "wf_sums t \<Longrightarrow> wf_sums (add_posting p t)"
proof (cases p)
  case (Pair m d)
  assume "wf_sums t"
  moreover from this have "bt_wf (add_posting p t)" by (simp add: wf_sums_def add_posting_def Pair)
  ultimately show ?thesis by (simp add: wf_sums_def add_posting_get Pair)
qed

lemma saturating_add_nonneg: "0 \<le> a \<Longrightarrow> 0 \<le> b \<Longrightarrow> 0 \<le> saturating_add_i128 a b"
  by (simp add: i128_defs min_def max_def)

lemma wf_sums_fold [simp]: "wf_sums t \<Longrightarrow> wf_sums (fold add_posting ps t)"
  by (induction ps arbitrary: t) simp_all

lemma wf_sums_apply [simp]: "wf_sums t \<Longrightarrow> wf_sums (apply_capped_postings_to_sums t ev ps)"
  by (simp add: apply_capped_postings_to_sums_def)

lemma fold_add_posting_other: "m \<notin> fst ` set ps \<Longrightarrow> bt_get_or 0 (fold add_posting ps t) m = bt_get_or 0 t m"
  by (induction ps arbitrary: t) (auto simp: add_posting_get)

lemma fold_add_posting_get:
  assumes "wf_sums t" "distinct (map fst ps)"
  shows "bt_get_or 0 (fold add_posting ps t) m =
     (case map_of ps m of None \<Rightarrow> bt_get_or 0 t m | Some d \<Rightarrow> saturating_add_i128 (bt_get_or 0 t m) d)"
  using assms
proof (induction ps arbitrary: t)
  case (Cons p ps)
  obtain k d where p: "p = (k, d)" by fastforce
  show ?case
  proof (cases "m = k")
    case True
    with Cons.prems p have "m \<notin> fst ` set ps" by simp
    with True p Cons.prems(1) show ?thesis
      by (auto simp: fold_add_posting_other add_posting_get wf_sums_def)
  next
    case False
    with p Cons.IH [of "add_posting p t"] Cons.prems show ?thesis
      by (auto simp: add_posting_get split: option.split)
  qed
qed simp

lemma map_of_cap:
  "is_lifecycle_open_event ev \<Longrightarrow> map_of (cap_open_debits_against_running_balance ev t ps) m =
     map_option (\<lambda>d. if 0 \<le> d then d else - min (saturating_neg_i128 d) (max (bt_get_or 0 t m) 0)) (map_of ps m)"
  by (induction ps) (auto simp: cap_open_debits_against_running_balance_def Let_def)

lemma keys_cap [simp]:
  "map fst (cap_open_debits_against_running_balance ev t ps) = map fst ps"
  by (auto simp: cap_open_debits_against_running_balance_def Let_def)

text \<open>An open row takes from each balance what it debits, but never more than is there.\<close>

lemma open_debit_exact:
  assumes "is_lifecycle_open_event ev" "wf_sums t" "distinct (map fst ps)"
  shows "bt_get_or 0 (apply_capped_postings_to_sums t ev ps) m =
     (let old = bt_get_or 0 t m in
      case map_of ps m of
        None \<Rightarrow> old
      | Some d \<Rightarrow> if 0 \<le> d then saturating_add_i128 old d
                  else if old \<le> 0 then old else max 0 (old + max d (- i128_max)))"
proof -
  have "is_i128 (bt_get_or 0 t m)" using assms(2) by (simp add: wf_sums_def)
  then show ?thesis
    using fold_add_posting_get [OF assms(2), of "cap_open_debits_against_running_balance ev t ps" m]
      assms(3) map_of_cap [OF assms(1)]
    by (auto simp: apply_capped_postings_to_sums_def Let_def i128_defs split: option.split)
qed

lemma nonneg_open:
  assumes "is_lifecycle_open_event ev" "wf_sums t" "distinct (map fst ps)" "\<forall>k. 0 \<le> bt_get_or 0 t k"
  shows "0 \<le> bt_get_or 0 (apply_capped_postings_to_sums t ev ps) m"
  using assms(4) unfolding open_debit_exact [OF assms(1-3)]
  by (auto simp: Let_def saturating_add_nonneg split: option.split)

lemma nonneg_credit:
  "list_all (\<lambda>p. 0 \<le> snd p) ps \<Longrightarrow> \<forall>k. 0 \<le> bt_get_or 0 t k \<Longrightarrow> 0 \<le> bt_get_or 0 (fold add_posting ps t) m"
proof (induction ps arbitrary: t)
  case (Cons p ps)
  have "0 \<le> bt_get_or 0 (add_posting p t) k" for k
    using Cons.prems by (cases p) (auto simp: add_posting_get saturating_add_nonneg)
  with Cons show ?case by simp
qed simp

text \<open>The documented sign of decimal arithmetic: scaling a positive decimal by a power of ten and
  cutting its fraction does not make it negative.\<close>

definition scale_sign_law :: "'d decimal_json \<Rightarrow> bool" where
  "scale_sign_law ops \<longleftrightarrow> (\<forall>d n s i. dec_gt ops d (dec_zero ops) \<longrightarrow>
     dec_mul ops d (dec_from_int ops (10 ^ n)) = Some s \<longrightarrow> dec_to_i128 ops (dec_trunc ops s) = Some i \<longrightarrow> 0 \<le> i)"

lemma token_deltas_nonneg:
  assumes "scale_sign_law ops"
  shows "token_delta_postings ops (\<lambda>ui. dec_gt ops ui (dec_zero ops)) out obj = Some ps
    \<Longrightarrow> list_all (\<lambda>p. 0 \<le> snd p) out \<Longrightarrow> list_all (\<lambda>p. 0 \<le> snd p) ps"
proof (induction obj arbitrary: out)
  case (Cons x obj)
  obtain mint dv where x: "x = (mint, dv)" by fastforce
  have raw: "0 \<le> r" if "ui_decimal_to_raw_i128 ops ui n = Some (Some r)" "dec_gt ops ui (dec_zero ops)" for ui n r
    using assms that unfolding scale_sign_law_def
    by (auto simp: ui_decimal_to_raw_i128_def bind_eq_Some_conv split: if_splits)
  have push: "list_all (\<lambda>p. 0 \<le> snd p) (push_raw_delta out mint r)" if "0 \<le> r" for r
    using that Cons.prems(2) by (auto simp: push_raw_delta_def)
  from Cons show ?case unfolding x
    by (cases "dec_from_json ops dv")
      (force simp: bind_eq_Some_conv intro: push raw split: option.splits if_splits)+
qed simp

lemma collect_postings_nonneg:
  assumes "scale_sign_law ops" "is_lifecycle_collect_event ev"
    and ps: "event_postings ops ev legs details lp_a lp_b td = Some (Some ps)"
  shows "list_all (\<lambda>p. 0 \<le> snd p) ps"
proof -
  have pos: "list_all (\<lambda>p. 0 \<le> snd p) (push_lp (push_lp [] x lp_a) y lp_b)" for x y
    using push_lp_pos [OF push_lp_pos, of "[]" x lp_a y lp_b] by (auto elim!: list.pred_mono_strong)
  have "\<not> is_lifecycle_close_event ev" using assms(2) by (auto simp: lifecycle_event_defs)
  with assms(2) ps pos show ?thesis
    by (auto simp: event_postings_def Let_def dest: token_deltas_nonneg [OF assms(1)]
        split: option.splits prod.splits if_splits)
qed

text \<open>The rows for which the cap is meant: no swaps, and no open row that debits a mint twice.\<close>

definition deposit_row :: "'d decimal_json \<Rightarrow> lifecycle_row \<Rightarrow> bool" where
  "deposit_row ops row = (case row of (v, a, b) \<Rightarrow>
     case session_mint_deltas_from_lifecycle_json ops v a b of
       Some (Some (_, _, ev, ps)) \<Rightarrow>
         \<not> is_lifecycle_swap_event ev \<and> (is_lifecycle_open_event ev \<longrightarrow> distinct (map fst ps))
     | _ \<Rightarrow> True)"

lemma cap_not_open: "\<not> is_lifecycle_open_event ev \<Longrightarrow> cap_open_debits_against_running_balance ev t ps = ps"
  by (simp add: cap_open_debits_against_running_balance_def)

lemma nonneg_row:
  assumes "scale_sign_law ops" "wf_sums t" "\<forall>k. 0 \<le> bt_get_or 0 t k" "deposit_row ops (v, a, b)"
    and row: "session_mint_deltas_from_lifecycle_json ops v a b = Some (Some (sid, sig, ev, ps))"
  shows "0 \<le> bt_get_or 0 (apply_capped_postings_to_sums t ev ps) m"
proof -
  obtain legs details td where
    ev: "event_postings ops ev legs details (lp_collected ''lp_collected_token_a_raw'' a v details)
       (lp_collected ''lp_collected_token_b_raw'' b v details) td = Some (Some ps)"
    using row by (rule session_deltas_elim)
  show ?thesis
  proof (cases "is_lifecycle_open_event ev")
    case True
    with assms(2-4) row show ?thesis by (intro nonneg_open) (auto simp: deposit_row_def)
  next
    case False
    have "list_all (\<lambda>p. 0 \<le> snd p) ps"
      using event_postings_kind [OF ev] False assms(4) row
        close_postings_pos [OF _ ev] collect_postings_nonneg [OF assms(1) _ ev]
      by (auto simp: deposit_row_def elim!: list.pred_mono_strong)
    with assms(3) show ?thesis
      by (simp add: apply_capped_postings_to_sums_def cap_not_open [OF False] nonneg_credit)
  qed
qed

text \<open>C12. The logical wallet of a session is never overdrawn by opening positions: as long as its rows
  are closings, collections and openings (no swaps, no opening that debits a mint twice), the
  balances aggregated from them are never negative, whatever the amounts. The order of the mints in
  the result is that of an ordered map, and amounts stay within 128 bits.\<close>

theorem session_sums_never_negative:
  assumes "scale_sign_law ops" and "list_all (deposit_row ops) rows"
    and "aggregate_session_sums_from_lifecycle_rows ops rows sid = Some t"
  shows "wf_sums t \<and> (\<forall>mint. 0 \<le> bt_get_or 0 t mint)"
proof -
  have "wf_sums t \<and> (\<forall>mint. 0 \<le> bt_get_or 0 t mint)"
    if "aggregate_session_loop ops s t0 rows = Some t" "wf_sums t0" "\<forall>k. 0 \<le> bt_get_or 0 t0 k" for s t0
    using that assms(2)
  proof (induction rows arbitrary: t0)
    case (Cons row rows)
    obtain v a b where [simp]: "row = (v, a, b)" by (cases row)
    from Cons.prems(1) obtain deltas where
      d: "session_mint_deltas_from_lifecycle_json ops v a b = Some deltas"
      by (auto simp: bind_eq_Some_conv)
    show ?case
    proof (cases deltas)
      case None
      with Cons d show ?thesis by simp
    next
      case (Some x)
      obtain row_sid sig ev ps where [simp]: "x = (row_sid, sig, ev, ps)" by (cases x)
      have "\<forall>k. 0 \<le> bt_get_or 0 (apply_capped_postings_to_sums t0 ev ps) k"
        using nonneg_row [OF assms(1) Cons.prems(2,3)] Cons.prems(4) d Some by fastforce
      with Cons d Some show ?thesis by (auto split: if_splits)
    qed
  qed simp
  from this [of "trim sid" "[]"] assms(3) show ?thesis
    by (simp add: aggregate_session_sums_from_lifecycle_rows_def)
qed

lemma rat_json_sign [simp]: "scale_sign_law rat_json"
  by (auto simp: scale_sign_law_def rat_json_def dec_zero_def is_i128_def)

lemma close_row_deltas:
  "session_mint_deltas_from_lifecycle_json rat_json (close_row ''s'' ''x'' 100 ''5'') None None =
     Some (Some (''s'', ''x'', ''bot_close_position'', [(''A'', 100), (''B'', 5), (''A'', 7)]))"
  by (simp add: row_simps parse_nat_def digit_value_def)

lemma open_row_deltas:
  "session_mint_deltas_from_lifecycle_json rat_json (open_row ''s'' ''y'' 90 30) None None =
     Some (Some (''s'', ''y'', ''position_open'', [(''A'', - 90), (''B'', - 30)]))"
  by (simp add: row_simps)

lemma session_rows_example:
  "aggregate_session_sums_from_lifecycle_rows rat_json
     [(close_row ''s'' ''x'' 100 ''5'', None, None), (open_row ''s'' ''y'' 90 30, None, None)] ''s''
     = Some [(''A'', 17), (''B'', 0)]"
  by (simp add: aggregate_session_sums_from_lifecycle_rows_def close_row_deltas open_row_deltas
      apply_capped_postings_to_sums_def cap_open_debits_against_running_balance_def add_posting_def
      lifecycle_event_defs i128_defs trim_def is_space_def bt_get_or_def)

theorem session_sums_never_negative_witness:
  "wf_sums [(''A'', 17), (''B'', 0)] \<and> (\<forall>mint. (0::int) \<le> bt_get_or 0 [(''A'', 17), (''B'', 0)] mint)"
proof -
  have "list_all (deposit_row rat_json)
      [(close_row ''s'' ''x'' 100 ''5'', None, None), (open_row ''s'' ''y'' 90 30, None, None)]"
    by (simp add: deposit_row_def close_row_deltas open_row_deltas lifecycle_event_defs)
  from session_sums_never_negative [OF rat_json_sign this session_rows_example] show ?thesis .
qed

text \<open>The cap looks at the balance before the row, once per posting: a mint that is debited twice can
  be overdrawn.\<close>

lemma double_debit_overdraws:
  "bt_get_or 0 (apply_capped_postings_to_sums [(''A'', 10)] ''position_open'' [(''A'', - 10), (''A'', - 10)]) ''A'' = - 10"
  by (simp add: apply_capped_postings_to_sums_def cap_open_debits_against_running_balance_def add_posting_def
      lifecycle_event_defs i128_defs bt_get_or_def)

end
