(* ===== verification/Session_Ledger.thy ===== *)
theory Session_Ledger
  imports Session_Deltas Interfaces
begin

text \<open>
  The general ledger behind the logical wallets: the database part of
  \<^verbatim>\<open>data/src/wallet_session.rs\<close>. The state is the three tables \<^verbatim>\<open>wallet_gl_account\<close>,
  \<^verbatim>\<open>wallet_gl_balance\<close> and \<^verbatim>\<open>wallet_gl_posting\<close>.

  The database server decides the outcome of every request: it is carried out, it is rejected, or
  it is carried out but the client only sees an error. The outcomes of the requests to come are a
  list in the state; when it is used up every request is carried out. A request is one statement
  or one transaction. Columns that no modelled code reads (notes, time stamps) are left out; the
  identifier of a new account is the number of accounts before it.
\<close>

section \<open>Tables and requests\<close>

datatype db_outcome = Committed | Rejected | LostReply
datatype sqlx_error = SqlxError

record gl_account =
  acc_id :: nat
  account_type :: string
  account_code :: string
  acc_owner :: "string option"
  acc_session_id :: "string option"

record gl_balance =
  amount_raw :: string
  last_event_id :: string

record gl_posting =
  post_event_id :: string
  post_account :: nat
  post_mint :: string
  delta_raw :: string
  post_kind :: string

record gl_world =
  gl_accounts :: "gl_account list"
  gl_balances :: "((nat \<times> string) \<times> gl_balance) list"
  gl_postings :: "gl_posting list"
  outcomes :: "db_outcome list"

type_synonym 'a gl = "gl_world \<Rightarrow> (sqlx_error + 'a) \<times> gl_world"

definition next_outcome :: "gl_world \<Rightarrow> db_outcome \<times> gl_world" where
  "next_outcome w =
     (case outcomes w of [] \<Rightarrow> (Committed, w) | r # rs \<Rightarrow> (r, w\<lparr>outcomes := rs\<rparr>))"

definition db_write :: "(gl_world \<Rightarrow> 'a \<times> gl_world) \<Rightarrow> 'a gl" where
  "db_write f w =
     (case next_outcome w of
        (Committed, w1) \<Rightarrow> (let (x, w2) = f w1 in (Inr x, w2))
      | (Rejected, w1) \<Rightarrow> (Inl SqlxError, w1)
      | (LostReply, w1) \<Rightarrow> (Inl SqlxError, snd (f w1)))"

definition db_read :: "(gl_world \<Rightarrow> 'a) \<Rightarrow> 'a gl" where
  "db_read q w =
     (case next_outcome w of
        (Committed, w1) \<Rightarrow> (Inr (q w1), w1)
      | (_, w1) \<Rightarrow> (Inl SqlxError, w1))"

text \<open>The operator \<^verbatim>\<open>?\<close>, and a successful return.\<close>

definition and_then :: "'a gl \<Rightarrow> ('a \<Rightarrow> 'b gl) \<Rightarrow> 'b gl" where
  "and_then m k w = (case m w of (Inl e, w1) \<Rightarrow> (Inl e, w1) | (Inr x, w1) \<Rightarrow> k x w1)"

definition ret :: "'a \<Rightarrow> 'a gl" where
  "ret x w = (Inr x, w)"

section \<open>Accounts, balances and postings\<close>

text \<open>\<^verbatim>\<open>INSERT INTO wallet_gl_account ... ON CONFLICT (account_code) DO UPDATE ... RETURNING id\<close>; the
  update keeps the owner, or (\<open>coalesce\<close>) replaces it by a given one.\<close>

definition upsert_account ::
    "bool \<Rightarrow> string \<Rightarrow> string \<Rightarrow> string option \<Rightarrow> string option \<Rightarrow> gl_world \<Rightarrow> nat \<times> gl_world" where
  "upsert_account coalesce ty code owner session w =
     (case List.find (\<lambda>a. account_code a = code) (gl_accounts w) of
        Some a \<Rightarrow>
          (acc_id a,
           if coalesce then w\<lparr>gl_accounts := map (\<lambda>b. if account_code b = code
             then b\<lparr>acc_owner := or_else owner (acc_owner b)\<rparr> else b) (gl_accounts w)\<rparr>
           else w)
      | None \<Rightarrow>
          (length (gl_accounts w),
           w\<lparr>gl_accounts := gl_accounts w @
             [\<lparr>acc_id = length (gl_accounts w), account_type = ty, account_code = code,
               acc_owner = owner, acc_session_id = session\<rparr>]\<rparr>))"

definition ensure_session_account :: "string option \<Rightarrow> string \<Rightarrow> nat gl" where
  "ensure_session_account owner session_id =
     db_write (upsert_account False ''session'' (session_account_code session_id) owner (Some session_id))"

definition ensure_chain_account :: "string option \<Rightarrow> string \<Rightarrow> nat gl" where
  "ensure_chain_account owner chain_session_id =
     db_write (upsert_account False ''chain'' (chain_account_code chain_session_id) owner (Some chain_session_id))"

definition ensure_tx_fee_account :: "string option \<Rightarrow> nat gl" where
  "ensure_tx_fee_account owner = db_write (upsert_account True ''system'' TX_FEE_ACCOUNT_CODE owner None)"

definition ensure_wallet_account :: "string \<Rightarrow> nat gl" where
  "ensure_wallet_account owner =
     db_write (upsert_account True ''wallet'' (wallet_account_code (trim owner)) (Some (trim owner)) None)"

definition parse_or_zero :: "string \<Rightarrow> int" where
  "parse_or_zero s = (case parse_raw_i128 s of None \<Rightarrow> 0 | Some v \<Rightarrow> v)"

text \<open>The transaction of \<^verbatim>\<open>apply_balance_delta\<close>: read the balance for update, store the new one,
  record the posting.\<close>

definition balance_transaction ::
    "nat \<Rightarrow> string \<Rightarrow> int \<Rightarrow> string \<Rightarrow> string \<Rightarrow> gl_world \<Rightarrow> unit \<times> gl_world" where
  "balance_transaction account_id mint delta event_id kind w =
     (let new_raw = (case map_of (gl_balances w) (account_id, mint) of
                       Some r \<Rightarrow> saturating_add_i128 (parse_or_zero (amount_raw r)) delta
                     | None \<Rightarrow> delta) in
      ((), w\<lparr>gl_balances := AList.update (account_id, mint)
                \<lparr>amount_raw = format_raw_i128 new_raw, last_event_id = event_id\<rparr> (gl_balances w),
              gl_postings := gl_postings w @
                [\<lparr>post_event_id = event_id, post_account = account_id, post_mint = mint,
                  delta_raw = format_raw_i128 delta, post_kind = kind\<rparr>]\<rparr>))"

definition apply_balance_delta :: "nat \<Rightarrow> string \<Rightarrow> int \<Rightarrow> string \<Rightarrow> string \<Rightarrow> unit gl" where
  "apply_balance_delta account_id mint delta event_id kind =
     db_write (balance_transaction account_id mint delta event_id kind)"

definition collect_balance :: "(string \<Rightarrow> 'v) \<Rightarrow> nat \<Rightarrow> (nat \<times> string) \<times> gl_balance \<Rightarrow> 'v btree \<Rightarrow> 'v btree" where
  "collect_balance f account_id row t =
     (case row of ((a, m), b) \<Rightarrow> if a = account_id then bt_insert m (f (amount_raw b)) t else t)"

definition read_account_balance_map :: "nat \<Rightarrow> int btree gl" where
  "read_account_balance_map account_id =
     db_read (\<lambda>w. fold (collect_balance parse_or_zero account_id) (gl_balances w) [])"

definition session_lifecycle_posting_already_applied :: "string \<Rightarrow> bool gl" where
  "session_lifecycle_posting_already_applied event_id =
     db_read (\<lambda>w. list_ex (\<lambda>p. post_event_id p = event_id) (gl_postings w))"

text \<open>The loops over a batch. The source also updates its copy of the running balances, which is not
  read again.\<close>

fun post_batch :: "nat \<Rightarrow> string \<Rightarrow> string \<Rightarrow> postings \<Rightarrow> unit gl" where
  "post_batch account_id event_id kind [] = ret ()"
| "post_batch account_id event_id kind ((mint, delta) # batch) =
     (if delta = 0 then post_batch account_id event_id kind batch
      else and_then (apply_balance_delta account_id mint delta event_id kind)
             (\<lambda>_. post_batch account_id event_id kind batch))"

definition apply_session_mint_postings ::
    "string \<Rightarrow> string option \<Rightarrow> string \<Rightarrow> string \<Rightarrow> postings \<Rightarrow> unit gl" where
  "apply_session_mint_postings session_id owner event_id kind postings =
     (if postings = [] then ret ()
      else and_then (ensure_session_account owner session_id) (\<lambda>account_id.
           and_then (read_account_balance_map account_id) (\<lambda>running.
           post_batch account_id event_id kind
             (cap_open_debits_against_running_balance kind running postings))))"

definition apply_chain_mint_postings ::
    "string \<Rightarrow> string option \<Rightarrow> string \<Rightarrow> string \<Rightarrow> postings \<Rightarrow> unit gl" where
  "apply_chain_mint_postings chain_session_id owner event_id kind postings =
     (if postings = [] then ret ()
      else and_then (ensure_chain_account owner chain_session_id) (\<lambda>account_id.
           and_then (read_account_balance_map account_id) (\<lambda>running.
           post_batch account_id event_id kind
             (cap_open_debits_against_running_balance kind running postings))))"

definition apply_wallet_mint_postings :: "string \<Rightarrow> string \<Rightarrow> string \<Rightarrow> postings \<Rightarrow> unit gl" where
  "apply_wallet_mint_postings owner event_id kind postings =
     (if postings = [] then ret ()
      else and_then (ensure_wallet_account owner) (\<lambda>account_id.
           post_batch account_id event_id kind postings))"

section \<open>Posting lifecycle rows\<close>

datatype posting_outcome = SkippedNoDeltas | SkippedAlready | Applied

definition owner_from_lifecycle_json :: "json \<Rightarrow> string option" where
  "owner_from_lifecycle_json v = non_empty_str (json_get ''fee_payer_pubkey'' v)"

definition tx_fee_lamports_from_lifecycle_json :: "json \<Rightarrow> u64 option" where
  "tx_fee_lamports_from_lifecycle_json v =
     (case Option.bind (json_get ''tx_fee_lamports'' v) as_u64 of
        Some n \<Rightarrow> if 0 < n then Some n else None
      | None \<Rightarrow> None)"

definition apply_session_postings_from_lifecycle_row ::
    "'d decimal_json \<Rightarrow> json \<Rightarrow> int option \<Rightarrow> int option \<Rightarrow> posting_outcome gl option" where
  "apply_session_postings_from_lifecycle_row ops v lp_collected_a_raw lp_collected_b_raw = do {
     deltas \<leftarrow> session_mint_deltas_from_lifecycle_json ops v lp_collected_a_raw lp_collected_b_raw;
     Some (case deltas of
       None \<Rightarrow> ret SkippedNoDeltas
     | Some (session_id, signature, event, postings) \<Rightarrow>
         (let event_id = lifecycle_posting_event_id signature in
          and_then (session_lifecycle_posting_already_applied event_id) (\<lambda>already.
            if already then ret SkippedAlready
            else and_then (apply_session_mint_postings session_id (owner_from_lifecycle_json v) event_id event postings)
                   (\<lambda>_. ret Applied))))
   }"

definition apply_chain_postings_from_lifecycle_row ::
    "'d decimal_json \<Rightarrow> json \<Rightarrow> int option \<Rightarrow> int option \<Rightarrow> posting_outcome gl option" where
  "apply_chain_postings_from_lifecycle_row ops v lp_collected_a_raw lp_collected_b_raw = do {
     deltas \<leftarrow> chain_mint_deltas_from_lifecycle_json ops v lp_collected_a_raw lp_collected_b_raw;
     Some (case deltas of
       None \<Rightarrow> ret SkippedNoDeltas
     | Some (chain_id, signature, event, postings) \<Rightarrow>
         (let event_id = chain_lifecycle_posting_event_id signature in
          and_then (session_lifecycle_posting_already_applied event_id) (\<lambda>already.
            if already then ret SkippedAlready
            else and_then (apply_chain_mint_postings chain_id (owner_from_lifecycle_json v) event_id event postings)
                   (\<lambda>_. ret Applied))))
   }"

definition apply_tx_fee_posting_from_lifecycle_row :: "json \<Rightarrow> posting_outcome gl" where
  "apply_tx_fee_posting_from_lifecycle_row v =
     (case tx_fee_lamports_from_lifecycle_json v of
        None \<Rightarrow> ret SkippedNoDeltas
      | Some fee \<Rightarrow>
          (case non_empty_str (json_get ''signature'' v) of
             None \<Rightarrow> ret SkippedNoDeltas
           | Some signature \<Rightarrow>
               (let event_id = tx_fee_posting_event_id signature in
                and_then (session_lifecycle_posting_already_applied event_id) (\<lambda>already.
                  if already then ret SkippedAlready
                  else and_then (ensure_tx_fee_account (owner_from_lifecycle_json v)) (\<lambda>account_id.
                       and_then (apply_balance_delta account_id WSOL_MINT (int (unat fee)) event_id ''tx_fee'')
                         (\<lambda>_. ret Applied))))))"

definition wallet_opening_import_already_applied :: "string \<Rightarrow> bool gl" where
  "wallet_opening_import_already_applied owner =
     session_lifecycle_posting_already_applied (wallet_opening_import_event_id owner)"

definition apply_wallet_opening_import :: "string \<Rightarrow> postings \<Rightarrow> posting_outcome gl" where
  "apply_wallet_opening_import owner postings =
     (if postings = [] then ret SkippedNoDeltas
      else let event_id = wallet_opening_import_event_id owner in
        and_then (session_lifecycle_posting_already_applied event_id) (\<lambda>already.
          if already then ret SkippedAlready
          else and_then (apply_wallet_mint_postings owner event_id ''opening_import'' postings)
                 (\<lambda>_. ret Applied)))"

section \<open>Reading balances\<close>

text \<open>\<^verbatim>\<open>SELECT b.mint, b.amount_raw ... WHERE a.account_code = $1 [AND a.owner = $2] ORDER BY b.mint\<close>.\<close>

definition select_balances :: "string \<Rightarrow> string option \<Rightarrow> gl_world \<Rightarrow> string btree" where
  "select_balances code owner w =
     (case List.find (\<lambda>a. account_code a = code \<and> (case owner of None \<Rightarrow> True | Some _ \<Rightarrow> acc_owner a = owner))
             (gl_accounts w) of
        None \<Rightarrow> []
      | Some a \<Rightarrow> fold (collect_balance (\<lambda>s. s) (acc_id a)) (gl_balances w) [])"

definition owner_filter :: "string option \<Rightarrow> string option" where
  "owner_filter owner =
     (case owner of Some s \<Rightarrow> if trim s = [] then None else Some (trim s) | None \<Rightarrow> None)"

definition read_session_balances :: "string \<Rightarrow> string option \<Rightarrow> string btree gl" where
  "read_session_balances session_id owner =
     db_read (select_balances (session_account_code session_id) (owner_filter owner))"

definition read_chain_balances :: "string \<Rightarrow> string option \<Rightarrow> string btree gl" where
  "read_chain_balances chain_session_id owner =
     db_read (select_balances (chain_account_code chain_session_id) (owner_filter owner))"

definition read_wallet_balances :: "string \<Rightarrow> string btree gl" where
  "read_wallet_balances owner = db_read (select_balances (wallet_account_code owner) None)"

section \<open>Sequences of operations\<close>

text \<open>The operations by which callers change the ledger. A panic ends a call before it touches the
  database.\<close>

datatype gl_op =
  PostSession json "int option" "int option"
| PostChain json "int option" "int option"
| PostTxFee json
| PostWallet string string string postings
| ImportWallet string postings

fun gl_run :: "'d decimal_json \<Rightarrow> gl_op \<Rightarrow> posting_outcome gl option" where
  "gl_run ops (PostSession v a b) = apply_session_postings_from_lifecycle_row ops v a b"
| "gl_run ops (PostChain v a b) = apply_chain_postings_from_lifecycle_row ops v a b"
| "gl_run ops (PostTxFee v) = Some (apply_tx_fee_posting_from_lifecycle_row v)"
| "gl_run ops (PostWallet owner eid kind ps) =
     Some (and_then (apply_wallet_mint_postings owner eid kind ps) (\<lambda>_. ret Applied))"
| "gl_run ops (ImportWallet owner ps) = Some (apply_wallet_opening_import owner ps)"

definition gl_step :: "'d decimal_json \<Rightarrow> gl_world \<Rightarrow> gl_op \<Rightarrow> gl_world" where
  "gl_step ops w op = (case gl_run ops op of None \<Rightarrow> w | Some m \<Rightarrow> snd (m w))"

definition empty_ledger :: "db_outcome list \<Rightarrow> gl_world" where
  "empty_ledger rs = \<lparr>gl_accounts = [], gl_balances = [], gl_postings = [], outcomes = rs\<rparr>"

section \<open>Properties that every request keeps\<close>

definition account_ids :: "gl_world \<Rightarrow> nat set" where
  "account_ids w = acc_id ` set (gl_accounts w)"

definition i128_postings :: "postings \<Rightarrow> bool" where
  "i128_postings ps = list_all (\<lambda>p. is_i128 (snd p)) ps"

text \<open>The callers' side of the contract: stored columns hold 64-bit numbers, amounts are of 128 bits,
  and postings to a wallet come from the journal.\<close>

fun wf_op :: "gl_op \<Rightarrow> bool" where
  "wf_op (PostSession v a b) = (pred_option is_i128 a \<and> pred_option is_i128 b)"
| "wf_op (PostChain v a b) = (pred_option is_i128 a \<and> pred_option is_i128 b)"
| "wf_op (PostTxFee v) = True"
| "wf_op (PostWallet owner eid kind ps) = (prefix ''wallet_journal:'' eid \<and> i128_postings ps)"
| "wf_op (ImportWallet owner ps) = i128_postings ps"

lemma snd_db_write:
  assumes "\<And>rs. I (w\<lparr>outcomes := rs\<rparr>)" "\<And>rs. I (snd (f (w\<lparr>outcomes := rs\<rparr>)))" "I w" "I (snd (f w))"
  shows "I (snd (db_write f w))"
proof (cases "outcomes w")
  case Nil
  with assms show ?thesis by (simp add: db_write_def next_outcome_def case_prod_unfold Let_def)
next
  case (Cons r rs)
  with assms(1,2) [of rs] show ?thesis
    by (simp add: db_write_def next_outcome_def case_prod_unfold Let_def split: db_outcome.split)
qed

lemma snd_db_read: "I w \<Longrightarrow> (\<And>rs. I (w\<lparr>outcomes := rs\<rparr>)) \<Longrightarrow> I (snd (db_read q w))"
  by (auto simp: db_read_def next_outcome_def split: list.split db_outcome.split)

lemma snd_and_then:
  "I (snd (m w)) \<Longrightarrow> (\<And>x w1. m w = (Inr x, w1) \<Longrightarrow> I w1 \<Longrightarrow> I (snd (k x w1))) \<Longrightarrow> I (snd (and_then m k w))"
  by (auto simp: and_then_def split: prod.splits sum.splits)

lemma snd_ret [simp]: "snd (ret x w) = w"
  by (simp add: ret_def)

lemma find_code:
  "List.find (\<lambda>a. account_code a = code) as = Some a \<Longrightarrow> a \<in> set as \<and> account_code a = code"
  by (auto simp: find_Some_iff)

lemma find_code_None: "List.find (\<lambda>a. account_code a = code) as = None \<longleftrightarrow> code \<notin> account_code ` set as"
  by (auto simp: find_None_iff)

lemma upsert_tables:
  "map acc_id (gl_accounts (snd (upsert_account c ty code owner sess w))) =
     map acc_id (gl_accounts w) @ (if code \<in> account_code ` set (gl_accounts w) then [] else [length (gl_accounts w)])"
  "map account_code (gl_accounts (snd (upsert_account c ty code owner sess w))) =
     map account_code (gl_accounts w) @ (if code \<in> account_code ` set (gl_accounts w) then [] else [code])"
  "gl_balances (snd (upsert_account c ty code owner sess w)) = gl_balances w"
  "gl_postings (snd (upsert_account c ty code owner sess w)) = gl_postings w"
  "outcomes (snd (upsert_account c ty code owner sess w)) = outcomes w"
  using find_code_None [of code "gl_accounts w"]
  by (cases "List.find (\<lambda>a. account_code a = code) (gl_accounts w)"; auto simp: upsert_account_def)+

lemma account_ids_alt: "account_ids w = set (map acc_id (gl_accounts w))"
  by (simp add: account_ids_def)

lemma upsert_id: "upsert_account c ty code owner sess w = (aid, w1) \<Longrightarrow> aid \<in> account_ids w1"
proof -
  assume u: "upsert_account c ty code owner sess w = (aid, w1)"
  have "aid \<in> set (map acc_id (gl_accounts w)) \<or> code \<notin> account_code ` set (gl_accounts w) \<and> aid = length (gl_accounts w)"
    using u find_code_None [of code "gl_accounts w"]
    by (auto simp: upsert_account_def split: option.splits if_splits dest: find_code)
  with upsert_tables(1) [of c ty code owner sess w] u show ?thesis
    by (auto simp: account_ids_alt simp del: set_map)
qed

lemma transaction_accounts [simp]:
  "gl_accounts (snd (balance_transaction aid m d eid kind w)) = gl_accounts w"
  "account_ids (snd (balance_transaction aid m d eid kind w)) = account_ids w"
  by (simp_all add: balance_transaction_def account_ids_def)

lemma account_ids_outcomes [simp]: "account_ids (w\<lparr>outcomes := rs\<rparr>) = account_ids w"
  by (simp add: account_ids_def)

lemma write_upsert_id:
  "db_write (upsert_account c ty code owner sess) w = (Inr aid, w1) \<Longrightarrow> aid \<in> account_ids w1"
  by (auto simp: db_write_def split: prod.splits db_outcome.splits dest: upsert_id)

lemma db_read_accounts: "account_ids (snd (db_read q w)) = account_ids w"
  by (rule snd_db_read [where I = "\<lambda>w'. account_ids w' = account_ids w"]) simp_all

lemma wf_i128_postings: "list_all wf_posting ps \<Longrightarrow> i128_postings ps"
  by (auto simp: i128_postings_def list_all_iff wf_posting_def)

lemma session_deltas_i128:
  assumes "to_i128_law ops" "pred_option is_i128 a" "pred_option is_i128 b"
    and "session_mint_deltas_from_lifecycle_json ops v a b = Some (Some (sid, sig, ev, ps))"
  shows "i128_postings ps"
  using assms(4)
  by (rule session_deltas_elim)
    (blast intro: wf_i128_postings event_postings_wf [OF assms(1)] lp_collected_i128 assms(2,3))

lemma chain_deltas_i128:
  assumes "to_i128_law ops" "pred_option is_i128 a" "pred_option is_i128 b"
    and "chain_mint_deltas_from_lifecycle_json ops v a b = Some (Some (sid, sig, ev, ps))"
  shows "i128_postings ps"
  using assms(4) session_deltas_i128 [OF assms(1-3)]
  by (auto simp: chain_mint_deltas_from_lifecycle_json_def split: option.splits)

text \<open>A property of the tables that consuming an outcome, creating or updating an account, and a
  balance transaction on an existing account keep, is kept by every operation of the ledger.\<close>

locale ledger_property =
  fixes I :: "gl_world \<Rightarrow> bool"
  assumes outcome: "I w \<Longrightarrow> I (w\<lparr>outcomes := rs\<rparr>)"
    and account: "I w \<Longrightarrow> I (snd (upsert_account c ty code owner sess w))"
    and transaction: "I w \<Longrightarrow> aid \<in> account_ids w \<Longrightarrow> is_i128 d \<Longrightarrow> I (snd (balance_transaction aid m d eid kind w))"
begin

lemma write_account: "I w \<Longrightarrow> I (snd (db_write (upsert_account c ty code owner sess) w))"
  by (rule snd_db_write [where I = I]) (auto intro: account outcome)

lemma read_any: "I w \<Longrightarrow> I (snd (db_read q w))"
  by (rule snd_db_read [where I = I]) (auto intro: outcome)

lemma write_delta:
  assumes "I w" "aid \<in> account_ids w" "is_i128 d"
  shows "I (snd (apply_balance_delta aid m d eid kind w)) \<and> aid \<in> account_ids (snd (apply_balance_delta aid m d eid kind w))"
  unfolding apply_balance_delta_def
  by (rule snd_db_write [where I = "\<lambda>w. I w \<and> aid \<in> account_ids w"]) (use assms in \<open>auto intro: outcome transaction\<close>)

lemma batch:
  "I w \<Longrightarrow> aid \<in> account_ids w \<Longrightarrow> i128_postings ps \<Longrightarrow> I (snd (post_batch aid eid kind ps w))"
proof (induction ps arbitrary: w)
  case (Cons p ps)
  obtain m d where p: "p = (m, d)" by fastforce
  from Cons.prems have d: "is_i128 d" "i128_postings ps" by (simp_all add: p i128_postings_def)
  note delta = write_delta [OF Cons.prems(1,2) d(1), of m eid kind]
  show ?case
  proof (cases "d = 0")
    case False
    show ?thesis unfolding p post_batch.simps using False
      by (auto intro!: snd_and_then [where I = I] simp: delta) (use Cons.IH [OF _ _ d(2)] delta in \<open>metis snd_conv\<close>)
  qed (use Cons p d in simp)
qed (simp add: ret_def)

lemma i128_cap: "i128_postings ps \<Longrightarrow> i128_postings (cap_open_debits_against_running_balance kind t ps)"
proof -
  assume ps: "i128_postings ps"
  have "is_i128 (- min (saturating_neg_i128 d) (max x 0))" if "\<not> 0 \<le> d" for d x
    using that by (auto simp: i128_defs)
  with ps show ?thesis
    by (auto simp: i128_postings_def cap_open_debits_against_running_balance_def list_all_iff Let_def)
qed

lemma capped_batch:
  assumes "I w" "i128_postings ps"
  shows "I (snd (and_then (db_write (upsert_account c ty code owner sess)) (\<lambda>aid.
      and_then (read_account_balance_map aid) (\<lambda>running.
      post_batch aid eid kind (cap_open_debits_against_running_balance kind running ps))) w))"
proof (rule snd_and_then [where I = I])
  fix aid w1
  assume w1: "db_write (upsert_account c ty code owner sess) w = (Inr aid, w1)" "I w1"
  show "I (snd (and_then (read_account_balance_map aid) (\<lambda>running.
      post_batch aid eid kind (cap_open_debits_against_running_balance kind running ps)) w1))"
  proof (rule snd_and_then [where I = I])
    fix t w2
    assume w2: "read_account_balance_map aid w1 = (Inr t, w2)" "I w2"
    have "account_ids w2 = account_ids w1"
      using w2(1) db_read_accounts [of _ w1] by (metis read_account_balance_map_def snd_conv)
    with w1 w2 write_upsert_id show "I (snd (post_batch aid eid kind (cap_open_debits_against_running_balance kind t ps) w2))"
      by (blast intro: batch i128_cap assms(2))
  qed (simp add: read_account_balance_map_def read_any w1)
qed (simp add: write_account assms)

lemma session_postings: "I w \<Longrightarrow> i128_postings ps \<Longrightarrow> I (snd (apply_session_mint_postings sid owner eid kind ps w))"
  by (auto simp: apply_session_mint_postings_def ensure_session_account_def capped_batch)

lemma chain_postings: "I w \<Longrightarrow> i128_postings ps \<Longrightarrow> I (snd (apply_chain_mint_postings cid owner eid kind ps w))"
  by (auto simp: apply_chain_mint_postings_def ensure_chain_account_def capped_batch)

lemma wallet_postings:
  assumes "I w" "i128_postings ps"
  shows "I (snd (apply_wallet_mint_postings owner eid kind ps w))"
proof (cases "ps = []")
  case False
  then show ?thesis
    unfolding apply_wallet_mint_postings_def ensure_wallet_account_def using assms
    by (simp, intro snd_and_then [where I = I]) (auto simp: write_account intro: batch dest: write_upsert_id)
qed (simp add: apply_wallet_mint_postings_def assms)

lemma guarded:
  assumes "I w" "\<And>w. I w \<Longrightarrow> I (snd (m w))"
  shows "I (snd (and_then (session_lifecycle_posting_already_applied eid)
      (\<lambda>already. if already then ret SkippedAlready else and_then m (\<lambda>_. ret Applied)) w))"
proof (rule snd_and_then [where I = I])
  fix already w1
  assume "I w1"
  then have "I (snd (and_then m (\<lambda>_. ret Applied) w1))"
    by (intro snd_and_then [where I = I] assms(2)) simp_all
  with \<open>I w1\<close> show "I (snd ((if already then ret SkippedAlready else and_then m (\<lambda>_. ret Applied)) w1))" by simp
qed (simp add: session_lifecycle_posting_already_applied_def read_any assms(1))

lemma fee_posting: "I w \<Longrightarrow> I (snd (apply_tx_fee_posting_from_lifecycle_row v w))"
proof -
  assume "I w"
  have delta: "I (snd (and_then (ensure_tx_fee_account owner) (\<lambda>aid.
      apply_balance_delta aid WSOL_MINT (uint (fee :: u64)) eid kind) w))" if "I w" for w owner fee eid kind
    unfolding ensure_tx_fee_account_def
    by (rule snd_and_then [where I = I])
      (auto simp: write_account that intro: write_delta [THEN conjunct1] i128_uint dest: write_upsert_id)
  have assoc: "and_then m (\<lambda>a. and_then (k a) r) = and_then (and_then m k) r" for m :: "nat gl" and k r
    by (auto simp: fun_eq_iff and_then_def split: prod.split sum.split)
  from \<open>I w\<close> show ?thesis
    unfolding apply_tx_fee_posting_from_lifecycle_row_def assoc Let_def
    by (auto split: option.split intro!: guarded delta)
qed

lemma import_posting: "I w \<Longrightarrow> i128_postings ps \<Longrightarrow> I (snd (apply_wallet_opening_import owner ps w))"
  by (auto simp: apply_wallet_opening_import_def Let_def intro!: guarded wallet_postings)

lemma session_row:
  assumes "to_i128_law ops" "pred_option is_i128 a" "pred_option is_i128 b" "I w"
    and "apply_session_postings_from_lifecycle_row ops v a b = Some m"
  shows "I (snd (m w))"
proof -
  from assms(5) obtain deltas where
    d: "session_mint_deltas_from_lifecycle_json ops v a b = Some deltas"
    by (auto simp: apply_session_postings_from_lifecycle_row_def bind_eq_Some_conv)
  show ?thesis
  proof (cases deltas)
    case None
    with d assms show ?thesis by (simp add: apply_session_postings_from_lifecycle_row_def) auto
  next
    case (Some x)
    obtain sid sig ev ps where x: "x = (sid, sig, ev, ps)" by (cases x)
    with d Some have "i128_postings ps" using session_deltas_i128 [OF assms(1-3)] by blast
    with d Some x assms show ?thesis
      by (auto simp: apply_session_postings_from_lifecycle_row_def Let_def intro!: guarded session_postings)
  qed
qed

lemma chain_row:
  assumes "to_i128_law ops" "pred_option is_i128 a" "pred_option is_i128 b" "I w"
    and "apply_chain_postings_from_lifecycle_row ops v a b = Some m"
  shows "I (snd (m w))"
proof -
  from assms(5) obtain deltas where
    d: "chain_mint_deltas_from_lifecycle_json ops v a b = Some deltas"
    by (auto simp: apply_chain_postings_from_lifecycle_row_def bind_eq_Some_conv)
  show ?thesis
  proof (cases deltas)
    case None
    with d assms show ?thesis by (simp add: apply_chain_postings_from_lifecycle_row_def) auto
  next
    case (Some x)
    obtain sid sig ev ps where x: "x = (sid, sig, ev, ps)" by (cases x)
    with d Some have "i128_postings ps" using chain_deltas_i128 [OF assms(1-3)] by blast
    with d Some x assms show ?thesis
      by (auto simp: apply_chain_postings_from_lifecycle_row_def Let_def intro!: guarded chain_postings)
  qed
qed

lemma step:
  assumes "to_i128_law ops" "wf_op e" "I w"
  shows "I (snd (the (gl_run ops e) w)) \<or> gl_run ops e = None"
proof (cases e)
  case (PostWallet owner eid kind ps)
  have "I (snd (and_then (apply_wallet_mint_postings owner eid kind ps) (\<lambda>_. ret Applied) w))"
    by (rule snd_and_then [where I = I]) (use assms PostWallet in \<open>simp_all add: wallet_postings\<close>)
  with PostWallet show ?thesis by simp
qed (use assms session_row chain_row in \<open>fastforce intro: fee_posting import_posting\<close>)+

lemma gl_step: "to_i128_law ops \<Longrightarrow> wf_op e \<Longrightarrow> I w \<Longrightarrow> I (gl_step ops w e)"
  using step [of ops e w] by (auto simp: gl_step_def split: option.split)

lemma steps: "to_i128_law ops \<Longrightarrow> list_all wf_op es \<Longrightarrow> I w \<Longrightarrow> I (foldl (gl_step ops) w es)"
  by (induction es arbitrary: w) (auto intro: gl_step)

end

section \<open>Balances are the sums of their postings\<close>

definition posted_deltas :: "gl_world \<Rightarrow> nat \<Rightarrow> string \<Rightarrow> int list" where
  "posted_deltas w aid mint =
     map (\<lambda>p. parse_or_zero (delta_raw p)) (filter (\<lambda>p. post_account p = aid \<and> post_mint p = mint) (gl_postings w))"

definition gl_consistent :: "gl_world \<Rightarrow> bool" where
  "gl_consistent w \<longleftrightarrow>
     map acc_id (gl_accounts w) = [0..<length (gl_accounts w)]
     \<and> distinct (map account_code (gl_accounts w))
     \<and> distinct (map fst (gl_balances w))
     \<and> (\<forall>p \<in> set (gl_postings w). post_account p < length (gl_accounts w))
     \<and> (\<forall>aid mint. map_option amount_raw (map_of (gl_balances w) (aid, mint)) =
          (if posted_deltas w aid mint = [] then None
           else Some (format_raw_i128 (foldl saturating_add_i128 0 (posted_deltas w aid mint)))))"

lemma parse_or_zero_format [simp]: "is_i128 v \<Longrightarrow> parse_or_zero (format_raw_i128 v) = v"
  by (simp add: parse_or_zero_def)

lemma is_i128_foldl: "is_i128 (foldl saturating_add_i128 0 ds)"
  by (cases ds rule: rev_cases) simp_all

lemma posted_transaction:
  "is_i128 d \<Longrightarrow> posted_deltas (snd (balance_transaction aid m d eid kind w)) aid' m' =
     posted_deltas w aid' m' @ (if aid' = aid \<and> m' = m then [d] else [])"
  by (auto simp: posted_deltas_def balance_transaction_def)

lemma consistent_transaction:
  assumes "gl_consistent w" "aid \<in> account_ids w" "is_i128 d"
  shows "gl_consistent (snd (balance_transaction aid m d eid kind w))" (is "gl_consistent ?w")
proof -
  from assms have aid: "aid < length (gl_accounts w)"
    by (auto simp: gl_consistent_def account_ids_alt simp del: set_map)
  have sum: "map_option amount_raw (map_of (gl_balances w) (aid', m')) =
      (if posted_deltas w aid' m' = [] then None
       else Some (format_raw_i128 (foldl saturating_add_i128 0 (posted_deltas w aid' m'))))" for aid' m'
    using assms(1) by (simp add: gl_consistent_def)
  have "map_option amount_raw (map_of (gl_balances ?w) (aid', m')) =
      (if posted_deltas ?w aid' m' = [] then None
       else Some (format_raw_i128 (foldl saturating_add_i128 0 (posted_deltas ?w aid' m'))))" for aid' m'
  proof (cases "aid' = aid \<and> m' = m")
    case True
    have zero: "saturating_add_i128 0 d = d" using assms(3) by (simp add: i128_defs)
    show ?thesis
      using sum [of aid m] True unfolding posted_transaction [OF assms(3)]
      by (auto simp: balance_transaction_def update_conv' is_i128_foldl zero split: option.splits if_splits)
  next
    case False
    then show ?thesis
      using sum [of aid' m'] unfolding posted_transaction [OF assms(3)]
      by (auto simp: balance_transaction_def update_conv')
  qed
  moreover have "distinct (map fst (gl_balances ?w))"
    using assms(1) by (simp add: gl_consistent_def balance_transaction_def distinct_update)
  moreover have "\<forall>p \<in> set (gl_postings ?w). post_account p < length (gl_accounts ?w)"
    using assms(1) aid by (auto simp: gl_consistent_def balance_transaction_def)
  ultimately show ?thesis
    using assms(1) by (simp add: gl_consistent_def)
qed

lemma consistent_account: "gl_consistent w \<Longrightarrow> gl_consistent (snd (upsert_account c ty code owner sess w))"
proof -
  assume w: "gl_consistent w"
  let ?w = "snd (upsert_account c ty code owner sess w)"
  note t = upsert_tables [of c ty code owner sess w]
  have len: "length (gl_accounts ?w) = length (gl_accounts w) + (if code \<in> account_code ` set (gl_accounts w) then 0 else 1)"
    using arg_cong [OF t(1), of length] by simp
  have "posted_deltas ?w = posted_deltas w" by (simp add: posted_deltas_def fun_eq_iff t)
  moreover have "map acc_id (gl_accounts ?w) = [0..<length (gl_accounts ?w)]"
    using w by (simp add: gl_consistent_def t(1) len)
  moreover have "distinct (map account_code (gl_accounts ?w))"
    using w by (simp add: gl_consistent_def t(2))
  ultimately show ?thesis
    using w len by (auto simp: gl_consistent_def t(3,4))
qed

interpretation consistency: ledger_property gl_consistent
proof
  show "gl_consistent w \<Longrightarrow> gl_consistent (w\<lparr>outcomes := rs\<rparr>)" for w rs
    by (simp add: gl_consistent_def posted_deltas_def)
qed (auto intro: consistent_account consistent_transaction)

lemma empty_consistent [simp]: "gl_consistent (empty_ledger rs)"
  by (simp add: gl_consistent_def empty_ledger_def posted_deltas_def)

text \<open>C8. Double-entry consistency: after any sequence of ledger operations on an empty database, with any
  requests rejected or lost after they were carried out, the stored balance of every account and
  mint is the saturating sum of the postings recorded for it, in their order, and no balance exists
  without a posting. Account codes are unique and postings refer to existing accounts.\<close>

theorem ledger_balanced:
  assumes "to_i128_law ops" and "list_all wf_op es"
    and "w = foldl (gl_step ops) (empty_ledger rs) es"
  shows "map_option amount_raw (map_of (gl_balances w) (aid, mint)) =
      (if posted_deltas w aid mint = [] then None
       else Some (format_raw_i128 (foldl saturating_add_i128 0 (posted_deltas w aid mint))))
    \<and> distinct (map account_code (gl_accounts w)) \<and> distinct (map fst (gl_balances w))
    \<and> (\<forall>p \<in> set (gl_postings w). post_account p \<in> account_ids w)"
proof -
  have "gl_consistent w" unfolding assms(3) by (intro consistency.steps assms empty_consistent)
  then show ?thesis by (auto simp: gl_consistent_def account_ids_alt simp del: set_map)
qed

lemmas ledger_run_simps = and_then_def ret_def db_write_def db_read_def next_outcome_def empty_ledger_def
  session_lifecycle_posting_already_applied_def upsert_account_def read_account_balance_map_def
  apply_balance_delta_def balance_transaction_def collect_balance_def

theorem ledger_balanced_witness:
  "let w = foldl (gl_step rat_json) (empty_ledger [Committed, LostReply])
     [PostWallet ''me'' ''wallet_journal:1'' ''transfer'' [(''A'', 5), (''B'', 2)],
      PostWallet ''me'' ''wallet_journal:1'' ''transfer'' [(''A'', 5)]] in
   posted_deltas w 0 ''A'' = [5, 5] \<and> map_option amount_raw (map_of (gl_balances w) (0, ''A'')) = Some ''10''"
proof -
  let ?es = "[PostWallet ''me'' ''wallet_journal:1'' ''transfer'' [(''A'', 5), (''B'', 2)],
      PostWallet ''me'' ''wallet_journal:1'' ''transfer'' [(''A'', 5)]]"
  let ?w = "foldl (gl_step rat_json) (empty_ledger [Committed, LostReply]) ?es"
  have "list_all wf_op ?es" by (simp add: i128_postings_def i128_defs)
  note balanced = ledger_balanced [OF rat_json_i128 this refl, of "[Committed, LostReply]" 0 "''A''"]
  have "posted_deltas ?w 0 ''A'' = [5, 5]"
    by (simp add: gl_step_def ledger_run_simps apply_wallet_mint_postings_def ensure_wallet_account_def
        posted_deltas_def account_code_defs trim_def is_space_def is_i128_def
        i128_min_def i128_max_def)
  moreover have "format_raw_i128 10 = ''10''" by code_simp
  ultimately show ?thesis using conjunct1 [OF balanced] by (simp add: i128_defs Let_def)
qed

section \<open>The ledger without faults\<close>

definition account_of :: "gl_world \<Rightarrow> string \<Rightarrow> nat option" where
  "account_of w code = map_option acc_id (List.find (\<lambda>a. account_code a = code) (gl_accounts w))"

text \<open>The abstraction of the tables: the amount of each mint on the account with a given code, and the
  events that have been posted.\<close>

definition amounts :: "gl_world \<Rightarrow> string \<Rightarrow> string \<Rightarrow> int option" where
  "amounts w code mint =
     (case account_of w code of
        None \<Rightarrow> None
      | Some aid \<Rightarrow> map_option (\<lambda>b. parse_or_zero (amount_raw b)) (map_of (gl_balances w) (aid, mint)))"

definition events :: "gl_world \<Rightarrow> string set" where
  "events w = post_event_id ` set (gl_postings w)"

lemma no_fault:
  assumes "outcomes w = []"
  shows "db_write f w = (Inr (fst (f w)), snd (f w))" "db_read q w = (Inr (q w), w)"
  using assms by (simp_all add: db_write_def db_read_def next_outcome_def case_prod_unfold Let_def)

lemma outcomes_transaction [simp]: "outcomes (snd (balance_transaction aid m d eid kind w)) = outcomes w"
  by (simp add: balance_transaction_def)

lemma events_upsert [simp]: "events (snd (upsert_account c ty code owner sess w)) = events w"
  by (simp add: events_def upsert_tables)

lemma events_transaction [simp]: "events (snd (balance_transaction aid m d eid kind w)) = insert eid (events w)"
  by (auto simp: events_def balance_transaction_def)

lemma account_of_upsert [simp]:
  "account_of (snd (upsert_account c ty code owner sess w)) code' =
     (if code' = code then Some (fst (upsert_account c ty code owner sess w)) else account_of w code')"
proof -
  have upd: "List.find (\<lambda>a. account_code a = x) (map (\<lambda>b. if account_code b = code then b\<lparr>acc_owner := f b\<rparr> else b) as) =
      map_option (\<lambda>b. if account_code b = code then b\<lparr>acc_owner := f b\<rparr> else b) (List.find (\<lambda>a. account_code a = x) as)" for x f as
    by (induction as) auto
  have app: "List.find P (as @ bs) = (case List.find P as of None \<Rightarrow> List.find P bs | Some a \<Rightarrow> Some a)"
    for P :: "gl_account \<Rightarrow> bool" and as bs
    by (induction as) auto
  show ?thesis
    by (auto simp: account_of_def upsert_account_def upd app option.map_comp split: option.split)
qed

lemma account_of_bound: "gl_consistent w \<Longrightarrow> account_of w code = Some aid \<Longrightarrow> aid < length (gl_accounts w)"
proof -
  assume w: "gl_consistent w" and a: "account_of w code = Some aid"
  then have "aid \<in> set (map acc_id (gl_accounts w))" by (auto simp: account_of_def dest: find_code)
  with w show ?thesis by (simp add: gl_consistent_def del: set_map)
qed

lemma account_of_ids: "account_of w code = Some aid \<Longrightarrow> aid \<in> account_ids w"
  by (auto simp: account_of_def account_ids_def dest: find_code)

lemma account_of_inj:
  assumes "gl_consistent w" "account_of w c = Some aid" "account_of w c' = Some aid"
  shows "c = c'"
proof -
  have ids: "distinct (map acc_id (gl_accounts w))" using assms(1) by (simp add: gl_consistent_def)
  obtain a b where "a \<in> set (gl_accounts w)" "account_code a = c" "acc_id a = aid"
    "b \<in> set (gl_accounts w)" "account_code b = c'" "acc_id b = aid"
    using assms(2,3) by (auto simp: account_of_def dest!: find_code)
  with ids show ?thesis by (metis distinct_map inj_onD)
qed

lemma no_balance_beyond:
  assumes "gl_consistent w" "length (gl_accounts w) \<le> aid"
  shows "map_of (gl_balances w) (aid, mint) = None"
proof -
  have "posted_deltas w aid mint = []"
    using assms by (auto simp: posted_deltas_def gl_consistent_def filter_empty_conv)
  moreover have "map_option amount_raw (map_of (gl_balances w) (aid, mint)) =
      (if posted_deltas w aid mint = [] then None
       else Some (format_raw_i128 (foldl saturating_add_i128 0 (posted_deltas w aid mint))))"
    using assms(1) by (simp add: gl_consistent_def)
  ultimately show ?thesis by simp
qed

lemma amounts_upsert [simp]:
  "gl_consistent w \<Longrightarrow> amounts (snd (upsert_account c ty code owner sess w)) code' = amounts w code'"
  using no_balance_beyond [of w "length (gl_accounts w)"]
  by (auto simp: amounts_def fun_eq_iff upsert_tables(3))
    (auto simp: upsert_account_def account_of_def split: option.splits)

lemma amounts_transaction:
  assumes w: "gl_consistent w" and c: "account_of w code = Some aid" and d: "is_i128 d"
  shows "amounts (snd (balance_transaction aid m d eid kind w)) code' =
     (if code' = code then (amounts w code)(m \<mapsto> saturating_add_i128 (case amounts w code m of None \<Rightarrow> 0 | Some x \<Rightarrow> x) d)
      else amounts w code')"
proof -
  have acc: "account_of (snd (balance_transaction aid m d eid kind w)) = account_of w"
    by (simp add: account_of_def balance_transaction_def fun_eq_iff)
  have zero: "saturating_add_i128 0 d = d" using d by (simp add: i128_defs)
  have bal: "map_of (gl_balances (snd (balance_transaction aid m d eid kind w))) =
      (map_of (gl_balances w))((aid, m) \<mapsto> \<lparr>amount_raw = format_raw_i128 (case map_of (gl_balances w) (aid, m) of
          Some r \<Rightarrow> saturating_add_i128 (parse_or_zero (amount_raw r)) d | None \<Rightarrow> d), last_event_id = eid\<rparr>)"
    by (simp add: balance_transaction_def update_conv')
  show ?thesis
  proof (cases "code' = code")
    case True
    with c d zero show ?thesis
      by (cases "map_of (gl_balances w) (aid, m)") (simp_all add: amounts_def acc bal fun_eq_iff)
  next
    case False
    with account_of_inj [OF w c] have "account_of w code' \<noteq> Some aid" by blast
    with False show ?thesis by (auto simp: amounts_def acc bal fun_eq_iff split: option.split)
  qed
qed

lemma collect_map:
  "distinct (map fst bs) \<Longrightarrow> map_of (fold (collect_balance f aid) bs t) m =
     (case map_of bs (aid, m) of None \<Rightarrow> map_of t m | Some b \<Rightarrow> Some (f (amount_raw b)))"
proof (induction bs arbitrary: t)
  case (Cons x bs)
  obtain a k b where x: "x = ((a, k), b)" by (cases x) auto
  have "map_of bs (aid, m) = None" if "a = aid" "k = m"
    using Cons.prems that x by (auto simp: map_of_eq_None_iff)
  with Cons x show ?case by (auto simp: collect_balance_def split: option.split)
qed simp

lemma bt_wf_collect: "bt_wf t \<Longrightarrow> bt_wf (fold (collect_balance f aid) bs t)"
  by (induction bs arbitrary: t) (auto simp: collect_balance_def split: prod.split)

lemma running_balances:
  "gl_consistent w \<Longrightarrow> account_of w code = Some aid \<Longrightarrow>
    map_of (fold (collect_balance parse_or_zero aid) (gl_balances w) []) = amounts w code"
  by (auto simp: fun_eq_iff collect_map gl_consistent_def amounts_def split: option.split)

text \<open>Sums depend on the map only.\<close>

lemma bt_get_or_cong: "map_of t = map_of t' \<Longrightarrow> bt_get_or d t = bt_get_or d t'"
  by (simp add: bt_get_or_def fun_eq_iff)

lemma fold_add_posting_cong:
  "map_of t = map_of t' \<Longrightarrow> map_of (fold add_posting ps t) = map_of (fold add_posting ps t')"
proof (induction ps arbitrary: t t')
  case (Cons p ps)
  have "map_of (add_posting p t) = map_of (add_posting p t')"
    using Cons.prems bt_get_or_cong [OF Cons.prems, of 0] by (cases p) (simp add: add_posting_def)
  from Cons.IH [OF this] show ?case by simp
qed simp

lemma apply_capped_cong:
  assumes "map_of t = map_of t'"
  shows "map_of (apply_capped_postings_to_sums t ev ps) = map_of (apply_capped_postings_to_sums t' ev ps)"
proof -
  have "cap_open_debits_against_running_balance ev t ps = cap_open_debits_against_running_balance ev t' ps"
    unfolding cap_open_debits_against_running_balance_def bt_get_or_cong [OF assms] ..
  with fold_add_posting_cong [OF assms] show ?thesis by (simp add: apply_capped_postings_to_sums_def)
qed

text \<open>A batch on the account of a code: its balances become the sums, other accounts stay, and the event
  is recorded unless nothing was posted.\<close>

lemma post_batch_no_fault:
  assumes "outcomes w = []" "gl_consistent w" "account_of w code = Some aid" "i128_postings ps" "map_of t = amounts w code"
  shows "\<exists>w'. post_batch aid eid kind ps w = (Inr (), w') \<and> outcomes w' = [] \<and> gl_consistent w'
    \<and> gl_accounts w' = gl_accounts w \<and> amounts w' code = map_of (fold add_posting ps t)
    \<and> (\<forall>c. c \<noteq> code \<longrightarrow> amounts w' c = amounts w c)
    \<and> (if list_all (\<lambda>p. snd p = 0) ps then w' = w else events w' = insert eid (events w))"
  using assms
proof (induction ps arbitrary: w t)
  case Nil
  then show ?case by (simp add: ret_def)
next
  case (Cons p ps)
  obtain m d where p: "p = (m, d)" by fastforce
  from Cons.prems(4) have d: "is_i128 d" "i128_postings ps" by (simp_all add: p i128_postings_def)
  show ?case
  proof (cases "d = 0")
    case True
    with Cons.IH [OF Cons.prems(1-3) d(2) Cons.prems(5)] p show ?thesis by (auto simp: add_posting_def)
  next
    case False
    let ?w1 = "snd (balance_transaction aid m d eid kind w)"
    have w1: "outcomes ?w1 = []" "gl_consistent ?w1"
      using Cons.prems d account_of_ids by (auto intro: consistent_transaction)
    have acc: "account_of ?w1 = account_of w" by (simp add: account_of_def fun_eq_iff)
    have t1: "map_of (add_posting p t) = amounts ?w1 code"
      using False Cons.prems(5) amounts_transaction [OF Cons.prems(2,3) d(1)]
      by (simp add: add_posting_def p bt_get_or_def)
    obtain w' where w': "post_batch aid eid kind ps ?w1 = (Inr (), w')" "outcomes w' = []" "gl_consistent w'"
      "gl_accounts w' = gl_accounts ?w1" "amounts w' code = map_of (fold add_posting ps (add_posting p t))"
      "\<forall>c. c \<noteq> code \<longrightarrow> amounts w' c = amounts ?w1 c"
      "if list_all (\<lambda>p. snd p = 0) ps then w' = ?w1 else events w' = insert eid (events ?w1)"
      using Cons.IH [OF w1 _ d(2) t1] Cons.prems(3) acc by auto
    have "post_batch aid eid kind (p # ps) w = (Inr (), w')"
      using False w'(1) by (simp add: p and_then_def apply_balance_delta_def no_fault [OF Cons.prems(1)])
    moreover have "events w' = insert eid (events w)"
      using w'(7) by (auto split: if_splits)
    ultimately show ?thesis
      using w' False p amounts_transaction [OF Cons.prems(2,3) d(1)] by (intro exI [of _ w']) simp
  qed
qed

end
