(* ===== verification/Ledger_Refinement.thy ===== *)
theory Ledger_Refinement
  imports Session_Ledger
begin

text \<open>
  The ledger tables implement the pure sums over lifecycle rows. SESSION and CHAIN accounts are
  handled by two copies of the same code in \<^verbatim>\<open>data/src/wallet_session.rs\<close>; what they share is the
  locale \<open>posting_scope\<close>, interpreted on both, and its extension \<open>ledger_scope\<close> for sequences of
  operations in which those of other scopes are interleaved.
\<close>

section \<open>Posting one row in a scope\<close>

text \<open>The common body of the two row operations, for an account type, account codes and event
  identifiers.\<close>

definition scoped_posting ::
    "string \<Rightarrow> (string \<Rightarrow> string) \<Rightarrow> (string \<Rightarrow> string) \<Rightarrow> string option \<Rightarrow> lifecycle_deltas \<Rightarrow> posting_outcome gl" where
  "scoped_posting ty code event_id owner x =
     (case x of (sid, sig, ev, ps) \<Rightarrow>
        and_then (session_lifecycle_posting_already_applied (event_id sig)) (\<lambda>already.
          if already then ret SkippedAlready
          else and_then (if ps = [] then ret () else
            and_then (db_write (upsert_account False ty (code sid) owner (Some sid))) (\<lambda>aid.
            and_then (read_account_balance_map aid) (\<lambda>running.
            post_batch aid (event_id sig) ev (cap_open_debits_against_running_balance ev running ps))))
            (\<lambda>_. ret Applied)))"

lemma already_no_fault:
  "outcomes w = [] \<Longrightarrow> session_lifecycle_posting_already_applied eid w = (Inr (eid \<in> events w), w)"
  by (auto simp: session_lifecycle_posting_already_applied_def no_fault events_def list_ex_iff)

lemma upsert_again:
  "upsert_account False ty code owner sess (snd (upsert_account False ty code owner sess w)) =
     (fst (upsert_account False ty code owner sess w), snd (upsert_account False ty code owner sess w))"
proof (cases "List.find (\<lambda>a. account_code a = code) (gl_accounts w)")
  case None
  have "List.find P (as @ bs) = (case List.find P as of None \<Rightarrow> List.find P bs | Some a \<Rightarrow> Some a)"
    for P :: "gl_account \<Rightarrow> bool" and as bs
    by (induction as) auto
  with None show ?thesis by (simp add: upsert_account_def)
qed (simp add: upsert_account_def)

lemma i128_cap_postings: "i128_postings ps \<Longrightarrow> i128_postings (cap_open_debits_against_running_balance kind t ps)"
  by (rule consistency.i128_cap)

lemma read_no_fault:
  assumes "outcomes w = []" "gl_consistent w" "account_of w code = Some aid"
  shows "\<exists>t. read_account_balance_map aid w = (Inr t, w) \<and> map_of t = amounts w code"
  using running_balances [OF assms(2,3)] by (simp add: read_account_balance_map_def no_fault [OF assms(1)])

text \<open>The effect of posting a row that has not been posted, when no request fails.\<close>

lemma scoped_posting_fresh:
  assumes w: "outcomes w = []" "gl_consistent w" and ps: "i128_postings ps" "ps \<noteq> []" and new: "event_id sig \<notin> events w"
  shows "\<exists>w'. scoped_posting ty code event_id owner (sid, sig, ev, ps) w = (Inr Applied, w')
    \<and> outcomes w' = [] \<and> gl_consistent w'
    \<and> (\<forall>t. map_of t = amounts w (code sid) \<longrightarrow> amounts w' (code sid) = map_of (apply_capped_postings_to_sums t ev ps))
    \<and> (\<forall>c. c \<noteq> code sid \<longrightarrow> amounts w' c = amounts w c)
    \<and> events w' \<subseteq> insert (event_id sig) (events w)
    \<and> (event_id sig \<notin> events w' \<longrightarrow> scoped_posting ty code event_id owner (sid, sig, ev, ps) w' = (Inr Applied, w'))"
proof -
  define aid w1 where "aid = fst (upsert_account False ty (code sid) owner (Some sid) w)"
    and "w1 = snd (upsert_account False ty (code sid) owner (Some sid) w)"
  have w1: "outcomes w1 = []" "gl_consistent w1" "account_of w1 (code sid) = Some aid" "\<And>c. amounts w1 c = amounts w c"
    "events w1 = events w"
    using w by (simp_all add: w1_def aid_def upsert_tables consistent_account)
  obtain run where run: "read_account_balance_map aid w1 = (Inr run, w1)" "map_of run = amounts w1 (code sid)"
    using read_no_fault [OF w1(1-3)] by blast
  let ?batch = "cap_open_debits_against_running_balance ev run ps"
  obtain w' where w': "post_batch aid (event_id sig) ev ?batch w1 = (Inr (), w')" "outcomes w' = []" "gl_consistent w'"
    "amounts w' (code sid) = map_of (fold add_posting ?batch run)"
    "\<forall>c. c \<noteq> code sid \<longrightarrow> amounts w' c = amounts w1 c"
    "if list_all (\<lambda>p. snd p = 0) ?batch then w' = w1 else events w' = insert (event_id sig) (events w1)"
    using post_batch_no_fault [OF w1(1-3) i128_cap_postings [OF ps(1)] run(2), of "event_id sig" ev ev] by auto
  have go: "scoped_posting ty code event_id owner (sid, sig, ev, ps) w = (Inr Applied, w')"
    using w ps(2) new run(1) w'(1)
    by (simp add: scoped_posting_def and_then_def already_no_fault no_fault ret_def w1_def aid_def)
  have sums: "amounts w' (code sid) = map_of (apply_capped_postings_to_sums t ev ps)" if "map_of t = amounts w (code sid)" for t
    using apply_capped_cong [of run t ev ps] run(2) that w1(4) w'(4) by (simp add: apply_capped_postings_to_sums_def)
  have again: "scoped_posting ty code event_id owner (sid, sig, ev, ps) w' = (Inr Applied, w')" if "event_id sig \<notin> events w'"
  proof -
    from that w'(6) have "w' = w1" by (auto split: if_splits)
    moreover have "upsert_account False ty (code sid) owner (Some sid) w1 = (aid, w1)"
      unfolding w1_def aid_def by (rule upsert_again)
    ultimately show ?thesis
      using w1 ps(2) that run(1) w'(1)
      by (simp add: scoped_posting_def and_then_def already_no_fault no_fault ret_def)
  qed
  from go w' sums again w1 show ?thesis by (intro exI [of _ w']) (auto split: if_splits)
qed

lemma scoped_posting_known:
  "outcomes w = [] \<Longrightarrow> event_id sig \<in> events w \<Longrightarrow>
    scoped_posting ty code event_id owner (sid, sig, ev, ps) w = (Inr SkippedAlready, w)"
  by (simp add: scoped_posting_def and_then_def already_no_fault ret_def)

text \<open>The amounts of a row are of 128 bits, as those of every row are for columns of 64 bits.\<close>

definition i128_row :: "lifecycle_deltas option option \<Rightarrow> bool" where
  "i128_row d \<longleftrightarrow> (\<forall>sid sig ev ps. d = Some (Some (sid, sig, ev, ps)) \<longrightarrow> i128_postings ps)"

locale posting_scope =
  fixes ty :: string and code event_id :: "string \<Rightarrow> string"
    and deltas :: "json \<Rightarrow> int option \<Rightarrow> int option \<Rightarrow> lifecycle_deltas option option"
    and post :: "json \<Rightarrow> int option \<Rightarrow> int option \<Rightarrow> posting_outcome gl option"
  assumes post_unfold: "post v a b = map_option (\<lambda>d. case d of None \<Rightarrow> ret SkippedNoDeltas
      | Some x \<Rightarrow> scoped_posting ty code event_id (owner_from_lifecycle_json v) x) (deltas v a b)"
    and code_inj: "code x = code y \<Longrightarrow> x = y"
    and event_inj: "trim x = x \<Longrightarrow> trim y = y \<Longrightarrow> event_id x = event_id y \<Longrightarrow> x = y"
    and deltas_wf: "deltas v a b = Some (Some (sid, sig, ev, ps)) \<Longrightarrow> trim sig = sig \<and> ps \<noteq> []"
begin

lemma post_cases:
  assumes "post v a b = Some m"
    and "i128_row (deltas v a b)"
  obtains (none) "deltas v a b = Some None" "m = ret SkippedNoDeltas"
    | (row) sid sig ev ps where "deltas v a b = Some (Some (sid, sig, ev, ps))" "i128_postings ps" "ps \<noteq> []"
      "trim sig = sig" "m = scoped_posting ty code event_id (owner_from_lifecycle_json v) (sid, sig, ev, ps)"
proof -
  from assms(1) obtain d where d: "deltas v a b = Some d" by (auto simp: post_unfold)
  show thesis
  proof (cases d)
    case None
    with assms d none show ?thesis by (simp add: post_unfold)
  next
    case (Some x)
    obtain sid sig ev ps where "x = (sid, sig, ev, ps)" by (cases x)
    with assms d Some row deltas_wf show ?thesis by (simp add: post_unfold i128_row_def)
  qed
qed

lemmas fresh = scoped_posting_fresh [where event_id = event_id and code = code and ty = ty]
lemmas known = scoped_posting_known [where event_id = event_id and code = code and ty = ty]

text \<open>Without faults, posting a row succeeds unless it panics, and posting it again changes nothing.\<close>

lemma posted_twice:
  assumes "outcomes w = []" "gl_consistent w" "post v a b = Some m"
    and "i128_row (deltas v a b)"
  shows "\<exists>r. fst (m w) = Inr r \<and> outcomes (snd (m w)) = [] \<and> gl_consistent (snd (m w)) \<and> snd (m (snd (m w))) = snd (m w)"
  using assms(3,4)
proof (cases rule: post_cases)
  case none
  with assms show ?thesis by (simp add: ret_def)
next
  case (row sid sig ev ps)
  show ?thesis
  proof (cases "event_id sig \<in> events w")
    case True
    with assms row(5) show ?thesis by (simp add: known)
  next
    case False
    obtain w' where w': "m w = (Inr Applied, w')" "outcomes w' = []" "gl_consistent w'"
      "event_id sig \<notin> events w' \<longrightarrow> m w' = (Inr Applied, w')"
      using fresh [OF assms(1,2) row(2,3) False] unfolding row(5) by blast
    have "snd (m w') = w'"
      using w'(2,4) known [of w' sig] unfolding row(5) by (cases "event_id sig \<in> events w'") simp_all
    with w' show ?thesis by simp
  qed
qed

text \<open>A row touches only the account of its scope identifier.\<close>

lemma frame:
  assumes "outcomes w = []" "gl_consistent w" "post v a b = Some m"
    and "i128_row (deltas v a b)"
  shows "(\<forall>c. c \<notin> range code \<longrightarrow> amounts (snd (m w)) c = amounts w c) \<and> events (snd (m w)) \<subseteq> range event_id \<union> events w"
  using assms(3,4)
proof (cases rule: post_cases)
  case none
  then show ?thesis by simp
next
  case (row sid sig ev ps)
  show ?thesis
  proof (cases "event_id sig \<in> events w")
    case True
    with assms row(5) show ?thesis by (simp add: known)
  next
    case False
    then obtain w' where w': "m w = (Inr Applied, w')" "\<forall>c. c \<noteq> code sid \<longrightarrow> amounts w' c = amounts w c"
      "events w' \<subseteq> insert (event_id sig) (events w)"
      using fresh [OF assms(1,2) row(2,3) False, of "owner_from_lifecycle_json v" sid ev] unfolding row(5) by metis
    have "amounts w' c = amounts w c" if "c \<notin> range code" for c using w'(2) that by blast
    with w'(1,3) show ?thesis by auto
  qed
qed

end

interpretation session_scope: posting_scope "''session''" session_account_code lifecycle_posting_event_id
  "session_mint_deltas_from_lifecycle_json ops" "apply_session_postings_from_lifecycle_row ops" for ops :: "'d decimal_json"
proof
  fix v a b
  show "apply_session_postings_from_lifecycle_row ops v a b = map_option (\<lambda>d. case d of None \<Rightarrow> ret SkippedNoDeltas
      | Some x \<Rightarrow> scoped_posting ''session'' session_account_code lifecycle_posting_event_id (owner_from_lifecycle_json v) x)
      (session_mint_deltas_from_lifecycle_json ops v a b)"
    by (cases "session_mint_deltas_from_lifecycle_json ops v a b")
      (auto simp: apply_session_postings_from_lifecycle_row_def apply_session_mint_postings_def
        ensure_session_account_def scoped_posting_def Let_def cong: if_cong split: option.split prod.split)
qed (auto simp: session_account_code_def lifecycle_posting_event_id_def elim!: session_deltas_elim
    dest: non_empty_str_trimmed)

interpretation chain_scope: posting_scope "''chain''" chain_account_code chain_lifecycle_posting_event_id
  "chain_mint_deltas_from_lifecycle_json ops" "apply_chain_postings_from_lifecycle_row ops" for ops :: "'d decimal_json"
proof
  fix v a b
  show "apply_chain_postings_from_lifecycle_row ops v a b = map_option (\<lambda>d. case d of None \<Rightarrow> ret SkippedNoDeltas
      | Some x \<Rightarrow> scoped_posting ''chain'' chain_account_code chain_lifecycle_posting_event_id (owner_from_lifecycle_json v) x)
      (chain_mint_deltas_from_lifecycle_json ops v a b)"
    by (cases "chain_mint_deltas_from_lifecycle_json ops v a b")
      (auto simp: apply_chain_postings_from_lifecycle_row_def apply_chain_mint_postings_def
        ensure_chain_account_def scoped_posting_def Let_def cong: if_cong split: option.split prod.split)
qed (auto simp: chain_account_code_def chain_lifecycle_posting_event_id_def chain_mint_deltas_from_lifecycle_json_def
    elim!: session_deltas_elim dest: non_empty_str_trimmed split: option.splits)

section \<open>Wallet and fee postings leave the scopes alone\<close>

lemma upsert_batch_frame:
  assumes "outcomes w = []" "gl_consistent w" "i128_postings ps"
  shows "\<exists>w'. and_then (db_write (upsert_account c ty code owner sess)) (\<lambda>aid. post_batch aid eid kind ps) w = (Inr (), w')
    \<and> outcomes w' = [] \<and> (\<forall>x. x \<noteq> code \<longrightarrow> amounts w' x = amounts w x) \<and> events w' \<subseteq> insert eid (events w)"
proof -
  define aid w1 where "aid = fst (upsert_account c ty code owner sess w)" and "w1 = snd (upsert_account c ty code owner sess w)"
  have w1: "outcomes w1 = []" "gl_consistent w1" "account_of w1 code = Some aid" "\<And>x. amounts w1 x = amounts w x" "events w1 = events w"
    using assms by (simp_all add: w1_def aid_def upsert_tables consistent_account)
  obtain t where "map_of t = amounts w1 code" using running_balances [OF w1(2,3)] by blast
  from post_batch_no_fault [OF w1(1-3) assms(3) this, of eid kind] w1 show ?thesis
    by (auto simp: and_then_def no_fault [OF assms(1)] aid_def [symmetric] w1_def [symmetric] split: if_splits)
qed

text \<open>Posting once in the guard of an event identifier.\<close>

lemma guarded_frame:
  assumes "outcomes w = []" "m w = (Inr (), w')" "outcomes w' = []" "\<forall>x. x \<noteq> code \<longrightarrow> amounts w' x = amounts w x"
    "events w' \<subseteq> insert eid (events w)"
  shows "let w2 = snd (and_then (session_lifecycle_posting_already_applied eid)
      (\<lambda>already. if already then ret SkippedAlready else and_then m (\<lambda>_. ret Applied)) w) in
    outcomes w2 = [] \<and> (\<forall>x. x \<noteq> code \<longrightarrow> amounts w2 x = amounts w x) \<and> events w2 \<subseteq> insert eid (events w)"
  using assms by (auto simp: and_then_def already_no_fault ret_def)

lemma fee_as_batch:
  "0 < fee \<Longrightarrow> post_batch aid eid kind [(m, uint (fee :: u64))] =
    and_then (apply_balance_delta aid m (uint fee) eid kind) (\<lambda>_. ret ())"
  by (simp add: word_gt_0 uint_0_iff)

lemma and_then_ret: "and_then (ret x) k = k x"
  by (simp add: fun_eq_iff and_then_def ret_def)

lemma and_then_assoc: "and_then m (\<lambda>a. and_then (k a) r) = and_then (and_then m k) r"
  by (auto simp: fun_eq_iff and_then_def split: prod.split sum.split)

text \<open>A step that leaves the SESSION and CHAIN accounts and the lifecycle events alone.\<close>

definition outside_scopes :: "gl_world \<Rightarrow> gl_world \<Rightarrow> bool" where
  "outside_scopes w w' \<longleftrightarrow> outcomes w' = []
    \<and> (\<forall>x. x \<noteq> TX_FEE_ACCOUNT_CODE \<longrightarrow> \<not> prefix ''WALLET:'' x \<longrightarrow> amounts w' x = amounts w x)
    \<and> events w' \<subseteq> {x. prefix ''tx_fee:'' x \<or> prefix ''wallet_journal:'' x \<or> prefix ''opening_import:'' x} \<union> events w"

lemma wallet_code_prefix: "\<not> prefix ''WALLET:'' x \<Longrightarrow> x \<noteq> wallet_account_code owner"
  by (auto simp: wallet_account_code_def)

lemma import_event: "prefix ''opening_import:'' (wallet_opening_import_event_id owner)"
  by (simp add: wallet_opening_import_event_id_def)

lemma outside_refl: "outcomes w = [] \<Longrightarrow> outside_scopes w w"
  by (simp add: outside_scopes_def)

lemma fee_frame:
  assumes w: "outcomes w = []" "gl_consistent w"
  shows "outside_scopes w (gl_step ops w (PostTxFee v))"
proof (cases "tx_fee_lamports_from_lifecycle_json v")
  case None
  with w show ?thesis by (simp add: outside_refl gl_step_def apply_tx_fee_posting_from_lifecycle_row_def)
next
  case fee: (Some fee)
  then have pos: "0 < fee" by (auto simp: tx_fee_lamports_from_lifecycle_json_def split: option.splits if_splits)
  show ?thesis
  proof (cases "non_empty_str (json_get ''signature'' v)")
    case None
    with fee w show ?thesis by (simp add: outside_refl gl_step_def apply_tx_fee_posting_from_lifecycle_row_def)
  next
    case (Some sig)
    let ?eid = "tx_fee_posting_event_id sig"
    let ?m = "and_then (ensure_tx_fee_account (owner_from_lifecycle_json v)) (\<lambda>aid.
        post_batch aid ?eid ''tx_fee'' [(WSOL_MINT, int (unat fee))])"
    have i: "i128_postings [(WSOL_MINT, int (unat fee))]" by (simp add: i128_postings_def i128_uint)
    obtain w' where w': "?m w = (Inr (), w')" "outcomes w' = []"
      "\<forall>x. x \<noteq> TX_FEE_ACCOUNT_CODE \<longrightarrow> amounts w' x = amounts w x" "events w' \<subseteq> insert ?eid (events w)"
      using upsert_batch_frame [OF w i] unfolding ensure_tx_fee_account_def by blast
    have "gl_step ops w (PostTxFee v) = snd (and_then (session_lifecycle_posting_already_applied ?eid)
        (\<lambda>already. if already then ret SkippedAlready else and_then ?m (\<lambda>_. ret Applied)) w)"
      using Some fee
      by (simp add: gl_step_def apply_tx_fee_posting_from_lifecycle_row_def Let_def and_then_ret
          fee_as_batch [OF pos] and_then_assoc [symmetric] cong: if_cong del: post_batch.simps)
    with guarded_frame [of w ?m, OF w(1) w'] show ?thesis
      by (auto simp: outside_scopes_def Let_def event_id_defs simp del: post_batch.simps)
  qed
qed

lemma wallet_frame:
  assumes w: "outcomes w = []" "gl_consistent w" and ps: "i128_postings ps"
  shows "\<exists>w'. apply_wallet_mint_postings owner eid kind ps w = (Inr (), w') \<and> outcomes w' = []
    \<and> (\<forall>x. x \<noteq> wallet_account_code (trim owner) \<longrightarrow> amounts w' x = amounts w x) \<and> events w' \<subseteq> insert eid (events w)"
proof (cases "ps = []")
  case True
  with w show ?thesis by (auto simp: apply_wallet_mint_postings_def ret_def)
next
  case False
  then have "apply_wallet_mint_postings owner eid kind ps = and_then (db_write (upsert_account True ''wallet''
      (wallet_account_code (trim owner)) (Some (trim owner)) None)) (\<lambda>aid. post_batch aid eid kind ps)"
    by (simp add: apply_wallet_mint_postings_def ensure_wallet_account_def)
  with upsert_batch_frame [OF w ps] show ?thesis by simp
qed

lemma wallet_op_frame:
  assumes w: "outcomes w = []" "gl_consistent w" and "wf_op (PostWallet owner eid kind ps)"
  shows "outside_scopes w (gl_step ops w (PostWallet owner eid kind ps))"
proof -
  from assms(3) have ps: "i128_postings ps" "prefix ''wallet_journal:'' eid" by simp_all
  obtain w' where "apply_wallet_mint_postings owner eid kind ps w = (Inr (), w')" "outcomes w' = []"
    "\<forall>x. x \<noteq> wallet_account_code (trim owner) \<longrightarrow> amounts w' x = amounts w x" "events w' \<subseteq> insert eid (events w)"
    using wallet_frame [OF w ps(1)] by blast
  with ps(2) show ?thesis
    by (auto simp: outside_scopes_def gl_step_def and_then_def ret_def dest: wallet_code_prefix)
qed

lemma import_frame:
  assumes w: "outcomes w = []" "gl_consistent w" and "wf_op (ImportWallet owner ps)"
  shows "outside_scopes w (gl_step ops w (ImportWallet owner ps))"
proof (cases "ps = []")
  case True
  with w show ?thesis by (simp add: outside_refl gl_step_def apply_wallet_opening_import_def)
next
  case False
  let ?eid = "wallet_opening_import_event_id owner"
  obtain w' where w': "apply_wallet_mint_postings owner ?eid ''opening_import'' ps w = (Inr (), w')" "outcomes w' = []"
    "\<forall>x. x \<noteq> wallet_account_code (trim owner) \<longrightarrow> amounts w' x = amounts w x" "events w' \<subseteq> insert ?eid (events w)"
    using wallet_frame [OF w, of ps owner ?eid "''opening_import''"] assms(3) by auto
  from guarded_frame [where m = "apply_wallet_mint_postings owner ?eid ''opening_import'' ps", OF w(1) w'] False import_event
  show ?thesis
    by (auto simp: outside_scopes_def gl_step_def apply_wallet_opening_import_def Let_def
        dest: wallet_code_prefix)
qed

lemmas outside_frames = fee_frame wallet_op_frame import_frame

section \<open>Sequences of operations\<close>

text \<open>The specification of a scope: the sums over the rows of one scope identifier.\<close>

fun scope_sums ::
    "(json \<Rightarrow> int option \<Rightarrow> int option \<Rightarrow> lifecycle_deltas option option) \<Rightarrow> string \<Rightarrow> int btree \<Rightarrow> lifecycle_row list \<Rightarrow> int btree" where
  "scope_sums deltas sid t [] = t"
| "scope_sums deltas sid t ((v, a, b) # rows) =
     (case deltas v a b of
        Some (Some (s, _, ev, ps)) \<Rightarrow>
          scope_sums deltas sid (if s = sid then apply_capped_postings_to_sums t ev ps else t) rows
      | _ \<Rightarrow> scope_sums deltas sid t rows)"

definition row_signatures ::
    "(json \<Rightarrow> int option \<Rightarrow> int option \<Rightarrow> lifecycle_deltas option option) \<Rightarrow> lifecycle_row list \<Rightarrow> string list" where
  "row_signatures deltas rows = List.map_filter (\<lambda>(v, a, b). case deltas v a b of
     Some (Some (_, sig, _, _)) \<Rightarrow> Some sig | _ \<Rightarrow> None) rows"

lemma row_signatures_simps [simp]:
  "row_signatures deltas [] = []"
  "row_signatures deltas ((v, a, b) # rows) =
     (case deltas v a b of Some (Some (_, sig, _, _)) \<Rightarrow> sig # row_signatures deltas rows | _ \<Rightarrow> row_signatures deltas rows)"
  by (auto simp: row_signatures_def List.map_filter_def split: option.split)

locale ledger_scope = posting_scope ty code event_id deltas post
  for ty code event_id deltas post +
  fixes ops :: "'d decimal_json" and own :: "gl_op \<Rightarrow> lifecycle_row option"
  assumes own_run: "own e = Some (v, a, b) \<Longrightarrow> gl_run ops e = post v a b"
    and own_i128: "to_i128_law ops \<Longrightarrow> wf_op e \<Longrightarrow> own e = Some (v, a, b) \<Longrightarrow> i128_row (deltas v a b)"
    and foreign: "to_i128_law ops \<Longrightarrow> own e = None \<Longrightarrow> wf_op e \<Longrightarrow> outcomes w = [] \<Longrightarrow> gl_consistent w \<Longrightarrow>
      outcomes (gl_step ops w e) = [] \<and> amounts (gl_step ops w e) (code sid) = amounts w (code sid)
      \<and> (\<forall>sig. event_id sig \<in> events (gl_step ops w e) \<longrightarrow> event_id sig \<in> events w)"
begin

lemma sigs_trimmed: "s \<in> set (row_signatures deltas rows) \<Longrightarrow> trim s = s"
  by (induction rows) (auto split: option.splits dest: deltas_wf)

lemma own_step:
  assumes law: "to_i128_law ops" and e: "wf_op e" "own e = Some (v, a, b)" and w: "outcomes w = []" "gl_consistent w"
    and new: "\<forall>s \<in> set (row_signatures deltas [(v, a, b)]). event_id s \<notin> events w" and t: "map_of t = amounts w (code sid)"
  shows "outcomes (gl_step ops w e) = [] \<and> amounts (gl_step ops w e) (code sid) = map_of (scope_sums deltas sid t [(v, a, b)])
    \<and> events (gl_step ops w e) \<subseteq> event_id ` set (row_signatures deltas [(v, a, b)]) \<union> events w"
proof (cases "post v a b")
  case None
  then have "deltas v a b = None" by (simp add: post_unfold)
  with None e w t show ?thesis by (simp add: gl_step_def own_run)
next
  case (Some m)
  then have step: "gl_step ops w e = snd (m w)" using e by (simp add: gl_step_def own_run)
  from Some own_i128 [OF law e] show ?thesis
  proof (cases rule: post_cases)
    case none
    with w t step show ?thesis by simp
  next
    case (row s sig ev ps)
    have "event_id sig \<notin> events w" using new row(1) by simp
    from fresh [OF w row(2,3) this, of "owner_from_lifecycle_json v" s ev]
    obtain w' where w': "m w = (Inr Applied, w')" "outcomes w' = []"
      "\<forall>t. map_of t = amounts w (code s) \<longrightarrow> amounts w' (code s) = map_of (apply_capped_postings_to_sums t ev ps)"
      "\<forall>c. c \<noteq> code s \<longrightarrow> amounts w' c = amounts w c" "events w' \<subseteq> insert (event_id sig) (events w)"
      unfolding row(5) by metis
    have "amounts w' (code sid) = map_of (if s = sid then apply_capped_postings_to_sums t ev ps else t)"
      using w'(3,4) t code_inj [of sid s] by auto
    with w' row(1) step show ?thesis by auto
  qed
qed

lemma refines:
  assumes law: "to_i128_law ops"
  shows "list_all wf_op es \<Longrightarrow> outcomes w = [] \<Longrightarrow> gl_consistent w \<Longrightarrow> map_of t = amounts w (code sid)
    \<Longrightarrow> distinct (row_signatures deltas (List.map_filter own es))
    \<Longrightarrow> \<forall>s \<in> set (row_signatures deltas (List.map_filter own es)). trim s = s \<and> event_id s \<notin> events w
    \<Longrightarrow> outcomes (foldl (gl_step ops) w es) = [] \<and>
       amounts (foldl (gl_step ops) w es) (code sid) = map_of (scope_sums deltas sid t (List.map_filter own es))"
proof (induction es arbitrary: w t)
  case Nil
  then show ?case by (simp add: List.map_filter_def)
next
  case (Cons e es)
  let ?w = "gl_step ops w e"
  from Cons.prems have e: "wf_op e" "list_all wf_op es" by simp_all
  have con: "gl_consistent ?w" by (rule consistency.gl_step [OF law e(1) Cons.prems(3)])
  show ?case
  proof (cases "own e")
    case None
    then have rows: "List.map_filter own (e # es) = List.map_filter own es" by (simp add: List.map_filter_def)
    note f = foreign [OF law None e(1) Cons.prems(2,3)]
    show ?thesis
      using Cons.IH [OF e(2) _ con, of t] f Cons.prems(4-6) unfolding rows by fastforce
  next
    case (Some row)
    obtain v a b where row: "row = (v, a, b)" by (cases row)
    let ?rest = "List.map_filter own es"
    have rows: "List.map_filter own (e # es) = (v, a, b) # ?rest" using Some row by (simp add: List.map_filter_def)
    have sigs: "row_signatures deltas ((v, a, b) # ?rest) = row_signatures deltas [(v, a, b)] @ row_signatures deltas ?rest"
      by (simp split: option.split)
    have sums: "scope_sums deltas sid t ((v, a, b) # ?rest) = scope_sums deltas sid (scope_sums deltas sid t [(v, a, b)]) ?rest"
      by (simp split: option.split)
    note prems = Cons.prems(5,6) [unfolded rows sigs]
    have step: "outcomes ?w = []" "amounts ?w (code sid) = map_of (scope_sums deltas sid t [(v, a, b)])"
      "events ?w \<subseteq> event_id ` set (row_signatures deltas [(v, a, b)]) \<union> events w"
      using own_step [OF law e(1) _ Cons.prems(2,3) _ Cons.prems(4)] Some row prems(2) by simp_all
    have "event_id s \<notin> events ?w" if s: "s \<in> set (row_signatures deltas ?rest)" for s
    proof
      assume "event_id s \<in> events ?w"
      with step(3) prems(2) s obtain s' where "s' \<in> set (row_signatures deltas [(v, a, b)])" "event_id s = event_id s'"
        by auto
      with event_inj [of s s'] prems s show False by auto
    qed
    with Cons.IH [OF e(2) step(1) con step(2) [symmetric]] prems show ?thesis
      unfolding rows sums by simp
  qed
qed

end

fun session_row :: "gl_op \<Rightarrow> lifecycle_row option" where
  "session_row (PostSession v a b) = Some (v, a, b)"
| "session_row _ = None"

fun chain_row :: "gl_op \<Rightarrow> lifecycle_row option" where
  "chain_row (PostChain v a b) = Some (v, a, b)"
| "chain_row _ = None"

lemma scope_codes:
  "session_account_code x \<noteq> TX_FEE_ACCOUNT_CODE" "\<not> prefix ''WALLET:'' (session_account_code x)"
  "chain_account_code x \<noteq> TX_FEE_ACCOUNT_CODE" "\<not> prefix ''WALLET:'' (chain_account_code x)"
  "session_account_code x \<noteq> chain_account_code y" "chain_account_code x \<noteq> session_account_code y"
  by (simp_all add: account_code_defs)

lemma scope_events:
  "\<not> prefix ''tx_fee:'' (lifecycle_posting_event_id s)" "\<not> prefix ''wallet_journal:'' (lifecycle_posting_event_id s)"
  "\<not> prefix ''opening_import:'' (lifecycle_posting_event_id s)"
  "\<not> prefix ''tx_fee:'' (chain_lifecycle_posting_event_id s)" "\<not> prefix ''wallet_journal:'' (chain_lifecycle_posting_event_id s)"
  "\<not> prefix ''opening_import:'' (chain_lifecycle_posting_event_id s)"
  "lifecycle_posting_event_id s \<noteq> chain_lifecycle_posting_event_id s'"
  "chain_lifecycle_posting_event_id s \<noteq> lifecycle_posting_event_id s'"
  by (simp_all add: event_id_defs)

lemma session_i128_row:
  "to_i128_law ops \<Longrightarrow> pred_option is_i128 a \<Longrightarrow> pred_option is_i128 b \<Longrightarrow>
    i128_row (session_mint_deltas_from_lifecycle_json ops v a b)"
  unfolding i128_row_def using session_deltas_i128 by blast

lemma chain_i128_row:
  "to_i128_law ops \<Longrightarrow> pred_option is_i128 a \<Longrightarrow> pred_option is_i128 b \<Longrightarrow>
    i128_row (chain_mint_deltas_from_lifecycle_json ops v a b)"
  unfolding i128_row_def using chain_deltas_i128 by blast

lemma outside_session:
  "outside_scopes w w' \<Longrightarrow> outcomes w' = [] \<and> amounts w' (session_account_code sid) = amounts w (session_account_code sid)
    \<and> (\<forall>sig. lifecycle_posting_event_id sig \<in> events w' \<longrightarrow> lifecycle_posting_event_id sig \<in> events w)"
  by (auto simp: outside_scopes_def scope_codes scope_events dest!: subsetD)

lemma outside_chain:
  "outside_scopes w w' \<Longrightarrow> outcomes w' = [] \<and> amounts w' (chain_account_code sid) = amounts w (chain_account_code sid)
    \<and> (\<forall>sig. chain_lifecycle_posting_event_id sig \<in> events w' \<longrightarrow> chain_lifecycle_posting_event_id sig \<in> events w)"
  by (auto simp: outside_scopes_def scope_codes scope_events dest!: subsetD)

lemma session_foreign:
  assumes "to_i128_law ops" "session_row e = None" "wf_op e" "outcomes w = []" "gl_consistent w"
  shows "outcomes (gl_step ops w e) = [] \<and> amounts (gl_step ops w e) (session_account_code sid) = amounts w (session_account_code sid)
    \<and> (\<forall>sig. lifecycle_posting_event_id sig \<in> events (gl_step ops w e) \<longrightarrow> lifecycle_posting_event_id sig \<in> events w)"
proof (cases e)
  case (PostChain v a b)
  show ?thesis
  proof (cases "apply_chain_postings_from_lifecycle_row ops v a b")
    case (Some m)
    have i: "i128_row (chain_mint_deltas_from_lifecycle_json ops v a b)"
      using assms(1,3) PostChain by (auto intro: chain_i128_row)
    have "session_account_code sid \<notin> range chain_account_code" using scope_codes by auto
    with chain_scope.frame [OF assms(4,5) Some i] chain_scope.posted_twice [OF assms(4,5) Some i] PostChain Some
    show ?thesis by (auto simp: gl_step_def scope_events dest!: subsetD)
  qed (use PostChain assms in \<open>simp add: gl_step_def\<close>)
qed (use assms in \<open>auto intro!: outside_session outside_frames simp del: gl_run.simps\<close>)

lemma chain_foreign:
  assumes "to_i128_law ops" "chain_row e = None" "wf_op e" "outcomes w = []" "gl_consistent w"
  shows "outcomes (gl_step ops w e) = [] \<and> amounts (gl_step ops w e) (chain_account_code sid) = amounts w (chain_account_code sid)
    \<and> (\<forall>sig. chain_lifecycle_posting_event_id sig \<in> events (gl_step ops w e) \<longrightarrow> chain_lifecycle_posting_event_id sig \<in> events w)"
proof (cases e)
  case (PostSession v a b)
  show ?thesis
  proof (cases "apply_session_postings_from_lifecycle_row ops v a b")
    case (Some m)
    have i: "i128_row (session_mint_deltas_from_lifecycle_json ops v a b)"
      using assms(1,3) PostSession by (auto intro: session_i128_row)
    have "chain_account_code sid \<notin> range session_account_code" using scope_codes by auto
    with session_scope.frame [OF assms(4,5) Some i] session_scope.posted_twice [OF assms(4,5) Some i] PostSession Some
    show ?thesis by (auto simp: gl_step_def scope_events dest!: subsetD)
  qed (use PostSession assms in \<open>simp add: gl_step_def\<close>)
qed (use assms in \<open>auto intro!: outside_chain outside_frames simp del: gl_run.simps\<close>)

interpretation session_ledger: ledger_scope "''session''" session_account_code lifecycle_posting_event_id
  "session_mint_deltas_from_lifecycle_json ops" "apply_session_postings_from_lifecycle_row ops" ops session_row
  for ops :: "'d decimal_json"
proof
  fix e v a b
  assume "session_row e = Some (v, a, b)"
  then have e: "e = PostSession v a b" by (cases e) simp_all
  then show "gl_run ops e = apply_session_postings_from_lifecycle_row ops v a b" by simp
  show "to_i128_law ops \<Longrightarrow> wf_op e \<Longrightarrow> i128_row (session_mint_deltas_from_lifecycle_json ops v a b)"
    using e by (auto intro: session_i128_row)
qed (rule session_foreign)

interpretation chain_ledger: ledger_scope "''chain''" chain_account_code chain_lifecycle_posting_event_id
  "chain_mint_deltas_from_lifecycle_json ops" "apply_chain_postings_from_lifecycle_row ops" ops chain_row
  for ops :: "'d decimal_json"
proof
  fix e v a b
  assume "chain_row e = Some (v, a, b)"
  then have e: "e = PostChain v a b" by (cases e) simp_all
  then show "gl_run ops e = apply_chain_postings_from_lifecycle_row ops v a b" by simp
  show "to_i128_law ops \<Longrightarrow> wf_op e \<Longrightarrow> i128_row (chain_mint_deltas_from_lifecycle_json ops v a b)"
    using e by (auto intro: chain_i128_row)
qed (rule chain_foreign)

section \<open>The ledger agrees with the lifecycle rows\<close>

lemma session_deltas_sid:
  "session_mint_deltas_from_lifecycle_json ops v a b = Some (Some (s, sig, ev, ps)) \<Longrightarrow> trim s = s \<and> trim sig = sig"
  by (auto elim!: session_deltas_elim dest: non_empty_str_trimmed)

lemma aggregate_session_scope:
  "aggregate_session_loop ops sid t rows = Some t' \<Longrightarrow>
    scope_sums (session_mint_deltas_from_lifecycle_json ops) sid t rows = t'"
proof (induction ops sid t rows rule: aggregate_session_loop.induct)
  case (2 ops sid t v a b rows)
  from 2(4) obtain d where d: "session_mint_deltas_from_lifecycle_json ops v a b = Some d" by (auto simp: bind_eq_Some_conv)
  with 2 session_deltas_sid show ?case
    by (cases d) (fastforce split: if_splits)+
qed simp

lemma chain_deltas_sid:
  assumes "chain_mint_deltas_from_lifecycle_json ops v a b = Some (Some (s, sig, ev, ps))"
  shows "chain_session_id_from_lifecycle_json v = Some s \<and> trim s = s \<and> trim sig = sig"
proof -
  obtain c where c: "chain_session_id_from_lifecycle_json v = Some c"
    and d: "session_mint_deltas_from_lifecycle_json ops (json_insert ''rebalance_session_id'' (JString c) v) a b
      = Some (Some (s, sig, ev, ps))"
    using assms by (auto simp: chain_mint_deltas_from_lifecycle_json_def split: option.splits)
  have "as_object v \<noteq> None"
    using c by (cases v) (auto simp: chain_session_id_from_lifecycle_json_def non_empty_str_def)
  moreover have "trim c = c \<and> c \<noteq> []"
    using c by (auto simp: chain_session_id_from_lifecycle_json_def or_else_cases dest: non_empty_str_trimmed)
  ultimately have "s = c"
    using d by (auto elim!: session_deltas_elim simp: non_empty_str_def)
  with c session_deltas_sid [OF d] show ?thesis by simp
qed

lemma chain_id_trimmed: "chain_session_id_from_lifecycle_json v = Some c \<Longrightarrow> trim c = c"
  by (auto simp: chain_session_id_from_lifecycle_json_def or_else_cases dest: non_empty_str_trimmed)

lemma aggregate_chain_scope:
  "aggregate_chain_loop ops cid t rows = Some t' \<Longrightarrow>
    \<forall>(v, a, b) \<in> set rows. chain_session_id_from_lifecycle_json v \<noteq> None \<Longrightarrow>
    scope_sums (chain_mint_deltas_from_lifecycle_json ops) cid t rows = t'"
proof (induction rows arbitrary: t)
  case (Cons row rows)
  obtain v a b where row: "row = (v, a, b)" by (cases row)
  with Cons.prems(2) obtain c where c: "chain_session_id_from_lifecycle_json v = Some c" by auto
  then have same: "ensure_chain_session_id_on_lifecycle_row v cid = v" and "trim c = c"
    by (simp_all add: ensure_chain_session_id_on_lifecycle_row_def chain_id_trimmed)
  show ?case
  proof (cases "chain_mint_deltas_from_lifecycle_json ops v a b")
    case None
    with Cons row c same \<open>trim c = c\<close> show ?thesis by (auto simp: Let_def split: if_splits)
  next
    case (Some d)
    show ?thesis
    proof (cases d)
      case None
      with Some Cons row c same \<open>trim c = c\<close> show ?thesis by (auto simp: Let_def split: if_splits)
    next
      case x: (Some x)
      obtain s sig ev ps where [simp]: "x = (s, sig, ev, ps)" by (cases x)
      from chain_deltas_sid [of ops v a b s sig ev ps] Some x c have "s = c" by simp
      with Some x Cons row c same \<open>trim c = c\<close> show ?thesis by (auto simp: Let_def split: if_splits)
    qed
  qed
qed simp

lemma select_amounts:
  assumes w: "gl_consistent w"
  shows "bt_wf (select_balances code None w)"
    and "map_of (select_balances code None w) = (\<lambda>m. map_option format_raw_i128 (amounts w code m))"
proof -
  show "bt_wf (select_balances code None w)"
    by (auto simp: select_balances_def intro: bt_wf_collect split: option.split)
  have form: "format_raw_i128 (parse_or_zero (amount_raw b)) = amount_raw b"
    if "map_of (gl_balances w) (aid, m) = Some b" for aid m b
  proof -
    have "map_option amount_raw (map_of (gl_balances w) (aid, m)) = (if posted_deltas w aid m = [] then None
        else Some (format_raw_i128 (foldl saturating_add_i128 0 (posted_deltas w aid m))))"
      using w by (simp add: gl_consistent_def)
    with that show ?thesis by (auto simp: is_i128_foldl split: if_splits)
  qed
  show "map_of (select_balances code None w) = (\<lambda>m. map_option format_raw_i128 (amounts w code m))"
    using w by (auto simp: select_balances_def amounts_def account_of_def fun_eq_iff gl_consistent_def collect_map form
        split: option.split)
qed

lemma bt_wf_scope_sums: "wf_sums t \<Longrightarrow> wf_sums (scope_sums deltas sid t rows)"
  by (induction deltas sid t rows rule: scope_sums.induct) (auto split: option.splits)

lemma amounts_read:
  assumes w: "gl_consistent w" and t: "wf_sums t" "amounts w code = map_of t"
  shows "select_balances code None w = map (\<lambda>(m, v). (m, format_raw_i128 v)) t"
proof (rule bt_ext)
  have keys: "map fst (map (\<lambda>(m, v). (m, format_raw_i128 v)) t) = map fst t" by (simp add: case_prod_unfold)
  from t(1) show "bt_wf (map (\<lambda>(m, v). (m, format_raw_i128 v)) t)" unfolding bt_wf_def wf_sums_def keys by simp
  show "map_of (select_balances code None w) = map_of (map (\<lambda>(m, v). (m, format_raw_i128 v)) t)"
    using select_amounts(2) [OF w] t(2) by (simp add: map_of_map fun_eq_iff)
qed (rule select_amounts(1) [OF w])

lemma empty_amounts [simp]: "amounts (empty_ledger rs) code = Map.empty" "events (empty_ledger rs) = {}"
  "outcomes (empty_ledger rs) = rs"
  by (simp_all add: amounts_def account_of_def events_def empty_ledger_def fun_eq_iff)

lemma session_balances_of_rows:
  assumes "to_i128_law ops" and "list_all wf_op es" and "trim sid = sid"
    and "distinct (row_signatures (session_mint_deltas_from_lifecycle_json ops) (List.map_filter session_row es))"
    and "aggregate_session_sums_from_lifecycle_rows ops (List.map_filter session_row es) sid = Some t"
  shows "fst (read_session_balances sid None (foldl (gl_step ops) (empty_ledger []) es)) =
    Inr (map (\<lambda>(m, v). (m, format_raw_i128 v)) t)"
proof -
  let ?rows = "List.map_filter session_row es" and ?w = "foldl (gl_step ops) (empty_ledger []) es"
  let ?d = "session_mint_deltas_from_lifecycle_json ops"
  have t: "scope_sums ?d sid [] ?rows = t"
    using assms(3,5) by (simp add: aggregate_session_sums_from_lifecycle_rows_def aggregate_session_scope)
  have sigs: "\<forall>s \<in> set (row_signatures ?d ?rows). trim s = s" using session_ledger.sigs_trimmed by blast
  have "outcomes ?w = [] \<and> amounts ?w (session_account_code sid) = map_of t"
    using session_ledger.refines [OF assms(1,2), of "empty_ledger []" "[]" sid] assms(4) t sigs by simp
  moreover have "gl_consistent ?w" by (intro consistency.steps assms empty_consistent)
  moreover have "wf_sums t" using bt_wf_scope_sums [of "[]" ?d sid ?rows] t by simp
  ultimately show ?thesis
    by (simp add: read_session_balances_def no_fault owner_filter_def amounts_read)
qed

text \<open>C1. The ledger implements the lifecycle: starting from an empty database that answers every
  request, after any interleaving of postings to sessions, chains, wallets and the fee account, in
  which no two session rows share a signature, reading the balances of a session returns exactly
  the amounts aggregated from its lifecycle rows, mint by mint.\<close>

theorem session_ledger_refines_rows:
  assumes "to_i128_law ops" and "list_all wf_op es" and "trim sid = sid"
    and "distinct (row_signatures (session_mint_deltas_from_lifecycle_json ops) (List.map_filter session_row es))"
    and "aggregate_session_sums_from_lifecycle_rows ops (List.map_filter session_row es) sid = Some t"
  shows "fst (read_session_balances sid None (foldl (gl_step ops) (empty_ledger []) es)) =
    Inr (map (\<lambda>(m, v). (m, format_raw_i128 v)) t)"
  by (rule session_balances_of_rows [OF assms])

text \<open>The same for chains of sessions, for rows that carry their chain identifier.\<close>

theorem chain_ledger_refines_rows:
  assumes "to_i128_law ops" and "list_all wf_op es" and "trim cid = cid"
    and "distinct (row_signatures (chain_mint_deltas_from_lifecycle_json ops) (List.map_filter chain_row es))"
    and "\<forall>(v, a, b) \<in> set (List.map_filter chain_row es). chain_session_id_from_lifecycle_json v \<noteq> None"
    and "aggregate_chain_sums_from_lifecycle_rows ops (List.map_filter chain_row es) cid = Some t"
  shows "fst (read_chain_balances cid None (foldl (gl_step ops) (empty_ledger []) es)) =
    Inr (map (\<lambda>(m, v). (m, format_raw_i128 v)) t)"
proof -
  let ?rows = "List.map_filter chain_row es" and ?w = "foldl (gl_step ops) (empty_ledger []) es"
  let ?d = "chain_mint_deltas_from_lifecycle_json ops"
  have t: "scope_sums ?d cid [] ?rows = t"
    using assms(3,5,6) by (simp add: aggregate_chain_sums_from_lifecycle_rows_def aggregate_chain_scope)
  have sigs: "\<forall>s \<in> set (row_signatures ?d ?rows). trim s = s" using chain_ledger.sigs_trimmed by blast
  have "outcomes ?w = [] \<and> amounts ?w (chain_account_code cid) = map_of t"
    using chain_ledger.refines [OF assms(1,2), of "empty_ledger []" "[]" cid] assms(4) t sigs by simp
  moreover have "gl_consistent ?w" by (intro consistency.steps assms empty_consistent)
  moreover have "wf_sums t" using bt_wf_scope_sums [of "[]" ?d cid ?rows] t by simp
  ultimately show ?thesis
    by (simp add: read_chain_balances_def no_fault owner_filter_def amounts_read)
qed

theorem session_ledger_refines_rows_witness:
  "fst (read_session_balances ''s'' None (foldl (gl_step rat_json) (empty_ledger [])
     [PostSession (close_row ''s'' ''x'' 100 ''5'') None None,
      PostWallet ''me'' ''wallet_journal:1'' ''transfer'' [(''A'', 5)],
      PostSession (open_row ''s'' ''y'' 90 30) None None])) = Inr [(''A'', ''17''), (''B'', ''0'')]"
proof -
  let ?es = "[PostSession (close_row ''s'' ''x'' 100 ''5'') None None,
      PostWallet ''me'' ''wallet_journal:1'' ''transfer'' [(''A'', 5)],
      PostSession (open_row ''s'' ''y'' 90 30) None None]"
  have rows: "List.map_filter session_row ?es =
      [(close_row ''s'' ''x'' 100 ''5'', None, None), (open_row ''s'' ''y'' 90 30, None, None)]"
    by (simp add: List.map_filter_def)
  have "list_all wf_op ?es" by (simp add: i128_postings_def i128_defs)
  moreover have "trim ''s'' = ''s''" by (simp add: trim_def is_space_def)
  moreover have "distinct (row_signatures (session_mint_deltas_from_lifecycle_json rat_json) (List.map_filter session_row ?es))"
    unfolding rows by (simp add: close_row_deltas open_row_deltas)
  moreover have "aggregate_session_sums_from_lifecycle_rows rat_json (List.map_filter session_row ?es) ''s''
      = Some [(''A'', 17), (''B'', 0)]"
    unfolding rows by (rule session_rows_example)
  ultimately have "fst (read_session_balances ''s'' None (foldl (gl_step rat_json) (empty_ledger []) ?es)) =
      Inr (map (\<lambda>(m, v). (m, format_raw_i128 v)) [(''A'', 17), (''B'', 0)])"
    by (rule session_ledger_refines_rows [OF rat_json_i128])
  moreover have "format_raw_i128 17 = ''17''" "format_raw_i128 0 = ''0''" by code_simp+
  ultimately show ?thesis by simp
qed

section \<open>Posting a row again\<close>

lemma outcomes_step:
  assumes "to_i128_law ops" "wf_op e" "outcomes w = []" "gl_consistent w"
  shows "outcomes (gl_step ops w e) = []"
proof (cases "session_row e")
  case None
  with session_foreign [OF assms(1) _ assms(2-4)] show ?thesis by blast
next
  case (Some row)
  then obtain v a b where e: "e = PostSession v a b" by (cases e) auto
  show ?thesis
  proof (cases "apply_session_postings_from_lifecycle_row ops v a b")
    case (Some m)
    have "i128_row (session_mint_deltas_from_lifecycle_json ops v a b)"
      using assms(1,2) e by (auto intro: session_i128_row)
    with session_scope.posted_twice [OF assms(3,4) Some] Some e show ?thesis by (auto simp: gl_step_def)
  qed (simp add: e gl_step_def assms)
qed

lemma outcomes_steps:
  "to_i128_law ops \<Longrightarrow> list_all wf_op es \<Longrightarrow> outcomes w = [] \<Longrightarrow> gl_consistent w \<Longrightarrow> outcomes (foldl (gl_step ops) w es) = []"
  by (induction es arbitrary: w) (auto simp: outcomes_step consistency.gl_step)

text \<open>The identifier under which the amounts of a row are recorded.\<close>

fun row_event_id :: "'d decimal_json \<Rightarrow> gl_op \<Rightarrow> string option" where
  "row_event_id ops (PostSession v a b) =
     (case session_mint_deltas_from_lifecycle_json ops v a b of
        Some (Some (sid, sig, ev, ps)) \<Rightarrow> Some (lifecycle_posting_event_id sig) | _ \<Rightarrow> None)"
| "row_event_id ops (PostChain v a b) =
     (case chain_mint_deltas_from_lifecycle_json ops v a b of
        Some (Some (sid, sig, ev, ps)) \<Rightarrow> Some (chain_lifecycle_posting_event_id sig) | _ \<Rightarrow> None)"
| "row_event_id ops _ = None"

text \<open>A recorded event stays recorded, whatever is posted and whichever requests fail.\<close>

interpretation recorded: ledger_property "\<lambda>w. eid \<in> events w" for eid
proof
  show "eid \<in> events w \<Longrightarrow> eid \<in> events (w\<lparr>outcomes := rs\<rparr>)" for w rs by (simp add: events_def)
qed simp_all

context posting_scope
begin

lemma recorded_row_skipped:
  assumes "outcomes w = []" and "post v a b = Some m" and "i128_row (deltas v a b)"
    and "\<forall>sid sig ev ps. deltas v a b = Some (Some (sid, sig, ev, ps)) \<longrightarrow> event_id sig \<in> events w"
  shows "snd (m w) = w"
  using assms(2,3)
proof (cases rule: post_cases)
  case none
  then show ?thesis by (simp add: ret_def)
next
  case (row sid sig ev ps)
  then show ?thesis using assms(1,4) by (simp add: known)
qed

end

text \<open>C15. Posting a lifecycle row again, with a database that answers every request. The first posting
  succeeds. A repetition right after it changes no table, also when its debits were capped to nothing. A row
  that left an entry in the ledger, or that has no amounts, changes no table when it is posted again
  after any other operations.\<close>

theorem reposting_changes_nothing:
  assumes "to_i128_law ops" and "list_all wf_op es" and "wf_op e"
    and "session_row e \<noteq> None \<or> chain_row e \<noteq> None" and "gl_run ops e = Some m"
    and "w = foldl (gl_step ops) (empty_ledger []) es" and "list_all wf_op later"
  shows "(\<exists>r. fst (m w) = Inr r) \<and> gl_step ops (gl_step ops w e) e = gl_step ops w e
    \<and> ((\<forall>eid. row_event_id ops e = Some eid \<longrightarrow> eid \<in> events (gl_step ops w e)) \<longrightarrow>
         gl_step ops (foldl (gl_step ops) (gl_step ops w e) later) e = foldl (gl_step ops) (gl_step ops w e) later)"
proof -
  let ?w1 = "gl_step ops w e"
  let ?w2 = "foldl (gl_step ops) ?w1 later"
  have w: "gl_consistent w" and o: "outcomes w = []"
    unfolding assms(6) by (intro consistency.steps assms empty_consistent) (simp add: outcomes_steps assms)
  have o2: "outcomes ?w2 = []"
    using outcomes_steps [OF assms(1,7) outcomes_step [OF assms(1,3) o w]] consistency.gl_step [OF assms(1,3) w] by simp
  have later: "eid \<in> events ?w2" if "eid \<in> events ?w1" for eid
    using that by (intro recorded.steps assms)
  from assms(4) consider v a b where "e = PostSession v a b" | v a b where "e = PostChain v a b"
    by (cases e) auto
  then show ?thesis
  proof cases
    case 1
    then have i: "i128_row (session_mint_deltas_from_lifecycle_json ops v a b)" using assms(1,3) by (auto intro: session_i128_row)
    have p: "apply_session_postings_from_lifecycle_row ops v a b = Some m" using 1 assms(5) by simp
    have "gl_step ops x e = snd (m x)" for x using 1 assms(5) by (simp add: gl_step_def)
    with session_scope.posted_twice [OF o w p i] session_scope.recorded_row_skipped [OF o2 p i] later show ?thesis
      by (simp add: 1) (auto split: option.splits)
  next
    case 2
    then have i: "i128_row (chain_mint_deltas_from_lifecycle_json ops v a b)" using assms(1,3) by (auto intro: chain_i128_row)
    have p: "apply_chain_postings_from_lifecycle_row ops v a b = Some m" using 2 assms(5) by simp
    have "gl_step ops x e = snd (m x)" for x using 2 assms(5) by (simp add: gl_step_def)
    with chain_scope.posted_twice [OF o w p i] chain_scope.recorded_row_skipped [OF o2 p i] later show ?thesis
      by (simp add: 2) (auto split: option.splits)
  qed
qed

lemma close_session_run:
  "apply_session_postings_from_lifecycle_row rat_json (close_row ''s'' ''x'' 100 ''5'') None None =
     Some (scoped_posting ''session'' session_account_code lifecycle_posting_event_id None
       (''s'', ''x'', ''bot_close_position'', [(''A'', 100), (''B'', 5), (''A'', 7)]))"
proof -
  have "owner_from_lifecycle_json (close_row ''s'' ''x'' 100 ''5'') = None"
    by (simp add: owner_from_lifecycle_json_def close_row_def non_empty_str_def)
  then show ?thesis by (simp add: session_scope.post_unfold close_row_deltas)
qed

lemma open_session_run:
  "apply_session_postings_from_lifecycle_row rat_json (open_row ''s'' ''y'' 90 30) None None =
     Some (scoped_posting ''session'' session_account_code lifecycle_posting_event_id None
       (''s'', ''y'', ''position_open'', [(''A'', - 90), (''B'', - 30)]))"
proof -
  have "owner_from_lifecycle_json (open_row ''s'' ''y'' 90 30) = None"
    by (simp add: owner_from_lifecycle_json_def open_row_def non_empty_str_def)
  then show ?thesis by (simp add: session_scope.post_unfold open_row_deltas)
qed

lemma close_step:
  "gl_step rat_json w (PostSession (close_row ''s'' ''x'' 100 ''5'') None None) =
     snd (scoped_posting ''session'' session_account_code lifecycle_posting_event_id None
       (''s'', ''x'', ''bot_close_position'', [(''A'', 100), (''B'', 5), (''A'', 7)]) w)"
  by (simp add: gl_step_def close_session_run)

lemma open_step:
  "gl_step rat_json w (PostSession (open_row ''s'' ''y'' 90 30) None None) =
     snd (scoped_posting ''session'' session_account_code lifecycle_posting_event_id None
       (''s'', ''y'', ''position_open'', [(''A'', - 90), (''B'', - 30)]) w)"
  by (simp add: gl_step_def open_session_run)

theorem reposting_changes_nothing_witness:
  "let close = PostSession (close_row ''s'' ''x'' 100 ''5'') None None;
       opened = PostSession (open_row ''s'' ''y'' 90 30) None None;
       w = gl_step rat_json (empty_ledger []) close in
   gl_step rat_json w close = w
   \<and> gl_step rat_json (foldl (gl_step rat_json) w [opened]) close = foldl (gl_step rat_json) w [opened]"
proof -
  let ?close = "PostSession (close_row ''s'' ''x'' 100 ''5'') None None" and ?open = "PostSession (open_row ''s'' ''y'' 90 30) None None"
  have run: "gl_run rat_json ?close = Some (scoped_posting ''session'' session_account_code lifecycle_posting_event_id None
       (''s'', ''x'', ''bot_close_position'', [(''A'', 100), (''B'', 5), (''A'', 7)]))"
    by (simp add: close_session_run)
  have "row_event_id rat_json ?close = Some (lifecycle_posting_event_id ''x'')" by (simp add: close_row_deltas)
  moreover have "lifecycle_posting_event_id ''x'' \<in> events (gl_step rat_json (empty_ledger []) ?close)"
    by (simp add: close_step scoped_posting_def ledger_run_simps Let_def events_def
        account_of_def account_code_defs event_id_defs trim_def is_space_def cap_open_debits_against_running_balance_def
        lifecycle_event_defs is_i128_def i128_min_def i128_max_def)
  ultimately show ?thesis
    using reposting_changes_nothing [OF rat_json_i128 _ _ _ run refl, of "[]" "[?open]"] by (simp add: Let_def)
qed

text \<open>But an open row whose debits were all capped leaves no posting behind. Seen again after a credit, it
  debits the credited amount, although the row precedes the credit.\<close>

lemma capped_open_row_replays:
  "let close = PostSession (close_row ''s'' ''x'' 100 ''5'') None None;
       opened = PostSession (open_row ''s'' ''y'' 90 30) None None in
   amounts (foldl (gl_step rat_json) (empty_ledger []) [opened, close]) ''SESSION:s'' ''A'' = Some 107
   \<and> amounts (foldl (gl_step rat_json) (empty_ledger []) [opened, close, opened]) ''SESSION:s'' ''A'' = Some 17"
  by (simp add: close_step open_step scoped_posting_def ledger_run_simps Let_def amounts_def
      account_of_def account_code_defs event_id_defs trim_def is_space_def cap_open_debits_against_running_balance_def
      lifecycle_event_defs bt_get_or_def i128_min_def i128_max_def saturate_i128_def saturating_add_i128_def
      saturating_neg_i128_def is_i128_def)

text \<open>A row is marked as posted by its first posting. When a later request of the same row fails, a second
  attempt is skipped and the remaining amounts are lost.\<close>

lemma partial_posting_lost:
  "let close = PostSession (close_row ''s'' ''x'' 100 ''5'') None None;
       w = foldl (gl_step rat_json) (empty_ledger [Committed, Committed, Committed, Committed, Rejected]) [close, close] in
   amounts w ''SESSION:s'' ''A'' = Some 100 \<and> amounts w ''SESSION:s'' ''B'' = None"
  by (simp add: close_step scoped_posting_def ledger_run_simps Let_def amounts_def
      account_of_def account_code_defs event_id_defs trim_def is_space_def cap_open_debits_against_running_balance_def
      lifecycle_event_defs is_i128_def i128_min_def i128_max_def)

end
