(* ===== verification/Session_Caps.thy ===== *)
theory Session_Caps
  imports Ledger_Refinement
begin

text \<open>
  Spending caps of \<^verbatim>\<open>data/src/wallet_session.rs\<close>: how the balances of the ledger, the balances
  recomputed from the stored lifecycle rows (the table \<^verbatim>\<open>position_stream_ledger_rows\<close>, PSLR) and the
  lifecycle file are combined into the amounts a session or chain may spend.

  The PSLR table is a list of rows with their session and chain columns, in the order of the query
  (\<^verbatim>\<open>ORDER BY ts_utc\<close>). The environment is a map, the lifecycle file the list of its lines.
\<close>

section \<open>Caps\<close>

datatype session_caps_source = Gl | PslrFallback | ReconciledMin | LifecycleFile | EmptyCaps

record session_mint_caps =
  caps_session_id :: string
  caps_by_mint :: "u64 btree"
  caps_source :: session_caps_source

definition empty_caps :: "string \<Rightarrow> session_mint_caps" where
  "empty_caps session_id = \<lparr>caps_session_id = session_id, caps_by_mint = [], caps_source = EmptyCaps\<rparr>"

definition cap_u64_for_mint :: "session_mint_caps \<Rightarrow> string \<Rightarrow> u64" where
  "cap_u64_for_mint caps mint = bt_get_or 0 (caps_by_mint caps) (trim mint)"

definition caps_is_empty :: "session_mint_caps \<Rightarrow> bool" where
  "caps_is_empty caps \<longleftrightarrow> caps_by_mint caps = [] \<or> list_all (\<lambda>p. snd p = 0) (caps_by_mint caps)"

fun caps_loop :: "u64 btree \<Rightarrow> (string \<times> string) list \<Rightarrow> u64 btree" where
  "caps_loop out [] = out"
| "caps_loop out ((mint, raw) # rows) =
     (case parse_raw_i128 raw of
        None \<Rightarrow> caps_loop out rows
      | Some v \<Rightarrow>
          (let cap = raw_i128_to_spend_cap v in
           caps_loop (if 0 < cap then bt_insert mint cap out else out) rows))"

definition caps_map_from_balance_rows :: "(string \<times> string) list \<Rightarrow> u64 btree" where
  "caps_map_from_balance_rows rows = caps_loop [] rows"

definition min_cap :: "u64 \<Rightarrow> u64 \<Rightarrow> u64" where
  "min_cap g p = (if g = 0 \<and> p = 0 then 0 else if g = 0 then p else if p = 0 then g else min g p)"

definition merge_min_caps :: "u64 btree \<Rightarrow> u64 btree \<Rightarrow> u64 btree" where
  "merge_min_caps gl pslr =
     (let all = fold (\<lambda>m. bt_insert m ()) (map fst pslr) (fold (\<lambda>m. bt_insert m ()) (map fst gl) []) in
      fold (\<lambda>mint out.
        let cap = min_cap (bt_get_or 0 gl mint) (bt_get_or 0 pslr mint) in
        if 0 < cap then bt_insert mint cap out else out) (map fst all) [])"

definition sums_to_spend_caps :: "int btree \<Rightarrow> u64 btree" where
  "sums_to_spend_caps totals = List.map_filter (\<lambda>(mint, v).
     let cap = raw_i128_to_spend_cap v in if 0 < cap then Some (mint, cap) else None) totals"

definition gl_pslr_match :: "(string \<times> string) list \<Rightarrow> (string \<times> string) list \<Rightarrow> bool" where
  "gl_pslr_match gl pslr =
     (let gl_map = fold (\<lambda>(m, a). bt_insert m a) gl [];
          pslr_map = fold (\<lambda>(m, a). bt_insert m a) pslr [];
          all = fold (\<lambda>m. bt_insert m ()) (map fst pslr_map) (fold (\<lambda>m. bt_insert m ()) (map fst gl_map) []) in
      list_all (\<lambda>mint. case (map_of gl_map mint, map_of pslr_map mint) of
          (Some gv, Some pv) \<Rightarrow> gv = pv
        | (Some _, None) \<Rightarrow> False
        | (None, Some _) \<Rightarrow> False
        | (None, None) \<Rightarrow> True) (map fst all))"

definition reopen_session_require_reconcile :: "(string \<rightharpoonup> string) \<Rightarrow> bool" where
  "reopen_session_require_reconcile env =
     (case env ''CLMM_REOPEN_SESSION_REQUIRE_RECONCILE'' of
        Some v \<Rightarrow> to_ascii_lowercase (trim v) \<in> {''1'', ''true'', ''yes'', ''on''}
      | None \<Rightarrow> False)"

section \<open>Caps from the lifecycle file\<close>

definition caps_of_sums :: "string \<Rightarrow> int btree \<Rightarrow> session_mint_caps" where
  "caps_of_sums scope_id totals =
     (let caps = sums_to_spend_caps totals in
      \<lparr>caps_session_id = scope_id, caps_by_mint = caps,
       caps_source = (if caps = [] then EmptyCaps else LifecycleFile)\<rparr>)"

definition caps_from_lifecycle_jsonl_path ::
    "'d decimal_json \<Rightarrow> (string \<Rightarrow> json option) \<Rightarrow> string list option \<Rightarrow> string \<Rightarrow> session_mint_caps option" where
  "caps_from_lifecycle_jsonl_path ops from_str file session_id =
     (let sid = trim session_id in
      case file of
        None \<Rightarrow> Some (empty_caps sid)
      | Some ls \<Rightarrow>
          map_option (caps_of_sums sid)
            (aggregate_session_sums_from_lifecycle_rows ops (ledger_rows from_str ls) sid))"

definition caps_from_lifecycle_jsonl_path_chain ::
    "'d decimal_json \<Rightarrow> (string \<Rightarrow> json option) \<Rightarrow> string list option \<Rightarrow> string \<Rightarrow> session_mint_caps option" where
  "caps_from_lifecycle_jsonl_path_chain ops from_str file chain_session_id =
     (let cid = trim chain_session_id in
      case file of
        None \<Rightarrow> Some (empty_caps cid)
      | Some ls \<Rightarrow>
          map_option (caps_of_sums cid)
            (aggregate_chain_sums_from_lifecycle_rows ops (ledger_rows from_str ls) cid))"

section \<open>Caps from the database\<close>

record pslr_row =
  pslr_session :: "string option"
  pslr_chain :: "string option"
  pslr_data :: lifecycle_row

definition balance_rows_of_sums :: "int btree \<Rightarrow> string btree" where
  "balance_rows_of_sums totals = map (\<lambda>(mint, v). (mint, format_raw_i128 v)) totals"

definition compute_session_balances_from_pslr ::
    "'d decimal_json \<Rightarrow> pslr_row list \<Rightarrow> string \<Rightarrow> gl_world \<Rightarrow> ((sqlx_error + string btree) \<times> gl_world) option" where
  "compute_session_balances_from_pslr ops table session_id w =
     (case db_read (\<lambda>_. map pslr_data (filter (\<lambda>r. pslr_session r = Some session_id) table)) w of
        (Inl e, w1) \<Rightarrow> Some (Inl e, w1)
      | (Inr rows, w1) \<Rightarrow>
          map_option (\<lambda>totals. (Inr (balance_rows_of_sums totals), w1))
            (aggregate_session_sums_from_lifecycle_rows ops rows session_id))"

definition compute_chain_balances_from_pslr ::
    "'d decimal_json \<Rightarrow> pslr_row list \<Rightarrow> string \<Rightarrow> gl_world \<Rightarrow> ((sqlx_error + string btree) \<times> gl_world) option" where
  "compute_chain_balances_from_pslr ops table chain_session_id w =
     (case db_read (\<lambda>_. map pslr_data (filter (\<lambda>r. pslr_chain r = Some chain_session_id) table)) w of
        (Inl e, w1) \<Rightarrow> Some (Inl e, w1)
      | (Inr rows, w1) \<Rightarrow>
          map_option (\<lambda>totals. (Inr (balance_rows_of_sums totals), w1))
            (aggregate_chain_sums_from_lifecycle_rows ops rows chain_session_id))"

text \<open>\<^verbatim>\<open>unwrap_or_default\<close> on the result of a query.\<close>

fun rows_or_default :: "sqlx_error + 'a list \<Rightarrow> 'a list" where
  "rows_or_default (Inr xs) = xs"
| "rows_or_default (Inl e) = []"

text \<open>The part of the two resolvers after the queries: \<open>None\<close> means falling through to the file.\<close>

definition caps_from_balances ::
    "bool \<Rightarrow> string \<Rightarrow> string btree \<Rightarrow> string btree \<Rightarrow> session_mint_caps option" where
  "caps_from_balances require_reconcile scope_id gl pslr =
     (let gl_caps = caps_map_from_balance_rows gl;
          pslr_caps = caps_map_from_balance_rows pslr in
      if require_reconcile \<and> \<not> gl_pslr_match gl pslr then
        Some \<lparr>caps_session_id = scope_id, caps_by_mint = [], caps_source = EmptyCaps\<rparr>
      else if gl_caps \<noteq> [] \<or> pslr_caps \<noteq> [] then
        Some \<lparr>caps_session_id = scope_id, caps_by_mint = merge_min_caps gl_caps pslr_caps,
          caps_source = (if gl_caps \<noteq> [] \<and> gl_pslr_match gl pslr then Gl
                         else if pslr_caps \<noteq> [] \<and> gl_caps = [] then PslrFallback
                         else ReconciledMin)\<rparr>
      else None)"

definition resolve_session_mint_caps ::
    "'d decimal_json \<Rightarrow> (string \<rightharpoonup> string) \<Rightarrow> (string \<Rightarrow> json option) \<Rightarrow> string list option
      \<Rightarrow> (gl_world \<times> pslr_row list) option \<Rightarrow> string \<Rightarrow> string option \<Rightarrow> session_mint_caps option" where
  "resolve_session_mint_caps ops env from_str file db session_id owner =
     (let sid = trim session_id in
      if sid = [] then Some (empty_caps sid)
      else case db of
             None \<Rightarrow> caps_from_lifecycle_jsonl_path ops from_str file sid
           | Some (w, table) \<Rightarrow>
               (let (gl, w1) = read_session_balances sid owner w in do {
                  (pslr, _) \<leftarrow> compute_session_balances_from_pslr ops table sid w1;
                  (case caps_from_balances (reopen_session_require_reconcile env) sid
                          (rows_or_default gl) (rows_or_default pslr) of
                     Some caps \<Rightarrow> Some caps
                   | None \<Rightarrow> caps_from_lifecycle_jsonl_path ops from_str file sid)
                }))"

definition resolve_chain_mint_caps ::
    "'d decimal_json \<Rightarrow> (string \<rightharpoonup> string) \<Rightarrow> (string \<Rightarrow> json option) \<Rightarrow> string list option
      \<Rightarrow> (gl_world \<times> pslr_row list) option \<Rightarrow> string \<Rightarrow> string option \<Rightarrow> session_mint_caps option" where
  "resolve_chain_mint_caps ops env from_str file db chain_session_id owner =
     (let cid = trim chain_session_id in
      if cid = [] then Some (empty_caps cid)
      else case db of
             None \<Rightarrow> caps_from_lifecycle_jsonl_path_chain ops from_str file cid
           | Some (w, table) \<Rightarrow>
               (let (gl, w1) = read_chain_balances cid owner w in do {
                  (pslr, _) \<leftarrow> compute_chain_balances_from_pslr ops table cid w1;
                  (case caps_from_balances (reopen_session_require_reconcile env) cid
                          (rows_or_default gl) (rows_or_default pslr) of
                     Some caps \<Rightarrow> Some caps
                   | None \<Rightarrow> caps_from_lifecycle_jsonl_path_chain ops from_str file cid)
                }))"

section \<open>What the parts compute\<close>

lemma caps_loop_get:
  "distinct (map fst rows) \<Longrightarrow> bt_get_or 0 (caps_loop out rows) m =
     (case map_of rows m of
        None \<Rightarrow> bt_get_or 0 out m
      | Some raw \<Rightarrow> (case parse_raw_i128 raw of
          None \<Rightarrow> bt_get_or 0 out m
        | Some v \<Rightarrow> if 0 < raw_i128_to_spend_cap v then raw_i128_to_spend_cap v else bt_get_or 0 out m))"
proof (induction rows arbitrary: out)
  case (Cons row rows)
  obtain mint raw where row: "row = (mint, raw)" by fastforce
  have "map_of rows mint = None" using Cons.prems by (simp add: row map_of_eq_None_iff)
  with Cons row show ?case by (auto simp: Let_def split: option.splits)
qed simp

lemma keys_fold_insert: "map_of (fold (\<lambda>m. bt_insert m ()) ks t) k = (if k \<in> set ks then Some () else map_of t k)"
  by (induction ks arbitrary: t) auto

lemma fold_insert_get:
  "bt_get_or 0 (fold (\<lambda>mint out. if 0 < f mint then bt_insert mint (f mint) out else out) ks out) m =
     (if m \<in> set ks \<and> 0 < f m then f m else bt_get_or (0::u64) out m)"
  by (induction ks arbitrary: out) auto

lemma keys_map_of: "k \<in> set (map fst t) \<longleftrightarrow> map_of t k \<noteq> None"
  by (auto simp: map_of_eq_None_iff)

lemma min_cap_0 [simp]: "min_cap 0 p = p" "min_cap g 0 = g"
  by (simp_all add: min_cap_def)

lemma merge_min_caps_get: "bt_get_or 0 (merge_min_caps gl pslr) m = min_cap (bt_get_or 0 gl m) (bt_get_or 0 pslr m)"
proof -
  have "min_cap (bt_get_or 0 gl m) (bt_get_or 0 pslr m) = 0" if "map_of gl m = None" "map_of pslr m = None"
    using that by (simp add: bt_get_or_def)
  moreover have "bt_get_or 0 (merge_min_caps gl pslr) m =
      (if (map_of gl m \<noteq> None \<or> map_of pslr m \<noteq> None) \<and> 0 < min_cap (bt_get_or 0 gl m) (bt_get_or 0 pslr m)
       then min_cap (bt_get_or 0 gl m) (bt_get_or 0 pslr m) else 0)"
    unfolding merge_min_caps_def Let_def fold_insert_get by (simp add: keys_map_of keys_fold_insert del: set_map)
  ultimately show ?thesis by (auto simp: word_gt_0)
qed

lemma fold_bt_insert_map_of:
  "distinct (map fst xs) \<Longrightarrow> map_of (fold (\<lambda>(m, a). bt_insert m a) xs t) k = (case map_of xs k of None \<Rightarrow> map_of t k | Some a \<Rightarrow> Some a)"
proof (induction xs arbitrary: t)
  case (Cons x xs)
  obtain m a where x: "x = (m, a)" by fastforce
  have "map_of xs m = None" using Cons.prems by (simp add: x map_of_eq_None_iff)
  with Cons x show ?case by (auto split: option.split)
qed simp

text \<open>Two balance lists match exactly if they are the same map.\<close>

lemma gl_pslr_match_iff:
  assumes "distinct (map fst gl)" "distinct (map fst pslr)"
  shows "gl_pslr_match gl pslr \<longleftrightarrow> map_of gl = map_of pslr"
proof -
  define gm where "gm = fold (\<lambda>(m, a). bt_insert m a) gl []"
  define pm where "pm = fold (\<lambda>(m, a). bt_insert m a) pslr []"
  have maps: "map_of gm = map_of gl" "map_of pm = map_of pslr"
    using assms by (simp_all add: gm_def pm_def fun_eq_iff fold_bt_insert_map_of split: option.split)
  let ?same = "\<lambda>m. case (map_of gm m, map_of pm m) of (Some gv, Some pv) \<Rightarrow> gv = pv
      | (Some _, None) \<Rightarrow> False | (None, Some _) \<Rightarrow> False | (None, None) \<Rightarrow> True"
  have keys: "m \<in> set (map fst (fold (\<lambda>m. bt_insert m ()) (map fst pm) (fold (\<lambda>m. bt_insert m ()) (map fst gm) [])))
      \<longleftrightarrow> map_of gm m \<noteq> None \<or> map_of pm m \<noteq> None" for m
    by (simp add: keys_map_of keys_fold_insert del: set_map)
  have same: "?same m \<longleftrightarrow> map_of gm m = map_of pm m" for m by (simp split: option.split)
  have "gl_pslr_match gl pslr \<longleftrightarrow> (\<forall>m. (map_of gm m \<noteq> None \<or> map_of pm m \<noteq> None) \<longrightarrow> ?same m)"
    unfolding gl_pslr_match_def Let_def list_all_iff Ball_def gm_def [symmetric] pm_def [symmetric] keys ..
  also have "\<dots> \<longleftrightarrow> map_of gm = map_of pm" unfolding same fun_eq_iff by metis
  finally show ?thesis by (simp add: maps)
qed

section \<open>Caps of a posted session\<close>

lemma caps_of_balance_rows:
  assumes "wf_sums t"
  shows "bt_get_or 0 (caps_map_from_balance_rows (balance_rows_of_sums t)) m = raw_i128_to_spend_cap (bt_get_or 0 t m)"
proof -
  have "distinct (map fst t)" using assms by (auto simp: wf_sums_def intro: bt_wf_distinct)
  moreover have "map fst (balance_rows_of_sums t) = map fst t"
    by (simp add: balance_rows_of_sums_def case_prod_unfold)
  moreover have "map_of (balance_rows_of_sums t) m = map_option format_raw_i128 (map_of t m)"
    by (simp add: balance_rows_of_sums_def map_of_map)
  moreover have "is_i128 v" if "map_of t m = Some v" for v
    using assms that by (auto simp: wf_sums_def bt_get_or_def dest: spec [of _ m])
  moreover note caps_loop_get [of "balance_rows_of_sums t" "[]" m]
  moreover have "raw_i128_to_spend_cap 0 = 0" by (simp add: raw_i128_to_spend_cap_def)
  ultimately show ?thesis
    by (cases "map_of t m") (auto simp: caps_map_from_balance_rows_def bt_get_or_def [of 0 t] word_gt_0)
qed

lemma min_cap_same [simp]: "min_cap x x = x"
  by (simp add: min_cap_def)

lemma caps_map_not_Nil:
  assumes "bt_get_or 0 (caps_map_from_balance_rows rows) m \<noteq> 0"
  shows "caps_map_from_balance_rows rows \<noteq> []"
  using assms by (auto simp: bt_get_or_def)

text \<open>When ledger and rows agree, every cap is the balance, cut to the range of 64 bits.\<close>

lemma caps_when_matching:
  assumes t: "wf_sums t" and pos: "0 < bt_get_or 0 t k"
  obtains caps where "caps_from_balances require scope_id (balance_rows_of_sums t) (balance_rows_of_sums t) = Some caps"
    "caps_source caps = Gl" "\<And>m. cap_u64_for_mint caps m = raw_i128_to_spend_cap (bt_get_or 0 t (trim m))"
proof -
  let ?rows = "balance_rows_of_sums t"
  have "distinct (map fst ?rows)"
    using t bt_wf_distinct by (auto simp: wf_sums_def balance_rows_of_sums_def case_prod_unfold comp_def)
  then have matching: "gl_pslr_match ?rows ?rows" by (simp add: gl_pslr_match_iff)
  have "raw_i128_to_spend_cap (bt_get_or 0 t k) \<noteq> 0"
  proof
    assume "raw_i128_to_spend_cap (bt_get_or 0 t k) = 0"
    with spend_cap_value [of "bt_get_or 0 t k"] pos show False by simp
  qed
  with caps_of_balance_rows [OF t, of k] have "caps_map_from_balance_rows ?rows \<noteq> []"
    using caps_map_not_Nil by metis
  with matching that show thesis
    by (auto simp: caps_from_balances_def Let_def cap_u64_for_mint_def merge_min_caps_get caps_of_balance_rows [OF t])
qed

text \<open>The rows with amounts for one session.\<close>

definition row_of_session :: "'d decimal_json \<Rightarrow> string \<Rightarrow> lifecycle_row \<Rightarrow> bool" where
  "row_of_session ops sid = (\<lambda>(v, a, b).
     (case session_mint_deltas_from_lifecycle_json ops v a b of Some (Some (s, sig, ev, ps)) \<Rightarrow> s = sid | _ \<Rightarrow> False))"

lemma scope_sums_own_rows:
  "scope_sums (session_mint_deltas_from_lifecycle_json ops) sid t rows =
     scope_sums (session_mint_deltas_from_lifecycle_json ops) sid t (filter (row_of_session ops sid) rows)"
proof (induction rows arbitrary: t)
  case (Cons row rows)
  then show ?case by (cases row) (auto simp: row_of_session_def split: option.splits)
qed simp


text \<open>Two sessions are posted; only the rows of the first count for its caps.\<close>

lemma other_row_deltas:
  "session_mint_deltas_from_lifecycle_json rat_json (close_row ''u'' ''z'' 100 ''5'') None None =
     Some (Some (''u'', ''z'', ''bot_close_position'', [(''A'', 100), (''B'', 5), (''A'', 7)]))"
  by (simp add: row_simps parse_nat_def digit_value_def)


section \<open>Where the caps are larger than they should be\<close>

text \<open>The documentation promises the minimum of both sources per mint. A mint whose ledger balance is
  spent counts as unknown to the ledger, and the other source alone decides.\<close>

lemma spent_balance_does_not_cap:
  "map_option (\<lambda>caps. (cap_u64_for_mint caps ''A'', caps_source caps))
     (caps_from_balances False ''s'' [(''A'', ''0'')] [(''A'', ''5'')]) = Some (5, PslrFallback)"
  by (simp add: caps_from_balances_def caps_map_from_balance_rows_def parse_raw_i128_def parse_signed_def parse_nat_def
      digit_value_def trim_def is_space_def i128_min_def i128_max_def raw_i128_to_spend_cap_def cap_u64_for_mint_def
      merge_min_caps_get) (simp add: bt_get_or_def word_gt_0)

text \<open>A chain funded by swaps only is not recognised: the swap rows of the lifecycle ledger are named
  \<^verbatim>\<open>bot_swap_exact_in\<close>, the test looks for \<^verbatim>\<open>swap_exact_in\<close>.\<close>

lemma swap_row_is_no_funding:
  "let row = JObject [(''chain_session_id'', JString ''c''), (''event'', JString ''bot_swap_exact_in'')] in
   is_lifecycle_swap_event ''bot_swap_exact_in''
   \<and> \<not> chain_has_funding_lifecycle_rows (\<lambda>_. Some row) (Some [''row'']) ''c''"
  by (simp add: chain_has_funding_lifecycle_rows_def chain_session_id_from_lifecycle_json_def non_empty_str_def
      trim_def is_space_def lifecycle_event_defs)

end
