(* ===== verification/Session_Capital.thy ===== *)
theory Session_Capital
  imports Session_Caps Pool_Reader
begin

text \<open>
  \<^verbatim>\<open>execution/src/strategy/session_capital.rs\<close>: which portfolio limits the capital of a reopened position
  (the chain of sessions, one session, or none), and how wallet balances and deposit quotes are cut
  down to it. A public key is its text; \<^verbatim>\<open>provider.get_balance\<close> and the token account lookups are
  parameters with their results. The chain and the session query may find the database in
  different states, so both are fields of the context.
\<close>

section \<open>Switches\<close>

definition env_truthy :: "string \<Rightarrow> bool" where
  "env_truthy v \<longleftrightarrow> to_ascii_lowercase (trim v) \<in> {''1'', ''true'', ''yes'', ''on''}"

definition env_falsy :: "string \<Rightarrow> bool" where
  "env_falsy v \<longleftrightarrow> to_ascii_lowercase (trim v) \<in> {''0'', ''false'', ''no'', ''off''}"

definition reopen_use_session_capital :: "(string \<rightharpoonup> string) \<Rightarrow> bool" where
  "reopen_use_session_capital env =
     (case env ''CLMM_REOPEN_USE_SESSION_CAPITAL'' of Some v \<Rightarrow> env_truthy v | None \<Rightarrow> False)"

definition reopen_use_chain_portfolio_env :: "(string \<rightharpoonup> string) \<Rightarrow> bool option" where
  "reopen_use_chain_portfolio_env env =
     (case env ''CLMM_REOPEN_USE_CHAIN_PORTFOLIO'' of
        Some v \<Rightarrow> if env_falsy v then Some False else Some (env_truthy v)
      | None \<Rightarrow> None)"

definition reopen_use_chain_portfolio :: "(string \<rightharpoonup> string) \<Rightarrow> bool" where
  "reopen_use_chain_portfolio env \<longleftrightarrow> reopen_use_chain_portfolio_env env = Some True"

definition trimmed :: "string option \<Rightarrow> string option" where
  "trimmed s = (case s of Some x \<Rightarrow> if trim x = [] then None else Some (trim x) | None \<Rightarrow> None)"

definition chain_portfolio_enabled :: "(string \<rightharpoonup> string) \<Rightarrow> string option \<Rightarrow> bool" where
  "chain_portfolio_enabled env chain_session_id =
     (case reopen_use_chain_portfolio_env env of
        Some b \<Rightarrow> b
      | None \<Rightarrow> trimmed chain_session_id \<noteq> None)"

definition reopen_session_strict_empty :: "(string \<rightharpoonup> string) \<Rightarrow> bool" where
  "reopen_session_strict_empty env =
     (case env ''CLMM_REOPEN_SESSION_STRICT_EMPTY'' of Some v \<Rightarrow> \<not> env_falsy v | None \<Rightarrow> True)"

definition reopen_chain_strict_empty :: "(string \<rightharpoonup> string) \<Rightarrow> bool" where
  "reopen_chain_strict_empty env =
     (case env ''CLMM_REOPEN_CHAIN_STRICT_EMPTY'' of
        Some v \<Rightarrow> \<not> env_falsy v
      | None \<Rightarrow> reopen_session_strict_empty env)"

section \<open>Cutting balances down\<close>

definition cap_rpc_with_portfolio :: "u64 \<Rightarrow> string \<Rightarrow> session_mint_caps option \<Rightarrow> u64" where
  "cap_rpc_with_portfolio rpc_raw token portfolio =
     (case portfolio of None \<Rightarrow> rpc_raw | Some sc \<Rightarrow> min rpc_raw (cap_u64_for_mint sc token))"

definition cap_rpc_with_session ::
    "(string \<rightharpoonup> string) \<Rightarrow> u64 \<Rightarrow> string \<Rightarrow> session_mint_caps option \<Rightarrow> u64" where
  "cap_rpc_with_session env rpc_raw token session =
     (case session of
        Some sc \<Rightarrow> if reopen_use_session_capital env then cap_rpc_with_portfolio rpc_raw token (Some sc) else rpc_raw
      | None \<Rightarrow> rpc_raw)"

definition chain_native_spendable_lamports :: "u64 \<Rightarrow> u64" where
  "chain_native_spendable_lamports native_lamports = saturating_sub_w native_lamports 10000000"

definition apply_portfolio_caps_to_wallet_raw ::
    "u64 \<Rightarrow> u64 \<Rightarrow> u64 \<Rightarrow> string \<Rightarrow> string \<Rightarrow> string \<Rightarrow> session_mint_caps option \<Rightarrow> u64 \<times> u64 \<times> u64" where
  "apply_portfolio_caps_to_wallet_raw balance_a_raw balance_b_raw spendable_lamports mint_a mint_b wsol portfolio =
     (let wa = cap_rpc_with_portfolio balance_a_raw mint_a portfolio;
          wb = cap_rpc_with_portfolio balance_b_raw mint_b portfolio;
          spend = (if mint_a = wsol then cap_rpc_with_portfolio spendable_lamports mint_a portfolio
                   else if mint_b = wsol then cap_rpc_with_portfolio spendable_lamports mint_b portfolio
                   else spendable_lamports) in
      (wa, wb, spend))"

definition ui_from_raw :: "float_fns \<Rightarrow> u64 \<Rightarrow> nat \<Rightarrow> f64" where
  "ui_from_raw fl raw decimals = f64_div (f64_of_nat (unat raw)) (f64_powi fl (f64_lit 10) (int decimals))"

definition chain_wallet_notional_usd_sol_first ::
    "float_fns \<Rightarrow> u64 \<Rightarrow> u64 \<Rightarrow> u64 \<Rightarrow> string \<Rightarrow> string \<Rightarrow> string \<Rightarrow> nat \<Rightarrow> nat \<Rightarrow> f64 \<Rightarrow> f64 \<Rightarrow> f64" where
  "chain_wallet_notional_usd_sol_first fl balance_a_raw balance_b_raw spendable_lamports mint_a mint_b wsol
       decimals_a decimals_b price_a_usd price_b_usd =
     (let a_ui = ui_from_raw fl balance_a_raw decimals_a;
          b_ui = ui_from_raw fl balance_b_raw decimals_b;
          spendable_ui = f64_div (f64_of_nat (unat spendable_lamports)) (f64_lit 1000000000);
          a_ui' = (if mint_a = wsol then f64_max a_ui spendable_ui else a_ui);
          b_ui' = (if mint_b = wsol then f64_max b_ui spendable_ui else b_ui) in
      f64_add (f64_mul a_ui' price_a_usd) (f64_mul b_ui' price_b_usd))"

definition clamp_target_usd_to_chain_wallet_notional :: "f64 \<Rightarrow> f64 \<Rightarrow> f64" where
  "clamp_target_usd_to_chain_wallet_notional target_usd wallet_notional_usd =
     (let wallet_cap = f64_max (f64_mul wallet_notional_usd (f64_lit (995 / 1000))) (f64_lit 0) in
      if f64_is_finite target_usd \<and> f64_lt (f64_lit 0) target_usd then f64_min target_usd wallet_cap else wallet_cap)"

record deposit_budget_quote =
  amount_a :: u64
  amount_b :: u64
  token_max_a :: u64
  token_max_b :: u64
  estimated_value_usd :: f64
  quote_liquidity :: u128

definition clamp_deposit_quote_to_portfolio ::
    "deposit_budget_quote \<Rightarrow> session_mint_caps \<Rightarrow> string \<Rightarrow> string \<Rightarrow> deposit_budget_quote" where
  "clamp_deposit_quote_to_portfolio q portfolio mint_a mint_b =
     (let max_a = cap_rpc_with_portfolio (token_max_a q) mint_a (Some portfolio);
          max_b = cap_rpc_with_portfolio (token_max_b q) mint_b (Some portfolio) in
      q\<lparr>token_max_a := max_a, token_max_b := max_b, amount_a := min (amount_a q) max_a, amount_b := min (amount_b q) max_b\<rparr>)"

section \<open>Choosing the portfolio\<close>

datatype reopen_portfolio_scope = ChainScope | SessionScope

fun portfolio_scope_label :: "reopen_portfolio_scope \<Rightarrow> string" where
  "portfolio_scope_label ChainScope = ''CHAIN''"
| "portfolio_scope_label SessionScope = ''SESSION''"

record loaded_reopen_caps =
  loaded_caps :: session_mint_caps
  loaded_scope :: reopen_portfolio_scope

record capital_context =
  ctx_env :: "string \<rightharpoonup> string"
  ctx_from_str :: "string \<Rightarrow> json option"
  ctx_ledger_file :: "string list option"
  ctx_chain_db :: "(gl_world \<times> pslr_row list) option"
  ctx_session_db :: "(gl_world \<times> pslr_row list) option"

fun session_caps_source_label :: "session_caps_source \<Rightarrow> string" where
  "session_caps_source_label Gl = ''gl_session''"
| "session_caps_source_label PslrFallback = ''pslr_fallback''"
| "session_caps_source_label ReconciledMin = ''reconciled_min''"
| "session_caps_source_label LifecycleFile = ''lifecycle_file''"
| "session_caps_source_label EmptyCaps = ''empty''"

fun chain_caps_source_label :: "session_caps_source \<Rightarrow> string" where
  "chain_caps_source_label Gl = ''gl_chain''"
| "chain_caps_source_label PslrFallback = ''pslr_fallback''"
| "chain_caps_source_label ReconciledMin = ''reconciled_min''"
| "chain_caps_source_label LifecycleFile = ''lifecycle_file''"
| "chain_caps_source_label EmptyCaps = ''empty''"

definition load_session_mint_caps ::
    "'d decimal_json \<Rightarrow> capital_context \<Rightarrow> string \<Rightarrow> string option \<Rightarrow> session_mint_caps option option" where
  "load_session_mint_caps ops ctx session_id owner =
     (if \<not> reopen_use_session_capital (ctx_env ctx) then Some None
      else let sid = trim session_id in
        if sid = [] then Some None
        else do {
          caps \<leftarrow> resolve_session_mint_caps ops (ctx_env ctx) (ctx_from_str ctx) (ctx_ledger_file ctx)
                    (ctx_session_db ctx) sid owner;
          Some (if caps_is_empty caps \<and> reopen_session_strict_empty (ctx_env ctx) then Some caps
                else if caps_is_empty caps then None else Some caps)
        })"

definition load_chain_mint_caps ::
    "'d decimal_json \<Rightarrow> capital_context \<Rightarrow> string \<Rightarrow> string option \<Rightarrow> session_mint_caps option option" where
  "load_chain_mint_caps ops ctx chain_session_id owner =
     (if \<not> chain_portfolio_enabled (ctx_env ctx) (Some chain_session_id) then Some None
      else let cid = trim chain_session_id in
        if cid = [] then Some None
        else do {
          caps \<leftarrow> resolve_chain_mint_caps ops (ctx_env ctx) (ctx_from_str ctx) (ctx_ledger_file ctx)
                    (ctx_chain_db ctx) cid owner;
          Some (if \<not> caps_is_empty caps then Some caps
                else if reopen_chain_strict_empty (ctx_env ctx)
                     \<and> chain_has_funding_lifecycle_rows (ctx_from_str ctx) (ctx_ledger_file ctx) cid then Some caps
                else if caps_is_empty caps then None else Some caps)
        })"

definition load_reopen_portfolio_caps ::
    "'d decimal_json \<Rightarrow> capital_context \<Rightarrow> string option \<Rightarrow> string option \<Rightarrow> string option
      \<Rightarrow> loaded_reopen_caps option option" where
  "load_reopen_portfolio_caps ops ctx rebalance_session_id chain_session_id owner =
     (let session = (case trimmed rebalance_session_id of
          None \<Rightarrow> Some None
        | Some sid \<Rightarrow> map_option (map_option (\<lambda>caps. \<lparr>loaded_caps = caps, loaded_scope = SessionScope\<rparr>))
                        (load_session_mint_caps ops ctx sid owner)) in
      case (if chain_portfolio_enabled (ctx_env ctx) chain_session_id then trimmed chain_session_id else None) of
        None \<Rightarrow> session
      | Some cid \<Rightarrow> do {
          chain \<leftarrow> load_chain_mint_caps ops ctx cid owner;
          (case chain of
             Some caps \<Rightarrow> Some (Some \<lparr>loaded_caps = caps, loaded_scope = ChainScope\<rparr>)
           | None \<Rightarrow>
               if reopen_chain_strict_empty (ctx_env ctx)
                  \<and> chain_has_funding_lifecycle_rows (ctx_from_str ctx) (ctx_ledger_file ctx) cid
               then Some (Some \<lparr>loaded_caps = empty_caps cid, loaded_scope = ChainScope\<rparr>)
               else session)
        })"

definition portfolio_capital_error_if_strict :: "(string \<rightharpoonup> string) \<Rightarrow> loaded_reopen_caps \<Rightarrow> string option" where
  "portfolio_capital_error_if_strict env loaded =
     (let caps = loaded_caps loaded;
          (strict, use_flag, label, source_label) =
            (case loaded_scope loaded of
               ChainScope \<Rightarrow> (reopen_chain_strict_empty env, chain_portfolio_enabled env (Some (caps_session_id caps)),
                 ''CHAIN'', chain_caps_source_label (caps_source caps))
             | SessionScope \<Rightarrow> (reopen_session_strict_empty env, reopen_use_session_capital env,
                 ''SESSION'', session_caps_source_label (caps_source caps))) in
      if \<not> use_flag \<or> \<not> strict then None
      else if caps_is_empty caps then
        Some (''portfolio_capital_unknown: no '' @ label @ '' inventory for '' @ caps_session_id caps
          @ '' (source='' @ source_label @ '')'')
      else None)"

record chain_scoped_pool_wallet =
  pw_loaded :: "loaded_reopen_caps option"
  pw_balance_a_raw :: u64
  pw_balance_b_raw :: u64
  pw_spendable_lamports :: u64

text \<open>\<open>token_balance\<close> is \<^verbatim>\<open>spl_token_balance_raw\<close> of the owner (zero when the account is missing or cannot
  be decoded), \<open>native\<close> the result of \<^verbatim>\<open>get_balance\<close>.\<close>

definition load_chain_scoped_pool_wallet ::
    "'d decimal_json \<Rightarrow> capital_context \<Rightarrow> (string \<Rightarrow> u64) \<Rightarrow> u64 option \<Rightarrow> string \<Rightarrow> string \<Rightarrow> string
      \<Rightarrow> string option \<Rightarrow> string option \<Rightarrow> (string + chain_scoped_pool_wallet) option" where
  "load_chain_scoped_pool_wallet ops ctx token_balance native owner mint_a mint_b
       rebalance_session_id chain_session_id = do {
     loaded \<leftarrow> load_reopen_portfolio_caps ops ctx rebalance_session_id chain_session_id (Some owner);
     Some (case Option.bind loaded (portfolio_capital_error_if_strict (ctx_env ctx)) of
       Some err \<Rightarrow> Inl err
     | None \<Rightarrow>
         (let native_spendable = chain_native_spendable_lamports (case native of Some n \<Rightarrow> n | None \<Rightarrow> 0);
              (a, b, s) = apply_portfolio_caps_to_wallet_raw (token_balance mint_a) (token_balance mint_b)
                 native_spendable mint_a mint_b WSOL_MINT (map_option loaded_caps loaded) in
          Inr \<lparr>pw_loaded = loaded, pw_balance_a_raw = a, pw_balance_b_raw = b, pw_spendable_lamports = s\<rparr>))
   }"

section \<open>No more than the portfolio\<close>

lemma resolve_chain_id:
  "resolve_chain_mint_caps ops env from_str file db cid owner = Some caps \<Longrightarrow> caps_session_id caps = trim cid"
  by (auto simp: resolve_chain_mint_caps_def caps_from_lifecycle_jsonl_path_chain_def caps_of_sums_def empty_caps_def
      caps_from_balances_def Let_def bind_eq_Some_conv split: if_splits option.splits prod.splits)

lemma load_chain_id:
  "load_chain_mint_caps ops ctx cid owner = Some (Some caps) \<Longrightarrow> caps_session_id caps = trim cid"
  by (auto simp: load_chain_mint_caps_def Let_def bind_eq_Some_conv dest: resolve_chain_id split: if_splits)

lemma chain_enabled_trim: "chain_portfolio_enabled env (Some (trim c)) = chain_portfolio_enabled env (Some c)"
  by (simp add: chain_portfolio_enabled_def trimmed_def split: option.split)

text \<open>With the strict mode on, a chain that has been funded never falls back to another portfolio.\<close>

lemma strict_chain_loaded:
  assumes "reopen_chain_strict_empty (ctx_env ctx)" and "chain_portfolio_enabled (ctx_env ctx) (Some c)" and "trim c \<noteq> []"
    and "chain_has_funding_lifecycle_rows (ctx_from_str ctx) (ctx_ledger_file ctx) (trim c)"
    and "load_reopen_portfolio_caps ops ctx sid (Some c) owner = Some loaded"
  shows "\<exists>l. loaded = Some l \<and> loaded_scope l = ChainScope \<and> caps_session_id (loaded_caps l) = trim c"
  using assms load_chain_id [of ops ctx "trim c" owner]
  by (auto simp: load_reopen_portfolio_caps_def trimmed_def bind_eq_Some_conv empty_caps_def Let_def
      split: option.splits if_splits)

lemma strict_chain_error:
  assumes "reopen_chain_strict_empty env" "chain_portfolio_enabled env (Some c)" "loaded_scope l = ChainScope"
    "caps_session_id (loaded_caps l) = trim c"
  shows "portfolio_capital_error_if_strict env l \<noteq> None \<longleftrightarrow> caps_is_empty (loaded_caps l)"
  using assms by (simp add: portfolio_capital_error_if_strict_def chain_enabled_trim Let_def)

lemma cap_rpc_bounds:
  "cap_rpc_with_portfolio raw m p \<le> raw" "p = Some sc \<Longrightarrow> cap_rpc_with_portfolio raw m p \<le> cap_u64_for_mint sc m"
  by (auto simp: cap_rpc_with_portfolio_def split: option.split)

text \<open>C11. A strategy that reopens inside a funded chain, in strict mode, sees only the capital of its chain:
  either it gets an error, which happens exactly when the chain has no known inventory, or balances
  that exceed neither the wallet nor the caps of the chain, in both tokens and in the spendable SOL
  when one token is wrapped SOL. It never sees the whole wallet or another portfolio.\<close>

theorem strict_chain_wallet:
  assumes "reopen_chain_strict_empty (ctx_env ctx)" and "chain_portfolio_enabled (ctx_env ctx) (Some c)" and "trim c \<noteq> []"
    and "chain_has_funding_lifecycle_rows (ctx_from_str ctx) (ctx_ledger_file ctx) (trim c)"
    and "load_chain_scoped_pool_wallet ops ctx token_balance native owner ma mb sid (Some c) = Some r"
  shows "\<exists>l. load_reopen_portfolio_caps ops ctx sid (Some c) (Some owner) = Some (Some l) \<and> loaded_scope l = ChainScope
    \<and> (case r of
         Inl err \<Rightarrow> caps_is_empty (loaded_caps l)
       | Inr w \<Rightarrow> \<not> caps_is_empty (loaded_caps l) \<and> pw_loaded w = Some l
           \<and> pw_balance_a_raw w \<le> token_balance ma \<and> pw_balance_a_raw w \<le> cap_u64_for_mint (loaded_caps l) ma
           \<and> pw_balance_b_raw w \<le> token_balance mb \<and> pw_balance_b_raw w \<le> cap_u64_for_mint (loaded_caps l) mb
           \<and> (WSOL_MINT \<in> {ma, mb} \<longrightarrow> pw_spendable_lamports w \<le> cap_u64_for_mint (loaded_caps l) WSOL_MINT))"
proof -
  obtain loaded where ld: "load_reopen_portfolio_caps ops ctx sid (Some c) (Some owner) = Some loaded"
    using assms(5) by (auto simp: load_chain_scoped_pool_wallet_def bind_eq_Some_conv)
  from strict_chain_loaded [OF assms(1-4) this] obtain l where
    l: "loaded = Some l" "loaded_scope l = ChainScope" "caps_session_id (loaded_caps l) = trim c" by blast
  note err = strict_chain_error [OF assms(1,2) l(2,3)]
  have r: "r = (case portfolio_capital_error_if_strict (ctx_env ctx) l of
      Some e \<Rightarrow> Inl e
    | None \<Rightarrow> (let (a, b, s) = apply_portfolio_caps_to_wallet_raw (token_balance ma) (token_balance mb)
         (chain_native_spendable_lamports (case native of Some n \<Rightarrow> n | None \<Rightarrow> 0)) ma mb WSOL_MINT (Some (loaded_caps l)) in
        Inr \<lparr>pw_loaded = Some l, pw_balance_a_raw = a, pw_balance_b_raw = b, pw_spendable_lamports = s\<rparr>))"
    using assms(5) ld l(1)
    by (cases "portfolio_capital_error_if_strict (ctx_env ctx) l") (auto simp: load_chain_scoped_pool_wallet_def Let_def)
  show ?thesis
  proof (cases "portfolio_capital_error_if_strict (ctx_env ctx) l")
    case None
    with err have "\<not> caps_is_empty (loaded_caps l)" by simp
    with None r ld l(1,2) show ?thesis
      by (auto simp: apply_portfolio_caps_to_wallet_raw_def Let_def cap_rpc_bounds)
  qed (use err r ld l in simp)
qed

text \<open>A funded chain: one closing row in the ledger file, no database, the default environment.\<close>

definition chain_close_row :: json where
  "chain_close_row = JObject
     [(''chain_session_id'', JString ''c''),
      (''details'', JObject [(''close_amount_a_raw'', JNumber (PosInt 100)), (''close_amount_b_raw'', JNumber (PosInt 5)),
         (''token_mint_a'', JString ''A''), (''token_mint_b'', JString ''B'')]),
      (''event'', JString ''bot_close_position''), (''signature'', JString ''x'')]"

definition sample_capital :: capital_context where
  "sample_capital = \<lparr>ctx_env = Map.empty, ctx_from_str = (\<lambda>_. Some chain_close_row), ctx_ledger_file = Some [''row''],
     ctx_chain_db = None, ctx_session_db = None\<rparr>"

lemma chain_close_row_deltas:
  "chain_mint_deltas_from_lifecycle_json rat_json chain_close_row None None =
     Some (Some (''c'', ''x'', ''bot_close_position'', [(''A'', 100), (''B'', 5)]))"
  by (simp add: chain_mint_deltas_from_lifecycle_json_def chain_session_id_from_lifecycle_json_def chain_close_row_def row_simps)

lemma chain_close_row_id: "chain_session_id_from_lifecycle_json chain_close_row = Some ''c''"
  by (simp add: chain_session_id_from_lifecycle_json_def chain_close_row_def non_empty_str_def trim_def is_space_def)

lemma sample_chain_caps:
  "load_chain_mint_caps rat_json sample_capital ''c'' owner =
     Some (Some \<lparr>caps_session_id = ''c'', caps_by_mint = [(''A'', 100), (''B'', 5)], caps_source = LifecycleFile\<rparr>)"
proof -
  have row: "row_of_value chain_close_row = (chain_close_row, None, None)"
    by (simp add: row_of_value_def chain_close_row_def)
  have "aggregate_chain_sums_from_lifecycle_rows rat_json [(chain_close_row, None, None)] ''c'' = Some [(''A'', 100), (''B'', 5)]"
    by (simp add: aggregate_chain_sums_from_lifecycle_rows_def ensure_chain_session_id_on_lifecycle_row_def chain_close_row_id
        chain_close_row_deltas trim_def is_space_def apply_capped_postings_to_sums_def
        cap_open_debits_against_running_balance_def lifecycle_event_defs add_posting_def i128_defs bt_get_or_def)
  then show ?thesis
    by (simp add: load_chain_mint_caps_def chain_portfolio_enabled_def reopen_use_chain_portfolio_env_def trimmed_def sample_capital_def
        resolve_chain_mint_caps_def caps_from_lifecycle_jsonl_path_chain_def row trim_def is_space_def caps_of_sums_def
        sums_to_spend_caps_def raw_i128_to_spend_cap_def List.map_filter_def word_gt_0 caps_is_empty_def)
qed

theorem strict_chain_wallet_witness:
  "\<exists>w. load_chain_scoped_pool_wallet rat_json sample_capital (\<lambda>_. 50) (Some 0) ''me'' ''A'' ''B'' None (Some ''c'') = Some (Inr w)
     \<and> pw_balance_a_raw w \<le> 100 \<and> pw_balance_b_raw w \<le> 5"
proof -
  let ?l = "\<lparr>loaded_caps = \<lparr>caps_session_id = ''c'', caps_by_mint = [(''A'', 100), (''B'', 5)], caps_source = LifecycleFile\<rparr>,
      loaded_scope = ChainScope\<rparr>"
  have trims: "trim ''c'' = ''c''" "trim ''A'' = ''A''" "trim ''B'' = ''B''" by (simp_all add: trim_def is_space_def)
  have strict: "reopen_chain_strict_empty (ctx_env sample_capital)"
    by (simp add: reopen_chain_strict_empty_def reopen_session_strict_empty_def sample_capital_def)
  have on: "chain_portfolio_enabled (ctx_env sample_capital) (Some ''c'')"
    by (simp add: chain_portfolio_enabled_def reopen_use_chain_portfolio_env_def sample_capital_def trimmed_def trims)
  have funded: "chain_has_funding_lifecycle_rows (ctx_from_str sample_capital) (ctx_ledger_file sample_capital) (trim ''c'')"
    by (simp add: sample_capital_def chain_has_funding_lifecycle_rows_def trims chain_close_row_id)
      (simp add: chain_close_row_def trim_def is_space_def)
  have loaded: "load_reopen_portfolio_caps rat_json sample_capital None (Some ''c'') (Some ''me'') = Some (Some ?l)"
    using on by (simp add: load_reopen_portfolio_caps_def trimmed_def trims sample_chain_caps)
  obtain r where r: "load_chain_scoped_pool_wallet rat_json sample_capital (\<lambda>_. 50) (Some 0) ''me'' ''A'' ''B'' None (Some ''c'') = Some r"
    by (simp add: load_chain_scoped_pool_wallet_def loaded)
  have "\<not> caps_is_empty (loaded_caps ?l)" by (simp add: caps_is_empty_def)
  with strict_chain_wallet [OF strict on _ funded r] loaded trims r show ?thesis
    by (auto simp: cap_u64_for_mint_def bt_get_or_def split: sum.splits)
qed

end
