(* ===== verification/Alerts.thy ===== *)
theory Alerts
  imports Positions
begin

text \<open>
  \<^verbatim>\<open>execution/src/alerts\<close>: alerts, the rules engine with its cooldowns, and the fan-out to several
  notifiers. Random identifiers, the clock, the two-digit formatting of decimals and the notifier
  channels (console, file, webhook) are parameters. A message is a text without the emoji prefix
  that only the display form has. Each alert takes its identifier and its own reading of the clock
  (\<^verbatim>\<open>Alert::new\<close> reads it again) from the parameter \<open>fresh\<close>.
\<close>

section \<open>Alerts\<close>

datatype alert_level = Info | Warning | Critical

fun alert_color :: "alert_level \<Rightarrow> string" where
  "alert_color Info = ''blue''"
| "alert_color Warning = ''yellow''"
| "alert_color Critical = ''red''"

datatype alert_type =
  AtRangeExit | AtRangeEntry | AtILThreshold | AtPnLTarget | AtFeesMilestone | AtRebalanceNeeded
| AtSystemError | AtConnectionIssue | AtCustom string | AtRebalanceIncomplete

fun alert_type_name :: "alert_type \<Rightarrow> string" where
  "alert_type_name AtRangeExit = ''Range Exit''"
| "alert_type_name AtRangeEntry = ''Range Entry''"
| "alert_type_name AtILThreshold = ''IL Threshold''"
| "alert_type_name AtPnLTarget = ''PnL Target''"
| "alert_type_name AtFeesMilestone = ''Fees Milestone''"
| "alert_type_name AtRebalanceNeeded = ''Rebalance Needed''"
| "alert_type_name AtSystemError = ''System Error''"
| "alert_type_name AtConnectionIssue = ''Connection Issue''"
| "alert_type_name (AtCustom name) = name"
| "alert_type_name AtRebalanceIncomplete = ''Rebalance Incomplete''"

record 'd alert_data =
  ad_current_price :: "'d option"
  ad_range_lower :: "'d option"
  ad_range_upper :: "'d option"
  ad_il_pct :: "'d option"
  ad_pnl :: "'d option"
  ad_fees :: "'d option"
  ad_custom :: "(string \<times> string) list option"

record 'd alert =
  alert_id :: string
  al_level :: alert_level
  al_type :: alert_type
  al_position :: "string option"
  al_pool :: "string option"
  al_message :: string
  al_data :: "'d alert_data option"
  al_timestamp :: datetime
  al_acknowledged :: bool

definition new_alert :: "string \<times> datetime \<Rightarrow> alert_level \<Rightarrow> alert_type \<Rightarrow> string \<Rightarrow> 'd alert" where
  "new_alert stamp lvl ty message =
     \<lparr>alert_id = fst stamp, al_level = lvl, al_type = ty, al_position = None, al_pool = None, al_message = message,
      al_data = None, al_timestamp = snd stamp, al_acknowledged = False\<rparr>"

definition with_position :: "string \<Rightarrow> 'd alert \<Rightarrow> 'd alert" where
  "with_position p a = a\<lparr>al_position := Some p\<rparr>"

definition with_pool :: "string \<Rightarrow> 'd alert \<Rightarrow> 'd alert" where
  "with_pool p a = a\<lparr>al_pool := Some p\<rparr>"

definition with_data :: "'d alert_data \<Rightarrow> 'd alert \<Rightarrow> 'd alert" where
  "with_data d a = a\<lparr>al_data := Some d\<rparr>"

definition acknowledge :: "'d alert \<Rightarrow> 'd alert" where
  "acknowledge a = a\<lparr>al_acknowledged := True\<rparr>"

text \<open>\<^verbatim>\<open>MultiNotifier::notify_all\<close>: every channel is called, failures are only logged. A channel maps its
  state to a result and a new state.\<close>

fun notify_all :: "('d alert \<Rightarrow> 'w \<Rightarrow> ('e + unit) \<times> 'w) list \<Rightarrow> 'd alert \<Rightarrow> 'w \<Rightarrow> 'w" where
  "notify_all [] a w = w"
| "notify_all (n # ns) a w = notify_all ns a (snd (n a w))"

section \<open>Rules\<close>

datatype 'd rule_condition =
  CondRangeExit | CondRangeEntry | ILExceeds 'd | PnLExceeds 'd | PnLBelow 'd | FeesExceed 'd
| TimeSinceRebalance u64 | CondAnd "'d rule_condition" "'d rule_condition" | CondOr "'d rule_condition" "'d rule_condition"

record 'd alert_rule =
  rule_name :: string
  rule_condition :: "'d rule_condition"
  rule_level :: alert_level
  rule_type :: alert_type
  message_template :: string
  rule_enabled :: bool
  cooldown_secs :: u64

definition new_rule :: "string \<Rightarrow> 'd rule_condition \<Rightarrow> alert_level \<Rightarrow> alert_type \<Rightarrow> 'd alert_rule" where
  "new_rule n c lvl ty =
     \<lparr>rule_name = n, rule_condition = c, rule_level = lvl, rule_type = ty, message_template = [],
      rule_enabled = True, cooldown_secs = 300\<rparr>"

definition with_message :: "string \<Rightarrow> 'd alert_rule \<Rightarrow> 'd alert_rule" where
  "with_message t r = r\<lparr>message_template := t\<rparr>"

definition with_cooldown :: "u64 \<Rightarrow> 'd alert_rule \<Rightarrow> 'd alert_rule" where
  "with_cooldown secs r = r\<lparr>cooldown_secs := secs\<rparr>"

definition rule_disabled :: "'d alert_rule \<Rightarrow> 'd alert_rule" where
  "rule_disabled r = r\<lparr>rule_enabled := False\<rparr>"

record 'd rule_context =
  rc_in_range :: bool
  rc_was_in_range :: bool
  rc_pnl :: "'d position_pnl"
  rc_hours_since_rebalance :: u64

record 'd rules_engine =
  rules :: "'d alert_rule list"
  last_triggers :: "(string \<times> datetime) list"

definition new_rules_engine :: "'d rules_engine" where
  "new_rules_engine = \<lparr>rules = [], last_triggers = []\<rparr>"

definition add_rule :: "'d alert_rule \<Rightarrow> 'd rules_engine \<Rightarrow> 'd rules_engine" where
  "add_rule r e = e\<lparr>rules := rules e @ [r]\<rparr>"

definition remove_rule :: "string \<Rightarrow> 'd rules_engine \<Rightarrow> 'd rules_engine" where
  "remove_rule n e = e\<lparr>rules := filter (\<lambda>r. rule_name r \<noteq> n) (rules e)\<rparr>"

fun evaluate_condition :: "('d, 'a) decimal_ops_scheme \<Rightarrow> 'd rule_condition \<Rightarrow> 'd rule_context \<Rightarrow> bool" where
  "evaluate_condition ops CondRangeExit ctx \<longleftrightarrow> rc_was_in_range ctx \<and> \<not> rc_in_range ctx"
| "evaluate_condition ops CondRangeEntry ctx \<longleftrightarrow> \<not> rc_was_in_range ctx \<and> rc_in_range ctx"
| "evaluate_condition ops (ILExceeds t) ctx \<longleftrightarrow> dec_gt ops (dec_abs ops (il_pct (rc_pnl ctx))) t"
| "evaluate_condition ops (PnLExceeds t) ctx \<longleftrightarrow> dec_gt ops (net_pnl_pct (rc_pnl ctx)) t"
| "evaluate_condition ops (PnLBelow t) ctx \<longleftrightarrow> dec_gt ops t (net_pnl_pct (rc_pnl ctx))"
| "evaluate_condition ops (FeesExceed t) ctx \<longleftrightarrow> dec_gt ops (fees_usd (rc_pnl ctx)) t"
| "evaluate_condition ops (TimeSinceRebalance h) ctx \<longleftrightarrow> h < rc_hours_since_rebalance ctx"
| "evaluate_condition ops (CondAnd a b) ctx \<longleftrightarrow> evaluate_condition ops a ctx \<and> evaluate_condition ops b ctx"
| "evaluate_condition ops (CondOr a b) ctx \<longleftrightarrow> evaluate_condition ops a ctx \<or> evaluate_condition ops b ctx"

text \<open>\<^verbatim>\<open>str::replace\<close> for the pattern \<open>p # ps\<close>.\<close>

fun replace_str :: "char \<Rightarrow> string \<Rightarrow> string \<Rightarrow> string \<Rightarrow> string" where
  "replace_str p ps sub [] = []"
| "replace_str p ps sub (c # cs) =
     (if prefix (p # ps) (c # cs) then sub @ replace_str p ps sub (drop (length ps) cs)
      else c # replace_str p ps sub cs)"

definition format_message :: "('d \<Rightarrow> string) \<Rightarrow> string \<Rightarrow> 'd rule_context \<Rightarrow> string" where
  "format_message fmt2 template ctx =
     (let pnl = rc_pnl ctx in
      replace_str (CHR ''{'') ''in_range}'' (if rc_in_range ctx then ''yes'' else ''no'')
       (replace_str (CHR ''{'') ''fees_usd}'' (''$'' @ fmt2 (fees_usd pnl))
        (replace_str (CHR ''{'') ''pnl_usd}'' (''$'' @ fmt2 (net_pnl_usd pnl))
         (replace_str (CHR ''{'') ''pnl_pct}'' (fmt2 (net_pnl_pct pnl) @ ''%'')
          (replace_str (CHR ''{'') ''il_pct}'' (fmt2 (il_pct pnl) @ ''%'') template)))))"

text \<open>The cooldown test: the elapsed seconds are cast to an unsigned number.\<close>

definition cooling_down :: "(string \<times> datetime) list \<Rightarrow> datetime \<Rightarrow> 'd alert_rule \<Rightarrow> bool" where
  "cooling_down triggers now r =
     (case map_of triggers (rule_name r) of
        Some prev \<Rightarrow> (word_of_int (num_seconds now prev) :: u64) < cooldown_secs r
      | None \<Rightarrow> False)"

fun evaluate_loop ::
    "('d, 'a) decimal_ops_scheme \<Rightarrow> ('d \<Rightarrow> string) \<Rightarrow> (nat \<Rightarrow> string \<times> datetime) \<Rightarrow> datetime \<Rightarrow> 'd rule_context
      \<Rightarrow> 'd alert_rule list \<Rightarrow> 'd alert list \<Rightarrow> (string \<times> datetime) list \<Rightarrow> 'd alert list \<times> (string \<times> datetime) list" where
  "evaluate_loop ops fmt2 fresh now ctx [] alerts triggers = (alerts, triggers)"
| "evaluate_loop ops fmt2 fresh now ctx (r # rs) alerts triggers =
     (if \<not> rule_enabled r then evaluate_loop ops fmt2 fresh now ctx rs alerts triggers
      else if cooling_down triggers now r then evaluate_loop ops fmt2 fresh now ctx rs alerts triggers
      else if evaluate_condition ops (rule_condition r) ctx then
        evaluate_loop ops fmt2 fresh now ctx rs
          (alerts @ [new_alert (fresh (length alerts)) (rule_level r) (rule_type r)
             (format_message fmt2 (message_template r) ctx)])
          (AList.update (rule_name r) now triggers)
      else evaluate_loop ops fmt2 fresh now ctx rs alerts triggers)"

definition evaluate_rules ::
    "('d, 'a) decimal_ops_scheme \<Rightarrow> ('d \<Rightarrow> string) \<Rightarrow> (nat \<Rightarrow> string \<times> datetime) \<Rightarrow> datetime \<Rightarrow> 'd rule_context
      \<Rightarrow> 'd rules_engine \<Rightarrow> 'd alert list \<times> 'd rules_engine" where
  "evaluate_rules ops fmt2 fresh now ctx e =
     (let (alerts, triggers) = evaluate_loop ops fmt2 fresh now ctx (rules e) [] (last_triggers e) in
      (alerts, e\<lparr>last_triggers := triggers\<rparr>))"

definition with_default_rules :: "('d, 'a) decimal_ops_scheme \<Rightarrow> 'd rules_engine \<Rightarrow> 'd rules_engine" where
  "with_default_rules ops e =
     add_rule (with_message ''IL exceeded 10%: {il_pct}''
         (new_rule ''il_critical'' (ILExceeds (dec_new ops 10 2)) Critical AtILThreshold))
       (add_rule (with_message ''IL exceeded 5%: {il_pct}''
           (new_rule ''il_warning'' (ILExceeds (dec_new ops 5 2)) Warning AtILThreshold))
         (add_rule (with_message ''Position exited price range''
             (new_rule ''range_exit'' CondRangeExit Warning AtRangeExit)) e))"

section \<open>Which rules fire\<close>

text \<open>The specification: the enabled rules whose condition holds and whose last trigger, if any, is at
  least the cooldown ago.\<close>

definition fires ::
    "('d, 'a) decimal_ops_scheme \<Rightarrow> datetime \<Rightarrow> 'd rule_context \<Rightarrow> (string \<times> datetime) list \<Rightarrow> 'd alert_rule \<Rightarrow> bool" where
  "fires ops now ctx triggers r \<longleftrightarrow> rule_enabled r \<and> \<not> cooling_down triggers now r
     \<and> evaluate_condition ops (rule_condition r) ctx"

definition fired_rules ::
    "('d, 'a) decimal_ops_scheme \<Rightarrow> datetime \<Rightarrow> 'd rule_context \<Rightarrow> 'd rules_engine \<Rightarrow> 'd alert_rule list" where
  "fired_rules ops now ctx e = filter (fires ops now ctx (last_triggers e)) (rules e)"

definition rule_alert ::
    "('d \<Rightarrow> string) \<Rightarrow> 'd rule_context \<Rightarrow> 'd alert_rule \<Rightarrow> string \<times> datetime \<Rightarrow> 'd alert" where
  "rule_alert fmt2 ctx r stamp = new_alert stamp (rule_level r) (rule_type r) (format_message fmt2 (message_template r) ctx)"

lemma fires_other_rule:
  "rule_name r \<noteq> n \<Longrightarrow> fires ops now ctx (AList.update n t triggers) r = fires ops now ctx triggers r"
  by (simp add: fires_def cooling_down_def update_conv')

lemma evaluate_loop_spec:
  assumes "distinct (map rule_name rs)"
  shows "evaluate_loop ops fmt2 fresh now ctx rs alerts tr =
     (let fired = filter (fires ops now ctx tr) rs in
      (alerts @ map2 (rule_alert fmt2 ctx) fired (map fresh [length alerts..<length alerts + length fired]),
       fold (\<lambda>r. AList.update (rule_name r) now) fired tr))"
  using assms
proof (induction rs arbitrary: alerts tr)
  case (Cons r rs)
  show ?case
  proof (cases "fires ops now ctx tr r")
    case True
    then have "rule_enabled r" "\<not> cooling_down tr now r" "evaluate_condition ops (rule_condition r) ctx"
      by (simp_all add: fires_def)
    moreover have "filter (fires ops now ctx (AList.update (rule_name r) now tr)) rs = filter (fires ops now ctx tr) rs"
      using Cons.prems by (intro filter_cong refl fires_other_rule) (simp, metis imageI)
    ultimately show ?thesis
      using Cons True by (simp add: Let_def rule_alert_def upt_rec [of "length alerts"] del: upt_Suc)
  next
    case False
    then have "\<not> rule_enabled r \<or> cooling_down tr now r \<or> \<not> evaluate_condition ops (rule_condition r) ctx"
      by (auto simp: fires_def)
    with Cons False show ?thesis by auto
  qed
qed simp

lemma map_of_fold_update:
  "map_of (fold (\<lambda>r. AList.update (rule_name r) t) fired tr) n =
     (if n \<in> rule_name ` set fired then Some t else map_of tr n)"
  by (induction fired arbitrary: tr) (auto simp: update_conv')

text \<open>An evaluation of the rules engine whose rules have different names returns one alert for each
  enabled rule whose condition holds and whose cooldown has passed, in the order of the rules, and
  records the time of the evaluation for these rules and for no other.\<close>

theorem evaluate_rules_spec:
  assumes "distinct (map rule_name (rules e))"
  shows "\<exists>e'. evaluate_rules ops fmt2 fresh now ctx e =
       (map2 (rule_alert fmt2 ctx) (fired_rules ops now ctx e) (map fresh [0..<length (fired_rules ops now ctx e)]), e')
     \<and> rules e' = rules e
     \<and> (\<forall>n. map_of (last_triggers e') n =
          (if n \<in> rule_name ` set (fired_rules ops now ctx e) then Some now else map_of (last_triggers e) n))"
  using evaluate_loop_spec [OF assms, of ops fmt2 fresh now ctx "[]" "last_triggers e"]
  by (simp add: evaluate_rules_def Let_def fired_rules_def map_of_fold_update)


text \<open>Concrete rules: decimals are integers of hundredths here.\<close>

definition example_ops :: "int decimal_ops" where
  "example_ops = \<lparr>dec_new = (\<lambda>n s. n * 10 ^ (2 - s)), dec_abs = abs, dec_gt = (\<lambda>a b. b < a)\<rparr>"

definition example_context :: "int \<Rightarrow> int rule_context" where
  "example_context il = \<lparr>rc_in_range = False, rc_was_in_range = True, rc_pnl = (default_pnl example_ops)\<lparr>il_pct := il\<rparr>,
     rc_hours_since_rebalance = 0\<rparr>"

lemmas example_rules_defs = example_ops_def example_context_def default_pnl_def dec_zero_def
  with_default_rules_def new_rules_engine_def add_rule_def with_message_def new_rule_def

definition example_engine :: "int rules_engine" where
  "example_engine = with_default_rules example_ops new_rules_engine"

lemma example_engine_names: "map rule_name (rules example_engine) = [''range_exit'', ''il_warning'', ''il_critical'']"
  by (simp add: example_engine_def example_rules_defs)

lemma example_engine_fired:
  "map rule_name (fired_rules example_ops now (example_context (- 7)) example_engine) = [''range_exit'', ''il_warning'']"
  by (simp add: example_engine_def example_rules_defs fired_rules_def fires_def cooling_down_def)

theorem evaluate_rules_spec_witness:
  "map al_level (fst (evaluate_rules example_ops (\<lambda>_. []) (\<lambda>_. ([], 0)) 5 (example_context (- 7)) example_engine)) = [Warning, Warning]"
proof -
  have "distinct (map rule_name (rules example_engine))" by (simp add: example_engine_names)
  from evaluate_rules_spec [OF this, of example_ops "\<lambda>_. []" "\<lambda>_. ([], 0)" 5 "example_context (- 7)"]
  show ?thesis
    by (auto simp: example_engine_def example_rules_defs fired_rules_def fires_def cooling_down_def
        rule_alert_def new_alert_def)
qed

text \<open>A sequence of evaluations: the contexts with the times they are evaluated at, the alerts each
  returns, and the engine before the evaluation number \<open>k\<close>.\<close>

fun alert_runs ::
    "('d, 'a) decimal_ops_scheme \<Rightarrow> ('d \<Rightarrow> string) \<Rightarrow> (nat \<Rightarrow> string \<times> datetime) \<Rightarrow> (datetime \<times> 'd rule_context) list
      \<Rightarrow> 'd rules_engine \<Rightarrow> 'd alert list list" where
  "alert_runs ops fmt2 fresh [] e = []"
| "alert_runs ops fmt2 fresh ((now, ctx) # xs) e =
     (let (alerts, e) = evaluate_rules ops fmt2 fresh now ctx e in alerts # alert_runs ops fmt2 fresh xs e)"

primrec engine_at ::
    "('d, 'a) decimal_ops_scheme \<Rightarrow> ('d \<Rightarrow> string) \<Rightarrow> (nat \<Rightarrow> string \<times> datetime) \<Rightarrow> (datetime \<times> 'd rule_context) list
      \<Rightarrow> 'd rules_engine \<Rightarrow> nat \<Rightarrow> 'd rules_engine" where
  "engine_at ops fmt2 fresh xs e 0 = e"
| "engine_at ops fmt2 fresh xs e (Suc k) =
     snd (evaluate_rules ops fmt2 fresh (fst (xs ! k)) (snd (xs ! k)) (engine_at ops fmt2 fresh xs e k))"

lemma engine_at_Cons:
  "engine_at ops fmt2 fresh ((now, ctx) # xs) e (Suc k) = engine_at ops fmt2 fresh xs (snd (evaluate_rules ops fmt2 fresh now ctx e)) k"
  by (induction k) simp_all

lemma length_alert_runs [simp]: "length (alert_runs ops fmt2 fresh xs e) = length xs"
  by (induction xs arbitrary: e) (auto simp: case_prod_beta)

lemma alert_runs_nth:
  "k < length xs \<Longrightarrow> alert_runs ops fmt2 fresh xs e ! k
     = fst (evaluate_rules ops fmt2 fresh (fst (xs ! k)) (snd (xs ! k)) (engine_at ops fmt2 fresh xs e k))"
proof (induction xs arbitrary: e k)
  case (Cons x xs)
  obtain now ctx where "x = (now, ctx)" by (cases x)
  with Cons show ?case by (cases k) (simp_all add: case_prod_beta engine_at_Cons del: engine_at.simps(2))
qed simp

lemma evaluate_rules_next:
  assumes "distinct (map rule_name (rules e))"
  shows "rules (snd (evaluate_rules ops fmt2 fresh now ctx e)) = rules e"
    and "map_of (last_triggers (snd (evaluate_rules ops fmt2 fresh now ctx e))) n =
      (if n \<in> rule_name ` set (fired_rules ops now ctx e) then Some now else map_of (last_triggers e) n)"
  using evaluate_loop_spec [OF assms(1), of ops fmt2 fresh now ctx "[]" "last_triggers e"]
  by (simp_all add: evaluate_rules_def Let_def fired_rules_def map_of_fold_update)

text \<open>With a clock that does not go back, the elapsed seconds survive the cast.\<close>

lemma cooling_down_iff:
  assumes "map_of tr (rule_name r) = Some t" and "t \<le> now" and "now - t < 2 ^ 64"
  shows "cooling_down tr now r \<longleftrightarrow> num_seconds now t < uint (cooldown_secs r)"
proof -
  have "0 \<le> num_seconds now t" using assms(2) num_seconds_mono [of t t now] by (simp add: num_seconds_def)
  moreover have "num_seconds now t \<le> now - t"
    using assms(2) by (cases "now = t") (auto simp: num_seconds_def intro: order_trans [OF zdiv_mono2 [of "now - t" 1]])
  ultimately have "uint (word_of_int (num_seconds now t) :: u64) = num_seconds now t"
    using assms(3) by (simp add: unsigned_of_int take_bit_int_eq_self)
  with assms(1) show ?thesis by (simp add: cooling_down_def word_less_def)
qed

lemma num_seconds_antimono: "a \<le> b \<Longrightarrow> b \<le> now \<Longrightarrow> num_seconds now b \<le> num_seconds now a"
  by (cases "a = now"; cases "b = now") (auto simp: num_seconds_def zdiv_mono1 pos_imp_zdiv_nonneg_iff)

text \<open>The recorded trigger of a rule is the last evaluation in which it fired.\<close>

abbreviation fired_at where
  "fired_at ops fmt2 fresh xs e k \<equiv> fired_rules ops (fst (xs ! k)) (snd (xs ! k)) (engine_at ops fmt2 fresh xs e k)"

lemma rules_engine_at:
  "distinct (map rule_name (rules e)) \<Longrightarrow> rules (engine_at ops fmt2 fresh xs e k) = rules e"
  by (induction k) (simp_all add: evaluate_rules_next)

lemma trigger_is_last_firing:
  assumes names: "distinct (map rule_name (rules e))" and "last_triggers e = []" and r: "r \<in> set (rules e)"
  shows "case map_of (last_triggers (engine_at ops fmt2 fresh xs e k)) (rule_name r) of
      None \<Rightarrow> \<forall>i < k. r \<notin> set (fired_at ops fmt2 fresh xs e i)
    | Some t \<Rightarrow> \<exists>i < k. t = fst (xs ! i) \<and> r \<in> set (fired_at ops fmt2 fresh xs e i)
        \<and> (\<forall>j. i < j \<and> j < k \<longrightarrow> r \<notin> set (fired_at ops fmt2 fresh xs e j))"
proof (induction k)
  case (Suc k)
  let ?e = "engine_at ops fmt2 fresh xs e k"
  have n: "distinct (map rule_name (rules ?e))" using names by (simp add: rules_engine_at)
  have "rule_name r \<in> rule_name ` set (fired_at ops fmt2 fresh xs e k) \<longleftrightarrow> r \<in> set (fired_at ops fmt2 fresh xs e k)"
    using names r by (auto simp: fired_rules_def rules_engine_at distinct_map inj_on_def)
  then have m: "map_of (last_triggers (engine_at ops fmt2 fresh xs e (Suc k))) (rule_name r)
      = (if r \<in> set (fired_at ops fmt2 fresh xs e k) then Some (fst (xs ! k)) else map_of (last_triggers ?e) (rule_name r))"
    by (simp add: evaluate_rules_next(2) [OF n])
  show ?case
  proof (cases "r \<in> set (fired_at ops fmt2 fresh xs e k)")
    case True
    with m show ?thesis by (auto intro!: exI [of _ k])
  next
    case False
    with Suc m show ?thesis by (auto split: option.splits simp: less_Suc_eq)
  qed
qed (simp add: assms(2))

lemma cooled_down_iff:
  fixes xs :: "(datetime \<times> 'd rule_context) list"
  assumes names: "distinct (map rule_name (rules e))" and "last_triggers e = []" and r: "r \<in> set (rules e)"
    and "sorted (map fst xs)" and near: "\<forall>x \<in> set xs. \<forall>y \<in> set xs. fst x - fst y < 2 ^ 64" and k: "k < length xs"
  shows "\<not> cooling_down (last_triggers (engine_at ops fmt2 fresh xs e k)) (fst (xs ! k)) r
    \<longleftrightarrow> (\<forall>i < k. r \<in> set (fired_at ops fmt2 fresh xs e i) \<longrightarrow> uint (cooldown_secs r) \<le> num_seconds (fst (xs ! k)) (fst (xs ! i)))"
proof -
  let ?f = "fired_at ops fmt2 fresh xs e"
  show ?thesis
  proof (cases "map_of (last_triggers (engine_at ops fmt2 fresh xs e k)) (rule_name r)")
    case None
    with trigger_is_last_firing [OF assms(1-3), of k ops xs fmt2 fresh] show ?thesis by (simp add: cooling_down_def)
  next
    case (Some t)
    with trigger_is_last_firing [OF assms(1-3), of k ops xs fmt2 fresh]
    obtain i where i: "i < k" "t = fst (xs ! i)" "r \<in> set (?f i)" "\<And>j. i < j \<Longrightarrow> j < k \<Longrightarrow> r \<notin> set (?f j)" by auto
    have mono: "fst (xs ! a) \<le> fst (xs ! b)" if "a \<le> b" "b < length xs" for a b
      using sorted_nth_mono [OF assms(4), of a b] that by simp
    have c: "cooling_down (last_triggers (engine_at ops fmt2 fresh xs e k)) (fst (xs ! k)) r \<longleftrightarrow> num_seconds (fst (xs ! k)) t < uint (cooldown_secs r)"
      using near i k mono [of i k] by (intro cooling_down_iff [OF Some]) auto
    have late: "num_seconds (fst (xs ! k)) t \<le> num_seconds (fst (xs ! k)) (fst (xs ! j))" if j: "j < k" "r \<in> set (?f j)" for j
    proof -
      have "j \<le> i" using i(4) [of j] j by (cases "i < j") auto
      with i k mono show ?thesis by (auto intro!: num_seconds_antimono)
    qed
    show ?thesis
    proof
      assume "\<not> cooling_down (last_triggers (engine_at ops fmt2 fresh xs e k)) (fst (xs ! k)) r"
      with c late show "\<forall>i < k. r \<in> set (?f i) \<longrightarrow> uint (cooldown_secs r) \<le> num_seconds (fst (xs ! k)) (fst (xs ! i))" by force
    qed (use c i in auto)
  qed
qed

text \<open>C24. The alerts of the rules engine. From an engine that has not triggered yet, however often it is evaluated and on
  whatever contexts, each evaluation returns exactly one alert for every enabled rule whose condition
  holds and all of whose earlier alerts are at least its cooldown ago, in the order of the rules. The clock must
  not go back, the rules have different names, and the times lie within 64 bits of each other.\<close>

theorem alert_cooldown:
  assumes names: "distinct (map rule_name (rules e))" and "last_triggers e = []" and "sorted (map fst xs)"
    and "\<forall>x \<in> set xs. \<forall>y \<in> set xs. fst x - fst y < 2 ^ 64"
  shows "\<exists>fired. length fired = length xs \<and> (\<forall>k < length xs.
       alert_runs ops fmt2 fresh xs e ! k
         = map2 (rule_alert fmt2 (snd (xs ! k))) (fired ! k) (map fresh [0 ..< length (fired ! k)])
     \<and> fired ! k = filter (\<lambda>r. rule_enabled r \<and> evaluate_condition ops (rule_condition r) (snd (xs ! k))
           \<and> (\<forall>i < k. r \<in> set (fired ! i) \<longrightarrow> uint (cooldown_secs r) \<le> num_seconds (fst (xs ! k)) (fst (xs ! i)))) (rules e))"
proof (intro exI conjI allI impI)
  let ?at = "engine_at ops fmt2 fresh xs e" and ?f = "\<lambda>k. fired_at ops fmt2 fresh xs e k"
  let ?fired = "map ?f [0 ..< length xs]"
  show "length ?fired = length xs" by simp
  fix k assume k: "k < length xs"
  have n: "distinct (map rule_name (rules (?at k)))" using names by (simp add: rules_engine_at)
  show "alert_runs ops fmt2 fresh xs e ! k = map2 (rule_alert fmt2 (snd (xs ! k))) (?fired ! k) (map fresh [0 ..< length (?fired ! k)])"
    using evaluate_loop_spec [OF n, of ops fmt2 fresh "fst (xs ! k)" "snd (xs ! k)" "[]" "last_triggers (?at k)"] k
    by (simp add: alert_runs_nth evaluate_rules_def Let_def fired_rules_def)
  note cooled_down_iff [OF names assms(2) _ assms(3,4) k, of _ ops fmt2 fresh]
  with k show "?fired ! k = filter (\<lambda>r. rule_enabled r \<and> evaluate_condition ops (rule_condition r) (snd (xs ! k))
       \<and> (\<forall>i < k. r \<in> set (?fired ! i) \<longrightarrow> uint (cooldown_secs r) \<le> num_seconds (fst (xs ! k)) (fst (xs ! i)))) (rules e)"
    by (auto simp: fired_rules_def fires_def rules_engine_at [OF names] intro!: filter_cong)
qed

theorem alert_cooldown_witness:
  "map length (alert_runs example_ops (\<lambda>_. []) (\<lambda>_. ([], 0))
     [(0, example_context 0), (200000000000, example_context 0), (400000000000, example_context 0)] example_engine) = [1, 0, 1]
   \<and> (\<exists>fired. length fired = 3
     \<and> fired ! 1 = filter (\<lambda>r. rule_enabled r \<and> evaluate_condition example_ops (rule_condition r) (example_context 0)
           \<and> (r \<in> set (fired ! 0) \<longrightarrow> uint (cooldown_secs r) \<le> num_seconds 200000000000 0)) (rules example_engine))"
proof
  define xs :: "(datetime \<times> int rule_context) list"
    where xs: "xs = [(0, example_context 0), (200000000000, example_context 0), (400000000000, example_context 0)]"
  show "map length (alert_runs example_ops (\<lambda>_. []) (\<lambda>_. ([], 0))
     [(0, example_context 0), (200000000000, example_context 0), (400000000000, example_context 0)] example_engine) = [1, 0, 1]"
    by (simp add: example_engine_def example_rules_defs cooling_down_def evaluate_rules_def num_seconds_def word_less_def)
  have e: "distinct (map rule_name (rules example_engine))" "last_triggers example_engine = []"
    by (simp_all add: example_engine_names) (simp add: example_engine_def example_rules_defs)
  have x: "sorted (map fst xs)" "\<forall>x \<in> set xs. \<forall>y \<in> set xs. fst x - fst y < 2 ^ 64" "length xs = 3" by (simp_all add: xs)
  from alert_cooldown [OF e x(1,2), of example_ops "\<lambda>_. []" "\<lambda>_. ([], 0)"]
  obtain fired where f: "length fired = 3" "\<And>k. k < 3 \<Longrightarrow> fired ! k
      = filter (\<lambda>r. rule_enabled r \<and> evaluate_condition example_ops (rule_condition r) (snd (xs ! k))
           \<and> (\<forall>i < k. r \<in> set (fired ! i) \<longrightarrow> uint (cooldown_secs r) \<le> num_seconds (fst (xs ! k)) (fst (xs ! i)))) (rules example_engine)"
    unfolding x(3) by blast
  have "fired ! 1 = filter (\<lambda>r. rule_enabled r \<and> evaluate_condition example_ops (rule_condition r) (example_context 0)
           \<and> (r \<in> set (fired ! 0) \<longrightarrow> uint (cooldown_secs r) \<le> num_seconds 200000000000 0)) (rules example_engine)"
    by (subst f(2)) (simp_all add: xs)
  with f(1) show "\<exists>fired. length fired = 3
     \<and> fired ! 1 = filter (\<lambda>r. rule_enabled r \<and> evaluate_condition example_ops (rule_condition r) (example_context 0)
           \<and> (r \<in> set (fired ! 0) \<longrightarrow> uint (cooldown_secs r) \<le> num_seconds 200000000000 0)) (rules example_engine)"
    by blast
qed

text \<open>When the wall clock is set back, the elapsed seconds are negative and become a huge unsigned number, so
  the cooldown is over at once.\<close>

lemma clock_set_back_ends_cooldown:
  "\<not> cooling_down [(''range_exit'', 1000000000)] 0 (hd (rules example_engine))"
  by (simp add: cooling_down_def num_seconds_def example_engine_def example_rules_defs)

text \<open>Two rules with one name share one cooldown: the second does not fire in the evaluation in which
  the first does.\<close>

lemma same_name_shares_cooldown:
  "length (fst (evaluate_rules example_ops fmt2 fresh now (example_context 7)
     \<lparr>rules = [new_rule ''r'' CondRangeExit Warning AtRangeExit, new_rule ''r'' (ILExceeds 5) Critical AtILThreshold],
      last_triggers = []\<rparr>)) = 1"
  by (simp add: evaluate_rules_def new_rule_def cooling_down_def example_rules_defs num_seconds_def word_less_def)

end
