(* ===== verification/Lifecycle.thy ===== *)
theory Lifecycle
  imports Positions Json
begin

text \<open>
  \<^verbatim>\<open>execution/src/lifecycle\<close>: the events of positions, the tracker that logs them and keeps a summary
  per position, and the rows it appends to JSON-lines files. Identifiers, the clock, the texts of
  decimals, addresses and times, and whether a line could be written are parameters
  (\<open>lifecycle_ctx\<close>). The event log and the summaries are behind two locks; an operation first
  adds its event and then updates the summary. Operations are modelled one after the other. An
  overflow of a decimal addition panics and ends the calling task, while the tracker goes on with what was
  stored before: an operation returns the new tracker and whether it completed.
\<close>

section \<open>Events\<close>

datatype lifecycle_event_type =
  EvPositionOpened | EvLiquidityIncreased | EvLiquidityDecreased | EvRebalanced | EvFeesCollected | EvPositionClosed

datatype rebalance_reason = RrRangeExit | RrRetouchShift | RrILThreshold | RrPeriodic | RrManual | RrOptimization

text \<open>The derived \<^verbatim>\<open>Debug\<close> form.\<close>

fun debug_rebalance_reason :: "rebalance_reason \<Rightarrow> string" where
  "debug_rebalance_reason RrRangeExit = ''RangeExit''"
| "debug_rebalance_reason RrRetouchShift = ''RetouchShift''"
| "debug_rebalance_reason RrILThreshold = ''ILThreshold''"
| "debug_rebalance_reason RrPeriodic = ''Periodic''"
| "debug_rebalance_reason RrManual = ''Manual''"
| "debug_rebalance_reason RrOptimization = ''Optimization''"

datatype close_reason = CrManual | CrILThreshold | CrPnLTarget | CrEmergency | CrStrategyEnded

record 'd position_opened_data =
  od_tick_lower :: int
  od_tick_upper :: int
  od_liquidity :: u128
  od_amount_a :: u64
  od_amount_b :: u64
  od_entry_price :: 'd
  od_entry_value_usd :: 'd
  od_price_ab :: "'d option"

record liquidity_change_data =
  is_increase :: bool
  liquidity_delta :: u128
  lc_amount_a :: u64
  lc_amount_b :: u64
  lc_new_liquidity :: u128

record 'd rebalance_data =
  old_tick_lower :: int
  old_tick_upper :: int
  new_tick_lower :: int
  new_tick_upper :: int
  old_liquidity :: u128
  new_liquidity :: u128
  tx_cost_lamports :: u64
  il_at_rebalance :: 'd
  rebalance_reason_of :: rebalance_reason
  amount_a_before :: "u64 option"
  amount_b_before :: "u64 option"
  amount_a_after :: "u64 option"
  amount_b_after :: "u64 option"
  price_ab_before :: "'d option"
  price_ab_after :: "'d option"
  fees_a_collected :: "u64 option"
  fees_b_collected :: "u64 option"
  optimization_run_id :: "string option"
  range_adjustment_reason :: "string option"
  old_position :: "string option"

record 'd fees_collected_data =
  fc_fees_a :: u64
  fc_fees_b :: u64
  fc_fees_usd :: 'd

record 'd position_closed_data =
  liquidity_removed :: u128
  cd_amount_a :: u64
  cd_amount_b :: u64
  cd_price_ab :: "'d option"
  total_fees_a :: u64
  total_fees_b :: u64
  final_pnl_usd :: 'd
  final_pnl_pct :: 'd
  cd_total_il_pct :: 'd
  duration_hours :: u64
  close_reason_of :: close_reason

datatype 'd event_data =
  DataOpened "'d position_opened_data" | DataLiquidity liquidity_change_data | DataRebalance "'d rebalance_data"
| DataFees "'d fees_collected_data" | DataClosed "'d position_closed_data"

record 'd lifecycle_event =
  ev_id :: string
  event_type :: lifecycle_event_type
  ev_position :: pubkey
  ev_pool :: pubkey
  ev_signature :: "string option"
  ev_timestamp :: datetime
  ev_data :: "'d event_data"

section \<open>The tracker\<close>

record 'd position_summary =
  su_position :: pubkey
  su_pool :: pubkey
  su_opened_at :: datetime
  su_closed_at :: "datetime option"
  su_entry_value_usd :: 'd
  su_current_value_usd :: 'd
  total_fees_usd :: 'd
  rebalance_count :: u32
  total_tx_costs_lamports :: u64
  total_il_pct :: 'd
  su_net_pnl_usd :: 'd
  su_net_pnl_pct :: 'd
  is_open :: bool

text \<open>\<open>written\<close> lists the rows appended to files, with the path of the file.\<close>

record 'd lifecycle_tracker =
  lt_events :: "(pubkey \<times> 'd lifecycle_event list) list"
  lt_summaries :: "(pubkey \<times> 'd position_summary) list"
  il_ledger_path :: "string option"
  position_fee_ledger_path :: "string option"
  optimization_seq :: u64
  written :: "(string \<times> json) list"

record 'd lifecycle_ctx =
  ctx_id :: string
  ctx_now :: datetime
  ctx_row_time :: string
  ctx_show_dec :: "'d \<Rightarrow> string"
  ctx_show_key :: "pubkey \<Rightarrow> string"
  ctx_session_env :: "string option"
  ctx_write_ok :: "string \<Rightarrow> json \<Rightarrow> bool"

definition new_tracker :: "'d lifecycle_tracker" where
  "new_tracker = \<lparr>lt_events = [], lt_summaries = [], il_ledger_path = None, position_fee_ledger_path = None,
     optimization_seq = 0, written = []\<rparr>"

definition set_il_ledger_path :: "string option \<Rightarrow> 'd lifecycle_tracker \<Rightarrow> 'd lifecycle_tracker" where
  "set_il_ledger_path p t = t\<lparr>il_ledger_path := p\<rparr>"

definition set_position_fee_ledger_path :: "string option \<Rightarrow> 'd lifecycle_tracker \<Rightarrow> 'd lifecycle_tracker" where
  "set_position_fee_ledger_path p t = t\<lparr>position_fee_ledger_path := p\<rparr>"

definition bump_optimization_run_id :: "'d lifecycle_tracker \<Rightarrow> string \<times> 'd lifecycle_tracker" where
  "bump_optimization_run_id t =
     (let n = optimization_seq t + 1 in (''opt-'' @ show_nat (unat n), t\<lparr>optimization_seq := n\<rparr>))"

text \<open>A row that cannot be serialised or written is dropped.\<close>

definition append_row :: "'d lifecycle_ctx \<Rightarrow> string option \<Rightarrow> json \<Rightarrow> 'd lifecycle_tracker \<Rightarrow> 'd lifecycle_tracker" where
  "append_row ctx path row t =
     (case path of
        None \<Rightarrow> t
      | Some p \<Rightarrow> if ctx_write_ok ctx p row then t\<lparr>written := written t @ [(p, row)]\<rparr> else t)"

definition append_il_ledger_jsonl :: "'d lifecycle_ctx \<Rightarrow> json \<Rightarrow> 'd lifecycle_tracker \<Rightarrow> 'd lifecycle_tracker" where
  "append_il_ledger_jsonl ctx row t = append_row ctx (il_ledger_path t) row t"

definition append_position_fee_ledger_jsonl :: "'d lifecycle_ctx \<Rightarrow> json \<Rightarrow> 'd lifecycle_tracker \<Rightarrow> 'd lifecycle_tracker" where
  "append_position_fee_ledger_jsonl ctx row t = append_row ctx (position_fee_ledger_path t) row t"

text \<open>The bytes of an em dash in UTF-8.\<close>

definition em_dash :: string where
  "em_dash = [CHR 0xE2, CHR 0x80, CHR 0x94]"

text \<open>Values of \<^verbatim>\<open>serde_json::json!\<close>.\<close>

definition json_object :: "(string \<times> json) list \<Rightarrow> json" where
  "json_object kvs = JObject (fold (\<lambda>(k, v). bt_insert k v) kvs [])"

definition jopt :: "('a \<Rightarrow> json) \<Rightarrow> 'a option \<Rightarrow> json" where
  "jopt f x = (case x of None \<Rightarrow> JNull | Some y \<Rightarrow> f y)"

definition ju64 :: "u64 \<Rightarrow> json" where
  "ju64 n = JNumber (PosInt n)"

definition ji32 :: "int \<Rightarrow> json" where
  "ji32 i = JNumber (if 0 \<le> i then PosInt (of_int i) else NegInt i)"

definition new_event :: "'d lifecycle_ctx \<Rightarrow> lifecycle_event_type \<Rightarrow> pubkey \<Rightarrow> pubkey \<Rightarrow> 'd event_data \<Rightarrow> 'd lifecycle_event" where
  "new_event ctx ty pos pool_key d =
     \<lparr>ev_id = ctx_id ctx, event_type = ty, ev_position = pos, ev_pool = pool_key, ev_signature = None,
      ev_timestamp = ctx_now ctx, ev_data = d\<rparr>"

definition with_signature :: "string \<Rightarrow> 'd lifecycle_event \<Rightarrow> 'd lifecycle_event" where
  "with_signature s e = e\<lparr>ev_signature := Some s\<rparr>"

definition get_events :: "pubkey \<Rightarrow> 'd lifecycle_tracker \<Rightarrow> 'd lifecycle_event list" where
  "get_events pos t = (case map_of (lt_events t) pos of None \<Rightarrow> [] | Some es \<Rightarrow> es)"

definition add_event :: "pubkey \<Rightarrow> 'd lifecycle_event \<Rightarrow> 'd lifecycle_tracker \<Rightarrow> 'd lifecycle_tracker" where
  "add_event pos e t = t\<lparr>lt_events := AList.update pos (get_events pos t @ [e]) (lt_events t)\<rparr>"

text \<open>\<^verbatim>\<open>get_mut\<close> and an update in place.\<close>

definition update_summary ::
    "pubkey \<Rightarrow> ('d position_summary \<Rightarrow> 'd position_summary) \<Rightarrow> 'd lifecycle_tracker \<Rightarrow> 'd lifecycle_tracker" where
  "update_summary pos f t =
     (case map_of (lt_summaries t) pos of
        None \<Rightarrow> t
      | Some s \<Rightarrow> t\<lparr>lt_summaries := AList.update pos (f s) (lt_summaries t)\<rparr>)"

definition opened_summary ::
    "('d, 'a) decimal_ops_scheme \<Rightarrow> pubkey \<Rightarrow> pubkey \<Rightarrow> datetime \<Rightarrow> 'd position_opened_data \<Rightarrow> 'd position_summary" where
  "opened_summary ops pos pool_key now d =
     \<lparr>su_position = pos, su_pool = pool_key, su_opened_at = now, su_closed_at = None, su_entry_value_usd = od_entry_value_usd d,
      su_current_value_usd = od_entry_value_usd d, total_fees_usd = dec_zero ops, rebalance_count = 0,
      total_tx_costs_lamports = 0, total_il_pct = dec_zero ops, su_net_pnl_usd = dec_zero ops, su_net_pnl_pct = dec_zero ops,
      is_open = True\<rparr>"

definition record_position_opened ::
    "('d, 'a) decimal_ops_scheme \<Rightarrow> 'd lifecycle_ctx \<Rightarrow> pubkey \<Rightarrow> pubkey \<Rightarrow> 'd position_opened_data
      \<Rightarrow> 'd lifecycle_tracker \<Rightarrow> bool \<times> 'd lifecycle_tracker" where
  "record_position_opened ops ctx pos pool_key d t =
     (let event = new_event ctx EvPositionOpened pos pool_key (DataOpened d);
          t1 = add_event pos event t;
          t2 = t1\<lparr>lt_summaries := AList.update pos (opened_summary ops pos pool_key (ev_timestamp event) d) (lt_summaries t1)\<rparr>;
          row = json_object [(''schema_version'', ju64 1), (''event'', JString ''position_opened''),
            (''timestamp'', JString (ctx_row_time ctx)), (''position'', JString (ctx_show_key ctx pos)),
            (''pool'', JString (ctx_show_key ctx pool_key)), (''amount_a'', ju64 (od_amount_a d)),
            (''amount_b'', ju64 (od_amount_b d)), (''entry_price'', JString (ctx_show_dec ctx (od_entry_price d))),
            (''entry_value_usd'', JString (ctx_show_dec ctx (od_entry_value_usd d))),
            (''price_ab'', jopt (JString \<circ> ctx_show_dec ctx) (od_price_ab d))]
      in (True, append_il_ledger_jsonl ctx row t2))"

definition record_liquidity_change ::
    "'d lifecycle_ctx \<Rightarrow> pubkey \<Rightarrow> pubkey \<Rightarrow> liquidity_change_data \<Rightarrow> 'd lifecycle_tracker \<Rightarrow> bool \<times> 'd lifecycle_tracker" where
  "record_liquidity_change ctx pos pool_key d t =
     (let ty = (if is_increase d then EvLiquidityIncreased else EvLiquidityDecreased)
      in (True, add_event pos (new_event ctx ty pos pool_key (DataLiquidity d)) t))"

definition rebalanced_summary :: "'d rebalance_data \<Rightarrow> 'd position_summary \<Rightarrow> 'd position_summary" where
  "rebalanced_summary d s = s\<lparr>rebalance_count := rebalance_count s + 1,
     total_tx_costs_lamports := total_tx_costs_lamports s + tx_cost_lamports d\<rparr>"

definition record_rebalance ::
    "'d lifecycle_ctx \<Rightarrow> pubkey \<Rightarrow> pubkey \<Rightarrow> 'd rebalance_data \<Rightarrow> 'd lifecycle_tracker \<Rightarrow> bool \<times> 'd lifecycle_tracker" where
  "record_rebalance ctx pos pool_key d t =
     (let t1 = add_event pos (new_event ctx EvRebalanced pos pool_key (DataRebalance d)) t;
          t2 = update_summary pos (rebalanced_summary d) t1;
          row = json_object [(''schema_version'', ju64 1), (''event'', JString ''rebalance''),
            (''timestamp'', JString (ctx_row_time ctx)), (''position'', JString (ctx_show_key ctx pos)),
            (''pool'', JString (ctx_show_key ctx pool_key)), (''old_position'', jopt JString (old_position d)),
            (''amount_a_before'', jopt ju64 (amount_a_before d)), (''amount_b_before'', jopt ju64 (amount_b_before d)),
            (''amount_a_after'', jopt ju64 (amount_a_after d)), (''amount_b_after'', jopt ju64 (amount_b_after d)),
            (''price_ab_before'', jopt (JString \<circ> ctx_show_dec ctx) (price_ab_before d)),
            (''price_ab_after'', jopt (JString \<circ> ctx_show_dec ctx) (price_ab_after d)),
            (''fees_a_collected'', jopt ju64 (fees_a_collected d)), (''fees_b_collected'', jopt ju64 (fees_b_collected d)),
            (''il_at_rebalance'', JString (ctx_show_dec ctx (il_at_rebalance d))),
            (''tx_cost_lamports'', ju64 (tx_cost_lamports d)),
            (''reason'', JString (debug_rebalance_reason (rebalance_reason_of d))),
            (''optimization_run_id'', jopt JString (optimization_run_id d)),
            (''rebalance_session_id'', jopt JString (ctx_session_env ctx))]
      in (True, append_il_ledger_jsonl ctx row t2))"

definition record_rebalance_incomplete ::
    "'d lifecycle_ctx \<Rightarrow> pubkey \<Rightarrow> pubkey \<Rightarrow> int \<times> int \<Rightarrow> int \<times> int \<Rightarrow> rebalance_reason \<Rightarrow> string option
      \<Rightarrow> string option \<Rightarrow> 'd lifecycle_tracker \<Rightarrow> bool \<times> 'd lifecycle_tracker" where
  "record_rebalance_incomplete ctx old_pos pool_key old_ticks intended_ticks reason err run_id t =
     (let row = json_object [(''schema_version'', ju64 1), (''event'', JString ''rebalance_incomplete''),
            (''timestamp'', JString (ctx_row_time ctx)), (''old_position'', JString (ctx_show_key ctx old_pos)),
            (''pool'', JString (ctx_show_key ctx pool_key)), (''old_tick_lower'', ji32 (fst old_ticks)),
            (''old_tick_upper'', ji32 (snd old_ticks)), (''intended_tick_lower'', ji32 (fst intended_ticks)),
            (''intended_tick_upper'', ji32 (snd intended_ticks)), (''reason'', JString (debug_rebalance_reason reason)),
            (''error'', jopt JString err), (''rebalance_session_id'', jopt JString (ctx_session_env ctx)),
            (''optimization_run_id'', jopt JString run_id),
            (''hint'', JString (''Tokens returned to wallet after close; new range may need a different ratio '' @ em_dash @ '' swap then open, or use quote-open-budget caps.''))]
      in (True, append_il_ledger_jsonl ctx row t))"

definition record_fees_collected ::
    "('d, 'a) decimal_arith_scheme \<Rightarrow> 'd lifecycle_ctx \<Rightarrow> pubkey \<Rightarrow> pubkey \<Rightarrow> 'd fees_collected_data
      \<Rightarrow> 'd lifecycle_tracker \<Rightarrow> bool \<times> 'd lifecycle_tracker" where
  "record_fees_collected ops ctx pos pool_key d t =
     (let t1 = add_event pos (new_event ctx EvFeesCollected pos pool_key (DataFees d)) t
      in case map_of (lt_summaries t1) pos of
           None \<Rightarrow> (True, t1)
         | Some s \<Rightarrow>
             (case dec_add ops (total_fees_usd s) (fc_fees_usd d) of
                None \<Rightarrow> (False, t1)
              | Some fees \<Rightarrow> (True, update_summary pos (\<lambda>s. s\<lparr>total_fees_usd := fees\<rparr>) t1)))"

definition closed_summary :: "datetime \<Rightarrow> 'd position_closed_data \<Rightarrow> 'd position_summary \<Rightarrow> 'd position_summary" where
  "closed_summary now d s = s\<lparr>su_closed_at := Some now, is_open := False, su_net_pnl_usd := final_pnl_usd d,
     su_net_pnl_pct := final_pnl_pct d, total_il_pct := cd_total_il_pct d\<rparr>"

definition record_position_closed ::
    "'d lifecycle_ctx \<Rightarrow> pubkey \<Rightarrow> pubkey \<Rightarrow> 'd position_closed_data \<Rightarrow> 'd lifecycle_tracker \<Rightarrow> bool \<times> 'd lifecycle_tracker" where
  "record_position_closed ctx pos pool_key d t =
     (let event = new_event ctx EvPositionClosed pos pool_key (DataClosed d);
          t2 = update_summary pos (closed_summary (ev_timestamp event) d) (add_event pos event t);
          row = json_object [(''schema_version'', ju64 1), (''event'', JString ''position_closed''),
            (''timestamp'', JString (ctx_row_time ctx)), (''position'', JString (ctx_show_key ctx pos)),
            (''pool'', JString (ctx_show_key ctx pool_key)), (''amount_a'', ju64 (cd_amount_a d)),
            (''amount_b'', ju64 (cd_amount_b d)), (''price_ab'', jopt (JString \<circ> ctx_show_dec ctx) (cd_price_ab d)),
            (''total_il_pct'', JString (ctx_show_dec ctx (cd_total_il_pct d))),
            (''final_pnl_usd'', JString (ctx_show_dec ctx (final_pnl_usd d)))]
      in (True, append_il_ledger_jsonl ctx row t2))"

definition get_summary :: "pubkey \<Rightarrow> 'd lifecycle_tracker \<Rightarrow> 'd position_summary option" where
  "get_summary pos t = map_of (lt_summaries t) pos"

definition get_all_summaries ::
    "((pubkey \<times> 'd position_summary) list \<Rightarrow> (pubkey \<times> 'd position_summary) list) \<Rightarrow> 'd lifecycle_tracker \<Rightarrow> 'd position_summary list" where
  "get_all_summaries it t = map snd (it (lt_summaries t))"

definition get_open_positions ::
    "((pubkey \<times> 'd position_summary) list \<Rightarrow> (pubkey \<times> 'd position_summary) list) \<Rightarrow> 'd lifecycle_tracker \<Rightarrow> 'd position_summary list" where
  "get_open_positions it t = filter is_open (map snd (it (lt_summaries t)))"

definition get_closed_positions ::
    "((pubkey \<times> 'd position_summary) list \<Rightarrow> (pubkey \<times> 'd position_summary) list) \<Rightarrow> 'd lifecycle_tracker \<Rightarrow> 'd position_summary list" where
  "get_closed_positions it t = filter (\<lambda>s. \<not> is_open s) (map snd (it (lt_summaries t)))"

record 'd aggregate_stats =
  total_positions :: u32
  open_positions :: u32
  closed_positions :: u32
  st_total_fees_usd :: 'd
  total_pnl_usd :: 'd
  avg_pnl_pct :: 'd
  total_rebalances :: u32
  st_total_tx_costs_lamports :: u64

definition empty_stats :: "('d, 'a) decimal_ops_scheme \<Rightarrow> 'd aggregate_stats" where
  "empty_stats ops = \<lparr>total_positions = 0, open_positions = 0, closed_positions = 0, st_total_fees_usd = dec_zero ops,
     total_pnl_usd = dec_zero ops, avg_pnl_pct = dec_zero ops, total_rebalances = 0, st_total_tx_costs_lamports = 0\<rparr>"

definition add_to_stats ::
    "('d, 'a) decimal_arith_scheme \<Rightarrow> 'd position_summary \<Rightarrow> 'd aggregate_stats \<Rightarrow> 'd aggregate_stats option" where
  "add_to_stats ops s st = do {
     fees \<leftarrow> dec_add ops (st_total_fees_usd st) (total_fees_usd s);
     pnl_sum \<leftarrow> dec_add ops (total_pnl_usd st) (su_net_pnl_usd s);
     Some (st\<lparr>total_positions := total_positions st + 1,
              open_positions := open_positions st + (if is_open s then 1 else 0),
              closed_positions := closed_positions st + (if is_open s then 0 else 1),
              st_total_fees_usd := fees, total_pnl_usd := pnl_sum,
              total_rebalances := total_rebalances st + rebalance_count s,
              st_total_tx_costs_lamports := st_total_tx_costs_lamports st + total_tx_costs_lamports s\<rparr>)
   }"

definition get_aggregate_stats ::
    "('d, 'a) decimal_arith_scheme \<Rightarrow> ((pubkey \<times> 'd position_summary) list \<Rightarrow> (pubkey \<times> 'd position_summary) list)
      \<Rightarrow> 'd lifecycle_tracker \<Rightarrow> 'd aggregate_stats option" where
  "get_aggregate_stats ops it t =
     (let summaries = map snd (it (lt_summaries t)) in do {
      st \<leftarrow> fold_option (add_to_stats ops) summaries (empty_stats ops);
      if 0 < total_positions st then do {
        pct_sum \<leftarrow> dec_sum ops (map su_net_pnl_pct summaries);
        avg \<leftarrow> dec_div ops pct_sum (dec_new ops (uint (total_positions st)) 0);
        Some (st\<lparr>avg_pnl_pct := avg\<rparr>)
      } else Some st})"

text \<open>\<^verbatim>\<open>calculate_minutes_since_rebalance\<close> of the strategy executor: since the last rebalance event,
  else since the opening known from the summary, else the largest number.\<close>

definition num_minutes :: "datetime \<Rightarrow> datetime \<Rightarrow> int" where
  "num_minutes now earlier = sgn (num_seconds now earlier) * (\<bar>num_seconds now earlier\<bar> div 60)"

definition calculate_minutes_since_rebalance :: "'d lifecycle_tracker \<Rightarrow> datetime \<Rightarrow> pubkey \<Rightarrow> u64" where
  "calculate_minutes_since_rebalance t now pos =
     (case find (\<lambda>e. event_type e = EvRebalanced) (rev (get_events pos t)) of
        Some e \<Rightarrow> of_int (max (num_minutes now (ev_timestamp e)) 0)
      | None \<Rightarrow>
          (case get_summary pos t of
             Some s \<Rightarrow> of_int (max (num_minutes now (su_opened_at s)) 0)
           | None \<Rightarrow> - 1))"

section \<open>The summary of a position is the replay of its events\<close>

text \<open>The specification: what an event says about its position, every field written out. An opening starts
  a summary afresh. A rebalance counts one and adds its cost, both wrapping around at their width. A
  collection adds to the fees as far as the sum is a decimal. A closing sets the end and the final figures.\<close>

fun apply_event ::
    "('d, 'a) decimal_arith_scheme \<Rightarrow> 'd position_summary option \<Rightarrow> 'd lifecycle_event \<Rightarrow> 'd position_summary option" where
  "apply_event ops s e =
     (case (ev_data e, s) of
        (DataOpened d, _) \<Rightarrow>
          Some \<lparr>su_position = ev_position e, su_pool = ev_pool e, su_opened_at = ev_timestamp e, su_closed_at = None,
             su_entry_value_usd = od_entry_value_usd d, su_current_value_usd = od_entry_value_usd d,
             total_fees_usd = dec_zero ops, rebalance_count = 0, total_tx_costs_lamports = 0, total_il_pct = dec_zero ops,
             su_net_pnl_usd = dec_zero ops, su_net_pnl_pct = dec_zero ops, is_open = True\<rparr>
      | (_, None) \<Rightarrow> None
      | (DataLiquidity d, Some u) \<Rightarrow> Some u
      | (DataRebalance d, Some u) \<Rightarrow>
          Some (u\<lparr>rebalance_count := rebalance_count u + 1,
                  total_tx_costs_lamports := total_tx_costs_lamports u + tx_cost_lamports d\<rparr>)
      | (DataFees d, Some u) \<Rightarrow>
          (case dec_add ops (total_fees_usd u) (fc_fees_usd d) of
             None \<Rightarrow> Some u
           | Some fees \<Rightarrow> Some (u\<lparr>total_fees_usd := fees\<rparr>))
      | (DataClosed d, Some u) \<Rightarrow>
          Some (u\<lparr>su_closed_at := Some (ev_timestamp e), is_open := False, su_net_pnl_usd := final_pnl_usd d,
                  su_net_pnl_pct := final_pnl_pct d, total_il_pct := cd_total_il_pct d\<rparr>))"

definition replay :: "('d, 'a) decimal_arith_scheme \<Rightarrow> 'd lifecycle_event list \<Rightarrow> 'd position_summary option" where
  "replay ops es = foldl (apply_event ops) None es"

text \<open>The operations of the tracker.\<close>

datatype 'd lt_op =
  LtOpened "'d lifecycle_ctx" pubkey pubkey "'d position_opened_data"
| LtLiquidity "'d lifecycle_ctx" pubkey pubkey liquidity_change_data
| LtRebalance "'d lifecycle_ctx" pubkey pubkey "'d rebalance_data"
| LtIncomplete "'d lifecycle_ctx" pubkey pubkey "int \<times> int" "int \<times> int" rebalance_reason "string option" "string option"
| LtFees "'d lifecycle_ctx" pubkey pubkey "'d fees_collected_data"
| LtClosed "'d lifecycle_ctx" pubkey pubkey "'d position_closed_data"
| LtIlPath "string option" | LtFeePath "string option" | LtBump

fun lt_step :: "('d, 'a) decimal_arith_scheme \<Rightarrow> 'd lifecycle_tracker \<Rightarrow> 'd lt_op \<Rightarrow> 'd lifecycle_tracker" where
  "lt_step ops t (LtOpened ctx pos pool_key d) = snd (record_position_opened ops ctx pos pool_key d t)"
| "lt_step ops t (LtLiquidity ctx pos pool_key d) = snd (record_liquidity_change ctx pos pool_key d t)"
| "lt_step ops t (LtRebalance ctx pos pool_key d) = snd (record_rebalance ctx pos pool_key d t)"
| "lt_step ops t (LtIncomplete ctx pos pool_key old new r err run) =
     snd (record_rebalance_incomplete ctx pos pool_key old new r err run t)"
| "lt_step ops t (LtFees ctx pos pool_key d) = snd (record_fees_collected ops ctx pos pool_key d t)"
| "lt_step ops t (LtClosed ctx pos pool_key d) = snd (record_position_closed ctx pos pool_key d t)"
| "lt_step ops t (LtIlPath p) = set_il_ledger_path p t"
| "lt_step ops t (LtFeePath p) = set_position_fee_ledger_path p t"
| "lt_step ops t LtBump = snd (bump_optimization_run_id t)"

named_theorems tracker \<open>what the parts of an operation do to events and summaries\<close>

lemma get_events_more [tracker]:
  "get_events pos (t\<lparr>lt_summaries := s\<rparr>) = get_events pos t" "get_events pos (t\<lparr>written := w\<rparr>) = get_events pos t"
  "get_events pos (t\<lparr>il_ledger_path := p\<rparr>) = get_events pos t"
  "get_events pos (t\<lparr>position_fee_ledger_path := p\<rparr>) = get_events pos t"
  "get_events pos (t\<lparr>optimization_seq := n\<rparr>) = get_events pos t"
  by (simp_all add: get_events_def)

lemma append_row_tracker [tracker]:
  "get_events pos (append_row ctx p row t) = get_events pos t" "lt_summaries (append_row ctx p row t) = lt_summaries t"
  by (simp_all add: append_row_def tracker split: option.splits)

lemma add_event_tracker [tracker]:
  "get_events pos (add_event pos' e t) = (if pos = pos' then get_events pos t @ [e] else get_events pos t)"
  "lt_summaries (add_event pos' e t) = lt_summaries t"
  by (simp_all add: add_event_def get_events_def update_conv')

lemma update_summary_tracker [tracker]:
  "get_events pos (update_summary pos' f t) = get_events pos t"
  "map_of (lt_summaries (update_summary pos' f t)) pos =
     (if pos = pos' then map_option f (map_of (lt_summaries t) pos) else map_of (lt_summaries t) pos)"
  by (auto simp: update_summary_def tracker update_conv' split: option.splits)

lemmas tracker_ops = record_position_opened_def record_liquidity_change_def record_rebalance_def
  record_rebalance_incomplete_def record_fees_collected_def record_position_closed_def
  set_il_ledger_path_def set_position_fee_ledger_path_def bump_optimization_run_id_def
  append_il_ledger_jsonl_def Let_def

definition replayed :: "('d, 'a) decimal_arith_scheme \<Rightarrow> 'd lifecycle_tracker \<Rightarrow> bool" where
  "replayed ops t \<longleftrightarrow> (\<forall>pos. map_of (lt_summaries t) pos = replay ops (get_events pos t))"

lemma replay_snoc [simp]: "replay ops (es @ [e]) = apply_event ops (replay ops es) e"
  by (simp add: replay_def)

lemmas summary_updates = opened_summary_def rebalanced_summary_def closed_summary_def

lemma replayed_step: "replayed ops t \<Longrightarrow> replayed ops (lt_step ops t op)"
  by (cases op)
     (auto simp: replayed_def tracker_ops tracker update_conv' new_event_def summary_updates split: option.splits)

lemma replayed_steps: "replayed ops (foldl (lt_step ops) new_tracker es)"
proof -
  have "replayed ops t \<Longrightarrow> replayed ops (foldl (lt_step ops) t es)" for t
    by (induction es arbitrary: t) (simp_all add: replayed_step)
  then show ?thesis by (simp add: replayed_def new_tracker_def get_events_def replay_def)
qed

text \<open>Which operations record a rebalance or an opening of a position.\<close>

fun rebalances :: "pubkey \<Rightarrow> 'd lt_op \<Rightarrow> bool" where
  "rebalances pos (LtRebalance ctx p pool_key d) \<longleftrightarrow> p = pos"
| "rebalances pos _ \<longleftrightarrow> False"

fun opens :: "pubkey \<Rightarrow> 'd lt_op \<Rightarrow> bool" where
  "opens pos (LtOpened ctx p pool_key d) \<longleftrightarrow> p = pos"
| "opens pos _ \<longleftrightarrow> False"

text \<open>The event an operation is to log for a position.\<close>

fun logged :: "pubkey \<Rightarrow> 'd lt_op \<Rightarrow> 'd lifecycle_event list" where
  "logged pos (LtOpened ctx p k d) = (if p = pos then [new_event ctx EvPositionOpened p k (DataOpened d)] else [])"
| "logged pos (LtLiquidity ctx p k d) =
     (if p = pos then [new_event ctx (if is_increase d then EvLiquidityIncreased else EvLiquidityDecreased) p k (DataLiquidity d)]
      else [])"
| "logged pos (LtRebalance ctx p k d) = (if p = pos then [new_event ctx EvRebalanced p k (DataRebalance d)] else [])"
| "logged pos (LtFees ctx p k d) = (if p = pos then [new_event ctx EvFeesCollected p k (DataFees d)] else [])"
| "logged pos (LtClosed ctx p k d) = (if p = pos then [new_event ctx EvPositionClosed p k (DataClosed d)] else [])"
| "logged pos _ = []"

lemma get_events_step: "get_events pos (lt_step ops t op) = get_events pos t @ logged pos op"
  by (cases op) (auto simp: tracker_ops tracker split: option.splits)

lemma get_events_steps: "get_events pos (foldl (lt_step ops) t es) = get_events pos t @ concat (map (logged pos) es)"
  by (induction es arbitrary: t) (simp_all add: get_events_step del: lt_step.simps)

text \<open>C21. Event sourcing: after any sequence of tracker operations, one after the other, also when additions
  overflow or rows cannot be written, the log of a position holds exactly the events of the operations
  on it, in their order, and its summary is what these events say.\<close>

theorem summary_replays_events:
  "get_events pos (foldl (lt_step ops) new_tracker es) = concat (map (logged pos) es)
   \<and> get_summary pos (foldl (lt_step ops) new_tracker es) = replay ops (concat (map (logged pos) es))"
proof -
  have [simp]: "get_events pos new_tracker = []" by (simp add: get_events_def new_tracker_def)
  show ?thesis using replayed_steps [of ops es] by (simp add: replayed_def get_summary_def get_events_steps)
qed

text \<open>The time of the last rebalance event.\<close>

definition last_rebalance :: "pubkey \<Rightarrow> 'd lifecycle_tracker \<Rightarrow> datetime option" where
  "last_rebalance pos t = map_option ev_timestamp (find (\<lambda>e. event_type e = EvRebalanced) (rev (get_events pos t)))"

lemma last_rebalance_step:
  "last_rebalance pos (lt_step ops t op) =
     (case op of LtRebalance ctx p k d \<Rightarrow> if p = pos then Some (ctx_now ctx) else last_rebalance pos t
      | _ \<Rightarrow> last_rebalance pos t)"
  by (cases op) (auto simp: last_rebalance_def tracker_ops tracker new_event_def split: option.splits)

lemma last_rebalance_steps:
  "list_all (\<lambda>op. \<not> rebalances pos op) es \<Longrightarrow> last_rebalance pos (foldl (lt_step ops) t es) = last_rebalance pos t"
  by (induction es arbitrary: t) (auto simp: last_rebalance_step split: lt_op.splits)

lemma minutes_last_rebalance:
  "calculate_minutes_since_rebalance t now pos =
     (case last_rebalance pos t of
        Some u \<Rightarrow> of_int (max (num_minutes now u) 0)
      | None \<Rightarrow> (case get_summary pos t of
                  Some s \<Rightarrow> of_int (max (num_minutes now (su_opened_at s)) 0) | None \<Rightarrow> - 1))"
  by (simp add: calculate_minutes_since_rebalance_def last_rebalance_def split: option.splits)

text \<open>Only an opening creates a summary. No caller in the repository records one, so a position that was
  never rebalanced counts as last rebalanced a maximal time ago.\<close>

lemma no_summary_without_opening:
  "list_all (\<lambda>op. \<not> opens pos op) es \<Longrightarrow> get_summary pos t = None \<Longrightarrow> get_summary pos (foldl (lt_step ops) t es) = None"
proof (induction es arbitrary: t)
  case (Cons op es)
  from Cons.prems have "get_summary pos (lt_step ops t op) = None"
    by (cases op) (auto simp: get_summary_def tracker_ops tracker update_conv' split: option.splits)
  with Cons show ?case by simp
qed simp

lemma unopened_position_never_waits:
  assumes "list_all (\<lambda>op. \<not> opens pos op \<and> \<not> rebalances pos op) es"
  shows "calculate_minutes_since_rebalance (foldl (lt_step ops) new_tracker es) now pos = - 1"
proof -
  have "list_all (\<lambda>op. \<not> opens pos op) es" "list_all (\<lambda>op. \<not> rebalances pos op) es"
    using assms by (simp_all add: list_all_iff)
  then show ?thesis
    using no_summary_without_opening [of pos es new_tracker ops] last_rebalance_steps [of pos es ops new_tracker]
    by (simp add: minutes_last_rebalance new_tracker_def get_summary_def last_rebalance_def get_events_def)
qed

text \<open>After a rebalance has been recorded for a position, whatever else is recorded, the minutes the
  strategy counts for it start from that rebalance, until the next one.\<close>

theorem rebalance_restarts_minutes:
  assumes "list_all (\<lambda>op. \<not> rebalances pos op) es"
  shows "calculate_minutes_since_rebalance (foldl (lt_step ops) (lt_step ops t (LtRebalance ctx pos pool_key d)) es) now pos =
    of_int (max (num_minutes now (ctx_now ctx)) 0)"
  using assms by (simp add: minutes_last_rebalance last_rebalance_steps last_rebalance_step del: lt_step.simps)

section \<open>Statistics\<close>

lemma fold_stats_counts:
  assumes "fold_option (add_to_stats ops) ss st = Some st'"
  shows "total_positions st' = total_positions st + of_nat (length ss)
    \<and> open_positions st' = open_positions st + of_nat (length (filter is_open ss))
    \<and> closed_positions st' = closed_positions st + of_nat (length (filter (\<lambda>s. \<not> is_open s) ss))
    \<and> total_rebalances st' = total_rebalances st + sum_list (map rebalance_count ss)
    \<and> st_total_tx_costs_lamports st' = st_total_tx_costs_lamports st + sum_list (map total_tx_costs_lamports ss)"
  using assms
  by (induction ss arbitrary: st) (auto simp: add_to_stats_def bind_eq_Some_conv algebra_simps)

theorem aggregate_stats_spec:
  assumes "get_aggregate_stats ops it t = Some st"
  shows "total_positions st = of_nat (length (get_all_summaries it t))
    \<and> open_positions st = of_nat (length (get_open_positions it t))
    \<and> closed_positions st = of_nat (length (get_closed_positions it t))
    \<and> total_rebalances st = sum_list (map rebalance_count (get_all_summaries it t))"
proof -
  obtain st0 where "fold_option (add_to_stats ops) (get_all_summaries it t) (empty_stats ops) = Some st0"
    "\<exists>avg. st = st0 \<or> st = st0\<lparr>avg_pnl_pct := avg\<rparr>"
    using assms by (auto simp: get_aggregate_stats_def Let_def bind_eq_Some_conv get_all_summaries_def split: if_splits)
  from fold_stats_counts [OF this(1)] this(2) show ?thesis
    by (auto simp: empty_stats_def get_all_summaries_def get_open_positions_def get_closed_positions_def)
qed

end
