(* ===== verification/Impermanent_Loss.thy ===== *)
theory Impermanent_Loss
  imports Pool_Reader Json
begin

text \<open>
  The decimal mathematics of \<^verbatim>\<open>domain/src/math/concentrated_liquidity.rs\<close> (amounts of a range at given
  square-root prices, and back) and \<^verbatim>\<open>domain/src/metrics/impermanent_loss.rs\<close>. The result of a
  fallible function that may also panic is an optional sum: \<open>None\<close> is a panic, \<open>Inl\<close> the error
  message. Decimals are the interface of \<open>Decimals\<close>, with the conversions below.
\<close>

text \<open>\<^verbatim>\<open>to_f64\<close>, \<^verbatim>\<open>to_u128\<close>, \<^verbatim>\<open>From<u128>\<close> (which panics beyond 96 bits), \<^verbatim>\<open>from_str\<close>, \<^verbatim>\<open>trunc\<close> and
  \<^verbatim>\<open>from_f64_retain\<close>.\<close>

record 'd decimal_conv =
  dc_to_f64 :: "'d \<Rightarrow> f64 option"
  dc_to_u128 :: "'d \<Rightarrow> u128 option"
  dc_from_u128 :: "u128 \<Rightarrow> 'd option"
  dc_from_str :: "string \<Rightarrow> 'd option"
  dc_trunc :: "'d \<Rightarrow> 'd"
  dc_from_f64_retain :: "f64 \<Rightarrow> 'd option"

type_synonym 'a rust_result = "(string + 'a) option"

text \<open>The operator \<^verbatim>\<open>?\<close>, and \<^verbatim>\<open>ok_or\<close>.\<close>

definition try_then :: "'a rust_result \<Rightarrow> ('a \<Rightarrow> 'b rust_result) \<Rightarrow> 'b rust_result" where
  "try_then r f = (case r of None \<Rightarrow> None | Some (Inl e) \<Rightarrow> Some (Inl e) | Some (Inr x) \<Rightarrow> f x)"

definition ok_or :: "string \<Rightarrow> 'a option \<Rightarrow> 'a rust_result" where
  "ok_or e x = Some (case x of None \<Rightarrow> Inl e | Some y \<Rightarrow> Inr y)"

lemma try_then_Some_Inr:
  "try_then r f = Some (Inr y) \<longleftrightarrow> (\<exists>x. r = Some (Inr x) \<and> f x = Some (Inr y))"
  by (auto simp: try_then_def split: option.splits sum.splits)

lemma ok_or_Some_Inr [simp]: "ok_or e x = Some (Inr y) \<longleftrightarrow> x = Some y"
  by (simp add: ok_or_def split: option.splits)

section \<open>Amounts and liquidity\<close>

definition sort_prices :: "('d, 'a) decimal_ops_scheme \<Rightarrow> 'd \<Rightarrow> 'd \<Rightarrow> 'd \<times> 'd" where
  "sort_prices ops a b = (if dec_gt ops b a then (a, b) else (b, a))"

definition get_amount0_delta ::
    "('d, 'a) decimal_arith_scheme \<Rightarrow> 'd decimal_conv \<Rightarrow> u128 \<Rightarrow> 'd \<Rightarrow> 'd \<Rightarrow> u128 rust_result" where
  "get_amount0_delta ops dc liq sqrt_price_a sqrt_price_b =
     (if \<not> dec_gt ops sqrt_price_a (dec_zero ops) \<or> \<not> dec_gt ops sqrt_price_b (dec_zero ops)
      then Some (Inl ''Sqrt price must be positive'')
      else (let (lower, upper) = sort_prices ops sqrt_price_a sqrt_price_b in do {
        liquidity_dec \<leftarrow> dc_from_u128 dc liq;
        num \<leftarrow> dec_sub ops upper lower;
        den \<leftarrow> dec_mul ops lower upper;
        (if dec_is_zero ops den then Some (Inl ''Denominator zero'')
         else do {
           factor \<leftarrow> dec_div ops num den;
           amount \<leftarrow> dec_mul ops liquidity_dec factor;
           ok_or ''Overflow converting amount'' (dc_to_u128 dc amount) }) }))"

definition get_amount1_delta ::
    "('d, 'a) decimal_arith_scheme \<Rightarrow> 'd decimal_conv \<Rightarrow> u128 \<Rightarrow> 'd \<Rightarrow> 'd \<Rightarrow> u128 rust_result" where
  "get_amount1_delta ops dc liq sqrt_price_a sqrt_price_b =
     (let (lower, upper) = sort_prices ops sqrt_price_a sqrt_price_b in do {
      liquidity_dec \<leftarrow> dc_from_u128 dc liq;
      diff \<leftarrow> dec_sub ops upper lower;
      amount \<leftarrow> dec_mul ops liquidity_dec diff;
      ok_or ''Overflow converting amount'' (dc_to_u128 dc amount) })"

text \<open>A token amount is a 256-bit integer in the source; it is converted through its decimal text.\<close>

definition get_liquidity_for_amount0 ::
    "('d, 'a) decimal_arith_scheme \<Rightarrow> 'd decimal_conv \<Rightarrow> nat \<Rightarrow> 'd \<Rightarrow> 'd \<Rightarrow> u128 rust_result" where
  "get_liquidity_for_amount0 ops dc amount0 sqrt_price_a sqrt_price_b =
     (let (lower, upper) = sort_prices ops sqrt_price_a sqrt_price_b in
      try_then (ok_or ''Conversion error'' (dc_from_str dc (show_nat amount0))) (\<lambda>amount0_dec. do {
        m \<leftarrow> dec_mul ops amount0_dec lower;
        num \<leftarrow> dec_mul ops m upper;
        den \<leftarrow> dec_sub ops upper lower;
        (if dec_is_zero ops den then Some (Inl ''Range too small'')
         else do {
           liq \<leftarrow> dec_div ops num den;
           ok_or ''Overflow'' (dc_to_u128 dc liq) }) }))"

definition get_liquidity_for_amount1 ::
    "('d, 'a) decimal_arith_scheme \<Rightarrow> 'd decimal_conv \<Rightarrow> nat \<Rightarrow> 'd \<Rightarrow> 'd \<Rightarrow> u128 rust_result" where
  "get_liquidity_for_amount1 ops dc amount1 sqrt_price_a sqrt_price_b =
     (let (lower, upper) = sort_prices ops sqrt_price_a sqrt_price_b in
      try_then (ok_or ''Conversion error'' (dc_from_str dc (show_nat amount1))) (\<lambda>amount1_dec. do {
        den \<leftarrow> dec_sub ops upper lower;
        (if dec_is_zero ops den then Some (Inl ''Range too small'')
         else do {
           liq \<leftarrow> dec_div ops amount1_dec den;
           ok_or ''Overflow'' (dc_to_u128 dc liq) }) }))"

section \<open>Impermanent loss\<close>

definition calculate_il_constant_product ::
    "('d, 'a) decimal_arith_scheme \<Rightarrow> float_fns \<Rightarrow> 'd decimal_conv \<Rightarrow> 'd \<Rightarrow> 'd \<Rightarrow> 'd rust_result" where
  "calculate_il_constant_product ops fl dc entry current =
     (if dec_is_zero ops entry then Some (Inl ''Entry price cannot be zero'')
      else do {
        price_ratio \<leftarrow> dec_div ops current entry;
        try_then (ok_or ''Overflow converting to f64'' (dc_to_f64 dc price_ratio)) (\<lambda>ratio_f64.
          let sqrt_ratio = f64_sqrt fl ratio_f64;
              numerator = f64_mul (f64_lit 2) sqrt_ratio;
              denominator = f64_add (f64_lit 1) ratio_f64;
              result_f64 = f64_sub (f64_div numerator denominator) (f64_lit 1)
          in ok_or ''Overflow converting result'' (dec_from_f64 ops result_f64)) })"

text \<open>The closures \<^verbatim>\<open>sqrt\<close> and \<^verbatim>\<open>get_amounts\<close> of \<^verbatim>\<open>calculate_il_concentrated\<close>; \<open>il_liquidity\<close> is its
  constant.\<close>

definition il_liquidity :: u128 where
  "il_liquidity = 1000000000000000000"

definition decimal_sqrt :: "('d, 'a) decimal_arith_scheme \<Rightarrow> float_fns \<Rightarrow> 'd decimal_conv \<Rightarrow> 'd \<Rightarrow> 'd rust_result" where
  "decimal_sqrt ops fl dc p =
     try_then (ok_or ''Overflow'' (dc_to_f64 dc p)) (\<lambda>f. ok_or ''Overflow'' (dec_from_f64 ops (f64_sqrt fl f)))"

definition il_amounts ::
    "('d, 'a) decimal_arith_scheme \<Rightarrow> 'd decimal_conv \<Rightarrow> 'd \<Rightarrow> 'd \<Rightarrow> 'd \<Rightarrow> ('d \<times> 'd) rust_result" where
  "il_amounts ops dc sqrt_lower sqrt_upper p_sqrt =
     (let parsed = (\<lambda>a. map_option Inr (dc_from_str dc (show_nat (unat a)))) in
      if dec_gt ops sqrt_lower p_sqrt then
        try_then (get_amount0_delta ops dc il_liquidity sqrt_lower sqrt_upper) (\<lambda>a0.
        try_then (parsed a0) (\<lambda>amt0. Some (Inr (amt0, dec_zero ops))))
      else if dec_ge ops p_sqrt sqrt_upper then
        try_then (get_amount1_delta ops dc il_liquidity sqrt_lower sqrt_upper) (\<lambda>a1.
        try_then (parsed a1) (\<lambda>amt1. Some (Inr (dec_zero ops, amt1))))
      else
        try_then (get_amount0_delta ops dc il_liquidity p_sqrt sqrt_upper) (\<lambda>a0.
        try_then (parsed a0) (\<lambda>amt0.
        try_then (get_amount1_delta ops dc il_liquidity sqrt_lower p_sqrt) (\<lambda>a1.
        try_then (parsed a1) (\<lambda>amt1. Some (Inr (amt0, amt1)))))))"

definition value_at :: "('d, 'a) decimal_arith_scheme \<Rightarrow> 'd \<Rightarrow> 'd \<times> 'd \<Rightarrow> 'd option" where
  "value_at ops price xy = do { v \<leftarrow> dec_mul ops (fst xy) price; dec_add ops v (snd xy) }"

definition calculate_il_concentrated ::
    "('d, 'a) decimal_arith_scheme \<Rightarrow> float_fns \<Rightarrow> 'd decimal_conv \<Rightarrow> 'd \<Rightarrow> 'd \<Rightarrow> 'd \<Rightarrow> 'd \<Rightarrow> 'd rust_result" where
  "calculate_il_concentrated ops fl dc entry current price_lower price_upper =
     (if dec_is_zero ops entry \<or> dec_is_zero ops price_lower \<or> dec_is_zero ops price_upper
      then Some (Inl ''Prices must be non-zero'')
      else if dec_ge ops price_lower price_upper then Some (Inl ''Invalid range'')
      else
        try_then (decimal_sqrt ops fl dc entry) (\<lambda>sqrt_entry.
        try_then (decimal_sqrt ops fl dc current) (\<lambda>sqrt_curr.
        try_then (decimal_sqrt ops fl dc price_lower) (\<lambda>sqrt_lower.
        try_then (decimal_sqrt ops fl dc price_upper) (\<lambda>sqrt_upper.
        try_then (il_amounts ops dc sqrt_lower sqrt_upper sqrt_entry) (\<lambda>xy0.
        try_then (il_amounts ops dc sqrt_lower sqrt_upper sqrt_curr) (\<lambda>xy1. do {
          value_held \<leftarrow> value_at ops current xy0;
          value_lp \<leftarrow> value_at ops current xy1;
          (if dec_is_zero ops value_held then Some (Inr (dec_zero ops))
           else do {
             diff \<leftarrow> dec_sub ops value_lp value_held;
             il \<leftarrow> dec_div ops diff value_held;
             Some (Inr il) }) })))))))"

text \<open>\<^verbatim>\<open>unwrap_or(Decimal::ZERO)\<close>, as every caller uses the result; a panic stays a panic.\<close>

definition il_or_zero :: "('d, 'a) decimal_arith_scheme \<Rightarrow> 'd rust_result \<Rightarrow> 'd option" where
  "il_or_zero ops r = map_option (\<lambda>s. case s of Inl _ \<Rightarrow> dec_zero ops | Inr x \<Rightarrow> x) r"

text \<open>What the decimals promise about zero: a difference of equal numbers is zero, a quotient of zero is
  zero, and zero is zero.\<close>

definition zero_laws :: "('d, 'a) decimal_arith_scheme \<Rightarrow> bool" where
  "zero_laws ops \<longleftrightarrow> dec_is_zero ops (dec_zero ops)
     \<and> (\<forall>a d. dec_sub ops a a = Some d \<longrightarrow> dec_is_zero ops d)
     \<and> (\<forall>a b d. dec_is_zero ops a \<and> dec_div ops a b = Some d \<longrightarrow> dec_is_zero ops d)"

text \<open>At the entry price there is no loss: the held and the provided tokens are the same.\<close>

lemma il_zero_at_entry:
  assumes "zero_laws ops" and "calculate_il_concentrated ops fl dc p p lower upper = Some (Inr il)"
  shows "dec_is_zero ops il"
proof -
  have "\<exists>v. il = dec_zero ops \<or> (\<exists>diff. dec_sub ops v v = Some diff \<and> dec_div ops diff v = Some il)"
    using assms(2)
    by (auto simp: calculate_il_concentrated_def try_then_Some_Inr bind_eq_Some_conv split: if_splits)
  with assms(1) show ?thesis by (metis zero_laws_def)
qed

section \<open>Amounts and back, with exact decimals\<close>

text \<open>Idealised decimals, for examples: \<open>rat_ops\<close> with exact conversions that truncate to whole numbers. Unlike
  \<^verbatim>\<open>rust_decimal\<close> they have no limit of 96 bits or 28 digits, and so neither round nor panic by overflow.\<close>

definition rat_conv :: "rat decimal_conv" where
  "rat_conv = \<lparr>dc_to_f64 = (\<lambda>d. Some (f64_of_rat False d)),
     dc_to_u128 = (\<lambda>d. if 0 \<le> d \<and> d < 2 ^ 128 then Some (of_int \<lfloor>d\<rfloor>) else None),
     dc_from_u128 = (\<lambda>n. Some (of_nat (unat n))),
     dc_from_str = (\<lambda>s. map_option of_nat (parse_nat s)),
     dc_trunc = (\<lambda>d. if d < 0 then of_int \<lceil>d\<rceil> else of_int \<lfloor>d\<rfloor>),
     dc_from_f64_retain = (\<lambda>_. None)\<rparr>"

lemma unat_floor_u128:
  assumes "0 \<le> d" and "d < (2 ^ 128 :: rat)"
  shows "(unsigned (of_int \<lfloor>d\<rfloor> :: u128) :: rat) = of_int \<lfloor>d\<rfloor>"
proof -
  have "0 \<le> \<lfloor>d\<rfloor>" "\<lfloor>d\<rfloor> < 2 ^ 128" using assms by (simp_all add: floor_less_iff)
  then have "uint (of_int \<lfloor>d\<rfloor> :: u128) = \<lfloor>d\<rfloor>" by (simp add: unsigned_of_int take_bit_int_eq_self)
  then show ?thesis by (metis of_int_uint)
qed

lemmas rat_decimals = rat_ops_def rat_conv_def dec_zero_def dec_is_zero_def sort_prices_def

lemma get_amount0_rat:
  assumes "0 < l" and "l < u"
  shows "get_amount0_delta rat_ops rat_conv liq l u =
    ok_or ''Overflow converting amount'' (dc_to_u128 rat_conv (unsigned liq * ((u - l) / (l * u))))"
proof -
  have "0 < l * u" "0 < u" using assms by simp_all
  with assms show ?thesis by (simp add: get_amount0_delta_def rat_decimals not_le not_less [symmetric])
qed

lemma get_liquidity0_rat:
  assumes "0 < l" and "l < u"
  shows "get_liquidity_for_amount0 rat_ops rat_conv n l u =
    ok_or ''Overflow'' (dc_to_u128 rat_conv (of_nat n * l * u / (u - l)))"
  using assms by (simp add: get_liquidity_for_amount0_def rat_decimals try_then_def ok_or_def)

text \<open>In exact arithmetic the two formulas are inverse to each other up to truncation: the amount of token 0 of a liquidity over a range,
  turned back into liquidity, never gives more than the original, and at most one more than the
  liquidity of a single token unit less.\<close>

theorem amount0_roundtrip:
  assumes "0 < l" and "l < u" and "get_amount0_delta rat_ops rat_conv liq l u = Some (Inr a)"
  shows "\<exists>liq'. get_liquidity_for_amount0 rat_ops rat_conv (unat a) l u = Some (Inr liq') \<and> liq' \<le> liq
    \<and> (unsigned liq :: rat) < unsigned liq' + l * u / (u - l) + 1"
proof -
  define L where "L = (unsigned liq :: rat)"
  define k where "k = l * u / (u - l)"
  have k: "0 < k" using assms(1,2) by (simp add: k_def)
  have "(u - l) / (l * u) = 1 / k" by (simp add: k_def)
  with assms have a: "0 \<le> L / k" "L / k < 2 ^ 128" "a = of_int \<lfloor>L / k\<rfloor>"
    unfolding get_amount0_rat [OF assms(1,2)] L_def by (auto simp: rat_conv_def split: if_splits)
  then have ua: "(unsigned a :: rat) = (of_int \<lfloor>L / k\<rfloor> :: rat)" by (simp add: unat_floor_u128)
  define M where "M = (unsigned a :: rat) * k"
  have M: "0 \<le> M" "M \<le> L" "L < M + k"
  proof -
    show "0 \<le> M" using k a(1) by (simp add: M_def ua)
    have "(unsigned a :: rat) \<le> L / k" "L / k < (unsigned a :: rat) + 1" unfolding ua by linarith+
    with k show "M \<le> L" "L < M + k" by (simp_all add: M_def field_simps)
  qed
  have "L < 2 ^ 128"
  proof -
    have "(of_nat (unat liq) :: rat) < of_nat (2 ^ 128)"
      using unsigned_less [of liq] by (simp only: of_nat_less_iff) simp
    then show ?thesis by (simp add: L_def)
  qed
  with M have bound: "M < 2 ^ 128" by simp
  have "(unsigned a :: rat) * l * u / (u - l) = M" by (simp add: M_def k_def)
  with M bound have r: "get_liquidity_for_amount0 rat_ops rat_conv (unat a) l u = Some (Inr (of_int \<lfloor>M\<rfloor>))"
    unfolding get_liquidity0_rat [OF assms(1,2)] by (simp add: ok_or_def rat_conv_def)
  have um: "(unsigned (of_int \<lfloor>M\<rfloor> :: u128) :: rat) = of_int \<lfloor>M\<rfloor>"
    by (rule unat_floor_u128 [OF M(1) bound])
  moreover have "of_int \<lfloor>M\<rfloor> \<le> L" "L < of_int \<lfloor>M\<rfloor> + k + 1" using M by linarith+
  ultimately have "(unsigned (of_int \<lfloor>M\<rfloor> :: u128) :: rat) \<le> unsigned liq"
    "unsigned liq < (unsigned (of_int \<lfloor>M\<rfloor> :: u128) :: rat) + k + 1" unfolding L_def by simp_all
  moreover from this(1) have "(of_int \<lfloor>M\<rfloor> :: u128) \<le> liq"
    by (metis of_nat_le_iff of_nat_unat word_le_nat_alt)
  ultimately show ?thesis using r by (auto simp: k_def)
qed

theorem amount0_roundtrip_witness:
  "get_amount0_delta rat_ops rat_conv 1000 (1 / 2) (3 / 2) = Some (Inr 1333)
   \<and> (\<exists>liq'. get_liquidity_for_amount0 rat_ops rat_conv 1333 (1 / 2) (3 / 2) = Some (Inr liq') \<and> liq' \<le> 1000)"
proof -
  have "\<lfloor>4000 / 3 :: rat\<rfloor> = 1333" by (rule floor_unique) simp_all
  then have "get_amount0_delta rat_ops rat_conv 1000 (1 / 2) (3 / 2) = Some (Inr 1333)"
    by (subst get_amount0_rat) (simp_all add: ok_or_def rat_conv_def)
  from amount0_roundtrip [OF _ _ this] this show ?thesis by auto
qed

end
