(* ===== verification/Position_Monitor.thy ===== *)
theory Position_Monitor
  imports Alerts Impermanent_Loss
begin

text \<open>
  \<^verbatim>\<open>execution/src/monitor/position_monitor.rs\<close>: the monitored positions, their refresh from the chain
  and the alerts it raises. The RPC calls, the clock and the consumers of alerts act on an abstract
  world; positions and pools are read by the operations of \<open>Position_Reader\<close> and \<open>Pool_Reader\<close>. Between
  the reads and the update of the table other tasks may change the table (\<open>me_during\<close>).
  The result \<open>None\<close> is a panic.
\<close>

record 'd monitor_config =
  poll_interval_secs :: u64
  alerts_enabled :: bool
  il_warning_threshold :: 'd
  il_critical_threshold :: 'd
  range_exit_alert :: bool
  webhook_url :: "string option"

definition default_monitor_config ::
    "('d, 'a) decimal_ops_scheme \<Rightarrow> (string \<rightharpoonup> string) \<Rightarrow> 'd monitor_config" where
  "default_monitor_config ops env =
     \<lparr>poll_interval_secs = 30, alerts_enabled = True, il_warning_threshold = dec_new ops 5 2,
      il_critical_threshold = dec_new ops 10 2, range_exit_alert = True,
      webhook_url = (case env ''CLMM_ALERT_WEBHOOK_URL'' of
                       Some s \<Rightarrow> if s = [] then None else Some s | None \<Rightarrow> None)\<rparr>"

type_synonym 'd position_table = "(pubkey \<times> 'd monitored_position) list"

record 'd position_monitor =
  pm_positions :: "'d position_table"
  pm_config :: "'d monitor_config"
  alert_rules :: "'d alert_rule list"

definition new_monitor :: "'d monitor_config \<Rightarrow> 'd position_monitor" where
  "new_monitor cfg = \<lparr>pm_positions = [], pm_config = cfg, alert_rules = []\<rparr>"

record ('d, 'w) monitor_env =
  me_from_str :: "string \<Rightarrow> pubkey option"
  me_to_string :: "pubkey \<Rightarrow> string"
  me_get_account :: "pubkey \<Rightarrow> 'w \<Rightarrow> (string list + u8 list) \<times> 'w"
  me_position_from_slice :: "u8 list \<Rightarrow> whirlpool_position option"
  me_error_chain :: "position_error \<Rightarrow> string list"
  me_show_dec :: "'d \<Rightarrow> string"
  me_clock :: "'w \<Rightarrow> datetime \<times> 'w"
  me_stamp :: "'w \<Rightarrow> (string \<times> datetime) \<times> 'w"
  me_callback :: "('d alert \<Rightarrow> 'w \<Rightarrow> 'w) option"
  me_notifiers :: "('d alert \<Rightarrow> 'w \<Rightarrow> (string + unit) \<times> 'w) list option"
  me_during :: "'d position_table \<Rightarrow> 'd position_table"

definition emit_alert :: "('d, 'w, 'z) monitor_env_scheme \<Rightarrow> 'd alert \<Rightarrow> 'w \<Rightarrow> 'w" where
  "emit_alert env a w =
     (let w1 = (case me_callback env of None \<Rightarrow> w | Some cb \<Rightarrow> cb a w) in
      case me_notifiers env of None \<Rightarrow> w1 | Some ns \<Rightarrow> notify_all ns a w1)"

text \<open>Errors of the operations: those of the two readers.\<close>

datatype monitor_error = PositionRead position_error | PoolRead pool_error

definition read_position ::
    "('d, 'w, 'z) monitor_env_scheme \<Rightarrow> string \<Rightarrow> 'w \<Rightarrow> (position_error + on_chain_position) \<times> 'w" where
  "read_position env address w =
     get_position (me_from_str env) (me_get_account env) (me_position_from_slice env) address w"

definition read_pool ::
    "'d decimal_arith \<Rightarrow> ('d, 'w, 'z) monitor_env_scheme \<Rightarrow> pubkey \<Rightarrow> 'w \<Rightarrow> (pool_error + 'd whirlpool_state) \<times> 'w" where
  "read_pool ops env key w = get_pool_state ops (me_from_str env) (me_get_account env) (me_to_string env key) w"

definition position_il ::
    "'d decimal_arith \<Rightarrow> float_fns \<Rightarrow> 'd decimal_conv \<Rightarrow> on_chain_position \<Rightarrow> 'd \<Rightarrow> 'd \<Rightarrow> 'd option" where
  "position_il ops fl dc p entry current =
     il_or_zero ops (calculate_il_concentrated ops fl dc entry current
       (tick_to_price ops fl (oc_tick_lower p)) (tick_to_price ops fl (oc_tick_upper p)))"

definition add_position ::
    "'d decimal_arith \<Rightarrow> float_fns \<Rightarrow> 'd decimal_conv \<Rightarrow> ('d, 'w, 'z) monitor_env_scheme \<Rightarrow> string
      \<Rightarrow> 'd position_monitor \<Rightarrow> 'w \<Rightarrow> ((monitor_error + unit) \<times> 'd position_monitor \<times> 'w) option" where
  "add_position ops fl dc env address m w =
     (case read_position env address w of
        (Inl e, w1) \<Rightarrow> Some (Inl (PositionRead e), m, w1)
      | (Inr p, w1) \<Rightarrow>
          (case read_pool ops env (oc_pool p) w1 of
             (Inl e, w2) \<Rightarrow> Some (Inl (PoolRead e), m, w2)
           | (Inr pl, w2) \<Rightarrow> do {
               il \<leftarrow> position_il ops fl dc p (ws_price pl) (ws_price pl);
               (let (now, w3) = me_clock env w2;
                    monitored = \<lparr>mp_address = oc_address p, mp_pool = oc_pool p, on_chain = p,
                      pnl = (default_pnl ops)\<lparr>entry_price := Some (ws_price pl), il_pct := il\<rparr>,
                      in_range = is_tick_in_range (oc_tick_lower p) (oc_tick_upper p) pl, last_updated = now\<rparr>
                in Some (Inr (), m\<lparr>pm_positions := AList.update (oc_address p) monitored (me_during env (pm_positions m))\<rparr>, w3))
             }))"

definition remove_position :: "pubkey \<Rightarrow> 'd position_monitor \<Rightarrow> 'd position_monitor" where
  "remove_position address m = m\<lparr>pm_positions := AList.delete address (pm_positions m)\<rparr>"

definition get_positions :: "('d position_table \<Rightarrow> 'd position_table) \<Rightarrow> 'd position_monitor \<Rightarrow> 'd monitored_position list" where
  "get_positions it m = map snd (it (pm_positions m))"

definition get_monitored :: "pubkey \<Rightarrow> 'd position_monitor \<Rightarrow> 'd monitored_position option" where
  "get_monitored address m = map_of (pm_positions m) address"

definition rpc_error_suggests_missing_account :: "string list \<Rightarrow> bool" where
  "rpc_error_suggests_missing_account chain =
     (let lower = to_ascii_lowercase (join '' '' (take 1 chain @ chain)) in
      contains lower ''accountnotfound'' \<or> contains lower ''could not find account'')"

text \<open>The changes of \<^verbatim>\<open>update_position\<close> to a monitored position.\<close>

definition refresh_monitored ::
    "'d decimal_arith \<Rightarrow> float_fns \<Rightarrow> 'd decimal_conv \<Rightarrow> on_chain_position \<Rightarrow> 'd whirlpool_state \<Rightarrow> datetime
      \<Rightarrow> 'd monitored_position \<Rightarrow> 'd monitored_position option" where
  "refresh_monitored ops fl dc p pl now mp = do {
     (entry, il) \<leftarrow> (case entry_price (pnl mp) of
        Some entry \<Rightarrow> map_option (\<lambda>il. (Some entry, il)) (position_il ops fl dc p entry (ws_price pl))
      | None \<Rightarrow> Some (Some (ws_price pl), dec_zero ops));
     Some (mp\<lparr>on_chain := p, in_range := is_tick_in_range (oc_tick_lower p) (oc_tick_upper p) pl, last_updated := now,
       pnl := (pnl mp)\<lparr>fees_earned_a := oc_fees_owed_a p, fees_earned_b := oc_fees_owed_b p,
                       entry_price := entry, il_pct := il\<rparr>\<rparr>)
   }"

definition il_alert_level :: "('d, 'a) decimal_ops_scheme \<Rightarrow> 'd monitor_config \<Rightarrow> 'd \<Rightarrow> 'd \<Rightarrow> alert_level option" where
  "il_alert_level ops cfg prev il =
     (if dec_ge ops (dec_abs ops il) (il_critical_threshold cfg) \<and> dec_gt ops (il_critical_threshold cfg) (dec_abs ops prev)
      then Some Critical
      else if dec_ge ops (dec_abs ops il) (il_warning_threshold cfg) \<and> dec_gt ops (il_warning_threshold cfg) (dec_abs ops prev)
      then Some Warning
      else None)"

definition position_alert ::
    "('d, 'w, 'z) monitor_env_scheme \<Rightarrow> alert_level \<Rightarrow> alert_type \<Rightarrow> string \<Rightarrow> pubkey \<Rightarrow> pubkey \<Rightarrow> 'w \<Rightarrow> 'd alert \<times> 'w" where
  "position_alert env lvl ty message address pool_key w =
     (let (stamp, w') = me_stamp env w in
      (with_pool (me_to_string env pool_key) (with_position (me_to_string env address) (new_alert stamp lvl ty message)), w'))"

text \<open>The alerts of an update, in the order they are emitted.\<close>

definition update_alerts ::
    "('d, 'a) decimal_ops_scheme \<Rightarrow> ('d, 'w, 'z) monitor_env_scheme \<Rightarrow> 'd monitor_config \<Rightarrow> pubkey
      \<Rightarrow> 'd monitored_position \<Rightarrow> 'd monitored_position \<Rightarrow> 'w \<Rightarrow> 'd alert list \<times> 'w" where
  "update_alerts ops env cfg address before after w =
     (let (range, w1) =
            (if in_range before \<and> \<not> in_range after \<and> range_exit_alert cfg \<and> alerts_enabled cfg
             then let (a, w') = position_alert env Warning AtRangeExit
                        (''Position '' @ me_to_string env address @ '' exited price range'') address (mp_pool before) w
                  in ([a], w')
             else ([], w));
          (il, w2) =
            (case (if alerts_enabled cfg then il_alert_level ops cfg (il_pct (pnl before)) (il_pct (pnl after)) else None) of
               Some lvl \<Rightarrow>
                 (let (a, w') = position_alert env lvl AtILThreshold
                        (''IL |'' @ me_show_dec env (il_pct (pnl after)) @ ''| for position '' @ me_to_string env address)
                        address (mp_pool before) w1
                  in ([a], w'))
             | None \<Rightarrow> ([], w1))
      in (range @ il, w2))"

definition update_position ::
    "'d decimal_arith \<Rightarrow> float_fns \<Rightarrow> 'd decimal_conv \<Rightarrow> 'u u256_ops \<Rightarrow> ('d, 'w, 'z) monitor_env_scheme \<Rightarrow> pubkey
      \<Rightarrow> 'd position_monitor \<Rightarrow> 'w \<Rightarrow> ((monitor_error + unit) \<times> 'd position_monitor \<times> 'w) option" where
  "update_position ops fl dc u env address m w =
     (case read_position env (me_to_string env address) w of
        (Inl e, w1) \<Rightarrow>
          if rpc_error_suggests_missing_account (me_error_chain env e) then Some (Inr (), remove_position address m, w1)
          else Some (Inl (PositionRead e), m, w1)
      | (Inr p, w1) \<Rightarrow>
          (case read_pool ops env (oc_pool p) w1 of
             (Inl e, w2) \<Rightarrow> Some (Inl (PoolRead e), m, w2)
           | (Inr pl, w2) \<Rightarrow> do {
               amounts \<leftarrow> calculate_token_amounts u fl p (ws_tick_current pl) (ws_sqrt_price pl);
               (let table = me_during env (pm_positions m) in
                case map_of table address of
                  None \<Rightarrow> Some (Inr (), m\<lparr>pm_positions := table\<rparr>, w2)
                | Some mp \<Rightarrow>
                    (let (now, w3) = me_clock env w2 in do {
                       mp' \<leftarrow> refresh_monitored ops fl dc p pl now mp;
                       (let (alerts, w4) = update_alerts ops env (pm_config m) address mp mp' w3 in
                        Some (Inr (), m\<lparr>pm_positions := AList.update address mp' table\<rparr>, fold (emit_alert env) alerts w4))
                     }))
             }))"

definition refresh_position where
  "refresh_position = update_position"

fun update_loop ::
    "'d decimal_arith \<Rightarrow> float_fns \<Rightarrow> 'd decimal_conv \<Rightarrow> 'u u256_ops \<Rightarrow> ('d, 'w, 'z) monitor_env_scheme \<Rightarrow> pubkey list
      \<Rightarrow> 'd position_monitor \<Rightarrow> 'w \<Rightarrow> ('d position_monitor \<times> 'w) option" where
  "update_loop ops fl dc u env [] m w = Some (m, w)"
| "update_loop ops fl dc u env (a # as) m w =
     (case update_position ops fl dc u env a m w of
        None \<Rightarrow> None
      | Some (r, m', w') \<Rightarrow> update_loop ops fl dc u env as m' w')"

definition update_all where
  "update_all ops fl dc u env it m w =
     map_option (\<lambda>(m', w'). (Inr () :: monitor_error + unit, m', w'))
       (update_loop ops fl dc u env (map fst (it (pm_positions m))) m w)"

definition add_alert_rule :: "'d alert_rule \<Rightarrow> 'd position_monitor \<Rightarrow> 'd position_monitor" where
  "add_alert_rule r m = m\<lparr>alert_rules := alert_rules m @ [r]\<rparr>"

record 'd portfolio_metrics =
  pf_total_positions :: u32
  positions_in_range :: u32
  total_value_usd :: 'd
  pf_total_fees_usd :: 'd
  pf_total_pnl_usd :: 'd
  avg_il_pct :: 'd

definition add_to_metrics ::
    "'d decimal_arith \<Rightarrow> 'd monitored_position \<Rightarrow> 'd portfolio_metrics \<Rightarrow> 'd portfolio_metrics option" where
  "add_to_metrics ops mp s = do {
     v \<leftarrow> dec_add ops (total_value_usd s) (current_value_usd (pnl mp));
     f \<leftarrow> dec_add ops (pf_total_fees_usd s) (fees_usd (pnl mp));
     g \<leftarrow> dec_add ops (pf_total_pnl_usd s) (net_pnl_usd (pnl mp));
     Some (s\<lparr>pf_total_positions := pf_total_positions s + 1, total_value_usd := v, pf_total_fees_usd := f,
             pf_total_pnl_usd := g, positions_in_range := positions_in_range s + (if in_range mp then 1 else 0)\<rparr>)
   }"

definition get_portfolio_metrics ::
    "'d decimal_arith \<Rightarrow> ('d position_table \<Rightarrow> 'd position_table) \<Rightarrow> 'd position_monitor \<Rightarrow> 'd portfolio_metrics option" where
  "get_portfolio_metrics ops it m =
     (let ps = map snd (it (pm_positions m)) in do {
      s \<leftarrow> fold_option (add_to_metrics ops) ps
            \<lparr>pf_total_positions = 0, positions_in_range = 0, total_value_usd = dec_zero ops,
             pf_total_fees_usd = dec_zero ops, pf_total_pnl_usd = dec_zero ops, avg_il_pct = dec_zero ops\<rparr>;
      (if 0 < pf_total_positions s then do {
         il \<leftarrow> dec_sum ops (map (il_pct \<circ> pnl) ps);
         avg \<leftarrow> dec_div ops il (dec_new ops (uint (pf_total_positions s)) 0);
         Some (s\<lparr>avg_il_pct := avg\<rparr>)
       } else Some s)})"

section \<open>What an update does\<close>

text \<open>The state after a refresh: the one on the chain, with the entry price of the first observation.\<close>

definition refreshed ::
    "'d decimal_arith \<Rightarrow> float_fns \<Rightarrow> 'd decimal_conv \<Rightarrow> on_chain_position \<Rightarrow> 'd whirlpool_state \<Rightarrow> datetime
      \<Rightarrow> 'd monitored_position \<Rightarrow> 'd monitored_position \<Rightarrow> bool" where
  "refreshed ops fl dc p pl now mp mp' \<longleftrightarrow>
     on_chain mp' = p \<and> (in_range mp' \<longleftrightarrow> is_tick_in_range (oc_tick_lower p) (oc_tick_upper p) pl)
     \<and> mp_pool mp' = mp_pool mp \<and> last_updated mp' = now
     \<and> (case entry_price (pnl mp) of
          Some e \<Rightarrow> entry_price (pnl mp') = Some e \<and> position_il ops fl dc p e (ws_price pl) = Some (il_pct (pnl mp'))
        | None \<Rightarrow> entry_price (pnl mp') = Some (ws_price pl) \<and> il_pct (pnl mp') = dec_zero ops)"

lemma refresh_monitored_refreshed:
  "refresh_monitored ops fl dc p pl now mp = Some mp' \<Longrightarrow> refreshed ops fl dc p pl now mp mp'"
  by (auto simp: refresh_monitored_def refreshed_def bind_eq_Some_conv split: option.splits)

text \<open>The alerts of an update: their levels and kinds, each stamped once.\<close>

definition alert_kinds ::
    "('d, 'a) decimal_ops_scheme \<Rightarrow> 'd monitor_config \<Rightarrow> 'd monitored_position \<Rightarrow> 'd monitored_position
      \<Rightarrow> (alert_level \<times> alert_type) list" where
  "alert_kinds ops cfg mp mp' =
     (if alerts_enabled cfg then
        (if in_range mp \<and> \<not> in_range mp' \<and> range_exit_alert cfg then [(Warning, AtRangeExit)] else []) @
        (let prev = dec_abs ops (il_pct (pnl mp)); il = dec_abs ops (il_pct (pnl mp')) in
         if dec_ge ops il (il_critical_threshold cfg) \<and> dec_gt ops (il_critical_threshold cfg) prev then [(Critical, AtILThreshold)]
         else if dec_ge ops il (il_warning_threshold cfg) \<and> dec_gt ops (il_warning_threshold cfg) prev then [(Warning, AtILThreshold)]
         else [])
      else [])"

lemma position_alert_kind [simp]:
  "al_level (fst (position_alert env lvl ty message a k w)) = lvl"
  "al_type (fst (position_alert env lvl ty message a k w)) = ty"
  "snd (position_alert env lvl ty message a k w) = snd (me_stamp env w)"
  by (simp_all add: position_alert_def new_alert_def with_pool_def with_position_def case_prod_beta)

lemma update_alerts_spec:
  "map (\<lambda>x. (al_level x, al_type x)) (fst (update_alerts ops env cfg a mp mp' w)) = alert_kinds ops cfg mp mp'"
  "snd (update_alerts ops env cfg a mp mp' w) =
     ((snd \<circ> me_stamp env) ^^ length (fst (update_alerts ops env cfg a mp mp' w))) w"
  by (simp_all add: update_alerts_def alert_kinds_def il_alert_level_def Let_def case_prod_beta)

text \<open>The two results of an update that can change something: the account is gone, or both reads
  succeeded.\<close>

lemma update_position_cases:
  assumes "update_position ops fl dc u env a m w = Some (r, m', w')"
  obtains (failed) e where "r = Inl e" "m' = m"
  | (gone) e w1 where "r = Inr ()" "m' = remove_position a m" "read_position env (me_to_string env a) w = (Inl e, w1)"
      "rpc_error_suggests_missing_account (me_error_chain env e)"
  | (unknown) "r = Inr ()" "m' = m\<lparr>pm_positions := me_during env (pm_positions m)\<rparr>"
      "map_of (me_during env (pm_positions m)) a = None"
  | (updated) p w1 pl w2 now w3 mp mp' where "r = Inr ()"
      "m' = m\<lparr>pm_positions := AList.update a mp' (me_during env (pm_positions m))\<rparr>"
      "map_of (me_during env (pm_positions m)) a = Some mp"
      "read_position env (me_to_string env a) w = (Inr p, w1)" "read_pool ops env (oc_pool p) w1 = (Inr pl, w2)"
      "me_clock env w2 = (now, w3)" "refresh_monitored ops fl dc p pl now mp = Some mp'"
      "w' = (case update_alerts ops env (pm_config m) a mp mp' w3 of (alerts, w4) \<Rightarrow> fold (emit_alert env) alerts w4)"
proof (cases "read_position env (me_to_string env a) w")
  case (Pair rp w1)
  show ?thesis
  proof (cases rp)
    case (Inl e)
    with Pair assms that(1,2) show ?thesis by (auto simp: update_position_def split: if_splits)
  next
    case (Inr p)
    obtain rl w2 where pool: "read_pool ops env (oc_pool p) w1 = (rl, w2)" by (cases "read_pool ops env (oc_pool p) w1")
    show ?thesis
    proof (cases rl)
      case (Inl e)
      with Inr Pair pool assms that(1) show ?thesis by (auto simp: update_position_def)
    next
      case rl: (Inr pl)
      obtain now w3 where clock: "me_clock env w2 = (now, w3)" by (cases "me_clock env w2")
      note eqs = assms [unfolded update_position_def Pair Inr, simplified, unfolded pool rl, simplified]
      show ?thesis
      proof (cases "map_of (me_during env (pm_positions m)) a")
        case None
        with eqs that(3) show ?thesis by (auto simp: bind_eq_Some_conv Let_def)
      next
        case (Some mp)
        with eqs clock obtain mp' where new: "refresh_monitored ops fl dc p pl now mp = Some mp'"
          and res: "r = Inr ()" "m' = m\<lparr>pm_positions := AList.update a mp' (me_during env (pm_positions m))\<rparr>"
            "w' = (case update_alerts ops env (pm_config m) a mp mp' w3 of (alerts, w4) \<Rightarrow> fold (emit_alert env) alerts w4)"
          by (auto simp: bind_eq_Some_conv Let_def case_prod_beta)
        from Inr rl Pair pool that(4) [OF res(1,2) Some _ _ clock new res(3)] show ?thesis by simp
      qed
    qed
  qed
qed

text \<open>C23. A refresh of one position, when no other task interferes, leaves every other position alone. When the
  position cannot be read, it is dropped exactly if the error says that its account does not exist;
  any other failure of a read is returned and changes nothing. When both reads succeed, a position that
  is not monitored stays so, without alerts; a monitored one is brought to the state on the chain, in range exactly when the
  pool's tick lies in its range, with the loss measured from the entry price it was added with. The alerts
  emitted are exactly one for a change from inside to outside of the range and one for a crossing of
  a threshold by the loss.\<close>

theorem monitor_update_spec:
  assumes "me_during env = id" and "update_position ops fl dc u env a m w = Some (r, m', w')"
  shows "(\<forall>b. b \<noteq> a \<longrightarrow> get_monitored b m' = get_monitored b m)
    \<and> (case read_position env (me_to_string env a) w of
         (Inl e, w1) \<Rightarrow> w' = w1 \<and>
           (if rpc_error_suggests_missing_account (me_error_chain env e) then r = Inr () \<and> get_monitored a m' = None
            else r = Inl (PositionRead e) \<and> m' = m)
       | (Inr p, w1) \<Rightarrow>
           (case read_pool ops env (oc_pool p) w1 of
              (Inl e, w2) \<Rightarrow> r = Inl (PoolRead e) \<and> m' = m \<and> w' = w2
            | (Inr pl, w2) \<Rightarrow> r = Inr () \<and>
                (case get_monitored a m of
                   None \<Rightarrow> m' = m \<and> w' = w2
                 | Some mp \<Rightarrow> \<exists>mp' alerts. get_monitored a m' = Some mp'
                     \<and> refreshed ops fl dc p pl (fst (me_clock env w2)) mp mp'
                     \<and> map (\<lambda>x. (al_level x, al_type x)) alerts = alert_kinds ops (pm_config m) mp mp'
                     \<and> w' = fold (emit_alert env) alerts
                              (((snd \<circ> me_stamp env) ^^ length alerts) (snd (me_clock env w2))))))"
proof -
  have other: "\<forall>b. b \<noteq> a \<longrightarrow> get_monitored b m' = get_monitored b m"
    using assms(2)
    by (cases rule: update_position_cases)
       (simp_all add: assms(1) get_monitored_def remove_position_def delete_conv' update_conv')
  obtain rp w1 where rp: "read_position env (me_to_string env a) w = (rp, w1)" by fastforce
  show ?thesis
  proof (cases rp)
    case (Inl e)
    with rp assms(2) other show ?thesis
      by (auto simp: update_position_def get_monitored_def remove_position_def delete_conv' split: if_splits)
  next
    case p: (Inr p)
    obtain rl w2 where rl: "read_pool ops env (oc_pool p) w1 = (rl, w2)" by fastforce
    show ?thesis
    proof (cases rl)
      case (Inl e)
      with rp p rl assms(2) other show ?thesis by (auto simp: update_position_def)
    next
      case pl: (Inr pl)
      note eqs = assms(2) [unfolded update_position_def rp p, simplified, unfolded rl pl, simplified]
      show ?thesis
      proof (cases "get_monitored a m")
        case None
        with eqs rp p rl pl other assms(1) show ?thesis by (auto simp: bind_eq_Some_conv Let_def get_monitored_def)
      next
        case (Some mp)
        obtain now w3 where clock: "me_clock env w2 = (now, w3)" by fastforce
        from eqs Some clock assms(1) obtain mp' where new: "refresh_monitored ops fl dc p pl now mp = Some mp'"
          and res: "r = Inr ()" "get_monitored a m' = Some mp'"
            "w' = fold (emit_alert env) (fst (update_alerts ops env (pm_config m) a mp mp' w3))
                    (snd (update_alerts ops env (pm_config m) a mp mp' w3))"
          by (auto simp: bind_eq_Some_conv Let_def get_monitored_def case_prod_beta update_conv')
        have "refreshed ops fl dc p pl now mp mp'" using new by (rule refresh_monitored_refreshed)
        with rp p rl pl other Some clock res show ?thesis
          by (auto simp: update_alerts_spec(2) intro!: exI [of _ "fst (update_alerts ops env (pm_config m) a mp mp' w3)"] update_alerts_spec(1))
      qed
    qed
  qed
qed

text \<open>A position with the range \<open>[- 10, 0)\<close> in a pool whose account is all zeros, so that its tick is 0: the
  refresh finds it out of range. The world is the list of alerts received by the callback.\<close>

definition zero_account :: "u8 list" where
  "zero_account = replicate 653 0"

lemma zero_account_pool: "map_option tick_current_index (parse_whirlpool_minimal zero_account) = Some 0"
  unfolding zero_account_def by code_simp

definition example_env :: "(rat, rat alert list) monitor_env" where
  "example_env = \<lparr>me_from_str = (\<lambda>s. if s = ''pos'' then Some [1] else Some [2]),
     me_to_string = (\<lambda>k. if k = [1] then ''pos'' else ''pool''),
     me_get_account = (\<lambda>k w. (Inr (if k = [1] then [] else zero_account), w)),
     me_position_from_slice = (\<lambda>_. Some \<lparr>wp_discriminator = [], wp_whirlpool = [2], wp_position_mint = [],
        wp_liquidity = 5, wp_tick_lower_index = - 10, wp_tick_upper_index = 0, wp_fee_growth_checkpoint_a = 0,
        wp_fee_owed_a = 3, wp_fee_growth_checkpoint_b = 0, wp_fee_owed_b = 4, wp_reward_infos = []\<rparr>),
     me_error_chain = (\<lambda>_. []), me_show_dec = (\<lambda>_. []), me_clock = (\<lambda>w. (7, w)), me_stamp = (\<lambda>w. (([], 7), w)),
     me_callback = Some (\<lambda>a w. w @ [a]), me_notifiers = None, me_during = id\<rparr>"

definition example_monitored :: "rat monitored_position" where
  "example_monitored = \<lparr>mp_address = [1], mp_pool = [2], on_chain = sample_position, pnl = default_pnl rat_ops,
     in_range = True, last_updated = 0\<rparr>"

definition example_monitor :: "rat position_monitor" where
  "example_monitor = (new_monitor (default_monitor_config rat_ops Map.empty))\<lparr>pm_positions := [([1], example_monitored)]\<rparr>"

lemma example_update:
  "\<exists>m' w'. update_position rat_ops approx_fns rat_conv word_ops example_env [1] example_monitor [] = Some (Inr (), m', w')
     \<and> map_option in_range (get_monitored [1] m') = Some False \<and> map al_type w' = [AtRangeExit]"
proof -
  obtain wp where wp: "parse_whirlpool_minimal zero_account = Some wp" "tick_current_index wp = 0"
    using zero_account_pool by auto
  have il: "il_alert_level rat_ops (default_monitor_config rat_ops Map.empty) 0 0 = None"
    by (simp add: il_alert_level_def default_monitor_config_def rat_ops_def dec_ge_def)
  show ?thesis
    using wp il
    by (simp add: update_position_def read_position_def read_pool_def example_env_def get_position_def get_pool_state_def
        account_data_looks_like_whirlpool_pool_def example_monitor_def new_monitor_def calculate_token_amounts_def
        from_whirlpool_def refresh_monitored_def example_monitored_def default_pnl_def dec_zero_def rat_ops_def
        is_tick_in_range_def update_alerts_def position_alert_def get_monitored_def emit_alert_def
        default_monitor_config_def new_alert_def with_pool_def with_position_def)
qed

theorem monitor_update_spec_witness:
  "\<exists>m' w' mp'. update_position rat_ops approx_fns rat_conv word_ops example_env [1] example_monitor [] = Some (Inr (), m', w')
     \<and> get_monitored [1] m' = Some mp' \<and> \<not> in_range mp' \<and> mp_pool mp' = [2]
     \<and> (\<forall>b. b \<noteq> [1] \<longrightarrow> get_monitored b m' = None)"
proof -
  obtain m' w' where u: "update_position rat_ops approx_fns rat_conv word_ops example_env [1] example_monitor [] = Some (Inr (), m', w')"
    and r: "map_option in_range (get_monitored [1] m') = Some False"
    using example_update by blast
  have "me_during example_env = id" by (simp add: example_env_def)
  note spec = monitor_update_spec [OF this u]
  have mon: "get_monitored [1] example_monitor = Some example_monitored"
    by (simp add: example_monitor_def get_monitored_def)
  obtain mp' where mp': "get_monitored [1] m' = Some mp'" "\<not> in_range mp'" using r by auto
  from spec mp'(1) mon have "mp_pool mp' = mp_pool example_monitored"
    by (auto simp: refreshed_def case_prod_beta split: sum.splits if_splits)
  moreover from spec have "\<forall>b. b \<noteq> [1] \<longrightarrow> get_monitored b m' = None"
    by (simp add: example_monitor_def get_monitored_def)
  ultimately show ?thesis using u mp' by (auto simp: example_monitored_def)
qed

text \<open>Rules added to the monitor are stored, but no operation evaluates them: the result of an update does not
  depend on them.\<close>

lemma alert_rules_never_evaluated:
  "update_position ops fl dc u env a (m\<lparr>alert_rules := rs\<rparr>) w =
     map_option (\<lambda>(r, m', w'). (r, m'\<lparr>alert_rules := rs\<rparr>, w')) (update_position ops fl dc u env a m w)"
proof -
  have upd: "(m\<lparr>alert_rules := rs\<rparr>)\<lparr>pm_positions := t\<rparr> = (m\<lparr>pm_positions := t\<rparr>)\<lparr>alert_rules := rs\<rparr>" for t by simp
  show ?thesis
    by (auto simp: update_position_def remove_position_def upd bind_eq_Some_conv Let_def map_option_bind case_prod_beta comp_def
        split: option.splits sum.splits)
qed

end
