(* ===== verification/Monitor_Records.thy ===== *)
theory Monitor_Records
  imports Impermanent_Loss Positions
begin

text \<open>
  The two smaller parts of \<^verbatim>\<open>execution/src/monitor\<close>: profit and loss of positions against their entries
  (\<^verbatim>\<open>pnl_tracker.rs\<close>) and the health of account synchronisation (\<^verbatim>\<open>state_sync.rs\<close>). The clock is an
  argument; \<open>None\<close> is a panic of a decimal operation.
\<close>

section \<open>Profit and loss\<close>

record 'd position_entry =
  pe_entry_price :: 'd
  pe_entry_value_usd :: 'd
  entry_timestamp :: datetime
  initial_amount_a :: u64
  initial_amount_b :: u64
  pe_tick_lower :: int
  pe_tick_upper :: int

record 'd pnl_result =
  pr_current_value_usd :: 'd
  hodl_value_usd :: 'd
  il_usd :: 'd
  pr_il_pct :: 'd
  pr_fees_usd :: 'd
  pr_net_pnl_usd :: 'd
  pr_net_pnl_pct :: 'd
  vs_hodl_usd :: 'd
  pr_apy :: 'd

type_synonym 'd pnl_tracker = "(string \<times> 'd position_entry) list"

definition new_pnl_tracker :: "'d pnl_tracker" where
  "new_pnl_tracker = []"

definition record_entry ::
    "datetime \<Rightarrow> string \<Rightarrow> 'd \<Rightarrow> 'd \<Rightarrow> u64 \<Rightarrow> u64 \<Rightarrow> int \<Rightarrow> int \<Rightarrow> 'd pnl_tracker \<Rightarrow> 'd pnl_tracker" where
  "record_entry now address price val amount_a amount_b tick_lower tick_upper t =
     AList.update address \<lparr>pe_entry_price = price, pe_entry_value_usd = val, entry_timestamp = now,
       initial_amount_a = amount_a, initial_amount_b = amount_b, pe_tick_lower = tick_lower, pe_tick_upper = tick_upper\<rparr> t"

definition dec_of_u64 :: "'d decimal_conv \<Rightarrow> u64 \<Rightarrow> 'd option" where
  "dec_of_u64 dc n = dc_from_u128 dc (ucast n)"

text \<open>The value of two amounts; the source takes nine and six decimals for every pair of tokens.\<close>

definition usd_value :: "'d decimal_arith \<Rightarrow> 'd decimal_conv \<Rightarrow> u64 \<Rightarrow> u64 \<Rightarrow> 'd \<Rightarrow> 'd \<Rightarrow> 'd option" where
  "usd_value ops dc amount_a amount_b price_a price_b = do {
     a \<leftarrow> dec_of_u64 dc amount_a; a \<leftarrow> dec_mul ops a price_a;
     na \<leftarrow> dec_of_u64 dc 1000000000; a \<leftarrow> dec_div ops a na;
     b \<leftarrow> dec_of_u64 dc amount_b; b \<leftarrow> dec_mul ops b price_b;
     nb \<leftarrow> dec_of_u64 dc 1000000; b \<leftarrow> dec_div ops b nb;
     dec_add ops a b
   }"

definition num_days :: "datetime \<Rightarrow> datetime \<Rightarrow> int" where
  "num_days now earlier = sgn (num_seconds now earlier) * (\<bar>num_seconds now earlier\<bar> div 86400)"

text \<open>The result is \<open>Some None\<close> for an unknown position.\<close>

definition calculate_pnl ::
    "'d decimal_arith \<Rightarrow> float_fns \<Rightarrow> 'd decimal_conv \<Rightarrow> datetime \<Rightarrow> 'd pnl_tracker \<Rightarrow> string \<Rightarrow> 'd
      \<Rightarrow> u64 \<Rightarrow> u64 \<Rightarrow> u64 \<Rightarrow> u64 \<Rightarrow> 'd \<Rightarrow> 'd \<Rightarrow> 'd pnl_result option option" where
  "calculate_pnl ops fl dc now t address current_price amount_a amount_b fees_a fees_b price_a price_b =
     (case map_of t address of
        None \<Rightarrow> Some None
      | Some entry \<Rightarrow> do {
          current \<leftarrow> usd_value ops dc amount_a amount_b price_a price_b;
          hodl \<leftarrow> usd_value ops dc (initial_amount_a entry) (initial_amount_b entry) price_a price_b;
          fees \<leftarrow> usd_value ops dc fees_a fees_b price_a price_b;
          il \<leftarrow> il_or_zero ops (calculate_il_concentrated ops fl dc (pe_entry_price entry) current_price
                 (tick_to_price ops fl (pe_tick_lower entry)) (tick_to_price ops fl (pe_tick_upper entry)));
          loss \<leftarrow> dec_mul ops (pe_entry_value_usd entry) (dec_abs ops il);
          change \<leftarrow> dec_sub ops current (pe_entry_value_usd entry);
          net \<leftarrow> dec_add ops change fees;
          net_pct \<leftarrow> (if dec_is_zero ops (pe_entry_value_usd entry) then Some (dec_zero ops)
                      else do { q \<leftarrow> dec_div ops net (pe_entry_value_usd entry); dec_mul ops q (dec_new ops 100 0) });
          plus_fees \<leftarrow> dec_add ops current fees;
          vs_hodl \<leftarrow> dec_sub ops plus_fees hodl;
          apy \<leftarrow> (let days = f64_of_int (max (num_days now (entry_timestamp entry)) 1) in
                  if f64_lt (f64_lit 0) days \<and> \<not> dec_is_zero ops (pe_entry_value_usd entry)
                  then do {
                    daily \<leftarrow> dec_div ops net_pct (case dec_from_f64 ops days of Some d \<Rightarrow> d | None \<Rightarrow> dec_one ops);
                    dec_mul ops daily (dec_new ops 365 0) }
                  else Some (dec_zero ops));
          Some (Some \<lparr>pr_current_value_usd = current, hodl_value_usd = hodl, il_usd = loss, pr_il_pct = il,
            pr_fees_usd = fees, pr_net_pnl_usd = net, pr_net_pnl_pct = net_pct, vs_hodl_usd = vs_hodl, pr_apy = apy\<rparr>)
        })"

definition get_entry :: "string \<Rightarrow> 'd pnl_tracker \<Rightarrow> 'd position_entry option" where
  "get_entry address t = map_of t address"

definition remove_entry :: "string \<Rightarrow> 'd pnl_tracker \<Rightarrow> 'd pnl_tracker" where
  "remove_entry address t = AList.delete address t"

text \<open>With exact decimals, a position that holds its initial amounts and has earned no fees is worth what
  holding them is worth, whatever the prices; the reported loss does not enter the net result.\<close>

lemma pnl_of_unchanged_amounts:
  assumes "map_of t address = Some e"
    and "calculate_pnl rat_ops fl rat_conv now t address p (initial_amount_a e) (initial_amount_b e) 0 0 pa pb = Some (Some r)"
  shows "vs_hodl_usd r = 0 \<and> pr_net_pnl_usd r = hodl_value_usd r - pe_entry_value_usd e"
  using assms
  by (auto simp: calculate_pnl_def usd_value_def dec_of_u64_def rat_ops_def rat_conv_def bind_eq_Some_conv split: if_splits)

section \<open>Synchronisation state\<close>

record sync_state =
  ss_last_slot :: u64
  last_sync :: datetime
  ss_error_count :: u32
  ss_is_healthy :: bool

definition default_sync_state :: "datetime \<Rightarrow> sync_state" where
  "default_sync_state now = \<lparr>ss_last_slot = 0, last_sync = now, ss_error_count = 0, ss_is_healthy = True\<rparr>"

record state_synchronizer =
  sync_states :: "(pubkey \<times> sync_state) list"
  max_errors :: u32

definition new_synchronizer :: state_synchronizer where
  "new_synchronizer = \<lparr>sync_states = [], max_errors = 3\<rparr>"

definition register_account :: "datetime \<Rightarrow> pubkey \<Rightarrow> state_synchronizer \<Rightarrow> state_synchronizer" where
  "register_account now a s = s\<lparr>sync_states := AList.update a (default_sync_state now) (sync_states s)\<rparr>"

definition unregister_account :: "pubkey \<Rightarrow> state_synchronizer \<Rightarrow> state_synchronizer" where
  "unregister_account a s = s\<lparr>sync_states := AList.delete a (sync_states s)\<rparr>"

definition modify_state :: "pubkey \<Rightarrow> (sync_state \<Rightarrow> sync_state) \<Rightarrow> state_synchronizer \<Rightarrow> state_synchronizer" where
  "modify_state a f s =
     (case map_of (sync_states s) a of
        None \<Rightarrow> s
      | Some st \<Rightarrow> s\<lparr>sync_states := AList.update a (f st) (sync_states s)\<rparr>)"

definition sync_record_success :: "datetime \<Rightarrow> pubkey \<Rightarrow> u64 \<Rightarrow> state_synchronizer \<Rightarrow> state_synchronizer" where
  "sync_record_success now a slot =
     modify_state a (\<lambda>st. st\<lparr>ss_last_slot := slot, last_sync := now, ss_error_count := 0, ss_is_healthy := True\<rparr>)"

definition sync_record_error :: "pubkey \<Rightarrow> state_synchronizer \<Rightarrow> state_synchronizer" where
  "sync_record_error a s =
     modify_state a (\<lambda>st. let st = st\<lparr>ss_error_count := ss_error_count st + 1\<rparr> in
       if max_errors s \<le> ss_error_count st then st\<lparr>ss_is_healthy := False\<rparr> else st) s"

definition get_sync_state :: "pubkey \<Rightarrow> state_synchronizer \<Rightarrow> sync_state option" where
  "get_sync_state a s = map_of (sync_states s) a"

definition is_all_healthy :: "state_synchronizer \<Rightarrow> bool" where
  "is_all_healthy s \<longleftrightarrow> list_all (\<lambda>(_, st). ss_is_healthy st) (sync_states s)"

record sync_reconcile_result =
  sr_current_slot :: u64
  total_accounts :: nat
  stale_accounts :: "pubkey list"
  unhealthy_accounts :: "pubkey list"

definition sync_reconcile ::
    "((pubkey \<times> sync_state) list \<Rightarrow> (pubkey \<times> sync_state) list) \<Rightarrow> string + u64 \<Rightarrow> state_synchronizer
      \<Rightarrow> string + sync_reconcile_result" where
  "sync_reconcile it slot s =
     (case slot of
        Inl e \<Rightarrow> Inl e
      | Inr current_slot \<Rightarrow>
          (let states = it (sync_states s) in
           Inr \<lparr>sr_current_slot = current_slot, total_accounts = length (sync_states s),
                stale_accounts = map fst (filter (\<lambda>(_, st). ss_last_slot st < current_slot) states),
                unhealthy_accounts = map fst (filter (\<lambda>(_, st). \<not> ss_is_healthy st) states)\<rparr>))"

definition is_all_synced :: "sync_reconcile_result \<Rightarrow> bool" where
  "is_all_synced r \<longleftrightarrow> stale_accounts r = [] \<and> unhealthy_accounts r = []"

text \<open>An account is unhealthy from the third error in a row on, until the next success.\<close>

lemma max_errors_modify [simp]: "max_errors (modify_state a f s) = max_errors s"
  by (simp add: modify_state_def split: option.splits)

lemma get_sync_modify: "get_sync_state b (modify_state a f s) =
    (if b = a then map_option f (get_sync_state a s) else get_sync_state b s)"
  by (auto simp: get_sync_state_def modify_state_def update_conv' split: option.splits)

lemma get_sync_error:
  "get_sync_state a (sync_record_error a s) = map_option (\<lambda>st. st\<lparr>ss_error_count := ss_error_count st + 1,
     ss_is_healthy := ss_is_healthy st \<and> ss_error_count st + 1 < max_errors s\<rparr>) (get_sync_state a s)"
  by (cases "get_sync_state a s") (auto simp: sync_record_error_def get_sync_modify Let_def simp flip: not_le)

lemma errors_in_a_row:
  assumes "max_errors s = 3" and "k < 2 ^ 32" and "get_sync_state a s \<noteq> None"
  shows "\<exists>st. get_sync_state a ((sync_record_error a ^^ k) (sync_record_success now a slot s)) = Some st
    \<and> ss_error_count st = of_nat k \<and> (ss_is_healthy st \<longleftrightarrow> k < 3) \<and> ss_last_slot st = slot"
  using assms(2)
proof (induction k)
  case 0
  then show ?case using assms(3) by (auto simp: sync_record_success_def get_sync_modify)
next
  case (Suc k)
  have max: "max_errors ((sync_record_error a ^^ j) (sync_record_success now a slot s)) = 3" for j
    by (induction j) (simp_all add: sync_record_error_def sync_record_success_def assms(1))
  have "(3 :: u32) \<le> of_nat (Suc k) \<longleftrightarrow> 3 \<le> Suc k"
    using Suc.prems by (simp add: word_le_nat_alt unat_of_nat take_bit_nat_eq_self del: of_nat_Suc)
  with Suc show ?case by (auto simp: get_sync_error max add.commute not_le [symmetric])
qed

text \<open>A reconciliation that reports nothing to do has compared every account.\<close>

lemma synced_means_current:
  assumes "hash_order it" and "distinct (map fst (sync_states s))" and "sync_reconcile it (Inr slot) s = Inr r"
  shows "is_all_synced r \<longleftrightarrow> (\<forall>a st. get_sync_state a s = Some st \<longrightarrow> slot \<le> ss_last_slot st \<and> ss_is_healthy st)"
proof -
  have set: "set (it (sync_states s)) = set (sync_states s)" by (rule hash_order_set [OF assms(1,2)])
  from assms(3) show ?thesis
    using assms(2) set
    by (fastforce simp: sync_reconcile_def Let_def is_all_synced_def filter_empty_conv get_sync_state_def not_less
        dest: map_of_SomeD)
qed

end
