(* ===== verification/Pending_Open.thy ===== *)
theory Pending_Open
  imports Lifecycle Alerts
begin

text \<open>
  The queue of position openings that failed after the old position was closed:
  \<^verbatim>\<open>execution/src/strategy/pending_open.rs\<close>, and the pass over it in
  \<^verbatim>\<open>execution/src/strategy/executor.rs\<close>. The queue file, the clock, the rebalance executor, the
  monitor and the alert channels act on an abstract world (\<open>recovery_env\<close>), so that other tasks may
  change the file between its loading and its saving. The claims of other executors are an argument.
\<close>

section \<open>The queue\<close>

record 'd pending_open_item =
  po_pool :: string
  intended_tick_lower :: int
  intended_tick_upper :: int
  closed_position_nft :: string
  po_session_id :: "string option"
  planned_at_utc :: "string option"
  planned_price_ab :: "'d option"
  po_reason :: rebalance_reason
  po_optimization_run_id :: "string option"
  attempts :: u32
  last_error :: "string option"
  last_attempt_at :: "string option"
  stuck_reason :: "string option"
  stuck_since :: "string option"
  last_alert_attempts :: "u32 option"
  created_at :: string

record 'd pending_open_store =
  items :: "'d pending_open_item list"
  dismissed_session_ids :: "string list"

definition default_store :: "'d pending_open_store" where
  "default_store = \<lparr>items = [], dismissed_session_ids = []\<rparr>"

text \<open>The file: missing, present but not readable as a store, or a stored queue.\<close>

datatype 'd pending_file = NoFile | BadFile string | StoredFile "'d pending_open_store"

fun load_pending :: "'d pending_file \<Rightarrow> string + 'd pending_open_store" where
  "load_pending NoFile = Inr default_store"
| "load_pending (BadFile e) = Inl e"
| "load_pending (StoredFile s) = Inr s"

definition load_or_default :: "'d pending_file \<Rightarrow> 'd pending_open_store" where
  "load_or_default f = (case load_pending f of Inl _ \<Rightarrow> default_store | Inr s \<Rightarrow> s)"

definition item_key :: "'d pending_open_item \<Rightarrow> string \<times> string" where
  "item_key i = (po_pool i, closed_position_nft i)"

fun upsert_items :: "'d pending_open_item list \<Rightarrow> 'd pending_open_item \<Rightarrow> 'd pending_open_item list" where
  "upsert_items [] i = [i]"
| "upsert_items (x # xs) i = (if item_key x = item_key i then i # xs else x # upsert_items xs i)"

definition upsert :: "'d pending_open_store \<Rightarrow> 'd pending_open_item \<Rightarrow> 'd pending_open_store" where
  "upsert s i = s\<lparr>items := upsert_items (items s) i\<rparr>"

text \<open>Environment settings with bounds.\<close>

definition env_u32_in :: "(string \<rightharpoonup> string) \<Rightarrow> string \<Rightarrow> nat \<Rightarrow> nat \<Rightarrow> u32 option" where
  "env_u32_in env name lo hi =
     (case Option.bind (env name) (parse_unsigned (2 ^ 32 - 1)) of
        Some n \<Rightarrow> if lo \<le> n \<and> n \<le> hi then Some (of_nat n) else None
      | None \<Rightarrow> None)"

definition max_recovery_attempts :: "(string \<rightharpoonup> string) \<Rightarrow> u32" where
  "max_recovery_attempts env =
     (case env_u32_in env ''CLMM_PENDING_OPEN_MAX_ATTEMPTS'' 1 10000 of Some n \<Rightarrow> n | None \<Rightarrow> 100)"

definition attempts_alert_threshold :: "(string \<rightharpoonup> string) \<Rightarrow> u32" where
  "attempts_alert_threshold env =
     (case env_u32_in env ''CLMM_PENDING_OPEN_ALERT_ATTEMPTS'' 1 10000 of Some n \<Rightarrow> n | None \<Rightarrow> 10)"

definition pending_open_min_interval_secs :: "(string \<rightharpoonup> string) \<Rightarrow> u64 option" where
  "pending_open_min_interval_secs env =
     (case Option.bind (env ''CLMM_PENDING_OPEN_MIN_INTERVAL_SECS'') (parse_unsigned (2 ^ 64 - 1)) of
        Some n \<Rightarrow> if 1 \<le> n \<and> n \<le> 86400 then Some (of_nat n) else None
      | None \<Rightarrow> None)"

definition should_defer_pending_open_rate_limit_with ::
    "(string \<Rightarrow> datetime option) \<Rightarrow> 'd pending_open_item \<Rightarrow> datetime \<Rightarrow> u64 option \<Rightarrow> bool" where
  "should_defer_pending_open_rate_limit_with parse_time i now min_interval_secs =
     (case min_interval_secs of
        None \<Rightarrow> False
      | Some min_secs \<Rightarrow>
          (case last_attempt_at i of
             None \<Rightarrow> False
           | Some last_s \<Rightarrow>
               (case parse_time (trim last_s) of
                  None \<Rightarrow> False
                | Some ts \<Rightarrow> num_seconds now ts < sint min_secs)))"

section \<open>Helpers of the recovery pass\<close>

definition trimmed_session :: "'d pending_open_item \<Rightarrow> string option" where
  "trimmed_session i =
     (case po_session_id i of None \<Rightarrow> None | Some s \<Rightarrow> if trim s = [] then None else Some (trim s))"

definition pending_open_claim_key :: "'d pending_open_item \<Rightarrow> string" where
  "pending_open_claim_key i =
     (case trimmed_session i of
        Some sid \<Rightarrow> ''sid:'' @ sid
      | None \<Rightarrow> ''pool:'' @ trim (po_pool i) @ ''|closed:'' @ trim (closed_position_nft i))"

definition classify_pending_open_stuck_reason :: "string option \<Rightarrow> string" where
  "classify_pending_open_stuck_reason err =
     (case (case err of None \<Rightarrow> None | Some s \<Rightarrow> if trim s = [] then None else Some (trim s)) of
        None \<Rightarrow> ''unknown''
      | Some s \<Rightarrow>
          (let e = to_ascii_lowercase s; has = contains e in
           if has ''not in new range'' \<or> has ''tick'' \<and> has ''range'' then ''tick_out_of_range''
           else if has ''quote'' \<or> has ''cannot quote deposit'' then ''quote_failed''
           else if has ''timeout'' \<or> has ''timed out'' then ''rpc_timeout''
           else if has ''custom(6012)'' \<or> has ''custom_code=6012'' \<or> has ''0x177c'' then ''open_position_6012''
           else if has ''insufficient'' \<or> has ''insufficient funds'' \<or> has ''insufficient balance'' then ''insufficient_balance''
           else if has ''wallet_below_target_after_refresh'' then ''wallet_below_target_after_refresh''
           else ''unknown''))"

definition should_emit_pending_open_stuck_alert :: "u32 \<Rightarrow> u32 \<Rightarrow> u32 option \<Rightarrow> bool" where
  "should_emit_pending_open_stuck_alert n threshold last_alert =
     (if n < threshold \<or> threshold = 0 then False
      else case last_alert of None \<Rightarrow> True | Some prev \<Rightarrow> prev < threshold)"

text \<open>\<^verbatim>\<open>session_has_bot_open_position\<close> of \<^verbatim>\<open>protocols/src/ledger/tx_lifecycle.rs\<close>, over the lines of the
  lifecycle file.\<close>

definition str_field :: "string \<Rightarrow> json \<Rightarrow> string" where
  "str_field k v = trim (case Option.bind (json_get k v) as_str_json of None \<Rightarrow> [] | Some s \<Rightarrow> s)"

fun open_row_loop :: "(string \<Rightarrow> json option) \<Rightarrow> string \<Rightarrow> string list \<Rightarrow> bool" where
  "open_row_loop from_str sid [] = False"
| "open_row_loop from_str sid (line # ls) =
     (if trim line = [] then open_row_loop from_str sid ls
      else case from_str (trim line) of
             None \<Rightarrow> open_row_loop from_str sid ls
           | Some v \<Rightarrow>
               if str_field ''event'' v \<notin> {''bot_open_position'', ''bot_open_position_full_range''}
               then open_row_loop from_str sid ls
               else str_field ''rebalance_session_id'' v = sid \<or> open_row_loop from_str sid ls)"

definition session_has_bot_open_position :: "(string \<Rightarrow> json option) \<Rightarrow> string list option \<Rightarrow> string \<Rightarrow> bool" where
  "session_has_bot_open_position from_str file session =
     (let sid = trim session in
      if sid = [] then False
      else case file of None \<Rightarrow> False | Some ls \<Rightarrow> open_row_loop from_str sid ls)"

section \<open>The recovery pass\<close>

record 'd recover_open_params =
  rp_pool :: pubkey
  rp_new_tick_lower :: int
  rp_new_tick_upper :: int
  rp_planned_at_utc :: "string option"
  rp_planned_price_ab :: "'d option"
  rp_reason :: rebalance_reason
  rp_closed_position_nft :: pubkey
  rp_session_id :: "string option"
  rp_optimization_run_id :: "string option"

text \<open>The part of \<^verbatim>\<open>RebalanceResult\<close> the pass looks at.\<close>

record recover_result =
  rr_success :: bool
  rr_new_position :: "pubkey option"
  rr_error :: "string option"

record ('d, 'w) recovery_env =
  re_parse_key :: "string \<Rightarrow> string + pubkey"
  re_show_key :: "pubkey \<Rightarrow> string"
  re_clock :: "'w \<Rightarrow> datetime \<times> 'w"
  re_stamp :: "'w \<Rightarrow> (string \<times> datetime) \<times> 'w"
  re_rfc3339 :: "datetime \<Rightarrow> string"
  re_parse_time :: "string \<Rightarrow> datetime option"
  re_json :: "string \<Rightarrow> json option"
  re_lifecycle_file :: "'w \<Rightarrow> string list option"
  re_file :: "'w \<Rightarrow> 'd pending_file"
  re_save :: "'d pending_open_store \<Rightarrow> 'w \<Rightarrow> (string + unit) \<times> 'w"
  re_recover :: "'d recover_open_params \<Rightarrow> 'w \<Rightarrow> recover_result \<times> 'w"
  re_add_position :: "pubkey \<Rightarrow> 'w \<Rightarrow> (string + unit) \<times> 'w"
  re_reopened :: "'d pending_open_item \<Rightarrow> pubkey \<Rightarrow> pubkey \<Rightarrow> pubkey \<Rightarrow> 'w \<Rightarrow> 'w"
  re_emit :: "'d alert \<Rightarrow> 'w \<Rightarrow> 'w"

definition recover_params :: "'d pending_open_item \<Rightarrow> pubkey \<Rightarrow> pubkey \<Rightarrow> 'd recover_open_params" where
  "recover_params i pool_key closed_key =
     \<lparr>rp_pool = pool_key, rp_new_tick_lower = intended_tick_lower i, rp_new_tick_upper = intended_tick_upper i,
      rp_planned_at_utc = planned_at_utc i, rp_planned_price_ab = planned_price_ab i, rp_reason = po_reason i,
      rp_closed_position_nft = closed_key, rp_session_id = po_session_id i, rp_optimization_run_id = po_optimization_run_id i\<rparr>"

text \<open>What the pass does with one item: keep it, drop it, or abort the pass.\<close>

datatype 'd item_outcome = Keep "'d pending_open_item" | Drop | Abort string

definition keep_below :: "u32 \<Rightarrow> 'd pending_open_item \<Rightarrow> 'd item_outcome" where
  "keep_below max_a i = (if attempts i < max_a then Keep i else Drop)"

text \<open>The branch of a failed recovery: the reason and since when, and an alert once the item is stuck.\<close>

definition recovery_failed ::
    "('d, 'w) recovery_env \<Rightarrow> u32 \<Rightarrow> u32 \<Rightarrow> 'd pending_open_item \<Rightarrow> pubkey \<Rightarrow> pubkey \<Rightarrow> string option \<Rightarrow> 'w \<Rightarrow> 'd item_outcome \<times> 'w" where
  "recovery_failed env max_a threshold i pool_key closed_key err w =
     (let i = i\<lparr>last_error := err\<rparr>;
          reason = classify_pending_open_stuck_reason (last_error i);
          (i, w) = (if stuck_reason i \<noteq> Some reason
                    then let (now, w) = re_clock env w in (i\<lparr>stuck_since := Some (re_rfc3339 env now)\<rparr>, w)
                    else (i, w));
          i = i\<lparr>stuck_reason := Some reason\<rparr>;
          (i, w) = (if should_emit_pending_open_stuck_alert (attempts i) threshold (last_alert_attempts i)
                    then let i = i\<lparr>last_alert_attempts := Some (attempts i)\<rparr>;
                             (stamp, w) = re_stamp env w;
                             a = with_pool (re_show_key env pool_key) (with_position (re_show_key env closed_key)
                                   (new_alert stamp Warning (AtCustom ''Pending Open Stuck'')
                                     (''Pending-open stuck: pool '' @ re_show_key env pool_key @ '' position '' @ re_show_key env closed_key
                                      @ '' attempts='' @ show_nat (unat (attempts i)) @ '' reason='' @ reason)))
                         in (i, re_emit env a w)
                    else (i, w))
      in (keep_below max_a i, w))"

definition recovery_succeeded ::
    "('d, 'w) recovery_env \<Rightarrow> u32 \<Rightarrow> 'd pending_open_item \<Rightarrow> pubkey \<Rightarrow> pubkey \<Rightarrow> pubkey option \<Rightarrow> 'w \<Rightarrow> 'd item_outcome \<times> 'w" where
  "recovery_succeeded env max_a i pool_key closed_key new_position w =
     (case new_position of
        None \<Rightarrow> (Drop, w)
      | Some np \<Rightarrow>
          (case re_add_position env np w of
             (Inl e, w) \<Rightarrow> (keep_below max_a (i\<lparr>last_error := Some (''add_position: '' @ e)\<rparr>), w)
           | (Inr _, w) \<Rightarrow> (Drop, re_reopened env i pool_key closed_key np w)))"

definition attempt_item ::
    "('d, 'w) recovery_env \<Rightarrow> u32 \<Rightarrow> u32 \<Rightarrow> 'd pending_open_item \<Rightarrow> 'w \<Rightarrow> 'd item_outcome \<times> 'w" where
  "attempt_item env max_a threshold i w =
     (let (now, w) = re_clock env w;
          i = i\<lparr>attempts := attempts i + 1, last_attempt_at := Some (re_rfc3339 env now)\<rparr> in
      case re_parse_key env (trim (po_pool i)) of
        Inl e \<Rightarrow> (Abort (''pending pool pubkey: '' @ e), w)
      | Inr pool_key \<Rightarrow>
          (case re_parse_key env (trim (closed_position_nft i)) of
             Inl e \<Rightarrow> (Abort (''pending closed NFT pubkey: '' @ e), w)
           | Inr closed_key \<Rightarrow>
               (let (res, w) = re_recover env (recover_params i pool_key closed_key) w in
                if rr_success res then recovery_succeeded env max_a i pool_key closed_key (rr_new_position res) w
                else recovery_failed env max_a threshold i pool_key closed_key (rr_error res) w)))"

definition process_item ::
    "('d, 'w) recovery_env \<Rightarrow> (string \<rightharpoonup> string) \<Rightarrow> string set \<Rightarrow> 'd pending_open_item \<Rightarrow> 'w \<Rightarrow> 'd item_outcome \<times> 'w" where
  "process_item env vars claims i w =
     (if pending_open_claim_key i \<in> claims then (Keep i, w)
      else if max_recovery_attempts vars \<le> attempts i then (Drop, w)
      else if (case trimmed_session i of
                 Some sid \<Rightarrow> session_has_bot_open_position (re_json env) (re_lifecycle_file env w) sid
               | None \<Rightarrow> False) then (Drop, w)
      else (let (now, w) = re_clock env w in
            if should_defer_pending_open_rate_limit_with (re_parse_time env) i now (pending_open_min_interval_secs vars)
            then (Keep i, w)
            else attempt_item env (max_recovery_attempts vars) (attempts_alert_threshold vars) i w))"

fun process_items ::
    "('d, 'w) recovery_env \<Rightarrow> (string \<rightharpoonup> string) \<Rightarrow> string set \<Rightarrow> 'd pending_open_item list \<Rightarrow> 'w
      \<Rightarrow> (string + 'd pending_open_item list) \<times> 'w" where
  "process_items env vars claims [] w = (Inr [], w)"
| "process_items env vars claims (i # is) w =
     (case process_item env vars claims i w of
        (Abort e, w1) \<Rightarrow> (Inl e, w1)
      | (Keep i', w1) \<Rightarrow>
          (case process_items env vars claims is w1 of (Inl e, w2) \<Rightarrow> (Inl e, w2) | (Inr kept, w2) \<Rightarrow> (Inr (i' # kept), w2))
      | (Drop, w1) \<Rightarrow> process_items env vars claims is w1)"

definition process_pending_open_recoveries ::
    "('d, 'w) recovery_env \<Rightarrow> (string \<rightharpoonup> string) \<Rightarrow> string set \<Rightarrow> bool \<Rightarrow> bool \<Rightarrow> bool \<Rightarrow> bool \<Rightarrow> 'w \<Rightarrow> (string + unit) \<times> 'w" where
  "process_pending_open_recoveries env vars claims has_path auto_execute dry_run has_wallet w =
     (if \<not> has_path then (Inr (), w)
      else if \<not> auto_execute \<or> dry_run then (Inr (), w)
      else if \<not> has_wallet then (Inr (), w)
      else (let store = load_or_default (re_file env w) in
            if items store = [] then (Inr (), w)
            else (case process_items env vars claims (items store) w of
                    (Inl e, w1) \<Rightarrow> (Inl e, w1)
                  | (Inr kept, w1) \<Rightarrow> re_save env (store\<lparr>items := kept\<rparr>) w1)))"

section \<open>What may leave the queue\<close>

lemma item_key_simps [simp]:
  "item_key (i\<lparr>attempts := a\<rparr>) = item_key i" "item_key (i\<lparr>last_error := e\<rparr>) = item_key i"
  "item_key (i\<lparr>last_attempt_at := t\<rparr>) = item_key i" "item_key (i\<lparr>stuck_reason := r\<rparr>) = item_key i"
  "item_key (i\<lparr>stuck_since := t\<rparr>) = item_key i" "item_key (i\<lparr>last_alert_attempts := n\<rparr>) = item_key i"
  by (simp_all add: item_key_def)

lemma keep_below_cases:
  "keep_below max_a i = Keep i' \<longleftrightarrow> i' = i \<and> attempts i < max_a" "keep_below max_a i = Drop \<longleftrightarrow> max_a \<le> attempts i"
  "keep_below max_a i \<noteq> Abort e"
  by (auto simp: keep_below_def not_less)

text \<open>A recovery that reached the rebalance executor.\<close>

definition recovered :: "('d, 'w) recovery_env \<Rightarrow> 'd pending_open_item \<Rightarrow> bool" where
  "recovered env i \<longleftrightarrow> (\<exists>q pool_key closed_key w. re_parse_key env (trim (po_pool i)) = Inr pool_key
     \<and> re_parse_key env (trim (closed_position_nft i)) = Inr closed_key
     \<and> rr_success (fst (re_recover env q w)) \<and> rp_pool q = pool_key \<and> rp_closed_position_nft q = closed_key
     \<and> rp_new_tick_lower q = intended_tick_lower i \<and> rp_new_tick_upper q = intended_tick_upper i)"

definition session_opened :: "('d, 'w) recovery_env \<Rightarrow> 'd pending_open_item \<Rightarrow> bool" where
  "session_opened env i \<longleftrightarrow> (\<exists>sid w. trimmed_session i = Some sid
     \<and> session_has_bot_open_position (re_json env) (re_lifecycle_file env w) sid)"

lemma recovery_failed_outcome:
  "recovery_failed env max_a t i pool_key closed_key err w = (x, w') \<Longrightarrow>
     (\<exists>i'. x = keep_below max_a i' \<and> item_key i' = item_key i \<and> attempts i' = attempts i)"
  by (auto simp: recovery_failed_def Let_def split: prod.splits if_splits)

lemma recovery_succeeded_outcome:
  "recovery_succeeded env max_a i pool_key closed_key np w = (x, w') \<Longrightarrow>
     x = Drop \<or> (\<exists>i'. x = keep_below max_a i' \<and> item_key i' = item_key i \<and> attempts i' = attempts i)"
  by (auto simp: recovery_succeeded_def split: option.splits prod.splits sum.splits
      intro: exI [of _ "i\<lparr>last_error := e\<rparr>" for e])

lemma attempt_item_outcome:
  assumes "attempt_item env max_a t i w = (x, w')"
  shows "(\<exists>e. x = Abort e) \<or> x = Drop \<and> recovered env i
    \<or> (\<exists>i'. x = keep_below max_a i' \<and> item_key i' = item_key i \<and> attempts i' = attempts i + 1)"
proof -
  obtain now w1 where "re_clock env w = (now, w1)" by (cases "re_clock env w")
  note eqs = assms [unfolded attempt_item_def this Let_def, simplified]
  show ?thesis
  proof (cases "re_parse_key env (trim (po_pool i))")
    case pool: (Inr pool_key)
    show ?thesis
    proof (cases "re_parse_key env (trim (closed_position_nft i))")
      case key: (Inr closed_key)
      let ?i = "i\<lparr>attempts := attempts i + 1, last_attempt_at := Some (re_rfc3339 env now)\<rparr>"
      obtain res w2 where res: "re_recover env (recover_params ?i pool_key closed_key) w1 = (res, w2)"
        by (cases "re_recover env (recover_params ?i pool_key closed_key) w1")
      show ?thesis
      proof (cases "rr_success res")
        case True
        then have "rr_success (fst (re_recover env (recover_params ?i pool_key closed_key) w1))" by (simp add: res)
        then have "recovered env i" unfolding recovered_def
          by (intro exI [of _ "recover_params ?i pool_key closed_key"] exI [of _ w1] exI [of _ pool_key] exI [of _ closed_key])
            (simp add: pool key, simp add: recover_params_def)
        with True eqs pool key res show ?thesis by (auto dest!: recovery_succeeded_outcome)
      next
        case False
        with eqs pool key res show ?thesis by (auto dest!: recovery_failed_outcome)
      qed
    qed (use eqs pool in auto)
  qed (use eqs in auto)
qed

lemma process_item_outcome:
  assumes "process_item env vars claims i w = (x, w')"
  shows "(\<exists>e. x = Abort e)
    \<or> x = Drop \<and> (max_recovery_attempts vars \<le> attempts i \<or> max_recovery_attempts vars \<le> attempts i + 1
         \<or> session_opened env i \<or> recovered env i)
    \<or> (\<exists>i'. x = Keep i' \<and> item_key i' = item_key i
         \<and> (i' = i \<or> attempts i' = attempts i + 1 \<and> attempts i' < max_recovery_attempts vars))"
proof -
  let ?max = "max_recovery_attempts vars"
  obtain now w1 where clock: "re_clock env w = (now, w1)" by (cases "re_clock env w")
  consider (same) "x = Keep i" | (used) "x = Drop" "?max \<le> attempts i" | (opened) "x = Drop" "session_opened env i"
    | (tried) "attempt_item env ?max (attempts_alert_threshold vars) i w1 = (x, w')"
  proof -
    define opened where "opened \<longleftrightarrow> (case trimmed_session i of
      Some sid \<Rightarrow> session_has_bot_open_position (re_json env) (re_lifecycle_file env w) sid | None \<Rightarrow> False)"
    have "opened \<Longrightarrow> session_opened env i" by (auto simp: opened_def session_opened_def split: option.splits)
    with assms that show thesis
      unfolding process_item_def opened_def [symmetric] clock by (simp split: if_split_asm)
  qed
  then show ?thesis
  proof cases
    case tried
    from attempt_item_outcome [OF this] consider e where "x = Abort e" | "x = Drop" "recovered env i"
      | i' where "x = keep_below ?max i'" "item_key i' = item_key i" "attempts i' = attempts i + 1"
      by blast
    then show ?thesis
    proof cases
      case 3
      then show ?thesis
      proof (cases "attempts i' < ?max")
        case True
        with 3(1) have "x = Keep i'" by (simp add: keep_below_def)
        with 3 True show ?thesis by blast
      next
        case False
        with 3(1) have "x = Drop" "?max \<le> attempts i'" by (simp_all add: keep_below_def)
        with 3(3) show ?thesis by simp
      qed
    qed simp_all
  qed simp_all
qed

text \<open>C22. The recovery queue forgets nothing: when a pass completes, the items it keeps are items of the old queue
  in their order, with the same pool and closed position, at most one more attempt, and fewer
  attempts than the limit when they were tried; and every item that left the queue had used up its
  attempts, belonged to a session that has an open position, or was recovered successfully with
  its own pool, closed position and range.\<close>

theorem recovery_queue_conserved:
  assumes "process_items env vars claims is w = (Inr kept, w')"
  shows "subseq (map item_key kept) (map item_key is)
    \<and> (\<forall>i' \<in> set kept. i' \<in> set is \<or> (\<exists>i \<in> set is. item_key i' = item_key i \<and> attempts i' = attempts i + 1
         \<and> attempts i' < max_recovery_attempts vars))
    \<and> (\<forall>i \<in> set is. (\<exists>i' \<in> set kept. item_key i' = item_key i)
         \<or> max_recovery_attempts vars \<le> attempts i \<or> max_recovery_attempts vars \<le> attempts i + 1
         \<or> session_opened env i \<or> recovered env i)"
  using assms
proof (induction "is" arbitrary: w kept)
  case (Cons i "is")
  obtain x w1 where x: "process_item env vars claims i w = (x, w1)" by (cases "process_item env vars claims i w")
  show ?case
  proof (cases x)
    case (Keep i')
    with Cons.prems x obtain rest where kept: "kept = i' # rest" "process_items env vars claims is w1 = (Inr rest, w')"
      by (auto split: prod.splits sum.splits)
    from process_item_outcome [OF x] Keep have i': "item_key i' = item_key i"
      "i' = i \<or> attempts i' = attempts i + 1 \<and> attempts i' < max_recovery_attempts vars"
      by auto
    with Cons.IH [OF kept(2)] kept(1) show ?thesis by auto
  next
    case Drop
    with Cons.prems x have "process_items env vars claims is w1 = (Inr kept, w')" by simp
    from Cons.IH [OF this] process_item_outcome [OF x] Drop show ?thesis by (auto intro: list_emb_Cons)
  next
    case (Abort e)
    with Cons.prems x show ?thesis by simp
  qed
qed simp

text \<open>A small world: the number of positions the rebalance executor has opened, and the queue file. Keys are the
  bytes of their text, except the text \<open>''?''\<close>, which does not parse; adding a position to the monitor
  fails when \<open>add_ok\<close> is false.\<close>

record demo_world =
  dw_opened :: nat
  dw_file :: "unit pending_file"

definition demo_recovery :: "bool \<Rightarrow> (unit, demo_world) recovery_env" where
  "demo_recovery add_ok = \<lparr>re_parse_key = (\<lambda>s. if s = ''?'' then Inl ''invalid'' else Inr []), re_show_key = (\<lambda>_. []),
     re_clock = (\<lambda>w. (0, w)), re_stamp = (\<lambda>w. (([], 0), w)), re_rfc3339 = (\<lambda>_. []), re_parse_time = (\<lambda>_. None),
     re_json = (\<lambda>_. None), re_lifecycle_file = (\<lambda>_. None), re_file = dw_file,
     re_save = (\<lambda>s w. (Inr (), w\<lparr>dw_file := StoredFile s\<rparr>)),
     re_recover = (\<lambda>_ w. (\<lparr>rr_success = True, rr_new_position = Some [], rr_error = None\<rparr>, w\<lparr>dw_opened := dw_opened w + 1\<rparr>)),
     re_add_position = (\<lambda>_ w. (if add_ok then Inr () else Inl ''rpc'', w)),
     re_reopened = (\<lambda>_ _ _ _ w. w), re_emit = (\<lambda>_ w. w)\<rparr>"

definition demo_item :: "string \<Rightarrow> unit pending_open_item" where
  "demo_item pool_name = \<lparr>po_pool = pool_name, intended_tick_lower = 0, intended_tick_upper = 4, closed_position_nft = ''n'',
     po_session_id = None, planned_at_utc = None, planned_price_ab = None, po_reason = RrRangeExit,
     po_optimization_run_id = None, attempts = 0, last_error = None, last_attempt_at = None, stuck_reason = None,
     stuck_since = None, last_alert_attempts = None, created_at = []\<rparr>"

lemmas demo_defs = process_item_def attempt_item_def recovery_succeeded_def keep_below_def demo_recovery_def demo_item_def
  pending_open_claim_key_def trimmed_session_def max_recovery_attempts_def env_u32_in_def
  should_defer_pending_open_rate_limit_with_def pending_open_min_interval_secs_def attempts_alert_threshold_def
  trim_def is_space_def

lemma demo_pass:
  "process_items (demo_recovery True) Map.empty {} [demo_item ''a'', demo_item ''b''] \<lparr>dw_opened = 0, dw_file = NoFile\<rparr> =
     (Inr [], \<lparr>dw_opened = 2, dw_file = NoFile\<rparr>)"
  by (simp add: demo_defs)

theorem recovery_queue_conserved_witness:
  "(max_recovery_attempts Map.empty \<le> attempts (demo_item ''a'') \<or> max_recovery_attempts Map.empty \<le> attempts (demo_item ''a'') + 1
      \<or> session_opened (demo_recovery True) (demo_item ''a'') \<or> recovered (demo_recovery True) (demo_item ''a''))
   \<and> (max_recovery_attempts Map.empty \<le> attempts (demo_item ''b'') \<or> max_recovery_attempts Map.empty \<le> attempts (demo_item ''b'') + 1
      \<or> session_opened (demo_recovery True) (demo_item ''b'') \<or> recovered (demo_recovery True) (demo_item ''b''))"
  using recovery_queue_conserved [OF demo_pass] by simp

text \<open>An item whose pool does not parse aborts the pass before the queue is saved: a position that was
  reopened before it is reopened again by the next pass.\<close>

lemma malformed_item_repeats_recoveries:
  fixes w0 :: demo_world
  defines "w0 \<equiv> \<lparr>dw_opened = 0, dw_file = StoredFile \<lparr>items = [demo_item ''a'', demo_item ''?''], dismissed_session_ids = []\<rparr>\<rparr>"
    and "pass \<equiv> process_pending_open_recoveries (demo_recovery True) Map.empty {} True True False True"
  shows "\<exists>e. fst (pass w0) = Inl e \<and> dw_file (snd (pass w0)) = dw_file w0 \<and> dw_opened (snd (pass w0)) = 1
    \<and> dw_opened (snd (pass (snd (pass w0)))) = 2"
  by (simp add: w0_def pass_def process_pending_open_recoveries_def load_or_default_def demo_defs)

text \<open>When the position was opened but could not be added to the monitor, the item stays in the queue and the next
  pass opens a second position.\<close>

lemma unmonitored_recovery_repeats:
  fixes w0 :: demo_world
  defines "w0 \<equiv> \<lparr>dw_opened = 0, dw_file = StoredFile \<lparr>items = [demo_item ''a''], dismissed_session_ids = []\<rparr>\<rparr>"
    and "pass \<equiv> process_pending_open_recoveries (demo_recovery False) Map.empty {} True True False True"
  shows "fst (pass w0) = Inr () \<and> dw_opened (snd (pass (snd (pass w0)))) = 2"
proof -
  have "\<not> (100 :: u32) \<le> 1" by (simp add: word_le_nat_alt)
  then show ?thesis
    by (simp add: w0_def pass_def process_pending_open_recoveries_def load_or_default_def demo_defs Let_def)
qed

section \<open>Keys and alerts\<close>

lemma upsert_keys: "item_key ` set (upsert_items xs i) = insert (item_key i) (item_key ` set xs)"
  by (induction xs) auto

text \<open>Inserting keeps the keys distinct, replaces the item with the same key and leaves the others.\<close>

lemma upsert_distinct: "distinct (map item_key xs) \<Longrightarrow> distinct (map item_key (upsert_items xs i))"
  using upsert_keys [of _ i] by (induction xs) (auto simp del: set_map simp: set_map [symmetric])

lemma upsert_lookup:
  "distinct (map item_key xs) \<Longrightarrow> x \<in> set (upsert_items xs i) \<longleftrightarrow> x = i \<or> x \<in> set xs \<and> item_key x \<noteq> item_key i"
  by (induction xs) (auto simp: image_iff)

text \<open>Once an item has raised the alert for being stuck, it does not raise it again under the same threshold.\<close>

lemma stuck_alert_once:
  "should_emit_pending_open_stuck_alert n t l \<Longrightarrow> \<not> should_emit_pending_open_stuck_alert m t (Some n)"
  by (auto simp: should_emit_pending_open_stuck_alert_def split: if_splits)

end
