(* ===== verification/Price_Bands.thy ===== *)
theory Price_Bands
  imports Decision_Engine Impermanent_Loss
begin

text \<open>
  The price bands of \<^verbatim>\<open>crates/execution/src/strategy/executor.rs\<close>: the samples kept per position, the
  band of the last closed candle, the Bollinger band, and the widening of a band until it contains
  the current tick. Arithmetic on \<^verbatim>\<open>i32\<close> and \<^verbatim>\<open>i64\<close> wraps or saturates as written in the source. The
  two loops of the widening are \<open>partial_function\<close>s: a loop that never ends is \<open>None\<close>.
\<close>

definition saturate_i32 :: "int \<Rightarrow> int" where
  "saturate_i32 x = max (- (2 ^ 31)) (min (2 ^ 31 - 1) x)"

definition saturate_i64 :: "int \<Rightarrow> int" where
  "saturate_i64 x = max (- (2 ^ 63)) (min (2 ^ 63 - 1) x)"

definition wrap_i64 :: "int \<Rightarrow> int" where
  "wrap_i64 x = (x + 2 ^ 63) mod 2 ^ 64 - 2 ^ 63"

section \<open>Widening a band\<close>

partial_function (option) lower_until :: "int \<Rightarrow> int \<Rightarrow> int \<Rightarrow> int option" where
  "lower_until step tick lo = (if tick < lo then lower_until step tick (saturate_i32 (lo - step)) else Some lo)"

partial_function (option) raise_until :: "int \<Rightarrow> int \<Rightarrow> int \<Rightarrow> int option" where
  "raise_until step tick hi = (if hi \<le> tick then raise_until step tick (saturate_i32 (hi + step)) else Some hi)"

declare lower_until.simps [code] raise_until.simps [code]

definition expand_spacing_aligned_range_to_include_current_tick :: "int \<Rightarrow> int \<Rightarrow> int \<Rightarrow> int \<Rightarrow> (int \<times> int) option" where
  "expand_spacing_aligned_range_to_include_current_tick lo hi tick spacing =
     (let step = max spacing 1;
          hi = (if hi \<le> lo then saturate_i32 (lo + step) else hi)
      in do {
        lo \<leftarrow> lower_until step tick lo;
        hi \<leftarrow> raise_until step tick hi;
        (let hi = (if hi \<le> lo then saturate_i32 (lo + step) else hi) in Some (lo, hi))
      })"

section \<open>Samples\<close>

record 'd price_sample =
  ts_unix :: int
  price_ab :: 'd

type_synonym 'd sample_table = "(pubkey \<times> 'd price_sample list) list"

definition samples_of :: "'d sample_table \<Rightarrow> pubkey \<Rightarrow> 'd price_sample list" where
  "samples_of samples pos = (case map_of samples pos of None \<Rightarrow> [] | Some es \<Rightarrow> es)"

fun trim_samples :: "int \<Rightarrow> 'd price_sample list \<Rightarrow> 'd price_sample list" where
  "trim_samples keep_after [] = []"
| "trim_samples keep_after (s # ss) =
     (if ts_unix s < keep_after \<or> 4096 < length (s # ss) then trim_samples keep_after ss else s # ss)"

definition push_sample :: "int \<Rightarrow> int \<Rightarrow> 'd \<Rightarrow> pubkey \<Rightarrow> 'd sample_table \<Rightarrow> 'd sample_table" where
  "push_sample now keep_after price pos samples =
     AList.update pos (trim_samples keep_after (samples_of samples pos @ [\<lparr>ts_unix = now, price_ab = price\<rparr>])) samples"

section \<open>Bands\<close>

text \<open>Two prices as ticks, moved outwards to the grid and widened to the current tick.\<close>

definition aligned_band :: "int \<Rightarrow> int \<Rightarrow> int \<Rightarrow> int \<Rightarrow> (int \<times> int) option" where
  "aligned_band spacing tick lo hi =
     (let (lo, hi) = (if 0 < spacing
                      then (wrap_i32 (lo div spacing * spacing),
                            wrap_i32 (wrap_i32 (wrap_i32 (hi + spacing) - 1) div spacing * spacing))
                      else (lo, hi));
          hi = (if hi \<le> lo then wrap_i32 (lo + max spacing 1) else hi)
      in expand_spacing_aligned_range_to_include_current_tick lo hi tick spacing)"

definition dec_min :: "('d, 'a) decimal_ops_scheme \<Rightarrow> 'd \<Rightarrow> 'd \<Rightarrow> 'd" where
  "dec_min ops a b = (if dec_gt ops a b then b else a)"

text \<open>The lowest and highest price of the samples of one candle, from \<^verbatim>\<open>Decimal::MAX\<close> and zero.\<close>

definition candle_samples :: "int \<Rightarrow> int \<Rightarrow> 'd price_sample list \<Rightarrow> 'd price_sample list" where
  "candle_samples cs bucket es = filter (\<lambda>s. rust_div (ts_unix s) cs = Some bucket) es"

definition candle_low_high :: "('d, 'a) decimal_ops_scheme \<Rightarrow> 'd \<Rightarrow> 'd price_sample list \<Rightarrow> 'd \<times> 'd" where
  "candle_low_high ops decimal_max es =
     fold (\<lambda>s (low, high). (dec_min ops low (price_ab s), dec_max ops high (price_ab s))) es (decimal_max, dec_zero ops)"

definition record_price_and_compute_last_closed_candle_ticks ::
    "'d decimal_arith \<Rightarrow> float_fns \<Rightarrow> 'd \<Rightarrow> int \<Rightarrow> pubkey \<Rightarrow> 'd whirlpool_state \<Rightarrow> u64 \<Rightarrow> 'd sample_table
      \<Rightarrow> ((int \<times> int) option \<times> 'd sample_table) option" where
  "record_price_and_compute_last_closed_candle_ticks ops fl decimal_max now pos pl candle_seconds samples =
     (let cs = wrap_i64 (uint (max candle_seconds 60)) in do {
        current_bucket \<leftarrow> rust_div now cs;
        (let last_closed_bucket = saturate_i64 (current_bucket - 1);
             keep_after = saturate_i64 (now - saturate_i64 (cs * 4));
             samples = push_sample now keep_after (ws_price pl) pos samples;
             es = candle_samples cs last_closed_bucket (samples_of samples pos);
             (low, high) = candle_low_high ops decimal_max es
         in if es = [] \<or> \<not> dec_gt ops low (dec_zero ops) \<or> \<not> dec_gt ops high low then Some (None, samples)
            else map_option (\<lambda>band. (Some band, samples))
                   (aligned_band (uint (ws_tick_spacing pl)) (ws_tick_current pl) (price_to_tick ops fl low) (price_to_tick ops fl high)))
      })"

definition f64_sum :: "f64 list \<Rightarrow> f64" where
  "f64_sum xs = foldl f64_add (f64_lit 0) xs"

text \<open>The prices of the window, oldest first; a price that is not positive and finite ends the computation.\<close>

definition window_values :: "'d decimal_conv \<Rightarrow> nat \<Rightarrow> 'd price_sample list \<Rightarrow> f64 list option" where
  "window_values dc w es =
     (let values = map (\<lambda>s. case dc_to_f64 dc (price_ab s) of Some p \<Rightarrow> p | None \<Rightarrow> f64_lit 0) (take w (rev es))
      in if list_all (\<lambda>p. f64_is_finite p \<and> \<not> f64_le p (f64_lit 0)) values then Some (rev values) else None)"

definition bollinger_prices :: "float_fns \<Rightarrow> f64 \<Rightarrow> f64 list \<Rightarrow> (f64 \<times> f64) option" where
  "bollinger_prices fl kf values =
     (let n = f64_of_nat (length values);
          mean = f64_div (f64_sum values) n
      in if \<not> f64_is_finite mean \<or> f64_le mean (f64_lit 0) then None
         else let var = f64_div (f64_sum (map (\<lambda>v. f64_mul (f64_sub v mean) (f64_sub v mean)) values)) n;
                  sigma = f64_sqrt fl var;
                  lo = f64_sub mean (f64_mul kf sigma);
                  hi = f64_add mean (f64_mul kf sigma)
              in if \<not> (f64_is_finite lo \<and> f64_is_finite hi) then None
                 else let lo = (if f64_le lo (f64_lit 0) then f64_mul (f64_max mean (f64_lit (1 / 10 ^ 12))) (f64_lit (999 / 1000)) else lo);
                          hi = (if f64_le hi lo then f64_mul lo (f64_lit (1001 / 1000)) else hi)
                      in Some (lo, hi))"

definition retained_or :: "'d decimal_conv \<Rightarrow> 'd \<Rightarrow> f64 \<Rightarrow> 'd" where
  "retained_or dc price x = (case dc_from_f64_retain dc x of Some d \<Rightarrow> d | None \<Rightarrow> price)"

definition record_price_and_compute_bollinger_ticks ::
    "'d decimal_arith \<Rightarrow> float_fns \<Rightarrow> 'd decimal_conv \<Rightarrow> int \<Rightarrow> pubkey \<Rightarrow> 'd whirlpool_state \<Rightarrow> u64 \<Rightarrow> 'd \<Rightarrow> 'd sample_table
      \<Rightarrow> ((int \<times> int) option \<times> 'd sample_table) option" where
  "record_price_and_compute_bollinger_ticks ops fl dc now pos pl window_points k samples =
     (let keep_after = saturate_i64 (now - 24 * 60 * 60);
          w = unat (max window_points 2);
          kf = (case dc_to_f64 dc k of Some x \<Rightarrow> x | None \<Rightarrow> f64_lit 2)
      in if \<not> f64_is_finite kf \<or> f64_le kf (f64_lit 0) then Some (None, samples)
         else let samples = push_sample now keep_after (ws_price pl) pos samples;
                  es = samples_of samples pos
              in if length es < w then Some (None, samples)
                 else (case Option.bind (window_values dc w es) (bollinger_prices fl kf) of
                         None \<Rightarrow> Some (None, samples)
                       | Some (lo_price, hi_price) \<Rightarrow>
                           map_option (\<lambda>band. (Some band, samples))
                             (aligned_band (uint (ws_tick_spacing pl)) (ws_tick_current pl)
                                (price_to_tick ops fl (retained_or dc (ws_price pl) lo_price))
                                (price_to_tick ops fl (retained_or dc (ws_price pl) hi_price)))))"

section \<open>The widening ends and contains the current tick\<close>

lemma lower_until_spec:
  assumes "0 < step" and "is_i32 tick" and "is_i32 lo"
  shows "\<exists>lo'. lower_until step tick lo = Some lo' \<and> is_i32 lo' \<and> lo' \<le> lo \<and> lo' \<le> tick
    \<and> (lo \<le> tick \<longrightarrow> lo' = lo) \<and> (- (2 ^ 31) + step \<le> tick \<longrightarrow> step dvd lo - lo' \<and> (tick < lo \<longrightarrow> tick < lo' + step))"
  using assms(3)
proof (induction "nat (lo + 2 ^ 31)" arbitrary: lo rule: less_induct)
  case less
  show ?case
  proof (cases "tick < lo")
    case True
    let ?lo = "saturate_i32 (lo - step)"
    have i: "is_i32 ?lo" and le: "?lo < lo" and "- (2 ^ 31) \<le> ?lo"
      using True assms(1,2) less.prems by (auto simp: saturate_i32_def is_i32_def)
    then obtain lo' where r: "lower_until step tick ?lo = Some lo'" "is_i32 lo'" "lo' \<le> ?lo" "lo' \<le> tick"
      "?lo \<le> tick \<longrightarrow> lo' = ?lo" "- (2 ^ 31) + step \<le> tick \<longrightarrow> step dvd ?lo - lo' \<and> (tick < ?lo \<longrightarrow> tick < lo' + step)"
      using less.hyps [of ?lo] by auto
    have eq: "?lo = lo - step" if "- (2 ^ 31) + step \<le> tick"
      using that True less.prems assms by (simp add: saturate_i32_def is_i32_def)
    have "step dvd lo - lo' \<and> tick < lo' + step" if "- (2 ^ 31) + step \<le> tick"
    proof -
      from r(6) that have "step dvd lo - step - lo'" "tick < ?lo \<longrightarrow> tick < lo' + step" by (auto simp: eq [OF that])
      moreover have "step dvd lo - lo'"
        using dvd_add [OF calculation(1) dvd_refl] by simp
      ultimately show ?thesis using r(5) eq [OF that] True by auto
    qed
    with r le True show ?thesis by (subst lower_until.simps) auto
  qed (use less.prems in \<open>subst lower_until.simps, auto\<close>)
qed

lemma raise_until_spec:
  assumes "0 < step" and "tick < 2 ^ 31 - 1" and "is_i32 hi"
  shows "\<exists>hi'. raise_until step tick hi = Some hi' \<and> is_i32 hi' \<and> hi \<le> hi' \<and> tick < hi'
    \<and> (tick < hi \<longrightarrow> hi' = hi) \<and> (tick < 2 ^ 31 - step \<longrightarrow> step dvd hi' - hi \<and> (hi \<le> tick \<longrightarrow> hi' \<le> tick + step))"
  using assms(3)
proof (induction "nat (2 ^ 31 - hi)" arbitrary: hi rule: less_induct)
  case less
  show ?case
  proof (cases "hi \<le> tick")
    case True
    let ?hi = "saturate_i32 (hi + step)"
    have i: "is_i32 ?hi" and le: "hi < ?hi"
      using True assms(1,2) less.prems by (auto simp: saturate_i32_def is_i32_def)
    then obtain hi' where r: "raise_until step tick ?hi = Some hi'" "is_i32 hi'" "?hi \<le> hi'" "tick < hi'"
      "tick < ?hi \<longrightarrow> hi' = ?hi" "tick < 2 ^ 31 - step \<longrightarrow> step dvd hi' - ?hi \<and> (?hi \<le> tick \<longrightarrow> hi' \<le> tick + step)"
      using less.hyps [of ?hi] less.prems by (auto simp: is_i32_def)
    have eq: "?hi = hi + step" if "tick < 2 ^ 31 - step"
      using that True less.prems assms by (simp add: saturate_i32_def is_i32_def)
    have "step dvd hi' - hi \<and> hi' \<le> tick + step" if "tick < 2 ^ 31 - step"
    proof -
      from r(6) that have "step dvd hi' - hi - step" "?hi \<le> tick \<longrightarrow> hi' \<le> tick + step" by (auto simp: eq [OF that] algebra_simps)
      moreover have "step dvd hi' - hi" using dvd_add [OF calculation(1) dvd_refl] by simp
      ultimately show ?thesis using r(5) eq [OF that] True by auto
    qed
    with r le True show ?thesis by (subst raise_until.simps) auto
  qed (use less.prems in \<open>subst raise_until.simps, auto\<close>)
qed

text \<open>The widening ends for every current tick but the largest, for which it never does.\<close>

lemma saturate_i32_range: "is_i32 (saturate_i32 x)"
  by (simp add: saturate_i32_def is_i32_def)

lemma expand_spec:
  assumes "is_i32 lo" and "is_i32 hi" and "is_i32 tick" and "tick < 2 ^ 31 - 1"
  shows "\<exists>lo' hi'. expand_spacing_aligned_range_to_include_current_tick lo hi tick spacing = Some (lo', hi')
    \<and> is_i32 lo' \<and> is_i32 hi' \<and> lo' \<le> tick \<and> tick < hi' \<and> lo' \<le> lo \<and> hi \<le> hi'
    \<and> (lo \<le> tick \<and> tick < hi \<longrightarrow> lo' = lo \<and> hi' = hi)
    \<and> (0 < spacing \<and> - (2 ^ 31) + spacing \<le> tick \<and> tick < 2 ^ 31 - spacing \<and> lo < 2 ^ 31 - spacing
         \<and> spacing dvd lo \<and> spacing dvd hi \<longrightarrow> spacing dvd lo' \<and> spacing dvd hi')"
proof -
  define step where "step = max spacing 1"
  define h where "h = (if hi \<le> lo then saturate_i32 (lo + step) else hi)"
  have i: "is_i32 h" and le: "hi \<le> h" and step: "0 < step"
    using assms(1,2) by (auto simp: h_def step_def saturate_i32_def is_i32_def)
  obtain lo' where
    lo: "lower_until step tick lo = Some lo'" "is_i32 lo'" "lo' \<le> lo" "lo' \<le> tick" "lo \<le> tick \<longrightarrow> lo' = lo"
      "- (2 ^ 31) + step \<le> tick \<longrightarrow> step dvd lo - lo'"
    using lower_until_spec [OF step assms(3,1)] by blast
  obtain hi' where
    hi: "raise_until step tick h = Some hi'" "is_i32 hi'" "h \<le> hi'" "tick < hi'" "tick < h \<longrightarrow> hi' = h"
      "tick < 2 ^ 31 - step \<longrightarrow> step dvd hi' - h"
    using raise_until_spec [OF step assms(4) i] by blast
  have e: "expand_spacing_aligned_range_to_include_current_tick lo hi tick spacing = Some (lo', hi')"
    using lo(1,4) hi(1,4)
    unfolding expand_spacing_aligned_range_to_include_current_tick_def Let_def step_def [symmetric] h_def [symmetric] by simp
  have grid: "spacing dvd lo' \<and> spacing dvd hi'"
    if "0 < spacing" "- (2 ^ 31) + spacing \<le> tick" "tick < 2 ^ 31 - spacing" "lo < 2 ^ 31 - spacing" "spacing dvd lo" "spacing dvd hi"
  proof
    have m: "step = spacing" using that(1) by (simp add: step_def)
    show "spacing dvd lo'" using dvd_diff [OF that(5), of "lo - lo'"] lo(6) that(2) unfolding m by simp
    have "spacing dvd h" using that(1,4-6) assms(1) unfolding h_def m by (auto simp: saturate_i32_def is_i32_def)
    from dvd_add [OF _ this, of "hi' - h"] hi(6) that(3) show "spacing dvd hi'" unfolding m by simp
  qed
  have "hi' = hi" if "lo \<le> tick" "tick < hi" using that hi(5) by (simp add: h_def)
  moreover have "hi \<le> hi'" using le hi(3) by simp
  ultimately show ?thesis unfolding e using lo(2-5) hi(2,4) grid by simp
qed

text \<open>At the largest \<^verbatim>\<open>i32\<close> the upper bound cannot pass the tick: the loop never ends.\<close>

lemma raise_until_diverges:
  assumes "is_i32 hi" shows "raise_until step (2 ^ 31 - 1) hi = None"
proof -
  have "tick = 2 ^ 31 - 1 \<longrightarrow> is_i32 hi \<longrightarrow> False" if "raise_until step tick hi = Some r" for step tick hi r :: int
    using that
  proof (rule raise_until.raw_induct [rotated])
    fix f :: "int \<Rightarrow> int \<Rightarrow> int \<Rightarrow> int option" and step tick hi y :: int
    assume "\<And>step tick hi y. f step tick hi = Some y \<Longrightarrow> tick = 2 ^ 31 - 1 \<longrightarrow> is_i32 hi \<longrightarrow> False"
      and "(if hi \<le> tick then f step tick (saturate_i32 (hi + step)) else Some hi) = Some y"
    then show "tick = 2 ^ 31 - 1 \<longrightarrow> is_i32 hi \<longrightarrow> False"
      using saturate_i32_range [of "hi + step"] by (auto simp: is_i32_def split: if_splits)
  qed
  with assms show ?thesis by (cases "raise_until step (2 ^ 31 - 1) hi") auto
qed

section \<open>Bands\<close>

lemma div_mult_bounds: "0 < (s::int) \<Longrightarrow> x - s < x div s * s \<and> x div s * s \<le> x"
  using pos_mod_bound [of s x] pos_mod_sign [of s x] div_mult_mod_eq [of x s] by linarith

text \<open>Far from the ends of \<^verbatim>\<open>i32\<close> the band is moved outwards, onto the grid.\<close>

lemma aligned_band_spec:
  assumes "is_i32 tick" and "tick < 2 ^ 31 - 1" and "is_i32 lo" and "is_i32 hi"
  shows "\<exists>lo' hi'. aligned_band spacing tick lo hi = Some (lo', hi') \<and> lo' \<le> tick \<and> tick < hi'
    \<and> (0 < spacing \<and> spacing < 2 ^ 16 \<and> \<bar>tick\<bar> \<le> 2 ^ 30 \<and> \<bar>lo\<bar> \<le> 2 ^ 30 \<and> \<bar>hi\<bar> \<le> 2 ^ 30
         \<longrightarrow> spacing dvd lo' \<and> spacing dvd hi' \<and> lo' \<le> lo \<and> hi \<le> hi')"
proof -
  define lo1 where "lo1 = (if 0 < spacing then wrap_i32 (lo div spacing * spacing) else lo)"
  define hi0 where "hi0 = (if 0 < spacing then wrap_i32 (wrap_i32 (wrap_i32 (hi + spacing) - 1) div spacing * spacing) else hi)"
  define hi1 where "hi1 = (if hi0 \<le> lo1 then wrap_i32 (lo1 + max spacing 1) else hi0)"
  have a: "aligned_band spacing tick lo hi = expand_spacing_aligned_range_to_include_current_tick lo1 hi1 tick spacing"
    by (simp add: aligned_band_def Let_def lo1_def hi0_def hi1_def)
  have i: "is_i32 lo1" "is_i32 hi1" using assms(3,4) by (simp_all add: lo1_def hi1_def hi0_def wrap_i32_range)
  have far: "lo1 = lo div spacing * spacing \<and> hi0 = (hi + spacing - 1) div spacing * spacing
      \<and> hi1 = (if hi0 \<le> lo1 then lo1 + spacing else hi0) \<and> lo1 < 2 ^ 31 - spacing \<and> lo1 \<le> lo \<and> hi \<le> hi0"
    if h: "0 < spacing" "spacing < 2 ^ 16" "\<bar>lo\<bar> \<le> 2 ^ 30" "\<bar>hi\<bar> \<le> 2 ^ 30"
  proof -
    note b = div_mult_bounds [OF h(1), of lo] div_mult_bounds [OF h(1), of "hi + spacing - 1"]
    have w: "wrap_i32 (lo div spacing * spacing) = lo div spacing * spacing"
      "wrap_i32 (hi + spacing) = hi + spacing" "wrap_i32 (hi + spacing - 1) = hi + spacing - 1"
      "wrap_i32 ((hi + spacing - 1) div spacing * spacing) = (hi + spacing - 1) div spacing * spacing"
      "wrap_i32 (lo div spacing * spacing + spacing) = lo div spacing * spacing + spacing"
      using b h by (auto intro!: wrap_i32_id simp: is_i32_def)
    have "lo1 = lo div spacing * spacing" "hi0 = (hi + spacing - 1) div spacing * spacing"
      using h(1) by (simp_all add: lo1_def hi0_def w)
    moreover have "max spacing 1 = spacing" using h(1) by simp
    ultimately show ?thesis using b h w(5) unfolding hi1_def by auto
  qed
  from expand_spec [OF i assms(1,2), of spacing] obtain lo' hi' where
    e: "expand_spacing_aligned_range_to_include_current_tick lo1 hi1 tick spacing = Some (lo', hi')"
      "lo' \<le> tick" "tick < hi'" "lo' \<le> lo1" "hi1 \<le> hi'"
      "0 < spacing \<and> - (2 ^ 31) + spacing \<le> tick \<and> tick < 2 ^ 31 - spacing \<and> lo1 < 2 ^ 31 - spacing
         \<and> spacing dvd lo1 \<and> spacing dvd hi1 \<longrightarrow> spacing dvd lo' \<and> spacing dvd hi'"
    by blast
  have "spacing dvd lo' \<and> spacing dvd hi' \<and> lo' \<le> lo \<and> hi \<le> hi'"
    if h: "0 < spacing" "spacing < 2 ^ 16" "\<bar>tick\<bar> \<le> 2 ^ 30" "\<bar>lo\<bar> \<le> 2 ^ 30" "\<bar>hi\<bar> \<le> 2 ^ 30"
  proof -
    note f = far [OF h(1,2,4,5)]
    have "spacing dvd lo1 \<and> spacing dvd hi1" using f by auto
    with e(6) f h have "spacing dvd lo' \<and> spacing dvd hi'" by auto
    moreover have "hi \<le> hi1"
    proof -
      from f have "hi1 = (if hi0 \<le> lo1 then lo1 + spacing else hi0)" "hi \<le> hi0" by blast+
      then show ?thesis using h(1) by simp
    qed
    moreover have "lo1 \<le> lo" using f by blast
    ultimately show ?thesis using e(4,5) by linarith
  qed
  then show ?thesis unfolding a e(1) using e(2,3) by (intro exI [of _ lo'] exI [of _ hi']) auto
qed

lemma trim_samples_suffix: "\<exists>ys. xs = ys @ trim_samples k xs"
  by (induction xs) (auto intro: exI [of _ "[]"] exI [of _ "_ # _"])

lemma trim_samples_length: "length (trim_samples k xs) \<le> 4096"
  by (induction xs) auto

lemma samples_of_push:
  "samples_of (push_sample now k price pos samples) q =
     (if q = pos then trim_samples k (samples_of samples pos @ [\<lparr>ts_unix = now, price_ab = price\<rparr>]) else samples_of samples q)"
  by (simp add: push_sample_def samples_of_def update_conv')

text \<open>What a band computation has done when it returns: the samples of the other positions are
  untouched, the own ones are bounded, and a band contains the current tick.\<close>

definition good_band :: "'d whirlpool_state \<Rightarrow> pubkey \<Rightarrow> 'd sample_table \<Rightarrow> (int \<times> int) option \<times> 'd sample_table \<Rightarrow> bool" where
  "good_band pl pos samples r \<longleftrightarrow>
     (\<forall>q. q \<noteq> pos \<longrightarrow> samples_of (snd r) q = samples_of samples q)
     \<and> length (samples_of (snd r) pos) \<le> max 4096 (length (samples_of samples pos))
     \<and> (\<forall>lo hi. fst r = Some (lo, hi) \<longrightarrow> is_tick_in_range lo hi pl)"

definition on_grid :: "'d whirlpool_state \<Rightarrow> (int \<times> int) option \<Rightarrow> bool" where
  "on_grid pl band \<longleftrightarrow>
     (\<forall>lo hi. band = Some (lo, hi) \<longrightarrow> uint (ws_tick_spacing pl) dvd lo \<and> uint (ws_tick_spacing pl) dvd hi)"

lemma good_push: "good_band pl pos samples (None, push_sample now k price pos samples)"
  using trim_samples_length by (auto simp: good_band_def samples_of_push le_max_iff_disj)

lemma good_band_push:
  assumes "good_band pl pos samples (None, samples')" and "\<bar>ws_tick_current pl\<bar> \<le> 2 ^ 30" and "is_i32 lo" and "is_i32 hi"
  shows "\<exists>r. map_option (\<lambda>band. (Some band, samples')) (aligned_band (uint (ws_tick_spacing pl)) (ws_tick_current pl) lo hi) = Some r
    \<and> good_band pl pos samples r
    \<and> (0 < ws_tick_spacing pl \<and> \<bar>lo\<bar> \<le> 2 ^ 30 \<and> \<bar>hi\<bar> \<le> 2 ^ 30 \<longrightarrow> on_grid pl (fst r))"
proof -
  let ?s = "uint (ws_tick_spacing pl)"
  have i: "is_i32 (ws_tick_current pl)" "ws_tick_current pl < 2 ^ 31 - 1" using assms(2) by (auto simp: is_i32_def)
  have s: "?s < 2 ^ 16" "0 < ws_tick_spacing pl \<longleftrightarrow> 0 < ?s"
    using uint_lt2p [of "ws_tick_spacing pl"] by (simp_all add: word_less_def)
  obtain lo' hi' where "aligned_band ?s (ws_tick_current pl) lo hi = Some (lo', hi')"
    "lo' \<le> ws_tick_current pl" "ws_tick_current pl < hi'"
    "0 < ?s \<and> ?s < 2 ^ 16 \<and> \<bar>ws_tick_current pl\<bar> \<le> 2 ^ 30 \<and> \<bar>lo\<bar> \<le> 2 ^ 30 \<and> \<bar>hi\<bar> \<le> 2 ^ 30
         \<longrightarrow> ?s dvd lo' \<and> ?s dvd hi' \<and> lo' \<le> lo \<and> hi \<le> hi'"
    using aligned_band_spec [OF i assms(3,4)] by blast
  then show ?thesis using assms(1,2) s by (auto simp: good_band_def on_grid_def is_tick_in_range_def)
qed

lemma price_to_tick_i32: "is_i32 (price_to_tick ops fl p)"
proof -
  have "is_i32 (f64_as_i32 x)" for x by (cases x) (auto simp: f64_as_i32_def is_i32_def)
  then show ?thesis by (simp add: price_to_tick_def Let_def)
qed

text \<open>The price of a sample is no larger than \<^verbatim>\<open>Decimal::MAX\<close> and, when it is positive, the rounded quotient of its
  logarithm is far inside \<^verbatim>\<open>i32\<close>: a positive decimal is between \<open>10 ^ - 28\<close> and \<open>2 ^ 96\<close>,
  so that its tick is below a million.\<close>

definition usual_price :: "'d decimal_arith \<Rightarrow> float_fns \<Rightarrow> 'd \<Rightarrow> 'd \<Rightarrow> bool" where
  "usual_price ops fl decimal_max p \<longleftrightarrow>
     \<not> dec_gt ops p decimal_max \<and> (dec_gt ops p (dec_zero ops) \<longrightarrow> \<bar>price_to_tick ops fl p\<bar> \<le> 2 ^ 30)"

text \<open>The low and the high of a candle are prices of its samples.\<close>

lemma candle_low_high_cases:
  assumes "candle_low_high ops decimal_max es = (low, high)"
  shows "(low = decimal_max \<or> low \<in> price_ab ` set es) \<and> (high = dec_zero ops \<or> high \<in> price_ab ` set es)"
proof -
  have "(l' = l \<or> l' \<in> price_ab ` set es) \<and> (h' = h \<or> h' \<in> price_ab ` set es)"
    if "fold (\<lambda>s (low, high). (dec_min ops low (price_ab s), dec_max ops high (price_ab s))) es (l, h) = (l', h')" for l h l' h'
    using that
  proof (induction es arbitrary: l h)
    case (Cons e es)
    from Cons.IH [of "dec_min ops l (price_ab e)" "dec_max ops h (price_ab e)"] Cons.prems show ?case
      by (auto simp: dec_min_def dec_max_def split: if_splits)
  qed simp
  with assms show ?thesis by (simp add: candle_low_high_def)
qed

lemma candle_ticks_bounded:
  assumes "candle_low_high ops decimal_max es = (low, high)" and "transp (dec_gt ops)" and "asymp (dec_gt ops)"
    and "\<forall>s \<in> set es. usual_price ops fl decimal_max (price_ab s)"
    and "dec_gt ops low (dec_zero ops)" and "dec_gt ops high low"
  shows "\<bar>price_to_tick ops fl low\<bar> \<le> 2 ^ 30 \<and> \<bar>price_to_tick ops fl high\<bar> \<le> 2 ^ 30"
proof -
  have "high \<noteq> dec_zero ops" using assms(3,5,6) by (auto dest: asympD)
  then have high: "high \<in> price_ab ` set es" using candle_low_high_cases [OF assms(1)] by simp
  then have "low \<noteq> decimal_max" using assms(4,6) by (auto simp: usual_price_def)
  then have low: "low \<in> price_ab ` set es" using candle_low_high_cases [OF assms(1)] by simp
  have "dec_gt ops high (dec_zero ops)" using assms(2,5,6) by (auto dest: transpD)
  with high low assms(4,5) show ?thesis by (auto simp: usual_price_def)
qed

lemma wrap_i64_nonzero: "c \<noteq> 0 \<Longrightarrow> wrap_i64 (uint (c :: u64)) \<noteq> 0"
proof
  assume c: "c \<noteq> 0" and z: "wrap_i64 (uint c) = 0"
  have r: "0 < uint c" "uint c < 2 ^ 64" using uint_lt2p [of c] c uint_nonnegative [of c] by (auto simp: order_less_le uint_0_iff)
  show False
  proof (cases "uint c < 2 ^ 63")
    case True
    with r have "(uint c + 2 ^ 63) mod 2 ^ 64 = uint c + 2 ^ 63" by (intro mod_pos_pos_trivial) simp_all
    with z r show False by (simp add: wrap_i64_def)
  next
    case False
    with r have m: "(uint c - 2 ^ 63) mod 2 ^ 64 = uint c - 2 ^ 63" by (intro mod_pos_pos_trivial) simp_all
    have "uint c + 2 ^ 63 = (uint c - 2 ^ 63) + 2 ^ 64" by simp
    with z r show False unfolding wrap_i64_def by (simp only: mod_add_self2 m)
  qed
qed

lemma pushed_samples:
  "s \<in> set (samples_of (push_sample now k price pos samples) pos) \<Longrightarrow>
     s \<in> set (samples_of samples pos) \<or> price_ab s = price"
proof -
  let ?xs = "samples_of samples pos @ [\<lparr>ts_unix = now, price_ab = price\<rparr>]"
  obtain ys where "?xs = ys @ trim_samples k ?xs" using trim_samples_suffix by blast
  then have "set (trim_samples k ?xs) \<subseteq> set ?xs" by (metis set_append sup_ge2)
  then show "s \<in> set (samples_of (push_sample now k price pos samples) pos) \<Longrightarrow> ?thesis"
    by (auto simp: samples_of_push)
qed

lemma bollinger_good_band:
  assumes "\<bar>ws_tick_current pl\<bar> \<le> 2 ^ 30"
  shows "\<exists>r. record_price_and_compute_bollinger_ticks ops fl dc now pos pl window_points k samples = Some r
    \<and> good_band pl pos samples r"
proof -
  have "good_band pl pos samples (None, samples)" by (simp add: good_band_def)
  with good_band_push [OF good_push assms price_to_tick_i32 price_to_tick_i32] show ?thesis
    by (fastforce simp: record_price_and_compute_bollinger_ticks_def Let_def good_push split: option.splits prod.splits)
qed

lemma candle_good_band:
  assumes t: "\<bar>ws_tick_current pl\<bar> \<le> 2 ^ 30"
  shows "\<exists>r. record_price_and_compute_last_closed_candle_ticks ops fl decimal_max now pos pl candle_seconds samples = Some r
    \<and> good_band pl pos samples r
    \<and> (0 < ws_tick_spacing pl \<and> transp (dec_gt ops) \<and> asymp (dec_gt ops) \<and> usual_price ops fl decimal_max (ws_price pl)
         \<and> (\<forall>s \<in> set (samples_of samples pos). usual_price ops fl decimal_max (price_ab s)) \<longrightarrow> on_grid pl (fst r))"
proof -
  let ?cs = "wrap_i64 (uint (max candle_seconds 60))"
  have "max candle_seconds 60 \<noteq> 0" by (auto simp: max_def word_le_nat_alt)
  then have "?cs \<noteq> 0" by (rule wrap_i64_nonzero)
  then obtain b where b: "rust_div now ?cs = Some b" by (simp add: rust_div_def)
  define samples' where "samples' = push_sample now (saturate_i64 (now - saturate_i64 (?cs * 4))) (ws_price pl) pos samples"
  define es where "es = candle_samples ?cs (saturate_i64 (b - 1)) (samples_of samples' pos)"
  obtain low high where lh: "candle_low_high ops decimal_max es = (low, high)" by fastforce
  have sub: "usual_price ops fl decimal_max (price_ab s)"
    if "s \<in> set es" "usual_price ops fl decimal_max (ws_price pl)"
      "\<forall>s \<in> set (samples_of samples pos). usual_price ops fl decimal_max (price_ab s)" for s
    using that pushed_samples [of s now _ "ws_price pl" pos samples] by (auto simp: es_def candle_samples_def samples'_def)
  have g: "good_band pl pos samples (None, samples')" unfolding samples'_def by (rule good_push)
  show ?thesis
  proof (cases "es = [] \<or> \<not> dec_gt ops low (dec_zero ops) \<or> \<not> dec_gt ops high low")
    case True
    with lh g show ?thesis
      unfolding record_price_and_compute_last_closed_candle_ticks_def Let_def b samples'_def [symmetric]
      by (auto simp: es_def [symmetric] on_grid_def)
  next
    case False
    then have "record_price_and_compute_last_closed_candle_ticks ops fl decimal_max now pos pl candle_seconds samples =
        map_option (\<lambda>band. (Some band, samples'))
          (aligned_band (uint (ws_tick_spacing pl)) (ws_tick_current pl) (price_to_tick ops fl low) (price_to_tick ops fl high))"
      unfolding record_price_and_compute_last_closed_candle_ticks_def Let_def b samples'_def [symmetric]
      by (simp add: es_def [symmetric] lh)
    with good_band_push [OF g t price_to_tick_i32 price_to_tick_i32, of ops fl low ops fl high]
      candle_ticks_bounded [OF lh _ _ _ , of fl] False sub show ?thesis by auto
  qed
qed

text \<open>C33. Both band computations return for every pool whose tick is one of the protocol's, whatever
  samples were recorded before and whatever the floating-point functions give. They change the samples of the evaluated position only, and keep
  them bounded. A band they return contains the current tick, so that a position opened on it is in
  range. Both ends of a candle band are multiples of the pool's tick spacing when the recorded
  prices are usual ones.\<close>

theorem bands_contain_tick:
  assumes "\<bar>ws_tick_current pl\<bar> \<le> 443636"
  shows "(\<exists>r. record_price_and_compute_last_closed_candle_ticks ops fl decimal_max now pos pl candle_seconds samples = Some r
           \<and> good_band pl pos samples r
           \<and> (0 < ws_tick_spacing pl \<and> transp (dec_gt ops) \<and> asymp (dec_gt ops) \<and> usual_price ops fl decimal_max (ws_price pl)
                \<and> (\<forall>s \<in> set (samples_of samples pos). usual_price ops fl decimal_max (price_ab s))
                \<longrightarrow> on_grid pl (fst r)))
       \<and> (\<exists>r. record_price_and_compute_bollinger_ticks ops fl dc now pos pl window_points k samples = Some r
           \<and> good_band pl pos samples r)"
  using bollinger_good_band [of pl] candle_good_band [of pl] assms by simp

text \<open>Logarithms that are right at 0, 1, 2 and 1.0001.\<close>

definition log_fns :: float_fns where
  "log_fns = approx_fns\<lparr>f64_ln := (\<lambda>x. case x of
       F64_Fin s m \<Rightarrow> if m = 0 then F64_Inf True
                     else if m = 1 then F64_Fin False 0
                     else if m = 2 then F64_Fin False (6931 * 13421 / 2 ^ 27)
                     else F64_Fin False (13421 / 2 ^ 27)
     | _ \<Rightarrow> F64_NaN)\<rparr>"

lemma log_fns_ticks: "price_to_tick rat_ops log_fns 1 = 0" "price_to_tick rat_ops log_fns 2 = 6931"
  "price_to_tick rat_ops log_fns 0 = - (2 ^ 31)"
proof -
  have base: "f64_ln log_fns (f64_lit (10001 / 10000)) = F64_Fin False (13421 / 2 ^ 27)"
    unfolding f64_lit_def f64_of_rat_def
    by simp (subst f64_round_eq [where k = 0 and n = 4504049987333233], simp_all add: pow2_def log_fns_def)
  have exact: "f64_of_rat False 1 = F64_Fin False 1" "f64_of_rat False 2 = F64_Fin False 2" "f64_of_rat False 0 = F64_Fin False 0"
    "f64_round False 6931 = F64_Fin False 6931" "f64_round False 0 = F64_Fin False 0"
    using f64_round_exact [of 1] f64_round_exact [of 2] f64_round_exact [of 6931] by (simp_all add: f64_of_rat_def f64_round_def)
  have ln: "f64_ln log_fns (F64_Fin s 0) = F64_Inf True" "f64_ln log_fns (F64_Fin s 1) = F64_Fin False 0"
    "f64_ln log_fns (F64_Fin s 2) = F64_Fin False (6931 * 13421 / 2 ^ 27)" for s
    by (simp_all add: log_fns_def)
  show "price_to_tick rat_ops log_fns 1 = 0" "price_to_tick rat_ops log_fns 2 = 6931" "price_to_tick rat_ops log_fns 0 = - (2 ^ 31)"
    by (simp_all add: price_to_tick_def rat_ops_def exact ln base f64_as_i32_def floor_eq_iff)
qed

text \<open>Two samples of the last closed hour, on a pool at tick 1 with the spacing 4.\<close>

theorem bands_contain_tick_witness:
  "\<exists>lo hi samples'. record_price_and_compute_last_closed_candle_ticks rat_ops log_fns (2 ^ 96 - 1) 7200 [1]
       (sample_pool\<lparr>ws_tick_current := 1\<rparr>) 3600 [([1], [\<lparr>ts_unix = 3600, price_ab = 1\<rparr>, \<lparr>ts_unix = 4000, price_ab = 2\<rparr>])]
       = Some (Some (lo, hi), samples')
     \<and> is_tick_in_range lo hi (sample_pool\<lparr>ws_tick_current := 1\<rparr>) \<and> 4 dvd lo \<and> 4 dvd hi"
proof -
  let ?pl = "sample_pool\<lparr>ws_tick_current := 1\<rparr>"
  let ?es = "[\<lparr>ts_unix = 3600, price_ab = 1\<rparr>, \<lparr>ts_unix = 4000, price_ab = 2\<rparr>] :: rat price_sample list"
  let ?samples = "[([1], ?es)] :: rat sample_table"
  let ?f = "record_price_and_compute_last_closed_candle_ticks rat_ops log_fns (2 ^ 96 - 1) 7200 [1] ?pl 3600 ?samples"
  have gt: "dec_gt rat_ops a b \<longleftrightarrow> b < a" "dec_zero rat_ops = 0" for a b by (simp_all add: rat_ops_def dec_zero_def)
  have order: "transp (dec_gt rat_ops)" "asymp (dec_gt rat_ops)" by (auto simp: transp_def asymp_on_def gt)
  have usual: "usual_price rat_ops log_fns (2 ^ 96 - 1) (ws_price ?pl)"
    "\<forall>s \<in> set (samples_of ?samples [1]). usual_price rat_ops log_fns (2 ^ 96 - 1) (price_ab s)"
    by (auto simp: usual_price_def gt log_fns_ticks samples_of_def sample_pool_def)
  have tick: "\<bar>ws_tick_current ?pl\<bar> \<le> 443636" and sp: "0 < ws_tick_spacing ?pl" "uint (ws_tick_spacing ?pl) = 4"
    by (simp_all add: sample_pool_def)
  obtain r where r: "?f = Some r" "good_band ?pl [1] ?samples r" "on_grid ?pl (fst r)"
    using conjunct1 [OF bands_contain_tick [OF tick, of rat_ops log_fns "2 ^ 96 - 1" 7200 "[1]" 3600 ?samples]] order usual sp(1)
    by blast
  have cs: "wrap_i64 (uint (max 3600 60 :: u64)) = 3600" by (simp add: max_def wrap_i64_def)
  have push: "samples_of (push_sample 7200 (- 7200) 1 [1] ?samples) [1] = ?es @ [\<lparr>ts_unix = 7200, price_ab = 1\<rparr>]"
    unfolding samples_of_push by (simp add: samples_of_def)
  have candle: "candle_samples 3600 1 (?es @ [\<lparr>ts_unix = 7200, price_ab = 1\<rparr>]) = ?es"
    by (simp add: candle_samples_def rust_div_def)
  have "candle_low_high rat_ops (2 ^ 96 - 1) ?es = (1, 2)"
    by (simp add: candle_low_high_def dec_min_def dec_max_def gt)
  moreover have "rust_div 7200 3600 = Some 2" "ws_price ?pl = 1" by (simp_all add: rust_div_def sample_pool_def)
  ultimately have "fst r \<noteq> None"
    using r(1) unfolding record_price_and_compute_last_closed_candle_ticks_def Let_def cs
    by (simp only: bind.simps) (auto simp: saturate_i64_def push candle [simplified] gt)
  then obtain lo hi where "fst r = Some (lo, hi)" by auto
  with r sp(2) show ?thesis by (cases r) (auto simp: good_band_def on_grid_def)
qed

end
