(* ===== verification/Fee_Checkpoints.thy ===== *)
theory Fee_Checkpoints
  imports Lifecycle Position_Monitor Tick_Array
begin

text \<open>
  Checkpoints of the fees of a position: \<^verbatim>\<open>domain/src/position_fee_checkpoint.rs\<close>, the row written by
  \<^verbatim>\<open>record_fee_checkpoint\<close> of the lifecycle tracker and \<^verbatim>\<open>capture_position_fee_checkpoint\<close> of the
  strategy executor, which refreshes the monitored position, reads the pool and the two boundary
  ticks and computes the fee growth inside the range.
\<close>

datatype position_truth_mode = Heuristic | PositionTruth

datatype checkpoint_source = Onchain | Derived | Missing

record position_fee_checkpoint =
  cp_ts_utc :: string
  cp_position :: string
  cp_pool :: string
  cp_event_type :: string
  cp_tick_lower :: int
  cp_tick_upper :: int
  cp_tick_current :: "int option"
  cp_liquidity :: string
  cp_fees_owed_a :: u64
  cp_fees_owed_b :: u64
  fee_growth_checkpoint_a :: "string option"
  fee_growth_checkpoint_b :: "string option"
  cp_fee_growth_global_a :: "string option"
  cp_fee_growth_global_b :: "string option"
  fee_growth_outside_lower_a :: "string option"
  fee_growth_outside_lower_b :: "string option"
  fee_growth_outside_upper_a :: "string option"
  fee_growth_outside_upper_b :: "string option"
  cp_fee_growth_inside_a :: "string option"
  cp_fee_growth_inside_b :: "string option"
  sqrt_price_x64 :: "string option"
  collected_a :: u64
  collected_b :: u64
  cp_source :: checkpoint_source

fun source_text :: "checkpoint_source \<Rightarrow> string" where
  "source_text Onchain = ''onchain''"
| "source_text Derived = ''derived''"
| "source_text Missing = ''missing''"

definition checkpoint_row :: "position_fee_checkpoint \<Rightarrow> json" where
  "checkpoint_row cp = json_object [(''schema_version'', ju64 2), (''ts_utc'', JString (cp_ts_utc cp)),
     (''position'', JString (cp_position cp)), (''pool'', JString (cp_pool cp)), (''event_type'', JString (cp_event_type cp)),
     (''tick_lower'', ji32 (cp_tick_lower cp)), (''tick_upper'', ji32 (cp_tick_upper cp)),
     (''tick_current'', jopt ji32 (cp_tick_current cp)), (''liquidity'', JString (cp_liquidity cp)),
     (''fees_owed_a'', ju64 (cp_fees_owed_a cp)), (''fees_owed_b'', ju64 (cp_fees_owed_b cp)),
     (''fee_growth_checkpoint_a'', jopt JString (fee_growth_checkpoint_a cp)),
     (''fee_growth_checkpoint_b'', jopt JString (fee_growth_checkpoint_b cp)),
     (''fee_growth_global_a'', jopt JString (cp_fee_growth_global_a cp)),
     (''fee_growth_global_b'', jopt JString (cp_fee_growth_global_b cp)),
     (''fee_growth_outside_lower_a'', jopt JString (fee_growth_outside_lower_a cp)),
     (''fee_growth_outside_lower_b'', jopt JString (fee_growth_outside_lower_b cp)),
     (''fee_growth_outside_upper_a'', jopt JString (fee_growth_outside_upper_a cp)),
     (''fee_growth_outside_upper_b'', jopt JString (fee_growth_outside_upper_b cp)),
     (''fee_growth_inside_a'', jopt JString (cp_fee_growth_inside_a cp)),
     (''fee_growth_inside_b'', jopt JString (cp_fee_growth_inside_b cp)),
     (''sqrt_price_x64'', jopt JString (sqrt_price_x64 cp)), (''collected_a'', ju64 (collected_a cp)),
     (''collected_b'', ju64 (collected_b cp)), (''source'', JString (source_text (cp_source cp)))]"

definition record_fee_checkpoint ::
    "'d lifecycle_ctx \<Rightarrow> position_fee_checkpoint \<Rightarrow> 'd lifecycle_tracker \<Rightarrow> 'd lifecycle_tracker" where
  "record_fee_checkpoint ctx cp t = append_position_fee_ledger_jsonl ctx (checkpoint_row cp) t"

text \<open>\<^verbatim>\<open>Result::ok\<close>, and \<^verbatim>\<open>to_string\<close> of an unsigned number.\<close>

definition result_ok :: "'e + 'a \<Rightarrow> 'a option" where
  "result_ok r = (case r of Inl e \<Rightarrow> None | Inr a \<Rightarrow> Some a)"

definition show_word :: "'a::len word \<Rightarrow> string" where
  "show_word x = show_nat (unat x)"

text \<open>The growth inside the range of one token, known when both boundaries are.\<close>

definition growth_inside :: "u128 \<Rightarrow> u128 option \<Rightarrow> u128 option \<Rightarrow> int \<Rightarrow> int \<Rightarrow> int \<Rightarrow> u128 option" where
  "growth_inside global lower upper tick_now tick_lo tick_hi =
     (case (lower, upper) of
        (Some lo, Some up) \<Rightarrow> Some (compute_fee_growth_inside_single global lo up tick_now tick_lo tick_hi)
      | _ \<Rightarrow> None)"

definition onchain_checkpoint ::
    "(pubkey \<Rightarrow> string) \<Rightarrow> string \<Rightarrow> pubkey \<Rightarrow> string \<Rightarrow> checkpoint_source \<Rightarrow> 'd monitored_position \<Rightarrow> 'd whirlpool_state
      \<Rightarrow> tick_boundary_state option \<Rightarrow> tick_boundary_state option \<Rightarrow> position_fee_checkpoint" where
  "onchain_checkpoint show_key ts pos event src mp pl lower upper =
     (let oc = on_chain mp;
          lower_a = map_option tb_fee_growth_outside_a lower; lower_b = map_option tb_fee_growth_outside_b lower;
          upper_a = map_option tb_fee_growth_outside_a upper; upper_b = map_option tb_fee_growth_outside_b upper;
          inside_a = growth_inside (ws_fee_growth_global_a pl) lower_a upper_a (ws_tick_current pl) (oc_tick_lower oc) (oc_tick_upper oc);
          inside_b = growth_inside (ws_fee_growth_global_b pl) lower_b upper_b (ws_tick_current pl) (oc_tick_lower oc) (oc_tick_upper oc)
      in \<lparr>cp_ts_utc = ts, cp_position = show_key pos, cp_pool = show_key (mp_pool mp), cp_event_type = event,
          cp_tick_lower = oc_tick_lower oc, cp_tick_upper = oc_tick_upper oc, cp_tick_current = Some (ws_tick_current pl),
          cp_liquidity = show_word (oc_liquidity oc), cp_fees_owed_a = oc_fees_owed_a oc, cp_fees_owed_b = oc_fees_owed_b oc,
          fee_growth_checkpoint_a = Some (show_word (oc_fee_growth_inside_a oc)),
          fee_growth_checkpoint_b = Some (show_word (oc_fee_growth_inside_b oc)),
          cp_fee_growth_global_a = Some (show_word (ws_fee_growth_global_a pl)),
          cp_fee_growth_global_b = Some (show_word (ws_fee_growth_global_b pl)),
          fee_growth_outside_lower_a = map_option show_word lower_a, fee_growth_outside_lower_b = map_option show_word lower_b,
          fee_growth_outside_upper_a = map_option show_word upper_a, fee_growth_outside_upper_b = map_option show_word upper_b,
          cp_fee_growth_inside_a = map_option show_word inside_a, cp_fee_growth_inside_b = map_option show_word inside_b,
          sqrt_price_x64 = Some (show_word (ws_sqrt_price pl)), collected_a = 0, collected_b = 0, cp_source = src\<rparr>)"

text \<open>The environment of the checkpoints: the tick arrays of the chain and the format of times, besides
  what the monitor needs.\<close>

record ('d, 'w) checkpoint_env = "('d, 'w) monitor_env" +
  ce_ticks :: "'w \<Rightarrow> tick_env"
  ce_rfc3339 :: "datetime \<Rightarrow> string"

definition capture_position_fee_checkpoint ::
    "'d decimal_arith \<Rightarrow> float_fns \<Rightarrow> 'd decimal_conv \<Rightarrow> 'u u256_ops \<Rightarrow> ('d, 'w, 'z) checkpoint_env_scheme \<Rightarrow> pubkey
      \<Rightarrow> string \<Rightarrow> checkpoint_source \<Rightarrow> 'd position_monitor \<Rightarrow> 'w
      \<Rightarrow> (position_fee_checkpoint option \<times> 'd position_monitor \<times> 'w) option" where
  "capture_position_fee_checkpoint ops fl dc u env pos event src m w =
     (case refresh_position ops fl dc u env pos m w of
        None \<Rightarrow> None
      | Some (Inl e, m1, w1) \<Rightarrow> Some (None, m1, w1)
      | Some (Inr _, m1, w1) \<Rightarrow>
          (case get_monitored pos m1 of
             None \<Rightarrow> Some (None, m1, w1)
           | Some mp \<Rightarrow>
               (case read_pool ops env (mp_pool mp) w1 of
                  (Inl e, w2) \<Rightarrow> Some (None, m1, w2)
                | (Inr pl, w2) \<Rightarrow> do {
                    lower \<leftarrow> get_tick_boundary_state (ce_ticks env w2) (mp_pool mp) (oc_tick_lower (on_chain mp)) (ws_tick_spacing pl);
                    upper \<leftarrow> get_tick_boundary_state (ce_ticks env w2) (mp_pool mp) (oc_tick_upper (on_chain mp)) (ws_tick_spacing pl);
                    (let (now, w3) = me_clock env w2 in
                     Some (Some (onchain_checkpoint (me_to_string env) (ce_rfc3339 env now) pos event src mp pl
                                   (result_ok lower) (result_ok upper)), m1, w3))
                  })))"

text \<open>A checkpoint changes neither the events nor the summaries.\<close>

lemma record_fee_checkpoint_keeps [simp]:
  "lt_events (record_fee_checkpoint ctx cp t) = lt_events t" "lt_summaries (record_fee_checkpoint ctx cp t) = lt_summaries t"
  by (simp_all add: record_fee_checkpoint_def append_position_fee_ledger_jsonl_def append_row_def split: option.splits)

end
