(* ===== verification/Strategy_Executor.thy ===== *)
theory Strategy_Executor
  imports Fee_Checkpoints Price_Bands Pending_Open Circuit_Breaker
begin

text \<open>
  \<^verbatim>\<open>crates/execution/src/strategy/executor.rs\<close>: the loop that evaluates every monitored position, asks
  the decision engine and carries the decision out. The executor owns the monitor, the decision
  configuration, the circuit breaker and the lifecycle tracker; reads of the chain, clocks, files,
  notifiers, hooks and the on-chain part of the rebalance executor
  (\<^verbatim>\<open>crates/execution/src/strategy/rebalance.rs\<close>) are fields of an environment over a world. The dry-run
  guards of the rebalance executor are modelled. \<open>None\<close> is a panic. Hash sets are lists without
  duplicates, in an order the environment chooses after an insertion.
\<close>

section \<open>State\<close>

record position_eval_snapshot =
  es_ts_utc :: string
  es_in_range :: bool
  es_pool_tick_current :: int
  es_decision :: string
  es_requires_transaction :: bool
  es_auto_execute :: bool
  es_hours_since_rebalance :: "u64 option"
  es_minutes_since_rebalance :: "u64 option"

record 'd executor_config =
  eval_interval_secs :: u64
  auto_execute :: bool
  require_confirmation :: bool
  max_slippage_pct :: 'd
  dry_run :: bool
  fee_mode :: position_truth_mode

definition default_executor_config :: "('d, 'a) decimal_ops_scheme \<Rightarrow> 'd executor_config" where
  "default_executor_config ops = \<lparr>eval_interval_secs = 300, auto_execute = False, require_confirmation = True,
     max_slippage_pct = dec_new ops 5 3, dry_run = False, fee_mode = Heuristic\<rparr>"

record 'd strategy_executor =
  ex_monitor :: "'d position_monitor"
  ex_decision :: "'d decision_config"
  ex_breaker :: "'d circuit_breaker"
  ex_lifecycle :: "'d lifecycle_tracker"
  ex_config :: "'d executor_config"
  ex_running :: bool
  ex_retouch_armed :: "(pubkey \<times> bool) list"
  ex_optimization_run_id :: "string option"
  ex_skip_evaluation_for :: "pubkey list"
  ex_last_eval :: "(pubkey \<times> position_eval_snapshot) list"
  ex_price_samples :: "'d sample_table"
  ex_pending_path :: "string option"
  managed_allowlist :: "pubkey list option"
  managed_target_count :: "nat option"

text \<open>\<^verbatim>\<open>StrategyExecutor::new\<close>: the path of the pending openings comes from the process environment.\<close>

definition new_executor ::
    "'d decimal_arith \<Rightarrow> (string \<rightharpoonup> string) \<Rightarrow> 'd position_monitor \<Rightarrow> 'd executor_config \<Rightarrow> 'd strategy_executor" where
  "new_executor ops vars m cfg =
     \<lparr>ex_monitor = m, ex_decision = default_decision_config ops,
      ex_breaker = new_breaker (default_cb_config (decimal_ops.truncate ops)),
      ex_lifecycle = new_tracker, ex_config = cfg, ex_running = False, ex_retouch_armed = [], ex_optimization_run_id = None,
      ex_skip_evaluation_for = [], ex_last_eval = [], ex_price_samples = [],
      ex_pending_path = (case vars ''CLMM_PENDING_OPEN_RECOVERY_PATH'' of
          Some s \<Rightarrow> if trim s \<noteq> [] then Some (trim s) else Some ''data/pending-open-recovery.json''
        | None \<Rightarrow> Some ''data/pending-open-recovery.json''),
      managed_allowlist = None, managed_target_count = None\<rparr>"

definition managed_allowlist_state_from_positions :: "pubkey list \<Rightarrow> pubkey list option \<times> nat option" where
  "managed_allowlist_state_from_positions ps =
     (let s = fold List.insert ps [] in (Some s, Some (length s)))"

definition set_managed_allowlist :: "pubkey list \<Rightarrow> 'd strategy_executor \<Rightarrow> 'd strategy_executor" where
  "set_managed_allowlist ps x =
     (let (allow, target) = managed_allowlist_state_from_positions ps
      in x\<lparr>managed_target_count := target, managed_allowlist := allow\<rparr>)"

definition set_skip_evaluation_for_addresses ::
    "(string \<Rightarrow> pubkey option) \<Rightarrow> string list \<Rightarrow> 'd strategy_executor \<Rightarrow> 'd strategy_executor" where
  "set_skip_evaluation_for_addresses from_str addresses x =
     x\<lparr>ex_skip_evaluation_for := fold List.insert (List.map_filter (\<lambda>s. from_str (trim s)) addresses) []\<rparr>"

definition set_pending_open_recovery_path :: "string option \<Rightarrow> 'd strategy_executor \<Rightarrow> 'd strategy_executor" where
  "set_pending_open_recovery_path path x = x\<lparr>ex_pending_path := path\<rparr>"

definition set_decision_config :: "'d decision_config \<Rightarrow> 'd strategy_executor \<Rightarrow> 'd strategy_executor" where
  "set_decision_config cfg x = x\<lparr>ex_decision := cfg\<rparr>"

definition set_optimization_run_id :: "string option \<Rightarrow> 'd strategy_executor \<Rightarrow> 'd strategy_executor" where
  "set_optimization_run_id run x = x\<lparr>ex_optimization_run_id := run\<rparr>"

definition set_dry_run :: "bool \<Rightarrow> 'd strategy_executor \<Rightarrow> 'd strategy_executor" where
  "set_dry_run b x = x\<lparr>ex_config := (ex_config x)\<lparr>dry_run := b\<rparr>\<rparr>"

definition last_evaluation_for_position :: "pubkey \<Rightarrow> 'd strategy_executor \<Rightarrow> position_eval_snapshot option" where
  "last_evaluation_for_position a x = map_of (ex_last_eval x) a"

section \<open>The rebalance executor\<close>

record 'd rebalance_params =
  rb_position :: pubkey
  rb_pool :: pubkey
  rb_current_tick_lower :: int
  rb_current_tick_upper :: int
  rb_new_tick_lower :: int
  rb_new_tick_upper :: int
  rb_current_liquidity :: u128
  rb_pool_tick_current :: int
  rb_pool_sqrt_price :: u128
  rb_reason :: rebalance_reason
  rb_current_il_pct :: 'd
  rb_amount_a_before :: "u64 option"
  rb_amount_b_before :: "u64 option"
  rb_price_ab_before :: "'d option"
  rb_amount_a_after :: "u64 option"
  rb_amount_b_after :: "u64 option"
  rb_price_ab_after :: "'d option"
  rb_optimization_run_id :: "string option"

record rebalance_result =
  rs_success :: bool
  rs_old_position_closed_on_chain :: bool
  rs_old_position :: pubkey
  rs_new_position :: "pubkey option"
  rs_fees_collected :: "(u64 \<times> u64) option"
  rs_liquidity_removed :: u128
  rs_liquidity_added :: u128
  rs_tx_cost_lamports :: u64
  rs_error :: "string option"
  rs_session_id :: "string option"

text \<open>The environment. The operations \<open>live_\<close> are the parts of the rebalance executor that send
  transactions; those that record a rebalance in the tracker take and return it.\<close>

record ('d, 'w) executor_env = "('d, 'w) checkpoint_env" +
  xe_ctx :: "'w \<Rightarrow> 'd lifecycle_ctx \<times> 'w"
  xe_uuid :: "'w \<Rightarrow> string \<times> 'w"
  live_execute :: "'d rebalance_params \<Rightarrow> string \<Rightarrow> 'd lifecycle_tracker \<Rightarrow> 'w \<Rightarrow> rebalance_result \<times> 'd lifecycle_tracker \<times> 'w"
  live_recover :: "'d recover_open_params \<Rightarrow> 'd lifecycle_tracker \<Rightarrow> 'w \<Rightarrow> recover_result \<times> 'd lifecycle_tracker \<times> 'w"
  live_close :: "pubkey \<Rightarrow> pubkey \<Rightarrow> 'w \<Rightarrow> (string + unit) \<times> 'w"
  live_decrease :: "pubkey \<Rightarrow> pubkey \<Rightarrow> u128 \<Rightarrow> 'w \<Rightarrow> (string + unit) \<times> 'w"
  live_collect :: "pubkey \<Rightarrow> pubkey \<Rightarrow> 'w \<Rightarrow> (string + unit) \<times> 'w"
  xe_file :: "'w \<Rightarrow> 'd pending_file"
  xe_save :: "'d pending_open_store \<Rightarrow> 'w \<Rightarrow> (string + unit) \<times> 'w"
  xe_diagnostic :: "string \<Rightarrow> pubkey \<Rightarrow> pubkey \<Rightarrow> string option \<Rightarrow> json \<Rightarrow> 'w \<Rightarrow> 'w"
  xe_reopen_hook :: "(pubkey \<Rightarrow> pubkey \<Rightarrow> 'w \<Rightarrow> 'w) option"
  xe_notifiers :: "('d alert \<Rightarrow> 'w \<Rightarrow> (string + unit) \<times> 'w) list option"
  xe_set_order :: "pubkey list \<Rightarrow> pubkey list"
  xe_table_order :: "'d position_table \<Rightarrow> 'd position_table"
  xe_decimal_max :: 'd
  xe_vars :: "string \<rightharpoonup> string"
  xe_claims :: "string set"
  xe_has_wallet :: bool
  xe_json :: "string \<Rightarrow> json option"
  xe_lifecycle_file :: "'w \<Rightarrow> string list option"
  xe_parse_time :: "string \<Rightarrow> datetime option"
  xe_key_error :: "string \<Rightarrow> string"
  xe_error_text :: "monitor_error \<Rightarrow> string"
  xe_instant :: "'w \<Rightarrow> instant \<times> 'w"

text \<open>\<^verbatim>\<open>RebalanceExecutor::execute\<close>: a dry run reports success without a new position.\<close>

definition dry_result :: "'d rebalance_params \<Rightarrow> string \<Rightarrow> rebalance_result" where
  "dry_result p sid = \<lparr>rs_success = True, rs_old_position_closed_on_chain = False, rs_old_position = rb_position p,
     rs_new_position = None, rs_fees_collected = None, rs_liquidity_removed = rb_current_liquidity p,
     rs_liquidity_added = rb_current_liquidity p, rs_tx_cost_lamports = 0, rs_error = None, rs_session_id = Some sid\<rparr>"

definition rebalance_execute ::
    "('d, 'w, 'z) executor_env_scheme \<Rightarrow> bool \<Rightarrow> 'd rebalance_params \<Rightarrow> 'd lifecycle_tracker \<Rightarrow> 'w
      \<Rightarrow> rebalance_result \<times> 'd lifecycle_tracker \<times> 'w" where
  "rebalance_execute env dry p t w =
     (let (sid, w) = xe_uuid env w in if dry then (dry_result p sid, t, w) else live_execute env p sid t w)"

definition recover_open_after_incomplete ::
    "('d, 'w, 'z) executor_env_scheme \<Rightarrow> bool \<Rightarrow> 'd recover_open_params \<Rightarrow> 'd lifecycle_tracker \<Rightarrow> 'w
      \<Rightarrow> recover_result \<times> 'd lifecycle_tracker \<times> 'w" where
  "recover_open_after_incomplete env dry p t w =
     (if dry then (\<lparr>rr_success = False, rr_new_position = None, rr_error = Some ''dry run: recover_open skipped''\<rparr>, t, w)
      else live_recover env p t w)"

definition execute_full_close_only ::
    "('d, 'w, 'z) executor_env_scheme \<Rightarrow> bool \<Rightarrow> pubkey \<Rightarrow> pubkey \<Rightarrow> 'w \<Rightarrow> (string + unit) \<times> 'w" where
  "execute_full_close_only env dry a p w = (if dry then (Inr (), w) else live_close env a p w)"

definition execute_partial_decrease ::
    "('d, 'w, 'z) executor_env_scheme \<Rightarrow> bool \<Rightarrow> pubkey \<Rightarrow> pubkey \<Rightarrow> u128 \<Rightarrow> 'w \<Rightarrow> (string + unit) \<times> 'w" where
  "execute_partial_decrease env dry a p amount w =
     (if amount = 0 then (Inl ''liquidity_amount must be > 0'', w)
      else if dry then (Inr (), w) else live_decrease env a p amount w)"

definition execute_collect_fees_only ::
    "('d, 'w, 'z) executor_env_scheme \<Rightarrow> bool \<Rightarrow> pubkey \<Rightarrow> pubkey \<Rightarrow> 'w \<Rightarrow> (string + unit) \<times> 'w" where
  "execute_collect_fees_only env dry a p w = (if dry then (Inr (), w) else live_collect env a p w)"

section \<open>The managed set\<close>

text \<open>The loop that removes members other than the new position while the set is too large.\<close>

function trim_allowlist :: "nat \<Rightarrow> pubkey \<Rightarrow> pubkey list \<Rightarrow> pubkey list" where
  "trim_allowlist target np allow =
     (if target < length allow
      then (case find (\<lambda>p. p \<noteq> np) allow of
              Some extra \<Rightarrow> trim_allowlist target np (remove1 extra allow)
            | None \<Rightarrow> allow)
      else allow)"
  by pat_completeness auto
termination
  by (relation "measure (\<lambda>(target, np, allow). length allow)") (auto simp: find_Some_iff length_remove1)

declare trim_allowlist.simps [simp del]

definition replace_managed :: "(pubkey list \<Rightarrow> pubkey list) \<Rightarrow> pubkey \<Rightarrow> pubkey \<Rightarrow> 'd strategy_executor \<Rightarrow> 'd strategy_executor" where
  "replace_managed order old np x =
     (case managed_allowlist x of
        None \<Rightarrow> x
      | Some allow \<Rightarrow>
          (let allow = order (List.insert np (removeAll old allow))
           in x\<lparr>managed_allowlist := Some (case managed_target_count x of
                Some target \<Rightarrow> trim_allowlist target np allow
              | None \<Rightarrow> allow)\<rparr>))"

section \<open>Alerts and checkpoints\<close>

definition emit_executor_alert :: "('d, 'w, 'z) executor_env_scheme \<Rightarrow> 'd alert \<Rightarrow> 'w \<Rightarrow> 'w" where
  "emit_executor_alert env a w = (case xe_notifiers env of None \<Rightarrow> w | Some ns \<Rightarrow> notify_all ns a w)"

definition put_checkpoint ::
    "('d, 'w, 'z) executor_env_scheme \<Rightarrow> position_fee_checkpoint \<Rightarrow> 'd strategy_executor \<Rightarrow> 'w \<Rightarrow> 'd strategy_executor \<times> 'w" where
  "put_checkpoint env cp x w =
     (let (ctx, w) = xe_ctx env w in (x\<lparr>ex_lifecycle := record_fee_checkpoint ctx cp (ex_lifecycle x)\<rparr>, w))"

text \<open>The checkpoint of the old position when it leaves and of the new one when it enters.\<close>

definition rebalance_out_checkpoint ::
    "(pubkey \<Rightarrow> string) \<Rightarrow> string \<Rightarrow> 'd monitored_position \<Rightarrow> 'd whirlpool_state \<Rightarrow> rebalance_result \<Rightarrow> position_fee_checkpoint" where
  "rebalance_out_checkpoint show_key ts mp pl res =
     (onchain_checkpoint show_key ts (mp_address mp) ''rebalance_out'' Onchain mp pl None None)
       \<lparr>collected_a := (case rs_fees_collected res of Some (a, b) \<Rightarrow> a | None \<Rightarrow> 0),
        collected_b := (case rs_fees_collected res of Some (a, b) \<Rightarrow> b | None \<Rightarrow> 0)\<rparr>"

definition rebalance_in_checkpoint ::
    "(pubkey \<Rightarrow> string) \<Rightarrow> string \<Rightarrow> pubkey \<Rightarrow> pubkey \<Rightarrow> int \<Rightarrow> int \<Rightarrow> 'd whirlpool_state \<Rightarrow> rebalance_result \<Rightarrow> position_fee_checkpoint" where
  "rebalance_in_checkpoint show_key ts np pool_key l u pl res =
     \<lparr>cp_ts_utc = ts, cp_position = show_key np, cp_pool = show_key pool_key, cp_event_type = ''rebalance_in'',
      cp_tick_lower = l, cp_tick_upper = u, cp_tick_current = Some (ws_tick_current pl),
      cp_liquidity = show_word (rs_liquidity_added res), cp_fees_owed_a = 0, cp_fees_owed_b = 0,
      fee_growth_checkpoint_a = None, fee_growth_checkpoint_b = None,
      cp_fee_growth_global_a = Some (show_word (ws_fee_growth_global_a pl)),
      cp_fee_growth_global_b = Some (show_word (ws_fee_growth_global_b pl)),
      fee_growth_outside_lower_a = None, fee_growth_outside_lower_b = None,
      fee_growth_outside_upper_a = None, fee_growth_outside_upper_b = None,
      cp_fee_growth_inside_a = None, cp_fee_growth_inside_b = None,
      sqrt_price_x64 = Some (show_word (ws_sqrt_price pl)), collected_a = 0, collected_b = 0, cp_source = Derived\<rparr>"

section \<open>Carrying out a decision\<close>

definition decision_description :: "('d \<Rightarrow> string) \<Rightarrow> 'd decision \<Rightarrow> string" where
  "decision_description show_dec d =
     (case d of
        Hold \<Rightarrow> ''Hold current position''
      | Rebalance l u \<Rightarrow> ''Rebalance to ticks ['' @ show_int l @ '', '' @ show_int u @ '']''
      | Close \<Rightarrow> ''Close position''
      | IncreaseLiquidity a \<Rightarrow> ''Increase liquidity by '' @ show_dec a
      | DecreaseLiquidity a \<Rightarrow> ''Decrease liquidity by '' @ show_dec a
      | CollectFees \<Rightarrow> ''Collect accumulated fees'')"

definition rebalance_reason_for :: "strategy_mode \<Rightarrow> bool \<Rightarrow> rebalance_reason" where
  "rebalance_reason_for mode inside =
     (case mode of
        RetouchShift \<Rightarrow> RrRetouchShift
      | Periodic \<Rightarrow> RrPeriodic
      | Bollinger \<Rightarrow> RrPeriodic
      | OorRecenter \<Rightarrow> RrRangeExit
      | LastCandle \<Rightarrow> RrRangeExit
      | LastCandlePeriodic \<Rightarrow> RrPeriodic
      | Threshold \<Rightarrow> if \<not> inside then RrRangeExit else RrOptimization
      | StaticRange \<Rightarrow> RrManual
      | IlLimit \<Rightarrow> if \<not> inside then RrRangeExit else RrILThreshold)"

definition clamp_decimal_liquidity_to_u128 :: "('d, 'a) decimal_ops_scheme \<Rightarrow> 'd decimal_conv \<Rightarrow> 'd \<Rightarrow> u128 \<Rightarrow> u128 option" where
  "clamp_decimal_liquidity_to_u128 ops dc amount max_liquidity =
     (let t = dc_trunc dc amount in
      if \<not> dec_gt ops t (dec_zero ops) then None
      else map_option (\<lambda>u. min u max_liquidity) (dc_to_u128 dc t))"

definition rebalance_params_for ::
    "'d strategy_executor \<Rightarrow> 'd monitored_position \<Rightarrow> 'd whirlpool_state \<Rightarrow> int \<Rightarrow> int \<Rightarrow> 'd rebalance_params" where
  "rebalance_params_for x mp pl l u =
     \<lparr>rb_position = mp_address mp, rb_pool = mp_pool mp, rb_current_tick_lower = oc_tick_lower (on_chain mp),
      rb_current_tick_upper = oc_tick_upper (on_chain mp), rb_new_tick_lower = l, rb_new_tick_upper = u,
      rb_current_liquidity = oc_liquidity (on_chain mp), rb_pool_tick_current = ws_tick_current pl,
      rb_pool_sqrt_price = ws_sqrt_price pl, rb_reason = rebalance_reason_for (strategy_mode (ex_decision x)) (in_range mp),
      rb_current_il_pct = il_pct (pnl mp), rb_amount_a_before = None, rb_amount_b_before = None,
      rb_price_ab_before = Some (ws_price pl), rb_amount_a_after = None, rb_amount_b_after = None, rb_price_ab_after = None,
      rb_optimization_run_id = ex_optimization_run_id x\<rparr>"

text \<open>The gate of \<^verbatim>\<open>RetouchShift\<close>: set to false when a rebalance is decided, forgotten once it is over.\<close>

definition retouch_put :: "pubkey \<Rightarrow> bool \<Rightarrow> 'd strategy_executor \<Rightarrow> 'd strategy_executor" where
  "retouch_put a b x =
     (if strategy_mode (ex_decision x) = RetouchShift
      then x\<lparr>ex_retouch_armed := AList.update a b (ex_retouch_armed x)\<rparr> else x)"

definition retouch_forget :: "pubkey \<Rightarrow> 'd strategy_executor \<Rightarrow> 'd strategy_executor" where
  "retouch_forget a x =
     (if strategy_mode (ex_decision x) = RetouchShift
      then x\<lparr>ex_retouch_armed := AList.delete a (ex_retouch_armed x)\<rparr> else x)"

definition unmonitor :: "pubkey \<Rightarrow> 'd strategy_executor \<Rightarrow> 'd strategy_executor" where
  "unmonitor a x = x\<lparr>ex_monitor := remove_position a (ex_monitor x)\<rparr>"

text \<open>The item queued when the old position was closed but the new one not opened.\<close>

definition incomplete_item ::
    "(pubkey \<Rightarrow> string) \<Rightarrow> 'd rebalance_params \<Rightarrow> 'd whirlpool_state \<Rightarrow> rebalance_result \<Rightarrow> string \<Rightarrow> string \<Rightarrow> string
      \<Rightarrow> 'd pending_open_item" where
  "incomplete_item show_key p pl res planned stuck created =
     \<lparr>po_pool = show_key (rb_pool p), intended_tick_lower = rb_new_tick_lower p, intended_tick_upper = rb_new_tick_upper p,
      closed_position_nft = show_key (rb_position p), po_session_id = rs_session_id res, planned_at_utc = Some planned,
      planned_price_ab = Some (ws_price pl), po_reason = rb_reason p, po_optimization_run_id = rb_optimization_run_id p,
      attempts = 0, last_error = rs_error res, last_attempt_at = None,
      stuck_reason = Some (classify_pending_open_stuck_reason (rs_error res)), stuck_since = Some stuck,
      last_alert_attempts = None, created_at = created\<rparr>"

definition save_details :: "(pubkey \<Rightarrow> string) \<Rightarrow> string \<Rightarrow> string option \<Rightarrow> 'd rebalance_params \<Rightarrow> json" where
  "save_details show_key path err p =
     json_object ([(''path'', JString path)] @ (case err of None \<Rightarrow> [] | Some e \<Rightarrow> [(''error'', JString e)])
       @ [(''closed_position_nft'', JString (show_key (rb_position p))), (''intended_tick_lower'', ji32 (rb_new_tick_lower p)),
          (''intended_tick_upper'', ji32 (rb_new_tick_upper p))])"

definition queue_pending_open ::
    "('d, 'w, 'z) executor_env_scheme \<Rightarrow> string \<Rightarrow> 'd rebalance_params \<Rightarrow> 'd whirlpool_state \<Rightarrow> rebalance_result \<Rightarrow> 'w \<Rightarrow> 'w" where
  "queue_pending_open env path p pl res w =
     (let store = load_or_default (xe_file env w);
          (planned, w) = me_clock env w; (stuck, w) = me_clock env w; (created, w) = me_clock env w;
          item = incomplete_item (me_to_string env) p pl res (ce_rfc3339 env planned) (ce_rfc3339 env stuck) (ce_rfc3339 env created)
      in case xe_save env (upsert store item) w of
           (Inr _, w) \<Rightarrow> xe_diagnostic env ''bot_pending_open_save_ok'' (rb_pool p) (rb_position p) (rs_session_id res)
                          (save_details (me_to_string env) path None p) w
         | (Inl e, w) \<Rightarrow> xe_diagnostic env ''bot_pending_open_save_failed'' (rb_pool p) (rb_position p) (rs_session_id res)
                          (save_details (me_to_string env) path (Some e) p) w)"

definition rebalance_incomplete ::
    "('d, 'w, 'z) executor_env_scheme \<Rightarrow> 'd rebalance_params \<Rightarrow> 'd whirlpool_state \<Rightarrow> rebalance_result
      \<Rightarrow> 'd strategy_executor \<Rightarrow> 'w \<Rightarrow> 'd strategy_executor \<times> 'w" where
  "rebalance_incomplete env p pl res x w =
     (let (ctx, w) = xe_ctx env w;
          x = x\<lparr>ex_lifecycle := snd (record_rebalance_incomplete ctx (rb_position p) (rb_pool p)
                (rb_current_tick_lower p, rb_current_tick_upper p) (rb_new_tick_lower p, rb_new_tick_upper p)
                (rb_reason p) (rs_error res) (ex_optimization_run_id x) (ex_lifecycle x))\<rparr>;
          w = (case ex_pending_path x of None \<Rightarrow> w | Some path \<Rightarrow> queue_pending_open env path p pl res w);
          (stamp, w) = me_stamp env w;
          w = emit_executor_alert env
                (with_pool (me_to_string env (rb_pool p)) (with_position (me_to_string env (rb_position p))
                  (new_alert stamp Critical AtRebalanceIncomplete
                    (''Rebalance incomplete: pool '' @ me_to_string env (rb_pool p) @ '' position '' @ me_to_string env (rb_position p)
                     @ '' '' @ em_dash @ '' '' @ (case rs_error res of Some e \<Rightarrow> e | None \<Rightarrow> ''unknown''))))) w
      in (retouch_forget (rb_position p) (unmonitor (rb_position p) x), w))"

text \<open>A successful rebalance: the old position leaves the monitor, the new one takes its place in the
  managed set and is added to the monitor. A dry run has no new position.\<close>

definition rebalance_succeeded ::
    "'d decimal_arith \<Rightarrow> float_fns \<Rightarrow> 'd decimal_conv \<Rightarrow> ('d, 'w, 'z) executor_env_scheme \<Rightarrow> 'd rebalance_params
      \<Rightarrow> 'd monitored_position \<Rightarrow> 'd whirlpool_state \<Rightarrow> rebalance_result \<Rightarrow> 'd strategy_executor \<Rightarrow> 'w \<Rightarrow> ('d strategy_executor \<times> 'w) option" where
  "rebalance_succeeded ops fl dc env p mp pl res x w =
     (let (now, w) = me_clock env w;
          (x, w) = put_checkpoint env (rebalance_out_checkpoint (me_to_string env) (ce_rfc3339 env now) mp pl res) x w;
          x = unmonitor (rb_position p) x
      in do {
        (x, w) \<leftarrow> (case rs_new_position res of
            None \<Rightarrow> Some (x, w)
          | Some np \<Rightarrow>
              (let x = replace_managed (xe_set_order env) (rb_position p) np x;
                   w = (case xe_reopen_hook env of None \<Rightarrow> w | Some h \<Rightarrow> h (rb_position p) np w);
                   (now, w) = me_clock env w;
                   (x, w) = put_checkpoint env (rebalance_in_checkpoint (me_to_string env) (ce_rfc3339 env now) np (rb_pool p)
                              (rb_new_tick_lower p) (rb_new_tick_upper p) pl res) x w
               in map_option (\<lambda>(r, m, w). (x\<lparr>ex_monitor := m\<rparr>, w)) (add_position ops fl dc env (me_to_string env np) (ex_monitor x) w)));
        Some (retouch_forget (rb_position p) x, w)
      })"

definition execute_rebalance ::
    "'d decimal_arith \<Rightarrow> float_fns \<Rightarrow> 'd decimal_conv \<Rightarrow> ('d, 'w, 'z) executor_env_scheme \<Rightarrow> 'd monitored_position
      \<Rightarrow> 'd whirlpool_state \<Rightarrow> int \<Rightarrow> int \<Rightarrow> 'd strategy_executor \<Rightarrow> 'w \<Rightarrow> ('d strategy_executor \<times> 'w) option" where
  "execute_rebalance ops fl dc env mp pl l u x w =
     (let x = retouch_put (mp_address mp) False x;
          p = rebalance_params_for x mp pl l u;
          (res, t, w) = rebalance_execute env (dry_run (ex_config x)) p (ex_lifecycle x) w;
          x = x\<lparr>ex_lifecycle := t\<rparr>
      in if rs_success res then rebalance_succeeded ops fl dc env p mp pl res x w
         else if rs_old_position_closed_on_chain res \<and> rs_new_position res = None then Some (rebalance_incomplete env p pl res x w)
         else Some (x, w))"

definition num_hours :: "datetime \<Rightarrow> datetime \<Rightarrow> int" where
  "num_hours now earlier = sgn (num_seconds now earlier) * (\<bar>num_seconds now earlier\<bar> div 3600)"

definition execute_close ::
    "('d, 'w, 'z) executor_env_scheme \<Rightarrow> 'd monitored_position \<Rightarrow> 'd whirlpool_state \<Rightarrow> 'd strategy_executor \<Rightarrow> 'w
      \<Rightarrow> 'd strategy_executor \<times> 'w" where
  "execute_close env mp pl x w =
     (let a = mp_address mp;
          (hours, w) = (case get_summary a (ex_lifecycle x) of
             Some s \<Rightarrow> let (now, w) = me_clock env w in (of_int (max (num_hours now (su_opened_at s)) 0) :: u64, w)
           | None \<Rightarrow> (0, w))
      in case execute_full_close_only env (dry_run (ex_config x)) a (mp_pool mp) w of
           (Inl e, w) \<Rightarrow> (x, w)
         | (Inr _, w) \<Rightarrow>
             (let x = unmonitor a x; (ctx, w) = xe_ctx env w in
              (x\<lparr>ex_lifecycle := snd (record_position_closed ctx a (mp_pool mp)
                 \<lparr>liquidity_removed = oc_liquidity (on_chain mp), cd_amount_a = 0, cd_amount_b = 0, cd_price_ab = Some (ws_price pl),
                  total_fees_a = oc_fees_owed_a (on_chain mp), total_fees_b = oc_fees_owed_b (on_chain mp),
                  final_pnl_usd = net_pnl_usd (pnl mp), final_pnl_pct = net_pnl_pct (pnl mp), cd_total_il_pct = il_pct (pnl mp),
                  duration_hours = hours, close_reason_of = CrILThreshold\<rparr> (ex_lifecycle x))\<rparr>, w)))"

definition execute_collect ::
    "('d, 'a) decimal_arith_scheme \<Rightarrow> ('d, 'w, 'z) executor_env_scheme \<Rightarrow> 'd monitored_position \<Rightarrow> 'd strategy_executor \<Rightarrow> 'w
      \<Rightarrow> ('d strategy_executor \<times> 'w) option" where
  "execute_collect ops env mp x w =
     (case execute_collect_fees_only env (dry_run (ex_config x)) (mp_address mp) (mp_pool mp) w of
        (Inl e, w) \<Rightarrow> Some (x, w)
      | (Inr _, w) \<Rightarrow>
          (let (ctx, w) = xe_ctx env w;
               (ok, t) = record_fees_collected ops ctx (mp_address mp) (mp_pool mp)
                 \<lparr>fc_fees_a = oc_fees_owed_a (on_chain mp), fc_fees_b = oc_fees_owed_b (on_chain mp), fc_fees_usd = fees_usd (pnl mp)\<rparr>
                 (ex_lifecycle x)
           in if ok then Some (x\<lparr>ex_lifecycle := t\<rparr>, w) else None))"

definition execute_decrease ::
    "('d, 'a) decimal_ops_scheme \<Rightarrow> 'd decimal_conv \<Rightarrow> ('d, 'w, 'z) executor_env_scheme \<Rightarrow> 'd monitored_position \<Rightarrow> 'd
      \<Rightarrow> 'd strategy_executor \<Rightarrow> 'w \<Rightarrow> 'd strategy_executor \<times> 'w" where
  "execute_decrease ops dc env mp amount x w =
     (case clamp_decimal_liquidity_to_u128 ops dc amount (oc_liquidity (on_chain mp)) of
        None \<Rightarrow> (x, w)
      | Some to_remove \<Rightarrow>
          if to_remove = 0 then (x, w)
          else (x, snd (execute_partial_decrease env (dry_run (ex_config x)) (mp_address mp) (mp_pool mp) to_remove w)))"

definition execute_decision ::
    "'d decimal_arith \<Rightarrow> float_fns \<Rightarrow> 'd decimal_conv \<Rightarrow> ('d, 'w, 'z) executor_env_scheme \<Rightarrow> 'd monitored_position
      \<Rightarrow> 'd decision \<Rightarrow> 'd whirlpool_state \<Rightarrow> 'd strategy_executor \<Rightarrow> 'w \<Rightarrow> ('d strategy_executor \<times> 'w) option" where
  "execute_decision ops fl dc env mp d pl x w =
     (case d of
        Hold \<Rightarrow> Some (x, w)
      | Rebalance l u \<Rightarrow> execute_rebalance ops fl dc env mp pl l u x w
      | Close \<Rightarrow> Some (execute_close env mp pl x w)
      | IncreaseLiquidity amount \<Rightarrow> Some (x, w)
      | DecreaseLiquidity amount \<Rightarrow> Some (execute_decrease ops dc env mp amount x w)
      | CollectFees \<Rightarrow> execute_collect ops env mp x w)"

section \<open>Evaluation\<close>

text \<open>The state put in place of a pool that could not be read.\<close>

definition fallback_pool :: "('d, 'a) decimal_ops_scheme \<Rightarrow> string \<Rightarrow> 'd whirlpool_state" where
  "fallback_pool ops address = \<lparr>ws_address = address, ws_token_mint_a = replicate 32 0, ws_token_mint_b = replicate 32 0,
     ws_token_vault_a = replicate 32 0, ws_token_vault_b = replicate 32 0, ws_tick_current = 0, ws_tick_spacing = 64,
     ws_sqrt_price = 2 ^ 64, ws_price = dec_one ops, ws_liquidity = 0, ws_fee_rate_bps = 30, ws_protocol_fee_rate_bps = 0,
     ws_protocol_fee_owed_a = 0, ws_protocol_fee_owed_b = 0, ws_fee_growth_global_a = 0, ws_fee_growth_global_b = 0\<rparr>"

definition pool_or_fallback ::
    "'d decimal_arith \<Rightarrow> ('d, 'w, 'z) monitor_env_scheme \<Rightarrow> pubkey \<Rightarrow> 'w \<Rightarrow> 'd whirlpool_state \<times> 'w" where
  "pool_or_fallback ops env key w =
     (case read_pool ops env key w of
        (Inr pl, w) \<Rightarrow> (pl, w)
      | (Inl e, w) \<Rightarrow> (fallback_pool ops (me_to_string env key), w))"

definition retouch_gate :: "'d monitored_position \<Rightarrow> 'd strategy_executor \<Rightarrow> bool option \<times> 'd strategy_executor" where
  "retouch_gate mp x =
     (if strategy_mode (ex_decision x) = RetouchShift
      then (let entry = in_range mp \<or> (case map_of (ex_retouch_armed x) (mp_address mp) of Some b \<Rightarrow> b | None \<Rightarrow> True)
            in (Some entry, retouch_put (mp_address mp) entry x))
      else (None, x))"

definition unix_seconds :: "datetime \<Rightarrow> int" where
  "unix_seconds now = now div 1000000000"

definition candle_ticks ::
    "'d decimal_arith \<Rightarrow> float_fns \<Rightarrow> ('d, 'w, 'z) executor_env_scheme \<Rightarrow> pubkey \<Rightarrow> 'd whirlpool_state \<Rightarrow> 'd strategy_executor \<Rightarrow> 'w
      \<Rightarrow> ((int \<times> int) option \<times> 'd strategy_executor \<times> 'w) option" where
  "candle_ticks ops fl env a pl x w =
     (if strategy_mode (ex_decision x) \<in> {LastCandle, LastCandlePeriodic}
      then (let (now, w) = me_clock env w in do {
              (band, samples) \<leftarrow> record_price_and_compute_last_closed_candle_ticks ops fl (xe_decimal_max env) (unix_seconds now) a pl
                (max (last_candle_seconds (ex_decision x)) 60) (ex_price_samples x);
              Some (band, x\<lparr>ex_price_samples := samples\<rparr>, w) })
      else Some (None, x, w))"

definition bollinger_band ::
    "'d decimal_arith \<Rightarrow> float_fns \<Rightarrow> 'd decimal_conv \<Rightarrow> ('d, 'w, 'z) executor_env_scheme \<Rightarrow> pubkey \<Rightarrow> 'd whirlpool_state
      \<Rightarrow> 'd strategy_executor \<Rightarrow> 'w \<Rightarrow> ((int \<times> int) option \<times> 'd strategy_executor \<times> 'w) option" where
  "bollinger_band ops fl dc env a pl x w =
     (if strategy_mode (ex_decision x) = Bollinger
      then (let (now, w) = me_clock env w in do {
              (band, samples) \<leftarrow> record_price_and_compute_bollinger_ticks ops fl dc (unix_seconds now) a pl
                (max (bollinger_window_points (ex_decision x)) 2) (bollinger_k (ex_decision x)) (ex_price_samples x);
              Some (band, x\<lparr>ex_price_samples := samples\<rparr>, w) })
      else Some (None, x, w))"

definition eval_snapshot ::
    "('d \<Rightarrow> string) \<Rightarrow> string \<Rightarrow> 'd executor_config \<Rightarrow> 'd decision_context \<Rightarrow> 'd decision \<Rightarrow> position_eval_snapshot" where
  "eval_snapshot show_dec ts cfg ctx d =
     (let m = minutes_since_rebalance ctx in
      \<lparr>es_ts_utc = ts, es_in_range = in_range (position ctx), es_pool_tick_current = ws_tick_current (pool ctx),
       es_decision = decision_description show_dec d, es_requires_transaction = requires_transaction d,
       es_auto_execute = auto_execute cfg,
       es_hours_since_rebalance = (if m = - 1 then None else Some (m div 60)),
       es_minutes_since_rebalance = (if m = - 1 then None else Some m)\<rparr>)"

text \<open>The part of \<^verbatim>\<open>evaluate_position\<close> after the refresh: the context of the decision.\<close>

definition build_context ::
    "'d decimal_arith \<Rightarrow> float_fns \<Rightarrow> 'd decimal_conv \<Rightarrow> ('d, 'w, 'z) executor_env_scheme \<Rightarrow> 'd monitored_position
      \<Rightarrow> 'd strategy_executor \<Rightarrow> 'w \<Rightarrow> ('d decision_context \<times> 'd strategy_executor \<times> 'w) option" where
  "build_context ops fl dc env mp x w =
     (let (pl, w) = pool_or_fallback ops env (mp_pool mp) w;
          (now, w) = me_clock env w;
          minutes = calculate_minutes_since_rebalance (ex_lifecycle x) now (mp_address mp);
          (armed, x) = retouch_gate mp x
      in do {
        (candle, x, w) \<leftarrow> candle_ticks ops fl env (mp_address mp) pl x w;
        (band, x, w) \<leftarrow> bollinger_band ops fl dc env (mp_address mp) pl x w;
        Some (\<lparr>position = mp, pool = pl, minutes_since_rebalance = minutes, retouch_armed = armed,
               last_candle_ticks = candle, bollinger_ticks = band\<rparr>, x, w)
      })"

definition decide_and_act ::
    "'d decimal_arith \<Rightarrow> float_fns \<Rightarrow> 'd decimal_conv \<Rightarrow> ('d, 'w, 'z) executor_env_scheme \<Rightarrow> 'd monitored_position
      \<Rightarrow> 'd strategy_executor \<Rightarrow> 'w \<Rightarrow> ('d strategy_executor \<times> 'w) option" where
  "decide_and_act ops fl dc env mp x w = do {
     (ctx, x, w) \<leftarrow> build_context ops fl dc env mp x w;
     d \<leftarrow> decide ops fl (ex_decision x) ctx;
     (let (now, w) = me_clock env w;
          x = x\<lparr>ex_last_eval := AList.update (mp_address mp)
                (eval_snapshot (me_show_dec env) (ce_rfc3339 env now) (ex_config x) ctx d) (ex_last_eval x)\<rparr>
      in if requires_transaction d \<and> auto_execute (ex_config x)
         then execute_decision ops fl dc env mp d (pool ctx) x w
         else Some (x, w))
   }"

definition evaluate_position ::
    "'d decimal_arith \<Rightarrow> float_fns \<Rightarrow> 'd decimal_conv \<Rightarrow> 'u u256_ops \<Rightarrow> ('d, 'w, 'z) executor_env_scheme \<Rightarrow> pubkey
      \<Rightarrow> 'd strategy_executor \<Rightarrow> 'w \<Rightarrow> ('d strategy_executor \<times> 'w) option" where
  "evaluate_position ops fl dc u env a x w =
     (case refresh_position ops fl dc u env a (ex_monitor x) w of
        None \<Rightarrow> None
      | Some (Inl e, m, w) \<Rightarrow> Some (x\<lparr>ex_monitor := m\<rparr>, w)
      | Some (Inr _, m, w) \<Rightarrow>
          (case get_monitored a m of
             None \<Rightarrow> Some (x\<lparr>ex_monitor := m\<rparr>, w)
           | Some mp \<Rightarrow> decide_and_act ops fl dc env mp (x\<lparr>ex_monitor := m\<rparr>) w))"

definition poll_checkpoint ::
    "'d decimal_arith \<Rightarrow> float_fns \<Rightarrow> 'd decimal_conv \<Rightarrow> 'u u256_ops \<Rightarrow> ('d, 'w, 'z) executor_env_scheme \<Rightarrow> pubkey
      \<Rightarrow> 'd strategy_executor \<Rightarrow> 'w \<Rightarrow> ('d strategy_executor \<times> 'w) option" where
  "poll_checkpoint ops fl dc u env a x w =
     (if fee_mode (ex_config x) = PositionTruth
      then (case capture_position_fee_checkpoint ops fl dc u env a ''poll'' Onchain (ex_monitor x) w of
              None \<Rightarrow> None
            | Some (None, m, w) \<Rightarrow> Some (x\<lparr>ex_monitor := m\<rparr>, w)
            | Some (Some cp, m, w) \<Rightarrow> Some (put_checkpoint env cp (x\<lparr>ex_monitor := m\<rparr>) w))
      else Some (x, w))"

fun evaluate_positions ::
    "'d decimal_arith \<Rightarrow> float_fns \<Rightarrow> 'd decimal_conv \<Rightarrow> 'u u256_ops \<Rightarrow> ('d, 'w, 'z) executor_env_scheme \<Rightarrow> pubkey list option
      \<Rightarrow> pubkey list \<Rightarrow> 'd strategy_executor \<Rightarrow> 'w \<Rightarrow> ('d strategy_executor \<times> 'w) option" where
  "evaluate_positions ops fl dc u env allow [] x w = Some (x, w)"
| "evaluate_positions ops fl dc u env allow (a # as) x w =
     (if (case allow of Some s \<Rightarrow> a \<notin> set s | None \<Rightarrow> False) \<or> a \<in> set (ex_skip_evaluation_for x)
      then evaluate_positions ops fl dc u env allow as x w
      else do {
        (x, w) \<leftarrow> poll_checkpoint ops fl dc u env a x w;
        (x, w) \<leftarrow> evaluate_position ops fl dc u env a x w;
        evaluate_positions ops fl dc u env allow as x w
      })"

section \<open>The recovery pass on the executor\<close>

text \<open>The pass over the pending openings runs on the executor and the world; after a panic, which is
  \<open>None\<close>, nothing more happens.\<close>

definition on_world :: "('w \<Rightarrow> 'r \<times> 'w) \<Rightarrow> 'r \<Rightarrow> ('x \<times> 'w) option \<Rightarrow> 'r \<times> ('x \<times> 'w) option" where
  "on_world f r W = (case W of None \<Rightarrow> (r, None) | Some (x, w) \<Rightarrow> let (r', w') = f w in (r', Some (x, w')))"

definition recovery_reopened ::
    "('d, 'w, 'z) executor_env_scheme \<Rightarrow> 'd pending_open_item \<Rightarrow> pubkey \<Rightarrow> pubkey \<Rightarrow> pubkey \<Rightarrow> 'd strategy_executor \<times> 'w
      \<Rightarrow> 'd strategy_executor \<times> 'w" where
  "recovery_reopened env i pool_key closed_key np = (\<lambda>(x, w).
     (let x = (case managed_allowlist x of
                 Some allow \<Rightarrow> if closed_key \<in> set allow then replace_managed (xe_set_order env) closed_key np x else x
               | None \<Rightarrow> x)
      in case xe_reopen_hook env of
           Some h \<Rightarrow> (x, h closed_key np w)
         | None \<Rightarrow> (x, xe_diagnostic env ''bot_reopen_hook_missing'' pool_key np (po_session_id i)
             (json_object [(''old_position'', JString (me_to_string env closed_key)), (''new_position'', JString (me_to_string env np)),
               (''context'', JString ''pending_open_recovery'')]) w)))"

definition recovery_add ::
    "'d decimal_arith \<Rightarrow> float_fns \<Rightarrow> 'd decimal_conv \<Rightarrow> ('d, 'w, 'z) executor_env_scheme \<Rightarrow> pubkey \<Rightarrow> 'd strategy_executor \<times> 'w
      \<Rightarrow> (string + unit) \<times> ('d strategy_executor \<times> 'w) option" where
  "recovery_add ops fl dc env np = (\<lambda>(x, w).
     (case add_position ops fl dc env (me_to_string env np) (ex_monitor x) w of
        None \<Rightarrow> (Inr (), None)
      | Some (r, m, w) \<Rightarrow> (map_sum (xe_error_text env) id r, Some (x\<lparr>ex_monitor := m\<rparr>, w))))"

definition recovery_recover ::
    "('d, 'w, 'z) executor_env_scheme \<Rightarrow> 'd recover_open_params \<Rightarrow> 'd strategy_executor \<times> 'w \<Rightarrow> recover_result \<times> 'd strategy_executor \<times> 'w" where
  "recovery_recover env q = (\<lambda>(x, w).
     (let (r, t, w) = recover_open_after_incomplete env (dry_run (ex_config x)) q (ex_lifecycle x) w
      in (r, x\<lparr>ex_lifecycle := t\<rparr>, w)))"

definition recovery_of ::
    "'d decimal_arith \<Rightarrow> float_fns \<Rightarrow> 'd decimal_conv \<Rightarrow> ('d, 'w, 'z) executor_env_scheme
      \<Rightarrow> ('d, ('d strategy_executor \<times> 'w) option) recovery_env" where
  "recovery_of ops fl dc env =
     \<lparr>re_parse_key = (\<lambda>s. case me_from_str env s of Some k \<Rightarrow> Inr k | None \<Rightarrow> Inl (xe_key_error env s)),
      re_show_key = me_to_string env, re_clock = on_world (me_clock env) 0, re_stamp = on_world (me_stamp env) ([], 0),
      re_rfc3339 = ce_rfc3339 env, re_parse_time = xe_parse_time env, re_json = xe_json env,
      re_lifecycle_file = (\<lambda>W. case W of None \<Rightarrow> None | Some (x, w) \<Rightarrow> xe_lifecycle_file env w),
      re_file = (\<lambda>W. case W of None \<Rightarrow> NoFile | Some (x, w) \<Rightarrow> xe_file env w),
      re_save = (\<lambda>s. on_world (xe_save env s) (Inr ())),
      re_recover = (\<lambda>q W. case W of
           None \<Rightarrow> (\<lparr>rr_success = False, rr_new_position = None, rr_error = None\<rparr>, None)
         | Some xw \<Rightarrow> (case recovery_recover env q xw of (r, xw') \<Rightarrow> (r, Some xw'))),
      re_add_position = (\<lambda>np W. case W of None \<Rightarrow> (Inr (), None) | Some xw \<Rightarrow> recovery_add ops fl dc env np xw),
      re_reopened = (\<lambda>i pool_key closed_key np. map_option (recovery_reopened env i pool_key closed_key np)),
      re_emit = (\<lambda>a. map_option (\<lambda>(x, w). (x, emit_executor_alert env a w)))\<rparr>"

definition executor_recoveries ::
    "'d decimal_arith \<Rightarrow> float_fns \<Rightarrow> 'd decimal_conv \<Rightarrow> ('d, 'w, 'z) executor_env_scheme \<Rightarrow> 'd strategy_executor \<Rightarrow> 'w
      \<Rightarrow> (string + unit) \<times> ('d strategy_executor \<times> 'w) option" where
  "executor_recoveries ops fl dc env x w =
     process_pending_open_recoveries (recovery_of ops fl dc env) (xe_vars env) (xe_claims env) (ex_pending_path x \<noteq> None)
       (auto_execute (ex_config x)) (dry_run (ex_config x)) (xe_has_wallet env) (Some (x, w))"

definition evaluate_all ::
    "'d decimal_arith \<Rightarrow> float_fns \<Rightarrow> 'd decimal_conv \<Rightarrow> 'u u256_ops \<Rightarrow> ('d, 'w, 'z) executor_env_scheme
      \<Rightarrow> 'd strategy_executor \<Rightarrow> 'w \<Rightarrow> ((string + unit) \<times> 'd strategy_executor \<times> 'w) option" where
  "evaluate_all ops fl dc u env x w =
     (case executor_recoveries ops fl dc env x w of
        (r, None) \<Rightarrow> None
      | (r, Some (x, w)) \<Rightarrow>
          map_option (\<lambda>(x, w). (Inr (), x, w))
            (evaluate_positions ops fl dc u env (managed_allowlist x)
               (map mp_address (get_positions (xe_table_order env) (ex_monitor x))) x w))"

section \<open>The loop\<close>

definition executor_tick ::
    "'d decimal_arith \<Rightarrow> float_fns \<Rightarrow> 'd decimal_conv \<Rightarrow> 'u u256_ops \<Rightarrow> ('d, 'w, 'z) executor_env_scheme
      \<Rightarrow> 'd strategy_executor \<Rightarrow> 'w \<Rightarrow> ('d strategy_executor \<times> 'w) option" where
  "executor_tick ops fl dc u env x w =
     (let (t, w) = xe_instant env w; (allowed, b) = is_allowed t (ex_breaker x); x = x\<lparr>ex_breaker := b\<rparr> in
      if \<not> allowed then Some (x, w)
      else (case evaluate_all ops fl dc u env x w of
              None \<Rightarrow> None
            | Some (Inl e, x, w) \<Rightarrow> (let (t, w) = xe_instant env w in Some (x\<lparr>ex_breaker := cb_record_failure t (ex_breaker x)\<rparr>, w))
            | Some (Inr _, x, w) \<Rightarrow> Some (x\<lparr>ex_breaker := cb_record_success (ex_breaker x)\<rparr>, w)))"

text \<open>What happens to an executor: ticks of its loop while it runs, and calls of other tasks between them.\<close>

datatype 'd executor_call =
    CallStart | CallTick | CallStop
  | CallAllowlist "pubkey list" | CallSkip "string list" | CallDecision "'d decision_config" | CallDryRun bool
  | CallPath "string option" | CallRunId "string option"
  | CallMonitorAdd string | CallMonitorRemove pubkey | CallMonitorUpdate

fun executor_step ::
    "'d decimal_arith \<Rightarrow> float_fns \<Rightarrow> 'd decimal_conv \<Rightarrow> 'u u256_ops \<Rightarrow> ('d, 'w, 'z) executor_env_scheme \<Rightarrow> 'd executor_call
      \<Rightarrow> 'd strategy_executor \<times> 'w \<Rightarrow> ('d strategy_executor \<times> 'w) option" where
  "executor_step ops fl dc u env CallStart (x, w) = Some (x\<lparr>ex_running := True\<rparr>, w)"
| "executor_step ops fl dc u env CallTick (x, w) = (if ex_running x then executor_tick ops fl dc u env x w else Some (x, w))"
| "executor_step ops fl dc u env CallStop (x, w) = Some (x\<lparr>ex_running := False\<rparr>, w)"
| "executor_step ops fl dc u env (CallAllowlist ps) (x, w) = Some (set_managed_allowlist ps x, w)"
| "executor_step ops fl dc u env (CallSkip ss) (x, w) = Some (set_skip_evaluation_for_addresses (me_from_str env) ss x, w)"
| "executor_step ops fl dc u env (CallDecision cfg) (x, w) = Some (set_decision_config cfg x, w)"
| "executor_step ops fl dc u env (CallDryRun b) (x, w) = Some (set_dry_run b x, w)"
| "executor_step ops fl dc u env (CallPath path) (x, w) = Some (set_pending_open_recovery_path path x, w)"
| "executor_step ops fl dc u env (CallRunId run) (x, w) = Some (set_optimization_run_id run x, w)"
| "executor_step ops fl dc u env (CallMonitorAdd s) (x, w) =
     map_option (\<lambda>(r, m, w). (x\<lparr>ex_monitor := m\<rparr>, w)) (add_position ops fl dc env s (ex_monitor x) w)"
| "executor_step ops fl dc u env (CallMonitorRemove a) (x, w) = Some (unmonitor a x, w)"
| "executor_step ops fl dc u env CallMonitorUpdate (x, w) =
     map_option (\<lambda>(r, m, w). (x\<lparr>ex_monitor := m\<rparr>, w)) (update_all ops fl dc u env (xe_table_order env) (ex_monitor x) w)"

definition executor_run where
  "executor_run ops fl dc u env calls xw = fold_option (executor_step ops fl dc u env) calls xw"

end
