(* ===== verification/Managed_Set.thy ===== *)
theory Managed_Set
  imports Strategy_Executor "HOL-Library.Multiset"
begin

text \<open>
  The managed set of the strategy executor: it is replaced member by member when positions are
  reopened, by a rebalance or by the recovery of a pending opening, and never grows. The lemmas on
  the recovery pass (\<open>recovery_keeps\<close>) serve every property of the executor's state.
\<close>

section \<open>The managed set\<close>

lemma find_other_None: "find (\<lambda>p. p \<noteq> np) xs = None \<Longrightarrow> distinct xs \<Longrightarrow> length xs \<le> 1"
  by (cases xs; cases "tl xs") (auto simp: find_None_iff split: if_splits)

lemma trim_allowlist_spec:
  assumes "distinct allow" and "np \<in> set allow"
  shows "distinct (trim_allowlist target np allow) \<and> np \<in> set (trim_allowlist target np allow)
    \<and> length (trim_allowlist target np allow) \<le> max target 1
    \<and> set (trim_allowlist target np allow) \<subseteq> set allow"
  using assms
proof (induction target np allow rule: trim_allowlist.induct)
  case (1 target np allow)
  show ?case
  proof (cases "target < length allow")
    case True
    show ?thesis
    proof (cases "find (\<lambda>p. p \<noteq> np) allow")
      case None
      with True "1.prems" find_other_None [OF None "1.prems"(1)] show ?thesis
        by (subst (1 2 3 4) trim_allowlist.simps) auto
    next
      case (Some extra)
      then have "extra \<noteq> np" by (auto simp: find_Some_iff)
      with "1.IH" [OF True Some] "1.prems" have
        "distinct (trim_allowlist target np (remove1 extra allow)) \<and> np \<in> set (trim_allowlist target np (remove1 extra allow))
          \<and> length (trim_allowlist target np (remove1 extra allow)) \<le> max target 1
          \<and> set (trim_allowlist target np (remove1 extra allow)) \<subseteq> set (remove1 extra allow)"
        by simp
      moreover have "trim_allowlist target np allow = trim_allowlist target np (remove1 extra allow)"
        using True Some by (subst trim_allowlist.simps) simp
      ultimately show ?thesis using set_remove1_subset [of extra allow] by auto
    qed
  next
    case False
    with "1.prems" show ?thesis by (subst (1 2 3 4) trim_allowlist.simps) auto
  qed
qed

definition managed_fields :: "'d strategy_executor \<Rightarrow> pubkey list option \<times> nat option" where
  "managed_fields x = (managed_allowlist x, managed_target_count x)"

text \<open>The managed set is a set, and no larger than the number of positions the strategy started with.\<close>

definition managed_ok :: "pubkey list option \<times> nat option \<Rightarrow> bool" where
  "managed_ok f = (case f of
     (Some allow, Some target) \<Rightarrow> distinct allow \<and> length allow \<le> target
   | (None, None) \<Rightarrow> True
   | _ \<Rightarrow> False)"

definition order_law :: "(pubkey list \<Rightarrow> pubkey list) \<Rightarrow> bool" where
  "order_law order \<longleftrightarrow> (\<forall>xs. mset (order xs) = mset xs)"

lemma replace_managed_ok:
  assumes "order_law order" and "managed_ok (managed_fields x)" and "managed_target_count x \<noteq> Some 0"
  shows "managed_ok (managed_fields (replace_managed order old np x))"
    and "managed_target_count (replace_managed order old np x) = managed_target_count x"
    and "managed_allowlist x \<noteq> None \<Longrightarrow> \<exists>allow. managed_allowlist (replace_managed order old np x) = Some allow \<and> np \<in> set allow"
proof -
  show "managed_target_count (replace_managed order old np x) = managed_target_count x"
    by (simp add: replace_managed_def Let_def split: option.splits)
  show "managed_ok (managed_fields (replace_managed order old np x))"
  proof (cases "managed_allowlist x")
    case (Some allow)
    then obtain target where t: "managed_target_count x = Some target" and d: "distinct allow" "0 < target"
      using assms(2,3) by (auto simp: managed_ok_def managed_fields_def split: option.splits)
    let ?allow = "order (List.insert np (removeAll old allow))"
    have m: "mset ?allow = mset (List.insert np (removeAll old allow))" using assms(1) by (simp add: order_law_def)
    have "distinct ?allow" using mset_eq_imp_distinct_iff [OF m] d by (simp add: distinct_removeAll)
    moreover have "np \<in> set ?allow" using mset_eq_setD [OF m] by simp
    ultimately show ?thesis
      using trim_allowlist_spec [of ?allow np target] d(2)
      by (simp add: replace_managed_def Let_def Some t managed_ok_def managed_fields_def max_def split: if_splits)
  qed (use assms(2) in \<open>simp add: replace_managed_def\<close>)
  show "\<exists>allow. managed_allowlist (replace_managed order old np x) = Some allow \<and> np \<in> set allow" if some: "managed_allowlist x \<noteq> None"
  proof -
    obtain allow target where a: "managed_allowlist x = Some allow" "managed_target_count x = Some target" and d: "distinct allow"
      using some assms(2) by (auto simp: managed_ok_def managed_fields_def split: option.splits)
    let ?allow = "order (List.insert np (removeAll old allow))"
    have m: "mset ?allow = mset (List.insert np (removeAll old allow))" using assms(1) by (simp add: order_law_def)
    have "distinct ?allow" using mset_eq_imp_distinct_iff [OF m] d by (simp add: distinct_removeAll)
    moreover have "np \<in> set ?allow" using mset_eq_setD [OF m] by simp
    ultimately show ?thesis using trim_allowlist_spec [of ?allow np target] by (simp add: replace_managed_def Let_def a)
  qed
qed

lemma replace_managed_cong:
  "managed_fields x = managed_fields y \<Longrightarrow> managed_fields (replace_managed order old np x) = managed_fields (replace_managed order old np y)"
  by (auto simp: replace_managed_def managed_fields_def Let_def split: option.splits)

subsection \<open>Frame lemmas\<close>

named_theorems managed_frame \<open>operations that leave the managed set alone\<close>

lemma managed_frame_updates [managed_frame, simp]:
  "managed_fields (x\<lparr>ex_monitor := m\<rparr>) = managed_fields x" "managed_fields (x\<lparr>ex_lifecycle := t\<rparr>) = managed_fields x"
  "managed_fields (x\<lparr>ex_price_samples := s\<rparr>) = managed_fields x" "managed_fields (x\<lparr>ex_last_eval := e\<rparr>) = managed_fields x"
  "managed_fields (x\<lparr>ex_breaker := b\<rparr>) = managed_fields x" "managed_fields (x\<lparr>ex_retouch_armed := r\<rparr>) = managed_fields x"
  "managed_fields (x\<lparr>ex_running := c\<rparr>) = managed_fields x" "managed_fields (x\<lparr>ex_skip_evaluation_for := sk\<rparr>) = managed_fields x"
  "managed_fields (x\<lparr>ex_decision := dcfg\<rparr>) = managed_fields x" "managed_fields (x\<lparr>ex_config := ecfg\<rparr>) = managed_fields x"
  "managed_fields (x\<lparr>ex_pending_path := path\<rparr>) = managed_fields x" "managed_fields (x\<lparr>ex_optimization_run_id := run\<rparr>) = managed_fields x"
  by (simp_all add: managed_fields_def)

lemma managed_frame_helpers [managed_frame, simp]:
  "managed_fields (unmonitor a x) = managed_fields x" "managed_fields (retouch_put a b x) = managed_fields x"
  "managed_fields (retouch_forget a x) = managed_fields x" "managed_fields (fst (put_checkpoint env cp x w)) = managed_fields x"
  "managed_fields (snd (retouch_gate mp x)) = managed_fields x"
  by (simp_all add: unmonitor_def retouch_put_def retouch_forget_def put_checkpoint_def retouch_gate_def Let_def split: prod.splits)

lemma put_checkpoint_managed: "put_checkpoint env cp x w = (x', w') \<Longrightarrow> managed_fields x' = managed_fields x"
  using managed_frame_helpers(4) [of env cp x w] by simp

text \<open>A step either keeps the managed set or replaces one position by another.\<close>

definition may_replace :: "('d, 'w, 'z) executor_env_scheme \<Rightarrow> 'd strategy_executor \<Rightarrow> 'd strategy_executor \<Rightarrow> bool" where
  "may_replace env x x' \<longleftrightarrow> managed_fields x' = managed_fields x
     \<or> (\<exists>old np. managed_fields x' = managed_fields (replace_managed (xe_set_order env) old np x))"

lemma may_replace_same: "managed_fields x' = managed_fields x \<Longrightarrow> may_replace env x x'"
  by (simp add: may_replace_def)

lemma may_replace_before:
  "may_replace env y x' \<Longrightarrow> managed_fields y = managed_fields x \<Longrightarrow> may_replace env x x'"
  unfolding may_replace_def using replace_managed_cong by metis

lemma rebalance_succeeded_managed:
  assumes "rebalance_succeeded ops fl dc env p mp pl res x w = Some (x', w')"
  shows "may_replace env x x'"
proof -
  obtain now w1 where c: "me_clock env w = (now, w1)" by (cases "me_clock env w")
  obtain x1 w2 where p1: "put_checkpoint env (rebalance_out_checkpoint (me_to_string env) (ce_rfc3339 env now) mp pl res) x w1 = (x1, w2)"
    by (cases "put_checkpoint env (rebalance_out_checkpoint (me_to_string env) (ce_rfc3339 env now) mp pl res) x w1")
  note f1 = put_checkpoint_managed [OF p1]
  show ?thesis
  proof (cases "rs_new_position res")
    case None
    with assms c p1 f1 show ?thesis by (auto simp: rebalance_succeeded_def may_replace_def)
  next
    case (Some np)
    let ?x2 = "replace_managed (xe_set_order env) (rb_position p) np (unmonitor (rb_position p) x1)"
    have "managed_fields x' = managed_fields ?x2"
      using assms c p1 Some
      by (auto simp: rebalance_succeeded_def Let_def bind_eq_Some_conv split: prod.splits dest!: put_checkpoint_managed)
    also have "\<dots> = managed_fields (replace_managed (xe_set_order env) (rb_position p) np x)"
      by (rule replace_managed_cong) (simp add: f1)
    finally show ?thesis unfolding may_replace_def by blast
  qed
qed

lemma rebalance_incomplete_managed: "managed_fields (fst (rebalance_incomplete env p pl res x w)) = managed_fields x"
  by (simp add: rebalance_incomplete_def Let_def split: prod.splits)

lemma execute_rebalance_managed:
  assumes "execute_rebalance ops fl dc env mp pl l u x w = Some (x', w')"
  shows "may_replace env x x'"
proof -
  let ?x = "retouch_put (mp_address mp) False x"
  obtain res t w1 where r: "rebalance_execute env (dry_run (ex_config ?x)) (rebalance_params_for ?x mp pl l u) (ex_lifecycle ?x) w = (res, t, w1)"
    by (cases "rebalance_execute env (dry_run (ex_config ?x)) (rebalance_params_for ?x mp pl l u) (ex_lifecycle ?x) w")
  note e = assms [unfolded execute_rebalance_def Let_def r, simplified]
  show ?thesis
  proof (cases "rs_success res")
    case True
    with e rebalance_succeeded_managed have "may_replace env (?x\<lparr>ex_lifecycle := t\<rparr>) x'" by auto
    then show ?thesis by (rule may_replace_before) simp
  next
    case False
    with e rebalance_incomplete_managed [of env "rebalance_params_for ?x mp pl l u" pl res "?x\<lparr>ex_lifecycle := t\<rparr>" w1]
    show ?thesis by (auto simp: may_replace_def split: if_splits)
  qed
qed

lemma execute_decision_managed:
  assumes "execute_decision ops fl dc env mp d pl x w = Some (x', w')"
  shows "may_replace env x x'"
proof (cases d)
  case (Rebalance l u)
  with assms show ?thesis by (auto simp: execute_decision_def intro: execute_rebalance_managed)
qed (use assms in \<open>auto simp: execute_decision_def execute_close_def execute_decrease_def execute_collect_def Let_def
      intro!: may_replace_same split: prod.splits sum.splits option.splits if_splits\<close>)

text \<open>Building the context of a decision reads the clock, the gate of the retouch mode and the price samples.\<close>

lemma band_parts:
  shows "candle_ticks ops fl env a pl x w = Some (band, x', w') \<Longrightarrow> \<exists>s. x' = x\<lparr>ex_price_samples := s\<rparr> \<and> w' \<in> {w, snd (me_clock env w)}"
    and "bollinger_band ops fl dc env a pl x w = Some (band, x', w') \<Longrightarrow> \<exists>s. x' = x\<lparr>ex_price_samples := s\<rparr> \<and> w' \<in> {w, snd (me_clock env w)}"
proof -
  have same: "\<exists>s. x = x\<lparr>ex_price_samples := s\<rparr>" by (rule exI [of _ "ex_price_samples x"]) simp
  show "\<exists>s. x' = x\<lparr>ex_price_samples := s\<rparr> \<and> w' \<in> {w, snd (me_clock env w)}" if "candle_ticks ops fl env a pl x w = Some (band, x', w')"
    using that same by (auto simp: candle_ticks_def bind_eq_Some_conv split: if_splits prod.splits)
  show "\<exists>s. x' = x\<lparr>ex_price_samples := s\<rparr> \<and> w' \<in> {w, snd (me_clock env w)}" if "bollinger_band ops fl dc env a pl x w = Some (band, x', w')"
    using that same by (auto simp: bollinger_band_def bind_eq_Some_conv split: if_splits prod.splits)
qed

lemma retouch_gate_parts: "\<exists>r. snd (retouch_gate mp x) = x\<lparr>ex_retouch_armed := r\<rparr>"
  by (auto simp: retouch_gate_def retouch_put_def Let_def intro: exI [of _ "ex_retouch_armed x"])

lemma build_context_parts:
  assumes "build_context ops fl dc env mp x w = Some (ctx, x', w')"
  obtains r s v w1 where "x' = x\<lparr>ex_retouch_armed := r, ex_price_samples := s\<rparr>"
    "v = snd (me_clock env (snd (pool_or_fallback ops env (mp_pool mp) w)))" "w1 \<in> {v, snd (me_clock env v)}" "w' \<in> {w1, snd (me_clock env w1)}"
proof -
  obtain pl w0 where p: "pool_or_fallback ops env (mp_pool mp) w = (pl, w0)" by fastforce
  obtain now v where c: "me_clock env w0 = (now, v)" by fastforce
  obtain armed y where g: "retouch_gate mp x = (armed, y)" by fastforce
  from assms obtain candle x1 w1 band where
    "candle_ticks ops fl env (mp_address mp) pl y v = Some (candle, x1, w1)" "bollinger_band ops fl dc env (mp_address mp) pl x1 w1 = Some (band, x', w')"
    unfolding build_context_def by (auto simp: p c g bind_eq_Some_conv)
  from band_parts(1) [OF this(1)] band_parts(2) [OF this(2)] retouch_gate_parts [of mp x] g p c that show ?thesis by fastforce
qed

lemma build_context_managed:
  "build_context ops fl dc env mp x w = Some (ctx, x', w') \<Longrightarrow> managed_fields x' = managed_fields x"
  by (erule build_context_parts) simp

lemma decide_and_act_managed:
  assumes "decide_and_act ops fl dc env mp x w = Some (x', w')"
  shows "may_replace env x x'"
proof -
  obtain ctx x1 w1 d where b: "build_context ops fl dc env mp x w = Some (ctx, x1, w1)" "decide ops fl (ex_decision x1) ctx = Some d"
    using assms by (auto simp: decide_and_act_def bind_eq_Some_conv)
  note m = build_context_managed [OF b(1)]
  show ?thesis
    using assms b m
    by (auto simp: decide_and_act_def Let_def may_replace_same split: prod.splits if_splits
        dest!: execute_decision_managed intro: may_replace_before)
qed

lemma evaluate_position_managed:
  assumes "evaluate_position ops fl dc u env a x w = Some (x', w')"
  shows "may_replace env x x'"
  using assms
  by (auto simp: evaluate_position_def may_replace_same split: option.splits prod.splits sum.splits
      dest!: decide_and_act_managed intro: may_replace_before)

lemma poll_checkpoint_managed:
  "poll_checkpoint ops fl dc u env a x w = Some (x', w') \<Longrightarrow> managed_fields x' = managed_fields x"
  by (auto simp: poll_checkpoint_def split: if_splits option.splits prod.splits dest!: put_checkpoint_managed)

text \<open>Evaluating the positions of a snapshot of the managed set.\<close>

lemma may_replace_ok:
  assumes "order_law (xe_set_order env)" and "managed_ok (managed_fields x)" and "managed_target_count x \<noteq> Some 0"
    and "may_replace env x x'"
  shows "managed_ok (managed_fields x') \<and> managed_target_count x' = managed_target_count x"
  using assms(4) replace_managed_ok(1,2) [OF assms(1-3)] assms(2)
  unfolding may_replace_def by (metis managed_fields_def prod.sel(2))

lemma evaluate_positions_managed:
  assumes "order_law (xe_set_order env)" and "allow \<noteq> Some [] \<Longrightarrow> managed_target_count x \<noteq> Some 0"
    and "managed_ok (managed_fields x)" and "evaluate_positions ops fl dc u env allow as x w = Some (x', w')"
  shows "managed_ok (managed_fields x') \<and> managed_target_count x' = managed_target_count x"
  using assms(2-4)
proof (induction "as" arbitrary: x w)
  case (Cons a "as")
  show ?case
  proof (cases "(case allow of Some s \<Rightarrow> a \<notin> set s | None \<Rightarrow> False) \<or> a \<in> set (ex_skip_evaluation_for x)")
    case True
    with Cons.prems(3) have "evaluate_positions ops fl dc u env allow as x w = Some (x', w')" by simp
    with Cons.IH [OF Cons.prems(1,2)] show ?thesis by simp
  next
    case False
    then have t: "managed_target_count x \<noteq> Some 0" by (intro Cons.prems(1)) auto
    from False Cons.prems(3) obtain x1 w1 x2 w2 where
      s: "poll_checkpoint ops fl dc u env a x w = Some (x1, w1)" "evaluate_position ops fl dc u env a x1 w1 = Some (x2, w2)"
        "evaluate_positions ops fl dc u env allow as x2 w2 = Some (x', w')"
      by (auto simp: bind_eq_Some_conv simp del: de_Morgan_disj)
    have "managed_ok (managed_fields x2) \<and> managed_target_count x2 = managed_target_count x"
      using may_replace_ok [OF assms(1) Cons.prems(2) t]
        may_replace_before [OF evaluate_position_managed [OF s(2)] poll_checkpoint_managed [OF s(1)]] by blast
    with Cons.IH [of x2 w2] s(3) t show ?thesis by simp
  qed
qed auto

subsection \<open>The recovery pass\<close>

text \<open>A property of the world that every operation of the recovery pass keeps is kept by the pass.\<close>

definition recovery_keeps :: "('d, 'w) recovery_env \<Rightarrow> ('w \<Rightarrow> bool) \<Rightarrow> bool" where
  "recovery_keeps env P \<longleftrightarrow> (\<forall>w. P w \<longrightarrow> P (snd (re_clock env w)) \<and> P (snd (re_stamp env w))
     \<and> (\<forall>s. P (snd (re_save env s w))) \<and> (\<forall>q. P (snd (re_recover env q w))) \<and> (\<forall>np. P (snd (re_add_position env np w)))
     \<and> (\<forall>i pool_key closed_key np q v. rr_new_position (fst (re_recover env q v)) = Some np \<longrightarrow> P (re_reopened env i pool_key closed_key np w)) \<and> (\<forall>a. P (re_emit env a w)))"

lemma recovery_keepsD:
  assumes "recovery_keeps env P" and "P w"
  shows "re_clock env w = (now, w') \<Longrightarrow> P w'" "re_stamp env w = (st, w') \<Longrightarrow> P w'" "re_save env s w = (r, w') \<Longrightarrow> P w'"
    "re_recover env q w = (res, w') \<Longrightarrow> P w'" "re_add_position env np w = (ra, w') \<Longrightarrow> P w'"
    "rr_new_position (fst (re_recover env q v)) = Some np \<Longrightarrow> P (re_reopened env i pool_key closed_key np w)" "P (re_emit env a w)"
  using assms unfolding recovery_keeps_def by (metis snd_conv)+

lemma recovery_failed_keeps:
  assumes "recovery_keeps env P" and "P w" and "recovery_failed env max_a th i pool_key closed_key err w = (r, w')"
  shows "P w'"
  using assms(2,3)
  by (auto simp: recovery_failed_def Let_def split: if_splits prod.splits
      intro!: recovery_keepsD(7) [OF assms(1)] intro: recovery_keepsD(1,2) [OF assms(1)])

lemma recovery_succeeded_keeps:
  assumes "recovery_keeps env P" and "P w"
    and "recovery_succeeded env max_a i pool_key closed_key (rr_new_position (fst (re_recover env q v))) w = (r, w')"
  shows "P w'"
  using assms(2,3)
  by (auto simp: recovery_succeeded_def split: option.splits prod.splits sum.splits
      intro!: recovery_keepsD(6) [OF assms(1)] intro: recovery_keepsD(5) [OF assms(1)])

lemma attempt_item_keeps:
  assumes "recovery_keeps env P" and "P w" and "attempt_item env max_a th i w = (r, w')"
  shows "P w'"
proof -
  obtain now w1 where c: "re_clock env w = (now, w1)" by (cases "re_clock env w")
  have k: "P w1" by (rule recovery_keepsD(1) [OF assms(1,2) c])
  have step: "P w3" if "re_recover env q w1 = (res, w2)"
    "recovery_succeeded env max_a j pool_key closed_key (rr_new_position res) w2 = (r, w3)
       \<or> recovery_failed env max_a th j pool_key closed_key e w2 = (r, w3)"
    for q res w2 w3 j pool_key closed_key e
    using that recovery_keepsD(4) [OF assms(1) k that(1)] recovery_succeeded_keeps [OF assms(1), where q = q and v = w1]
      recovery_failed_keeps [OF assms(1)]
    by (metis fst_conv)
  from assms(3) k show ?thesis
    by (auto simp: attempt_item_def c Let_def split: if_splits prod.splits sum.splits) (blast intro: step)+
qed

lemma process_items_keeps:
  assumes "recovery_keeps env P" and "P w" and "process_items env vars claims is w = (r, w')"
  shows "P w'"
  using assms(2,3)
proof (induction "is" arbitrary: w r)
  case (Cons i "is")
  obtain k w1 where k: "process_item env vars claims i w = (k, w1)" by (cases "process_item env vars claims i w")
  then have "P w1" using Cons.prems(1)
    by (auto simp: process_item_def Let_def split: if_splits prod.splits
        dest: recovery_keepsD(1) [OF assms(1)] attempt_item_keeps [OF assms(1)])
  with Cons k show ?case by (auto split: item_outcome.splits prod.splits sum.splits)
qed simp

lemma process_recoveries_keeps:
  assumes "recovery_keeps env P" and "P w"
  shows "P (snd (process_pending_open_recoveries env vars claims has_path auto dry wallet w))"
  using assms(2)
  by (auto simp: process_pending_open_recoveries_def Let_def split: prod.splits sum.splits
      intro: process_items_keeps [OF assms] recovery_keepsD(3) [OF assms(1) _ surjective_pairing])

subsection \<open>All operations of the executor\<close>

definition managed_at :: "nat option \<Rightarrow> 'd strategy_executor \<Rightarrow> bool" where
  "managed_at n x \<longleftrightarrow> managed_ok (managed_fields x) \<and> managed_target_count x = n"

lemma managed_at_cong: "managed_fields x = managed_fields y \<Longrightarrow> managed_at n x = managed_at n y"
  by (simp add: managed_at_def managed_fields_def)

lemma managed_at_nonempty:
  assumes "managed_at n x" and "managed_allowlist x = Some allow" and "allow \<noteq> []"
  shows "managed_target_count x \<noteq> Some 0"
proof -
  from assms(1,2) obtain target where "managed_target_count x = Some target" "length allow \<le> target"
    by (auto simp: managed_at_def managed_ok_def managed_fields_def split: option.splits)
  with assms(3) show ?thesis by (cases allow) auto
qed

lemma recovery_keeps_managed:
  assumes "order_law (xe_set_order env)"
  shows "recovery_keeps (recovery_of ops fl dc env) (\<lambda>W. \<forall>x w. W = Some (x, w) \<longrightarrow> managed_at n x)"
proof -
  have r: "managed_at n (fst (recovery_reopened env i pool_key closed_key np (x, w)))" if m: "managed_at n x"
    for i pool_key closed_key np x w
  proof (cases "\<exists>allow. managed_allowlist x = Some allow \<and> closed_key \<in> set allow")
    case True
    then have "managed_target_count x \<noteq> Some 0" using managed_at_nonempty [OF m] by (metis empty_iff list.set(1))
    with m replace_managed_ok(1,2) [OF assms, of x] True show ?thesis
      by (auto simp: recovery_reopened_def managed_at_def Let_def split: option.splits)
  qed (use m in \<open>auto simp: recovery_reopened_def Let_def split: option.splits\<close>)
  have a: "managed_at n x'" if "managed_at n x" "snd (recovery_add ops fl dc env np (x, w)) = Some (x', w')" for np x w x' w'
    using that managed_at_cong [of "x\<lparr>ex_monitor := m\<rparr>" x n for m]
    by (auto simp: recovery_add_def split: option.splits prod.splits)
  have q: "managed_at n (fst (snd (recovery_recover env p (x, w))))" if "managed_at n x" for p x w
    using that managed_at_cong [of "x\<lparr>ex_lifecycle := t\<rparr>" x n for t] by (auto simp: recovery_recover_def split: prod.splits)
  show ?thesis
    unfolding recovery_keeps_def
  proof (intro allI impI conjI, goal_cases)
    case (5 w np x1 w1)
    then show ?case using a by (auto simp: recovery_of_def split: option.splits)
  next
    case (4 w p x1 w1)
    then show ?case using q by (auto simp: recovery_of_def split: option.splits prod.splits) (metis fst_conv snd_conv)
  next
    case (6 w i pool_key closed_key np x1 w1)
    then show ?case using r by (auto simp: recovery_of_def) (metis fst_conv)
  qed (auto simp: recovery_of_def on_world_def Let_def split: option.splits prod.splits)
qed

lemma evaluate_all_managed:
  assumes "order_law (xe_set_order env)" and "managed_at n x" and "evaluate_all ops fl dc u env x w = Some (r, x', w')"
  shows "managed_at n x'"
proof -
  obtain r1 x1 w1 where e: "executor_recoveries ops fl dc env x w = (r1, Some (x1, w1))"
    "evaluate_positions ops fl dc u env (managed_allowlist x1)
       (map mp_address (get_positions (xe_table_order env) (ex_monitor x1))) x1 w1 = Some (x', w')"
    using assms(3) by (auto simp: evaluate_all_def split: prod.splits option.splits)
  have m: "managed_at n x1"
    using process_recoveries_keeps [OF recovery_keeps_managed [OF assms(1), of ops fl dc n], of "Some (x, w)"] assms(2) e(1)
    by (auto simp: executor_recoveries_def) (metis snd_conv)
  have "managed_target_count x1 \<noteq> Some 0" if "managed_allowlist x1 \<noteq> Some []" "managed_allowlist x1 \<noteq> None"
    using that managed_at_nonempty [OF m] by auto
  moreover have "managed_target_count x1 = None" if "managed_allowlist x1 = None"
    using that m by (auto simp: managed_at_def managed_ok_def managed_fields_def split: option.splits)
  ultimately have "managed_allowlist x1 \<noteq> Some [] \<Longrightarrow> managed_target_count x1 \<noteq> Some 0" by force
  with evaluate_positions_managed [OF assms(1) _ _ e(2)] m show ?thesis by (simp add: managed_at_def)
qed

lemma executor_tick_managed:
  assumes "order_law (xe_set_order env)" and "managed_at n x" and "executor_tick ops fl dc u env x w = Some (x', w')"
  shows "managed_at n x'"
proof -
  have b: "managed_at n (y\<lparr>ex_breaker := c\<rparr>) = managed_at n y" for y c by (rule managed_at_cong) simp
  have e: "managed_at n y" if "evaluate_all ops fl dc u env (x\<lparr>ex_breaker := c\<rparr>) v = Some (r, y, v')" for c v r y v'
    using evaluate_all_managed [OF assms(1) _ that] assms(2) b by blast
  show ?thesis using assms(2,3) b
    by (auto simp: executor_tick_def Let_def split: prod.splits if_splits option.splits sum.splits dest!: e)
qed

text \<open>The list last given to \<^verbatim>\<open>set_managed_allowlist\<close>.\<close>

fun allowlist_call :: "'d executor_call \<Rightarrow> pubkey list option \<Rightarrow> pubkey list option" where
  "allowlist_call (CallAllowlist ps) acc = Some ps"
| "allowlist_call _ acc = acc"

definition last_allowlist :: "'d executor_call list \<Rightarrow> pubkey list option" where
  "last_allowlist calls = fold allowlist_call calls None"

lemma fold_insert_distinct: "distinct acc \<Longrightarrow> distinct (fold List.insert ps acc) \<and> set (fold List.insert ps acc) = set acc \<union> set ps"
  by (induction ps arbitrary: acc) auto

lemma executor_step_managed:
  assumes "order_law (xe_set_order env)" and "managed_at (map_option (\<lambda>ps. card (set ps)) acc) x"
    and "executor_step ops fl dc u env c (x, w) = Some (x', w')"
  shows "managed_at (map_option (\<lambda>ps. card (set ps)) (allowlist_call c acc)) x'"
proof (cases c)
  case (CallAllowlist ps)
  with assms(3) fold_insert_distinct [of "[]" ps] distinct_card [of "fold List.insert ps []"] show ?thesis
    by (auto simp: set_managed_allowlist_def managed_allowlist_state_from_positions_def Let_def managed_at_def managed_ok_def
        managed_fields_def)
next
  case CallTick
  with assms executor_tick_managed [OF assms(1,2)] show ?thesis by (auto split: if_splits)
qed (use assms(2,3) in \<open>auto simp: managed_at_def set_skip_evaluation_for_addresses_def set_decision_config_def set_dry_run_def
      set_pending_open_recovery_path_def set_optimization_run_id_def managed_fields_def unmonitor_def\<close>)

lemma executor_run_managed:
  assumes "order_law (xe_set_order env)" and "managed_at (map_option (\<lambda>ps. card (set ps)) acc) (fst xw)"
    and "executor_run ops fl dc u env calls xw = Some (x', w')"
  shows "managed_at (map_option (\<lambda>ps. card (set ps)) (fold allowlist_call calls acc)) x'"
  using assms(2,3)
proof (induction calls arbitrary: xw acc)
  case (Cons c calls)
  then obtain x1 w1 where s: "executor_step ops fl dc u env c xw = Some (x1, w1)" "executor_run ops fl dc u env calls (x1, w1) = Some (x', w')"
    by (auto simp: executor_run_def bind_eq_Some_conv)
  obtain x w where xw: "xw = (x, w)" by (cases xw)
  have "managed_at (map_option (\<lambda>ps. card (set ps)) (allowlist_call c acc)) x1"
    using executor_step_managed [OF assms(1)] Cons.prems(1) s(1) xw by fastforce
  with Cons.IH [of "allowlist_call c acc" "(x1, w1)"] s(2) show ?case by simp
qed (simp add: executor_run_def)

text \<open>C16. The managed set never grows. Whatever an executor does after it was created --- evaluations,
  rebalances, recovered openings, and calls of other tasks between its ticks --- the positions it
  manages are pairwise different and at most as many as the different positions of the list last
  given to \<^verbatim>\<open>set_managed_allowlist\<close>, for every order in which the hash set is walked.\<close>

theorem managed_set_bounded:
  assumes "order_law (xe_set_order env)" and "executor_run ops fl dc u env calls (new_executor ops vars m cfg, w) = Some (x', w')"
    and "managed_allowlist x' = Some allow"
  shows "\<exists>ps. last_allowlist calls = Some ps \<and> distinct allow \<and> length allow \<le> card (set ps)"
proof -
  have "managed_at (map_option (\<lambda>ps. card (set ps)) None) (fst (new_executor ops vars m cfg, w))"
    by (simp add: new_executor_def managed_at_def managed_ok_def managed_fields_def)
  from executor_run_managed [OF assms(1) this assms(2)] assms(3) show ?thesis
    by (auto simp: last_allowlist_def managed_at_def managed_ok_def managed_fields_def split: option.splits)
qed

text \<open>A small environment, whose world counts the transactions: the position \<open>[1]\<close> of the pool \<open>[2]\<close>,
  which stands at tick 0 just above its range; a live rebalance opens the position
  \<open>[9]\<close>, which cannot be read yet.\<close>

definition demo_account :: "u8 list" where
  "demo_account = zero_account[41 := 64]"

lemma demo_account_pool: "map_option (\<lambda>p. (tick_current_index p, tick_spacing p)) (parse_whirlpool_minimal demo_account) = Some (0, 64)"
  unfolding demo_account_def zero_account_def by code_simp

definition demo_result :: "rat rebalance_params \<Rightarrow> string \<Rightarrow> rebalance_result" where
  "demo_result p sid = (dry_result p sid)\<lparr>rs_old_position_closed_on_chain := True, rs_new_position := Some [9]\<rparr>"

definition demo_executor_env :: "(rat, nat) executor_env" where
  "demo_executor_env = \<lparr>me_from_str = (\<lambda>s. if s = ''pos'' then Some [1] else if s = ''pool'' then Some [2] else None),
     me_to_string = (\<lambda>k. if k = [1] then ''pos'' else if k = [2] then ''pool'' else ''new''),
     me_get_account = (\<lambda>k w. (Inr (if k = [2] then demo_account else []), w)),
     me_position_from_slice = me_position_from_slice example_env,
     me_error_chain = (\<lambda>_. []), me_show_dec = (\<lambda>_. []), me_clock = (\<lambda>w. (0, w)),
     me_stamp = (\<lambda>w. (([], 0), w)), me_callback = None, me_notifiers = None, me_during = id,
     ce_ticks = (\<lambda>_. \<lparr>whirlpool_program_id = None, find_program_address = (\<lambda>_ _. []), get_account = (\<lambda>_. Inl []),
       tick_array_from_slice = (\<lambda>_. None)\<rparr>),
     ce_rfc3339 = (\<lambda>_. []),
     xe_ctx = (\<lambda>w. (\<lparr>ctx_id = [], ctx_now = 0, ctx_row_time = [], ctx_show_dec = (\<lambda>_. []), ctx_show_key = (\<lambda>_. []),
       ctx_session_env = None, ctx_write_ok = (\<lambda>_ _. True)\<rparr>, w)),
     xe_uuid = (\<lambda>w. ([], w)),
     live_execute = (\<lambda>p sid t w. (demo_result p sid, t, Suc w)),
     live_recover = (\<lambda>q t w. (\<lparr>rr_success = True, rr_new_position = None, rr_error = None\<rparr>, t, Suc w)),
     live_close = (\<lambda>_ _ w. (Inr (), Suc w)), live_decrease = (\<lambda>_ _ _ w. (Inr (), Suc w)), live_collect = (\<lambda>_ _ w. (Inr (), Suc w)),
     xe_file = (\<lambda>_. NoFile), xe_save = (\<lambda>_ w. (Inr (), w)), xe_diagnostic = (\<lambda>_ _ _ _ _ w. w), xe_reopen_hook = None,
     xe_notifiers = None, xe_set_order = rev, xe_table_order = id, xe_decimal_max = 2 ^ 96 - 1, xe_vars = (\<lambda>_. None), xe_claims = {},
     xe_has_wallet = True, xe_json = (\<lambda>_. None), xe_lifecycle_file = (\<lambda>_. None), xe_parse_time = (\<lambda>_. None),
     xe_key_error = (\<lambda>_. []), xe_error_text = (\<lambda>_. []), xe_instant = (\<lambda>w. (0, w))\<rparr>"

definition demo_executor :: "bool \<Rightarrow> rat strategy_executor" where
  "demo_executor dry = set_managed_allowlist [[1], [2], [1]]
     ((new_executor rat_ops (\<lambda>_. None) example_monitor ((default_executor_config rat_ops)\<lparr>auto_execute := True, dry_run := dry\<rparr>))
       \<lparr>ex_decision := (default_decision_config rat_ops)\<lparr>strategy_mode := OorRecenter, range_width_pct := 1 / 1024\<rparr>\<rparr>)"

definition demo_position :: on_chain_position where
  "demo_position = \<lparr>oc_address = [1], oc_pool = [2], oc_owner = replicate 32 0, oc_tick_lower = - 10, oc_tick_upper = 0, oc_liquidity = 5,
     oc_fee_growth_inside_a = 0, oc_fee_growth_inside_b = 0, oc_fees_owed_a = 3, oc_fees_owed_b = 4\<rparr>"

lemma demo_reads:
  obtains pl where "read_pool rat_ops demo_executor_env [2] w = (Inr pl, w)" "ws_tick_current pl = 0" "ws_tick_spacing pl = 64"
    "read_position demo_executor_env ''pos'' w = (Inr demo_position, w)"
    "\<exists>e. read_position demo_executor_env ''new'' w = (Inl e, w)"
proof -
  obtain wp where "parse_whirlpool_minimal demo_account = Some wp" "tick_current_index wp = 0" "tick_spacing wp = 64"
    using demo_account_pool by auto
  then show ?thesis
    by (intro that [of "case read_pool rat_ops demo_executor_env [2] w of (Inr pl, _) \<Rightarrow> pl"])
      (simp_all add: read_pool_def read_position_def demo_executor_env_def get_pool_state_def from_whirlpool_def get_position_def
        account_data_looks_like_whirlpool_pool_def example_env_def demo_position_def)
qed

lemma demo_refresh:
  "\<exists>m mp. refresh_position rat_ops approx_fns rat_conv word_ops demo_executor_env [1] example_monitor w = Some (Inr (), m, w)
     \<and> get_monitored [1] m = Some mp \<and> mp_address mp = [1] \<and> mp_pool mp = [2] \<and> \<not> in_range mp
     \<and> pm_positions m = [([1], mp)]"
proof -
  obtain pl where r: "read_pool rat_ops demo_executor_env [2] w = (Inr pl, w)" "ws_tick_current pl = 0" "ws_tick_spacing pl = 64"
    "read_position demo_executor_env ''pos'' w = (Inr demo_position, w)"
    by (rule demo_reads)
  have p: "oc_pool demo_position = [2]" by (simp add: demo_position_def)
  have e: "me_to_string demo_executor_env [1] = ''pos''" "me_during demo_executor_env = id" "me_clock demo_executor_env w = (0, w)"
    "me_callback demo_executor_env = None" "me_notifiers demo_executor_env = None" "me_stamp demo_executor_env w = (([], 0), w)"
    by (simp_all add: demo_executor_env_def)
  have q: "refresh_monitored rat_ops approx_fns rat_conv demo_position pl 0 example_monitored =
      Some (example_monitored\<lparr>on_chain := demo_position, in_range := False, last_updated := 0,
        pnl := (pnl example_monitored)\<lparr>fees_earned_a := 3, fees_earned_b := 4, entry_price := Some (ws_price pl), il_pct := 0\<rparr>\<rparr>)"
    using r by (simp add: refresh_monitored_def example_monitored_def default_pnl_def demo_position_def is_tick_in_range_def dec_zero_def rat_ops_def)
  have a: "calculate_token_amounts word_ops approx_fns demo_position 0 (ws_sqrt_price pl) \<noteq> None"
    by (simp add: calculate_token_amounts_def demo_position_def)
  show ?thesis
    using r a q
    by (auto simp: refresh_position_def update_position_def e p example_monitor_def new_monitor_def get_monitored_def
        update_alerts_def position_alert_def emit_alert_def example_monitored_def split: option.splits)
qed

lemma demo_decision:
  assumes "ws_tick_current pl = 0" and "ws_tick_spacing pl = 64" and "\<not> in_range mp"
  shows "decide rat_ops approx_fns (ex_decision (demo_executor dry)) \<lparr>position = mp, pool = pl, minutes_since_rebalance = k,
    retouch_armed = None, last_candle_ticks = None, bollinger_ticks = None\<rparr> = Some (Rebalance 0 64)"
  using assms
  by (simp add: decide_def Let_def demo_executor_def set_managed_allowlist_def managed_allowlist_state_from_positions_def
      default_decision_config_def exit_must_wait_def calculate_new_range_def calculate_tick_range_def tick_delta_example
      rust_div_def wrap_i32_def)

definition like_demo :: "bool \<Rightarrow> rat strategy_executor \<Rightarrow> bool" where
  "like_demo dry x \<longleftrightarrow> ex_decision x = ex_decision (demo_executor dry) \<and> ex_config x = ex_config (demo_executor dry)
     \<and> managed_fields x = (Some [[2], [1]], Some 2)"

lemma demo_act:
  assumes "like_demo dry x" and "mp_address mp = [1]" and "mp_pool mp = [2]" and "\<not> in_range mp"
  shows "\<exists>x'. decide_and_act rat_ops approx_fns rat_conv demo_executor_env mp x w = Some (x', if dry then w else Suc w)
    \<and> managed_allowlist x' = Some (if dry then [[2], [1]] else [[2], [9]])"
proof -
  obtain pl where r: "read_pool rat_ops demo_executor_env [2] w = (Inr pl, w)" "ws_tick_current pl = 0" "ws_tick_spacing pl = 64"
    by (rule demo_reads)
  obtain e' where r': "read_position demo_executor_env ''new'' (Suc w) = (Inl e', Suc w)"
    by (rule demo_reads) blast
  define c where "c = fst (xe_ctx demo_executor_env 0)"
  have e: "xe_ctx demo_executor_env v = (c, v)" "me_clock demo_executor_env v = (0, v)" "xe_uuid demo_executor_env v = ([], v)" "me_to_string demo_executor_env [9] = ''new''" "xe_set_order demo_executor_env = rev" "xe_reopen_hook demo_executor_env = None"
    "live_execute demo_executor_env p sid t v = (demo_result p sid, t, Suc v)" "me_during demo_executor_env = id" for p sid t v
    by (simp_all add: demo_executor_env_def c_def)
  have d: "strategy_mode (ex_decision x) = OorRecenter" "auto_execute (ex_config x)" "dry_run (ex_config x) = dry"
    "ex_decision x = ex_decision (demo_executor dry)" "managed_fields x = (Some [[2], [1]], Some 2)"
    using assms(1) by (simp_all add: like_demo_def demo_executor_def set_managed_allowlist_def
        managed_allowlist_state_from_positions_def new_executor_def default_executor_config_def)
  have t: "trim_allowlist 2 [9] [[2], [9]] = [[2], [9]]" by (subst trim_allowlist.simps) simp
  note act = decide_and_act_def build_context_def pool_or_fallback_def retouch_gate_def candle_ticks_def bollinger_band_def
    requires_transaction_def execute_decision_def execute_rebalance_def retouch_put_def rebalance_execute_def
    rebalance_succeeded_def put_checkpoint_def unmonitor_def retouch_forget_def Let_def
  show ?thesis
  proof (cases dry)
    case True
    with r d demo_decision [OF r(2,3) assms(4)] show ?thesis
      by (simp add: act assms e dry_result_def managed_fields_def split: prod.splits)
  next
    case False
    with r d demo_decision [OF r(2,3) assms(4)] r' show ?thesis
      by (simp add: act assms e add_position_def demo_result_def dry_result_def rebalance_params_for_def replace_managed_def
          managed_fields_def t split: prod.splits)
  qed
qed

lemma demo_tick:
  assumes "like_demo dry x" and "ex_monitor x = example_monitor" and "cb_state (ex_breaker x) = Closed"
    and "\<not> manually_tripped (ex_breaker x)" and "ex_skip_evaluation_for x = []"
  shows "\<exists>x'. executor_tick rat_ops approx_fns rat_conv word_ops demo_executor_env x w = Some (x', if dry then w else Suc w)
    \<and> managed_allowlist x' = Some (if dry then [[2], [1]] else [[2], [9]])"
proof -
  obtain m mp where r: "refresh_position rat_ops approx_fns rat_conv word_ops demo_executor_env [1] example_monitor w = Some (Inr (), m, w)"
    "get_monitored [1] m = Some mp" "mp_address mp = [1]" "mp_pool mp = [2]" "\<not> in_range mp"
    using demo_refresh by blast
  obtain b where b: "is_allowed 0 (ex_breaker x) = (True, b)" using assms(3,4) by (simp add: is_allowed_def)
  let ?x = "x\<lparr>ex_breaker := b\<rparr>"
  have l: "like_demo dry (?x\<lparr>ex_monitor := m\<rparr>)" using assms(1) by (simp add: like_demo_def)
  obtain x' where x': "decide_and_act rat_ops approx_fns rat_conv demo_executor_env mp (?x\<lparr>ex_monitor := m\<rparr>) w = Some (x', if dry then w else Suc w)"
    "managed_allowlist x' = Some (if dry then [[2], [1]] else [[2], [9]])"
    using demo_act [OF l r(3-5)] by blast
  have f: "fee_mode (ex_config x) = Heuristic" "managed_allowlist x = Some [[2], [1]]"
    using assms(1) by (simp_all add: like_demo_def managed_fields_def demo_executor_def set_managed_allowlist_def
        managed_allowlist_state_from_positions_def new_executor_def default_executor_config_def)
  have rec: "executor_recoveries rat_ops approx_fns rat_conv demo_executor_env ?x w = (Inr (), Some (?x, w))"
    by (simp add: executor_recoveries_def process_pending_open_recoveries_def recovery_of_def load_or_default_def default_store_def
        demo_executor_env_def)
  have loop: "evaluate_positions rat_ops approx_fns rat_conv word_ops demo_executor_env (managed_allowlist ?x)
      (map mp_address (get_positions (xe_table_order demo_executor_env) (ex_monitor ?x))) ?x w = Some (x', if dry then w else Suc w)"
    using f r x' assms(2,5)
    by (simp add: get_positions_def example_monitor_def example_monitored_def demo_executor_env_def new_monitor_def
        poll_checkpoint_def evaluate_position_def)
  have "xe_instant demo_executor_env w = (0, w)" by (simp add: demo_executor_env_def)
  with b rec loop x'(2) show ?thesis by (simp add: executor_tick_def evaluate_all_def Let_def)
qed

text \<open>The position \<open>[1]\<close> is rebalanced and replaced by \<open>[9]\<close>; the managed set keeps its two members.\<close>

theorem managed_set_bounded_witness:
  "\<exists>x' calls. executor_run rat_ops approx_fns rat_conv word_ops demo_executor_env calls
       (new_executor rat_ops (\<lambda>_. None) example_monitor ((default_executor_config rat_ops)\<lparr>auto_execute := True, dry_run := False\<rparr>), 0) = Some (x', 1)
     \<and> last_allowlist calls = Some [[1], [2], [1]] \<and> managed_allowlist x' = Some [[2], [9]]
     \<and> length [[2], [9]] \<le> card (set [[1], [2], [1] :: pubkey])"
proof -
  let ?new = "new_executor rat_ops (\<lambda>_. None) example_monitor ((default_executor_config rat_ops)\<lparr>auto_execute := True, dry_run := False\<rparr>)"
  let ?dcfg = "(default_decision_config rat_ops)\<lparr>strategy_mode := OorRecenter, range_width_pct := 1 / 1024\<rparr>"
  let ?calls = "[CallDecision ?dcfg, CallAllowlist [[1], [2], [1]], CallStart, CallTick]"
  let ?x = "(demo_executor False)\<lparr>ex_running := True\<rparr>"
  have x: "set_managed_allowlist [[1], [2], [1]] (set_decision_config ?dcfg ?new) = demo_executor False"
    by (simp add: demo_executor_def set_decision_config_def)
  have "like_demo False ?x" "ex_monitor ?x = example_monitor" "cb_state (ex_breaker ?x) = Closed" "\<not> manually_tripped (ex_breaker ?x)"
    "ex_skip_evaluation_for ?x = []"
    by (simp_all add: like_demo_def demo_executor_def set_managed_allowlist_def managed_allowlist_state_from_positions_def
        managed_fields_def new_executor_def new_breaker_def List.insert_def)
  from demo_tick [OF this, of 0] obtain x' where t: "executor_tick rat_ops approx_fns rat_conv word_ops demo_executor_env ?x 0 = Some (x', 1)"
    "managed_allowlist x' = Some [[2], [9]]"
    by auto
  have run: "executor_run rat_ops approx_fns rat_conv word_ops demo_executor_env ?calls (?new, 0) = Some (x', 1)"
    using t(1) by (simp add: executor_run_def x)
  have "order_law (xe_set_order demo_executor_env)" by (simp add: order_law_def demo_executor_env_def)
  from managed_set_bounded [OF this run t(2)] run t(2) show ?thesis
    by (intro exI [of _ x'] exI [of _ ?calls]) (simp add: last_allowlist_def)
qed

end
