(* ===== verification/Executor_Safety.thy ===== *)
theory Executor_Safety
  imports Managed_Set
begin

text \<open>
  What the loop of the strategy executor may not do: without permission to execute, or in a dry run, no
  transaction is sent. The chain is any view of the world that reads, clocks, files and notifications
  leave unchanged.
\<close>

section \<open>Nothing is sent unless the executor may execute\<close>

text \<open>Every operation of the environment but the live ones leaves the chain as it is.\<close>

definition quiet :: "('d, 'w, 'z) executor_env_scheme \<Rightarrow> ('w \<Rightarrow> 'c) \<Rightarrow> bool" where
  "quiet env chain \<longleftrightarrow> (\<forall>k w. chain (snd (me_get_account env k w)) = chain w)
     \<and> (\<forall>w. chain (snd (me_clock env w)) = chain w) \<and> (\<forall>w. chain (snd (me_stamp env w)) = chain w)
     \<and> (\<forall>w. chain (snd (xe_ctx env w)) = chain w) \<and> (\<forall>w. chain (snd (xe_uuid env w)) = chain w)
     \<and> (\<forall>w. chain (snd (xe_instant env w)) = chain w) \<and> (\<forall>s w. chain (snd (xe_save env s w)) = chain w)
     \<and> (\<forall>e p a sid j w. chain (xe_diagnostic env e p a sid j w) = chain w)
     \<and> (\<forall>h a b w. xe_reopen_hook env = Some h \<longrightarrow> chain (h a b w) = chain w)
     \<and> (\<forall>cb a w. me_callback env = Some cb \<longrightarrow> chain (cb a w) = chain w)
     \<and> (\<forall>ns n a w. (me_notifiers env = Some ns \<or> xe_notifiers env = Some ns) \<and> n \<in> set ns \<longrightarrow> chain (snd (n a w)) = chain w)"

lemma quietD:
  assumes "quiet env chain"
  shows "me_get_account env k w = (ra, w') \<Longrightarrow> chain w' = chain w" "me_clock env w = (now, w') \<Longrightarrow> chain w' = chain w"
    "me_stamp env w = (st, w') \<Longrightarrow> chain w' = chain w" "xe_ctx env w = (ctx, w') \<Longrightarrow> chain w' = chain w"
    "xe_uuid env w = (sid, w') \<Longrightarrow> chain w' = chain w" "xe_instant env w = (t, w') \<Longrightarrow> chain w' = chain w"
    "xe_save env s w = (rs, w') \<Longrightarrow> chain w' = chain w" "chain (xe_diagnostic env e p a sd j w) = chain w"
    "xe_reopen_hook env = Some h \<Longrightarrow> chain (h a b w) = chain w" "me_callback env = Some cb \<Longrightarrow> chain (cb al w) = chain w"
    "me_notifiers env = Some ns \<Longrightarrow> n \<in> set ns \<Longrightarrow> chain (snd (n al w)) = chain w"
    "xe_notifiers env = Some ns \<Longrightarrow> n \<in> set ns \<Longrightarrow> chain (snd (n al w)) = chain w"
  using assms unfolding quiet_def by (metis snd_conv)+

lemma notify_all_quiet: "(\<And>n w. n \<in> set ns \<Longrightarrow> chain (snd (n a w)) = chain w) \<Longrightarrow> chain (notify_all ns a w) = chain w"
  by (induction ns arbitrary: w) auto

lemma emit_quiet:
  assumes "quiet env chain"
  shows "chain (emit_alert env a w) = chain w" "chain (emit_executor_alert env a w) = chain w"
    "chain (fold (emit_alert env) as w) = chain w"
proof -
  show e: "chain (emit_alert env a w) = chain w" for a w
    by (auto simp: emit_alert_def quietD [OF assms] notify_all_quiet split: option.splits)
  show "chain (emit_executor_alert env a w) = chain w"
    by (auto simp: emit_executor_alert_def quietD [OF assms] notify_all_quiet split: option.splits)
  show "chain (fold (emit_alert env) as w) = chain w" by (induction "as" arbitrary: w) (simp_all add: e)
qed

lemma read_quiet:
  assumes "quiet env chain"
  shows "read_position env s w = (rp, w') \<Longrightarrow> chain w' = chain w" "read_pool ops env key w = (rq, w') \<Longrightarrow> chain w' = chain w"
  by (auto simp: read_position_def get_position_def read_pool_def get_pool_state_def
      split: option.splits prod.splits sum.splits if_splits dest: quietD(1) [OF assms])

lemma update_alerts_quiet:
  assumes "quiet env chain" and "update_alerts ops env cfg a b c w = (as, w')"
  shows "chain w' = chain w"
proof -
  have p: "chain v' = chain v" if "position_alert env lvl ty msg a pk v = (al, v')" for lvl ty msg pk v al v'
    using that by (auto simp: position_alert_def split: prod.splits dest: quietD(3) [OF assms(1)])
  show ?thesis using assms(2)
    by (auto simp: update_alerts_def Let_def split: prod.splits option.splits if_splits dest!: p)
qed

lemma monitor_quiet:
  assumes "quiet env chain"
  shows "update_position ops fl dc u env a m w = Some (r, m', w') \<Longrightarrow> chain w' = chain w"
    and "add_position ops fl dc env s m w = Some (r, m', w') \<Longrightarrow> chain w' = chain w"
proof -
  show "chain w' = chain w" if "update_position ops fl dc u env a m w = Some (r, m', w')"
    using that
    by (auto simp: update_position_def Let_def bind_eq_Some_conv emit_quiet(3) [OF assms]
        split: prod.splits sum.splits option.splits if_splits
        dest!: read_quiet [OF assms] quietD(2) [OF assms])
       (metis emit_quiet(3) [OF assms] update_alerts_quiet [OF assms] prod.exhaust_sel)
  show "chain w' = chain w" if "add_position ops fl dc env s m w = Some (r, m', w')"
    using that
    by (auto simp: add_position_def Let_def bind_eq_Some_conv split: prod.splits sum.splits dest!: read_quiet [OF assms])
       (metis quietD(2) [OF assms] prod.exhaust_sel)
qed

lemma capture_checkpoint_quiet:
  assumes "quiet env chain" and "capture_position_fee_checkpoint ops fl dc u env a ev src m w = Some (cp, m', w')"
  shows "chain w' = chain w"
  using assms(2)
  by (auto simp: capture_position_fee_checkpoint_def refresh_position_def bind_eq_Some_conv
      split: prod.splits option.splits sum.splits dest!: monitor_quiet(1) [OF assms(1)] read_quiet(2) [OF assms(1)])
     (metis quietD(2) [OF assms(1)] prod.exhaust_sel)

lemma checkpoint_quiet:
  assumes "quiet env chain"
  shows "put_checkpoint env cp x w = (x', w') \<Longrightarrow> chain w' = chain w \<and> ex_config x' = ex_config x"
    and "poll_checkpoint ops fl dc u env a x w = Some (x', w') \<Longrightarrow> chain w' = chain w \<and> ex_config x' = ex_config x"
proof -
  show p: "chain w' = chain w \<and> ex_config x' = ex_config x" if "put_checkpoint env cp x w = (x', w')" for cp x w x' w'
    using that by (auto simp: put_checkpoint_def split: prod.splits dest: quietD(4) [OF assms])
  show "chain w' = chain w \<and> ex_config x' = ex_config x" if "poll_checkpoint ops fl dc u env a x w = Some (x', w')"
    using that by (auto simp: poll_checkpoint_def split: if_splits option.splits prod.splits
        dest!: capture_checkpoint_quiet [OF assms] p)
qed

lemma build_context_quiet:
  assumes "quiet env chain" and "build_context ops fl dc env mp x w = Some (ctx, x', w')"
  shows "chain w' = chain w \<and> ex_config x' = ex_config x"
proof -
  have "chain (snd (pool_or_fallback ops env key v)) = chain v" for key v
    by (auto simp: pool_or_fallback_def split: prod.splits sum.splits dest: read_quiet(2) [OF assms(1)])
  moreover have "chain (snd (me_clock env v)) = chain v" for v using quietD(2) [OF assms(1)] by (cases "me_clock env v") auto
  ultimately show ?thesis using assms(2) by (elim build_context_parts) auto
qed

text \<open>A dry run of a decision.\<close>

lemma execute_decision_dry:
  assumes "quiet env chain" and "dry_run (ex_config x)" and "execute_decision ops fl dc env mp d pl x w = Some (x', w')"
  shows "chain w' = chain w \<and> ex_config x' = ex_config x"
proof (cases d)
  case (Rebalance l u)
  let ?p = "rebalance_params_for (retouch_put (mp_address mp) False x) mp pl l u"
  have c: "ex_config (retouch_put a b y) = ex_config y" "ex_config (retouch_forget a y) = ex_config y" "ex_config (unmonitor a y) = ex_config y"
    for a b y by (simp_all add: retouch_put_def retouch_forget_def unmonitor_def)
  obtain sid w1 where u: "xe_uuid env w = (sid, w1)" by (cases "xe_uuid env w")
  have "rebalance_succeeded ops fl dc env ?p mp pl (dry_result ?p sid) (retouch_put (mp_address mp) False x) w1 = Some (x', w')"
    using assms(2,3) Rebalance
    by (simp add: execute_decision_def execute_rebalance_def rebalance_execute_def Let_def u c dry_result_def)
  then have "chain w' = chain w1 \<and> ex_config x' = ex_config x"
    by (auto simp: rebalance_succeeded_def dry_result_def c split: prod.splits
        dest!: quietD(2) [OF assms(1)] checkpoint_quiet(1) [OF assms(1)])
  with quietD(5) [OF assms(1) u] show ?thesis by simp
qed (use assms(2,3) in \<open>auto simp: execute_decision_def execute_close_def execute_decrease_def execute_collect_def Let_def
      execute_full_close_only_def execute_partial_decrease_def execute_collect_fees_only_def unmonitor_def
      split: prod.splits option.splits if_splits dest!: quietD(2,4) [OF assms(1)]\<close>)

definition may_execute :: "'d strategy_executor \<Rightarrow> bool" where
  "may_execute x \<longleftrightarrow> auto_execute (ex_config x) \<and> \<not> dry_run (ex_config x)"

lemma may_execute_cong: "ex_config x = ex_config y \<Longrightarrow> may_execute x = may_execute y"
  by (simp add: may_execute_def)

lemma decide_and_act_quiet:
  assumes "quiet env chain" and "\<not> may_execute x" and "decide_and_act ops fl dc env mp x w = Some (x', w')"
  shows "chain w' = chain w \<and> ex_config x' = ex_config x"
proof -
  obtain ctx x1 w1 d where b: "build_context ops fl dc env mp x w = Some (ctx, x1, w1)" "decide ops fl (ex_decision x1) ctx = Some d"
    using assms(3) by (auto simp: decide_and_act_def bind_eq_Some_conv)
  note q = build_context_quiet [OF assms(1) b(1)]
  have e: "chain v' = chain v \<and> ex_config y' = ex_config x"
    if "execute_decision ops fl dc env mp d pl y v = Some (y', v')" "ex_config y = ex_config x" "auto_execute (ex_config x)" for pl y v y' v'
    using execute_decision_dry [OF assms(1) _ that(1)] that(2,3) assms(2) by (simp add: may_execute_def)
  show ?thesis
    using assms(3) b q by (auto simp: decide_and_act_def Let_def split: prod.splits if_splits dest!: e quietD(2) [OF assms(1)])
qed

lemma evaluate_position_quiet:
  assumes "quiet env chain" and "\<not> may_execute x" and "evaluate_position ops fl dc u env a x w = Some (x', w')"
  shows "chain w' = chain w \<and> ex_config x' = ex_config x"
proof -
  have d: "chain v' = chain v \<and> ex_config y' = ex_config x"
    if "decide_and_act ops fl dc env mp (x\<lparr>ex_monitor := m\<rparr>) v = Some (y', v')" for mp m v y' v'
    using decide_and_act_quiet [OF assms(1) _ that] assms(2) may_execute_cong [of "x\<lparr>ex_monitor := m\<rparr>" x] by simp
  show ?thesis using assms(3)
    by (auto simp: evaluate_position_def refresh_position_def split: option.splits prod.splits sum.splits
        dest!: d monitor_quiet(1) [OF assms(1)])
qed

lemma evaluate_positions_quiet:
  assumes "quiet env chain" and "\<not> may_execute x" and "evaluate_positions ops fl dc u env allow as x w = Some (x', w')"
  shows "chain w' = chain w \<and> ex_config x' = ex_config x"
  using assms(2,3)
proof (induction "as" arbitrary: x w)
  case (Cons a "as")
  show ?case
  proof (cases "(case allow of Some s \<Rightarrow> a \<notin> set s | None \<Rightarrow> False) \<or> a \<in> set (ex_skip_evaluation_for x)")
    case False
    with Cons.prems(2) obtain x1 w1 x2 w2 where
      s: "poll_checkpoint ops fl dc u env a x w = Some (x1, w1)" "evaluate_position ops fl dc u env a x1 w1 = Some (x2, w2)"
        "evaluate_positions ops fl dc u env allow as x2 w2 = Some (x', w')"
      by (auto simp: bind_eq_Some_conv simp del: de_Morgan_disj)
    note p = checkpoint_quiet(2) [OF assms(1) s(1)]
    then have "\<not> may_execute x1" using Cons.prems(1) may_execute_cong by metis
    note q = evaluate_position_quiet [OF assms(1) this s(2)]
    have "\<not> may_execute x2" using p q Cons.prems(1) may_execute_cong by metis
    from Cons.IH [OF this s(3)] p q show ?thesis by simp
  qed (use Cons in simp)
qed simp

lemma evaluate_all_quiet:
  assumes "quiet env chain" and "\<not> may_execute x" and "evaluate_all ops fl dc u env x w = Some (r, x', w')"
  shows "chain w' = chain w \<and> ex_config x' = ex_config x"
proof -
  have "executor_recoveries ops fl dc env x w = (Inr (), Some (x, w))"
    using assms(2) by (auto simp: executor_recoveries_def process_pending_open_recoveries_def may_execute_def)
  with assms(3) show ?thesis by (auto simp: evaluate_all_def dest!: evaluate_positions_quiet [OF assms(1,2)])
qed

lemma update_all_quiet:
  assumes "quiet env chain" and "update_all ops fl dc u env it m w = Some (r, m', w')"
  shows "chain w' = chain w"
proof -
  have "chain w2 = chain w1" if "update_loop ops fl dc u env as m1 w1 = Some (m2, w2)" for "as" m1 w1 m2 w2
    using that by (induction "as" arbitrary: m1 w1) (auto split: option.splits prod.splits dest!: monitor_quiet(1) [OF assms(1)])
  with assms(2) show ?thesis by (auto simp: update_all_def)
qed

lemma executor_tick_quiet:
  assumes "quiet env chain" and "\<not> may_execute x" and "executor_tick ops fl dc u env x w = Some (x', w')"
  shows "chain w' = chain w \<and> ex_config x' = ex_config x"
proof -
  have e: "chain v' = chain v \<and> ex_config y' = ex_config x"
    if "evaluate_all ops fl dc u env (x\<lparr>ex_breaker := b\<rparr>) v = Some (r, y', v')" for b v r y' v'
    using evaluate_all_quiet [OF assms(1) _ that] assms(2) by (simp add: may_execute_def)
  show ?thesis using assms(3)
    by (auto simp: executor_tick_def Let_def split: prod.splits if_splits option.splits sum.splits
        dest!: e quietD(6) [OF assms(1)])
qed

lemma executor_step_quiet:
  assumes "quiet env chain" and "\<not> may_execute x" and "executor_step ops fl dc u env c (x, w) = Some (x', w')"
  shows "chain w' = chain w \<and> auto_execute (ex_config x') = auto_execute (ex_config x)
    \<and> (c \<noteq> CallDryRun False \<longrightarrow> dry_run (ex_config x) \<longrightarrow> dry_run (ex_config x'))"
  using assms(2,3)
  by (cases c) (auto simp: may_execute_def set_managed_allowlist_def managed_allowlist_state_from_positions_def Let_def
      set_skip_evaluation_for_addresses_def set_decision_config_def set_dry_run_def set_pending_open_recovery_path_def
      set_optimization_run_id_def unmonitor_def split: if_splits
      dest!: executor_tick_quiet [OF assms(1,2)] monitor_quiet(2) [OF assms(1)] update_all_quiet [OF assms(1)])

end
