(* ===== verification/Operator_Calls.thy ===== *)
theory Operator_Calls
  imports Executor_Safety
begin

text \<open>
  The calls by which an operator makes the strategy executor send transactions: \<^verbatim>\<open>execute_partial_decrease_liquidity\<close>,
  \<^verbatim>\<open>execute_swap_exact_in\<close>, \<^verbatim>\<open>execute_open_position\<close>, \<^verbatim>\<open>execute_collect_fees_only\<close>, \<^verbatim>\<open>execute_full_close_only\<close>
  and the three of the bulk close, of \<^verbatim>\<open>execution/src/strategy/executor.rs\<close>, with the guards that \<^verbatim>\<open>strategy/rebalance.rs\<close>
  puts before them. They do not ask for \<^verbatim>\<open>auto_execute\<close>. What happens behind the guards is an operation of
  the environment. The session and the details that some of them pass on only go into rows of the ledger.
  The result \<open>None\<close> is a panic.
\<close>

record opened_position =
  op_position :: pubkey
  op_tick_lower :: int
  op_tick_upper :: int

record ('d, 'w) operator_env = "('d, 'w) executor_env" +
  live_swap :: "pubkey \<Rightarrow> pubkey \<Rightarrow> u64 \<Rightarrow> u16 \<Rightarrow> pubkey option \<Rightarrow> string option \<Rightarrow> 'w \<Rightarrow> (string + string) \<times> 'w"
  live_open :: "pubkey \<Rightarrow> int \<Rightarrow> int \<Rightarrow> u64 \<Rightarrow> u64 \<Rightarrow> u16 \<Rightarrow> string option \<Rightarrow> json option \<Rightarrow> 'w \<Rightarrow> (string + opened_position) \<times> 'w"
  live_open_full_range :: "pubkey \<Rightarrow> u64 \<Rightarrow> u64 \<Rightarrow> u16 \<Rightarrow> string option \<Rightarrow> json option \<Rightarrow> 'w \<Rightarrow> (string + opened_position) \<times> 'w"
  live_bulk_close :: "pubkey \<Rightarrow> pubkey \<Rightarrow> string option \<Rightarrow> json option \<Rightarrow> 'w \<Rightarrow> (string + unit) \<times> 'w"
  live_bulk_submit :: "pubkey \<Rightarrow> pubkey \<Rightarrow> json option \<Rightarrow> u16 option \<Rightarrow> 'w \<Rightarrow> (string + string) \<times> 'w"
  confirm_bulk_close :: "string \<Rightarrow> pubkey \<Rightarrow> pubkey \<Rightarrow> string option \<Rightarrow> json option \<Rightarrow> 'w \<Rightarrow> (string + unit) \<times> 'w"
  full_range_ticks :: "u16 \<Rightarrow> int \<times> int"
  oe_pool_error :: "pool_error \<Rightarrow> string"
  default_signature :: string

section \<open>Guards\<close>

definition execute_swap_exact_in ::
    "('d, 'w, 'z) operator_env_scheme \<Rightarrow> bool \<Rightarrow> pubkey \<Rightarrow> pubkey \<Rightarrow> u64 \<Rightarrow> u16 \<Rightarrow> pubkey option \<Rightarrow> string option \<Rightarrow> 'w
      \<Rightarrow> (string + string option) \<times> 'w" where
  "execute_swap_exact_in env dry p token amount_in slippage pos sid w =
     (if dry then (Inr None, w) else apfst (map_sum id Some) (live_swap env p token amount_in slippage pos sid w))"

text \<open>The address of the position that the pool and the ticks determine.\<close>

definition ascii :: "string \<Rightarrow> u8 list" where
  "ascii s = map (\<lambda>c. word_of_nat (of_char c)) s"

definition derive_whirlpool_position_address :: "tick_env \<Rightarrow> pubkey \<Rightarrow> int \<Rightarrow> int \<Rightarrow> pubkey option" where
  "derive_whirlpool_position_address env p l u =
     map_option (\<lambda>program_id.
       (let position_mint = find_program_address env
              [ascii ''position_mint'', p, to_le 4 (unat (word_of_int l :: u32)), to_le 4 (unat (word_of_int u :: u32))] program_id
        in find_program_address env [ascii ''position'', position_mint] program_id))
       (whirlpool_program_id env)"

definition dry_open :: "('d, 'w, 'z) operator_env_scheme \<Rightarrow> pubkey \<Rightarrow> int \<Rightarrow> int \<Rightarrow> 'w \<Rightarrow> ((string + opened_position) \<times> 'w) option" where
  "dry_open env p l u w =
     map_option (\<lambda>a. (Inr \<lparr>op_position = a, op_tick_lower = l, op_tick_upper = u\<rparr>, w))
       (derive_whirlpool_position_address (ce_ticks env w) p l u)"

definition guarded_open_position ::
    "'d decimal_arith \<Rightarrow> ('d, 'w, 'z) operator_env_scheme \<Rightarrow> bool \<Rightarrow> pubkey \<Rightarrow> int \<Rightarrow> int \<Rightarrow> u64 \<Rightarrow> u64 \<Rightarrow> u16 \<Rightarrow> bool \<Rightarrow> string option
      \<Rightarrow> json option \<Rightarrow> 'w \<Rightarrow> ((string + opened_position) \<times> 'w) option" where
  "guarded_open_position ops env dry p l u amount_a amount_b slippage full_range sid details w =
     (if dry then
        (if full_range then
           (case read_pool ops env p w of
              (Inl e, w) \<Rightarrow> Some (Inl (oe_pool_error env e), w)
            | (Inr pl, w) \<Rightarrow> (let (l, u) = full_range_ticks env (ws_tick_spacing pl) in dry_open env p l u w))
         else dry_open env p l u w)
      else if full_range then Some (live_open_full_range env p amount_a amount_b slippage sid details w)
      else Some (live_open env p l u amount_a amount_b slippage sid details w))"

definition guarded_bulk_close ::
    "('d, 'w, 'z) operator_env_scheme \<Rightarrow> bool \<Rightarrow> pubkey \<Rightarrow> pubkey \<Rightarrow> string option \<Rightarrow> json option \<Rightarrow> 'w \<Rightarrow> (string + unit) \<times> 'w" where
  "guarded_bulk_close env dry a p sid details w = (if dry then (Inr (), w) else live_bulk_close env a p sid details w)"

definition guarded_bulk_submit ::
    "('d, 'w, 'z) operator_env_scheme \<Rightarrow> bool \<Rightarrow> pubkey \<Rightarrow> pubkey \<Rightarrow> json option \<Rightarrow> u16 option \<Rightarrow> 'w \<Rightarrow> (string + string) \<times> 'w" where
  "guarded_bulk_submit env dry a p details slippage w =
     (if dry then (Inr (default_signature env), w) else live_bulk_submit env a p details slippage w)"

section \<open>The calls\<close>

text \<open>A checkpoint of the fees is taken when the fees are those of the chain; the flag tells whether there was one.\<close>

definition truth_checkpoint ::
    "'d decimal_arith \<Rightarrow> float_fns \<Rightarrow> 'd decimal_conv \<Rightarrow> 'u u256_ops \<Rightarrow> ('d, 'w, 'z) executor_env_scheme \<Rightarrow> pubkey \<Rightarrow> string
      \<Rightarrow> 'd strategy_executor \<Rightarrow> 'w \<Rightarrow> (bool \<times> 'd strategy_executor \<times> 'w) option" where
  "truth_checkpoint ops fl dc u env a event x w =
     (if fee_mode (ex_config x) = PositionTruth
      then (case capture_position_fee_checkpoint ops fl dc u env a event Onchain (ex_monitor x) w of
              None \<Rightarrow> None
            | Some (None, m, w) \<Rightarrow> Some (False, x\<lparr>ex_monitor := m\<rparr>, w)
            | Some (Some cp, m, w) \<Rightarrow> Some (True, put_checkpoint env cp (x\<lparr>ex_monitor := m\<rparr>) w))
      else Some (False, x, w))"

text \<open>An operation between two checkpoints; after an error there is no second one.\<close>

definition between_checkpoints ::
    "'d decimal_arith \<Rightarrow> float_fns \<Rightarrow> 'd decimal_conv \<Rightarrow> 'u u256_ops \<Rightarrow> ('d, 'w, 'z) executor_env_scheme \<Rightarrow> pubkey \<Rightarrow> string
      \<Rightarrow> ('w \<Rightarrow> (string + unit) \<times> 'w) \<Rightarrow> 'd strategy_executor \<Rightarrow> 'w \<Rightarrow> ((string + unit) \<times> 'd strategy_executor \<times> 'w) option" where
  "between_checkpoints ops fl dc u env a event f x w = do {
     (_, x, w) \<leftarrow> truth_checkpoint ops fl dc u env a (event @ ''_pre'') x w;
     (case f w of
        (Inl e, w) \<Rightarrow> Some (Inl e, x, w)
      | (Inr _, w) \<Rightarrow>
          map_option (\<lambda>(_, x, w). (Inr (), x, w)) (truth_checkpoint ops fl dc u env a (event @ ''_post'') x w)) }"

definition execute_partial_decrease_liquidity where
  "execute_partial_decrease_liquidity ops fl dc u env a p amount x w =
     between_checkpoints ops fl dc u env a ''decrease_liquidity''
       (execute_partial_decrease env (dry_run (ex_config x)) a p amount) x w"

definition operator_collect_fees_only where
  "operator_collect_fees_only ops fl dc u env a p x w =
     between_checkpoints ops fl dc u env a ''collect'' (execute_collect_fees_only env (dry_run (ex_config x)) a p) x w"

definition operator_full_close_only where
  "operator_full_close_only ops fl dc u env a p x w =
     between_checkpoints ops fl dc u env a ''close'' (execute_full_close_only env (dry_run (ex_config x)) a p) x w"

definition open_missing_checkpoint ::
    "('d, 'w, 'z) executor_env_scheme \<Rightarrow> datetime \<Rightarrow> pubkey \<Rightarrow> opened_position \<Rightarrow> position_fee_checkpoint" where
  "open_missing_checkpoint env now p opened =
     \<lparr>cp_ts_utc = ce_rfc3339 env now, cp_position = me_to_string env (op_position opened), cp_pool = me_to_string env p,
      cp_event_type = ''open_post_missing'', cp_tick_lower = op_tick_lower opened, cp_tick_upper = op_tick_upper opened,
      cp_tick_current = None, cp_liquidity = ''0'', cp_fees_owed_a = 0, cp_fees_owed_b = 0,
      fee_growth_checkpoint_a = None, fee_growth_checkpoint_b = None,
      cp_fee_growth_global_a = None, cp_fee_growth_global_b = None,
      fee_growth_outside_lower_a = None, fee_growth_outside_lower_b = None,
      fee_growth_outside_upper_a = None, fee_growth_outside_upper_b = None,
      cp_fee_growth_inside_a = None, cp_fee_growth_inside_b = None,
      sqrt_price_x64 = None, collected_a = 0, collected_b = 0, cp_source = Missing\<rparr>"

definition execute_open_position ::
    "'d decimal_arith \<Rightarrow> float_fns \<Rightarrow> 'd decimal_conv \<Rightarrow> 'u u256_ops \<Rightarrow> ('d, 'w, 'z) operator_env_scheme \<Rightarrow> pubkey \<Rightarrow> int \<Rightarrow> int
      \<Rightarrow> u64 \<Rightarrow> u64 \<Rightarrow> u16 \<Rightarrow> bool \<Rightarrow> string option \<Rightarrow> json option \<Rightarrow> 'd strategy_executor \<Rightarrow> 'w
      \<Rightarrow> ((string + pubkey) \<times> 'd strategy_executor \<times> 'w) option" where
  "execute_open_position ops fl dc u env p l h amount_a amount_b slippage full_range sid details x w =
     (case guarded_open_position ops env (dry_run (ex_config x)) p l h amount_a amount_b slippage full_range sid details w of
        None \<Rightarrow> None
      | Some (Inl e, w) \<Rightarrow> Some (Inl e, x, w)
      | Some (Inr opened, w) \<Rightarrow> do {
          (found, x, w) \<leftarrow> truth_checkpoint ops fl dc u env (op_position opened) ''open_post'' x w;
          (let (x, w) = (if fee_mode (ex_config x) = PositionTruth \<and> \<not> found
                         then (let (now, w) = me_clock env w in put_checkpoint env (open_missing_checkpoint env now p opened) x w)
                         else (x, w))
           in Some (Inr (op_position opened), x, w)) })"

text \<open>Everything that happens to an executor: ticks and settings, and the calls of an operator.\<close>

datatype 'd operator_call =
    LoopCall "'d executor_call"
  | OpDecrease pubkey pubkey u128
  | OpSwap pubkey pubkey u64 u16 "pubkey option" "string option"
  | OpOpen pubkey int int u64 u64 u16 bool "string option" "json option"
  | OpCollect pubkey pubkey
  | OpClose pubkey pubkey
  | OpBulkClose pubkey pubkey "string option" "json option"
  | OpBulkSubmit pubkey pubkey "json option" "u16 option"
  | OpBulkConfirm string pubkey pubkey "string option" "json option"

fun operator_step ::
    "'d decimal_arith \<Rightarrow> float_fns \<Rightarrow> 'd decimal_conv \<Rightarrow> 'u u256_ops \<Rightarrow> ('d, 'w, 'z) operator_env_scheme \<Rightarrow> 'd operator_call
      \<Rightarrow> 'd strategy_executor \<times> 'w \<Rightarrow> ('d strategy_executor \<times> 'w) option" where
  "operator_step ops fl dc u env (LoopCall c) xw = executor_step ops fl dc u env c xw"
| "operator_step ops fl dc u env (OpDecrease a p n) (x, w) =
     map_option snd (execute_partial_decrease_liquidity ops fl dc u env a p n x w)"
| "operator_step ops fl dc u env (OpSwap p token n slippage pos sid) (x, w) =
     Some (x, snd (execute_swap_exact_in env (dry_run (ex_config x)) p token n slippage pos sid w))"
| "operator_step ops fl dc u env (OpOpen p l h a b slippage full sid details) (x, w) =
     map_option snd (execute_open_position ops fl dc u env p l h a b slippage full sid details x w)"
| "operator_step ops fl dc u env (OpCollect a p) (x, w) = map_option snd (operator_collect_fees_only ops fl dc u env a p x w)"
| "operator_step ops fl dc u env (OpClose a p) (x, w) = map_option snd (operator_full_close_only ops fl dc u env a p x w)"
| "operator_step ops fl dc u env (OpBulkClose a p sid details) (x, w) =
     Some (x, snd (guarded_bulk_close env (dry_run (ex_config x)) a p sid details w))"
| "operator_step ops fl dc u env (OpBulkSubmit a p details slippage) (x, w) =
     Some (x, snd (guarded_bulk_submit env (dry_run (ex_config x)) a p details slippage w))"
| "operator_step ops fl dc u env (OpBulkConfirm sig a p sid details) (x, w) =
     Some (x, snd (confirm_bulk_close env sig a p sid details w))"

definition operator_run where
  "operator_run ops fl dc u env calls xw = fold_option (operator_step ops fl dc u env) calls xw"

section \<open>Nothing is sent in a dry run\<close>

text \<open>Waiting for the confirmation of a bulk close only reads the chain.\<close>

definition operator_quiet :: "('d, 'w, 'z) operator_env_scheme \<Rightarrow> ('w \<Rightarrow> 'c) \<Rightarrow> bool" where
  "operator_quiet env chain \<longleftrightarrow>
     quiet env chain \<and> (\<forall>sig a p sid details w. chain (snd (confirm_bulk_close env sig a p sid details w)) = chain w)"

lemma truth_checkpoint_quiet:
  assumes "quiet env chain" and "truth_checkpoint ops fl dc u env a event x w = Some (b, x', w')"
  shows "chain w' = chain w \<and> ex_config x' = ex_config x"
  using assms(2)
  by (auto simp: truth_checkpoint_def split: if_splits option.splits prod.splits
      dest!: capture_checkpoint_quiet [OF assms(1)] checkpoint_quiet(1) [OF assms(1)])

lemma between_checkpoints_quiet:
  assumes "quiet env chain" and "\<And>v. chain (snd (f v)) = chain v" and "between_checkpoints ops fl dc u env a event f x w = Some (r, x', w')"
  shows "chain w' = chain w \<and> ex_config x' = ex_config x"
proof -
  obtain b x1 w1 where pre: "truth_checkpoint ops fl dc u env a (event @ ''_pre'') x w = Some (b, x1, w1)"
    using assms(3) by (auto simp: between_checkpoints_def bind_eq_Some_conv)
  obtain rf w2 where f: "f w1 = (rf, w2)" by fastforce
  have "chain w2 = chain w1" using assms(2) [of w1] f by simp
  with truth_checkpoint_quiet [OF assms(1) pre] assms(3) show ?thesis
    by (auto simp: between_checkpoints_def pre f split: sum.splits dest!: truth_checkpoint_quiet [OF assms(1)])
qed

lemma open_position_quiet:
  assumes "quiet env chain" and "dry_run (ex_config x)"
    and "execute_open_position ops fl dc u env p l h a b slippage full sid details x w = Some (r, x', w')"
  shows "chain w' = chain w \<and> ex_config x' = ex_config x"
proof -
  have g: "chain v' = chain v"
    if "guarded_open_position ops env True p l h a b slippage full sid details v = Some (ro, v')" for v ro v'
    using that by (auto simp: guarded_open_position_def dry_open_def split: if_splits prod.splits sum.splits
        dest!: read_quiet(2) [OF assms(1)])
  show ?thesis using assms(2,3)
    by (auto simp: execute_open_position_def bind_eq_Some_conv Let_def split: option.splits prod.splits sum.splits if_splits
        dest!: g truth_checkpoint_quiet [OF assms(1)] checkpoint_quiet(1) [OF assms(1)] quietD(2) [OF assms(1)])
qed

text \<open>Behind its guard nothing happens in a dry run.\<close>

lemma dry_guards [simp]:
  "snd (execute_partial_decrease env True a p n w) = w" "snd (execute_collect_fees_only env True a p w) = w"
  "snd (execute_full_close_only env True a p w) = w" "snd (execute_swap_exact_in env' True p t amount slippage pos sid w) = w"
  "snd (guarded_bulk_close env' True a p sid details w) = w" "snd (guarded_bulk_submit env' True a p details sl w) = w"
  by (simp_all add: execute_partial_decrease_def execute_collect_fees_only_def execute_full_close_only_def
      execute_swap_exact_in_def guarded_bulk_close_def guarded_bulk_submit_def)

lemma operator_step_dry:
  assumes "operator_quiet env chain" and "dry_run (ex_config x)" and "operator_step ops fl dc u env c (x, w) = Some (x', w')"
    and "\<forall>d. c \<noteq> LoopCall d"
  shows "chain w' = chain w \<and> ex_config x' = ex_config x"
proof -
  have Q: "quiet env chain" using assms(1) by (simp add: operator_quiet_def)
  have between: "chain w' = chain w \<and> ex_config x' = ex_config x"
    if "map_option snd (between_checkpoints ops fl dc u env a event f x w) = Some (x', w')" "\<And>v. snd (f v) = v" for a event f
  proof -
    from that(1) obtain r where "between_checkpoints ops fl dc u env a event f x w = Some (r, x', w')" by auto
    then show ?thesis using that(2) by (intro between_checkpoints_quiet [OF Q, of f]) simp_all
  qed
  show ?thesis
  proof (cases c)
    case (OpDecrease a p n)
    with assms(2,3) show ?thesis by (intro between) (auto simp: execute_partial_decrease_liquidity_def)
  next
    case (OpCollect a p)
    with assms(2,3) show ?thesis by (intro between) (auto simp: operator_collect_fees_only_def)
  next
    case (OpClose a p)
    with assms(2,3) show ?thesis by (intro between) (auto simp: operator_full_close_only_def)
  next
    case (OpOpen p l h a b slippage full sid details)
    with assms(3) obtain r where "execute_open_position ops fl dc u env p l h a b slippage full sid details x w = Some (r, x', w')" by auto
    then show ?thesis by (rule open_position_quiet [OF Q assms(2)])
  qed (use assms in \<open>auto simp: operator_quiet_def\<close>)
qed

text \<open>C17. Safety of the dry run and of the manual mode. An executor in dry-run mode that is not taken out of it
  leaves the chain exactly as it is, whatever ticks, settings and calls of an operator follow; no recovery,
  rebalance, opening, swap, close, decrease or collection is sent. An executor that may not execute on its own
  leaves the chain as it is as well, as long as no operator asks for a transaction.
  The environment is only assumed not to change the chain when it is read, timed or notified.\<close>

theorem no_transaction_unless_live:
  assumes "operator_quiet env chain"
    and "dry_run (ex_config x) \<and> LoopCall (CallDryRun False) \<notin> set calls
      \<or> \<not> auto_execute (ex_config x) \<and> (\<forall>c \<in> set calls. \<exists>d. c = LoopCall d)"
    and "operator_run ops fl dc u env calls (x, w) = Some (x', w')"
  shows "chain w' = chain w"
  using assms(2,3)
proof (induction calls arbitrary: x w)
  case (Cons c calls)
  then obtain x1 w1 where s: "operator_step ops fl dc u env c (x, w) = Some (x1, w1)" "operator_run ops fl dc u env calls (x1, w1) = Some (x', w')"
    by (auto simp: operator_run_def bind_eq_Some_conv)
  have q: "quiet env chain" and n: "\<not> may_execute x" using assms(1) Cons.prems(1) by (auto simp: operator_quiet_def may_execute_def)
  have "chain w1 = chain w \<and> (dry_run (ex_config x1) \<and> LoopCall (CallDryRun False) \<notin> set calls
      \<or> \<not> auto_execute (ex_config x1) \<and> (\<forall>c \<in> set calls. \<exists>d. c = LoopCall d))"
  proof (cases "\<exists>d. c = LoopCall d")
    case True
    then obtain d where d: "c = LoopCall d" ..
    with s(1) have "executor_step ops fl dc u env d (x, w) = Some (x1, w1)" by simp
    from executor_step_quiet [OF q n this] Cons.prems(1) d show ?thesis by auto
  next
    case False
    with operator_step_dry [OF assms(1) _ s(1)] Cons.prems(1) show ?thesis by auto
  qed
  with Cons.IH [OF _ s(2)] show ?case by auto
qed (simp add: operator_run_def)

text \<open>A small world that counts transactions: in a dry run an opening, a swap and two closes send nothing.\<close>

definition demo_operator_env :: "(rat, nat) operator_env" where
  "demo_operator_env = executor_env.extend (demo_executor_env\<lparr>ce_ticks := (\<lambda>_. \<lparr>whirlpool_program_id = Some [3],
       find_program_address = (\<lambda>_ _. [7]), get_account = (\<lambda>_. Inl []), tick_array_from_slice = (\<lambda>_. None)\<rparr>)\<rparr>)
     \<lparr>live_swap = (\<lambda>_ _ _ _ _ _ w. (Inr [], Suc w)), live_open = (\<lambda>_ _ _ _ _ _ _ _ w. (Inl [], Suc w)),
      live_open_full_range = (\<lambda>_ _ _ _ _ _ w. (Inl [], Suc w)), live_bulk_close = (\<lambda>_ _ _ _ w. (Inr (), Suc w)),
      live_bulk_submit = (\<lambda>_ _ _ _ w. (Inr [], Suc w)), confirm_bulk_close = (\<lambda>_ _ _ _ _ w. (Inr (), w)),
      full_range_ticks = (\<lambda>_. (0, 1)), oe_pool_error = (\<lambda>_. []), default_signature = []\<rparr>"

lemma demo_operator_quiet: "operator_quiet demo_operator_env (\<lambda>w. w)"
  by (simp add: operator_quiet_def quiet_def demo_operator_env_def demo_executor_env_def executor_env.extend_def)

definition demo_calls :: "rat operator_call list" where
  "demo_calls = [OpOpen [2] (- 10) 10 5 5 100 False None None, OpSwap [2] [4] 9 100 None None, OpClose [1] [2],
     OpBulkSubmit [1] [2] None None]"

lemma demo_operator_run: "operator_run rat_ops approx_fns rat_conv word_ops demo_operator_env demo_calls (demo_executor True, 5) \<noteq> None"
proof -
  have c: "dry_run (ex_config (demo_executor True))" "fee_mode (ex_config (demo_executor True)) = Heuristic"
    by (simp_all add: demo_executor_def set_managed_allowlist_def managed_allowlist_state_from_positions_def new_executor_def
        default_executor_config_def)
  have "whirlpool_program_id (ce_ticks demo_operator_env 5) = Some [3]"
    by (simp add: demo_operator_env_def executor_env.extend_def)
  with c show ?thesis
    by (simp add: operator_run_def demo_calls_def execute_open_position_def guarded_open_position_def dry_open_def
        derive_whirlpool_position_address_def truth_checkpoint_def operator_full_close_only_def between_checkpoints_def
        execute_full_close_only_def)
qed

theorem no_transaction_unless_live_witness:
  "\<exists>x' w'. operator_run rat_ops approx_fns rat_conv word_ops demo_operator_env demo_calls (demo_executor True, 5) = Some (x', w') \<and> w' = 5"
proof -
  obtain x' w' where run: "operator_run rat_ops approx_fns rat_conv word_ops demo_operator_env demo_calls (demo_executor True, 5) = Some (x', w')"
    using demo_operator_run by auto
  have "dry_run (ex_config (demo_executor True))"
    by (simp add: demo_executor_def set_managed_allowlist_def managed_allowlist_state_from_positions_def new_executor_def)
  then have "dry_run (ex_config (demo_executor True)) \<and> LoopCall (CallDryRun False) \<notin> set demo_calls
      \<or> \<not> auto_execute (ex_config (demo_executor True)) \<and> (\<forall>c \<in> set demo_calls. \<exists>d. c = LoopCall d)"
    by (simp add: demo_calls_def)
  from no_transaction_unless_live [OF demo_operator_quiet this run] run show ?thesis by blast
qed

end
