(* ===== verification/Executor_Outcomes.thy ===== *)
theory Executor_Outcomes
  imports Executor_Safety
begin

text \<open>
  Outcomes of decisions: an incomplete rebalance is queued for recovery, a rebalance is followed by the
  waiting time of the strategy, and three behaviours of the code that its documentation does not
  lead one to expect.
\<close>

section \<open>Settings\<close>

text \<open>What evaluations never change.\<close>

definition settings :: "'d strategy_executor \<Rightarrow> 'd executor_config \<times> 'd circuit_breaker \<times> 'd decision_config \<times> pubkey list \<times> bool \<times> string option" where
  "settings x = (ex_config x, ex_breaker x, ex_decision x, ex_skip_evaluation_for x, ex_running x, ex_pending_path x)"

lemma settings_updates [simp]:
  "settings (x\<lparr>ex_monitor := m\<rparr>) = settings x" "settings (x\<lparr>ex_lifecycle := t\<rparr>) = settings x"
  "settings (x\<lparr>ex_price_samples := s\<rparr>) = settings x" "settings (x\<lparr>ex_last_eval := e\<rparr>) = settings x"
  "settings (unmonitor a x) = settings x" "settings (retouch_put a b x) = settings x" "settings (retouch_forget a x) = settings x"
  "settings (replace_managed order old np x) = settings x"
  by (simp_all add: settings_def unmonitor_def retouch_put_def retouch_forget_def replace_managed_def Let_def split: option.splits)

lemma settings_helpers:
  "put_checkpoint env cp x w = (x', w') \<Longrightarrow> settings x' = settings x" "retouch_gate mp x = (b, x') \<Longrightarrow> settings x' = settings x"
  by (auto simp: put_checkpoint_def retouch_gate_def Let_def split: prod.splits if_splits)

lemma rebalance_succeeded_settings:
  "rebalance_succeeded ops fl dc env p mp pl res x w = Some (x', w') \<Longrightarrow> settings x' = settings x"
  by (auto simp: rebalance_succeeded_def Let_def bind_eq_Some_conv split: prod.splits option.splits dest!: settings_helpers(1))

lemma rebalance_incomplete_settings: "settings (fst (rebalance_incomplete env p pl res x w)) = settings x"
  by (simp add: rebalance_incomplete_def Let_def split: prod.splits)

lemma execute_decision_settings:
  assumes "execute_decision ops fl dc env mp d pl x w = Some (x', w')"
  shows "settings x' = settings x"
proof (cases d)
  case (Rebalance l u)
  have i: "settings y' = settings y" if "(y', v') = rebalance_incomplete env p pl res y v" for y' v' p res y v
    using that rebalance_incomplete_settings [of env p pl res y v] by (metis fst_conv)
  from Rebalance assms show ?thesis
    by (auto simp: execute_decision_def execute_rebalance_def Let_def split: prod.splits if_splits
        dest!: rebalance_succeeded_settings i [OF sym])
qed (use assms in \<open>auto simp: execute_decision_def execute_close_def execute_decrease_def execute_collect_def Let_def
      split: prod.splits sum.splits option.splits if_splits\<close>)

lemma build_context_settings:
  "build_context ops fl dc env mp x w = Some (ctx, x', w') \<Longrightarrow> settings x' = settings x"
  by (erule build_context_parts) (simp add: settings_def)

lemma decide_and_actE:
  assumes "decide_and_act ops fl dc env mp x w = Some (x', w')"
  obtains ctx x1 w1 d e w2 where "build_context ops fl dc env mp x w = Some (ctx, x1, w1)" "decide ops fl (ex_decision x1) ctx = Some d"
    "snd (me_clock env w1) = w2"
    "if requires_transaction d \<and> auto_execute (ex_config x1)
     then execute_decision ops fl dc env mp d (pool ctx) (x1\<lparr>ex_last_eval := e\<rparr>) w2 = Some (x', w')
     else x' = x1\<lparr>ex_last_eval := e\<rparr> \<and> w' = w2"
proof -
  obtain ctx x1 w1 d where b: "build_context ops fl dc env mp x w = Some (ctx, x1, w1)" "decide ops fl (ex_decision x1) ctx = Some d"
    using assms by (auto simp: decide_and_act_def bind_eq_Some_conv)
  obtain now w2 where c: "me_clock env w1 = (now, w2)" by (cases "me_clock env w1")
  show ?thesis
    by (rule that [OF b, of w2 "AList.update (mp_address mp)
        (eval_snapshot (me_show_dec env) (ce_rfc3339 env now) (ex_config x1) ctx d) (ex_last_eval x1)"])
      (use assms b c in \<open>auto simp: decide_and_act_def Let_def\<close>)
qed

lemma evaluate_position_settings:
  assumes "evaluate_position ops fl dc u env a x w = Some (x', w')"
  shows "settings x' = settings x"
proof -
  have d: "settings y' = settings y" if "decide_and_act ops fl dc env mp y v = Some (y', v')" for mp y v y' v'
    using that by (rule decide_and_actE)
      (auto split: if_splits dest!: build_context_settings execute_decision_settings)
  show ?thesis using assms
    by (auto simp: evaluate_position_def split: option.splits prod.splits sum.splits dest!: d)
qed

lemma poll_checkpoint_settings: "poll_checkpoint ops fl dc u env a x w = Some (x', w') \<Longrightarrow> settings x' = settings x"
  by (auto simp: poll_checkpoint_def split: if_splits option.splits prod.splits dest!: settings_helpers(1))

lemma evaluate_positions_settings:
  "evaluate_positions ops fl dc u env allow as x w = Some (x', w') \<Longrightarrow> settings x' = settings x"
proof (induction "as" arbitrary: x w)
  case (Cons a "as")
  then show ?case
    by (auto simp: bind_eq_Some_conv split: if_splits option.splits
        dest!: poll_checkpoint_settings evaluate_position_settings Cons.IH)
qed simp

lemma recovery_keeps_settings:
  "recovery_keeps (recovery_of ops fl dc env) (\<lambda>W. \<forall>x w. W = Some (x, w) \<longrightarrow> settings x = s)"
proof -
  have "settings x' = settings x" if "recovery_reopened env i pool_key closed_key np (x, w) = (x', w')" for i pool_key closed_key np x w x' w'
    using that by (auto simp: recovery_reopened_def Let_def split: option.splits if_splits)
  moreover have "settings x' = settings x" if "recovery_add ops fl dc env np (x, w) = (r, Some (x', w'))" for np x w r x' w'
    using that by (auto simp: recovery_add_def split: option.splits)
  moreover have "settings x' = settings x" if "recovery_recover env q (x, w) = (r, x', w')" for q x w r x' w'
    using that by (auto simp: recovery_recover_def split: prod.splits)
  ultimately show ?thesis
    unfolding recovery_keeps_def recovery_of_def on_world_def
    by (auto simp: Let_def split: option.splits prod.splits) (metis prod.exhaust_sel)+
qed

lemma evaluate_all_settings:
  assumes "evaluate_all ops fl dc u env x w = Some (r, x', w')"
  shows "settings x' = settings x"
proof -
  obtain r1 x1 w1 where e: "executor_recoveries ops fl dc env x w = (r1, Some (x1, w1))"
    "evaluate_positions ops fl dc u env (managed_allowlist x1)
       (map mp_address (get_positions (xe_table_order env) (ex_monitor x1))) x1 w1 = Some (x', w')"
    using assms by (auto simp: evaluate_all_def split: prod.splits option.splits)
  have "settings x1 = settings x"
    using process_recoveries_keeps [OF recovery_keeps_settings [of ops fl dc env "settings x"], of "Some (x, w)"] e(1)
    by (auto simp: executor_recoveries_def) (metis snd_conv)
  with evaluate_positions_settings [OF e(2)] show ?thesis by simp
qed

section \<open>The breaker of the executor\<close>

text \<open>\<^verbatim>\<open>evaluate_all\<close> handles every error itself and returns \<^verbatim>\<open>Ok\<close>, so the loop only ever records
  successes: the breaker of an executor never opens by itself, however many evaluations fail.\<close>

lemma executor_breaker_never_opens:
  assumes "executor_tick ops fl dc u env x w = Some (x', w')" and "cb_state (ex_breaker x) = Closed"
  shows "cb_state (ex_breaker x') = Closed"
proof -
  obtain t w1 where t: "xe_instant env w = (t, w1)" by (cases "xe_instant env w")
  obtain ok b where b: "is_allowed t (ex_breaker x) = (ok, b)" by (cases "is_allowed t (ex_breaker x)")
  have c: "cb_state b = Closed" using b assms(2) by (auto simp: is_allowed_def split: if_splits)
  have e: "r = Inr () \<and> cb_state (ex_breaker y) = Closed"
    if "evaluate_all ops fl dc u env (x\<lparr>ex_breaker := b\<rparr>) w1 = Some (r, y, v)" for r y v
    using evaluate_all_settings [OF that] that c
    by (auto simp: settings_def evaluate_all_def split: prod.splits option.splits)
  show ?thesis using assms(1) c
    by (auto simp: executor_tick_def Let_def t b split: if_splits option.splits prod.splits sum.splits dest!: e)
      (auto simp: cb_record_success_def Let_def split: if_splits)
qed

section \<open>A dry run forgets the position\<close>

text \<open>In a dry run the simulated rebalance counts as a success: the position is removed from the monitor,
  and as there is no new one, it is never evaluated again.\<close>

lemma dry_run_forgets_position:
  assumes "dry_run (ex_config x)" and "execute_decision ops fl dc env mp (Rebalance l u) pl x w = Some (x', w')"
  shows "ex_monitor x' = remove_position (mp_address mp) (ex_monitor x)" and "get_monitored (mp_address mp) (ex_monitor x') = None"
proof -
  have m: "ex_monitor (retouch_put a b y) = ex_monitor y" "ex_monitor (retouch_forget a y) = ex_monitor y"
    "ex_config (retouch_put a b y) = ex_config y" for a b y
    by (simp_all add: retouch_put_def retouch_forget_def)
  have p: "ex_monitor y' = ex_monitor y" if "put_checkpoint env cp y v = (y', v')" for cp y v y' v'
    using that by (auto simp: put_checkpoint_def split: prod.splits)
  show "ex_monitor x' = remove_position (mp_address mp) (ex_monitor x)"
    using assms
    by (auto simp: execute_decision_def execute_rebalance_def rebalance_execute_def rebalance_succeeded_def dry_result_def m Let_def
        unmonitor_def rebalance_params_for_def split: prod.splits dest!: p)
  then show "get_monitored (mp_address mp) (ex_monitor x') = None"
    by (simp add: get_monitored_def remove_position_def delete_conv')
qed

section \<open>An unreadable pool\<close>

text \<open>When the pool cannot be read the decision is made on a made-up state at tick 0: the range of a
  rebalance does not depend on the real price.\<close>

lemma unreadable_pool_made_up:
  assumes "fst (read_pool ops env (mp_pool mp) w) = Inl e" and "build_context ops fl dc env mp x w = Some (ctx, x', w')"
  shows "pool ctx = fallback_pool ops (me_to_string env (mp_pool mp))" and "ws_tick_current (pool ctx) = 0"
proof -
  show "pool ctx = fallback_pool ops (me_to_string env (mp_pool mp))"
    using assms by (auto simp: build_context_def pool_or_fallback_def Let_def bind_eq_Some_conv split: prod.splits)
  then show "ws_tick_current (pool ctx) = 0" by (simp add: fallback_pool_def)
qed

section \<open>Incomplete rebalances are queued\<close>

text \<open>The file of pending openings: a save stores the queue, and nothing else the executor does on the
  incomplete path changes it.\<close>

definition file_law :: "('d, 'w, 'z) executor_env_scheme \<Rightarrow> bool" where
  "file_law env \<longleftrightarrow> (\<forall>s w. xe_save env s w = (Inr (), snd (xe_save env s w)) \<and> xe_file env (snd (xe_save env s w)) = StoredFile s)
     \<and> (\<forall>w. xe_file env (snd (xe_ctx env w)) = xe_file env w)
     \<and> (\<forall>w. xe_file env (snd (me_clock env w)) = xe_file env w) \<and> (\<forall>w. xe_file env (snd (me_stamp env w)) = xe_file env w)
     \<and> (\<forall>e p a sid j w. xe_file env (xe_diagnostic env e p a sid j w) = xe_file env w)
     \<and> (\<forall>ns n a w. xe_notifiers env = Some ns \<and> n \<in> set ns \<longrightarrow> xe_file env (snd (n a w)) = xe_file env w)"

lemma file_lawD:
  assumes "file_law env"
  shows "xe_ctx env w = (ctx, w') \<Longrightarrow> xe_file env w' = xe_file env w" "me_stamp env w = (st, w') \<Longrightarrow> xe_file env w' = xe_file env w"
    "xe_save env s w = (r, w') \<Longrightarrow> r = Inr () \<and> xe_file env w' = StoredFile s"
    "xe_file env (xe_diagnostic env e p a sid j w) = xe_file env w" "xe_file env (emit_executor_alert env al w) = xe_file env w"
proof -
  have n: "xe_notifiers env = Some ns \<Longrightarrow> n \<in> set ns \<Longrightarrow> xe_file env (snd (n al v)) = xe_file env v" for ns n v
    using assms unfolding file_law_def by blast
  show "xe_file env (emit_executor_alert env al w) = xe_file env w"
    unfolding emit_executor_alert_def by (cases "xe_notifiers env") (auto intro: notify_all_quiet n)
qed (use assms in \<open>unfold file_law_def, metis snd_conv prod.inject\<close>)+

lemma queue_pending_open_file:
  assumes "file_law env"
  shows "\<exists>i. xe_file env (queue_pending_open env path p pl res w) = StoredFile (upsert (load_or_default (xe_file env w)) i)
    \<and> item_key i = (me_to_string env (rb_pool p), me_to_string env (rb_position p)) \<and> attempts i = 0
    \<and> intended_tick_lower i = rb_new_tick_lower p \<and> intended_tick_upper i = rb_new_tick_upper p
    \<and> po_session_id i = rs_session_id res \<and> last_error i = rs_error res"
proof -
  obtain n1 w1 where c1: "me_clock env w = (n1, w1)" by (cases "me_clock env w")
  obtain n2 w2 where c2: "me_clock env w1 = (n2, w2)" by (cases "me_clock env w1")
  obtain n3 w3 where c3: "me_clock env w2 = (n3, w3)" by (cases "me_clock env w2")
  let ?i = "incomplete_item (me_to_string env) p pl res (ce_rfc3339 env n1) (ce_rfc3339 env n2) (ce_rfc3339 env n3)"
  obtain r w4 where s: "xe_save env (upsert (load_or_default (xe_file env w)) ?i) w3 = (r, w4)"
    by (cases "xe_save env (upsert (load_or_default (xe_file env w)) ?i) w3")
  show ?thesis
    using file_lawD(3) [OF assms s] s
    by (intro exI [of _ ?i]) (simp add: queue_pending_open_def Let_def c1 c2 c3 file_lawD(4) [OF assms] incomplete_item_def item_key_def)
qed

text \<open>C19. An incomplete rebalance is not lost. When the rebalance executor reports that the old position
  was closed on the chain but no new one opened, the position leaves the monitor and the file of
  pending openings holds a fresh item for it, with the intended range, the session and the error,
  next to every other item that was queued; the next recovery pass finds it there.\<close>

theorem incomplete_rebalance_queued:
  assumes "file_law env" and "ex_pending_path x = Some path"
    and "rebalance_execute env (dry_run (ex_config x)) (rebalance_params_for x mp pl l u) (ex_lifecycle x) w = (res, t, w1)"
    and "\<not> rs_success res" and "rs_old_position_closed_on_chain res" and "rs_new_position res = None"
    and "distinct (map item_key (items (load_or_default (xe_file env w1))))"
  shows "\<exists>x' w' store i. execute_decision ops fl dc env mp (Rebalance l u) pl x w = Some (x', w')
    \<and> get_monitored (mp_address mp) (ex_monitor x') = None \<and> xe_file env w' = StoredFile store
    \<and> i \<in> set (items store) \<and> item_key i = (me_to_string env (mp_pool mp), me_to_string env (mp_address mp)) \<and> attempts i = 0
    \<and> intended_tick_lower i = l \<and> intended_tick_upper i = u \<and> po_session_id i = rs_session_id res
    \<and> (\<forall>j \<in> set (items (load_or_default (xe_file env w1))). item_key j \<noteq> item_key i \<longrightarrow> j \<in> set (items store))"
proof -
  let ?p = "rebalance_params_for x mp pl l u" let ?x = "(retouch_put (mp_address mp) False x)\<lparr>ex_lifecycle := t\<rparr>"
  have g: "rebalance_params_for (retouch_put a b x) mp pl l u = ?p" "ex_config (retouch_put a b x) = ex_config x"
    "ex_lifecycle (retouch_put a b x) = ex_lifecycle x" "ex_pending_path (retouch_put a b x) = Some path"
    "ex_monitor (retouch_put a b x) = ex_monitor x" for a b
    using assms(2) by (simp_all add: retouch_put_def rebalance_params_for_def)
  obtain x' w' where r: "rebalance_incomplete env ?p pl res ?x w1 = (x', w')" by (cases "rebalance_incomplete env ?p pl res ?x w1")
  have e: "execute_decision ops fl dc env mp (Rebalance l u) pl x w = Some (x', w')"
    using assms(3-6) r by (simp add: execute_decision_def execute_rebalance_def g Let_def)
  obtain ctx w2 where c: "xe_ctx env w1 = (ctx, w2)" by (cases "xe_ctx env w1")
  obtain i where i: "xe_file env (queue_pending_open env path ?p pl res w2) = StoredFile (upsert (load_or_default (xe_file env w2)) i)"
    "item_key i = (me_to_string env (mp_pool mp), me_to_string env (mp_address mp))" "attempts i = 0"
    "intended_tick_lower i = l" "intended_tick_upper i = u" "po_session_id i = rs_session_id res"
    using queue_pending_open_file [OF assms(1), of path ?p pl res w2] by (auto simp: rebalance_params_for_def)
  have f: "xe_file env w' = StoredFile (upsert (load_or_default (xe_file env w1)) i)"
    using r i(1) file_lawD(1) [OF assms(1) c]
    by (auto simp: rebalance_incomplete_def Let_def c g file_lawD(5) [OF assms(1)] split: prod.splits dest!: file_lawD(2) [OF assms(1)])
  have "ex_monitor x' = remove_position (mp_address mp) (ex_monitor x)"
    using r by (auto simp: rebalance_incomplete_def Let_def unmonitor_def retouch_forget_def g rebalance_params_for_def
        split: prod.splits if_splits)
  then have m: "get_monitored (mp_address mp) (ex_monitor x') = None" by (simp add: get_monitored_def remove_position_def delete_conv')
  show ?thesis
    using e f m i(2-6) upsert_lookup [OF assms(7), of _ i]
    by (intro exI [of _ x'] exI [of _ w'] exI [of _ "upsert (load_or_default (xe_file env w1)) i"] exI [of _ i]) (simp add: upsert_def)
qed

text \<open>A world that is the file of pending openings, and a rebalance that closes but does not open.\<close>

definition incomplete_env :: "(rat, rat pending_file) executor_env" where
  "incomplete_env = \<lparr>me_from_str = (\<lambda>_. None), me_to_string = (\<lambda>k. if k = [1] then ''pos'' else ''pool''),
     me_get_account = (\<lambda>k w. (Inl [], w)), me_position_from_slice = (\<lambda>_. None),
     me_error_chain = (\<lambda>_. []), me_show_dec = (\<lambda>_. []), me_clock = (\<lambda>w. (0, w)),
     me_stamp = (\<lambda>w. (([], 0), w)), me_callback = None, me_notifiers = None, me_during = id,
     ce_ticks = (\<lambda>_. \<lparr>whirlpool_program_id = None, find_program_address = (\<lambda>_ _. []), get_account = (\<lambda>_. Inl []),
       tick_array_from_slice = (\<lambda>_. None)\<rparr>),
     ce_rfc3339 = (\<lambda>_. []),
     xe_ctx = (\<lambda>w. (\<lparr>ctx_id = [], ctx_now = 0, ctx_row_time = [], ctx_show_dec = (\<lambda>_. []), ctx_show_key = (\<lambda>_. []),
       ctx_session_env = None, ctx_write_ok = (\<lambda>_ _. True)\<rparr>, w)),
     xe_uuid = (\<lambda>w. (''session'', w)),
     live_execute = (\<lambda>p sid t w. ((dry_result p sid)\<lparr>rs_success := False, rs_old_position_closed_on_chain := True,
       rs_error := Some ''open failed''\<rparr>, t, w)),
     live_recover = (\<lambda>q t w. (\<lparr>rr_success = True, rr_new_position = None, rr_error = None\<rparr>, t, w)),
     live_close = (\<lambda>_ _ w. (Inr (), w)), live_decrease = (\<lambda>_ _ _ w. (Inr (), w)), live_collect = (\<lambda>_ _ w. (Inr (), w)),
     xe_file = (\<lambda>w. w), xe_save = (\<lambda>s w. (Inr (), StoredFile s)), xe_diagnostic = (\<lambda>_ _ _ _ _ w. w), xe_reopen_hook = None,
     xe_notifiers = None, xe_set_order = rev, xe_table_order = id, xe_decimal_max = 2 ^ 96 - 1, xe_vars = (\<lambda>_. None), xe_claims = {},
     xe_has_wallet = True, xe_json = (\<lambda>_. None), xe_lifecycle_file = (\<lambda>_. None), xe_parse_time = (\<lambda>_. None),
     xe_key_error = (\<lambda>_. []), xe_error_text = (\<lambda>_. []), xe_instant = (\<lambda>w. (0, w))\<rparr>"

theorem incomplete_rebalance_queued_witness:
  "\<exists>x' store i. execute_decision rat_ops approx_fns rat_conv incomplete_env example_monitored (Rebalance 0 64) sample_pool
       (demo_executor False) NoFile = Some (x', StoredFile store)
     \<and> i \<in> set (items store) \<and> item_key i = (''pool'', ''pos'') \<and> intended_tick_upper i = 64"
proof -
  let ?x = "demo_executor False"
  have d: "dry_run (ex_config ?x) = False" "ex_pending_path ?x = Some ''data/pending-open-recovery.json''"
    by (simp_all add: demo_executor_def set_managed_allowlist_def managed_allowlist_state_from_positions_def new_executor_def)
  let ?p = "rebalance_params_for ?x example_monitored sample_pool 0 64"
  let ?res = "(dry_result ?p ''session'')\<lparr>rs_success := False, rs_old_position_closed_on_chain := True, rs_error := Some ''open failed''\<rparr>"
  have r: "rebalance_execute incomplete_env (dry_run (ex_config ?x)) ?p (ex_lifecycle ?x) NoFile = (?res, ex_lifecycle ?x, NoFile)"
    by (simp add: rebalance_execute_def d incomplete_env_def)
  have f: "file_law incomplete_env" "xe_file incomplete_env = (\<lambda>w. w)"
    "me_to_string incomplete_env [1] = ''pos''" "me_to_string incomplete_env [2] = ''pool''"
    by (simp_all add: file_law_def incomplete_env_def)
  have "distinct (map item_key (items (load_or_default (xe_file incomplete_env NoFile))))"
    by (simp add: f load_or_default_def default_store_def)
  from incomplete_rebalance_queued [OF f(1) d(2) r _ _ _ this, of rat_ops approx_fns rat_conv] show ?thesis
    by (auto simp: f dry_result_def example_monitored_def)
qed

section \<open>Waiting after a rebalance\<close>

lemma decide_waits:
  assumes "decide ops fl cfg ctx = Some (Rebalance l u)" and "in_range (position ctx) \<or> \<not> rebalance_on_range_exit_immediately cfg"
    and "strategy_mode cfg \<noteq> Threshold \<or> \<not> in_range (position ctx)"
  shows "waiting_time cfg \<le> minutes_since_rebalance ctx"
  using assms
  by (cases "strategy_mode cfg")
     (auto simp: decide_def Let_def waiting_time_def exit_must_wait_def bind_eq_Some_conv not_less split: if_splits option.splits)

lemma build_context_fields:
  assumes "build_context ops fl dc env mp x w = Some (ctx, x', w')"
  shows "position ctx = mp" and "minutes_since_rebalance ctx = calculate_minutes_since_rebalance (ex_lifecycle x)
      (fst (me_clock env (snd (pool_or_fallback ops env (mp_pool mp) w)))) (mp_address mp)"
  using assms by (auto simp: build_context_def Let_def bind_eq_Some_conv split: prod.splits)

text \<open>C20. No second rebalance within the waiting time. After a rebalance has been recorded for a position,
  whatever else the tracker records for it or for other positions, an evaluation of the position
  before the strategy's interval has passed does not rebalance it again --- as long as its price has
  not left the range under a strategy that reacts to that at once, and outside the midpoint rule of
  the threshold strategy, which ignores the interval.\<close>

theorem waits_after_rebalance:
  assumes "ex_lifecycle x = foldl (lt_step ops) (lt_step ops t (LtRebalance c (mp_address mp) pool_key d)) es"
    and "list_all (\<lambda>op. \<not> rebalances (mp_address mp) op) es"
    and "build_context ops fl dc env mp x w = Some (ctx, x', w')" and "decide ops fl (ex_decision x) ctx = Some dec"
    and "max (num_minutes (fst (me_clock env (snd (pool_or_fallback ops env (mp_pool mp) w)))) (ctx_now c)) 0
      < uint (waiting_time (ex_decision x))"
    and "in_range mp \<or> \<not> rebalance_on_range_exit_immediately (ex_decision x)"
    and "strategy_mode (ex_decision x) \<noteq> Threshold \<or> \<not> in_range mp"
  shows "dec \<noteq> Rebalance l u"
proof
  let ?now = "fst (me_clock env (snd (pool_or_fallback ops env (mp_pool mp) w)))"
  let ?k = "max (num_minutes ?now (ctx_now c)) 0"
  assume "dec = Rebalance l u"
  with decide_waits [of ops fl "ex_decision x" ctx l u] assms(4,6,7) build_context_fields [OF assms(3)]
  have "waiting_time (ex_decision x) \<le> of_int ?k"
    using rebalance_restarts_minutes [OF assms(2), of ops t c pool_key d ?now] by (simp add: assms(1))
  moreover have "uint (of_int ?k :: u64) = ?k"
  proof -
    have "?k < 2 ^ 64" using assms(5) uint_lt2p [of "waiting_time (ex_decision x)"] by simp
    then show ?thesis by (simp add: uint_word_of_int take_bit_eq_mod)
  qed
  ultimately show False using assms(5) by (simp add: word_le_def)
qed

text \<open>A position rebalanced at time zero, evaluated at the same time by the periodic strategy.\<close>

definition demo_rebalance :: "rat rebalance_data" where
  "demo_rebalance = \<lparr>old_tick_lower = 0, old_tick_upper = 64, new_tick_lower = 64, new_tick_upper = 128, old_liquidity = 0,
     new_liquidity = 0, tx_cost_lamports = 5000, il_at_rebalance = 0, rebalance_reason_of = RrPeriodic, amount_a_before = None,
     amount_b_before = None, amount_a_after = None, amount_b_after = None, price_ab_before = None, price_ab_after = None,
     fees_a_collected = None, fees_b_collected = None, optimization_run_id = None, range_adjustment_reason = None,
     old_position = None\<rparr>"

theorem waits_after_rebalance_witness:
  "\<exists>x ctx x' w' dec. build_context rat_ops approx_fns rat_conv incomplete_env example_monitored x NoFile = Some (ctx, x', w')
     \<and> decide rat_ops approx_fns (ex_decision x) ctx = Some dec \<and> strategy_mode (ex_decision x) = Periodic \<and> dec \<noteq> Rebalance 0 64"
proof -
  let ?c = "fst (xe_ctx incomplete_env NoFile)"
  let ?cfg = "(default_decision_config rat_ops)\<lparr>strategy_mode := Periodic\<rparr>"
  let ?t = "lt_step rat_ops new_tracker (LtRebalance ?c (mp_address example_monitored) [2] demo_rebalance)"
  let ?x = "(demo_executor False)\<lparr>ex_decision := ?cfg, ex_lifecycle := ?t\<rparr>"
  have c: "me_clock incomplete_env w = (0, w)" "ctx_now ?c = 0" for w by (simp_all add: incomplete_env_def)
  have a: "in_range example_monitored" by (simp add: example_monitored_def)
  obtain ctx x' w' where b: "build_context rat_ops approx_fns rat_conv incomplete_env example_monitored ?x NoFile = Some (ctx, x', w')"
    by (cases "pool_or_fallback rat_ops incomplete_env (mp_pool example_monitored) NoFile")
      (auto simp: build_context_def retouch_gate_def candle_ticks_def bollinger_band_def c default_decision_config_def Let_def)
  have t: "ex_lifecycle ?x = foldl (lt_step rat_ops) ?t []" by simp
  have m: "minutes_since_rebalance ctx = 0"
    using build_context_fields(2) [OF b] rebalance_restarts_minutes [of "mp_address example_monitored" "[]" rat_ops new_tracker ?c "[2]" demo_rebalance 0]
    by (simp add: c a num_minutes_def num_seconds_def del: lt_step.simps)
  then have d: "decide rat_ops approx_fns (ex_decision ?x) ctx = Some Hold"
    by (simp add: decide_def Let_def default_decision_config_def)
  have "(Hold :: rat decision) \<noteq> Rebalance 0 64"
    by (rule waits_after_rebalance [OF t _ b d])
      (simp_all add: c a num_minutes_def num_seconds_def waiting_time_def default_decision_config_def)
  with b d show ?thesis by (intro exI [of _ ?x] exI [of _ ctx] exI [of _ x'] exI [of _ w'] exI [of _ Hold]) simp
qed

end
