(* ===== verification/Executor_Isolation.thy ===== *)
theory Executor_Isolation
  imports Executor_Outcomes
begin

text \<open>
  Isolation: an evaluation acts only on positions of the managed set that are not skipped. What the chain
  holds for any other position is described by a view of the world that the live operations on
  different positions leave alone.
\<close>

definition spares :: "('d, 'w, 'z) executor_env_scheme \<Rightarrow> pubkey \<Rightarrow> ('w \<Rightarrow> 'c) \<Rightarrow> bool" where
  "spares env q view \<longleftrightarrow> quiet env view
     \<and> (\<forall>p sid t w. rb_position p \<noteq> q \<longrightarrow> view (snd (snd (live_execute env p sid t w))) = view w)
     \<and> (\<forall>p t w. view (snd (snd (live_recover env p t w))) = view w)
     \<and> (\<forall>a p w. a \<noteq> q \<longrightarrow> view (snd (live_close env a p w)) = view w)
     \<and> (\<forall>a p n w. a \<noteq> q \<longrightarrow> view (snd (live_decrease env a p n w)) = view w)
     \<and> (\<forall>a p w. a \<noteq> q \<longrightarrow> view (snd (live_collect env a p w)) = view w)"

text \<open>Monitored positions are stored under their address.\<close>

definition table_ok :: "'d position_table \<Rightarrow> bool" where
  "table_ok t \<longleftrightarrow> (\<forall>k mp. map_of t k = Some mp \<longrightarrow> mp_address mp = k)"

definition during_law :: "('d, 'w, 'z) monitor_env_scheme \<Rightarrow> bool" where
  "during_law env \<longleftrightarrow> (\<forall>t. table_ok t \<longrightarrow> table_ok (me_during env t))"

abbreviation "monitor_ok x \<equiv> table_ok (pm_positions (ex_monitor x))"

lemma table_ok_update: "table_ok t \<Longrightarrow> mp_address mp = a \<Longrightarrow> table_ok (AList.update a mp t)"
  by (auto simp: table_ok_def update_conv' split: if_splits)

lemma table_ok_remove: "table_ok (pm_positions m) \<Longrightarrow> table_ok (pm_positions (remove_position a m))"
  by (auto simp: table_ok_def remove_position_def delete_conv' split: if_splits)

lemma update_position_table:
  assumes "during_law env" and "table_ok (pm_positions m)" and "update_position ops fl dc u env a m w = Some (r, m', w')"
  shows "table_ok (pm_positions m')"
proof -
  have d: "table_ok (me_during env (pm_positions m))" using assms(1,2) by (simp add: during_law_def)
  show ?thesis using assms(3)
  proof (cases rule: update_position_cases)
    case (updated p w1 pl w2 now w3 mp mp')
    have "mp_address mp' = mp_address mp" using updated(7) by (auto simp: refresh_monitored_def bind_eq_Some_conv)
    also have "\<dots> = a" using d updated(3) by (simp add: table_ok_def)
    finally show ?thesis using updated(2) table_ok_update [OF d, of mp' a] by simp
  qed (use assms(2) d table_ok_remove in auto)
qed

lemma add_position_table:
  assumes "during_law env" and "table_ok (pm_positions m)" and "add_position ops fl dc env s m w = Some (r, m', w')"
  shows "table_ok (pm_positions m')"
proof -
  have d: "table_ok (me_during env (pm_positions m))" using assms(1,2) by (simp add: during_law_def)
  show ?thesis using assms(2,3)
    by (auto simp: add_position_def Let_def bind_eq_Some_conv case_prod_beta split: sum.splits prod.splits intro!: table_ok_update [OF d])
qed

lemma checkpoint_table:
  "put_checkpoint env cp x w = (x', w') \<Longrightarrow> ex_monitor x' = ex_monitor x"
  "during_law env \<Longrightarrow> monitor_ok x \<Longrightarrow> poll_checkpoint ops fl dc u env a x w = Some (x', w') \<Longrightarrow> monitor_ok x'"
proof -
  show p: "ex_monitor x' = ex_monitor x" if "put_checkpoint env cp x w = (x', w')" for cp x w x' w'
    using that by (auto simp: put_checkpoint_def split: prod.splits)
  assume d: "during_law env" "monitor_ok x"
  have c: "table_ok (pm_positions m')" if "capture_position_fee_checkpoint ops fl dc u env a ev src (ex_monitor x) w = Some (cp, m', w')"
    for ev src cp m' w'
    using that update_position_table [OF d(1,2)]
    by (auto simp: capture_position_fee_checkpoint_def refresh_position_def bind_eq_Some_conv case_prod_beta
        split: prod.splits option.splits sum.splits)
  show "monitor_ok x'" if "poll_checkpoint ops fl dc u env a x w = Some (x', w')"
    using that d(2) by (auto simp: poll_checkpoint_def split: if_splits option.splits prod.splits dest!: c p)
qed

section \<open>One position\<close>

lemma execute_decision_isolated:
  assumes "spares env q view" and "during_law env" and "mp_address mp \<noteq> q" and "monitor_ok x"
    and "execute_decision ops fl dc env mp d pl x w = Some (x', w')"
  shows "view w' = view w \<and> monitor_ok x'"
proof -
  have Q: "quiet env view" using assms(1) by (simp add: spares_def)
  note s = assms(1) [unfolded spares_def]
  show ?thesis
  proof (cases d)
    case (Rebalance l u)
    let ?x = "retouch_put (mp_address mp) False x"
    let ?p = "rebalance_params_for ?x mp pl l u"
    have m: "ex_monitor (retouch_put a b y) = ex_monitor y" "ex_monitor (retouch_forget a y) = ex_monitor y"
      "ex_monitor (replace_managed order old np y) = ex_monitor y" for a b y order old np
      by (simp_all add: retouch_put_def retouch_forget_def replace_managed_def Let_def split: option.splits)
    obtain res t w1 where e: "rebalance_execute env (dry_run (ex_config ?x)) ?p (ex_lifecycle ?x) w = (res, t, w1)"
      by (cases "rebalance_execute env (dry_run (ex_config ?x)) ?p (ex_lifecycle ?x) w")
    have pos: "rb_position ?p = mp_address mp" by (simp add: rebalance_params_for_def)
    have v1: "view w1 = view w"
    proof -
      obtain sid w0 where u: "xe_uuid env w = (sid, w0)" by (cases "xe_uuid env w")
      have "view (snd (snd (live_execute env ?p sid (ex_lifecycle ?x) w0))) = view w0" using s pos assms(3) by simp
      with e u quietD(5) [OF Q u] show ?thesis by (auto simp: rebalance_execute_def split: if_splits)
    qed
    have pc: "view v' = view v \<and> ex_monitor y' = ex_monitor y" if "put_checkpoint env cp y v = (y', v')" for cp y v y' v'
      using checkpoint_quiet(1) [OF Q that] checkpoint_table(1) [OF that] by simp
    have ok: "view v = view w1 \<and> monitor_ok y"
      if "rebalance_succeeded ops fl dc env ?p mp pl res (?x\<lparr>ex_lifecycle := t\<rparr>) w1 = Some (y, v)" for y v
      using that assms(4) table_ok_remove [of "ex_monitor x" "mp_address mp"] add_position_table [OF assms(2)] monitor_quiet(2) [OF Q]
      by (auto simp: rebalance_succeeded_def Let_def bind_eq_Some_conv unmonitor_def m pos quietD(9) [OF Q]
          split: prod.splits option.splits dest!: quietD(2) [OF Q] pc)
    have q: "view (queue_pending_open env path ?p pl res v) = view v" for path v
      by (auto simp: queue_pending_open_def Let_def quietD(8) [OF Q] split: prod.splits sum.splits dest!: quietD(2,7) [OF Q])
    have inc: "view v = view w1 \<and> monitor_ok y"
      if "rebalance_incomplete env ?p pl res (?x\<lparr>ex_lifecycle := t\<rparr>) w1 = (y, v)" for y v
      using that assms(4) table_ok_remove [of "ex_monitor x" "mp_address mp"]
      by (auto simp: rebalance_incomplete_def Let_def unmonitor_def m pos emit_quiet(2) [OF Q] q
          split: prod.splits option.splits dest!: quietD(3,4) [OF Q])
    from assms(5) Rebalance e v1 assms(4) show ?thesis
      by (auto simp: execute_decision_def execute_rebalance_def Let_def m split: if_splits dest!: ok inc)
  next
    case Close
    have "view (snd (execute_full_close_only env b (mp_address mp) k v)) = view v" for b k v
      using s assms(3) by (simp add: execute_full_close_only_def)
    then have c: "execute_full_close_only env b (mp_address mp) k v = (r, v') \<Longrightarrow> view v' = view v" for b k v r v' by (metis snd_conv)
    show ?thesis using assms(4,5) Close table_ok_remove [of "ex_monitor x" "mp_address mp"]
      by (auto simp: execute_decision_def execute_close_def Let_def unmonitor_def split: prod.splits sum.splits option.splits
          dest!: c quietD(2,4) [OF Q])
  next
    case CollectFees
    have "view (snd (execute_collect_fees_only env b (mp_address mp) k v)) = view v" for b k v
      using s assms(3) by (simp add: execute_collect_fees_only_def)
    then have c: "execute_collect_fees_only env b (mp_address mp) k v = (r, v') \<Longrightarrow> view v' = view v" for b k v r v' by (metis snd_conv)
    show ?thesis using assms(4,5) CollectFees
      by (auto simp: execute_decision_def execute_collect_def Let_def split: prod.splits sum.splits if_splits dest!: c quietD(4) [OF Q])
  next
    case (DecreaseLiquidity n)
    have "view (snd (execute_partial_decrease env b (mp_address mp) k r v)) = view v" for b k r v
      using s assms(3) by (simp add: execute_partial_decrease_def)
    then show ?thesis using assms(4,5) DecreaseLiquidity
      by (auto simp: execute_decision_def execute_decrease_def split: option.splits if_splits)
  qed (use assms(4,5) in \<open>simp_all add: execute_decision_def\<close>)
qed

lemma build_context_table: "build_context ops fl dc env mp x w = Some (ctx, x', w') \<Longrightarrow> ex_monitor x' = ex_monitor x"
  by (erule build_context_parts) simp

lemma evaluate_position_isolated:
  assumes "spares env q view" and "during_law env" and "a \<noteq> q" and "monitor_ok x"
    and "evaluate_position ops fl dc u env a x w = Some (x', w')"
  shows "view w' = view w \<and> monitor_ok x'"
proof -
  have Q: "quiet env view" using assms(1) by (simp add: spares_def)
  obtain r m w1 where f: "update_position ops fl dc u env a (ex_monitor x) w = Some (r, m, w1)"
    using assms(5) by (cases "update_position ops fl dc u env a (ex_monitor x) w") (auto simp: evaluate_position_def refresh_position_def)
  have t: "table_ok (pm_positions m)" and v: "view w1 = view w"
    using update_position_table [OF assms(2,4) f] monitor_quiet(1) [OF Q f] by simp_all
  have act: "view w' = view w1 \<and> monitor_ok x'"
    if d: "decide_and_act ops fl dc env mp (x\<lparr>ex_monitor := m\<rparr>) w1 = Some (x', w')" and g: "get_monitored a m = Some mp" for mp
    using d
  proof (rule decide_and_actE)
    fix ctx x1 w2 dec e w3
    assume b: "build_context ops fl dc env mp (x\<lparr>ex_monitor := m\<rparr>) w1 = Some (ctx, x1, w2)"
      and c: "snd (me_clock env w2) = w3"
      and i: "if requires_transaction dec \<and> auto_execute (ex_config x1)
        then execute_decision ops fl dc env mp dec (pool ctx) (x1\<lparr>ex_last_eval := e\<rparr>) w3 = Some (x', w')
        else x' = x1\<lparr>ex_last_eval := e\<rparr> \<and> w' = w3"
    have n: "mp_address mp \<noteq> q" using t g assms(3) by (auto simp: table_ok_def get_monitored_def)
    have o1: "monitor_ok (x1\<lparr>ex_last_eval := e\<rparr>)" using build_context_table [OF b] t by simp
    have "view w3 = view w1" using build_context_quiet [OF Q b] c quietD(2) [OF Q, of w2 _ w3] by (metis prod.exhaust_sel)
    with i o1 show ?thesis by (auto split: if_splits dest!: execute_decision_isolated [OF assms(1,2) n o1])
  qed
  show ?thesis using assms(5) f t v act
    by (auto simp: evaluate_position_def refresh_position_def split: sum.splits option.splits)
qed

section \<open>All positions\<close>

lemma evaluate_positions_isolated:
  assumes "spares env q view" and "during_law env" and "monitor_ok x"
    and "q \<in> set (ex_skip_evaluation_for x) \<or> (\<exists>s. allow = Some s \<and> q \<notin> set s)"
    and "evaluate_positions ops fl dc u env allow as x w = Some (x', w')"
  shows "view w' = view w"
  using assms(3-5)
proof (induction "as" arbitrary: x w)
  case (Cons a "as")
  show ?case
  proof (cases "(case allow of Some s \<Rightarrow> a \<notin> set s | None \<Rightarrow> False) \<or> a \<in> set (ex_skip_evaluation_for x)")
    case True
    with Cons.prems(3) have "evaluate_positions ops fl dc u env allow as x w = Some (x', w')" by simp
    with Cons.IH [OF Cons.prems(1,2)] show ?thesis by simp
  next
    case False
    then have "a \<noteq> q" using Cons.prems(2) by auto
    from False Cons.prems(3) obtain x1 w1 x2 w2 where
      s: "poll_checkpoint ops fl dc u env a x w = Some (x1, w1)" "evaluate_position ops fl dc u env a x1 w1 = Some (x2, w2)"
        "evaluate_positions ops fl dc u env allow as x2 w2 = Some (x', w')"
      by (auto simp: bind_eq_Some_conv simp del: de_Morgan_disj)
    have Q: "quiet env view" using assms(1) by (simp add: spares_def)
    note p = checkpoint_quiet(2) [OF Q s(1)] checkpoint_table(2) [OF assms(2) Cons.prems(1) s(1)]
    note e = evaluate_position_isolated [OF assms(1,2) \<open>a \<noteq> q\<close> p(2) s(2)]
    have "ex_skip_evaluation_for x2 = ex_skip_evaluation_for x"
      using poll_checkpoint_settings [OF s(1)] evaluate_position_settings [OF s(2)] by (simp add: settings_def)
    with Cons.IH [OF _ _ s(3)] e p Cons.prems(2) show ?thesis by simp
  qed
qed simp

lemma trim_allowlist_subset: "set (trim_allowlist n np allow) \<subseteq> set allow"
proof (induction n np allow rule: trim_allowlist.induct)
  case (1 n np allow)
  then show ?case
    using set_remove1_subset [of _ allow] by (subst trim_allowlist.simps) (auto split: option.splits)
qed

lemma replace_managed_subset:
  assumes "order_law order" and "managed_allowlist x = Some allow"
  obtains s where "managed_allowlist (replace_managed order old np x) = Some s" "set s \<subseteq> insert np (set allow)"
proof -
  have "set (order (List.insert np (removeAll old allow))) = insert np (set allow - {old})"
    using assms(1) mset_eq_setD [of "order (List.insert np (removeAll old allow))" "List.insert np (removeAll old allow)"]
    by (simp add: order_law_def)
  with assms(2) show ?thesis
    using that trim_allowlist_subset [of _ np "order (List.insert np (removeAll old allow))"]
    by (cases "managed_target_count x") (auto simp: replace_managed_def)
qed

text \<open>The recovery pass does not bring a position under management that no recovery opens.\<close>

definition left_alone :: "pubkey \<Rightarrow> bool \<Rightarrow> 'd strategy_executor \<Rightarrow> bool" where
  "left_alone q listed x \<longleftrightarrow> monitor_ok x \<and> (listed \<longrightarrow> (\<exists>s. managed_allowlist x = Some s \<and> q \<notin> set s))"

lemma recovery_keeps_isolated:
  fixes env :: "('d, 'w, 'z) executor_env_scheme"
  assumes "spares env q view" and "during_law env" and "order_law (xe_set_order env)"
    and "listed \<Longrightarrow> (\<And>p t w. rr_new_position (fst (live_recover env p t w)) \<noteq> Some q)"
  shows "recovery_keeps (recovery_of ops fl dc env) (\<lambda>W. \<forall>x w. W = Some (x, w) \<longrightarrow> left_alone q listed x \<and> view w = v)"
proof -
  have Q: "quiet env view" using assms(1) by (simp add: spares_def)
  have r: "left_alone q listed x' \<and> view w' = view w"
    if "recovery_reopened env i pool_key closed_key np (x, w) = (x', w')" "left_alone q listed x" "listed \<longrightarrow> np \<noteq> q"
    for i pool_key closed_key np x w x' w'
  proof -
    let ?x = "case managed_allowlist x of
        Some allow \<Rightarrow> if closed_key \<in> set allow then replace_managed (xe_set_order env) closed_key np x else x | None \<Rightarrow> x"
    have m: "ex_monitor ?x = ex_monitor x" by (auto simp: replace_managed_def Let_def split: option.splits)
    have "\<exists>s. managed_allowlist ?x = Some s \<and> q \<notin> set s" if l: listed
    proof -
      obtain allow where a: "managed_allowlist x = Some allow" "q \<notin> set allow" using l \<open>left_alone q listed x\<close> by (auto simp: left_alone_def)
      obtain s where "managed_allowlist (replace_managed (xe_set_order env) closed_key np x) = Some s" "set s \<subseteq> insert np (set allow)"
        by (rule replace_managed_subset [OF assms(3) a(1)])
      with a l \<open>listed \<longrightarrow> np \<noteq> q\<close> show ?thesis by auto
    qed
    then have "left_alone q listed ?x" using that(2) m by (simp add: left_alone_def)
    moreover have "x' = ?x" "view w' = view w"
      using that(1) by (auto simp: recovery_reopened_def Let_def quietD(8,9) [OF Q] split: option.splits)
    ultimately show ?thesis by simp
  qed
  have a: "left_alone q listed x' \<and> view w' = view w"
    if "snd (recovery_add ops fl dc env np (x, w)) = Some (x', w')" "left_alone q listed x" for np x w x' w'
    using that add_position_table [OF assms(2)] monitor_quiet(2) [OF Q]
    by (auto simp: recovery_add_def left_alone_def split: option.splits prod.splits)
  have c: "left_alone q listed x' \<and> view w' = view w"
    if "recovery_recover env p (x, w) = (e, x', w')" "left_alone q listed x" for p x w e x' w'
  proof -
    have "view (snd (snd (recover_open_after_incomplete env b p t w))) = view w" for b t
      using assms(1) by (simp add: recover_open_after_incomplete_def spares_def)
    with that show ?thesis by (auto simp: recovery_recover_def left_alone_def split: prod.splits) (metis snd_conv)+
  qed
  have n: "listed \<longrightarrow> np \<noteq> q" if "rr_new_position (fst (re_recover (recovery_of ops fl dc env) p W)) = Some np" for p W np
    using that assms(4)
    by (auto simp: recovery_of_def recovery_recover_def recover_open_after_incomplete_def split: option.splits prod.splits if_splits)
       (metis fst_conv)+
  define good :: "'d strategy_executor \<Rightarrow> 'w \<Rightarrow> bool" where "good = (\<lambda>x w. left_alone q listed x \<and> view w = v)"
  have "recovery_keeps (recovery_of ops fl dc env) (\<lambda>W. \<forall>x w. W = Some (x, w) \<longrightarrow> good x w)"
    unfolding recovery_keeps_def
  proof (intro allI impI conjI, goal_cases)
    case (6 W i pool_key closed_key np p V x w)
    then show ?case using n [OF 6(2)] r by (cases W) (auto simp: recovery_of_def good_def)
  qed (auto simp: recovery_of_def on_world_def Let_def emit_quiet(2) [OF Q] good_def split: option.splits prod.splits
      dest!: a c quietD(2,3,7) [OF Q])
  then show ?thesis by (simp add: good_def)
qed

text \<open>C18. Isolation of the positions that are not managed. Take a position that is skipped, or is not in
  the managed set of an executor (and is not itself the result of a recovery). Whatever the other
  positions, the decisions and the answers of the chain are, an evaluation of all positions leaves
  what the chain holds for it unchanged: only operations on other positions are ever sent.\<close>

theorem unmanaged_position_untouched:
  assumes "spares env q view" and "during_law env" and "order_law (xe_set_order env)"
    and "table_ok (pm_positions (ex_monitor x))"
    and "q \<in> set (ex_skip_evaluation_for x)
      \<or> (\<exists>s. managed_allowlist x = Some s \<and> q \<notin> set s \<and> (\<forall>p t w. rr_new_position (fst (live_recover env p t w)) \<noteq> Some q))"
    and "evaluate_all ops fl dc u env x w = Some (r, x', w')"
  shows "view w' = view w"
proof -
  define listed where "listed \<longleftrightarrow> (\<exists>s. managed_allowlist x = Some s \<and> q \<notin> set s \<and> (\<forall>p t w. rr_new_position (fst (live_recover env p t w)) \<noteq> Some q))"
  obtain r1 x1 w1 where e: "executor_recoveries ops fl dc env x w = (r1, Some (x1, w1))"
    "evaluate_positions ops fl dc u env (managed_allowlist x1)
       (map mp_address (get_positions (xe_table_order env) (ex_monitor x1))) x1 w1 = Some (x', w')"
    using assms(6) by (auto simp: evaluate_all_def split: prod.splits option.splits)
  have n: "listed \<Longrightarrow> rr_new_position (fst (live_recover env p t w)) \<noteq> Some q" for p t w by (auto simp: listed_def)
  have "left_alone q listed x" using assms(4) by (auto simp: left_alone_def listed_def)
  then have "\<forall>y v. snd (executor_recoveries ops fl dc env x w) = Some (y, v) \<longrightarrow> left_alone q listed y \<and> view v = view w"
    unfolding executor_recoveries_def
    by (intro process_recoveries_keeps [OF recovery_keeps_isolated [OF assms(1-3) n]]) auto
  with e(1) have k: "left_alone q listed x1 \<and> view w1 = view w" by simp
  have "settings x1 = settings x"
    using process_recoveries_keeps [OF recovery_keeps_settings [of ops fl dc env "settings x"], of "Some (x, w)"] e(1)
    by (auto simp: executor_recoveries_def) (metis snd_conv)
  with assms(5) k have "q \<in> set (ex_skip_evaluation_for x1) \<or> (\<exists>s. managed_allowlist x1 = Some s \<and> q \<notin> set s)"
    by (auto simp: settings_def left_alone_def listed_def)
  from evaluate_positions_isolated [OF assms(1,2) _ this e(2)] k show ?thesis by (simp add: left_alone_def)
qed

text \<open>The small environment with a world that counts the transactions on the position \<open>[1]\<close>. Outside the
  managed set no transaction on it is counted, although its range was left and the executor may execute.\<close>

definition counting_env :: "(rat, nat) executor_env" where
  "counting_env = demo_executor_env\<lparr>
     live_execute := (\<lambda>p sid t w. (demo_result p sid, t, if rb_position p = [1] then Suc w else w)),
     live_recover := (\<lambda>p t w. (\<lparr>rr_success = False, rr_new_position = None, rr_error = None\<rparr>, t, w)),
     live_close := (\<lambda>a p w. (Inr (), if a = [1] then Suc w else w)),
     live_decrease := (\<lambda>a p n w. (Inr (), if a = [1] then Suc w else w)),
     live_collect := (\<lambda>a p w. (Inr (), if a = [1] then Suc w else w))\<rparr>"

theorem unmanaged_position_untouched_witness:
  "\<exists>r x' w'. evaluate_all rat_ops approx_fns rat_conv word_ops counting_env (set_managed_allowlist [[2]] (demo_executor False)) 5
       = Some (r, x', w') \<and> w' = 5"
proof -
  let ?x = "set_managed_allowlist [[2]] (demo_executor False)"
  have f: "managed_allowlist ?x = Some [[2]]" "ex_monitor ?x = example_monitor"
    by (simp_all add: set_managed_allowlist_def managed_allowlist_state_from_positions_def demo_executor_def new_executor_def)
  have "executor_recoveries rat_ops approx_fns rat_conv counting_env ?x 5 = (Inr (), Some (?x, 5))"
    by (simp add: executor_recoveries_def process_pending_open_recoveries_def recovery_of_def load_or_default_def default_store_def
        demo_executor_env_def counting_env_def)
  then obtain r x' w' where e: "evaluate_all rat_ops approx_fns rat_conv word_ops counting_env ?x 5 = Some (r, x', w')"
    by (auto simp: evaluate_all_def f get_positions_def example_monitor_def new_monitor_def example_monitored_def demo_executor_env_def
        counting_env_def)
  have l: "spares counting_env [1] (\<lambda>w. w)" "during_law counting_env" "order_law (xe_set_order counting_env)"
    by (simp_all add: spares_def quiet_def during_law_def order_law_def demo_executor_env_def counting_env_def)
  have t: "table_ok (pm_positions (ex_monitor ?x))"
    by (simp add: f table_ok_def example_monitor_def new_monitor_def example_monitored_def)
  have n: "[1] \<in> set (ex_skip_evaluation_for ?x) \<or> (\<exists>s. managed_allowlist ?x = Some s \<and> [1] \<notin> set s
      \<and> (\<forall>p t w. rr_new_position (fst (live_recover counting_env p t w)) \<noteq> Some [1]))"
    by (simp add: f counting_env_def)
  have "w' = 5" by (rule unmanaged_position_untouched [OF l t n e])
  with e show ?thesis by blast
qed

end
