(* ===== verification/Sim_Strategies.thy ===== *)
theory Sim_Strategies
  imports Impermanent_Loss
begin

text \<open>
  The rebalancing strategies of the simulator, \<^verbatim>\<open>simulation/src/strategies\<close>, with the price range of
  \<^verbatim>\<open>domain/src/value_objects\<close>. A \<^verbatim>\<open>Price\<close> has the single field \<^verbatim>\<open>value\<close>, so a price is its decimal. A strategy
  is its function \<^verbatim>\<open>evaluate\<close>; a decimal operation that panics makes the evaluation \<open>None\<close>. The trait
  is the locale \<open>rebalance_strategy\<close>, with the promise that a rebalance centres the range on the
  price, and \<open>open_ended_strategy\<close> extends it for strategies that never close a position.
\<close>

section \<open>Prices and ranges\<close>

record 'd price_range =
  lower_price :: 'd
  upper_price :: 'd

definition invert :: "('d, 'a) decimal_arith_scheme \<Rightarrow> 'd \<Rightarrow> 'd option" where
  "invert ops p = (if dec_is_zero ops p then Some (dec_zero ops) else dec_div ops (dec_one ops) p)"

definition range_contains :: "('d, 'a) decimal_ops_scheme \<Rightarrow> 'd price_range \<Rightarrow> 'd \<Rightarrow> bool" where
  "range_contains ops r p \<longleftrightarrow> dec_ge ops p (lower_price r) \<and> dec_ge ops (upper_price r) p"

section \<open>Actions and contexts\<close>

datatype 'd sim_reason =
    SrPeriodic u64
  | SrPriceThreshold 'd
  | SrOutOfRange 'd
  | SrILThreshold 'd
  | SrManual

datatype 'd rebalance_action =
    ActHold
  | ActRebalance "'d price_range" "'d sim_reason"
  | ActClose "'d sim_reason"

record 'd strategy_context =
  sc_price :: 'd
  sc_range :: "'d price_range"
  sc_entry_price :: 'd
  sc_steps_since_open :: u64
  sc_steps_since_rebalance :: u64
  sc_il_pct :: 'd
  sc_total_fees :: 'd

type_synonym 'd strategy = "'d strategy_context \<Rightarrow> 'd rebalance_action option"

definition context_in_range :: "('d, 'a) decimal_ops_scheme \<Rightarrow> 'd strategy_context \<Rightarrow> bool" where
  "context_in_range ops ctx \<longleftrightarrow>
     dec_ge ops (sc_price ctx) (lower_price (sc_range ctx)) \<and> dec_ge ops (upper_price (sc_range ctx)) (sc_price ctx)"

definition price_change_from_entry :: "('d, 'a) decimal_arith_scheme \<Rightarrow> 'd strategy_context \<Rightarrow> 'd option" where
  "price_change_from_entry ops ctx =
     (if dec_is_zero ops (sc_entry_price ctx) then Some (dec_zero ops)
      else do { d \<leftarrow> dec_sub ops (sc_price ctx) (sc_entry_price ctx); dec_div ops d (sc_entry_price ctx) })"

definition price_change_from_midpoint :: "('d, 'a) decimal_arith_scheme \<Rightarrow> 'd strategy_context \<Rightarrow> 'd option" where
  "price_change_from_midpoint ops ctx = do {
     s \<leftarrow> dec_add ops (lower_price (sc_range ctx)) (upper_price (sc_range ctx));
     midpoint \<leftarrow> dec_div ops s (dec_new ops 2 0);
     (if dec_is_zero ops midpoint then Some (dec_zero ops)
      else do { d \<leftarrow> dec_sub ops (sc_price ctx) midpoint; dec_div ops d midpoint }) }"

definition calculate_strategy_range :: "('d, 'a) decimal_arith_scheme \<Rightarrow> 'd \<Rightarrow> 'd \<Rightarrow> 'd price_range option" where
  "calculate_strategy_range ops price width = do {
     w \<leftarrow> dec_mul ops price width;
     half_width \<leftarrow> dec_div ops w (dec_new ops 2 0);
     l \<leftarrow> dec_sub ops price half_width;
     u \<leftarrow> dec_add ops price half_width;
     Some \<lparr>lower_price = l, upper_price = u\<rparr> }"

text \<open>Every strategy rebalances with a range of its own width around the current price.\<close>

definition rebalance_to ::
    "('d, 'a) decimal_arith_scheme \<Rightarrow> 'd \<Rightarrow> 'd sim_reason \<Rightarrow> 'd strategy_context \<Rightarrow> 'd rebalance_action option" where
  "rebalance_to ops width reason ctx =
     map_option (\<lambda>r. ActRebalance r reason) (calculate_strategy_range ops (sc_price ctx) width)"

section \<open>The strategies\<close>

definition static_evaluate :: "'d strategy" where
  "static_evaluate ctx = Some ActHold"

record 'd periodic_rebalance =
  rebalance_interval :: u64
  pr_range_width_pct :: 'd
  pr_only_when_out_of_range :: bool

definition new_periodic :: "u64 \<Rightarrow> 'd \<Rightarrow> 'd periodic_rebalance" where
  "new_periodic n width = \<lparr>rebalance_interval = n, pr_range_width_pct = width, pr_only_when_out_of_range = False\<rparr>"

definition only_when_out_of_range :: "bool \<Rightarrow> 'd periodic_rebalance \<Rightarrow> 'd periodic_rebalance" where
  "only_when_out_of_range b s = s\<lparr>pr_only_when_out_of_range := b\<rparr>"

definition periodic_evaluate :: "('d, 'a) decimal_arith_scheme \<Rightarrow> 'd periodic_rebalance \<Rightarrow> 'd strategy" where
  "periodic_evaluate ops s ctx =
     (if sc_steps_since_rebalance ctx < rebalance_interval s then Some ActHold
      else if pr_only_when_out_of_range s \<and> context_in_range ops ctx then Some ActHold
      else rebalance_to ops (pr_range_width_pct s) (SrPeriodic (sc_steps_since_rebalance ctx)) ctx)"

record 'd threshold_rebalance =
  th_threshold_pct :: 'd
  th_range_width_pct :: 'd
  th_rebalance_on_out_of_range :: bool
  th_max_il_pct :: "'d option"

definition new_threshold :: "'d \<Rightarrow> 'd \<Rightarrow> 'd threshold_rebalance" where
  "new_threshold t width =
     \<lparr>th_threshold_pct = t, th_range_width_pct = width, th_rebalance_on_out_of_range = True, th_max_il_pct = None\<rparr>"

definition rebalance_on_out_of_range :: "bool \<Rightarrow> 'd threshold_rebalance \<Rightarrow> 'd threshold_rebalance" where
  "rebalance_on_out_of_range b s = s\<lparr>th_rebalance_on_out_of_range := b\<rparr>"

definition with_max_il :: "'d \<Rightarrow> 'd threshold_rebalance \<Rightarrow> 'd threshold_rebalance" where
  "with_max_il m s = s\<lparr>th_max_il_pct := Some m\<rparr>"

definition threshold_evaluate :: "('d, 'a) decimal_arith_scheme \<Rightarrow> 'd threshold_rebalance \<Rightarrow> 'd strategy" where
  "threshold_evaluate ops s ctx =
     (if (case th_max_il_pct s of Some m \<Rightarrow> dec_gt ops (dec_abs ops (sc_il_pct ctx)) (dec_abs ops m) | None \<Rightarrow> False)
      then Some (ActClose (SrILThreshold (sc_il_pct ctx)))
      else if \<not> context_in_range ops ctx \<and> th_rebalance_on_out_of_range s
      then rebalance_to ops (th_range_width_pct s) (SrOutOfRange (sc_price ctx)) ctx
      else do {
        c \<leftarrow> price_change_from_midpoint ops ctx;
        (let price_change = dec_abs ops c in
         if dec_ge ops price_change (th_threshold_pct s)
         then rebalance_to ops (th_range_width_pct s) (SrPriceThreshold price_change) ctx
         else Some ActHold) })"

record 'd il_limit_strategy =
  il_max_il_pct :: 'd
  il_range_width_pct :: 'd
  il_close_on_limit :: bool
  il_min_steps_before_check :: u64
  il_rebalance_on_out_of_range :: bool

definition new_il_limit :: "'d \<Rightarrow> 'd \<Rightarrow> 'd il_limit_strategy" where
  "new_il_limit m width =
     \<lparr>il_max_il_pct = m, il_range_width_pct = width, il_close_on_limit = False, il_min_steps_before_check = 0,
      il_rebalance_on_out_of_range = True\<rparr>"

definition with_close_on_limit :: "bool \<Rightarrow> 'd il_limit_strategy \<Rightarrow> 'd il_limit_strategy" where
  "with_close_on_limit b s = s\<lparr>il_close_on_limit := b\<rparr>"

definition with_grace_period :: "u64 \<Rightarrow> 'd il_limit_strategy \<Rightarrow> 'd il_limit_strategy" where
  "with_grace_period n s = s\<lparr>il_min_steps_before_check := n\<rparr>"

definition with_rebalance_on_out_of_range :: "bool \<Rightarrow> 'd il_limit_strategy \<Rightarrow> 'd il_limit_strategy" where
  "with_rebalance_on_out_of_range b s = s\<lparr>il_rebalance_on_out_of_range := b\<rparr>"

definition is_il_exceeded :: "('d, 'a) decimal_ops_scheme \<Rightarrow> 'd il_limit_strategy \<Rightarrow> 'd strategy_context \<Rightarrow> bool" where
  "is_il_exceeded ops s ctx \<longleftrightarrow> dec_ge ops (dec_abs ops (sc_il_pct ctx)) (il_max_il_pct s)"

definition is_grace_period_over :: "'d il_limit_strategy \<Rightarrow> 'd strategy_context \<Rightarrow> bool" where
  "is_grace_period_over s ctx \<longleftrightarrow> il_min_steps_before_check s \<le> sc_steps_since_open ctx"

definition il_limit_evaluate :: "('d, 'a) decimal_arith_scheme \<Rightarrow> 'd il_limit_strategy \<Rightarrow> 'd strategy" where
  "il_limit_evaluate ops s ctx =
     (if \<not> is_grace_period_over s ctx then Some ActHold
      else if is_il_exceeded ops s ctx
      then (if il_close_on_limit s then Some (ActClose (SrILThreshold (sc_il_pct ctx)))
            else rebalance_to ops (il_range_width_pct s) (SrILThreshold (sc_il_pct ctx)) ctx)
      else if il_rebalance_on_out_of_range s \<and> \<not> context_in_range ops ctx
      then rebalance_to ops (il_range_width_pct s) (SrOutOfRange (sc_price ctx)) ctx
      else Some ActHold)"

section \<open>The contract of a strategy\<close>

lemma rebalance_to_action:
  "rebalance_to ops width reason ctx = Some a \<longleftrightarrow>
     (\<exists>r. calculate_strategy_range ops (sc_price ctx) width = Some r \<and> a = ActRebalance r reason)"
  by (auto simp: rebalance_to_def)

lemma context_in_range_contains: "context_in_range ops ctx \<longleftrightarrow> range_contains ops (sc_range ctx) (sc_price ctx)"
  by (simp add: context_in_range_def range_contains_def)

text \<open>What the range arithmetic needs of the decimals: half of a product of a positive price and a positive
  width is not negative, and adding or subtracting it does not move the price to the wrong side.\<close>

definition width_laws :: "('d, 'a) decimal_arith_scheme \<Rightarrow> bool" where
  "width_laws ops \<longleftrightarrow>
     (\<forall>p w m h. dec_gt ops p (dec_zero ops) \<and> dec_gt ops w (dec_zero ops) \<and> dec_mul ops p w = Some m
        \<and> dec_div ops m (dec_new ops 2 0) = Some h \<longrightarrow> dec_ge ops h (dec_zero ops))
   \<and> (\<forall>p h l. dec_ge ops h (dec_zero ops) \<and> dec_sub ops p h = Some l \<longrightarrow> dec_ge ops p l)
   \<and> (\<forall>p h u. dec_ge ops h (dec_zero ops) \<and> dec_add ops p h = Some u \<longrightarrow> dec_ge ops u p)"

locale rebalance_strategy =
  fixes ops :: "('d, 'a) decimal_arith_scheme" and evaluate :: "'d strategy" and width :: 'd
  assumes recentres: "evaluate ctx = Some (ActRebalance r reason) \<Longrightarrow> calculate_strategy_range ops (sc_price ctx) width = Some r"
begin

lemma in_range_after_rebalance:
  assumes "width_laws ops" "dec_gt ops width (dec_zero ops)" "dec_gt ops (sc_price ctx) (dec_zero ops)"
    and "evaluate ctx = Some (ActRebalance r reason)"
  shows "range_contains ops r (sc_price ctx)"
proof -
  obtain m h l u where c: "dec_mul ops (sc_price ctx) width = Some m" "dec_div ops m (dec_new ops 2 0) = Some h"
      "dec_sub ops (sc_price ctx) h = Some l" "dec_add ops (sc_price ctx) h = Some u" and r: "r = \<lparr>lower_price = l, upper_price = u\<rparr>"
    using recentres [OF assms(4)] by (auto simp: calculate_strategy_range_def bind_eq_Some_conv)
  have h: "dec_ge ops h (dec_zero ops)" using assms(1-3) c(1,2) unfolding width_laws_def by blast
  have "dec_ge ops (sc_price ctx) l" "dec_ge ops u (sc_price ctx)" using assms(1) h c(3,4) unfolding width_laws_def by blast+
  then show ?thesis by (simp add: range_contains_def r)
qed

end

locale open_ended_strategy = rebalance_strategy +
  assumes never_closes: "evaluate ctx \<noteq> Some (ActClose reason)"

interpretation static: open_ended_strategy ops static_evaluate width for ops :: "('d, 'a) decimal_arith_scheme" and width :: 'd
  by unfold_locales (simp_all add: static_evaluate_def)

interpretation periodic: open_ended_strategy ops "periodic_evaluate ops s" "pr_range_width_pct s"
  for ops :: "('d, 'a) decimal_arith_scheme" and s
  by unfold_locales (auto simp: periodic_evaluate_def rebalance_to_action split: if_splits)

interpretation threshold: rebalance_strategy ops "threshold_evaluate ops s" "th_range_width_pct s"
  for ops :: "('d, 'a) decimal_arith_scheme" and s
  by unfold_locales (auto simp: threshold_evaluate_def rebalance_to_action Let_def bind_eq_Some_conv split: if_splits)

interpretation il_limit: rebalance_strategy ops "il_limit_evaluate ops s" "il_range_width_pct s"
  for ops :: "('d, 'a) decimal_arith_scheme" and s
  by unfold_locales (auto simp: il_limit_evaluate_def rebalance_to_action split: if_splits)

end
