(* ===== verification/Simulator.thy ===== *)
theory Simulator
  imports Sim_Strategies
begin

text \<open>
  The two path simulators: \<^verbatim>\<open>simulate_position\<close> of \<^verbatim>\<open>simulation/src/position_simulator.rs\<close> for a fixed range and
  \<^verbatim>\<open>simulate_with_strategy\<close> of \<^verbatim>\<open>strategy_simulator.rs\<close>, with the configuration, summary and event log of
  \<^verbatim>\<open>state.rs\<close> and \<^verbatim>\<open>event.rs\<close>. The local variables of the two loops are one record; the price path is the
  list that the generator returned, and the volume and liquidity models are parameters, the former
  with a state. A decimal operation that panics makes the simulation \<open>None\<close>.
\<close>

section \<open>Configuration, events and results\<close>

record 'd simulation_config =
  sim_capital :: 'd
  sim_range :: "'d price_range"
  sim_fee_rate :: 'd
  sim_pool_liquidity :: u128
  sim_rebalance_cost :: 'd
  sim_steps :: u64
  sim_step_duration :: u64

definition new_sim_config :: "('d, 'a) decimal_ops_scheme \<Rightarrow> 'd \<Rightarrow> 'd price_range \<Rightarrow> 'd simulation_config" where
  "new_sim_config ops capital r =
     \<lparr>sim_capital = capital, sim_range = r, sim_fee_rate = dec_new ops 3 3, sim_pool_liquidity = 1000000,
      sim_rebalance_cost = dec_one ops, sim_steps = 100, sim_step_duration = 3600\<rparr>"

definition with_fee_rate :: "'d \<Rightarrow> 'd simulation_config \<Rightarrow> 'd simulation_config" where
  "with_fee_rate x c = c\<lparr>sim_fee_rate := x\<rparr>"

definition with_pool_liquidity :: "u128 \<Rightarrow> 'd simulation_config \<Rightarrow> 'd simulation_config" where
  "with_pool_liquidity x c = c\<lparr>sim_pool_liquidity := x\<rparr>"

definition with_rebalance_cost :: "'d \<Rightarrow> 'd simulation_config \<Rightarrow> 'd simulation_config" where
  "with_rebalance_cost x c = c\<lparr>sim_rebalance_cost := x\<rparr>"

definition with_steps :: "u64 \<Rightarrow> 'd simulation_config \<Rightarrow> 'd simulation_config" where
  "with_steps n c = c\<lparr>sim_steps := n\<rparr>"

definition with_step_duration :: "u64 \<Rightarrow> 'd simulation_config \<Rightarrow> 'd simulation_config" where
  "with_step_duration n c = c\<lparr>sim_step_duration := n\<rparr>"

definition total_duration_seconds :: "'d simulation_config \<Rightarrow> u64" where
  "total_duration_seconds c = sim_steps c * sim_step_duration c"

datatype simulation_event_type =
    EvPositionOpened | EvPositionClosed | EvRebalance | EvFeeCollection | EvOutOfRange | EvBackInRange
  | EvSwap | EvLiquidityAdded | EvLiquidityRemoved

datatype 'd sim_event_data =
    SdNone
  | SdPositionOpened 'd "'d price_range"
  | SdPositionClosed 'd 'd 'd 'd
  | SdRebalance "'d price_range" "'d price_range" string 'd
  | SdFeeCollection 'd 'd
  | SdRangeTransition bool "'d price_range"
  | SdSwap 'd bool 'd

record 'd simulation_event =
  sv_step :: u64
  sv_timestamp :: "u64 option"
  sv_type :: simulation_event_type
  sv_price :: 'd
  sv_data :: "'d sim_event_data"

definition position_opened :: "u64 \<Rightarrow> 'd \<Rightarrow> 'd \<Rightarrow> 'd price_range \<Rightarrow> 'd simulation_event" where
  "position_opened step price capital r =
     \<lparr>sv_step = step, sv_timestamp = None, sv_type = EvPositionOpened, sv_price = price, sv_data = SdPositionOpened capital r\<rparr>"

definition position_closed :: "u64 \<Rightarrow> 'd \<Rightarrow> 'd \<Rightarrow> 'd \<Rightarrow> 'd \<Rightarrow> 'd \<Rightarrow> 'd simulation_event" where
  "position_closed step price final_value fees il net_pnl =
     \<lparr>sv_step = step, sv_timestamp = None, sv_type = EvPositionClosed, sv_price = price,
      sv_data = SdPositionClosed final_value fees il net_pnl\<rparr>"

definition rebalance_event :: "u64 \<Rightarrow> 'd \<Rightarrow> 'd price_range \<Rightarrow> 'd price_range \<Rightarrow> string \<Rightarrow> 'd \<Rightarrow> 'd simulation_event" where
  "rebalance_event step price old_range new_range reason cost =
     \<lparr>sv_step = step, sv_timestamp = None, sv_type = EvRebalance, sv_price = price,
      sv_data = SdRebalance old_range new_range reason cost\<rparr>"

definition fee_collection :: "u64 \<Rightarrow> 'd \<Rightarrow> 'd \<Rightarrow> 'd \<Rightarrow> 'd simulation_event" where
  "fee_collection step price amount cumulative =
     \<lparr>sv_step = step, sv_timestamp = None, sv_type = EvFeeCollection, sv_price = price, sv_data = SdFeeCollection amount cumulative\<rparr>"

definition out_of_range :: "u64 \<Rightarrow> 'd \<Rightarrow> 'd price_range \<Rightarrow> 'd simulation_event" where
  "out_of_range step price r =
     \<lparr>sv_step = step, sv_timestamp = None, sv_type = EvOutOfRange, sv_price = price, sv_data = SdRangeTransition False r\<rparr>"

definition back_in_range :: "u64 \<Rightarrow> 'd \<Rightarrow> 'd price_range \<Rightarrow> 'd simulation_event" where
  "back_in_range step price r =
     \<lparr>sv_step = step, sv_timestamp = None, sv_type = EvBackInRange, sv_price = price, sv_data = SdRangeTransition True r\<rparr>"

definition with_timestamp :: "u64 \<Rightarrow> 'd simulation_event \<Rightarrow> 'd simulation_event" where
  "with_timestamp t e = e\<lparr>sv_timestamp := Some t\<rparr>"

text \<open>The event log is the list of its events.\<close>

definition events_of_type :: "simulation_event_type \<Rightarrow> 'd simulation_event list \<Rightarrow> 'd simulation_event list" where
  "events_of_type t es = filter (\<lambda>e. sv_type e = t) es"

definition count_by_type :: "simulation_event_type \<Rightarrow> 'd simulation_event list \<Rightarrow> nat" where
  "count_by_type t es = length (filter (\<lambda>e. sv_type e = t) es)"

record 'd simulation_summary =
  ss_config :: "'d simulation_config"
  ss_entry_price :: 'd
  ss_final_price :: 'd
  ss_total_steps :: u64
  ss_steps_in_range :: u64
  ss_final_value :: 'd
  ss_total_fees :: 'd
  ss_final_il_pct :: 'd
  ss_net_pnl :: 'd
  ss_net_pnl_pct :: 'd
  ss_rebalance_count :: u32
  ss_total_rebalance_cost :: 'd
  ss_max_il_pct :: 'd
  ss_max_drawdown_pct :: 'd
  ss_hodl_value :: 'd
  ss_vs_hodl :: 'd

definition time_in_range_pct :: "('d, 'a) decimal_arith_scheme \<Rightarrow> 'd simulation_summary \<Rightarrow> 'd option" where
  "time_in_range_pct ops s =
     (if ss_total_steps s = 0 then Some (dec_zero ops)
      else dec_div ops (dec_new ops (uint (ss_steps_in_range s)) 0) (dec_new ops (uint (ss_total_steps s)) 0))"

record 'd position_simulation_result =
  sr_summary :: "'d simulation_summary"
  sr_events :: "'d simulation_event list"
  sr_prices :: "'d list"
  sr_pnl_history :: "'d list"
  sr_il_history :: "'d list"
  sr_fee_history :: "'d list"

record 'd strategy_result = "'d position_simulation_result" +
  sr_range_history :: "(u64 \<times> 'd price_range) list"

definition empty_summary :: "('d, 'a) decimal_ops_scheme \<Rightarrow> 'd simulation_config \<Rightarrow> 'd simulation_summary" where
  "empty_summary ops cfg =
     \<lparr>ss_config = cfg, ss_entry_price = dec_zero ops, ss_final_price = dec_zero ops, ss_total_steps = 0, ss_steps_in_range = 0,
      ss_final_value = sim_capital cfg, ss_total_fees = dec_zero ops, ss_final_il_pct = dec_zero ops, ss_net_pnl = dec_zero ops,
      ss_net_pnl_pct = dec_zero ops, ss_rebalance_count = 0, ss_total_rebalance_cost = dec_zero ops, ss_max_il_pct = dec_zero ops,
      ss_max_drawdown_pct = dec_zero ops, ss_hodl_value = sim_capital cfg, ss_vs_hodl = dec_zero ops\<rparr>"

section \<open>The models\<close>

record ('d, 'v) sim_models =
  get_volume :: "nat \<Rightarrow> 'v \<Rightarrow> 'd \<times> 'v"
  get_liquidity :: "nat \<Rightarrow> u128"

definition constant_models :: "'d \<Rightarrow> u128 \<Rightarrow> ('d, unit) sim_models" where
  "constant_models volume liq = \<lparr>get_volume = (\<lambda>_ v. (volume, v)), get_liquidity = (\<lambda>_. liq)\<rparr>"

section \<open>One step\<close>

text \<open>The variables of the loops.\<close>

record ('d, 'v) sim_loop =
  sl_range :: "'d price_range"
  sl_events :: "'d simulation_event list"
  sl_fees :: 'd
  sl_steps_in_range :: u64
  sl_max_il :: 'd
  sl_max_value :: 'd
  sl_max_drawdown :: 'd
  sl_rebalances :: u32
  sl_cost :: 'd
  sl_since :: u64
  sl_pnl_history :: "'d list"
  sl_il_history :: "'d list"
  sl_fee_history :: "'d list"
  sl_range_history :: "(u64 \<times> 'd price_range) list"
  sl_was_in_range :: bool
  sl_volume :: 'v

definition is_in_range :: "('d, 'a) decimal_ops_scheme \<Rightarrow> 'd \<Rightarrow> 'd price_range \<Rightarrow> bool" where
  "is_in_range ops price r \<longleftrightarrow> dec_ge ops price (lower_price r) \<and> dec_ge ops (upper_price r) price"

definition log_event :: "'d simulation_event \<Rightarrow> ('d, 'v) sim_loop \<Rightarrow> ('d, 'v) sim_loop" where
  "log_event e s = s\<lparr>sl_events := sl_events s @ [e]\<rparr>"

definition initial_loop ::
    "('d, 'a) decimal_ops_scheme \<Rightarrow> 'd simulation_config \<Rightarrow> 'v \<Rightarrow> 'd \<Rightarrow> ('d, 'v) sim_loop" where
  "initial_loop ops cfg v entry =
     \<lparr>sl_range = sim_range cfg, sl_events = [position_opened 0 entry (sim_capital cfg) (sim_range cfg)],
      sl_fees = dec_zero ops, sl_steps_in_range = 0, sl_max_il = dec_zero ops, sl_max_value = sim_capital cfg,
      sl_max_drawdown = dec_zero ops, sl_rebalances = 0, sl_cost = dec_zero ops, sl_since = 0, sl_pnl_history = [],
      sl_il_history = [], sl_fee_history = [], sl_range_history = [(0, sim_range cfg)],
      sl_was_in_range = is_in_range ops entry (sim_range cfg), sl_volume = v\<rparr>"

text \<open>Leaving and entering the range.\<close>

definition track_range :: "('d, 'a) decimal_ops_scheme \<Rightarrow> nat \<Rightarrow> 'd \<Rightarrow> ('d, 'v) sim_loop \<Rightarrow> ('d, 'v) sim_loop" where
  "track_range ops step price s =
     (let inside = is_in_range ops price (sl_range s);
          s = (if inside \<and> \<not> sl_was_in_range s then log_event (back_in_range (of_nat step) price (sl_range s)) s
               else if \<not> inside \<and> sl_was_in_range s then log_event (out_of_range (of_nat step) price (sl_range s)) s
               else s)
      in s\<lparr>sl_was_in_range := inside\<rparr>)"

definition step_fees ::
    "('d, 'a) decimal_arith_scheme \<Rightarrow> 'd decimal_conv \<Rightarrow> 'd simulation_config \<Rightarrow> 'd \<Rightarrow> u128 \<Rightarrow> 'd option" where
  "step_fees ops dc cfg volume pool_liquidity =
     (if 0 < pool_liquidity
      then do {
        own \<leftarrow> dc_from_u128 dc (sim_pool_liquidity cfg);
        pl \<leftarrow> dc_from_u128 dc pool_liquidity;
        lp_share \<leftarrow> dec_div ops own pl;
        x \<leftarrow> dec_mul ops volume (sim_fee_rate cfg);
        dec_mul ops x lp_share }
      else Some (dec_zero ops))"

text \<open>The fees of a step whose price is in the range.\<close>

definition accrue ::
    "('d, 'a) decimal_arith_scheme \<Rightarrow> 'd decimal_conv \<Rightarrow> 'd simulation_config \<Rightarrow> ('d, 'v) sim_models \<Rightarrow> nat \<Rightarrow> 'd
      \<Rightarrow> ('d, 'v) sim_loop \<Rightarrow> ('d, 'v) sim_loop option" where
  "accrue ops dc cfg m step price s =
     (if is_in_range ops price (sl_range s)
      then (let (volume, v) = get_volume m step (sl_volume s) in do {
        fees \<leftarrow> step_fees ops dc cfg volume (get_liquidity m step);
        cumulative \<leftarrow> dec_add ops (sl_fees s) fees;
        (let s = s\<lparr>sl_steps_in_range := sl_steps_in_range s + 1, sl_volume := v, sl_fees := cumulative\<rparr>
         in Some (if dec_gt ops fees (dec_zero ops) then log_event (fee_collection (of_nat step) price fees cumulative) s else s)) })
      else Some s)"

definition range_il ::
    "('d, 'a) decimal_arith_scheme \<Rightarrow> float_fns \<Rightarrow> 'd decimal_conv \<Rightarrow> 'd \<Rightarrow> 'd \<Rightarrow> 'd price_range \<Rightarrow> 'd option" where
  "range_il ops fl dc entry price r =
     il_or_zero ops (calculate_il_concentrated ops fl dc entry price (lower_price r) (upper_price r))"

definition note_il :: "('d, 'a) decimal_ops_scheme \<Rightarrow> 'd \<Rightarrow> ('d, 'v) sim_loop \<Rightarrow> ('d, 'v) sim_loop" where
  "note_il ops il s = (if dec_gt ops (sl_max_il s) il then s\<lparr>sl_max_il := il\<rparr> else s)"

text \<open>The value of a position without and with the cost of the rebalances.\<close>

definition value_without_cost :: "('d, 'a) decimal_arith_scheme \<Rightarrow> 'd simulation_config \<Rightarrow> 'd \<Rightarrow> 'd \<Rightarrow> 'd option" where
  "value_without_cost ops cfg il fees = do {
     il_amount \<leftarrow> dec_mul ops (sim_capital cfg) (dec_abs ops il);
     v \<leftarrow> dec_sub ops (sim_capital cfg) il_amount;
     dec_add ops v fees }"

definition value_with_cost :: "('d, 'a) decimal_arith_scheme \<Rightarrow> 'd simulation_config \<Rightarrow> 'd \<Rightarrow> 'd \<Rightarrow> 'd \<Rightarrow> 'd option" where
  "value_with_cost ops cfg il fees cost = do { v \<leftarrow> value_without_cost ops cfg il fees; dec_sub ops v cost }"

definition track_value ::
    "('d, 'a) decimal_arith_scheme \<Rightarrow> 'd simulation_config \<Rightarrow> 'd \<Rightarrow> 'd \<Rightarrow> ('d, 'v) sim_loop \<Rightarrow> ('d, 'v) sim_loop option" where
  "track_value ops cfg il position_value s = do {
     net_pnl \<leftarrow> dec_sub ops position_value (sim_capital cfg);
     (let max_value = (if dec_gt ops position_value (sl_max_value s) then position_value else sl_max_value s) in do {
      drawdown \<leftarrow> (if dec_is_zero ops max_value then Some (dec_zero ops)
                    else do { d \<leftarrow> dec_sub ops position_value max_value; dec_div ops d max_value });
      Some (s\<lparr>sl_max_value := max_value,
              sl_max_drawdown := (if dec_gt ops (sl_max_drawdown s) drawdown then drawdown else sl_max_drawdown s),
              sl_pnl_history := sl_pnl_history s @ [net_pnl], sl_il_history := sl_il_history s @ [il],
              sl_fee_history := sl_fee_history s @ [sl_fees s]\<rparr>) }) }"

section \<open>The fixed range\<close>

definition position_step ::
    "('d, 'a) decimal_arith_scheme \<Rightarrow> float_fns \<Rightarrow> 'd decimal_conv \<Rightarrow> 'd simulation_config \<Rightarrow> ('d, 'v) sim_models \<Rightarrow> 'd
      \<Rightarrow> nat \<Rightarrow> 'd \<Rightarrow> ('d, 'v) sim_loop \<Rightarrow> ('d, 'v) sim_loop option" where
  "position_step ops fl dc cfg m entry step price s = do {
     s \<leftarrow> accrue ops dc cfg m step price (track_range ops step price s);
     il \<leftarrow> range_il ops fl dc entry price (sim_range cfg);
     v \<leftarrow> value_without_cost ops cfg il (sl_fees s);
     track_value ops cfg il v (note_il ops il s) }"

fun position_loop ::
    "('d, 'a) decimal_arith_scheme \<Rightarrow> float_fns \<Rightarrow> 'd decimal_conv \<Rightarrow> 'd simulation_config \<Rightarrow> ('d, 'v) sim_models \<Rightarrow> 'd
      \<Rightarrow> nat \<Rightarrow> 'd list \<Rightarrow> ('d, 'v) sim_loop \<Rightarrow> ('d, 'v) sim_loop option" where
  "position_loop ops fl dc cfg m entry step [] s = Some s"
| "position_loop ops fl dc cfg m entry step (p # ps) s =
     Option.bind (position_step ops fl dc cfg m entry step p s) (position_loop ops fl dc cfg m entry (Suc step) ps)"

text \<open>The final figures, computed at the last price of the path.\<close>

definition hodl_ratio :: "('d, 'a) decimal_arith_scheme \<Rightarrow> 'd decimal_conv \<Rightarrow> 'd \<Rightarrow> 'd \<Rightarrow> f64 option" where
  "hodl_ratio ops dc entry final_price =
     (if dec_is_zero ops entry then Some (f64_lit 1)
      else map_option (\<lambda>q. case dc_to_f64 dc q of Some x \<Rightarrow> x | None \<Rightarrow> f64_lit 1) (dec_div ops final_price entry))"

definition summarise ::
    "('d, 'a) decimal_arith_scheme \<Rightarrow> 'd decimal_conv \<Rightarrow> 'd simulation_config \<Rightarrow> 'd list \<Rightarrow> 'd \<Rightarrow> 'd \<Rightarrow> ('d, 'v) sim_loop
      \<Rightarrow> 'd simulation_summary option" where
  "summarise ops dc cfg prices il final_value s = do {
     ratio \<leftarrow> hodl_ratio ops dc (hd prices) (last prices);
     net_pnl \<leftarrow> dec_sub ops final_value (sim_capital cfg);
     pct \<leftarrow> (if dec_is_zero ops (sim_capital cfg) then Some (dec_zero ops) else dec_div ops net_pnl (sim_capital cfg));
     hodl \<leftarrow> dec_mul ops (sim_capital cfg) (case dec_from_f64 ops ratio of Some x \<Rightarrow> x | None \<Rightarrow> dec_one ops);
     vs \<leftarrow> dec_sub ops final_value hodl;
     Some \<lparr>ss_config = cfg, ss_entry_price = hd prices, ss_final_price = last prices, ss_total_steps = of_nat (length prices),
       ss_steps_in_range = sl_steps_in_range s, ss_final_value = final_value, ss_total_fees = sl_fees s, ss_final_il_pct = il,
       ss_net_pnl = net_pnl, ss_net_pnl_pct = pct, ss_rebalance_count = sl_rebalances s, ss_total_rebalance_cost = sl_cost s,
       ss_max_il_pct = sl_max_il s, ss_max_drawdown_pct = sl_max_drawdown s, ss_hodl_value = hodl, ss_vs_hodl = vs\<rparr> }"

definition closing_event :: "'d list \<Rightarrow> 'd simulation_summary \<Rightarrow> 'd simulation_event" where
  "closing_event prices y =
     position_closed (of_nat (length prices)) (ss_final_price y) (ss_final_value y) (ss_total_fees y) (ss_final_il_pct y) (ss_net_pnl y)"

definition simulate_position ::
    "('d, 'a) decimal_arith_scheme \<Rightarrow> float_fns \<Rightarrow> 'd decimal_conv \<Rightarrow> 'd simulation_config \<Rightarrow> 'd list \<Rightarrow> ('d, 'v) sim_models \<Rightarrow> 'v
      \<Rightarrow> 'd position_simulation_result option" where
  "simulate_position ops fl dc cfg prices m v =
     (if prices = []
      then Some \<lparr>sr_summary = empty_summary ops cfg, sr_events = [], sr_prices = [], sr_pnl_history = [], sr_il_history = [],
                 sr_fee_history = []\<rparr>
      else do {
        s \<leftarrow> position_loop ops fl dc cfg m (hd prices) 0 prices (initial_loop ops cfg v (hd prices));
        il \<leftarrow> range_il ops fl dc (hd prices) (last prices) (sim_range cfg);
        final_value \<leftarrow> value_without_cost ops cfg il (sl_fees s);
        y \<leftarrow> summarise ops dc cfg prices il final_value s;
        (let s = log_event (closing_event prices y) s
         in Some \<lparr>sr_summary = y, sr_events = sl_events s, sr_prices = prices, sr_pnl_history = sl_pnl_history s,
                  sr_il_history = sl_il_history s, sr_fee_history = sl_fee_history s\<rparr>) })"

section \<open>With a strategy\<close>

definition format_reason :: "('d, 'a) decimal_arith_scheme \<Rightarrow> ('d \<Rightarrow> string) \<Rightarrow> 'd sim_reason \<Rightarrow> string option" where
  "format_reason ops show_dec r =
     (case r of
        SrPeriodic n \<Rightarrow> Some (''Periodic rebalance after '' @ show_nat (unat n) @ '' steps'')
      | SrPriceThreshold c \<Rightarrow> Some (''Price moved '' @ show_dec c @ ''%'')
      | SrOutOfRange p \<Rightarrow> Some (''Price '' @ show_dec p @ '' out of range'')
      | SrILThreshold il \<Rightarrow> map_option (\<lambda>x. ''IL exceeded threshold: '' @ show_dec x @ ''%'') (dec_mul ops il (dec_new ops 100 0))
      | SrManual \<Rightarrow> Some ''Manual rebalance'')"

text \<open>A rebalance: the new range, its cost, and the log.\<close>

definition apply_rebalance ::
    "('d, 'a) decimal_arith_scheme \<Rightarrow> ('d \<Rightarrow> string) \<Rightarrow> 'd simulation_config \<Rightarrow> nat \<Rightarrow> 'd \<Rightarrow> 'd price_range \<Rightarrow> 'd sim_reason
      \<Rightarrow> ('d, 'v) sim_loop \<Rightarrow> ('d, 'v) sim_loop option" where
  "apply_rebalance ops show_dec cfg step price new_range reason s = do {
     cost \<leftarrow> dec_add ops (sl_cost s) (sim_rebalance_cost cfg);
     msg \<leftarrow> format_reason ops show_dec reason;
     (let s' = s\<lparr>sl_range := new_range, sl_rebalances := sl_rebalances s + 1, sl_cost := cost, sl_since := 0,
                 sl_range_history := sl_range_history s @ [(of_nat step, new_range)]\<rparr>
      in Some ((log_event (rebalance_event (of_nat step) price (sl_range s) new_range msg (sim_rebalance_cost cfg)) s')
           \<lparr>sl_was_in_range := is_in_range ops price new_range\<rparr>)) }"

text \<open>Closing: the value and the result of the position at this step are logged.\<close>

definition apply_close ::
    "('d, 'a) decimal_arith_scheme \<Rightarrow> 'd simulation_config \<Rightarrow> nat \<Rightarrow> 'd \<Rightarrow> 'd \<Rightarrow> ('d, 'v) sim_loop \<Rightarrow> ('d, 'v) sim_loop option" where
  "apply_close ops cfg step price il s = do {
     final_value \<leftarrow> value_with_cost ops cfg il (sl_fees s) (sl_cost s);
     il_amount \<leftarrow> dec_mul ops (sim_capital cfg) (dec_abs ops il);
     x \<leftarrow> dec_sub ops (sl_fees s) il_amount;
     net_pnl \<leftarrow> dec_sub ops x (sl_cost s);
     Some (log_event (position_closed (of_nat step) price final_value (sl_fees s) il net_pnl) s) }"

definition context_of :: "'d \<Rightarrow> nat \<Rightarrow> 'd \<Rightarrow> 'd \<Rightarrow> ('d, 'v) sim_loop \<Rightarrow> 'd strategy_context" where
  "context_of entry step price il s =
     \<lparr>sc_price = price, sc_range = sl_range s, sc_entry_price = entry, sc_steps_since_open = of_nat step,
      sc_steps_since_rebalance = sl_since s, sc_il_pct = il, sc_total_fees = sl_fees s\<rparr>"

definition finish_step ::
    "('d, 'a) decimal_arith_scheme \<Rightarrow> 'd decimal_conv \<Rightarrow> 'd simulation_config \<Rightarrow> ('d, 'v) sim_models \<Rightarrow> nat \<Rightarrow> 'd \<Rightarrow> 'd
      \<Rightarrow> ('d, 'v) sim_loop \<Rightarrow> ('d, 'v) sim_loop option" where
  "finish_step ops dc cfg m step price il s = do {
     s \<leftarrow> accrue ops dc cfg m step price s;
     v \<leftarrow> value_with_cost ops cfg il (sl_fees s) (sl_cost s);
     track_value ops cfg il v s }"

text \<open>The body of the loop; the flag tells that the loop was left by \<^verbatim>\<open>break\<close>.\<close>

definition strategy_step ::
    "('d, 'a) decimal_arith_scheme \<Rightarrow> float_fns \<Rightarrow> 'd decimal_conv \<Rightarrow> ('d \<Rightarrow> string) \<Rightarrow> 'd simulation_config \<Rightarrow> ('d, 'v) sim_models
      \<Rightarrow> 'd strategy \<Rightarrow> 'd \<Rightarrow> nat \<Rightarrow> 'd \<Rightarrow> ('d, 'v) sim_loop \<Rightarrow> (bool \<times> ('d, 'v) sim_loop) option" where
  "strategy_step ops fl dc show_dec cfg m evaluate entry step price s =
     (let s = track_range ops step price s in do {
      il \<leftarrow> range_il ops fl dc entry price (sl_range s);
      (let s = note_il ops il s in do {
       action \<leftarrow> evaluate (context_of entry step price il s);
       (case action of
          ActRebalance new_range reason \<Rightarrow> do {
            s \<leftarrow> apply_rebalance ops show_dec cfg step price new_range reason s;
            map_option (Pair False) (finish_step ops dc cfg m step price il s) }
        | ActClose reason \<Rightarrow> map_option (Pair True) (apply_close ops cfg step price il s)
        | ActHold \<Rightarrow> map_option (Pair False) (finish_step ops dc cfg m step price il (s\<lparr>sl_since := sl_since s + 1\<rparr>))) }) })"

fun strategy_loop ::
    "('d, 'a) decimal_arith_scheme \<Rightarrow> float_fns \<Rightarrow> 'd decimal_conv \<Rightarrow> ('d \<Rightarrow> string) \<Rightarrow> 'd simulation_config \<Rightarrow> ('d, 'v) sim_models
      \<Rightarrow> 'd strategy \<Rightarrow> 'd \<Rightarrow> nat \<Rightarrow> 'd list \<Rightarrow> ('d, 'v) sim_loop \<Rightarrow> ('d, 'v) sim_loop option" where
  "strategy_loop ops fl dc show_dec cfg m evaluate entry step [] s = Some s"
| "strategy_loop ops fl dc show_dec cfg m evaluate entry step (p # ps) s = do {
     (stop, s) \<leftarrow> strategy_step ops fl dc show_dec cfg m evaluate entry step p s;
     (if stop then Some s else strategy_loop ops fl dc show_dec cfg m evaluate entry (Suc step) ps s) }"

definition simulate_with_strategy ::
    "('d, 'a) decimal_arith_scheme \<Rightarrow> float_fns \<Rightarrow> 'd decimal_conv \<Rightarrow> ('d \<Rightarrow> string) \<Rightarrow> 'd simulation_config \<Rightarrow> 'd list
      \<Rightarrow> ('d, 'v) sim_models \<Rightarrow> 'v \<Rightarrow> 'd strategy \<Rightarrow> 'd strategy_result option" where
  "simulate_with_strategy ops fl dc show_dec cfg prices m v evaluate =
     (if prices = []
      then Some \<lparr>sr_summary = empty_summary ops cfg, sr_events = [], sr_prices = [], sr_pnl_history = [], sr_il_history = [],
                 sr_fee_history = [], sr_range_history = []\<rparr>
      else do {
        s \<leftarrow> strategy_loop ops fl dc show_dec cfg m evaluate (hd prices) 0 prices (initial_loop ops cfg v (hd prices));
        il \<leftarrow> range_il ops fl dc (hd prices) (last prices) (sl_range s);
        final_value \<leftarrow> value_with_cost ops cfg il (sl_fees s) (sl_cost s);
        y \<leftarrow> summarise ops dc cfg prices il final_value s;
        (let s = (if \<exists>e \<in> set (sl_events s). sv_type e = EvPositionClosed then s else log_event (closing_event prices y) s)
         in Some \<lparr>sr_summary = y, sr_events = sl_events s, sr_prices = prices, sr_pnl_history = sl_pnl_history s,
                  sr_il_history = sl_il_history s, sr_fee_history = sl_fee_history s, sr_range_history = sl_range_history s\<rparr>) })"

end
