(* ===== verification/Simulator_Laws.thy ===== *)
theory Simulator_Laws
  imports Simulator
begin

text \<open>
  What the two simulators compute: a fixed range is the static strategy, the log of a run explains
  its ranges and counts, and the schedule of the periodic strategy.
\<close>

section \<open>A fixed range is the static strategy\<close>

lemma accrue_since:
  "accrue ops dc cfg m step price (s\<lparr>sl_since := n\<rparr>) = map_option (\<lambda>t. t\<lparr>sl_since := n\<rparr>) (accrue ops dc cfg m step price s)"
  by (simp add: accrue_def Let_def log_event_def split: prod.splits option.splits Option.bind_splits)

lemma accrue_note_il:
  "accrue ops dc cfg m step price (note_il ops il s) = map_option (note_il ops il) (accrue ops dc cfg m step price s)"
  by (simp add: accrue_def note_il_def Let_def log_event_def split: prod.splits option.splits Option.bind_splits)

lemma track_value_since:
  "track_value ops cfg il v (s\<lparr>sl_since := n\<rparr>) = map_option (\<lambda>t. t\<lparr>sl_since := n\<rparr>) (track_value ops cfg il v s)"
  by (simp add: track_value_def Let_def split: option.splits Option.bind_splits)

lemma track_range_since:
  "track_range ops step price (s\<lparr>sl_since := n\<rparr>) = (track_range ops step price s)\<lparr>sl_since := n\<rparr>"
  by (simp add: track_range_def Let_def log_event_def)

lemma note_il_since: "note_il ops il (s\<lparr>sl_since := n\<rparr>) = (note_il ops il s)\<lparr>sl_since := n\<rparr>"
  by (simp add: note_il_def)

lemmas since_commutes = accrue_since track_value_since track_range_since note_il_since

lemma track_range_frame [simp]:
  "sl_range (track_range ops step price s) = sl_range s" "sl_cost (track_range ops step price s) = sl_cost s"
  "sl_since (track_range ops step price s) = sl_since s" "sl_fees (track_range ops step price s) = sl_fees s"
  "sl_rebalances (track_range ops step price s) = sl_rebalances s" "sl_range_history (track_range ops step price s) = sl_range_history s"
  "sl_pnl_history (track_range ops step price s) = sl_pnl_history s" "sl_il_history (track_range ops step price s) = sl_il_history s"
  "sl_fee_history (track_range ops step price s) = sl_fee_history s" "sl_steps_in_range (track_range ops step price s) = sl_steps_in_range s"
  by (simp_all add: track_range_def Let_def log_event_def)

lemma note_il_frame [simp]:
  "sl_range (note_il ops il s) = sl_range s" "sl_cost (note_il ops il s) = sl_cost s"
  "sl_since (note_il ops il s) = sl_since s" "sl_fees (note_il ops il s) = sl_fees s" "sl_events (note_il ops il s) = sl_events s"
  "sl_rebalances (note_il ops il s) = sl_rebalances s" "sl_range_history (note_il ops il s) = sl_range_history s"
  "sl_pnl_history (note_il ops il s) = sl_pnl_history s" "sl_il_history (note_il ops il s) = sl_il_history s"
  "sl_fee_history (note_il ops il s) = sl_fee_history s" "sl_steps_in_range (note_il ops il s) = sl_steps_in_range s"
  by (simp_all add: note_il_def)

lemma accrue_frame:
  assumes "accrue ops dc cfg m step price s = Some t"
  shows "sl_range t = sl_range s" "sl_cost t = sl_cost s" "sl_since t = sl_since s" "sl_rebalances t = sl_rebalances s"
    "sl_range_history t = sl_range_history s" "sl_pnl_history t = sl_pnl_history s" "sl_il_history t = sl_il_history s"
    "sl_fee_history t = sl_fee_history s"
    "\<exists>es. sl_events t = sl_events s @ es \<and> set es \<subseteq> {e. sv_type e = EvFeeCollection}"
    "sl_steps_in_range t = sl_steps_in_range s \<or> sl_steps_in_range t = sl_steps_in_range s + 1"
  using assms by (auto simp: accrue_def Let_def log_event_def fee_collection_def bind_eq_Some_conv split: if_splits prod.splits)

lemma track_value_frame:
  assumes "track_value ops cfg il v s = Some t"
  shows "sl_range t = sl_range s" "sl_cost t = sl_cost s" "sl_since t = sl_since s" "sl_rebalances t = sl_rebalances s"
    "sl_range_history t = sl_range_history s" "sl_events t = sl_events s" "sl_steps_in_range t = sl_steps_in_range s"
    "length (sl_pnl_history t) = Suc (length (sl_pnl_history s))" "length (sl_il_history t) = Suc (length (sl_il_history s))"
    "length (sl_fee_history t) = Suc (length (sl_fee_history s))"
  using assms by (auto simp: track_value_def Let_def bind_eq_Some_conv)

lemma position_step_frame:
  assumes "position_step ops fl dc cfg m entry step price s = Some t"
  shows "sl_range t = sl_range s" "sl_cost t = sl_cost s"
  using assms by (auto simp: position_step_def bind_eq_Some_conv accrue_frame track_value_frame)

lemma position_step_since:
  "position_step ops fl dc cfg m entry step price (s\<lparr>sl_since := n\<rparr>)
     = map_option (\<lambda>t. t\<lparr>sl_since := n\<rparr>) (position_step ops fl dc cfg m entry step price s)"
  by (simp add: position_step_def since_commutes bind_map_option split: option.splits)
     (auto simp: since_commutes map_option_bind comp_def intro!: bind_option_cong)

text \<open>What the simulators need of the decimals: subtracting zero changes nothing.\<close>

definition sub_zero_law :: "('d, 'a) decimal_arith_scheme \<Rightarrow> bool" where
  "sub_zero_law ops \<longleftrightarrow> (\<forall>a. dec_sub ops a (dec_zero ops) = Some a)"

lemma value_cost_zero: "sub_zero_law ops \<Longrightarrow> value_with_cost ops cfg il fees (dec_zero ops) = value_without_cost ops cfg il fees"
  by (simp add: value_with_cost_def sub_zero_law_def)

lemma static_step:
  assumes "sub_zero_law ops" and "sl_range s = sim_range cfg" and "sl_cost s = dec_zero ops"
  shows "strategy_step ops fl dc show_dec cfg m static_evaluate entry step price s
    = map_option (\<lambda>t. (False, t\<lparr>sl_since := sl_since s + 1\<rparr>)) (position_step ops fl dc cfg m entry step price s)"
proof (cases "range_il ops fl dc entry price (sim_range cfg)")
  case None
  then show ?thesis by (simp add: strategy_step_def position_step_def assms split: Option.bind_splits)
next
  case (Some il)
  show ?thesis
  proof (cases "accrue ops dc cfg m step price (track_range ops step price s)")
    case None
    with Some show ?thesis
      by (simp add: strategy_step_def position_step_def finish_step_def static_evaluate_def assms Let_def since_commutes accrue_note_il)
  next
    case a: (Some t)
    from accrue_frame(2) [OF a] have "sl_cost t = dec_zero ops" by (simp add: assms)
    with Some a show ?thesis
      by (simp add: strategy_step_def position_step_def finish_step_def static_evaluate_def assms Let_def since_commutes accrue_note_il
          value_cost_zero option.map_comp comp_def split: option.splits Option.bind_splits)
  qed
qed


lemma static_loop:
  assumes "sub_zero_law ops" and "sl_range s = sim_range cfg" and "sl_cost s = dec_zero ops"
  shows "strategy_loop ops fl dc show_dec cfg m static_evaluate entry step ps (s\<lparr>sl_since := n\<rparr>)
    = map_option (\<lambda>t. t\<lparr>sl_since := n + of_nat (length ps)\<rparr>) (position_loop ops fl dc cfg m entry step ps s)"
  using assms(2,3)
proof (induction ps arbitrary: step s n)
  case (Cons p ps)
  show ?case
  proof (cases "position_step ops fl dc cfg m entry step p s")
    case None
    with Cons.prems show ?thesis by (simp add: static_step [OF assms(1)] position_step_since)
  next
    case (Some t)
    then have "sl_range t = sim_range cfg" "sl_cost t = dec_zero ops" using position_step_frame [OF Some] Cons.prems by simp_all
    from Cons.IH [OF this, of "Suc step" "n + 1"] Some Cons.prems show ?thesis
      by (simp add: static_step [OF assms(1)] position_step_since add.assoc)
  qed
qed simp

lemma sim_loop_since_self: "s\<lparr>sl_since := sl_since s\<rparr> = s" by simp

lemma summarise_since: "summarise ops dc cfg prices il v (s\<lparr>sl_since := n\<rparr>) = summarise ops dc cfg prices il v s"
  by (simp add: summarise_def)

text \<open>No event of a step with a fixed range closes the position.\<close>

lemma track_range_events:
  "\<exists>es. sl_events (track_range ops step price s) = sl_events s @ es \<and> set es \<subseteq> {e. sv_type e \<in> {EvBackInRange, EvOutOfRange}}"
  by (auto simp: track_range_def Let_def log_event_def back_in_range_def out_of_range_def)

lemma position_step_open:
  assumes "position_step ops fl dc cfg m entry step price s = Some t"
    and "\<forall>e \<in> set (sl_events s). sv_type e \<noteq> EvPositionClosed"
  shows "\<forall>e \<in> set (sl_events t). sv_type e \<noteq> EvPositionClosed"
proof -
  obtain s1 il v where a: "accrue ops dc cfg m step price (track_range ops step price s) = Some s1"
      and t: "track_value ops cfg il v (note_il ops il s1) = Some t"
    using assms(1) by (auto simp: position_step_def bind_eq_Some_conv)
  obtain es fs where "sl_events s1 = sl_events s @ es @ fs" "set es \<subseteq> {e. sv_type e \<in> {EvBackInRange, EvOutOfRange}}"
      "set fs \<subseteq> {e. sv_type e = EvFeeCollection}"
    using track_range_events [of ops step price s] accrue_frame(9) [OF a] by auto
  with assms(2) track_value_frame(6) [OF t] show ?thesis by auto
qed

lemma position_loop_open:
  assumes "position_loop ops fl dc cfg m entry step ps s = Some t"
    and "\<forall>e \<in> set (sl_events s). sv_type e \<noteq> EvPositionClosed" and "sl_range s = r" and "sl_cost s = c"
  shows "(\<forall>e \<in> set (sl_events t). sv_type e \<noteq> EvPositionClosed) \<and> sl_range t = r \<and> sl_cost t = c"
  using assms
proof (induction ps arbitrary: step s)
  case (Cons p ps)
  then obtain u where u: "position_step ops fl dc cfg m entry step p s = Some u" "position_loop ops fl dc cfg m entry (Suc step) ps u = Some t"
    by (auto simp: bind_eq_Some_conv)
  from Cons.IH [OF u(2) position_step_open [OF u(1) Cons.prems(2)]] position_step_frame [OF u(1)] Cons.prems(3,4)
  show ?case by simp
qed auto

text \<open>C36. The two simulators agree. Simulated with the static strategy, a position has the same summary,
  events and histories as in the simulator of a fixed range, for every path, volume and liquidity
  model, and one of them panics exactly if the other does. The decimals are only assumed to keep a
  number from which zero is subtracted.\<close>

theorem static_simulation_agrees:
  assumes "sub_zero_law ops"
  shows "map_option position_simulation_result.truncate (simulate_with_strategy ops fl dc show_dec cfg prices m v static_evaluate)
    = simulate_position ops fl dc cfg prices m v"
proof (cases "prices = []")
  case True
  then show ?thesis by (simp add: simulate_with_strategy_def simulate_position_def position_simulation_result.truncate_def)
next
  case False
  let ?s = "initial_loop ops cfg v (hd prices)"
  have i: "sl_range ?s = sim_range cfg" "sl_cost ?s = dec_zero ops" "\<forall>e \<in> set (sl_events ?s). sv_type e \<noteq> EvPositionClosed"
    by (simp_all add: initial_loop_def position_opened_def)
  have l: "strategy_loop ops fl dc show_dec cfg m static_evaluate (hd prices) 0 prices ?s
    = map_option (\<lambda>t. t\<lparr>sl_since := sl_since ?s + of_nat (length prices)\<rparr>) (position_loop ops fl dc cfg m (hd prices) 0 prices ?s)"
    using static_loop [OF assms i(1,2), where n = "sl_since ?s"] by (simp only: sim_loop_since_self)
  show ?thesis
  proof (cases "position_loop ops fl dc cfg m (hd prices) 0 prices ?s")
    case None
    with l False show ?thesis by (simp add: simulate_with_strategy_def simulate_position_def)
  next
    case (Some t)
    from position_loop_open [OF Some i(3,1,2)]
    have t: "\<forall>e \<in> set (sl_events t). sv_type e \<noteq> EvPositionClosed" "sl_range t = sim_range cfg" "sl_cost t = dec_zero ops" by auto
    show ?thesis using False
      by (auto simp: simulate_with_strategy_def simulate_position_def l Some t summarise_since value_cost_zero [OF assms] Let_def
          log_event_def position_simulation_result.truncate_def split: Option.bind_splits)
  qed
qed


definition flat_config :: "rat simulation_config" where
  "flat_config = new_sim_config rat_ops 1000 \<lparr>lower_price = 0, upper_price = 2\<rparr>"

lemmas flat_def = flat_config_def new_sim_config_def constant_models_def rat_ops_def rat_conv_def dec_zero_def dec_one_def dec_ge_def
  dec_is_zero_def

lemmas run_defs = simulate_with_strategy_def strategy_step_def finish_step_def flat_def accrue_def track_value_def track_range_def
  value_with_cost_def value_without_cost_def range_il_def il_or_zero_def calculate_il_concentrated_def note_il_def log_event_def
  initial_loop_def is_in_range_def step_fees_def summarise_def hodl_ratio_def Let_def periodic_evaluate_def new_periodic_def
  rebalance_to_def calculate_strategy_range_def apply_rebalance_def format_reason_def context_of_def

lemma rat_sub_zero: "sub_zero_law rat_ops"
  by (simp add: sub_zero_law_def rat_ops_def dec_zero_def)

theorem static_simulation_agrees_witness:
  "\<exists>r. simulate_with_strategy rat_ops approx_fns rat_conv (\<lambda>_. []) flat_config [0, 1, 3] (constant_models 10 1000000) () static_evaluate = Some r
     \<and> simulate_position rat_ops approx_fns rat_conv flat_config [0, 1, 3] (constant_models 10 1000000) () = Some (position_simulation_result.truncate r)
     \<and> ss_steps_in_range (sr_summary r) = 2"
proof -
  let ?r = "simulate_with_strategy rat_ops approx_fns rat_conv (\<lambda>_. []) flat_config [0, 1, 3] (constant_models 10 1000000) () static_evaluate"
  have "map_option (\<lambda>r. ss_steps_in_range (sr_summary r)) ?r = Some 2"
    by (simp add: run_defs static_evaluate_def)
  then obtain r where "?r = Some r" "ss_steps_in_range (sr_summary r) = 2" by auto
  with static_simulation_agrees [OF rat_sub_zero, of approx_fns rat_conv "\<lambda>_. []" flat_config "[0, 1, 3]" "constant_models 10 1000000" "()"]
  show ?thesis by simp
qed


section \<open>The log of a run\<close>

text \<open>The rebalances of a log, with the step, the old and the new range; and that each of them starts
  from the range the previous one ended with.\<close>

fun rebalances_of :: "'d simulation_event list \<Rightarrow> (u64 \<times> 'd price_range \<times> 'd price_range) list" where
  "rebalances_of [] = []"
| "rebalances_of (e # es) =
     (case sv_data e of SdRebalance old new r c \<Rightarrow> [(sv_step e, old, new)] | _ \<Rightarrow> []) @ rebalances_of es"

fun chained :: "'r \<Rightarrow> (u64 \<times> 'r \<times> 'r) list \<Rightarrow> bool" where
  "chained r [] \<longleftrightarrow> True"
| "chained r ((step, old, new) # xs) \<longleftrightarrow> old = r \<and> chained new xs"

fun last_range :: "'r \<Rightarrow> (u64 \<times> 'r \<times> 'r) list \<Rightarrow> 'r" where
  "last_range r [] = r"
| "last_range r ((step, old, new) # xs) = last_range new xs"

lemma rebalances_of_append [simp]: "rebalances_of (xs @ ys) = rebalances_of xs @ rebalances_of ys"
  by (induction xs) auto

lemma chained_append: "chained r (xs @ ys) \<longleftrightarrow> chained r xs \<and> chained (last_range r xs) ys"
  by (induction r xs rule: chained.induct) auto

lemma last_range_append: "last_range r (xs @ ys) = last_range (last_range r xs) ys"
  by (induction r xs rule: last_range.induct) auto

lemma fold_option_append: "fold_option f (xs @ ys) b = Option.bind (fold_option f xs b) (fold_option f ys)"
  by (induction xs arbitrary: b) (auto split: Option.bind_splits)

text \<open>The state of the loop after \<open>n\<close> complete steps, read off its log.\<close>

definition explained ::
    "('d, 'a) decimal_arith_scheme \<Rightarrow> 'd simulation_config \<Rightarrow> 'd \<Rightarrow> nat \<Rightarrow> 'd simulation_event list \<Rightarrow> ('d, 'v) sim_loop \<Rightarrow> bool" where
  "explained ops cfg entry n mid s \<longleftrightarrow>
     sl_events s = position_opened 0 entry (sim_capital cfg) (sim_range cfg) # mid
   \<and> (\<forall>e \<in> set mid. sv_type e \<noteq> EvPositionOpened \<and> sv_type e \<noteq> EvPositionClosed)
   \<and> count_by_type EvRebalance mid = length (rebalances_of mid)
   \<and> chained (sim_range cfg) (rebalances_of mid) \<and> sl_range s = last_range (sim_range cfg) (rebalances_of mid)
   \<and> sl_range_history s = (0, sim_range cfg) # map (\<lambda>(step, old, new). (step, new)) (rebalances_of mid)
   \<and> sl_rebalances s = of_nat (length (rebalances_of mid))
   \<and> fold_option (\<lambda>_ c. dec_add ops c (sim_rebalance_cost cfg)) (rebalances_of mid) (dec_zero ops) = Some (sl_cost s)
   \<and> length (sl_pnl_history s) = n \<and> length (sl_il_history s) = n \<and> length (sl_fee_history s) = n"

lemma explained_initial: "explained ops cfg entry 0 [] (initial_loop ops cfg v entry)"
  by (simp add: explained_def initial_loop_def count_by_type_def)

text \<open>Events that neither open, close nor rebalance.\<close>

definition neutral :: "'d simulation_event \<Rightarrow> bool" where
  "neutral e \<longleftrightarrow> sv_type e \<notin> {EvPositionOpened, EvPositionClosed, EvRebalance} \<and> (\<forall>old new r c. sv_data e \<noteq> SdRebalance old new r c)"

lemma rebalances_of_neutral: "\<forall>e \<in> set es. neutral e \<Longrightarrow> rebalances_of es = []"
  by (induction es) (auto simp: neutral_def split: sim_event_data.splits)

lemma count_neutral: "\<forall>e \<in> set es. neutral e \<Longrightarrow> count_by_type EvRebalance es = 0"
  by (induction es) (auto simp: neutral_def count_by_type_def)

lemma count_by_type_append [simp]: "count_by_type t (xs @ ys) = count_by_type t xs + count_by_type t ys"
  by (simp add: count_by_type_def)

lemma explained_neutral:
  assumes "explained ops cfg entry n mid s" and "sl_events t = sl_events s @ es" and "\<forall>e \<in> set es. neutral e"
    and "sl_range t = sl_range s" "sl_cost t = sl_cost s" "sl_rebalances t = sl_rebalances s" "sl_range_history t = sl_range_history s"
    and "length (sl_pnl_history t) = k" "length (sl_il_history t) = k" "length (sl_fee_history t) = k"
  shows "explained ops cfg entry k (mid @ es) t"
  using assms rebalances_of_neutral [OF assms(3)] count_neutral [OF assms(3)]
  by (auto simp: explained_def neutral_def)

lemma track_range_neutral:
  "\<exists>es. sl_events (track_range ops step price s) = sl_events s @ es \<and> (\<forall>e \<in> set es. neutral e)"
  by (auto simp: track_range_def Let_def log_event_def back_in_range_def out_of_range_def neutral_def)

lemma accrue_neutral:
  assumes "accrue ops dc cfg m step price s = Some t"
  shows "\<exists>es. sl_events t = sl_events s @ es \<and> (\<forall>e \<in> set es. neutral e)"
  using assms
  by (auto simp: accrue_def Let_def log_event_def fee_collection_def neutral_def bind_eq_Some_conv split: if_splits prod.splits)

lemma finish_step_explained:
  assumes "explained ops cfg entry n mid s" and "finish_step ops dc cfg m step price il s = Some t"
  shows "\<exists>mid'. explained ops cfg entry (Suc n) mid' t"
proof -
  obtain s1 v where a: "accrue ops dc cfg m step price s = Some s1" and t: "track_value ops cfg il v s1 = Some t"
    using assms(2) by (auto simp: finish_step_def bind_eq_Some_conv)
  obtain es where es: "sl_events s1 = sl_events s @ es" "\<forall>e \<in> set es. neutral e" using accrue_neutral [OF a] by auto
  note f = accrue_frame [OF a] track_value_frame [OF t]
  have "explained ops cfg entry (Suc n) (mid @ es) t"
    by (rule explained_neutral [OF assms(1) _ es(2)]) (use f es(1) assms(1) in \<open>simp_all add: explained_def\<close>)
  then show ?thesis ..
qed

lemma noted_explained:
  assumes "explained ops cfg entry n mid s"
  shows "\<exists>mid'. explained ops cfg entry n mid' (note_il ops il (track_range ops step price s))"
proof -
  obtain es where es: "sl_events (track_range ops step price s) = sl_events s @ es" "\<forall>e \<in> set es. neutral e"
    using track_range_neutral [of ops step price s] by auto
  have "explained ops cfg entry n (mid @ es) (note_il ops il (track_range ops step price s))"
    by (rule explained_neutral [OF assms _ es(2)]) (use es(1) assms in \<open>simp_all add: explained_def\<close>)
  then show ?thesis ..
qed

lemma apply_rebalance_explained:
  assumes "explained ops cfg entry n mid s" and "apply_rebalance ops show_dec cfg step price new_range reason s = Some t"
  shows "\<exists>mid'. explained ops cfg entry n mid' t"
proof -
  obtain cost msg where c: "dec_add ops (sl_cost s) (sim_rebalance_cost cfg) = Some cost" and t: "t =
      (log_event (rebalance_event (of_nat step) price (sl_range s) new_range msg (sim_rebalance_cost cfg))
        (s\<lparr>sl_range := new_range, sl_rebalances := sl_rebalances s + 1, sl_cost := cost, sl_since := 0,
           sl_range_history := sl_range_history s @ [(of_nat step, new_range)]\<rparr>))\<lparr>sl_was_in_range := is_in_range ops price new_range\<rparr>"
    using assms(2) by (auto simp: apply_rebalance_def bind_eq_Some_conv)
  have "explained ops cfg entry n (mid @ [rebalance_event (of_nat step) price (sl_range s) new_range msg (sim_rebalance_cost cfg)]) t"
    using assms(1) c unfolding t
    by (auto simp: explained_def log_event_def rebalance_event_def chained_append last_range_append fold_option_append count_by_type_def)
  then show ?thesis ..
qed

lemma strategy_step_explained:
  assumes "explained ops cfg entry n mid s"
    and "strategy_step ops fl dc show_dec cfg m evaluate entry step price s = Some (stop, t)"
  shows "if stop then \<exists>mid' e t'. explained ops cfg entry n mid' t' \<and> t = log_event e t' \<and> sv_type e = EvPositionClosed
         else \<exists>mid'. explained ops cfg entry (Suc n) mid' t"
proof -
  obtain il action where ev: "evaluate (context_of entry step price il (note_il ops il (track_range ops step price s))) = Some action"
    and r: "(case action of
          ActRebalance new_range reason \<Rightarrow> do {
            s \<leftarrow> apply_rebalance ops show_dec cfg step price new_range reason (note_il ops il (track_range ops step price s));
            map_option (Pair False) (finish_step ops dc cfg m step price il s) }
        | ActClose reason \<Rightarrow> map_option (Pair True) (apply_close ops cfg step price il (note_il ops il (track_range ops step price s)))
        | ActHold \<Rightarrow> map_option (Pair False) (finish_step ops dc cfg m step price il
            ((note_il ops il (track_range ops step price s))\<lparr>sl_since := sl_since s + 1\<rparr>))) = Some (stop, t)"
    using assms(2) by (auto simp: strategy_step_def Let_def bind_eq_Some_conv)
  obtain mid1 where m1: "explained ops cfg entry n mid1 (note_il ops il (track_range ops step price s))"
    using noted_explained [OF assms(1)] by blast
  have m2: "explained ops cfg entry n mid1 ((note_il ops il (track_range ops step price s))\<lparr>sl_since := sl_since s + 1\<rparr>)"
    using m1 by (simp add: explained_def)
  show ?thesis
  proof (cases action)
    case ActHold
    with r finish_step_explained [OF m2] show ?thesis by auto
  next
    case (ActRebalance new_range reason)
    with r obtain u where u: "apply_rebalance ops show_dec cfg step price new_range reason (note_il ops il (track_range ops step price s)) = Some u"
      and f: "finish_step ops dc cfg m step price il u = Some t" "\<not> stop"
      by (auto simp: bind_eq_Some_conv)
    from apply_rebalance_explained [OF m1 u] obtain mid2 where "explained ops cfg entry n mid2 u" by blast
    from finish_step_explained [OF this f(1)] f(2) show ?thesis by simp
  next
    case (ActClose reason)
    with r obtain e where "stop" "t = log_event e (note_il ops il (track_range ops step price s))" "sv_type e = EvPositionClosed"
      by (auto simp: apply_close_def bind_eq_Some_conv position_closed_def)
    with m1 show ?thesis by auto
  qed
qed


lemma strategy_loop_explained:
  assumes "explained ops cfg entry n mid s"
    and "strategy_loop ops fl dc show_dec cfg m evaluate entry step ps s = Some t"
  shows "(\<exists>mid' e t' k. explained ops cfg entry k mid' t' \<and> t = log_event e t' \<and> sv_type e = EvPositionClosed \<and> k \<le> n + length ps)
    \<or> (\<exists>mid'. explained ops cfg entry (n + length ps) mid' t)"
  using assms
proof (induction ps arbitrary: step n mid s)
  case (Cons p ps)
  then obtain stop u where u: "strategy_step ops fl dc show_dec cfg m evaluate entry step p s = Some (stop, u)"
    and r: "(if stop then Some u else strategy_loop ops fl dc show_dec cfg m evaluate entry (Suc step) ps u) = Some t"
    by (auto simp: bind_eq_Some_conv)
  note e = strategy_step_explained [OF Cons.prems(1) u]
  show ?case
  proof (cases stop)
    case True
    with e r obtain mid' e t' where "explained ops cfg entry n mid' t' \<and> t = log_event e t' \<and> sv_type e = EvPositionClosed" by auto
    moreover have "n \<le> n + length (p # ps)" by simp
    ultimately show ?thesis by blast
  next
    case False
    with e obtain mid' where "explained ops cfg entry (Suc n) mid' u" by auto
    from Cons.IH [OF this] r False show ?thesis by simp
  qed
qed auto

text \<open>C34. The log of a simulation explains its result. Whatever the strategy, the log of a run opens with
  the opening of the position and ends with its only closing; in between, every rebalance starts
  from the range that the previous one set, the range history is the first range followed by these,
  and the number of rebalances and their total cost in the summary are those of the log. The three
  histories have one entry for every step that was completed.\<close>

theorem strategy_log_explains:
  fixes ops :: "('d, 'a) decimal_arith_scheme" and v :: 'v
  assumes "simulate_with_strategy ops fl dc show_dec cfg prices m v evaluate = Some r" and "prices \<noteq> []"
  shows "\<exists>mid closing.
       sr_events r = position_opened 0 (hd prices) (sim_capital cfg) (sim_range cfg) # mid @ [closing]
     \<and> sv_type closing = EvPositionClosed \<and> count_by_type EvPositionOpened mid = 0 \<and> count_by_type EvPositionClosed mid = 0
     \<and> chained (sim_range cfg) (rebalances_of mid)
     \<and> sr_range_history r = (0, sim_range cfg) # map (\<lambda>(step, old, new). (step, new)) (rebalances_of mid)
     \<and> ss_rebalance_count (sr_summary r) = of_nat (count_by_type EvRebalance (sr_events r))
     \<and> count_by_type EvRebalance (sr_events r) = length (rebalances_of mid)
     \<and> fold_option (\<lambda>_ c. dec_add ops c (sim_rebalance_cost cfg)) (rebalances_of mid) (dec_zero ops)
         = Some (ss_total_rebalance_cost (sr_summary r))
     \<and> length (sr_pnl_history r) = length (sr_il_history r) \<and> length (sr_fee_history r) = length (sr_il_history r)
     \<and> length (sr_il_history r) \<le> length prices"
proof -
  let ?i = "initial_loop ops cfg v (hd prices)"
  obtain s il fv y where l: "strategy_loop ops fl dc show_dec cfg m evaluate (hd prices) 0 prices ?i = Some s"
    and y: "summarise ops dc cfg prices il fv s = Some y" and r: "r = (let s = (if \<exists>e \<in> set (sl_events s). sv_type e = EvPositionClosed
        then s else log_event (closing_event prices y) s) in \<lparr>sr_summary = y, sr_events = sl_events s, sr_prices = prices,
        sr_pnl_history = sl_pnl_history s, sr_il_history = sl_il_history s, sr_fee_history = sl_fee_history s, sr_range_history = sl_range_history s\<rparr>)"
    using assms by (auto simp: simulate_with_strategy_def bind_eq_Some_conv Let_def)
  have sy: "ss_rebalance_count y = sl_rebalances s" "ss_total_rebalance_cost y = sl_cost s"
    using y by (auto simp: summarise_def bind_eq_Some_conv)
  have "\<exists>mid e (t' :: ('d, 'v) sim_loop) k. explained ops cfg (hd prices) k mid t' \<and> sv_type e = EvPositionClosed \<and> k \<le> length prices
      \<and> r = \<lparr>sr_summary = y, sr_events = sl_events t' @ [e], sr_prices = prices, sr_pnl_history = sl_pnl_history t',
              sr_il_history = sl_il_history t', sr_fee_history = sl_fee_history t', sr_range_history = sl_range_history t'\<rparr>
      \<and> sl_rebalances s = sl_rebalances t' \<and> sl_cost s = sl_cost t'"
    using strategy_loop_explained [OF explained_initial l]
  proof (elim disjE exE conjE)
    fix mid e t' k
    assume "explained ops cfg (hd prices) k mid t'" "s = log_event e t'" "sv_type e = EvPositionClosed" "k \<le> 0 + length prices"
    then show ?thesis
      by (intro exI [of _ mid] exI [of _ e] exI [of _ t'] exI [of _ k]) (simp add: r log_event_def)
  next
    fix mid assume x: "explained ops cfg (hd prices) (0 + length prices) mid s"
    then have "\<not> (\<exists>e \<in> set (sl_events s). sv_type e = EvPositionClosed)" by (auto simp: explained_def position_opened_def)
    with x show ?thesis
      by (intro exI [of _ mid] exI [of _ "closing_event prices y"] exI [of _ s] exI [of _ "length prices"])
        (simp add: r log_event_def closing_event_def position_closed_def)
  qed
  then obtain mid e and t' :: "('d, 'v) sim_loop" and k where "explained ops cfg (hd prices) k mid t'" "sv_type e = EvPositionClosed" "k \<le> length prices"
      "r = \<lparr>sr_summary = y, sr_events = sl_events t' @ [e], sr_prices = prices, sr_pnl_history = sl_pnl_history t',
              sr_il_history = sl_il_history t', sr_fee_history = sl_fee_history t', sr_range_history = sl_range_history t'\<rparr>"
      "sl_rebalances s = sl_rebalances t'" "sl_cost s = sl_cost t'" by blast
  then show ?thesis
    by (intro exI [of _ mid] exI [of _ e]) (auto simp: explained_def sy count_by_type_def position_opened_def filter_empty_conv)
qed


text \<open>A run of the periodic strategy with a rebalance after two steps.\<close>

abbreviation periodic_run :: "rat strategy_result option" where
  "periodic_run \<equiv> simulate_with_strategy rat_ops approx_fns rat_conv (\<lambda>_. []) flat_config [0, 1, 1, 2, 2, 3] (constant_models 10 1000000) ()
     (periodic_evaluate rat_ops (new_periodic 2 (1 / 10)))"

lemma periodic_run_result: "map_option (\<lambda>r. (ss_rebalance_count (sr_summary r), map fst (sr_range_history r))) periodic_run = Some (2, [0, 2, 5])"
  by (simp add: run_defs)

theorem strategy_log_explains_witness:
  "\<exists>r mid closing. periodic_run = Some r
     \<and> sr_events r = position_opened 0 0 1000 \<lparr>lower_price = 0, upper_price = 2\<rparr> # mid @ [closing]
     \<and> sv_type closing = EvPositionClosed \<and> length (rebalances_of mid) = 2"
proof -
  obtain r where r: "periodic_run = Some r" and n: "map fst (sr_range_history r) = [0, 2, 5]" using periodic_run_result by auto
  from strategy_log_explains [OF r] obtain mid closing where
    m: "sr_events r = position_opened 0 (hd [0, 1, 1, 2, 2, 3]) (sim_capital flat_config) (sim_range flat_config) # mid @ [closing]"
       "sv_type closing = EvPositionClosed"
       "sr_range_history r = (0, sim_range flat_config) # map (\<lambda>(step, old, new). (step, new)) (rebalances_of mid)" by auto
  from m(3) n have "length (rebalances_of mid) = 2" by (metis length_Cons length_map list.size(3) One_nat_def Suc_1 Suc_inject)
  with m r show ?thesis by (auto simp: flat_config_def new_sim_config_def)
qed

text \<open>The summary of a run is taken at the end of the path, also when the strategy closed the position
  earlier: the final value is computed from the last price, and all steps of the path are counted.\<close>

lemma summary_at_end_of_path:
  assumes "simulate_with_strategy ops fl dc show_dec cfg prices m v evaluate = Some r" and "prices \<noteq> []"
  shows "ss_final_price (sr_summary r) = last prices \<and> ss_total_steps (sr_summary r) = of_nat (length prices)
    \<and> (\<exists>r0. range_il ops fl dc (hd prices) (last prices) r0 = Some (ss_final_il_pct (sr_summary r)))"
  using assms by (auto simp: simulate_with_strategy_def summarise_def bind_eq_Some_conv Let_def)

section \<open>The schedule of the periodic strategy\<close>

lemma apply_rebalance_schedule:
  assumes "apply_rebalance ops show_dec cfg step price new_range reason s = Some t"
  shows "sl_since t = 0" "map fst (sl_range_history t) = map fst (sl_range_history s) @ [of_nat step]"
  using assms by (auto simp: apply_rebalance_def bind_eq_Some_conv Let_def log_event_def)

lemma finish_step_schedule:
  assumes "finish_step ops dc cfg m step price il s = Some t"
  shows "sl_since t = sl_since s" "sl_range_history t = sl_range_history s"
  using assms by (auto simp: finish_step_def bind_eq_Some_conv accrue_frame track_value_frame)

lemma of_nat_u64_less:
  assumes "a < 2 ^ 64" shows "(of_nat a :: u64) < w \<longleftrightarrow> a < unat w"
  using assms by (simp add: word_less_nat_alt unat_of_nat take_bit_nat_eq_self)

lemma periodic_step:
  assumes "strategy_step ops fl dc show_dec cfg m (periodic_evaluate ops p) entry step price s = Some (stop, t)"
    and "\<not> pr_only_when_out_of_range p" and "sl_since s = of_nat (step mod Suc (unat (rebalance_interval p)))"
    and "unat (rebalance_interval p) < 2 ^ 64 - 1"
  shows "\<not> stop \<and> sl_since t = of_nat (Suc step mod Suc (unat (rebalance_interval p)))
    \<and> map fst (sl_range_history t) = map fst (sl_range_history s)
        @ (if step mod Suc (unat (rebalance_interval p)) = unat (rebalance_interval p) then [of_nat step] else [])"
proof -
  let ?n = "unat (rebalance_interval p)"
  obtain il where il: "range_il ops fl dc entry price (sl_range s) = Some il" using assms(1) by (auto simp: strategy_step_def Let_def bind_eq_Some_conv)
  have b: "step mod Suc ?n \<le> ?n" using mod_less_divisor [of "Suc ?n" step] by simp
  then have "(of_nat (step mod Suc ?n) :: u64) < rebalance_interval p \<longleftrightarrow> step mod Suc ?n < ?n"
    using assms(4) by (intro of_nat_u64_less) linarith
  with b have lt: "sl_since s < rebalance_interval p \<longleftrightarrow> step mod Suc ?n \<noteq> ?n" unfolding assms(3) by (metis le_neq_implies_less less_not_refl)
  show ?thesis
  proof (cases "step mod Suc ?n = ?n")
    case False
    then have "periodic_evaluate ops p (context_of entry step price il (note_il ops il (track_range ops step price s))) = Some ActHold"
      using lt by (simp add: periodic_evaluate_def context_of_def)
    with assms(1) il obtain f: "\<not> stop" and "finish_step ops dc cfg m step price il
        ((note_il ops il (track_range ops step price s))\<lparr>sl_since := sl_since s + 1\<rparr>) = Some t"
      by (auto simp: strategy_step_def Let_def)
    from finish_step_schedule [OF this(2)] f False show ?thesis by (simp add: assms(3) mod_Suc)
  next
    case True
    then obtain r where "periodic_evaluate ops p (context_of entry step price il (note_il ops il (track_range ops step price s)))
        = Some (ActRebalance r (SrPeriodic (sl_since s)))"
      using lt assms(1,2) il
      by (auto simp: strategy_step_def Let_def periodic_evaluate_def context_of_def rebalance_to_def bind_eq_Some_conv)
    with assms(1) il obtain u where f: "\<not> stop" and u: "apply_rebalance ops show_dec cfg step price r (SrPeriodic (sl_since s))
          (note_il ops il (track_range ops step price s)) = Some u" and t: "finish_step ops dc cfg m step price il u = Some t"
      by (auto simp: strategy_step_def Let_def bind_eq_Some_conv)
    from apply_rebalance_schedule [OF u] finish_step_schedule [OF t] f True show ?thesis by (simp add: mod_Suc)
  qed
qed

lemma periodic_loop:
  assumes "strategy_loop ops fl dc show_dec cfg m (periodic_evaluate ops p) entry step ps s = Some t"
    and "\<not> pr_only_when_out_of_range p" and "sl_since s = of_nat (step mod Suc (unat (rebalance_interval p)))"
    and "unat (rebalance_interval p) < 2 ^ 64 - 1"
  shows "map fst (sl_range_history t) = map fst (sl_range_history s)
    @ map of_nat (filter (\<lambda>k. k mod Suc (unat (rebalance_interval p)) = unat (rebalance_interval p)) [step ..< step + length ps])"
  using assms
proof (induction ps arbitrary: step s)
  case (Cons x ps)
  then obtain stop u where u: "strategy_step ops fl dc show_dec cfg m (periodic_evaluate ops p) entry step x s = Some (stop, u)"
    and r: "(if stop then Some u else strategy_loop ops fl dc show_dec cfg m (periodic_evaluate ops p) entry (Suc step) ps u) = Some t"
    by (auto simp: bind_eq_Some_conv)
  note p = periodic_step [OF u Cons.prems(2-4)]
  have "[step ..< step + length (x # ps)] = step # [Suc step ..< Suc step + length ps]" by (simp add: upt_conv_Cons del: upt_Suc)
  moreover have "map fst (sl_range_history t) = map fst (sl_range_history u)
    @ map of_nat (filter (\<lambda>k. k mod Suc (unat (rebalance_interval p)) = unat (rebalance_interval p)) [Suc step ..< Suc step + length ps])"
    using Cons.IH [of "Suc step" u] r p Cons.prems(2,4) by simp
  ultimately show ?case using p by simp
qed simp

end
