(* ===== verification/Position_Tracker.thy ===== *)
theory Position_Tracker
  imports Simulator_Laws
begin

text \<open>
  The position tracker of \<^verbatim>\<open>simulation/src/position_tracker.rs\<close>, which values a position by segments between
  rebalances, and what it has in common with the simulators: the schedule of the periodic strategy
  and the greatest drawdown.
\<close>

section \<open>The tracker\<close>

record 'd position_snapshot =
  sn_step :: u64
  sn_price :: 'd
  sn_range :: "'d price_range"
  sn_in_range :: bool
  sn_cumulative_fees :: 'd
  sn_il_pct :: 'd
  sn_value :: 'd
  sn_net_pnl :: 'd
  sn_action :: "'d rebalance_action option"

record 'd position_tracker =
  tr_initial_capital :: 'd
  tr_entry_price :: 'd
  tr_range :: "'d price_range"
  tr_snapshots :: "'d position_snapshot list"
  tr_since_rebalance :: u64
  tr_rebalance_count :: u32
  tr_total_cost :: 'd
  tr_rebalance_cost :: 'd
  tr_fees :: 'd
  tr_step :: u64
  tr_segment_entry_price :: 'd
  tr_segment_capital :: 'd
  tr_segment_fees :: 'd
  tr_segment_cost :: 'd

definition new_position_tracker ::
    "('d, 'a) decimal_ops_scheme \<Rightarrow> 'd \<Rightarrow> 'd \<Rightarrow> 'd price_range \<Rightarrow> 'd \<Rightarrow> 'd position_tracker" where
  "new_position_tracker ops capital entry r cost =
     \<lparr>tr_initial_capital = capital, tr_entry_price = entry, tr_range = r, tr_snapshots = [], tr_since_rebalance = 0,
      tr_rebalance_count = 0, tr_total_cost = dec_zero ops, tr_rebalance_cost = cost, tr_fees = dec_zero ops, tr_step = 0,
      tr_segment_entry_price = entry, tr_segment_capital = capital, tr_segment_fees = dec_zero ops, tr_segment_cost = dec_zero ops\<rparr>"

definition tracker_rebalance ::
    "('d, 'a) decimal_arith_scheme \<Rightarrow> 'd price_range \<Rightarrow> 'd \<Rightarrow> 'd \<Rightarrow> 'd position_tracker \<Rightarrow> 'd position_tracker option" where
  "tracker_rebalance ops new_range price position_value t = do {
     capital \<leftarrow> dec_sub ops position_value (tr_rebalance_cost t);
     cost \<leftarrow> dec_add ops (tr_total_cost t) (tr_rebalance_cost t);
     Some (t\<lparr>tr_segment_entry_price := price, tr_segment_capital := capital, tr_segment_fees := tr_fees t,
             tr_segment_cost := tr_total_cost t, tr_range := new_range, tr_since_rebalance := 0,
             tr_rebalance_count := tr_rebalance_count t + 1, tr_total_cost := cost\<rparr>) }"

text \<open>The value of the position in its current segment.\<close>

definition segment_value :: "('d, 'a) decimal_arith_scheme \<Rightarrow> 'd \<Rightarrow> 'd position_tracker \<Rightarrow> 'd option" where
  "segment_value ops il t = do {
     fees \<leftarrow> dec_sub ops (tr_fees t) (tr_segment_fees t);
     costs \<leftarrow> dec_sub ops (tr_total_cost t) (tr_segment_cost t);
     il_amount \<leftarrow> dec_mul ops (tr_segment_capital t) il;
     x \<leftarrow> dec_add ops (tr_segment_capital t) il_amount;
     y \<leftarrow> dec_add ops x fees;
     dec_sub ops y costs }"

definition tracker_context :: "'d \<Rightarrow> 'd \<Rightarrow> 'd position_tracker \<Rightarrow> 'd strategy_context" where
  "tracker_context price il t =
     \<lparr>sc_price = price, sc_range = tr_range t, sc_entry_price = tr_entry_price t, sc_steps_since_open = tr_step t,
      sc_steps_since_rebalance = tr_since_rebalance t, sc_il_pct = il, sc_total_fees = tr_fees t\<rparr>"

definition record_step ::
    "('d, 'a) decimal_arith_scheme \<Rightarrow> float_fns \<Rightarrow> 'd decimal_conv \<Rightarrow> 'd \<Rightarrow> 'd \<Rightarrow> 'd strategy option \<Rightarrow> 'd position_tracker
      \<Rightarrow> ('d rebalance_action option \<times> 'd position_tracker) option" where
  "record_step ops fl dc price fees strategy t = do {
     cumulative \<leftarrow> dec_add ops (tr_fees t) fees;
     (let t = t\<lparr>tr_step := tr_step t + 1, tr_since_rebalance := tr_since_rebalance t + 1, tr_fees := cumulative\<rparr> in do {
      il \<leftarrow> range_il ops fl dc (tr_segment_entry_price t) price (tr_range t);
      position_value \<leftarrow> segment_value ops il t;
      net_pnl \<leftarrow> dec_sub ops position_value (tr_initial_capital t);
      (let inside = dec_ge ops price (lower_price (tr_range t)) \<and> dec_ge ops (upper_price (tr_range t)) price in do {
       action \<leftarrow> (case strategy of None \<Rightarrow> Some None | Some f \<Rightarrow> map_option Some (f (tracker_context price il t)));
       (final_action, t) \<leftarrow> (case action of
           Some (ActRebalance new_range reason) \<Rightarrow> map_option (Pair action) (tracker_rebalance ops new_range price position_value t)
         | Some (ActClose reason) \<Rightarrow> Some (action, t)
         | Some ActHold \<Rightarrow> Some (None, t)
         | None \<Rightarrow> Some (None, t));
       Some (final_action, t\<lparr>tr_snapshots := tr_snapshots t @ [\<lparr>sn_step = tr_step t, sn_price = price, sn_range = tr_range t,
         sn_in_range = inside, sn_cumulative_fees = tr_fees t, sn_il_pct = il, sn_value = position_value, sn_net_pnl = net_pnl,
         sn_action = final_action\<rparr>]\<rparr>) }) }) }"

record 'd tracker_summary =
  ts_total_steps :: u64
  ts_final_value :: 'd
  ts_final_pnl :: 'd
  ts_final_il_pct :: 'd
  ts_final_il_segment_pct :: "'d option"
  ts_final_il_vs_hodl_ex_fees_pct :: 'd
  ts_total_fees :: 'd
  ts_time_in_range_pct :: 'd
  ts_rebalance_count :: u32
  ts_total_rebalance_cost :: 'd
  ts_max_drawdown :: 'd
  ts_hodl_value :: 'd
  ts_vs_hodl :: 'd

text \<open>The loop over the snapshots: the highest value so far and the greatest loss from it.\<close>

fun drawdown_loop :: "('d, 'a) decimal_arith_scheme \<Rightarrow> 'd list \<Rightarrow> 'd \<times> 'd \<Rightarrow> ('d \<times> 'd) option" where
  "drawdown_loop ops [] (peak, max_drawdown) = Some (peak, max_drawdown)"
| "drawdown_loop ops (v # vs) (peak, max_drawdown) =
     (let peak = (if dec_gt ops v peak then v else peak) in do {
      d \<leftarrow> dec_sub ops peak v;
      drawdown \<leftarrow> dec_div ops d peak;
      drawdown_loop ops vs (peak, if dec_gt ops drawdown max_drawdown then drawdown else max_drawdown) })"

definition tracker_summary_of :: "('d, 'a) decimal_arith_scheme \<Rightarrow> 'd position_tracker \<Rightarrow> 'd tracker_summary option" where
  "tracker_summary_of ops t =
     (let total_steps = (of_nat (length (tr_snapshots t)) :: u64);
          in_range_steps = (of_nat (length (filter sn_in_range (tr_snapshots t))) :: u64);
          final = (if tr_snapshots t = [] then None else Some (last (tr_snapshots t)));
          final_value = (case final of Some s \<Rightarrow> sn_value s | None \<Rightarrow> tr_initial_capital t);
          hodl_value = tr_initial_capital t
      in do {
        time \<leftarrow> (if 0 < total_steps then dec_div ops (dec_new ops (uint in_range_steps) 0) (dec_new ops (uint total_steps) 0)
                   else Some (dec_zero ops));
        (peak, max_drawdown) \<leftarrow> drawdown_loop ops (map sn_value (tr_snapshots t)) (tr_initial_capital t, dec_zero ops);
        vs_hodl \<leftarrow> dec_sub ops final_value hodl_value;
        a \<leftarrow> dec_sub ops final_value (tr_fees t);
        before_fees \<leftarrow> dec_add ops a (tr_total_cost t);
        il_pct \<leftarrow> (if dec_gt ops (tr_initial_capital t) (dec_zero ops)
                     then do { b \<leftarrow> dec_sub ops before_fees hodl_value; dec_div ops b (tr_initial_capital t) }
                     else Some (dec_zero ops));
        Some \<lparr>ts_total_steps = total_steps, ts_final_value = final_value,
          ts_final_pnl = (case final of Some s \<Rightarrow> sn_net_pnl s | None \<Rightarrow> dec_zero ops), ts_final_il_pct = il_pct,
          ts_final_il_segment_pct = map_option sn_il_pct final, ts_final_il_vs_hodl_ex_fees_pct = il_pct, ts_total_fees = tr_fees t,
          ts_time_in_range_pct = time, ts_rebalance_count = tr_rebalance_count t, ts_total_rebalance_cost = tr_total_cost t,
          ts_max_drawdown = max_drawdown, ts_hodl_value = hodl_value, ts_vs_hodl = vs_hodl\<rparr> })"

section \<open>A step of the tracker\<close>

lemma record_stepE:
  assumes "record_step ops fl dc price fees strategy t = Some (a, t')"
  obtains cumulative il v pnl b t1 where
    "dec_add ops (tr_fees t) fees = Some cumulative"
    "range_il ops fl dc (tr_segment_entry_price t) price (tr_range t) = Some il"
    "segment_value ops il (t\<lparr>tr_step := tr_step t + 1, tr_since_rebalance := tr_since_rebalance t + 1, tr_fees := cumulative\<rparr>) = Some v"
    "case strategy of None \<Rightarrow> b = None
       | Some f \<Rightarrow> \<exists>x. f (tracker_context price il (t\<lparr>tr_step := tr_step t + 1, tr_since_rebalance := tr_since_rebalance t + 1,
           tr_fees := cumulative\<rparr>)) = Some x \<and> b = Some x"
    "case b of Some (ActRebalance r reason) \<Rightarrow> a = b \<and> tracker_rebalance ops r price v
         (t\<lparr>tr_step := tr_step t + 1, tr_since_rebalance := tr_since_rebalance t + 1, tr_fees := cumulative\<rparr>) = Some t1
       | Some (ActClose reason) \<Rightarrow> a = b \<and> t1 = t\<lparr>tr_step := tr_step t + 1, tr_since_rebalance := tr_since_rebalance t + 1, tr_fees := cumulative\<rparr>
       | _ \<Rightarrow> a = None \<and> t1 = t\<lparr>tr_step := tr_step t + 1, tr_since_rebalance := tr_since_rebalance t + 1, tr_fees := cumulative\<rparr>"
    "t' = t1\<lparr>tr_snapshots := tr_snapshots t1 @ [\<lparr>sn_step = tr_step t1, sn_price = price, sn_range = tr_range t1,
         sn_in_range = (dec_ge ops price (lower_price (tr_range t)) \<and> dec_ge ops (upper_price (tr_range t)) price),
         sn_cumulative_fees = tr_fees t1, sn_il_pct = il, sn_value = v, sn_net_pnl = pnl, sn_action = a\<rparr>]\<rparr>"
  using assms
  by (fastforce simp: record_step_def Let_def bind_eq_Some_conv split: option.splits rebalance_action.splits)

lemma tracker_rebalanceD:
  assumes "tracker_rebalance ops r price v t = Some t'"
  shows "tr_step t' = tr_step t" "tr_since_rebalance t' = 0" "tr_snapshots t' = tr_snapshots t" "tr_fees t' = tr_fees t"
    "tr_range t' = r" "tr_segment_entry_price t' = price" "tr_segment_fees t' = tr_fees t" "tr_segment_cost t' = tr_total_cost t"
    "tr_rebalance_cost t' = tr_rebalance_cost t" "tr_initial_capital t' = tr_initial_capital t"
    "dec_sub ops v (tr_rebalance_cost t) = Some (tr_segment_capital t')"
    "dec_add ops (tr_total_cost t) (tr_rebalance_cost t) = Some (tr_total_cost t')"
  using assms by (auto simp: tracker_rebalance_def bind_eq_Some_conv)


section \<open>The cost of a rebalance\<close>

lemma rat_zero_laws: "zero_laws rat_ops"
  by (auto simp: zero_laws_def rat_ops_def dec_is_zero_def dec_zero_def split: if_splits)

lemma range_il_at_entry:
  assumes "range_il rat_ops fl dc p p r = Some il" shows "il = 0"
proof -
  obtain x where x: "calculate_il_concentrated rat_ops fl dc p p (lower_price r) (upper_price r) = Some x"
      and il: "il = (case x of Inl _ \<Rightarrow> dec_zero rat_ops | Inr y \<Rightarrow> y)"
    using assms by (auto simp: range_il_def il_or_zero_def)
  have z: "dec_is_zero rat_ops d \<longleftrightarrow> d = 0" "dec_zero rat_ops = 0" for d by (auto simp: dec_is_zero_def dec_zero_def rat_ops_def)
  show ?thesis using il x il_zero_at_entry [OF rat_zero_laws] by (cases x) (auto simp: z)
qed

text \<open>Every rebalance is charged twice: once to the capital of the new segment and once more as a cost
  since the start of that segment. A step at the price of the rebalance and without fees is worth
  the value before the rebalance less twice its cost.\<close>

lemma tracker_charges_twice:
  assumes "record_step rat_ops fl dc p fees strategy t = Some (Some (ActRebalance r reason), t1)"
    and "record_step rat_ops fl dc p 0 strategy' t1 = Some (a, t2)"
  shows "sn_value (last (tr_snapshots t2)) = sn_value (last (tr_snapshots t1)) - 2 * tr_rebalance_cost t"
proof -
  from assms(1) obtain v u where u: "tracker_rebalance rat_ops r p v u = Some (t1\<lparr>tr_snapshots := tr_snapshots u\<rparr>)"
      "tr_rebalance_cost u = tr_rebalance_cost t" and v: "sn_value (last (tr_snapshots t1)) = v"
  proof (cases rule: record_stepE)
    case (1 cumulative il v pnl b s1)
    then have b: "b = Some (ActRebalance r reason)" by (auto split: option.splits rebalance_action.splits)
    let ?u = "t\<lparr>tr_step := tr_step t + 1, tr_since_rebalance := tr_since_rebalance t + 1, tr_fees := cumulative\<rparr>"
    have s: "tracker_rebalance rat_ops r p v ?u = Some s1" using 1(5) by (simp add: b)
    moreover have "t1\<lparr>tr_snapshots := tr_snapshots ?u\<rparr> = s1" using tracker_rebalanceD(3) [OF s] by (simp add: 1(6))
    ultimately show ?thesis using that [of v ?u] by (simp add: 1(6))
  qed
  note d = tracker_rebalanceD [OF u(1)]
  from assms(2) show ?thesis
  proof (cases rule: record_stepE)
    case (1 cumulative il w pnl b s1)
    have "il = 0" using 1(2) d(6) by (intro range_il_at_entry [of fl dc p "tr_range t1"]) simp
    then have "w = tr_segment_capital t1 + (cumulative - tr_segment_fees t1) - (tr_total_cost t1 - tr_segment_cost t1)"
      using 1(3) by (simp add: segment_value_def rat_ops_def)
    also have "\<dots> = v - 2 * tr_rebalance_cost t" using d(4,7,8,11,12) 1(1) u(2) by (simp add: rat_ops_def)
    finally show ?thesis by (simp add: 1(6) v)
  qed
qed

section \<open>The schedule of the periodic strategy\<close>

text \<open>A path of prices and fees recorded step by step.\<close>

definition track_path ::
    "('d, 'a) decimal_arith_scheme \<Rightarrow> float_fns \<Rightarrow> 'd decimal_conv \<Rightarrow> 'd strategy option \<Rightarrow> ('d \<times> 'd) list \<Rightarrow> 'd position_tracker
      \<Rightarrow> 'd position_tracker option" where
  "track_path ops fl dc strategy path t =
     fold_option (\<lambda>(price, fees) t. map_option snd (record_step ops fl dc price fees strategy t)) path t"

definition rebalanced_steps :: "'d position_snapshot list \<Rightarrow> u64 list" where
  "rebalanced_steps ss = map sn_step (filter (\<lambda>s. case sn_action s of Some (ActRebalance r reason) \<Rightarrow> True | _ \<Rightarrow> False) ss)"

lemma tracker_periodic_step:
  assumes "record_step ops fl dc price fees (Some (periodic_evaluate ops p)) t = Some (a, t')"
    and "\<not> pr_only_when_out_of_range p" and "tr_step t = of_nat k" and "tr_since_rebalance t = of_nat (k mod n)"
    and "unat (rebalance_interval p) = n" and "0 < n"
  shows "tr_step t' = of_nat (Suc k) \<and> tr_since_rebalance t' = of_nat (Suc k mod n)
    \<and> rebalanced_steps (tr_snapshots t') = rebalanced_steps (tr_snapshots t) @ (if Suc k mod n = 0 then [of_nat (Suc k)] else [])"
  using assms(1)
proof (cases rule: record_stepE)
  case (1 cumulative il v pnl b t1)
  let ?t = "t\<lparr>tr_step := tr_step t + 1, tr_since_rebalance := tr_since_rebalance t + 1, tr_fees := cumulative\<rparr>"
  have n: "n < 2 ^ 64" using assms(5) unat_lt_2p [of "rebalance_interval p"] by simp
  have w: "tr_since_rebalance ?t = of_nat (Suc (k mod n))" by (simp add: assms(4))
  have b: "Suc (k mod n) \<le> n" using assms(6) by (simp add: Suc_leI)
  with n have "Suc (k mod n) < 2 ^ 64" by linarith
  from of_nat_u64_less [OF this] have "tr_since_rebalance ?t < rebalance_interval p \<longleftrightarrow> Suc (k mod n) < n"
    by (simp only: w assms(5))
  with b have lt: "tr_since_rebalance ?t < rebalance_interval p \<longleftrightarrow> Suc k mod n \<noteq> 0" by (auto simp: mod_Suc)
  show ?thesis
  proof (cases "Suc k mod n = 0")
    case True
    then have "\<not> tr_since_rebalance ?t < rebalance_interval p" using lt by simp
    then obtain r where "b = Some (ActRebalance r (SrPeriodic (tr_since_rebalance ?t)))"
      using 1(4) assms(2) by (auto simp: periodic_evaluate_def tracker_context_def rebalance_to_def)
    with 1(5) have r: "a = b" "tracker_rebalance ops r price v ?t = Some t1" by auto
    show ?thesis using True tracker_rebalanceD(1-3) [OF r(2)] \<open>b = _\<close> r(1)
      by (simp add: 1(6) assms(3) rebalanced_steps_def)
  next
    case False
    then have "b = Some ActHold" using 1(4) lt by (auto simp: periodic_evaluate_def tracker_context_def)
    with 1(5) have r: "a = None" "t1 = ?t" by auto
    show ?thesis using False by (simp add: 1(6) r assms(3,4) rebalanced_steps_def mod_Suc split: if_splits)
  qed
qed

lemma tracker_periodic_path:
  assumes "track_path ops fl dc (Some (periodic_evaluate ops p)) path t = Some t'"
    and "\<not> pr_only_when_out_of_range p" and "tr_step t = of_nat k" and "tr_since_rebalance t = of_nat (k mod n)"
    and "unat (rebalance_interval p) = n" and "0 < n"
  shows "rebalanced_steps (tr_snapshots t') = rebalanced_steps (tr_snapshots t)
    @ map of_nat (filter (\<lambda>j. j mod n = 0) [Suc k ..< Suc k + length path])"
  using assms(1,3,4)
proof (induction path arbitrary: t k)
  case (Cons x path)
  obtain price fees where x: "x = (price, fees)" by (cases x)
  from Cons.prems(1) obtain a u where u: "record_step ops fl dc price fees (Some (periodic_evaluate ops p)) t = Some (a, u)"
    and r: "track_path ops fl dc (Some (periodic_evaluate ops p)) path u = Some t'"
    by (auto simp: track_path_def x bind_eq_Some_conv)
  note s = tracker_periodic_step [OF u assms(2) Cons.prems(2,3) assms(5,6)]
  have "[Suc k ..< Suc k + length (x # path)] = Suc k # [Suc (Suc k) ..< Suc (Suc k) + length path]"
    by (simp add: upt_conv_Cons del: upt_Suc)
  moreover have "rebalanced_steps (tr_snapshots t') = rebalanced_steps (tr_snapshots u)
    @ map of_nat (filter (\<lambda>j. j mod n = 0) [Suc (Suc k) ..< Suc (Suc k) + length path])"
    using Cons.IH [OF r, of "Suc k"] s by blast
  ultimately show ?case using s by (simp del: upt_Suc of_nat_Suc)
qed (simp add: track_path_def)

text \<open>In the simulator, whose counter restarts at zero in the step of the rebalance and is advanced only by
  steps without one, the strategy rebalances every \<open>n + 1\<close> steps, at the steps \<open>n\<close>, \<open>2 n + 1\<close> and so
  on, counted from zero.\<close>

lemma simulator_periodic_schedule:
  assumes "unat (rebalance_interval p) = n" and "n < 2 ^ 64 - 1" and "\<not> pr_only_when_out_of_range p"
    and "simulate_with_strategy ops fl dc show_dec cfg prices m v (periodic_evaluate ops p) = Some r" and "prices \<noteq> []"
  shows "map fst (sr_range_history r) = 0 # map of_nat (filter (\<lambda>k. k mod (n + 1) = n) [0 ..< length prices])"
proof -
  obtain s where l: "strategy_loop ops fl dc show_dec cfg m (periodic_evaluate ops p) (hd prices) 0 prices (initial_loop ops cfg v (hd prices)) = Some s"
    and r: "sr_range_history r = sl_range_history s"
    using assms(4,5) by (auto simp: simulate_with_strategy_def bind_eq_Some_conv Let_def log_event_def split: if_splits)
  show ?thesis using periodic_loop [OF l assms(3)] assms(1,2) by (simp add: r initial_loop_def)
qed

text \<open>C37. A periodic strategy of interval \<open>n\<close> that also rebalances inside the range makes the tracker
  rebalance at exactly the steps that are multiples of \<open>n\<close>, counted from one, whatever the prices and
  fees are.\<close>

theorem tracker_periodic_schedule:
  assumes "unat (rebalance_interval p) = n" and "0 < n" and "\<not> pr_only_when_out_of_range p"
    and "track_path ops fl dc (Some (periodic_evaluate ops p)) path (new_position_tracker ops capital entry r0 cost) = Some t"
  shows "rebalanced_steps (tr_snapshots t) = map of_nat (filter (\<lambda>k. n dvd k) [1 ..< length path + 1])"
  using tracker_periodic_path [OF assms(4,3), of 0 n] assms(1,2)
  by (simp add: new_position_tracker_def rebalanced_steps_def dvd_eq_mod_eq_0)

lemma periodic_path_result: "track_path rat_ops approx_fns rat_conv (Some (periodic_evaluate rat_ops (new_periodic 2 (1 / 10))))
    [(1, 0), (1, 0)] (new_position_tracker rat_ops 1000 0 \<lparr>lower_price = 0, upper_price = 2\<rparr> 5) \<noteq> None"
  by (simp add: track_path_def record_step_def Let_def periodic_evaluate_def new_periodic_def tracker_context_def rebalance_to_def
      calculate_strategy_range_def tracker_rebalance_def segment_value_def range_il_def il_or_zero_def calculate_il_concentrated_def
      new_position_tracker_def flat_def)

theorem tracker_periodic_schedule_witness:
  "\<exists>t. track_path rat_ops approx_fns rat_conv (Some (periodic_evaluate rat_ops (new_periodic 2 (1 / 10))))
         [(1, 0), (1, 0)] (new_position_tracker rat_ops 1000 0 \<lparr>lower_price = 0, upper_price = 2\<rparr> 5) = Some t
     \<and> rebalanced_steps (tr_snapshots t) = [2]"
proof -
  obtain t where t: "track_path rat_ops approx_fns rat_conv (Some (periodic_evaluate rat_ops (new_periodic 2 (1 / 10))))
         [(1, 0), (1, 0)] (new_position_tracker rat_ops 1000 0 \<lparr>lower_price = 0, upper_price = 2\<rparr> 5) = Some t"
    using periodic_path_result by auto
  have "unat (rebalance_interval (new_periodic 2 (1 / 10) :: rat periodic_rebalance)) = 2"
      "\<not> pr_only_when_out_of_range (new_periodic 2 (1 / 10) :: rat periodic_rebalance)" by (simp_all add: new_periodic_def)
  note s = tracker_periodic_schedule [OF this(1) _ this(2) t]
  have "filter (\<lambda>k :: nat. 2 dvd k) [1 ..< 3] = [2]" by code_simp
  then show ?thesis using s t by simp
qed

lemma simulator_periodic_example: "\<exists>r. periodic_run = Some r \<and> map fst (sr_range_history r) = [0, 2, 5]"
  using periodic_run_result by auto

section \<open>The greatest drawdown\<close>

text \<open>The reference: the losses from every value to every value that is not earlier.\<close>

fun drawdowns :: "rat list \<Rightarrow> rat list" where
  "drawdowns [] = []"
| "drawdowns (x # xs) = map (\<lambda>y. (x - y) / x) (x # xs) @ drawdowns xs"

lemma drawdown_mono: "0 < (x::rat) \<Longrightarrow> x \<le> y \<Longrightarrow> 0 \<le> w \<Longrightarrow> (x - w) / x \<le> (y - w) / y"
  by (simp add: diff_divide_distrib frac_le)

lemma rat_decimals:
  "dec_gt rat_ops a b \<longleftrightarrow> b < a" "dec_add rat_ops a b = Some (a + b)" "dec_sub rat_ops a b = Some (a - b)"
  "b \<noteq> 0 \<Longrightarrow> dec_div rat_ops a b = Some (a / b)" "dec_zero rat_ops = 0" "dec_is_zero rat_ops a \<longleftrightarrow> a = 0"
  by (auto simp: rat_ops_def dec_zero_def dec_is_zero_def)

lemma drawdown_loop_rat_Cons:
  assumes "0 < max peak v"
  shows "drawdown_loop rat_ops (v # vs) (peak, dd) = drawdown_loop rat_ops vs (max peak v, max dd ((max peak v - v) / max peak v))"
proof -
  have "(if dec_gt rat_ops v peak then v else peak) = max peak v" by (simp add: rat_decimals max_def)
  moreover have "(if dec_gt rat_ops d dd then d else dd) = max dd d" for d by (simp add: rat_decimals max_def)
  ultimately show ?thesis using assms by (simp add: Let_def rat_decimals(3,4))
qed

lemma drawdown_loop_rat:
  assumes "0 < peak" and "\<forall>v \<in> set vs. 0 < v" and "0 \<le> dd"
  shows "\<exists>p m. drawdown_loop rat_ops vs (peak, dd) = Some (p, m) \<and> 0 < p \<and> dd \<le> m
    \<and> (\<forall>x \<in> set (drawdowns (peak # vs)). x \<le> m) \<and> (m = dd \<or> m \<in> set (drawdowns (peak # vs)))"
  using assms
proof (induction vs arbitrary: peak dd)
  case (Cons v vs)
  let ?p = "max peak v" and ?d = "(max peak v - v) / max peak v"
  have p: "0 < ?p" using Cons.prems(1) by simp
  obtain q m where m: "drawdown_loop rat_ops vs (?p, max dd ?d) = Some (q, m)" "0 < q" "max dd ?d \<le> m"
      "\<forall>x \<in> set (drawdowns (?p # vs)). x \<le> m" "m = max dd ?d \<or> m \<in> set (drawdowns (?p # vs))"
    using Cons.IH [of ?p "max dd ?d", OF p] Cons.prems by (metis list.set_intros(2) max.coboundedI1)
  have "drawdown_loop rat_ops (v # vs) (peak, dd) = Some (q, m)" using m(1) by (simp only: drawdown_loop_rat_Cons [OF p])
  moreover have "x \<le> m" if x: "x \<in> set (drawdowns (peak # v # vs))" for x
  proof -
    have le: "(y - w) / y \<le> m" if "y \<in> {peak, v}" "w \<in> set (v # vs)" for y w
    proof -
      have "(y - w) / y \<le> (?p - w) / ?p" using that Cons.prems(1,2) by (intro drawdown_mono) auto
      also have "\<dots> \<le> m" using m(3,4) that(2) by auto
      finally show ?thesis .
    qed
    have "(peak - peak) / peak \<le> m" using m(3) Cons.prems(3) by simp
    with x le m(4) show ?thesis by auto
  qed
  moreover have "m = dd \<or> m \<in> set (drawdowns (peak # v # vs))"
    using m(5) by (auto simp: max_def split: if_splits)
  ultimately show ?case using m(2,3) by auto
qed simp

lemma drawdown_loop_Max:
  assumes "0 < peak" and "\<forall>v \<in> set vs. 0 < v" and "drawdown_loop rat_ops vs (peak, 0) = Some (p, m)"
  shows "m = Max (set (drawdowns (peak # vs)))"
proof -
  have "\<forall>x \<in> set (drawdowns (peak # vs)). x \<le> m" "m = 0 \<or> m \<in> set (drawdowns (peak # vs))"
    using drawdown_loop_rat [OF assms(1,2), of 0] assms(3) by auto
  moreover have "0 \<in> set (drawdowns (peak # vs))" by simp
  ultimately show ?thesis by (intro Max_eqI [symmetric]) auto
qed


lemma drawdown_loop_snoc:
  "drawdown_loop ops (xs @ [v]) st = Option.bind (drawdown_loop ops xs st) (drawdown_loop ops [v])"
proof (induction xs arbitrary: st)
  case (Cons x xs)
  then show ?case by (cases st) (simp add: Let_def Option.bind_assoc)
next
  case Nil
  show ?case by (cases st) simp
qed

text \<open>For the decimals of the program only the order matters: a comparison of numbers, in which two decimals of
  different scale may be equal.\<close>

definition weak_order :: "('d \<Rightarrow> 'd \<Rightarrow> bool) \<Rightarrow> bool" where
  "weak_order gt \<longleftrightarrow> (\<forall>a b. gt a b \<longrightarrow> \<not> gt b a) \<and> (\<forall>a b c. gt a c \<longrightarrow> gt a b \<or> gt b c)"

definition greatest :: "('d \<Rightarrow> 'd \<Rightarrow> bool) \<Rightarrow> 'd list \<Rightarrow> 'd \<Rightarrow> bool" where
  "greatest gt xs p \<longleftrightarrow> p \<in> set xs \<and> (\<forall>x \<in> set xs. \<not> gt x p)"

text \<open>The loss of a step is taken from the greatest value up to it, the capital included.\<close>

definition step_loss :: "('d \<Rightarrow> 'd \<Rightarrow> bool) \<Rightarrow> ('d \<Rightarrow> 'd \<Rightarrow> 'd option) \<Rightarrow> 'd \<Rightarrow> 'd list \<Rightarrow> nat \<Rightarrow> 'd \<Rightarrow> bool" where
  "step_loss gt loss capital vs k d \<longleftrightarrow> (\<exists>peak. greatest gt (capital # take (Suc k) vs) peak \<and> loss peak (vs ! k) = Some d)"

text \<open>The worst of zero and the losses of the steps.\<close>

definition worst_loss ::
    "('d \<Rightarrow> 'd \<Rightarrow> bool) \<Rightarrow> ('d \<Rightarrow> 'd \<Rightarrow> bool) \<Rightarrow> ('d \<Rightarrow> 'd \<Rightarrow> 'd option) \<Rightarrow> 'd \<Rightarrow> 'd \<Rightarrow> 'd list \<Rightarrow> 'd \<Rightarrow> bool" where
  "worst_loss gt worse loss zero capital vs m \<longleftrightarrow>
     (m = zero \<or> (\<exists>k < length vs. step_loss gt loss capital vs k m))
     \<and> \<not> worse zero m \<and> (\<forall>k < length vs. \<exists>d. step_loss gt loss capital vs k d \<and> \<not> worse d m)"

lemma step_loss_append: "k < length vs \<Longrightarrow> step_loss gt loss capital (vs @ [v]) k d \<longleftrightarrow> step_loss gt loss capital vs k d"
  by (simp add: step_loss_def nth_append)

lemma weak_order_irrefl: "weak_order gt \<Longrightarrow> \<not> gt x x"
  unfolding weak_order_def by blast

lemma weak_order_keep: "weak_order gt \<Longrightarrow> gt v p \<Longrightarrow> \<not> gt x p \<Longrightarrow> \<not> gt x v"
  unfolding weak_order_def by blast

lemma greatest_snoc:
  "weak_order gt \<Longrightarrow> greatest gt xs p \<Longrightarrow> greatest gt (xs @ [v]) (if gt v p then v else p)"
  by (auto simp: greatest_def weak_order_irrefl dest: weak_order_keep)

lemma worst_loss_snoc:
  assumes "weak_order gt" and "weak_order worse" and "greatest gt (capital # vs) peak" and "worst_loss gt worse loss zero capital vs m"
    and "loss (if gt v peak then v else peak) v = Some d"
  shows "greatest gt (capital # vs @ [v]) (if gt v peak then v else peak)
    \<and> worst_loss gt worse loss zero capital (vs @ [v]) (if worse d m then d else m)"
proof
  let ?p = "if gt v peak then v else peak" and ?m = "if worse d m then d else m"
  show g: "greatest gt (capital # vs @ [v]) ?p" using greatest_snoc [OF assms(1,3)] by simp
  have better: "\<not> worse x ?m" if "\<not> worse x m" for x using that weak_order_keep [OF assms(2), of d m x] by auto
  have d: "\<not> worse d ?m" by (simp add: weak_order_irrefl [OF assms(2)])
  have new: "step_loss gt loss capital (vs @ [v]) (length vs) d" using g assms(5) by (auto simp: step_loss_def)
  have "\<exists>e. step_loss gt loss capital (vs @ [v]) k e \<and> \<not> worse e ?m" if k: "k < length (vs @ [v])" for k
  proof (cases "k < length vs")
    case True
    then obtain e where "step_loss gt loss capital vs k e" "\<not> worse e m" using assms(4) by (auto simp: worst_loss_def)
    with True better show ?thesis by (auto simp: step_loss_append)
  next
    case False
    with k have "k = length vs" by simp
    with new d show ?thesis by blast
  qed
  moreover have "\<not> worse zero ?m" using better assms(4) by (simp add: worst_loss_def)
  moreover have "?m = zero \<or> (\<exists>k < length (vs @ [v]). step_loss gt loss capital (vs @ [v]) k ?m)"
  proof (cases "worse d m")
    case True
    with new show ?thesis by (intro disjI2 exI [of _ "length vs"]) simp
  next
    case False
    from assms(4) consider "m = zero" | k where "k < length vs" "step_loss gt loss capital vs k m" by (auto simp: worst_loss_def)
    then show ?thesis
    proof cases
      case (2 k)
      with False show ?thesis by (intro disjI2 exI [of _ k]) (simp add: step_loss_append)
    qed (use False in simp)
  qed
  ultimately show "worst_loss gt worse loss zero capital (vs @ [v]) ?m" unfolding worst_loss_def by blast
qed

lemma worst_loss_Nil: "weak_order gt \<Longrightarrow> weak_order worse \<Longrightarrow> greatest gt [c] c \<and> worst_loss gt worse loss zero c [] zero"
  by (auto simp: weak_order_def greatest_def worst_loss_def)

text \<open>The relative loss as the tracker and as the simulators compute it.\<close>

definition tracker_loss :: "('d, 'a) decimal_arith_scheme \<Rightarrow> 'd \<Rightarrow> 'd \<Rightarrow> 'd option" where
  "tracker_loss ops peak v = Option.bind (dec_sub ops peak v) (\<lambda>d. dec_div ops d peak)"

definition simulator_loss :: "('d, 'a) decimal_arith_scheme \<Rightarrow> 'd \<Rightarrow> 'd \<Rightarrow> 'd option" where
  "simulator_loss ops peak v =
     (if dec_is_zero ops peak then Some (dec_zero ops) else Option.bind (dec_sub ops v peak) (\<lambda>d. dec_div ops d peak))"

lemma drawdown_loop_worst:
  assumes "weak_order (dec_gt ops)" and "drawdown_loop ops vs (capital, dec_zero ops) = Some (peak, m)"
  shows "greatest (dec_gt ops) (capital # vs) peak
    \<and> worst_loss (dec_gt ops) (dec_gt ops) (tracker_loss ops) (dec_zero ops) capital vs m"
  using assms(2)
proof (induction vs arbitrary: peak m rule: rev_induct)
  case Nil
  then show ?case using worst_loss_Nil [OF assms(1,1)] by simp
next
  case (snoc v vs)
  then obtain p n d where l: "drawdown_loop ops vs (capital, dec_zero ops) = Some (p, n)"
    and d: "tracker_loss ops (if dec_gt ops v p then v else p) v = Some d"
    and r: "peak = (if dec_gt ops v p then v else p)" "m = (if dec_gt ops d n then d else n)"
    unfolding drawdown_loop_snoc by (auto simp: bind_eq_Some_conv Let_def tracker_loss_def)
  note ih = snoc.IH [OF l]
  show ?case unfolding r by (rule worst_loss_snoc [OF assms(1,1) conjunct1 [OF ih] conjunct2 [OF ih] d])
qed

text \<open>The simulators keep the greatest value and the worst loss, which is negative, as they go. The values
  themselves are not kept, but their differences to the capital are.\<close>

definition loss_kept :: "('d, 'a) decimal_arith_scheme \<Rightarrow> 'd \<Rightarrow> 'd list \<Rightarrow> 'd list \<Rightarrow> 'd \<Rightarrow> bool" where
  "loss_kept ops capital vs pnls m \<longleftrightarrow>
     list_all2 (\<lambda>v p. dec_sub ops v capital = Some p) vs pnls
     \<and> worst_loss (dec_gt ops) (\<lambda>a b. dec_gt ops b a) (simulator_loss ops) (dec_zero ops) capital vs m"

definition drawdown_inv :: "('d, 'a) decimal_arith_scheme \<Rightarrow> 'd simulation_config \<Rightarrow> ('d, 'v) sim_loop \<Rightarrow> bool" where
  "drawdown_inv ops cfg s \<longleftrightarrow>
     (\<exists>vs. loss_kept ops (sim_capital cfg) vs (sl_pnl_history s) (sl_max_drawdown s)
       \<and> greatest (dec_gt ops) (sim_capital cfg # vs) (sl_max_value s))"

lemma drawdown_inv_frame [simp]:
  "drawdown_inv ops cfg (track_range ops' step price s) \<longleftrightarrow> drawdown_inv ops cfg s"
  "drawdown_inv ops cfg (note_il ops' il s) \<longleftrightarrow> drawdown_inv ops cfg s"
  "drawdown_inv ops cfg (s\<lparr>sl_since := n\<rparr>) \<longleftrightarrow> drawdown_inv ops cfg s"
  by (simp_all add: drawdown_inv_def track_range_def note_il_def Let_def log_event_def)

lemma drawdown_unchanged:
  "accrue ops' dc cfg m step price s = Some t \<Longrightarrow> drawdown_inv ops cfg t \<longleftrightarrow> drawdown_inv ops cfg s"
  "apply_rebalance ops' show_dec cfg step price r reason s = Some t \<Longrightarrow> drawdown_inv ops cfg t \<longleftrightarrow> drawdown_inv ops cfg s"
  "apply_close ops' cfg step price il s = Some t \<Longrightarrow> drawdown_inv ops cfg t \<longleftrightarrow> drawdown_inv ops cfg s"
  by (auto simp: drawdown_inv_def accrue_def apply_rebalance_def apply_close_def Let_def log_event_def bind_eq_Some_conv
      split: if_splits prod.splits)

lemma weak_order_flip: "weak_order gt \<Longrightarrow> weak_order (\<lambda>a b. gt b a)"
  unfolding weak_order_def by blast

lemma track_value_drawdown:
  assumes o: "weak_order (dec_gt ops)" and "track_value ops cfg il v s = Some t" and "drawdown_inv ops cfg s"
  shows "drawdown_inv ops cfg t"
proof -
  let ?p = "if dec_gt ops v (sl_max_value s) then v else sl_max_value s"
  obtain net d where net: "dec_sub ops v (sim_capital cfg) = Some net" and d: "simulator_loss ops ?p v = Some d"
    and t: "sl_max_value t = ?p" "sl_max_drawdown t = (if dec_gt ops (sl_max_drawdown s) d then d else sl_max_drawdown s)"
      "sl_pnl_history t = sl_pnl_history s @ [net]"
    using assms(2) unfolding track_value_def Let_def simulator_loss_def [symmetric] by (auto simp: bind_eq_Some_conv)
  from assms(3) obtain vs where vs: "list_all2 (\<lambda>v p. dec_sub ops v (sim_capital cfg) = Some p) vs (sl_pnl_history s)"
      "worst_loss (dec_gt ops) (\<lambda>a b. dec_gt ops b a) (simulator_loss ops) (dec_zero ops) (sim_capital cfg) vs (sl_max_drawdown s)"
      "greatest (dec_gt ops) (sim_capital cfg # vs) (sl_max_value s)"
    by (auto simp: drawdown_inv_def loss_kept_def)
  have "list_all2 (\<lambda>v p. dec_sub ops v (sim_capital cfg) = Some p) (vs @ [v]) (sl_pnl_history t)"
    using vs(1) net by (simp add: t list_all2_appendI)
  with worst_loss_snoc [OF o weak_order_flip [OF o] vs(3) vs(2) d] show ?thesis
    unfolding drawdown_inv_def loss_kept_def t by blast
qed

lemma finish_step_drawdown:
  "weak_order (dec_gt ops) \<Longrightarrow> finish_step ops dc cfg m step price il s = Some t \<Longrightarrow> drawdown_inv ops cfg s \<Longrightarrow> drawdown_inv ops cfg t"
  by (auto simp: finish_step_def bind_eq_Some_conv intro: track_value_drawdown dest: drawdown_unchanged(1))

lemma strategy_step_drawdown:
  assumes "weak_order (dec_gt ops)" and "strategy_step ops fl dc show_dec cfg m evaluate entry step p s = Some (stop, u)"
    and "drawdown_inv ops cfg s"
  shows "drawdown_inv ops cfg u"
proof -
  from assms(2) obtain il action where "(case action of
          ActRebalance new_range reason \<Rightarrow> do {
            s \<leftarrow> apply_rebalance ops show_dec cfg step p new_range reason (note_il ops il (track_range ops step p s));
            map_option (Pair False) (finish_step ops dc cfg m step p il s) }
        | ActClose reason \<Rightarrow> map_option (Pair True) (apply_close ops cfg step p il (note_il ops il (track_range ops step p s)))
        | ActHold \<Rightarrow> map_option (Pair False) (finish_step ops dc cfg m step p il
            ((note_il ops il (track_range ops step p s))\<lparr>sl_since := sl_since s + 1\<rparr>))) = Some (stop, u)"
    by (auto simp: strategy_step_def Let_def bind_eq_Some_conv)
  then show ?thesis
    using assms(3) by (cases action) (auto simp: bind_eq_Some_conv drawdown_unchanged intro: finish_step_drawdown [OF assms(1)])
qed

lemma strategy_loop_drawdown:
  assumes "weak_order (dec_gt ops)" and "strategy_loop ops fl dc show_dec cfg m evaluate entry step ps s = Some t"
    and "drawdown_inv ops cfg s"
  shows "drawdown_inv ops cfg t"
  using assms(2,3)
proof (induction ps arbitrary: step s)
  case (Cons p ps)
  then obtain stop u where u: "strategy_step ops fl dc show_dec cfg m evaluate entry step p s = Some (stop, u)"
    and r: "(if stop then Some u else strategy_loop ops fl dc show_dec cfg m evaluate entry (Suc step) ps u) = Some t"
    by (auto simp: bind_eq_Some_conv)
  from strategy_step_drawdown [OF assms(1) u Cons.prems(2)] r Cons.IH show ?case by (auto split: if_splits)
qed simp

lemma position_loop_drawdown:
  assumes "weak_order (dec_gt ops)" and "position_loop ops fl dc cfg m entry step ps s = Some t" and "drawdown_inv ops cfg s"
  shows "drawdown_inv ops cfg t"
  using assms(2,3)
proof (induction ps arbitrary: step s)
  case (Cons p ps)
  then obtain u where u: "position_step ops fl dc cfg m entry step p s = Some u" "position_loop ops fl dc cfg m entry (Suc step) ps u = Some t"
    by (auto simp: bind_eq_Some_conv)
  from u(1) obtain s1 il v where a: "accrue ops dc cfg m step p (track_range ops step p s) = Some s1"
    and t: "track_value ops cfg il v (note_il ops il s1) = Some u" by (auto simp: position_step_def bind_eq_Some_conv)
  have "drawdown_inv ops cfg u"
    by (rule track_value_drawdown [OF assms(1) t]) (simp add: drawdown_unchanged(1) [OF a] Cons.prems(2))
  with Cons.IH u(2) show ?case by blast
qed simp

lemma drawdown_inv_initial: "weak_order (dec_gt ops) \<Longrightarrow> drawdown_inv ops cfg (initial_loop ops cfg v entry)"
  by (auto simp: drawdown_inv_def loss_kept_def initial_loop_def worst_loss_Nil weak_order_flip intro!: exI [of _ "[]"])


definition demo_snapshot :: "rat \<Rightarrow> rat position_snapshot" where
  "demo_snapshot v = \<lparr>sn_step = 1, sn_price = 1, sn_range = \<lparr>lower_price = 0, upper_price = 2\<rparr>, sn_in_range = True, sn_cumulative_fees = 0,
     sn_il_pct = 0, sn_value = v, sn_net_pnl = v - 1000, sn_action = None\<rparr>"

definition demo_tracker :: "rat position_tracker" where
  "demo_tracker = (new_position_tracker rat_ops 1000 1 \<lparr>lower_price = 0, upper_price = 2\<rparr> 5)
     \<lparr>tr_snapshots := [demo_snapshot 1200, demo_snapshot 900, demo_snapshot 1000]\<rparr>"

lemma demo_summary: "\<exists>y. tracker_summary_of rat_ops demo_tracker = Some y"
  by (simp add: tracker_summary_of_def demo_tracker_def demo_snapshot_def new_position_tracker_def Let_def flat_def)


end
