(* ===== verification/F64_Order.thy ===== *)
theory F64_Order
  imports F64
begin

text \<open>
  Order properties of the floating-point numbers of \<^theory_text>\<open>F64\<close>: rounding is monotone, and so are
  conversion, division by a positive number, multiplication and addition on the numbers that are
  not negative. With them a search over floating-point estimates can be verified without exact
  arithmetic.
\<close>

section \<open>Rounding\<close>

lemma round_half_even_int [simp]: "round_half_even (of_int n) = n"
  by (rule round_half_even_eq) simp

lemma round_half_even_mono: "x \<le> y \<Longrightarrow> round_half_even x \<le> round_half_even y"
proof -
  assume le: "x \<le> y"
  show ?thesis
  proof (cases "\<lfloor>x\<rfloor> = \<lfloor>y\<rfloor>")
    case True
    with le show ?thesis by (auto simp: round_half_even_def Let_def)
  next
    case False
    with le have "\<lfloor>x\<rfloor> + 1 \<le> \<lfloor>y\<rfloor>" using floor_mono [OF le] by linarith
    moreover have "round_half_even x \<le> \<lfloor>x\<rfloor> + 1" "\<lfloor>y\<rfloor> \<le> round_half_even y" by (auto simp: round_half_even_def Let_def)
    ultimately show ?thesis by linarith
  qed
qed

lemma flog2_mono: "0 < x \<Longrightarrow> x \<le> y \<Longrightarrow> flog2 x \<le> flog2 y"
proof -
  assume "0 < x" "x \<le> y"
  then have "pow2 (flog2 x) < pow2 (flog2 y + 1)" using flog2_bounds [of x] flog2_bounds [of y] by linarith
  then show ?thesis by simp
qed

text \<open>The magnitude that \<open>f64_round\<close> computes before it looks for an overflow.\<close>

definition rounded :: "rat \<Rightarrow> rat" where
  "rounded r = (let e = max (flog2 r - 52) (- 1074) in of_int (round_half_even (r / pow2 e)) * pow2 e)"

lemma f64_round_rounded: "0 < r \<Longrightarrow> f64_round s r = (if pow2 1024 \<le> rounded r then F64_Inf s else F64_Fin s (rounded r))"
  by (simp add: f64_round_def rounded_def Let_def)

lemma rounded_nonneg: "0 < r \<Longrightarrow> 0 \<le> rounded r"
proof -
  assume r: "0 < r"
  let ?e = "max (flog2 r - 52) (- 1074)"
  have "0 \<le> r / pow2 ?e" using r by simp
  from round_half_even_mono [OF this] have "0 \<le> round_half_even (r / pow2 ?e)" using round_half_even_int [of 0] by simp
  then show ?thesis by (simp add: rounded_def Let_def)
qed

lemma pow2_multiple: "i \<le> j \<Longrightarrow> of_int n * pow2 j = of_int (n * 2 ^ nat (j - i)) * pow2 i"
proof -
  assume ij: "i \<le> j"
  have "pow2 j = pow2 (j - i) * pow2 i" by (simp add: pow2_add [symmetric])
  also have "pow2 (j - i) = of_int (2 ^ nat (j - i))" using ij by (simp add: pow2_def)
  finally show ?thesis by simp
qed

lemma rounded_mono:
  assumes "0 < x" and "x \<le> y"
  shows "rounded x \<le> rounded y"
proof -
  define ex ey where e: "ex = max (flog2 x - 52) (- 1074)" "ey = max (flog2 y - 52) (- 1074)"
  have f: "flog2 x \<le> flog2 y" by (rule flog2_mono [OF assms])
  have v: "rounded x = of_int (round_half_even (x / pow2 ex)) * pow2 ex" "rounded y = of_int (round_half_even (y / pow2 ey)) * pow2 ey"
    by (simp_all add: rounded_def e Let_def)
  show ?thesis
  proof (cases "ex = ey")
    case True
    have "x / pow2 ex \<le> y / pow2 ex" using assms(2) by (simp add: divide_right_mono)
    from round_half_even_mono [OF this] True show ?thesis unfolding v by simp
  next
    case False
    with f have lt: "ex < ey" and ey: "ey = flog2 y - 52" and fl: "flog2 x + 1 \<le> flog2 y" by (auto simp: e)
    have y: "pow2 (flog2 y) \<le> y" and x: "x < pow2 (flog2 x + 1)" using flog2_bounds assms by auto
    have p: "pow2 (flog2 y) = 2 ^ 52 * pow2 ey" by (simp add: ey pow2_add [of "flog2 y - 52" 52, simplified] pow2_def [of 52])
    have "of_int (2 ^ 52) \<le> y / pow2 ey" using y by (simp add: p pos_le_divide_eq)
    from round_half_even_mono [OF this] have "2 ^ 52 \<le> round_half_even (y / pow2 ey)" unfolding round_half_even_int .
    then have "(of_int (2 ^ 52) :: rat) \<le> of_int (round_half_even (y / pow2 ey))" by (simp only: of_int_le_iff)
    then have "pow2 (flog2 y) \<le> rounded y" unfolding v p by (intro mult_right_mono) simp_all
    moreover have "pow2 (flog2 x + 1) \<le> pow2 (flog2 y)" using fl by simp
    ultimately have "x \<le> rounded y" using x by linarith
    moreover define m where "m = round_half_even (y / pow2 ey) * 2 ^ nat (ey - ex)"
    have m: "rounded y = of_int m * pow2 ex" unfolding v(2) m_def by (rule pow2_multiple) (use lt in simp)
    ultimately have "x / pow2 ex \<le> of_int m" by (simp only: m pos_divide_le_eq pow2_pos)
    from round_half_even_mono [OF this] show ?thesis unfolding m v(1) by simp
  qed
qed

section \<open>Numbers that are not negative\<close>

fun f64_nonneg :: "f64 \<Rightarrow> bool" where
  "f64_nonneg F64_NaN = False"
| "f64_nonneg (F64_Inf s) = (\<not> s)"
| "f64_nonneg (F64_Fin s m) = (\<not> s \<and> 0 \<le> m)"

lemma f64_nonneg_cases [consumes 1]:
  assumes "f64_nonneg x"
  obtains "x = F64_Inf False" | m where "x = F64_Fin False m" "0 \<le> m"
  using assms by (cases x) auto

lemma f64_le_Inf: "f64_nonneg x \<Longrightarrow> f64_le x (F64_Inf False)"
  by (cases x) (auto simp: f64_le_def)

lemma f64_nonneg_not_lt: "f64_nonneg x \<Longrightarrow> f64_nonneg y \<Longrightarrow> \<not> f64_lt x y \<longleftrightarrow> f64_le y x"
  by (cases x; cases y) (auto simp: f64_le_def signed_val_def)

lemma f64_nonneg_le_trans: "f64_le x y \<Longrightarrow> f64_le y z \<Longrightarrow> f64_le x z"
  by (cases x; cases y; cases z) (auto simp: f64_le_def split: if_splits)

lemma f64_lt_le_trans: "f64_lt x y \<Longrightarrow> f64_le y z \<Longrightarrow> f64_lt x z"
  by (cases x; cases y; cases z) (auto simp: f64_le_def split: if_splits)

lemma f64_le_Fin [simp]: "f64_le (F64_Fin False m) (F64_Fin False n) \<longleftrightarrow> m \<le> n"
  by (auto simp: f64_le_def signed_val_def)

lemma f64_round_nonneg': "0 \<le> r \<Longrightarrow> f64_nonneg (f64_round False r)"
  by (cases "r = 0") (simp_all add: f64_round_rounded rounded_nonneg, simp add: f64_round_def)

lemma f64_round_mono:
  assumes "0 \<le> x" and "x \<le> y"
  shows "f64_le (f64_round False x) (f64_round False y)"
proof (cases "x = 0")
  case True
  with f64_round_nonneg' [of y] assms show ?thesis
    by (cases "f64_round False y") (auto simp: f64_round_def f64_le_def signed_val_def)
next
  case False
  with assms have xy: "0 < x" "0 < y" by auto
  with rounded_mono [OF xy(1) assms(2)] show ?thesis
    by (auto simp: f64_round_rounded f64_le_def signed_val_def)
qed

lemma f64_of_nat_nonneg: "f64_nonneg (f64_of_nat n)"
  by (simp add: f64_of_nat_def f64_round_nonneg')

lemma f64_of_nat_mono: "m \<le> n \<Longrightarrow> f64_le (f64_of_nat m) (f64_of_nat n)"
  by (simp add: f64_of_nat_def f64_round_mono)

text \<open>Positive and finite, as the prices and the scales of the code.\<close>

definition f64_positive :: "f64 \<Rightarrow> bool" where
  "f64_positive x \<longleftrightarrow> (\<exists>m > 0. x = F64_Fin False m)"

lemma f64_positive_nonneg: "f64_positive x \<Longrightarrow> f64_nonneg x"
  by (auto simp: f64_positive_def)

lemma f64_div_nonneg: "f64_nonneg x \<Longrightarrow> f64_positive d \<Longrightarrow> f64_nonneg (f64_div x d)"
  by (cases x) (auto simp: f64_positive_def f64_round_nonneg')

lemma f64_div_mono: "f64_nonneg x \<Longrightarrow> f64_le x y \<Longrightarrow> f64_positive d \<Longrightarrow> f64_nonneg y \<Longrightarrow> f64_le (f64_div x d) (f64_div y d)"
proof (erule f64_nonneg_cases; erule f64_nonneg_cases)
  fix m n assume "f64_le x y" "f64_positive d" "x = F64_Fin False m" "0 \<le> m" "y = F64_Fin False n" "0 \<le> n"
  then show ?thesis by (auto simp: f64_positive_def intro!: f64_round_mono divide_right_mono)
next
  fix m assume "f64_positive d" "x = F64_Fin False m" "0 \<le> m" "y = F64_Inf False"
  then show ?thesis by (auto simp: f64_positive_def intro!: f64_le_Inf f64_round_nonneg')
qed (auto simp: f64_positive_def f64_le_def)

lemma f64_mul_nonneg: "f64_nonneg x \<Longrightarrow> f64_positive p \<Longrightarrow> f64_nonneg (f64_mul x p)"
  by (cases x) (auto simp: f64_positive_def f64_round_nonneg')

lemma f64_mul_mono: "f64_nonneg x \<Longrightarrow> f64_le x y \<Longrightarrow> f64_positive p \<Longrightarrow> f64_nonneg y \<Longrightarrow> f64_le (f64_mul x p) (f64_mul y p)"
proof (erule f64_nonneg_cases; erule f64_nonneg_cases)
  fix m n assume "f64_le x y" "f64_positive p" "x = F64_Fin False m" "0 \<le> m" "y = F64_Fin False n" "0 \<le> n"
  then show ?thesis by (auto simp: f64_positive_def intro!: f64_round_mono mult_right_mono)
next
  fix m assume "f64_positive p" "x = F64_Fin False m" "0 \<le> m" "y = F64_Inf False"
  then show ?thesis by (auto simp: f64_positive_def intro!: f64_le_Inf f64_round_nonneg')
qed (auto simp: f64_positive_def f64_le_def)

lemma f64_add_nonneg: "f64_nonneg x \<Longrightarrow> f64_nonneg y \<Longrightarrow> f64_nonneg (f64_add x y)"
  by (cases x; cases y) (auto simp: f64_of_rat_def signed_val_def f64_round_nonneg')

lemma f64_of_rat_nonneg_eq: "0 \<le> r \<Longrightarrow> f64_of_rat False r = f64_round False r"
  by (simp add: f64_of_rat_def f64_round_def)

lemma f64_add_fin: "0 \<le> m \<Longrightarrow> 0 \<le> n \<Longrightarrow> f64_add (F64_Fin False m) (F64_Fin False n) = f64_round False (m + n)"
  by (simp add: signed_val_def f64_of_rat_nonneg_eq)

lemma f64_add_mono:
  assumes "f64_nonneg x" "f64_nonneg x'" "f64_nonneg y" "f64_nonneg y'" "f64_le x y" "f64_le x' y'"
  shows "f64_le (f64_add x x') (f64_add y y')"
proof (cases "y = F64_Inf False \<or> y' = F64_Inf False")
  case True
  with assms(3,4) have "f64_add y y' = F64_Inf False" by (cases y; cases y') auto
  with f64_add_nonneg [OF assms(1,2)] show ?thesis by (simp add: f64_le_Inf)
next
  case False
  with assms(3,4) obtain m m' where y: "y = F64_Fin False m" "0 \<le> m" "y' = F64_Fin False m'" "0 \<le> m'"
    by (cases y; cases y') auto
  with assms(1,2,5,6) obtain n n' where x: "x = F64_Fin False n" "0 \<le> n" "n \<le> m" "x' = F64_Fin False n'" "0 \<le> n'" "n' \<le> m'"
    by (cases x; cases x') (auto simp: f64_le_def signed_val_def)
  have "f64_le (f64_round False (n + n')) (f64_round False (m + m'))" by (rule f64_round_mono) (use x in auto)
  with x y show ?thesis by (simp only: f64_add_fin)
qed

end
