(* ===== verification/Deposit_Quote.thy ===== *)
theory Deposit_Quote
  imports F64_Order Position_Reader Session_Capital Impermanent_Loss
begin

text \<open>
  The deposit quote of \<^verbatim>\<open>crates/protocols/src/orca/deposit_quote.rs\<close>: the token amounts of a liquidity
  inside a range, their value in dollars, and the search for the liquidity whose value comes close
  to a target. A panic (an overflow of the 256-bit product) is \<open>None\<close>, an error is a string. The
  closures of the source are arguments of the loops; \<open>bisect\<close> is the shape of its three
  halvings, which differ in the test.
\<close>

section \<open>Amounts and value\<close>

definition token_amounts_in_range :: "'u u256_ops \<Rightarrow> float_fns \<Rightarrow> u128 \<Rightarrow> u128 \<Rightarrow> int \<Rightarrow> int \<Rightarrow> (u64 \<times> u64) option" where
  "token_amounts_in_range u fl liq sqrt_p tick_lower tick_upper =
     (let delta_b = saturating_sub_w sqrt_p (tick_to_sqrt_price fl tick_lower)
      in map_option (\<lambda>a. (a, ucast (drop_bit 64 (saturating_mul_w liq delta_b))))
           (amount_a_in_range_q64 u liq sqrt_p (tick_to_sqrt_price fl tick_upper)))"

definition raw_pair_usd :: "float_fns \<Rightarrow> nat \<Rightarrow> nat \<Rightarrow> f64 \<Rightarrow> f64 \<Rightarrow> u64 \<times> u64 \<Rightarrow> f64" where
  "raw_pair_usd fl decimals_a decimals_b price_a_usd price_b_usd = (\<lambda>(a, b).
     f64_add (f64_mul (ui_from_raw fl a decimals_a) price_a_usd) (f64_mul (ui_from_raw fl b decimals_b) price_b_usd))"

definition bump_raw_cap :: "u64 \<Rightarrow> u64" where
  "bump_raw_cap x = saturating_add_w x (max (x div 200) 1)"

section \<open>The loops\<close>

text \<open>Doubling until the value reaches the target; the flag tells that a positive value was seen.\<close>

fun bracket_liquidity :: "nat \<Rightarrow> (u128 \<Rightarrow> f64 option) \<Rightarrow> f64 \<Rightarrow> u128 \<Rightarrow> bool \<Rightarrow> (u128 \<times> bool) rust_result" where
  "bracket_liquidity 0 usd target hi saw = Some (Inr (hi, saw))"
| "bracket_liquidity (Suc n) usd target hi saw =
     (case usd hi of None \<Rightarrow> None
      | Some v \<Rightarrow>
          if \<not> f64_is_finite v then Some (Inl ''USD estimate overflow'')
          else (let saw = (saw \<or> f64_lt (f64_lit 0) v) in
                if f64_le target v then Some (Inr (hi, saw))
                else (case checked_mul_w hi 2 of
                        None \<Rightarrow> Some (Inl ''liquidity search overflow'')
                      | Some next \<Rightarrow> if next = hi then Some (Inl ''liquidity search overflow'')
                                     else bracket_liquidity n usd target next saw)))"

text \<open>Halving an interval; where the test holds the lower end moves, otherwise the upper one.\<close>

partial_function (option) bisect :: "(u128 \<Rightarrow> bool option) \<Rightarrow> u128 \<Rightarrow> u128 \<Rightarrow> (u128 \<times> u128) option" where
  "bisect test lo hi =
     (if lo + 1 < hi
      then (let mid = lo + (hi - lo) div 2 in
            case test mid of None \<Rightarrow> None | Some b \<Rightarrow> if b then bisect test mid hi else bisect test lo mid)
      else Some (lo, hi))"

declare bisect.simps [code]

definition both_positive :: "(u128 \<Rightarrow> (u64 \<times> u64) option) \<Rightarrow> u128 \<Rightarrow> bool option" where
  "both_positive amts l = map_option (\<lambda>(a, b). 0 < a \<and> 0 < b) (amts l)"

abbreviation (input) "no_two_sided \<equiv> ''quote: cannot achieve two-sided deposit (range or sqrt precision)''"

fun extend_two_sided :: "nat \<Rightarrow> (u128 \<Rightarrow> (u64 \<times> u64) option) \<Rightarrow> u128 \<Rightarrow> u128 rust_result" where
  "extend_two_sided 0 amts h =
     map_option (\<lambda>ok. if ok then Inr h else Inl no_two_sided) (both_positive amts (max (saturating_sub_w h 1) 1))"
| "extend_two_sided (Suc n) amts h =
     (case both_positive amts (max (saturating_sub_w h 1) 1) of None \<Rightarrow> None
      | Some ok \<Rightarrow>
          if ok then Some (Inr h)
          else (case checked_mul_w h 2 of
                  None \<Rightarrow> Some (Inl ''liquidity search overflow'')
                | Some next \<Rightarrow> if next = h then Some (Inl ''liquidity search overflow'') else extend_two_sided n amts next))"

text \<open>The least liquidity from \<open>lo\<close> on with a positive amount of both tokens.\<close>

definition minimum_two_sided :: "(u128 \<Rightarrow> (u64 \<times> u64) option) \<Rightarrow> u128 \<Rightarrow> u128 \<Rightarrow> u128 rust_result" where
  "minimum_two_sided amts lo hi_bracket = do {
     ok \<leftarrow> both_positive amts lo;
     (if ok then Some (Inr lo)
      else try_then (extend_two_sided 130 amts (max hi_bracket 2)) (\<lambda>h.
        let hi_cap = max (saturating_sub_w h 1) (saturating_add_w lo 1) in do {
          ok \<leftarrow> both_positive amts hi_cap;
          (if \<not> ok then Some (Inl no_two_sided)
           else do {
             (left, right) \<leftarrow> bisect (\<lambda>mid. map_option Not (both_positive amts mid)) lo hi_cap;
             ok \<leftarrow> both_positive amts right;
             Some (if ok then Inr right else Inl no_two_sided) }) })) }"

section \<open>The quote\<close>

text \<open>From the smallest admissible liquidity on: the slip allowed for a two-sided deposit, the last
  search, and the result.\<close>

definition settle_quote ::
    "(u128 \<Rightarrow> (u64 \<times> u64) option) \<Rightarrow> (u64 \<times> u64 \<Rightarrow> f64) \<Rightarrow> f64 \<Rightarrow> u128 \<Rightarrow> u128 \<Rightarrow> deposit_budget_quote rust_result" where
  "settle_quote amts worth target_usd hi_bracket lo2 = do {
     ab \<leftarrow> amts lo2;
     (let u_floor = worth ab in
      if f64_lt (f64_mul target_usd (f64_lit (103 / 100))) u_floor
      then Some (Inl ''target_usd too small for minimum two-sided deposit at this range (raise target ~5% or widen ticks)'')
      else do {
        ends \<leftarrow> (if f64_le u_floor target_usd
          then bisect (\<lambda>mid. map_option (\<lambda>ab. fst ab = 0 \<or> snd ab = 0 \<or> f64_le (worth ab) target_usd) (amts mid)) lo2 hi_bracket
          else Some (lo2, hi_bracket));
        ab \<leftarrow> amts (fst ends);
        Some (Inr \<lparr>amount_a = fst ab, amount_b = snd ab, token_max_a = bump_raw_cap (fst ab), token_max_b = bump_raw_cap (snd ab),
                   estimated_value_usd = worth ab, quote_liquidity = fst ends\<rparr>) }) }"

definition search_quote ::
    "(u128 \<Rightarrow> (u64 \<times> u64) option) \<Rightarrow> (u64 \<times> u64 \<Rightarrow> f64) \<Rightarrow> f64 \<Rightarrow> deposit_budget_quote rust_result" where
  "search_quote amts worth target_usd =
     (let usd_for_l = (\<lambda>l. map_option worth (amts l)) in do {
        u_at_1 \<leftarrow> usd_for_l 1;
        (if f64_is_finite u_at_1 \<and> f64_lt target_usd u_at_1
         then Some (Inl ''target_usd too small for this range (increase budget or widen range)'')
         else try_then (bracket_liquidity 130 usd_for_l target_usd 1 False) (\<lambda>(hi, saw_positive_usd).
           if \<not> saw_positive_usd then Some (Inl ''degenerate liquidity step (check ticks/sqrt_price)'')
           else do {
             u_hi \<leftarrow> usd_for_l hi;
             (if f64_lt u_hi target_usd
              then Some (Inl ''target_usd too large to bracket at this range/prices (try smaller target)'')
              else do {
                (lo, hi_bracket) \<leftarrow> bisect (\<lambda>mid. map_option (\<lambda>v. f64_le v target_usd) (usd_for_l mid)) 0 hi;
                try_then (minimum_two_sided amts lo hi_bracket) (settle_quote amts worth target_usd hi_bracket) }) })) })"

definition quote_deposit_budget_in_range ::
    "'u u256_ops \<Rightarrow> float_fns \<Rightarrow> int \<Rightarrow> int \<Rightarrow> int \<Rightarrow> u128 \<Rightarrow> nat \<Rightarrow> nat \<Rightarrow> f64 \<Rightarrow> f64 \<Rightarrow> f64 \<Rightarrow> deposit_budget_quote rust_result" where
  "quote_deposit_budget_in_range u fl tick_lower tick_upper tick_cur sqrt_p decimals_a decimals_b price_a_usd price_b_usd target_usd =
     (if tick_upper \<le> tick_lower then Some (Inl ''tick_lower must be < tick_upper'')
      else if \<not> (tick_lower \<le> tick_cur \<and> tick_cur < tick_upper)
      then Some (Inl ''current_tick must satisfy tick_lower <= current_tick < tick_upper (price in range)'')
      else if \<not> (f64_is_finite target_usd \<and> f64_lt (f64_lit 0) target_usd)
      then Some (Inl ''target_usd must be a finite positive number'')
      else if \<not> (f64_is_finite price_a_usd \<and> f64_is_finite price_b_usd \<and> f64_lt (f64_lit 0) price_a_usd \<and> f64_lt (f64_lit 0) price_b_usd)
      then Some (Inl ''price_a_usd and price_b_usd must be finite and positive'')
      else search_quote (\<lambda>l. token_amounts_in_range u fl l sqrt_p tick_lower tick_upper)
             (raw_pair_usd fl decimals_a decimals_b price_a_usd price_b_usd) target_usd)"

section \<open>The loops\<close>

lemma bisect_stop: "\<not> lo + 1 < hi \<Longrightarrow> bisect test lo hi = Some (lo, hi)"
  by (simp add: bisect.simps)

lemma mid_between:
  fixes lo hi :: u128
  assumes "lo + 1 < hi" and "lo < hi"
  shows "lo < lo + (hi - lo) div 2" and "lo + (hi - lo) div 2 < hi"
proof -
  have d: "unat (hi - lo) = unat hi - unat lo" using assms(2) by (simp add: unat_sub word_less_nat_alt order_less_imp_le)
  have "unat lo + 1 < unat hi" using assms(1) unat_plus_one [of lo hi] assms(2) by (simp add: word_less_nat_alt)
  moreover have "unat (lo + (hi - lo) div 2) = unat lo + (unat hi - unat lo) div 2"
  proof -
    have h: "unat ((hi - lo) div 2) = (unat hi - unat lo) div 2" by (simp add: unat_div d)
    have "unat lo + (unat hi - unat lo) div 2 < 2 ^ 128"
      using unat_lt_2p [of hi] assms(2) unfolding word_less_nat_alt by simp
    then show ?thesis by (simp add: unat_add_lt h)
  qed
  ultimately show "lo < lo + (hi - lo) div 2" "lo + (hi - lo) div 2 < hi" by (simp_all add: word_less_nat_alt)
qed

lemma bisect_ends:
  assumes "bisect test lo hi = Some (l, h)" and "lo < hi"
  shows "unat h = unat l + 1 \<and> lo \<le> l \<and> h \<le> hi \<and> (l = lo \<or> test l = Some True) \<and> (h = hi \<or> test h = Some False)"
  using assms
proof (induction "unat hi - unat lo" arbitrary: lo hi rule: less_induct)
  case less
  show ?case
  proof (cases "lo + 1 < hi")
    case False
    with less.prems have "l = lo" "h = hi" by (simp_all add: bisect.simps)
    moreover have "unat hi = unat lo + 1"
      using False less.prems(2) unat_plus_one [of lo hi] by (simp add: word_less_nat_alt)
    ultimately show ?thesis by simp
  next
    case True
    define mid where "mid = lo + (hi - lo) div 2"
    have m: "lo < mid" "mid < hi" unfolding mid_def by (rule mid_between [OF True less.prems(2)])+
    from less.prems(1) True obtain b where b: "test mid = Some b" "(if b then bisect test mid hi else bisect test lo mid) = Some (l, h)"
      by (subst (asm) bisect.simps) (auto simp: Let_def mid_def [symmetric] split: option.splits)
    show ?thesis
    proof (cases b)
      case True
      with b m less.hyps [of hi mid] show ?thesis unfolding word_less_nat_alt word_le_nat_alt by force
    next
      case False
      with b m less.hyps [of mid lo] show ?thesis unfolding word_less_nat_alt word_le_nat_alt by force
    qed
  qed
qed

lemma bracket_shape:
  "bracket_liquidity n usd target hi saw = Some (Inr (h, s)) \<Longrightarrow> h = hi \<or> (\<exists>k. 0 < k \<and> unat h = 2 * k)"
proof (induction n arbitrary: hi saw)
  case (Suc n)
  then consider "h = hi" | nx saw' where "checked_mul_w hi 2 = Some nx" "nx \<noteq> hi" "bracket_liquidity n usd target nx saw' = Some (Inr (h, s))"
    by (auto simp: Let_def split: option.splits if_splits)
  then show ?case
  proof cases
    case 2
    from 2(1) have "unat nx = 2 * unat hi" "unat hi \<noteq> 0" using 2(2)
      by (auto simp: checked_mul_w_def unat_mult_lt unat_eq_zero split: if_splits)
    with Suc.IH [OF 2(3)] show ?thesis by (metis neq0_conv)
  qed simp
qed simp

section \<open>Amounts and values grow with the liquidity\<close>

lemma amount_a_same: "amount_a_in_range_q64 = amount_a_q64_exact"
  by (intro ext) (simp add: amount_a_in_range_q64_def amount_a_q64_exact_def)

lemma amount_a_cases:
  assumes "u256_laws u" and "amount_a_in_range_q64 u l sc su = Some x"
  shows "unat x = exact_a (unat l) (unat sc) (unat su) \<and> (unat l * (unat su - unat sc) < 2 ^ 192 \<or> sc = 0 \<or> su \<le> sc)"
proof (cases "unat l * (unat su - unat sc) < 2 ^ 192")
  case True
  with amount_a_value [OF assms(1)] assms(2) show ?thesis by (fastforce simp: amount_a_same)
next
  case False
  show ?thesis
  proof (cases "sc = 0 \<or> su = 0 \<or> su \<le> sc")
    case True
    with assms(2) show ?thesis by (auto simp: amount_a_in_range_q64_def exact_a_def word_le_nat_alt unat_eq_zero)
  next
    case nontrivial: False
    have loc: "u256 u" using assms(1) by unfold_locales
    note fw = u256.from_word(2) [OF loc]
    have lt: "unat sc < unat su" using nontrivial by (auto simp: word_le_nat_alt)
    obtain d where d: "u_sub u (u_from u (unat su)) (u_from u (unat sc)) = Some d" "u_val u d = unat su - unat sc"
      using u256.sub_ok [OF loc, of "u_from u (unat sc)" "u_from u (unat su)"] lt fw by auto
    obtain m n where m: "u_mul u (u_from u (unat l)) d = Some m" and n: "u_mul u m (u_from u (2 ^ 64)) = Some n"
      using assms(2) nontrivial d lt by (auto simp: amount_a_in_range_q64_def Let_def bind_eq_Some_conv)
    have p64: "u_val u (u_from u (2 ^ 64)) = 2 ^ 64" by (rule u256.from_val [OF loc]) simp
    have "u_val u m = unat l * (unat su - unat sc)" using u256.mul_cases [OF loc, of "u_from u (unat l)" d] m d(2) fw by force
    moreover have "u_val u m * 2 ^ 64 < 2 ^ 256" using u256.mul_cases [OF loc, of m "u_from u (2 ^ 64)"] n p64 by force
    ultimately show ?thesis using False by simp
  qed
qed

lemma exact_a_mono: "l \<le> l' \<Longrightarrow> exact_a l lo hi \<le> exact_a l' lo hi"
proof (cases "lo = 0 \<or> hi \<le> lo")
  case False
  assume "l \<le> l'"
  then have "l * (hi - lo) * 2 ^ 64 div (lo * hi) \<le> l' * (hi - lo) * 2 ^ 64 div (lo * hi)" by (intro div_le_mono mult_le_mono order_refl)
  with False show ?thesis unfolding exact_a_def by (simp only: if_False min.mono order_refl)
qed (simp add: exact_a_def)

lemma amounts_mono:
  assumes "u256_laws u" and "token_amounts_in_range u fl l' sqrt_p lt ut = Some (a', b')" and "l \<le> l'"
  shows "\<exists>a b. token_amounts_in_range u fl l sqrt_p lt ut = Some (a, b) \<and> a \<le> a' \<and> b \<le> b'"
proof -
  let ?su = "tick_to_sqrt_price fl ut" and ?d = "saturating_sub_w sqrt_p (tick_to_sqrt_price fl lt)"
  have ll: "unat l \<le> unat l'" using assms(3) by (simp add: word_le_nat_alt)
  from assms(2) have a': "amount_a_in_range_q64 u l' sqrt_p ?su = Some a'" and b': "b' = ucast (drop_bit 64 (saturating_mul_w l' ?d))"
    by (auto simp: token_amounts_in_range_def)
  from amount_a_cases [OF assms(1) a'] have e: "unat a' = exact_a (unat l') (unat sqrt_p) (unat ?su)"
    and c: "unat l' * (unat ?su - unat sqrt_p) < 2 ^ 192 \<or> sqrt_p = 0 \<or> ?su \<le> sqrt_p" by auto
  have "\<exists>a. amount_a_in_range_q64 u l sqrt_p ?su = Some a \<and> a \<le> a'"
  proof (cases "sqrt_p = 0 \<or> ?su \<le> sqrt_p")
    case True
    then show ?thesis by (auto simp: amount_a_in_range_q64_def)
  next
    case False
    with c ll have "unat l * (unat ?su - unat sqrt_p) < 2 ^ 192" by (meson le_less_trans mult_le_mono1)
    from amount_a_value [OF assms(1) this] e exact_a_mono [OF ll] show ?thesis by (fastforce simp: amount_a_same word_le_nat_alt)
  qed
  moreover have "(ucast (drop_bit 64 (saturating_mul_w l ?d)) :: u64) \<le> b'"
  proof -
    have v: "unat (ucast (drop_bit 64 (saturating_mul_w x ?d)) :: u64) = min (unat x * unat ?d) (2 ^ 128 - 1) div 2 ^ 64" for x :: u128
    proof -
      have "unat (saturating_mul_w x ?d) = min (unat x * unat ?d) (2 ^ 128 - 1)"
        by (cases "unat x * unat ?d < 2 ^ 128") (simp_all add: saturating_mul_w_def unat_mult_lt min_def)
      then have "unat (drop_bit 64 (saturating_mul_w x ?d)) = min (unat x * unat ?d) (2 ^ 128 - 1) div 2 ^ 64"
        by (simp add: unat_drop_bit_eq drop_bit_eq_div unat_div_distrib)
      moreover have "min (unat x * unat ?d) (2 ^ 128 - 1) div 2 ^ 64 < 2 ^ 64" by (simp add: div_less_iff_less_mult min_def)
      ultimately show ?thesis by (simp add: unsigned_ucast_eq take_bit_nat_eq_self)
    qed
    show ?thesis unfolding b' word_le_nat_alt v by (intro div_le_mono min.mono mult_le_mono1 ll order_refl)
  qed
  ultimately show ?thesis by (auto simp: token_amounts_in_range_def)
qed

lemma zero_liquidity_amounts: "token_amounts_in_range u fl 0 sqrt_p lt ut = Some (a, b) \<Longrightarrow> u256_laws u \<Longrightarrow> a = 0"
  using amount_a_cases [of u 0 sqrt_p "tick_to_sqrt_price fl ut" a]
  by (auto simp: token_amounts_in_range_def exact_a_def unat_eq_zero split: if_splits)

text \<open>The scale of a token is a positive number, as a power of ten is, and the prices are positive.\<close>

definition usd_scale :: "float_fns \<Rightarrow> nat \<Rightarrow> nat \<Rightarrow> f64 \<Rightarrow> f64 \<Rightarrow> bool" where
  "usd_scale fl da db pa pb \<longleftrightarrow> f64_positive (f64_powi fl (f64_lit 10) (int da)) \<and> f64_positive (f64_powi fl (f64_lit 10) (int db))
     \<and> f64_positive pa \<and> f64_positive pb"

lemmas f64_nonnegs = f64_add_nonneg f64_mul_nonneg f64_div_nonneg f64_of_nat_nonneg
lemmas f64_monos = f64_add_mono f64_mul_mono f64_div_mono f64_of_nat_mono

lemma raw_pair_usd_nonneg: "usd_scale fl da db pa pb \<Longrightarrow> f64_nonneg (raw_pair_usd fl da db pa pb (a, b))"
  by (auto simp: raw_pair_usd_def ui_from_raw_def usd_scale_def intro!: f64_nonnegs)

lemma raw_pair_usd_mono:
  "usd_scale fl da db pa pb \<Longrightarrow> a \<le> a' \<Longrightarrow> b \<le> b'
    \<Longrightarrow> f64_le (raw_pair_usd fl da db pa pb (a, b)) (raw_pair_usd fl da db pa pb (a', b'))"
  by (auto simp: raw_pair_usd_def ui_from_raw_def usd_scale_def word_le_nat_alt intro!: f64_monos f64_nonnegs)

section \<open>The liquidity of a quote\<close>

text \<open>Amounts and values that grow with the liquidity.\<close>

definition priced_curve :: "(u128 \<Rightarrow> (u64 \<times> u64) option) \<Rightarrow> (u64 \<times> u64 \<Rightarrow> f64) \<Rightarrow> bool" where
  "priced_curve amts worth \<longleftrightarrow>
     (\<forall>l l' a' b'. amts l' = Some (a', b') \<longrightarrow> l \<le> l' \<longrightarrow> (\<exists>a b. amts l = Some (a, b) \<and> a \<le> a' \<and> b \<le> b'))
   \<and> (\<forall>a b. amts 0 = Some (a, b) \<longrightarrow> a = 0)
   \<and> (\<forall>ab. f64_nonneg (worth ab))
   \<and> (\<forall>a b a' b'. a \<le> a' \<longrightarrow> b \<le> b' \<longrightarrow> f64_le (worth (a, b)) (worth (a', b')))"

lemma range_priced_curve:
  "u256_laws u \<Longrightarrow> usd_scale fl da db pa pb
    \<Longrightarrow> priced_curve (\<lambda>l. token_amounts_in_range u fl l sqrt_p lt ut) (raw_pair_usd fl da db pa pb)"
  unfolding priced_curve_def
  using amounts_mono zero_liquidity_amounts raw_pair_usd_nonneg raw_pair_usd_mono by (intro conjI) (blast, blast, auto)

lemma priced_curve_amounts:
  "priced_curve amts worth \<Longrightarrow> amts l' = Some (a', b') \<Longrightarrow> l \<le> l' \<Longrightarrow> \<exists>a b. amts l = Some (a, b) \<and> a \<le> a' \<and> b \<le> b'"
  by (simp add: priced_curve_def)

lemma priced_curve_worth:
  "priced_curve amts worth \<Longrightarrow> amts l = Some ab \<Longrightarrow> amts l' = Some ab' \<Longrightarrow> l \<le> l' \<Longrightarrow> f64_le (worth ab) (worth ab')"
  by (cases ab; cases ab') (fastforce simp: priced_curve_def)

lemma unat_max_u128: "unat (- 1 :: u128) = 2 ^ 128 - 1"
  by (simp add: unsigned_minus_1_eq_mask mask_eq_exp_minus_1)

lemma bracket_end:
  assumes "bracket_liquidity n usd target 1 saw = Some (Inr (hi, s))"
  shows "0 < hi" and "hi \<noteq> - 1"
proof -
  from bracket_shape [OF assms] have hi: "hi = 1 \<or> (\<exists>k. 0 < k \<and> unat hi = 2 * k)" .
  then show "0 < hi" by (auto simp: word_less_nat_alt)
  show "hi \<noteq> - 1"
  proof
    assume "hi = - 1"
    then have u: "unat hi = 2 ^ 128 - 1" by (simp only: unat_max_u128)
    from hi show False
    proof
      assume "\<exists>k. 0 < k \<and> unat hi = 2 * k"
      then have "even (unat hi)" by auto
      then show False unfolding u by simp
    qed (use u in simp)
  qed
qed

lemma minimum_two_sided_least:
  assumes "minimum_two_sided amts lo hib = Some (Inr l)" and "unat hib = unat lo + 1" and "hib \<noteq> - 1"
  shows "both_positive amts l = Some True \<and> l \<noteq> - 1 \<and> (l = lo \<or> hib \<le> l \<and> both_positive amts (l - 1) = Some False)"
proof (cases "both_positive amts lo = Some True")
  case True
  have "lo \<noteq> - 1" using assms(2) unat_lt_2p [of hib] by (auto simp: unat_max_u128)
  with True assms(1) show ?thesis by (simp add: minimum_two_sided_def)
next
  case False
  define cap where "cap h = max (saturating_sub_w h 1) (saturating_add_w lo 1)" for h :: u128
  from assms(1) False obtain h left where lo: "both_positive amts lo = Some False" and top: "both_positive amts (cap h) = Some True"
    and bs: "bisect (\<lambda>mid. map_option Not (both_positive amts mid)) lo (cap h) = Some (left, l)" and l: "both_positive amts l = Some True"
    by (auto simp: minimum_two_sided_def bind_eq_Some_conv try_then_Some_Inr Let_def cap_def split: if_splits prod.splits)
  have nx: "saturating_add_w lo 1 = hib"
    using assms(2) unat_lt_2p [of hib] by (simp add: saturating_add_w_def word_unat_eq_iff unat_add_lt)
  have lt: "lo < cap h" using assms(2) by (simp add: cap_def nx word_less_nat_alt max_def word_le_nat_alt)
  from bisect_ends [OF bs lt] have e: "unat l = unat left + 1" "lo \<le> left" "l \<le> cap h"
    "left = lo \<or> both_positive amts left = Some False" by auto
  have "left = l - 1" using e(1) by (simp add: word_unat_eq_iff unat_minus_one)
  moreover have "hib \<le> l" using e(1,2) assms(2) by (simp add: word_le_nat_alt)
  moreover have "l \<noteq> - 1"
  proof
    assume "l = - 1"
    with e(3) have "cap h = - 1" by (simp add: word_order.extremum_uniqueI)
    then have "saturating_sub_w h 1 = - 1" using assms(3) by (auto simp: cap_def nx max_def split: if_splits)
    then have "unat (saturating_sub_w h 1) = 2 ^ 128 - 1" by (simp add: unat_max_u128)
    with unat_lt_2p [of h] show False by (simp add: unat_saturating_sub)
  qed
  ultimately show ?thesis using e(4) l lo by auto
qed

text \<open>What a successful search computed on its way. The last of its three halvings never moves an end:
  the liquidity found by the first two is the result.\<close>

lemma search_quote_parts:
  assumes "search_quote amts worth target = Some (Inr q)"
  obtains hi lo hib lo2 ab where
    "bracket_liquidity 130 (\<lambda>l. map_option worth (amts l)) target 1 False = Some (Inr (hi, True))"
    "\<exists>ab. amts hi = Some ab \<and> \<not> f64_lt (worth ab) target"
    "bisect (\<lambda>mid. map_option (\<lambda>v. f64_le v target) (map_option worth (amts mid))) 0 hi = Some (lo, hib)"
    "minimum_two_sided amts lo hib = Some (Inr lo2)" "settle_quote amts worth target hib lo2 = Some (Inr q)"
proof -
  note [simp del] = bracket_liquidity.simps
  from assms show ?thesis
    unfolding search_quote_def Let_def
    by (auto simp: bind_eq_Some_conv try_then_Some_Inr intro: that split: if_splits prod.splits)
qed

lemma settle_quote_idle:
  assumes "lo2 \<noteq> - 1" and "unat hib \<le> unat lo2 + 1"
  shows "bisect test lo2 hib = Some (lo2, hib)"
proof (rule bisect_stop)
  have "lo2 < - 1" using assms(1) by (simp add: word_order.not_eq_extremum)
  from unat_plus_one [of lo2 "- 1"] this assms(2) show "\<not> lo2 + 1 < hib" by (simp add: word_less_nat_alt)
qed

lemma search_quote_spec:
  assumes curve: "priced_curve amts worth" and target: "f64_nonneg target" and "search_quote amts worth target = Some (Inr q)"
  shows "\<exists>a b. amts (quote_liquidity q) = Some (a, b) \<and> 0 < a \<and> 0 < b
    \<and> amount_a q = a \<and> amount_b q = b \<and> token_max_a q = bump_raw_cap a \<and> token_max_b q = bump_raw_cap b
    \<and> estimated_value_usd q = worth (a, b)
    \<and> \<not> f64_lt (f64_mul target (f64_lit (103 / 100))) (worth (a, b))
    \<and> (\<forall>l ab. quote_liquidity q < l \<longrightarrow> amts l = Some ab \<longrightarrow> f64_le target (worth ab))
    \<and> (f64_lt target (worth (a, b)) \<longrightarrow> (\<forall>l a b. l < quote_liquidity q \<longrightarrow> amts l = Some (a, b) \<longrightarrow> a = 0 \<or> b = 0))"
proof -
  from assms(3) obtain hi lo hib lo2 where
    br: "bracket_liquidity 130 (\<lambda>l. map_option worth (amts l)) target 1 False = Some (Inr (hi, True))"
    and top: "\<exists>ab. amts hi = Some ab \<and> \<not> f64_lt (worth ab) target"
    and bs: "bisect (\<lambda>mid. map_option (\<lambda>v. f64_le v target) (map_option worth (amts mid))) 0 hi = Some (lo, hib)"
    and mt: "minimum_two_sided amts lo hib = Some (Inr lo2)" and st: "settle_quote amts worth target hib lo2 = Some (Inr q)"
    by (rule search_quote_parts)
  note hi0 = bracket_end(1) [OF br]
  from bisect_ends [OF bs hi0] have e: "unat hib = unat lo + 1" "hib \<le> hi"
    "lo = 0 \<or> (\<exists>ab. amts lo = Some ab \<and> f64_le (worth ab) target)" "hib = hi \<or> (\<exists>ab. amts hib = Some ab \<and> \<not> f64_le (worth ab) target)"
    by auto
  have nn: "f64_nonneg (worth ab)" for ab using curve by (cases ab) (simp add: priced_curve_def)
  from e(4) top have hib: "\<exists>ab. amts hib = Some ab \<and> f64_le target (worth ab)"
    using f64_nonneg_not_lt [OF nn target] nn target by (auto simp: f64_nonneg_not_lt f64_le_def)
  have "hib \<noteq> - 1" using e(2) bracket_end(2) [OF br] by (auto simp: word_order.extremum_unique)
  from minimum_two_sided_least [OF mt e(1) this] have two: "both_positive amts lo2 = Some True" "lo2 \<noteq> - 1"
    "lo2 = lo \<or> hib \<le> lo2 \<and> both_positive amts (lo2 - 1) = Some False" by auto
  have ge: "unat hib \<le> unat lo2 + 1" using two(3) e(1) by (auto simp: word_le_nat_alt)
  from two(1) obtain a b where ab: "amts lo2 = Some (a, b)" "0 < a" "0 < b" by (auto simp: both_positive_def)
  have q: "\<not> f64_lt (f64_mul target (f64_lit (103 / 100))) (worth (a, b))"
    "q = \<lparr>amount_a = a, amount_b = b, token_max_a = bump_raw_cap a, token_max_b = bump_raw_cap b,
          estimated_value_usd = worth (a, b), quote_liquidity = lo2\<rparr>"
    using st ab settle_quote_idle [OF two(2) ge] by (auto simp: settle_quote_def Let_def bind_eq_Some_conv split: if_splits)
  have above: "f64_le target (worth ab')" if "lo2 < l" "amts l = Some ab'" for l ab'
  proof -
    have "hib \<le> l" using that(1) ge by (simp add: word_le_nat_alt word_less_nat_alt)
    with hib priced_curve_worth [OF curve _ that(2)] show ?thesis by (meson f64_nonneg_le_trans)
  qed
  have below: "a' = 0 \<or> b' = 0" if "f64_lt target (worth (a, b))" "l < lo2" "amts l = Some (a', b')" for l a' b'
  proof -
    have "lo2 \<noteq> lo"
    proof
      assume "lo2 = lo"
      with e(3) that(1) ab have "lo = 0" by (auto dest: f64_le_not_lt)
      with \<open>lo2 = lo\<close> ab curve show False by (auto simp: priced_curve_def)
    qed
    with two(3) obtain a1 b1 where ab1: "amts (lo2 - 1) = Some (a1, b1)" "a1 = 0 \<or> b1 = 0" by (auto simp: both_positive_def word_gt_0)
    have "l \<le> lo2 - 1" using that(2) by (cases "lo2 = 0") (simp_all add: word_le_nat_alt word_less_nat_alt unat_minus_one)
    from priced_curve_amounts [OF curve ab1(1) this] that(3) ab1(2) show ?thesis by auto
  qed
  show ?thesis using ab q above below by (intro exI [of _ a] exI [of _ b]) auto
qed

section \<open>The search returns\<close>

lemma bisect_total:
  assumes "\<forall>m. test m \<noteq> None" and "lo < hi"
  shows "\<exists>l h. bisect test lo hi = Some (l, h)"
  using assms(2)
proof (induction "unat hi - unat lo" arbitrary: lo hi rule: less_induct)
  case less
  show ?case
  proof (cases "lo + 1 < hi")
    case True
    define mid where "mid = lo + (hi - lo) div 2"
    have m: "lo < mid" "mid < hi" unfolding mid_def by (rule mid_between [OF True less.prems])+
    obtain b where b: "test mid = Some b" using assms(1) by fastforce
    have "unat hi - unat mid < unat hi - unat lo" "unat mid - unat lo < unat hi - unat lo" using m by (auto simp: word_less_nat_alt)
    with less.hyps m have "\<exists>l h. (if b then bisect test mid hi else bisect test lo mid) = Some (l, h)" by (cases b) auto
    with True b show ?thesis by (subst bisect.simps) (simp add: Let_def mid_def [symmetric])
  qed (simp add: bisect.simps)
qed

lemma bracket_total: "\<forall>m. usd m \<noteq> None \<Longrightarrow> bracket_liquidity n usd target hi saw \<noteq> None"
  by (induction n arbitrary: hi saw) (auto simp: Let_def split: option.splits)

lemma both_positive_total: "\<forall>m. amts m \<noteq> None \<Longrightarrow> \<exists>ok. both_positive amts m = Some ok"
  by (simp add: both_positive_def)

lemma extend_total: "\<forall>m. amts m \<noteq> None \<Longrightarrow> extend_two_sided n amts h \<noteq> None"
proof (induction n arbitrary: h)
  case (Suc n)
  then show ?case using both_positive_total [OF Suc.prems] by (fastforce split: option.splits)
qed (use both_positive_total in force)

lemma try_then_total: "r \<noteq> None \<Longrightarrow> (\<And>x. r = Some (Inr x) \<Longrightarrow> f x \<noteq> None) \<Longrightarrow> try_then r f \<noteq> None"
  by (auto simp: try_then_def split: option.splits sum.splits)

lemma minimum_two_sided_total:
  assumes "\<forall>m. amts m \<noteq> None" and "unat hib = unat lo + 1"
  shows "minimum_two_sided amts lo hib \<noteq> None"
proof -
  have nx: "saturating_add_w lo 1 = hib"
    using assms(2) unat_lt_2p [of hib] by (simp add: saturating_add_w_def word_unat_eq_iff unat_add_lt)
  have "lo < max (saturating_sub_w h 1) hib" for h using assms(2) by (simp add: word_less_nat_alt max_def word_le_nat_alt)
  from bisect_total [OF _ this] have bs: "\<exists>l r. bisect (\<lambda>mid. map_option Not (both_positive amts mid)) lo (max (saturating_sub_w h 1) hib) = Some (l, r)" for h
    using both_positive_total [OF assms(1)] by force
  obtain ok where ok: "both_positive amts lo = Some ok" using both_positive_total [OF assms(1)] by blast
  have step: "do { ok \<leftarrow> both_positive amts (max (saturating_sub_w h 1) hib);
             (if \<not> ok then Some (Inl no_two_sided)
              else do {
                (left, right) \<leftarrow> bisect (\<lambda>mid. map_option Not (both_positive amts mid)) lo (max (saturating_sub_w h 1) hib);
                ok \<leftarrow> both_positive amts right;
                Some (if ok then Inr right else Inl no_two_sided) }) } \<noteq> None" for h
  proof -
    obtain l r where "bisect (\<lambda>mid. map_option Not (both_positive amts mid)) lo (max (saturating_sub_w h 1) hib) = Some (l, r)"
      using bs by blast
    moreover obtain ok1 ok2 where "both_positive amts (max (saturating_sub_w h 1) hib) = Some ok1" "both_positive amts r = Some ok2"
      using both_positive_total [OF assms(1)] by blast
    ultimately show ?thesis by simp
  qed
  from ok show ?thesis
    unfolding minimum_two_sided_def nx Let_def
    by (cases ok) (simp, simp del: not_None_eq, rule try_then_total [OF extend_total [OF assms(1)] step])
qed

lemma search_quote_total:
  assumes "\<forall>m. amts m \<noteq> None"
  shows "search_quote amts worth target \<noteq> None"
proof -
  note [simp del] = bracket_liquidity.simps
  let ?usd = "\<lambda>l. map_option worth (amts l)"
  have some: "\<exists>ab. amts l = Some ab" for l using assms by auto
  obtain ab1 where u1: "amts 1 = Some ab1" using some by blast
  have br: "bracket_liquidity 130 ?usd target 1 False \<noteq> None" using assms by (intro bracket_total) simp
  have rest: "do { (lo, hi_bracket) \<leftarrow> bisect (\<lambda>mid. map_option (\<lambda>v. f64_le v target) (?usd mid)) 0 hi;
                   try_then (minimum_two_sided amts lo hi_bracket) (settle_quote amts worth target hi_bracket) } \<noteq> None"
    if b: "bracket_liquidity 130 ?usd target 1 False = Some (Inr (hi, s))" for hi s
  proof -
    have hi: "0 < hi" and "hi \<noteq> - 1" using bracket_end [OF b] by auto
    obtain lo hib where bs: "bisect (\<lambda>mid. map_option (\<lambda>v. f64_le v target) (?usd mid)) 0 hi = Some (lo, hib)"
      using bisect_total [OF _ hi] assms by (metis (no_types, lifting) option.map_disc_iff)
    from bisect_ends [OF bs hi] have e: "unat hib = unat lo + 1" "hib \<le> hi" by auto
    with \<open>hi \<noteq> - 1\<close> have nb: "hib \<noteq> - 1" by (auto simp: word_order.extremum_unique)
    have "settle_quote amts worth target hib lo2 \<noteq> None" if mt: "minimum_two_sided amts lo hib = Some (Inr lo2)" for lo2
    proof -
      from minimum_two_sided_least [OF mt e(1) nb] have "lo2 \<noteq> - 1" "unat hib \<le> unat lo2 + 1" using e(1) by (auto simp: word_le_nat_alt)
      from settle_quote_idle [OF this] some [of lo2] show ?thesis by (auto simp: settle_quote_def Let_def)
    qed
    with bs show ?thesis by (simp del: not_None_eq add: try_then_total minimum_two_sided_total [OF assms e(1)])
  qed
  obtain abh where uh: "amts hi = Some (abh hi)" for hi using some by metis
  have "try_then (bracket_liquidity 130 ?usd target 1 False) (\<lambda>(hi, saw_positive_usd).
      if \<not> saw_positive_usd then Some (Inl ''degenerate liquidity step (check ticks/sqrt_price)'')
      else do {
        u_hi \<leftarrow> ?usd hi;
        (if f64_lt u_hi target
         then Some (Inl ''target_usd too large to bracket at this range/prices (try smaller target)'')
         else do {
           (lo, hi_bracket) \<leftarrow> bisect (\<lambda>mid. map_option (\<lambda>v. f64_le v target) (?usd mid)) 0 hi;
           try_then (minimum_two_sided amts lo hi_bracket) (settle_quote amts worth target hi_bracket) }) }) \<noteq> None"
    using uh rest by (intro try_then_total br) (auto simp del: not_None_eq split: prod.splits)
  with u1 show ?thesis unfolding search_quote_def Let_def by (auto simp del: not_None_eq)
qed

section \<open>The property\<close>

lemma f64_positiveI: "wf_f64 x \<Longrightarrow> f64_is_finite x \<Longrightarrow> f64_lt (f64_lit 0) x \<Longrightarrow> f64_positive x"
  by (cases x) (auto simp: f64_lit_def f64_of_rat_def f64_positive_def signed_val_def split: if_splits)

lemma amounts_total:
  assumes "u256_laws u" and "unat (tick_to_sqrt_price fl ut) - unat sqrt_p \<le> 2 ^ 64"
  shows "token_amounts_in_range u fl l sqrt_p lt ut \<noteq> None"
proof -
  have "unat l * (unat (tick_to_sqrt_price fl ut) - unat sqrt_p) < 2 ^ 192"
  proof -
    have "unat l * (unat (tick_to_sqrt_price fl ut) - unat sqrt_p) \<le> unat l * 2 ^ 64" by (intro mult_le_mono order_refl assms(2))
    also have "\<dots> < 2 ^ 128 * 2 ^ 64" using unat_lt_2p [of l] by simp
    finally show ?thesis by simp
  qed
  from amount_a_value [OF assms(1) this] show ?thesis by (auto simp: token_amounts_in_range_def amount_a_same Let_def)
qed

text \<open>C4. The deposit quote. It always returns, also from its searches, if the upper end of the range is at
  most \<open>2 ^ 64\<close> above the price (in Q64.64), where the 256-bit product cannot overflow. A quote it
  returns is for a price inside the range and for the amounts of its liquidity, both positive, and
  the caps are above the amounts unless saturated. Its value is at most 1.03 times the target; every
  greater liquidity is worth at least the target, so the budget is used up; and if the value is above the
  target then no smaller liquidity has a positive amount of both tokens. All values are the
  rounded floating-point ones of the code.\<close>

theorem deposit_quote_optimal:
  assumes "u256_laws u" and "wf_f64 pa" and "wf_f64 pb" and "wf_f64 target"
    and "f64_positive (f64_powi fl (f64_lit 10) (int da))" and "f64_positive (f64_powi fl (f64_lit 10) (int db))"
  shows "(unat (tick_to_sqrt_price fl ut) - unat sqrt_p \<le> 2 ^ 64
            \<longrightarrow> quote_deposit_budget_in_range u fl lt ut tick sqrt_p da db pa pb target \<noteq> None)
   \<and> (quote_deposit_budget_in_range u fl lt ut tick sqrt_p da db pa pb target = Some (Inr q) \<longrightarrow>
        lt \<le> tick \<and> tick < ut
      \<and> token_amounts_in_range u fl (quote_liquidity q) sqrt_p lt ut = Some (amount_a q, amount_b q)
      \<and> 0 < amount_a q \<and> 0 < amount_b q
      \<and> token_max_a q = bump_raw_cap (amount_a q) \<and> token_max_b q = bump_raw_cap (amount_b q)
      \<and> estimated_value_usd q = raw_pair_usd fl da db pa pb (amount_a q, amount_b q)
      \<and> \<not> f64_lt (f64_mul target (f64_lit (103 / 100))) (estimated_value_usd q)
      \<and> (\<forall>l ab. quote_liquidity q < l \<longrightarrow> token_amounts_in_range u fl l sqrt_p lt ut = Some ab
            \<longrightarrow> f64_le target (raw_pair_usd fl da db pa pb ab))
      \<and> (f64_lt target (estimated_value_usd q) \<longrightarrow>
           (\<forall>l a b. l < quote_liquidity q \<longrightarrow> token_amounts_in_range u fl l sqrt_p lt ut = Some (a, b) \<longrightarrow> a = 0 \<or> b = 0)))"
proof (intro conjI impI)
  let ?quote = "quote_deposit_budget_in_range u fl lt ut tick sqrt_p da db pa pb target"
  show "?quote \<noteq> None" if "unat (tick_to_sqrt_price fl ut) - unat sqrt_p \<le> 2 ^ 64"
    using search_quote_total [of "\<lambda>l. token_amounts_in_range u fl l sqrt_p lt ut"] amounts_total [OF assms(1) that]
    unfolding quote_deposit_budget_in_range_def by (simp del: not_None_eq)
  assume q: "?quote = Some (Inr q)"
  then have g: "lt \<le> tick" "tick < ut" "f64_is_finite target" "f64_lt (f64_lit 0) target" "f64_is_finite pa" "f64_is_finite pb"
      "f64_lt (f64_lit 0) pa" "f64_lt (f64_lit 0) pb"
    and s: "search_quote (\<lambda>l. token_amounts_in_range u fl l sqrt_p lt ut) (raw_pair_usd fl da db pa pb) target = Some (Inr q)"
    by (auto simp: quote_deposit_budget_in_range_def split: if_splits)
  have "usd_scale fl da db pa pb" unfolding usd_scale_def using assms g by (auto intro: f64_positiveI)
  from search_quote_spec [OF range_priced_curve [OF assms(1) this] f64_positive_nonneg [OF f64_positiveI [OF assms(4) g(3,4)]] s]
  obtain a b where ab: "token_amounts_in_range u fl (quote_liquidity q) sqrt_p lt ut = Some (a, b)" "0 < a" "0 < b"
    and e: "amount_a q = a" "amount_b q = b" "token_max_a q = bump_raw_cap a" "token_max_b q = bump_raw_cap b"
      "estimated_value_usd q = raw_pair_usd fl da db pa pb (a, b)"
    and r: "\<not> f64_lt (f64_mul target (f64_lit (103 / 100))) (raw_pair_usd fl da db pa pb (a, b))"
      "\<forall>l ab. quote_liquidity q < l \<longrightarrow> token_amounts_in_range u fl l sqrt_p lt ut = Some ab \<longrightarrow> f64_le target (raw_pair_usd fl da db pa pb ab)"
      "f64_lt target (raw_pair_usd fl da db pa pb (a, b)) \<longrightarrow>
         (\<forall>l a b. l < quote_liquidity q \<longrightarrow> token_amounts_in_range u fl l sqrt_p lt ut = Some (a, b) \<longrightarrow> a = 0 \<or> b = 0)"
    by blast
  show "lt \<le> tick" "tick < ut" by (rule g)+
  show "token_amounts_in_range u fl (quote_liquidity q) sqrt_p lt ut = Some (amount_a q, amount_b q)"
    "0 < amount_a q" "0 < amount_b q" "token_max_a q = bump_raw_cap (amount_a q)" "token_max_b q = bump_raw_cap (amount_b q)"
    "estimated_value_usd q = raw_pair_usd fl da db pa pb (amount_a q, amount_b q)" using ab e by simp_all
  show "\<not> f64_lt (f64_mul target (f64_lit (103 / 100))) (estimated_value_usd q)" using r(1) e by simp
  show "\<forall>l ab. quote_liquidity q < l \<longrightarrow> token_amounts_in_range u fl l sqrt_p lt ut = Some ab
    \<longrightarrow> f64_le target (raw_pair_usd fl da db pa pb ab)" by (rule r(2))
  show "\<forall>l a b. l < quote_liquidity q \<longrightarrow> token_amounts_in_range u fl l sqrt_p lt ut = Some (a, b) \<longrightarrow> a = 0 \<or> b = 0"
    if "f64_lt target (estimated_value_usd q)" using r(3) that e by simp
qed

text \<open>A range from \<open>0\<close> to \<open>2\<close> around the square-root price \<open>1\<close>: liquidity \<open>3\<close> has one token A and three
  tokens B, worth the target of four dollars.\<close>

lemma two_ticks_zero: "tick_to_sqrt_price two_ticks 0 = 0"
  by (simp add: tick_to_sqrt_price_def two_ticks_def approx_fns_def f64_of_int_def f64_of_rat_def f64_of_nat_def f64_round_def
      f64_as_u128_def Let_def)

lemma two_ticks_amounts:
  "token_amounts_in_range word_ops two_ticks 1 (2 ^ 64) 0 2 = Some (0, 1)" "token_amounts_in_range word_ops two_ticks 2 (2 ^ 64) 0 2 = Some (1, 2)"
  "token_amounts_in_range word_ops two_ticks 3 (2 ^ 64) 0 2 = Some (1, 3)" "token_amounts_in_range word_ops two_ticks 4 (2 ^ 64) 0 2 = Some (2, 4)"
  by (simp_all add: token_amounts_in_range_def two_ticks_zero two_ticks_sqrt amount_a_in_range_q64_def word_ops_def checked_mul_w_def
      word_le_nat_alt word_less_nat_alt saturating_sub_w_def saturating_mul_w_def)

lemma f64_small_lit: "n < 2 ^ 53 \<Longrightarrow> f64_of_nat n = F64_Fin False (of_nat n)" "n < 2 ^ 53 \<Longrightarrow> f64_lit (of_nat n) = F64_Fin False (of_nat n)"
  using f64_round_exact [of n False] by (cases "n = 0"; simp add: f64_of_nat_def f64_lit_def f64_of_rat_def f64_round_def)+

lemma two_ticks_worth:
  assumes "unat a + unat b < 2 ^ 53"
  shows "raw_pair_usd two_ticks 1 1 (f64_lit 1) (f64_lit 1) (a, b) = F64_Fin False (of_nat (unat a + unat b))"
proof -
  have r: "f64_round False (of_nat n) = F64_Fin False (of_nat n)" if "n < 2 ^ 53" for n
    using f64_small_lit(1) [OF that] by (simp add: f64_of_nat_def)
  have one: "f64_powi two_ticks x 1 = F64_Fin False 1" "f64_lit 1 = F64_Fin False 1" for x
    using f64_small_lit(2) [of 1] by (simp_all add: two_ticks_def f64_of_int_def f64_lit_def)
  have "unat a < 2 ^ 53" "unat b < 2 ^ 53" using assms by auto
  then show ?thesis
    using assms r [of "unat a"] r [of "unat b"] r [of "unat a + unat b"]
      of_nat_0_le_iff [of "unat a", where 'a = rat] of_nat_0_le_iff [of "unat b", where 'a = rat]
    by (simp add: raw_pair_usd_def ui_from_raw_def one f64_small_lit f64_of_rat_nonneg_eq signed_val_def)
qed

lemma demo_search:
  fixes amts :: "u128 \<Rightarrow> (u64 \<times> u64) option"
  defines "four \<equiv> F64_Fin False 4"
  assumes "amts 1 = Some (0, 1)" "amts 2 = Some (1, 2)" "amts 3 = Some (1, 3)" "amts 4 = Some (2, 4)"
    and "worth (0, 1) = F64_Fin False 1" "worth (1, 2) = F64_Fin False 3" "worth (1, 3) = four" "worth (2, 4) = F64_Fin False 6"
  shows "search_quote amts worth four
    = Some (Inr \<lparr>amount_a = 1, amount_b = 3, token_max_a = 2, token_max_b = 4, estimated_value_usd = four, quote_liquidity = 3\<rparr>)"
proof -
  note ev = assms f64_le_def signed_val_def
  have zero: "f64_lit 0 = F64_Fin False 0" using f64_small_lit(2) [of 0] by simp
  have n: "(130 :: nat) = Suc (Suc (Suc 127))" by simp
  have "bracket_liquidity (Suc (Suc (Suc k))) (\<lambda>l. map_option worth (amts l)) four 1 False = Some (Inr (4, True))" for k
    by (simp add: ev zero checked_mul_w_def)
  then have br: "bracket_liquidity 130 (\<lambda>l. map_option worth (amts l)) four 1 False = Some (Inr (4, True))" by (simp only: n)
  have b1: "bisect (\<lambda>mid. map_option (\<lambda>v. f64_le v four) (map_option worth (amts mid))) 0 4 = Some (3, 4)"
    by (subst bisect.simps, simp add: ev Let_def, subst bisect.simps, simp add: ev Let_def, subst bisect.simps, simp)
  have mt: "minimum_two_sided amts 3 4 = Some (Inr 3)" by (simp add: minimum_two_sided_def both_positive_def ev)
  have b3: "bisect t 3 4 = Some (3, 4)" for t by (simp add: bisect.simps)
  have "f64_lit (103 / 100) = F64_Fin False (4638707616191611 * pow2 (- 52))"
    unfolding f64_lit_def f64_of_rat_nonneg_eq [of "103 / 100", simplified]
    by (subst f64_round_eq [where k = 0 and n = "4638707616191611"]) (simp_all add: pow2_def)
  then have m: "f64_mul four (f64_lit (103 / 100)) = F64_Fin False (4638707616191611 * pow2 (- 50))"
    unfolding four_def by (simp, subst f64_round_eq [where k = 2 and n = "4638707616191611"]) (simp_all add: pow2_def)
  have "settle_quote amts worth four 4 3 =
      Some (Inr \<lparr>amount_a = 1, amount_b = 3, token_max_a = 2, token_max_b = 4, estimated_value_usd = four, quote_liquidity = 3\<rparr>)"
    using m by (simp add: settle_quote_def ev b3 bump_raw_cap_def saturating_add_w_def pow2_def)
  with br b1 mt show ?thesis unfolding search_quote_def Let_def by (simp add: assms(2,6) try_then_def) (simp add: ev try_then_def)
qed

lemma demo_quote:
  "quote_deposit_budget_in_range word_ops two_ticks 0 2 1 (2 ^ 64) 1 1 (f64_lit 1) (f64_lit 1) (f64_lit 4)
     = Some (Inr \<lparr>amount_a = 1, amount_b = 3, token_max_a = 2, token_max_b = 4, estimated_value_usd = f64_lit 4, quote_liquidity = 3\<rparr>)"
proof -
  have lit: "f64_lit 0 = F64_Fin False 0" "f64_lit 1 = F64_Fin False 1" "f64_lit 4 = F64_Fin False 4"
    using f64_small_lit(2) [of 0] f64_small_lit(2) [of 1] f64_small_lit(2) [of 4] by simp_all
  have "search_quote (\<lambda>l. token_amounts_in_range word_ops two_ticks l (2 ^ 64) 0 2) (raw_pair_usd two_ticks 1 1 (f64_lit 1) (f64_lit 1)) (f64_lit 4)
    = Some (Inr \<lparr>amount_a = 1, amount_b = 3, token_max_a = 2, token_max_b = 4, estimated_value_usd = f64_lit 4, quote_liquidity = 3\<rparr>)"
    unfolding lit(3) by (rule demo_search) (simp_all only: two_ticks_amounts, simp_all add: two_ticks_worth del: One_nat_def)
  then show ?thesis unfolding quote_deposit_budget_in_range_def lit by (simp add: signed_val_def del: One_nat_def power_numeral)
qed

theorem deposit_quote_optimal_witness:
  "\<exists>q. quote_deposit_budget_in_range word_ops two_ticks 0 2 1 (2 ^ 64) 1 1 (f64_lit 1) (f64_lit 1) (f64_lit 4) = Some (Inr q)
     \<and> token_amounts_in_range word_ops two_ticks (quote_liquidity q) (2 ^ 64) 0 2 = Some (amount_a q, amount_b q)
     \<and> 0 < amount_a q \<and> 0 < amount_b q \<and> quote_liquidity q = 3"
proof -
  have wf: "wf_f64 (f64_lit n)" for n by (simp add: f64_lit_def wf_f64_of_rat)
  have "f64_positive (f64_powi two_ticks (f64_lit 10) (int 1))"
    using f64_small_lit(2) [of 1] by (simp add: two_ticks_def f64_of_int_def f64_lit_def f64_positive_def)
  from deposit_quote_optimal [OF word_ops_laws wf wf wf this this, THEN conjunct2, rule_format, OF demo_quote]
  show ?thesis using demo_quote by simp
qed

end
