(* ===== verification/Reopen_Plan.thy ===== *)
theory Reopen_Plan
  imports Deposit_Quote Price_Bands Pending_Open
begin

text \<open>
  Planning of the range and the size of a reopened position, from
  \<^verbatim>\<open>crates/execution/src/strategy/rebalance.rs\<close>: the settings read from the environment, synthetic
  dollar prices, the dollar budgets before and after a close, the widening and recentring of a tick
  range, and the plan of a recovery. Ticks are \<^verbatim>\<open>i32\<close> with the saturation and wrap-around of the
  source; its division truncates towards zero.
\<close>

section \<open>Settings\<close>

definition env_on_by_default :: "(string \<rightharpoonup> string) \<Rightarrow> string \<Rightarrow> bool" where
  "env_on_by_default vars name = (case vars name of Some v \<Rightarrow> env_truthy v | None \<Rightarrow> True)"

definition no_close_unless_reopen_feasible :: "(string \<rightharpoonup> string) \<Rightarrow> bool" where
  "no_close_unless_reopen_feasible vars = env_on_by_default vars ''CLMM_NO_CLOSE_UNLESS_REOPEN_FEASIBLE''"

definition reopen_auto_widen_enabled :: "(string \<rightharpoonup> string) \<Rightarrow> bool" where
  "reopen_auto_widen_enabled vars = env_on_by_default vars ''CLMM_REOPEN_AUTO_WIDEN_TICKS''"

definition reopen_auto_widen_max_steps :: "(string \<rightharpoonup> string) \<Rightarrow> u32" where
  "reopen_auto_widen_max_steps vars =
     (case env_u32_in vars ''CLMM_REOPEN_AUTO_WIDEN_MAX_STEPS'' 0 10 of Some n \<Rightarrow> n | None \<Rightarrow> 4)"

definition reopen_wallet_refresh_attempts :: "(string \<rightharpoonup> string) \<Rightarrow> u32" where
  "reopen_wallet_refresh_attempts vars =
     (case env_u32_in vars ''CLMM_REOPEN_WALLET_REFRESH_ATTEMPTS'' 1 20 of Some n \<Rightarrow> n | None \<Rightarrow> 3)"

definition reopen_wallet_notional_epsilon :: "(string \<rightharpoonup> string) \<Rightarrow> (string \<Rightarrow> f64 option) \<Rightarrow> f64" where
  "reopen_wallet_notional_epsilon vars parse_f64 =
     (case Option.bind (vars ''CLMM_REOPEN_WALLET_NOTIONAL_EPSILON'') parse_f64 of
        Some e \<Rightarrow> if f64_le (f64_lit 0) e \<and> f64_lt e (f64_lit (1 / 2)) then e else f64_lit (5 / 1000)
      | None \<Rightarrow> f64_lit (5 / 1000))"

definition recover_plan_ttl_secs :: "(string \<rightharpoonup> string) \<Rightarrow> int" where
  "recover_plan_ttl_secs vars =
     (case Option.bind (vars ''CLMM_RECOVER_PLAN_TTL_SECS'') (parse_signed (- (2 ^ 63)) (2 ^ 63 - 1)) of
        Some v \<Rightarrow> if 30 \<le> v \<and> v \<le> 3600 then v else 180
      | None \<Rightarrow> 180)"

definition recover_plan_drift_threshold_pct ::
    "('d, 'a) decimal_arith_scheme \<Rightarrow> 'd decimal_conv \<Rightarrow> (string \<rightharpoonup> string) \<Rightarrow> (string \<Rightarrow> f64 option) \<Rightarrow> 'd option" where
  "recover_plan_drift_threshold_pct ops dc vars parse_f64 =
     (case Option.bind (Option.bind (vars ''CLMM_RECOVER_PLAN_MAX_DRIFT_PCT'') parse_f64) (dc_from_f64_retain dc) of
        Some v \<Rightarrow> if dec_gt ops v (dec_zero ops) \<and> dec_ge ops (dec_new ops 100 0) v
                  then dec_div ops v (dec_new ops 100 0) else Some (dec_new ops 1 2)
      | None \<Rightarrow> Some (dec_new ops 1 2))"

datatype rebalance_profitability_mode = ProfitOff | ProfitWarn | ProfitBlock

definition rebalance_profitability_mode_from_env :: "(string \<rightharpoonup> string) \<Rightarrow> rebalance_profitability_mode" where
  "rebalance_profitability_mode_from_env vars =
     (case map_option to_ascii_lowercase (vars ''CLMM_REBALANCE_PROFITABILITY'') of
        Some v \<Rightarrow> if v = ''warn'' then ProfitWarn else if v = ''block'' then ProfitBlock else ProfitOff
      | None \<Rightarrow> ProfitOff)"

definition rebalance_est_tx_cost_lamports :: "(string \<rightharpoonup> string) \<Rightarrow> u64" where
  "rebalance_est_tx_cost_lamports vars =
     (case Option.bind (vars ''CLMM_REBALANCE_EST_TX_COST_LAMPORTS'') (parse_unsigned (2 ^ 64 - 1)) of
        Some n \<Rightarrow> if 0 < n then of_nat n else 500000
      | None \<Rightarrow> 500000)"

section \<open>Prices\<close>

definition is_stable :: "string \<Rightarrow> bool" where
  "is_stable m \<longleftrightarrow> m \<in> {''EPjFWdd5AufqSSqeM2qN1xzybapC8G4wEGGkZwyTDt1v'',
     ''Es9vMFrzaCERmJfrF4H2FYD4KCoNkY11McCe8BenwNYB'', ''BRjpCHtyQLNCo8gqRUr8jtdAj5AjPYQaoqbvcZiHok1k''}"

text \<open>\<open>powi10\<close> is \<^verbatim>\<open>Decimal::from(10).powi\<close>.\<close>

definition synthetic_prices_for_deposit_quote ::
    "('d, 'a) decimal_arith_scheme \<Rightarrow> 'd decimal_conv \<Rightarrow> (int \<Rightarrow> 'd option) \<Rightarrow> 'd \<Rightarrow> string \<Rightarrow> string \<Rightarrow> nat \<Rightarrow> nat
      \<Rightarrow> (f64 \<times> f64 \<times> string) option" where
  "synthetic_prices_for_deposit_quote ops dc powi10 pool_price mint_a mint_b dec_a dec_b = do {
     scale \<leftarrow> powi10 (int dec_a - int dec_b);
     b_per_a_ui \<leftarrow> dec_mul ops pool_price scale;
     (let least = f64_lit (1 / 10 ^ 18);
          b_per_a = f64_max (case dc_to_f64 dc b_per_a_ui of Some x \<Rightarrow> x | None \<Rightarrow> f64_lit 1) least
      in Some (if is_stable mint_b
               then (if f64_lt b_per_a (f64_lit (2 / 10))
                     then (f64_max (f64_div (f64_lit 1) b_per_a) least, f64_lit 1, ''stable_b_inverted'')
                     else (b_per_a, f64_lit 1, ''stable_b''))
               else if is_stable mint_a
               then (let usd_per_b = f64_max (f64_div (f64_lit 1) b_per_a) least
                     in if f64_lt usd_per_b (f64_lit (2 / 10)) then (f64_lit 1, f64_max b_per_a least, ''stable_a_inverted'')
                        else (f64_lit 1, usd_per_b, ''stable_a''))
               else (f64_lit 1, b_per_a, ''relative''))) }"

section \<open>Budgets\<close>

definition prev_end_value_usd_from_close_amounts :: "float_fns \<Rightarrow> u64 \<Rightarrow> u64 \<Rightarrow> nat \<Rightarrow> nat \<Rightarrow> f64 \<Rightarrow> f64 \<Rightarrow> f64" where
  "prev_end_value_usd_from_close_amounts fl a_raw b_raw decimals_a decimals_b price_a_usd price_b_usd =
     f64_add (f64_mul (ui_from_raw fl a_raw decimals_a) price_a_usd) (f64_mul (ui_from_raw fl b_raw decimals_b) price_b_usd)"

definition less_dust :: "f64 \<Rightarrow> f64" where
  "less_dust x = f64_max (f64_mul x (f64_lit (995 / 1000))) (f64_lit 0)"

definition known_value :: "f64 \<Rightarrow> bool" where
  "known_value v \<longleftrightarrow> f64_is_finite v \<and> f64_lt (f64_lit 0) v"

definition target_usd_from_prev_end_clamped :: "f64 \<Rightarrow> f64 \<Rightarrow> f64" where
  "target_usd_from_prev_end_clamped prev_end_value_usd wallet_notional_usd =
     (let wallet_cap = less_dust wallet_notional_usd
      in if \<not> known_value prev_end_value_usd then wallet_cap else f64_min prev_end_value_usd wallet_cap)"

definition target_usd_for_reopen_sizing :: "f64 \<Rightarrow> f64" where
  "target_usd_for_reopen_sizing prev_end_value_usd =
     (if \<not> known_value prev_end_value_usd then f64_lit 0 else less_dust prev_end_value_usd)"

definition target_usd_for_swap_mix_and_open :: "f64 \<Rightarrow> f64 \<Rightarrow> f64" where
  "target_usd_for_swap_mix_and_open prev_end_value_usd wallet_notional_usd =
     (if known_value prev_end_value_usd then target_usd_for_reopen_sizing prev_end_value_usd
      else target_usd_from_prev_end_clamped (f64_lit 0) wallet_notional_usd)"

definition target_usd_for_close_reopen_preflight :: "f64 \<Rightarrow> f64 \<Rightarrow> f64" where
  "target_usd_for_close_reopen_preflight prev_end_value_usd wallet_notional_before_close =
     (let wallet_cap = less_dust wallet_notional_before_close
      in if \<not> known_value prev_end_value_usd then wallet_cap
         else f64_min prev_end_value_usd (less_dust (f64_add wallet_notional_before_close prev_end_value_usd)))"

definition balances_cover_deposit_quote :: "u64 \<Rightarrow> u64 \<Rightarrow> deposit_budget_quote \<Rightarrow> bool" where
  "balances_cover_deposit_quote wa wb q \<longleftrightarrow>
     saturating_sub_w (amount_a q) (max (amount_a q div 100) 1) \<le> wa
   \<and> saturating_sub_w (amount_b q) (max (amount_b q div 100) 1) \<le> wb"

text \<open>The wallet as a swap sees it: spendable SOL counts on the leg that is wrapped SOL.\<close>

record swap_mix_wallet_inputs =
  wi_mint_a :: string
  wi_mint_b :: string
  wi_balance_a_raw :: u64
  wi_balance_b_raw :: u64
  wi_decimals_a :: nat
  wi_decimals_b :: nat
  wi_spendable_lamports :: u64

definition swap_mix_wallet_ui_sol_first :: "float_fns \<Rightarrow> swap_mix_wallet_inputs \<Rightarrow> f64 \<times> f64" where
  "swap_mix_wallet_ui_sol_first fl i =
     (let a_ui = ui_from_raw fl (wi_balance_a_raw i) (wi_decimals_a i);
          b_ui = ui_from_raw fl (wi_balance_b_raw i) (wi_decimals_b i);
          spendable_ui = f64_div (f64_of_nat (unat (wi_spendable_lamports i))) (f64_lit (10 ^ 9))
      in (if wi_mint_a i = WSOL_MINT then f64_max a_ui spendable_ui else a_ui,
          if wi_mint_b i = WSOL_MINT then f64_max b_ui spendable_ui else b_ui))"

definition open_wallet_notional_and_caps_sol_first ::
    "float_fns \<Rightarrow> swap_mix_wallet_inputs \<Rightarrow> f64 \<Rightarrow> f64 \<Rightarrow> f64 \<times> u64 \<times> u64" where
  "open_wallet_notional_and_caps_sol_first fl i price_a_usd price_b_usd =
     (let (a_ui, b_ui) = swap_mix_wallet_ui_sol_first fl i
      in (f64_add (f64_mul a_ui price_a_usd) (f64_mul b_ui price_b_usd),
          if wi_mint_a i = WSOL_MINT then max (wi_balance_a_raw i) (wi_spendable_lamports i) else wi_balance_a_raw i,
          if wi_mint_b i = WSOL_MINT then max (wi_balance_b_raw i) (wi_spendable_lamports i) else wi_balance_b_raw i))"

section \<open>Ticks\<close>

definition towards_zero :: "int \<Rightarrow> int \<Rightarrow> int" where
  "towards_zero spacing x = (case rust_div x spacing of Some q \<Rightarrow> wrap_i32 (q * spacing) | None \<Rightarrow> x)"

definition tick_width :: "int \<Rightarrow> int \<Rightarrow> int \<Rightarrow> int" where
  "tick_width spacing lo hi = max (wrap_i32 \<bar>wrap_i32 (hi - lo)\<bar>) (max spacing 1)"

definition widen_ticks_around_current :: "int \<Rightarrow> u16 \<Rightarrow> int \<Rightarrow> int \<Rightarrow> nat \<Rightarrow> int \<times> int" where
  "widen_ticks_around_current tick spacing_w tick_lower tick_upper step =
     (let spacing = uint spacing_w;
          width = tick_width spacing tick_lower tick_upper;
          factor = 2 ^ min step 10;
          new_width = max (saturate_i32 (width * factor)) (max spacing 1);
          half = new_width div 2;
          lo = saturate_i32 (tick - half);
          hi = saturate_i32 (tick + half);
          (lo, hi) = (if 0 < spacing then (towards_zero spacing lo, towards_zero spacing hi) else (lo, hi))
      in (lo, if hi \<le> lo then saturate_i32 (lo + max spacing 1) else hi))"

definition adapt_recover_open_ticks_if_needed ::
    "(string \<rightharpoonup> string) \<Rightarrow> int \<Rightarrow> u16 \<Rightarrow> int \<Rightarrow> int \<Rightarrow> (int \<times> int) \<times> bool" where
  "adapt_recover_open_ticks_if_needed vars tick spacing tick_lower tick_upper =
     (if tick_lower \<le> tick \<and> tick < tick_upper then ((tick_lower, tick_upper), False)
      else if \<not> reopen_auto_widen_enabled vars then ((tick_lower, tick_upper), False)
      else (case find (\<lambda>(lo, hi). lo \<le> tick \<and> tick < hi)
                   (map (widen_ticks_around_current tick spacing tick_lower tick_upper) [1 ..< unat (reopen_auto_widen_max_steps vars) + 1]) of
              Some band \<Rightarrow> (band, True)
            | None \<Rightarrow> ((tick_lower, tick_upper), False)))"

definition recenter_ticks_keep_width :: "int \<Rightarrow> u16 \<Rightarrow> int \<Rightarrow> int \<Rightarrow> int \<times> int" where
  "recenter_ticks_keep_width tick spacing_w tick_lower tick_upper =
     (let spacing = max (uint spacing_w) 1;
          width = tick_width spacing tick_lower tick_upper;
          lo = saturate_i32 (tick - width div 2);
          hi = saturate_i32 (lo + width);
          lo = towards_zero spacing lo;
          hi = towards_zero spacing hi
      in (lo, if hi \<le> lo then saturate_i32 (lo + spacing) else hi))"

section \<open>The plan of a recovery\<close>

definition plan_is_stale :: "(string \<Rightarrow> datetime option) \<Rightarrow> (string \<rightharpoonup> string) \<Rightarrow> datetime \<Rightarrow> string option \<Rightarrow> bool" where
  "plan_is_stale parse_time vars now planned_at =
     (case Option.bind planned_at parse_time of
        Some ts \<Rightarrow> recover_plan_ttl_secs vars < num_seconds now ts | None \<Rightarrow> False)"

definition plan_has_drifted ::
    "('d, 'a) decimal_arith_scheme \<Rightarrow> 'd \<Rightarrow> 'd \<Rightarrow> 'd option \<Rightarrow> bool option" where
  "plan_has_drifted ops threshold price planned_price =
     (case planned_price of None \<Rightarrow> Some False
      | Some pp \<Rightarrow>
          if dec_ge ops (dec_zero ops) pp \<or> dec_ge ops (dec_zero ops) price then Some False
          else do {
            d \<leftarrow> dec_sub ops price pp;
            drift \<leftarrow> dec_div ops (dec_abs ops d) pp;
            Some (dec_gt ops drift threshold) })"

definition replan_reason :: "bool \<Rightarrow> bool \<Rightarrow> string" where
  "replan_reason stale drifted =
     (if stale \<and> drifted then ''recover_plan_stale_and_price_drift_replanned''
      else if stale then ''recover_plan_stale_replanned'' else ''recover_plan_price_drift_replanned'')"

text \<open>The range to open: a retouch that is stale or whose price drifted is recentred, and a range that
  misses the current tick is widened. The second component is the reason of a recentring, the third
  the reason that is recorded.\<close>

definition recovery_plan ::
    "('d, 'a) decimal_arith_scheme \<Rightarrow> 'd decimal_conv \<Rightarrow> (string \<Rightarrow> f64 option) \<Rightarrow> (string \<Rightarrow> datetime option) \<Rightarrow> (string \<rightharpoonup> string)
      \<Rightarrow> datetime \<Rightarrow> 'd whirlpool_state \<Rightarrow> 'd recover_open_params \<Rightarrow> ((int \<times> int) \<times> string option \<times> string option) option" where
  "recovery_plan ops dc parse_f64 parse_time vars now pl p = do {
     replan \<leftarrow> (if rp_reason p = RrRetouchShift
       then do {
         threshold \<leftarrow> recover_plan_drift_threshold_pct ops dc vars parse_f64;
         drifted \<leftarrow> plan_has_drifted ops threshold (ws_price pl) (rp_planned_price_ab p);
         (let stale = plan_is_stale parse_time vars now (rp_planned_at_utc p)
          in Some (if stale \<or> drifted then Some (replan_reason stale drifted) else None)) }
       else Some None);
     (let planned = (if replan = None then (rp_new_tick_lower p, rp_new_tick_upper p)
                     else recenter_ticks_keep_width (ws_tick_current pl) (ws_tick_spacing pl) (rp_new_tick_lower p) (rp_new_tick_upper p));
          adaptation = adapt_recover_open_ticks_if_needed vars (ws_tick_current pl) (ws_tick_spacing pl) (fst planned) (snd planned)
      in Some (fst adaptation, replan,
            if snd adaptation \<and> replan = None then Some ''recover_open_adapted_to_include_current_tick'' else replan)) }"

section \<open>The range contains the current tick\<close>

lemma towards_zero_bounds:
  assumes "0 < sp" and "is_i32 x"
  shows "x - sp < towards_zero sp x" "towards_zero sp x < x + sp" "sp dvd towards_zero sp x"
proof -
  define q where "q = \<bar>x\<bar> div sp"
  have q: "q * sp \<le> \<bar>x\<bar>" "\<bar>x\<bar> < q * sp + sp" "0 \<le> q * sp"
    using assms(1) div_mult_mod_eq [of "\<bar>x\<bar>" sp] pos_mod_bound [OF assms(1), of "\<bar>x\<bar>"] pos_mod_sign [OF assms(1), of "\<bar>x\<bar>"]
    unfolding q_def by (simp_all add: pos_imp_zdiv_nonneg_iff, linarith+)
  have d: "rust_div x sp = Some (sgn x * q)" using assms(1) by (simp add: rust_div_def q_def)
  have "is_i32 (sgn x * q * sp)" using assms(2) q by (cases "0 \<le> x") (auto simp: is_i32_def sgn_if)
  then have t: "towards_zero sp x = sgn x * q * sp" by (simp add: towards_zero_def d)
  show "x - sp < towards_zero sp x" "towards_zero sp x < x + sp" "sp dvd towards_zero sp x"
    using q assms(1) unfolding t by (auto simp: sgn_if)
qed

lemma tick_width_eq:
  assumes "\<bar>hi - lo\<bar> < 2 ^ 31"
  shows "tick_width sp lo hi = max \<bar>hi - lo\<bar> (max sp 1)"
proof -
  have "is_i32 (hi - lo)" "is_i32 \<bar>hi - lo\<bar>" using assms by (auto simp: is_i32_def)
  then show ?thesis by (simp add: tick_width_def)
qed

text \<open>The ticks of a Whirlpool lie between the tick bounds of the program.\<close>

definition valid_tick :: "int \<Rightarrow> bool" where
  "valid_tick t \<longleftrightarrow> - 443636 \<le> t \<and> t \<le> 443636"

lemma widen_contains:
  assumes "valid_tick tick" and "\<bar>upper - lower\<bar> \<le> 2 ^ 20" and "0 < spacing" and "1 \<le> step"
    and w: "widen_ticks_around_current tick spacing lower upper step = (lo, hi)"
  shows "lo \<le> tick \<and> tick < hi \<and> uint spacing dvd lo \<and> uint spacing dvd hi"
proof -
  define sp where "sp = uint spacing"
  have sp: "0 < sp" "sp < 2 ^ 16" using assms(3) unsigned_less [of spacing, where 'a = int] by (simp_all add: sp_def word_less_def)
  define width where "width = tick_width sp lower upper"
  have wd: "sp \<le> width" "width \<le> 2 ^ 20" using assms(2) sp by (auto simp: width_def tick_width_eq)
  define k where "k = min step 10 - 1"
  have f: "(2 :: int) ^ min step 10 = 2 * 2 ^ k" using assms(4) by (simp add: k_def flip: power_Suc)
  have k: "(1 :: int) \<le> 2 ^ k" "(2 :: int) ^ k \<le> 512" using power_increasing [of k 9 "2 :: int"] by (simp_all add: k_def)
  define h where "h = width * 2 ^ k"
  have half: "width \<le> h" "h \<le> 2 ^ 20 * 512"
    using wd sp k mult_mono [of width "2 ^ 20" "2 ^ k" "512 :: int"] by (simp_all add: h_def)
  have "width * 2 ^ min step 10 = 2 * h" by (simp add: f h_def)
  then have new: "max (saturate_i32 (width * 2 ^ min step 10)) (max sp 1) div 2 = h" using half wd sp by (simp add: saturate_i32_def)
  have i: "is_i32 (tick - h)" "is_i32 (tick + h)" "saturate_i32 (tick - h) = tick - h" "saturate_i32 (tick + h) = tick + h"
    using half wd sp assms(1) by (auto simp: is_i32_def valid_tick_def saturate_i32_def)
  note lo = towards_zero_bounds [OF sp(1) i(1)] and hi = towards_zero_bounds [OF sp(1) i(2)]
  have lt: "towards_zero sp (tick - h) < tick" "tick < towards_zero sp (tick + h)" using lo hi half(1) wd(1) by simp_all
  from w have "(lo, hi) = (towards_zero sp (tick - h), towards_zero sp (tick + h))"
    using lt sp new i unfolding widen_ticks_around_current_def Let_def sp_def [symmetric] width_def [symmetric] by simp
  with lt lo(3) hi(3) show ?thesis by (simp add: sp_def)
qed

lemma adapt_contains:
  assumes "valid_tick tick" and "\<bar>upper - lower\<bar> \<le> 2 ^ 20" and "0 < spacing"
    and "reopen_auto_widen_enabled vars" and "0 < reopen_auto_widen_max_steps vars"
    and "adapt_recover_open_ticks_if_needed vars tick spacing lower upper = ((lo, hi), adapted)"
  shows "lo \<le> tick \<and> tick < hi \<and> (if adapted then uint spacing dvd lo \<and> uint spacing dvd hi else lo = lower \<and> hi = upper)"
proof (cases "lower \<le> tick \<and> tick < upper")
  case True
  with assms(6) show ?thesis by (auto simp: adapt_recover_open_ticks_if_needed_def)
next
  case False
  obtain lo1 hi1 where w: "widen_ticks_around_current tick spacing lower upper 1 = (lo1, hi1)" by fastforce
  note c = widen_contains [OF assms(1-3) order_refl w]
  have "[1 ..< unat (reopen_auto_widen_max_steps vars) + 1] = 1 # [2 ..< unat (reopen_auto_widen_max_steps vars) + 1]"
    using assms(5) by (simp add: upt_conv_Cons word_less_nat_alt numeral_2_eq_2)
  then have "((lo, hi), adapted) = ((lo1, hi1), True)"
    using assms(4,6) False w c by (simp add: adapt_recover_open_ticks_if_needed_def)
  with c show ?thesis by simp
qed

lemma recenter_width:
  assumes "valid_tick tick" "valid_tick lower" "valid_tick upper" "recenter_ticks_keep_width tick spacing lower upper = (lo, hi)"
  shows "\<bar>hi - lo\<bar> \<le> 2 ^ 20"
proof -
  define sp where "sp = max (uint spacing) 1"
  have sp: "0 < sp" "sp < 2 ^ 16" using unsigned_less [of spacing, where 'a = int] by (simp_all add: sp_def)
  define width where "width = tick_width sp lower upper"
  have wd: "sp \<le> width" "width \<le> 887272"
    using assms(2,3) sp by (auto simp: width_def tick_width_eq valid_tick_def)
  define l where "l = tick - width div 2"
  have i: "is_i32 l" "is_i32 (l + width)" "saturate_i32 l = l" "saturate_i32 (l + width) = l + width"
    using assms(1) wd sp by (auto simp: l_def is_i32_def saturate_i32_def valid_tick_def)
  note b = towards_zero_bounds [OF sp(1) i(1)] towards_zero_bounds [OF sp(1) i(2)]
  have st: "saturate_i32 (towards_zero sp l + sp) = towards_zero sp l + sp"
    using b assms(1) wd sp by (auto simp: l_def saturate_i32_def valid_tick_def)
  have "(lo, hi) = (towards_zero sp l, if towards_zero sp (l + width) \<le> towards_zero sp l then towards_zero sp l + sp else towards_zero sp (l + width))"
    using assms(4) unfolding recenter_ticks_keep_width_def Let_def sp_def [symmetric] width_def [symmetric] l_def [symmetric] i(3,4) st by auto
  with b wd sp show ?thesis by (auto split: if_splits)
qed

text \<open>C5. The range of a recovery. With widening enabled (the default, with at least one step) a recovery opens a
  range that contains the current tick of the pool, so that the deposit quote accepts it: a plan that
  contains the tick and was not replanned is kept as it was and no reason is recorded; a plan that was
  replanned or missed the tick is recorded with a reason. This holds although recentring alone may miss the
  current tick. The ticks are those a Whirlpool can have.\<close>

theorem recovery_range_contains_tick:
  assumes "valid_tick (ws_tick_current pl)" "valid_tick (rp_new_tick_lower p)" "valid_tick (rp_new_tick_upper p)"
    and "0 < ws_tick_spacing pl" and "reopen_auto_widen_enabled vars" and "0 < reopen_auto_widen_max_steps vars"
    and "recovery_plan ops dc parse_f64 parse_time vars now pl p = Some ((lo, hi), replan, reason)"
  shows "lo \<le> ws_tick_current pl \<and> ws_tick_current pl < hi
    \<and> (reason = None \<longleftrightarrow> replan = None \<and> rp_new_tick_lower p \<le> ws_tick_current pl \<and> ws_tick_current pl < rp_new_tick_upper p)
    \<and> (reason = None \<longrightarrow> lo = rp_new_tick_lower p \<and> hi = rp_new_tick_upper p)"
proof -
  define planned where "planned = (if replan = None then (rp_new_tick_lower p, rp_new_tick_upper p)
      else recenter_ticks_keep_width (ws_tick_current pl) (ws_tick_spacing pl) (rp_new_tick_lower p) (rp_new_tick_upper p))"
  define adaptation where "adaptation = adapt_recover_open_ticks_if_needed vars (ws_tick_current pl) (ws_tick_spacing pl) (fst planned) (snd planned)"
  have o: "(lo, hi) = fst adaptation" "reason = (if snd adaptation \<and> replan = None then Some ''recover_open_adapted_to_include_current_tick'' else replan)"
    using assms(7) unfolding recovery_plan_def Let_def by (auto simp: bind_eq_Some_conv planned_def adaptation_def)
  obtain l0 h0 where lh: "planned = (l0, h0)" by fastforce
  obtain adapted where ad: "adaptation = ((lo, hi), adapted)" using o(1) by (metis prod.collapse)
  have "\<bar>h0 - l0\<bar> \<le> 2 ^ 20"
    using lh assms(2,3) recenter_width [OF assms(1-3), of "ws_tick_spacing pl" l0 h0] by (auto simp: valid_tick_def planned_def split: if_splits)
  from adapt_contains [OF assms(1) this assms(4-6), of lo hi adapted] lh o(2) ad show ?thesis
    by (auto simp: adaptation_def planned_def adapt_recover_open_ticks_if_needed_def split: if_splits)
qed

text \<open>Recentring truncates both ends towards zero, and so may miss the current tick.\<close>

lemma recenter_misses_tick:
  "recenter_ticks_keep_width 90 64 0 64 = (0, 64)" "recenter_ticks_keep_width (- 130) 64 0 64 = (- 128, - 64)"
  by code_simp+

theorem recovery_range_contains_tick_witness:
  "\<exists>lo hi replan reason. recovery_plan rat_ops rat_conv (\<lambda>_. None) (\<lambda>_. Some 0) (\<lambda>_. None) 1000
      \<lparr>ws_address = [], ws_token_mint_a = [], ws_token_mint_b = [], ws_token_vault_a = [], ws_token_vault_b = [], ws_tick_current = 90,
       ws_tick_spacing = 64, ws_sqrt_price = 2 ^ 64, ws_price = 1, ws_liquidity = 0, ws_fee_rate_bps = 0, ws_protocol_fee_rate_bps = 0,
       ws_protocol_fee_owed_a = 0, ws_protocol_fee_owed_b = 0, ws_fee_growth_global_a = 0, ws_fee_growth_global_b = 0\<rparr>
      \<lparr>rp_pool = [], rp_new_tick_lower = 0, rp_new_tick_upper = 64, rp_planned_at_utc = Some [], rp_planned_price_ab = None,
       rp_reason = RrRetouchShift, rp_closed_position_nft = [], rp_session_id = None, rp_optimization_run_id = None\<rparr>
    = Some ((lo, hi), replan, reason) \<and> lo \<le> 90 \<and> 90 < hi \<and> reason \<noteq> None"
proof -
  let ?pl = "\<lparr>ws_address = [], ws_token_mint_a = [], ws_token_mint_b = [], ws_token_vault_a = [], ws_token_vault_b = [], ws_tick_current = 90,
       ws_tick_spacing = 64, ws_sqrt_price = 2 ^ 64, ws_price = 1 :: rat, ws_liquidity = 0, ws_fee_rate_bps = 0, ws_protocol_fee_rate_bps = 0,
       ws_protocol_fee_owed_a = 0, ws_protocol_fee_owed_b = 0, ws_fee_growth_global_a = 0, ws_fee_growth_global_b = 0\<rparr>"
  let ?p = "\<lparr>rp_pool = [], rp_new_tick_lower = 0, rp_new_tick_upper = 64, rp_planned_at_utc = Some [], rp_planned_price_ab = None :: rat option,
       rp_reason = RrRetouchShift, rp_closed_position_nft = [], rp_session_id = None, rp_optimization_run_id = None\<rparr>"
  have "recovery_plan rat_ops rat_conv (\<lambda>_. None) (\<lambda>_. Some 0) (\<lambda>_. None) 1000 ?pl ?p \<noteq> None"
    by (simp add: recovery_plan_def recover_plan_drift_threshold_pct_def plan_has_drifted_def Let_def split: prod.split)
  then obtain lo hi replan reason
    where r: "recovery_plan rat_ops rat_conv (\<lambda>_. None) (\<lambda>_. Some 0) (\<lambda>_. None) 1000 ?pl ?p = Some ((lo, hi), replan, reason)" by auto
  have w: "reopen_auto_widen_enabled (\<lambda>_. None)" "0 < reopen_auto_widen_max_steps (\<lambda>_. None)"
    by (simp_all add: reopen_auto_widen_enabled_def env_on_by_default_def reopen_auto_widen_max_steps_def env_u32_in_def)
  from recovery_range_contains_tick [OF _ _ _ _ w r] have "lo \<le> 90 \<and> 90 < hi \<and> reason \<noteq> None" by (auto simp: valid_tick_def)
  with r show ?thesis by blast
qed

end
