(* ===== verification/Open_Guard.thy ===== *)
theory Open_Guard
  imports Session_Deltas
begin

text \<open>
  The guard of \<^verbatim>\<open>crates/execution/src/strategy/rebalance.rs\<close> against two openings in one rebalance
  session: two process-wide sets, of the sessions that are opening a position and of those that
  have opened one. The functions are modelled as they are called, and their critical sections as a step
  relation: each of the two sets has its own lock, which is released between the sections, so the
  sections of different tasks interleave.
\<close>

section \<open>The functions\<close>

record open_guard =
  og_inflight :: "string set"
  og_completed :: "string set"

definition try_reserve_open_session :: "string \<Rightarrow> open_guard \<Rightarrow> bool \<times> open_guard" where
  "try_reserve_open_session session_id g =
     (let sid = trim session_id in
      if sid = [] then (True, g)
      else if sid \<in> og_completed g then (False, g)
      else if sid \<in> og_inflight g then (False, g)
      else (True, g\<lparr>og_inflight := insert sid (og_inflight g)\<rparr>))"

definition release_open_session_reservation :: "string \<Rightarrow> bool \<Rightarrow> open_guard \<Rightarrow> open_guard" where
  "release_open_session_reservation session_id mark_completed g =
     (let sid = trim session_id in
      if sid = [] then g
      else (let g = g\<lparr>og_inflight := og_inflight g - {sid}\<rparr>
            in if mark_completed then g\<lparr>og_completed := insert sid (og_completed g)\<rparr> else g))"

text \<open>Openings one after the other, each with the outcome it has if the guard lets it through; the
  result lists the sessions that opened a position.\<close>

fun guarded_opens :: "(string \<times> bool) list \<Rightarrow> open_guard \<Rightarrow> string list \<times> open_guard" where
  "guarded_opens [] g = ([], g)"
| "guarded_opens ((sid, ok) # rest) g =
     (case try_reserve_open_session sid g of
        (False, g) \<Rightarrow> guarded_opens rest g
      | (True, g) \<Rightarrow>
          (let (opened, g) = guarded_opens rest (release_open_session_reservation sid ok g)
           in (if ok then trim sid # opened else opened, g)))"

section \<open>The critical sections\<close>

datatype guard_phase = GStart | GChecked | GOpening | GReleasing bool | GMarking | GDone bool

type_synonym guard_world = "open_guard \<times> (nat \<Rightarrow> guard_phase)"

text \<open>\<open>ses\<close> gives the trimmed session of each task. Looking up the completed sessions, reserving, the
  opening itself, giving the reservation back, and marking the session are separate steps. A task without a
  session takes none of them: it opens its position without a reservation, and the guard does not
  know of it.\<close>

inductive guard_step :: "(nat \<Rightarrow> string) \<Rightarrow> guard_world \<Rightarrow> guard_world \<Rightarrow> bool" for ses where
  check_done: "ph i = GStart \<Longrightarrow> ses i \<noteq> [] \<Longrightarrow> ses i \<in> og_completed g \<Longrightarrow> guard_step ses (g, ph) (g, ph(i := GDone False))"
| check_free: "ph i = GStart \<Longrightarrow> ses i \<noteq> [] \<Longrightarrow> ses i \<notin> og_completed g \<Longrightarrow> guard_step ses (g, ph) (g, ph(i := GChecked))"
| reserve_busy: "ph i = GChecked \<Longrightarrow> ses i \<in> og_inflight g \<Longrightarrow> guard_step ses (g, ph) (g, ph(i := GDone False))"
| reserve: "ph i = GChecked \<Longrightarrow> ses i \<notin> og_inflight g
    \<Longrightarrow> guard_step ses (g, ph) (g\<lparr>og_inflight := insert (ses i) (og_inflight g)\<rparr>, ph(i := GOpening))"
| open_ends: "ph i = GOpening \<Longrightarrow> guard_step ses (g, ph) (g, ph(i := GReleasing ok))"
| release: "ph i = GReleasing ok
    \<Longrightarrow> guard_step ses (g, ph) (g\<lparr>og_inflight := og_inflight g - {ses i}\<rparr>, ph(i := if ok then GMarking else GDone False))"
| mark: "ph i = GMarking
    \<Longrightarrow> guard_step ses (g, ph) (g\<lparr>og_completed := insert (ses i) (og_completed g)\<rparr>, ph(i := GDone True))"

inductive_cases guard_stepE: "guard_step ses (g, ph) w"

definition new_guard :: open_guard where
  "new_guard = \<lparr>og_inflight = {}, og_completed = {}\<rparr>"

abbreviation guard_reach :: "(nat \<Rightarrow> string) \<Rightarrow> guard_world \<Rightarrow> bool" where
  "guard_reach ses w \<equiv> (guard_step ses)\<^sup>*\<^sup>* (new_guard, \<lambda>_. GStart) w"

definition holding :: "guard_phase \<Rightarrow> bool" where
  "holding p \<longleftrightarrow> p = GOpening \<or> (\<exists>ok. p = GReleasing ok)"

definition has_opened :: "guard_phase \<Rightarrow> bool" where
  "has_opened p \<longleftrightarrow> p = GReleasing True \<or> p = GMarking \<or> p = GDone True"

lemma phase_simps [simp]:
  "\<not> holding GStart" "\<not> holding GChecked" "holding GOpening" "holding (GReleasing ok)" "\<not> holding GMarking" "\<not> holding (GDone ok)"
  "\<not> has_opened GStart" "\<not> has_opened GChecked" "\<not> has_opened GOpening" "has_opened (GReleasing ok) = ok" "has_opened GMarking"
  "has_opened (GDone ok) = ok"
  by (auto simp: holding_def has_opened_def)

text \<open>Uninterrupted, the sections of a task do what the functions do.\<close>

lemma reserve_sections:
  assumes "trim s = ses i" "ses i \<noteq> []" "ph i = GStart" "try_reserve_open_session s g = (b, g')"
  shows "(guard_step ses)\<^sup>*\<^sup>* (g, ph) (g', ph(i := if b then GOpening else GDone False))"
proof (cases "ses i \<in> og_completed g")
  case True
  with assms check_done [of ph i ses g] show ?thesis by (auto simp: try_reserve_open_session_def intro: r_into_rtranclp)
next
  case False
  have c: "guard_step ses (g, ph) (g, ph(i := GChecked))" using check_free [of ph i ses g] assms(2,3) False by simp
  show ?thesis
  proof (cases "ses i \<in> og_inflight g")
    case True
    have "guard_step ses (g, ph(i := GChecked)) (g, (ph(i := GChecked))(i := GDone False))" by (rule reserve_busy) (use True in auto)
    with c True False assms show ?thesis by (auto simp: try_reserve_open_session_def intro: rtranclp_trans r_into_rtranclp)
  next
    case free: False
    have "guard_step ses (g, ph(i := GChecked)) (g\<lparr>og_inflight := insert (ses i) (og_inflight g)\<rparr>, (ph(i := GChecked))(i := GOpening))"
      by (rule reserve) (use free in auto)
    with c free False assms show ?thesis by (auto simp: try_reserve_open_session_def intro: rtranclp_trans r_into_rtranclp)
  qed
qed

lemma release_sections:
  assumes "trim s = ses i" "ses i \<noteq> []" "ph i = GReleasing ok"
  shows "(guard_step ses)\<^sup>*\<^sup>* (g, ph) (release_open_session_reservation s ok g, ph(i := GDone ok))"
proof -
  have r: "guard_step ses (g, ph) (g\<lparr>og_inflight := og_inflight g - {ses i}\<rparr>, ph(i := if ok then GMarking else GDone False))"
    using assms(3) by (rule release)
  have "guard_step ses (g\<lparr>og_inflight := og_inflight g - {ses i}\<rparr>, ph(i := GMarking))
      ((g\<lparr>og_inflight := og_inflight g - {ses i}\<rparr>)\<lparr>og_completed := insert (ses i) (og_completed (g\<lparr>og_inflight := og_inflight g - {ses i}\<rparr>))\<rparr>,
       (ph(i := GMarking))(i := GDone True))" by (rule mark) simp
  with r assms show ?thesis
    by (cases ok) (auto simp: release_open_session_reservation_def Let_def intro: rtranclp_trans r_into_rtranclp)
qed

section \<open>What the guard guarantees\<close>

definition holders :: "(nat \<Rightarrow> guard_phase) \<Rightarrow> nat set" where
  "holders ph = {i. holding (ph i)}"

definition finished :: "(nat \<Rightarrow> guard_phase) \<Rightarrow> nat set" where
  "finished ph = {i. ph i = GDone True}"

lemma holders_upd: "holders (ph(i := p)) = (if holding p then insert i (holders ph) else holders ph - {i})"
  by (auto simp: holders_def)

lemma finished_upd: "finished (ph(i := p)) = (if p = GDone True then insert i (finished ph) else finished ph - {i})"
  by (auto simp: finished_def)

lemma not_member [simp]: "\<not> holding (ph i) \<Longrightarrow> i \<notin> holders ph" "ph i \<noteq> GDone True \<Longrightarrow> i \<notin> finished ph"
  by (auto simp: holders_def finished_def)

definition guard_inv :: "(nat \<Rightarrow> string) \<Rightarrow> guard_world \<Rightarrow> bool" where
  "guard_inv ses w \<longleftrightarrow> og_inflight (fst w) = ses ` holders (snd w) \<and> inj_on ses (holders (snd w))
     \<and> og_completed (fst w) = ses ` finished (snd w)"

lemma guard_inv_step:
  assumes "guard_step ses w w'" and "guard_inv ses w"
  shows "guard_inv ses w'"
  using assms
proof (induction rule: guard_step.induct)
  case (release ph i ok g)
  then have "i \<in> holders ph" by (simp add: holders_def)
  with release have "ses ` (holders ph - {i}) = ses ` holders ph - {ses i}"
    by (subst inj_on_image_set_diff [of ses "holders ph"]) (auto simp: guard_inv_def)
  with release show ?case by (auto simp: guard_inv_def holders_upd finished_upd inj_on_diff)
next
  case (open_ends ph i g ok)
  then have "insert i (holders ph) = holders ph" by (auto simp: holders_def)
  with open_ends show ?case by (simp add: guard_inv_def holders_upd finished_upd)
qed (simp_all add: guard_inv_def holders_upd finished_upd)

lemma guard_inv_reach: "guard_reach ses w \<Longrightarrow> guard_inv ses w"
proof (induction rule: rtranclp_induct)
  case base
  show ?case by (simp add: guard_inv_def new_guard_def holders_def finished_def)
qed (rule guard_inv_step)

lemma guarded_opens_completed:
  assumes "guarded_opens xs g = (opened, g')" and "og_inflight g = {}"
  shows "distinct (filter (\<lambda>s. s \<noteq> []) opened) \<and> (\<forall>s \<in> set opened. s = [] \<or> s \<notin> og_completed g)"
  using assms
proof (induction xs g arbitrary: opened g' rule: guarded_opens.induct)
  case (2 sid ok rest g)
  show ?case
  proof (cases "trim sid \<noteq> [] \<and> trim sid \<in> og_completed g")
    case True
    then have r: "try_reserve_open_session sid g = (False, g)" by (simp add: try_reserve_open_session_def)
    with "2.prems" "2.IH"(2) [OF r [symmetric]] show ?thesis by simp
  next
    case False
    obtain g1 where r: "try_reserve_open_session sid g = (True, g1)"
      using False "2.prems"(2) by (cases "trim sid = []") (simp_all add: try_reserve_open_session_def Let_def)
    let ?g = "release_open_session_reservation sid ok g1"
    have g: "og_inflight ?g = {}" "og_completed ?g = (if ok \<and> trim sid \<noteq> [] then insert (trim sid) (og_completed g) else og_completed g)"
      using r False "2.prems"(2) by (auto simp: try_reserve_open_session_def release_open_session_reservation_def Let_def)
    obtain rs g2 where rs: "guarded_opens rest ?g = (rs, g2)" by fastforce
    have o: "opened = (if ok then trim sid # rs else rs)" using "2.prems"(1) r rs by simp
    from "2.IH"(1) [OF r [symmetric] refl rs g(1)] g(2) o False show ?thesis by (auto split: if_splits)
  qed
qed simp

text \<open>C6. One opening per rebalance session. Called one after the other, the guarded openings of a process open at
  most one position for each session. At any interleaving of the critical sections, no two tasks of one session
  are between their reservation and its release at the same time, so their openings never overlap.\<close>

theorem open_guard_sound:
  assumes "guard_reach ses (g, ph)" and "holding (ph i)" and "holding (ph j)" and "ses i = ses j"
  shows "i = j \<and> distinct (filter (\<lambda>s. s \<noteq> []) (fst (guarded_opens xs new_guard)))"
proof
  from guard_inv_reach [OF assms(1)] have "inj_on ses (holders ph)" by (simp add: guard_inv_def)
  with assms(2-4) show "i = j" by (auto simp: holders_def inj_on_def)
  show "distinct (filter (\<lambda>s. s \<noteq> []) (fst (guarded_opens xs new_guard)))"
    using guarded_opens_completed [of xs new_guard "fst (guarded_opens xs new_guard)" "snd (guarded_opens xs new_guard)"]
    by (simp add: new_guard_def)
qed

text \<open>The two openings of a session may follow one another, though: a task that looked up the completed sessions
  before the first opening was marked reserves the session after the first one gave it back.\<close>

lemma two_opens_reachable:
  "\<exists>g ph. guard_reach (\<lambda>_. ''s'') (g, ph) \<and> has_opened (ph 0) \<and> has_opened (ph 1)"
proof -
  let ?ses = "\<lambda>_ :: nat. ''s''" and ?b = "\<lparr>og_inflight = {''s''}, og_completed = {}\<rparr>"
  define p0 p1 p2 p3 p4 p5 p6 p7 :: "nat \<Rightarrow> guard_phase"
    where p: "p0 = (\<lambda>_. GStart)" "p1 = p0(0 := GChecked)" "p2 = p1(1 := GChecked)" "p3 = p2(0 := GOpening)"
      "p4 = p3(0 := GReleasing True)" "p5 = p4(0 := GMarking)" "p6 = p5(1 := GOpening)" "p7 = p6(1 := GReleasing True)"
  have s: "guard_step ?ses (new_guard, p0) (new_guard, p1)" "guard_step ?ses (new_guard, p1) (new_guard, p2)"
    unfolding p(2,3) by (rule check_free; simp add: p new_guard_def)+
  have r: "guard_step ?ses (new_guard, p2) (?b, p3)"
    using reserve [of p2 0 ?ses new_guard] by (simp add: p new_guard_def)
  have o: "guard_step ?ses (?b, p3) (?b, p4)" unfolding p(5) by (rule open_ends) (simp add: p)
  have e: "guard_step ?ses (?b, p4) (new_guard, p5)" using release [of p4 0 True ?ses ?b] by (simp add: p new_guard_def)
  have r2: "guard_step ?ses (new_guard, p5) (?b, p6)" using reserve [of p5 1 ?ses new_guard] by (simp add: p new_guard_def)
  have o2: "guard_step ?ses (?b, p6) (?b, p7)" unfolding p(8) by (rule open_ends) (simp add: p)
  have "(guard_step ?ses)\<^sup>*\<^sup>* (new_guard, p0) (?b, p7)"
    using s r o e r2 o2 by (meson rtranclp.rtrancl_refl rtranclp.rtrancl_into_rtrancl)
  then have "guard_reach ?ses (?b, p7)" by (simp add: p(1))
  moreover have "has_opened (p7 0)" "has_opened (p7 1)" by (simp_all add: p)
  ultimately show ?thesis by blast
qed

theorem open_guard_sound_witness:
  "\<exists>g ph. guard_reach (\<lambda>_. ''s'') (g, ph) \<and> holding (ph 0)
     \<and> distinct (filter (\<lambda>s. s \<noteq> []) (fst (guarded_opens [(''s'', False), ('' s'', True), (''s'', True), (''t'', True)] new_guard)))
     \<and> fst (guarded_opens [(''s'', False), ('' s'', True), (''s'', True), (''t'', True)] new_guard) = [''s'', ''t'']"
proof -
  let ?ses = "\<lambda>_ :: nat. ''s''"
  have "(guard_step ?ses)\<^sup>*\<^sup>* (new_guard, \<lambda>_. GStart) (new_guard\<lparr>og_inflight := {''s''}\<rparr>, (\<lambda>_. GStart)(0 := if True then GOpening else GDone False))"
    by (rule reserve_sections [of "''s''"]) (simp_all add: try_reserve_open_session_def new_guard_def trim_def is_space_def)
  moreover from open_guard_sound [OF this, of 0 0 "[(''s'', False), ('' s'', True), (''s'', True), (''t'', True)]"]
  have "distinct (filter (\<lambda>s. s \<noteq> []) (fst (guarded_opens [(''s'', False), ('' s'', True), (''s'', True), (''t'', True)] new_guard)))" by simp
  moreover have "fst (guarded_opens [(''s'', False), ('' s'', True), (''s'', True), (''t'', True)] new_guard) = [''s'', ''t'']"
    by code_simp
  ultimately show ?thesis by (metis fun_upd_same phase_simps(3))
qed

end
