(* ===== verification/Rebalance_Flow.thy ===== *)
theory Rebalance_Flow
  imports Reopen_Plan Open_Guard Strategy_Executor Transaction_Manager
begin

text \<open>
  The live part of \<^verbatim>\<open>RebalanceExecutor\<close> in \<^verbatim>\<open>crates/execution/src/strategy/rebalance.rs\<close>: the check that a
  position can be reopened before it is closed, the opening of the new range with its guard, its
  wallet check and its retries, the whole rebalance, and the recovery of an opening. What reaches
  the chain (\<open>rx_close\<close>, \<open>rx_swap_mix\<close>, \<open>rx_open\<close>, \<open>rx_topup\<close>), the reads of the RPC provider, clocks and log rows
  are operations of an environment on a world \<open>'w\<close>. The five reads of decimals and balances, which the
  source makes in two different orders, are one operation. The ledger details of a row and the
  figures inside messages are built by the environment from the values it is given. A panic is \<open>None\<close>.
\<close>

section \<open>The environment\<close>

record chain_reads =
  cr_decimals_a :: "nat option"
  cr_decimals_b :: "nat option"
  cr_balance_a :: u64
  cr_balance_b :: u64
  cr_native :: "u64 option"

text \<open>What one attempt to open has computed.\<close>

record open_figures =
  of_cap_a :: u64
  of_cap_b :: u64
  of_quote :: "deposit_budget_quote option"
  of_target :: f64
  of_prev_end :: f64
  of_notional :: f64

record 'd rebalance_config =
  rc_max_slippage_bps :: u16
  rc_min_profit_multiplier :: 'd
  rc_collect_fees_first :: bool
  rc_priority_level :: priority_level
  rc_profitability_mode :: rebalance_profitability_mode
  rc_est_tx_cost_lamports :: u64

definition rebalance_config_from_env :: "('d, 'a) decimal_ops_scheme \<Rightarrow> (string \<rightharpoonup> string) \<Rightarrow> 'd rebalance_config" where
  "rebalance_config_from_env ops vars =
     \<lparr>rc_max_slippage_bps =
        (case Option.bind (map_option trim (vars ''CLMM_REBALANCE_MAX_SLIPPAGE_BPS'')) (parse_unsigned (2 ^ 16 - 1)) of
           Some v \<Rightarrow> if 1 \<le> v \<and> v \<le> 10000 then of_nat v else 50 | None \<Rightarrow> 50),
      rc_min_profit_multiplier = dec_new ops 2 0, rc_collect_fees_first = True, rc_priority_level = Medium,
      rc_profitability_mode = rebalance_profitability_mode_from_env vars,
      rc_est_tx_cost_lamports = rebalance_est_tx_cost_lamports vars\<rparr>"

record ('d, 'w) rebalance_env =
  rx_vars :: "string \<rightharpoonup> string"
  rx_parse_f64 :: "string \<Rightarrow> f64 option"
  rx_powi10 :: "int \<Rightarrow> 'd option"
  rx_show :: "pubkey \<Rightarrow> string"
  rx_show_dec :: "'d \<Rightarrow> string"
  rx_wallet :: "pubkey option"
  rx_config :: "'d rebalance_config"
  rx_capital :: "'w \<Rightarrow> capital_context"
  rx_chain_of :: "string \<Rightarrow> 'w \<Rightarrow> string option"
  rx_json :: "string \<Rightarrow> json option"
  rx_lifecycle_file :: "'w \<Rightarrow> string list option"
  rx_parse_time :: "string \<Rightarrow> datetime option"
  rx_clock :: "'w \<Rightarrow> datetime \<times> 'w"
  rx_uuid :: "'w \<Rightarrow> string \<times> 'w"
  rx_ctx :: "'w \<Rightarrow> 'd lifecycle_ctx \<times> 'w"
  rx_pool :: "pubkey \<Rightarrow> 'w \<Rightarrow> (string + 'd whirlpool_state) \<times> 'w"
  rx_position :: "pubkey \<Rightarrow> 'w \<Rightarrow> (string + on_chain_position) \<times> 'w"
  rx_reads :: "pubkey \<Rightarrow> pubkey \<Rightarrow> pubkey \<Rightarrow> 'w \<Rightarrow> chain_reads \<times> 'w"
  rx_sleep :: "nat \<Rightarrow> 'w \<Rightarrow> 'w"
  rx_diagnostic :: "string \<Rightarrow> string \<Rightarrow> pubkey \<Rightarrow> pubkey \<Rightarrow> string option \<Rightarrow> 'w \<Rightarrow> 'w"
  rx_below_text :: "f64 \<Rightarrow> f64 \<Rightarrow> f64 \<Rightarrow> u32 \<Rightarrow> string"
  rx_caps_text :: "open_figures \<Rightarrow> string"
  rx_close :: "pubkey \<Rightarrow> pubkey \<Rightarrow> string \<Rightarrow> (int \<times> int) \<Rightarrow> (u64 \<times> u64) \<Rightarrow> 'w \<Rightarrow> (string + u64 \<times> u64) \<times> 'w"
  rx_swap_mix :: "pubkey \<Rightarrow> int \<times> int \<Rightarrow> pubkey \<Rightarrow> u64 \<times> u64 \<Rightarrow> pubkey \<Rightarrow> string option \<Rightarrow> session_mint_caps option \<Rightarrow> 'w \<Rightarrow> (string + u32) \<times> 'w"
  rx_open :: "pubkey \<Rightarrow> int \<times> int \<Rightarrow> u64 \<Rightarrow> u64 \<Rightarrow> string option \<Rightarrow> 'd whirlpool_state \<Rightarrow> open_figures \<Rightarrow> 'w \<Rightarrow> (string + pubkey) \<times> 'w"
  rx_topup :: "pubkey \<Rightarrow> 'd whirlpool_state \<Rightarrow> u64 \<Rightarrow> u64 \<Rightarrow> pubkey \<Rightarrow> string option \<Rightarrow> session_mint_caps option \<Rightarrow> 'w \<Rightarrow> 'w"

definition portfolio_caps_for_reopen ::
    "'d decimal_json \<Rightarrow> ('d, 'w) rebalance_env \<Rightarrow> string option \<Rightarrow> string option \<Rightarrow> pubkey \<Rightarrow> 'w \<Rightarrow> loaded_reopen_caps option option" where
  "portfolio_caps_for_reopen ops env active session_id position_hint w =
     load_reopen_portfolio_caps ops (rx_capital env w) session_id
       (or_else active (rx_chain_of env (rx_show env position_hint) w)) (map_option (rx_show env) (rx_wallet env))"

definition reopen_wallet_refresh_gap_ms :: "(string \<rightharpoonup> string) \<Rightarrow> nat" where
  "reopen_wallet_refresh_gap_ms vars =
     (case Option.bind (vars ''CLMM_REOPEN_WALLET_REFRESH_GAP_MS'') (parse_unsigned (2 ^ 64 - 1)) of
        Some n \<Rightarrow> if n \<le> 10000 then n else 350 | None \<Rightarrow> 350)"

definition rebalance_open_max_attempts :: "(string \<rightharpoonup> string) \<Rightarrow> u32" where
  "rebalance_open_max_attempts vars =
     (case env_u32_in vars ''CLMM_REBALANCE_OPEN_MAX_ATTEMPTS'' 1 20 of Some n \<Rightarrow> n | None \<Rightarrow> 5)"

definition swap_mix_native_spendable_lamports :: "u64 \<Rightarrow> u64" where
  "swap_mix_native_spendable_lamports native = saturating_sub_w native 10000000"

definition unwrap_or :: "'a \<Rightarrow> 'a option \<Rightarrow> 'a" where
  "unwrap_or d x = (case x of Some y \<Rightarrow> y | None \<Rightarrow> d)"

text \<open>The wallet under the caps of the portfolio, and the prices of the two tokens.\<close>

definition wallet_view ::
    "'d decimal_json \<Rightarrow> 'd decimal_conv \<Rightarrow> ('d, 'w) rebalance_env \<Rightarrow> session_mint_caps option \<Rightarrow> 'd whirlpool_state \<Rightarrow> chain_reads
      \<Rightarrow> (swap_mix_wallet_inputs \<times> f64 \<times> f64) option" where
  "wallet_view ops dc env portfolio pl r =
     (let mint_a = rx_show env (ws_token_mint_a pl); mint_b = rx_show env (ws_token_mint_b pl);
          dec_a = unwrap_or 0 (cr_decimals_a r); dec_b = unwrap_or 0 (cr_decimals_b r);
          (wa, wb, spendable) = apply_portfolio_caps_to_wallet_raw (cr_balance_a r) (cr_balance_b r)
             (swap_mix_native_spendable_lamports (unwrap_or 0 (cr_native r))) mint_a mint_b WSOL_MINT portfolio
      in map_option (\<lambda>(pa, pb, mode). (\<lparr>wi_mint_a = mint_a, wi_mint_b = mint_b, wi_balance_a_raw = wa, wi_balance_b_raw = wb,
              wi_decimals_a = dec_a, wi_decimals_b = dec_b, wi_spendable_lamports = spendable\<rparr>, pa, pb))
           (synthetic_prices_for_deposit_quote ops dc (rx_powi10 env) (ws_price pl) mint_a mint_b dec_a dec_b))"

section \<open>Waiting for the wallet\<close>

fun refresh_loop ::
    "'d decimal_json \<Rightarrow> float_fns \<Rightarrow> 'd decimal_conv \<Rightarrow> ('d, 'w) rebalance_env \<Rightarrow> session_mint_caps option \<Rightarrow> pubkey \<Rightarrow> pubkey
      \<Rightarrow> u64 \<times> u64 \<Rightarrow> pubkey \<Rightarrow> string option \<Rightarrow> nat \<Rightarrow> f64 \<times> f64 \<times> f64 \<Rightarrow> 'w \<Rightarrow> unit rust_result \<times> 'w" where
  "refresh_loop ops fl dc env portfolio pl_key owner returned pos sid 0 (prev_end, wallet, threshold) w =
     (Some (Inl ((if portfolio \<noteq> None then ''portfolio_below_target_after_refresh'' else ''wallet_below_target_after_refresh'')
        @ rx_below_text env wallet threshold prev_end (reopen_wallet_refresh_attempts (rx_vars env)))), w)"
| "refresh_loop ops fl dc env portfolio pl_key owner returned pos sid (Suc n) final w =
     (case rx_pool env pl_key w of
        (Inl e, w) \<Rightarrow> (Some (Inl (''reopen wallet vs target: get_pool_state: '' @ e)), w)
      | (Inr pl, w) \<Rightarrow>
          (let (r, w) = rx_reads env owner (ws_token_mint_a pl) (ws_token_mint_b pl) w in
           case wallet_view ops dc env portfolio pl r of
             None \<Rightarrow> (None, w)
           | Some (i, pa, pb) \<Rightarrow>
               (let notional = fst (open_wallet_notional_and_caps_sol_first fl i pa pb);
                    prev_end = prev_end_value_usd_from_close_amounts fl (fst returned) (snd returned) (wi_decimals_a i) (wi_decimals_b i) pa pb;
                    threshold = f64_mul prev_end (f64_sub (f64_lit 1) (reopen_wallet_notional_epsilon (rx_vars env) (rx_parse_f64 env)))
                in if \<not> known_value prev_end then (Some (Inr ()), w)
                   else if f64_le threshold notional then (Some (Inr ()), w)
                   else (let w = rx_diagnostic env
                               (if portfolio \<noteq> None then ''bot_reopen_session_below_target'' else ''bot_reopen_wallet_below_target'')
                               ''reopen_wallet_check'' pl_key pos sid w;
                             w = (if n \<noteq> 0 then rx_sleep env (reopen_wallet_refresh_gap_ms (rx_vars env)) w else w)
                         in refresh_loop ops fl dc env portfolio pl_key owner returned pos sid n (prev_end, notional, threshold) w))))"

definition wallet_notional_refresh_until_reopen_target_met ::
    "'d decimal_json \<Rightarrow> float_fns \<Rightarrow> 'd decimal_conv \<Rightarrow> ('d, 'w) rebalance_env \<Rightarrow> string option \<Rightarrow> pubkey \<Rightarrow> pubkey
      \<Rightarrow> u64 \<times> u64 \<Rightarrow> pubkey \<Rightarrow> string option \<Rightarrow> 'w \<Rightarrow> unit rust_result \<times> 'w" where
  "wallet_notional_refresh_until_reopen_target_met ops fl dc env active pl_key owner returned pos sid w =
     (case portfolio_caps_for_reopen ops env active sid pos w of
        None \<Rightarrow> (None, w)
      | Some loaded \<Rightarrow>
          (case Option.bind loaded (portfolio_capital_error_if_strict (rx_vars env)) of
             Some err \<Rightarrow> (Some (Inl err), w)
           | None \<Rightarrow> refresh_loop ops fl dc env (map_option loaded_caps loaded) pl_key owner returned pos sid
               (unat (reopen_wallet_refresh_attempts (rx_vars env))) (f64_lit 0, f64_lit 0, f64_lit 0) w))"

section \<open>Attempts to open\<close>

fun after_marker :: "string \<Rightarrow> string \<Rightarrow> string option" where
  "after_marker [] marker = (if marker = [] then Some [] else None)"
| "after_marker (c # cs) marker =
     (if prefix marker (c # cs) then Some (drop (length marker) (c # cs)) else after_marker cs marker)"

definition parse_first_u64_after :: "string \<Rightarrow> string \<Rightarrow> u64 option" where
  "parse_first_u64_after haystack marker = do {
     tail \<leftarrow> after_marker haystack marker;
     (let digits = takeWhile (\<lambda>c. digit_value c \<noteq> None) (dropWhile (\<lambda>c. digit_value c = None) tail)
      in if digits = [] then None else map_option of_nat (parse_unsigned (2 ^ 64 - 1) digits)) }"

definition parse_open_preflight_required_native_lamports :: "string \<Rightarrow> (u64 \<times> u64) option" where
  "parse_open_preflight_required_native_lamports err = do {
     required \<leftarrow> parse_first_u64_after err ''require '';
     native \<leftarrow> parse_first_u64_after err ''Current native balance '';
     Some (required, native) }"

text \<open>The caps of an attempt: the wallet, cut to the quote for the new range; an empty wallet falls back to
  the amounts returned by the close, cut to the portfolio.\<close>

definition figures_of ::
    "'u u256_ops \<Rightarrow> float_fns \<Rightarrow> session_mint_caps option \<Rightarrow> int \<times> int \<Rightarrow> u64 \<times> u64 \<Rightarrow> 'd whirlpool_state
      \<Rightarrow> swap_mix_wallet_inputs \<times> f64 \<times> f64 \<Rightarrow> open_figures option" where
  "figures_of u fl portfolio band returned pl = (\<lambda>(i, pa, pb).
     (let (notional, cap_a, cap_b) = open_wallet_notional_and_caps_sol_first fl i pa pb;
          prev_end = prev_end_value_usd_from_close_amounts fl (fst returned) (snd returned) (wi_decimals_a i) (wi_decimals_b i) pa pb;
          target = target_usd_for_swap_mix_and_open prev_end notional
      in map_option (\<lambda>quote.
           (let quote = (case quote of Inr q \<Rightarrow> Some q | Inl _ \<Rightarrow> None);
                (cap_a, cap_b) = (case quote of Some q \<Rightarrow> (min cap_a (token_max_a q), min cap_b (token_max_b q)) | None \<Rightarrow> (cap_a, cap_b));
                (cap_a, cap_b) = (if cap_a = 0 \<and> cap_b = 0
                  then (cap_rpc_with_portfolio (max (fst returned) 1) (wi_mint_a i) portfolio,
                        cap_rpc_with_portfolio (max (snd returned) 1) (wi_mint_b i) portfolio)
                  else (cap_a, cap_b))
            in \<lparr>of_cap_a = cap_a, of_cap_b = cap_b, of_quote = quote, of_target = target, of_prev_end = prev_end, of_notional = notional\<rparr>))
         (quote_deposit_budget_in_range u fl (fst band) (snd band) (ws_tick_current pl) (ws_sqrt_price pl)
           (wi_decimals_a i) (wi_decimals_b i) pa pb target)))"

definition caps_cover_quote :: "open_figures \<Rightarrow> bool" where
  "caps_cover_quote f \<longleftrightarrow> (case of_quote f of Some q \<Rightarrow> balances_cover_deposit_quote (of_cap_a f) (of_cap_b f) q | None \<Rightarrow> True)"

text \<open>One attempt: a position, an error and whether the top-up was tried, or a panic.\<close>

definition open_attempt ::
    "'d decimal_json \<Rightarrow> float_fns \<Rightarrow> 'd decimal_conv \<Rightarrow> 'u u256_ops \<Rightarrow> ('d, 'w) rebalance_env \<Rightarrow> session_mint_caps option \<Rightarrow> pubkey \<Rightarrow> int \<times> int
      \<Rightarrow> pubkey \<Rightarrow> u64 \<times> u64 \<Rightarrow> pubkey \<Rightarrow> string option \<Rightarrow> nat \<Rightarrow> bool \<Rightarrow> 'w \<Rightarrow> (string \<times> bool + pubkey) option \<times> 'w" where
  "open_attempt ops fl dc u env portfolio pl_key band owner returned pos sid attempt tried w =
     (case rx_pool env pl_key w of
        (Inl e, w) \<Rightarrow> (Some (Inl (''fetch pool state for open quote (attempt '' @ show_nat attempt @ ''): '' @ e, tried)), w)
      | (Inr pl, w) \<Rightarrow>
          (let (r, w) = rx_reads env owner (ws_token_mint_a pl) (ws_token_mint_b pl) w in
           case Option.bind (wallet_view ops dc env portfolio pl r) (figures_of u fl portfolio band returned pl) of
             None \<Rightarrow> (None, w)
           | Some f \<Rightarrow>
               if \<not> caps_cover_quote f
               then (Some (Inl (''reopen_final_caps_below_target: final caps do not cover deposit quote '' @ rx_caps_text env f, tried)),
                     rx_diagnostic env ''bot_reopen_final_caps_below_target'' ''open_position'' pl_key pos sid w)
               else (case rx_open env pl_key band (of_cap_a f) (of_cap_b f) sid pl f w of
                       (Inr np, w) \<Rightarrow> (Some (Inr np), w)
                     | (Inl e, w) \<Rightarrow>
                         if \<not> tried \<and> contains e ''open preflight exact-plan: insufficient native SOL''
                         then (Some (Inl (e, True)),
                               case parse_open_preflight_required_native_lamports e of
                                 Some (required, native) \<Rightarrow> rx_topup env pl_key pl required native pos sid portfolio w
                               | None \<Rightarrow> w)
                         else (Some (Inl (e, tried)), w))))"

fun open_attempts ::
    "'d decimal_json \<Rightarrow> float_fns \<Rightarrow> 'd decimal_conv \<Rightarrow> 'u u256_ops \<Rightarrow> ('d, 'w) rebalance_env \<Rightarrow> session_mint_caps option \<Rightarrow> pubkey \<Rightarrow> int \<times> int
      \<Rightarrow> pubkey \<Rightarrow> u64 \<times> u64 \<Rightarrow> pubkey \<Rightarrow> string option \<Rightarrow> nat \<Rightarrow> nat \<Rightarrow> string option \<Rightarrow> bool \<Rightarrow> 'w \<Rightarrow> pubkey rust_result \<times> 'w" where
  "open_attempts ops fl dc u env portfolio pl_key band owner returned pos sid 0 attempt final tried w =
     (Some (Inl (unwrap_or ''unknown error'' final)), w)"
| "open_attempts ops fl dc u env portfolio pl_key band owner returned pos sid (Suc n) attempt final tried w =
     (case open_attempt ops fl dc u env portfolio pl_key band owner returned pos sid attempt tried w of
        (None, w) \<Rightarrow> (None, w)
      | (Some (Inr np), w) \<Rightarrow> (Some (Inr np), w)
      | (Some (Inl (e, tried)), w) \<Rightarrow>
          open_attempts ops fl dc u env portfolio pl_key band owner returned pos sid n (Suc attempt) (Some e) tried
            (if n \<noteq> 0 then rx_sleep env (250 * attempt) w else w))"

section \<open>Opening the new range\<close>

definition release_opt :: "string option \<Rightarrow> bool \<Rightarrow> open_guard \<Rightarrow> open_guard" where
  "release_opt sid ok g = (case sid of Some s \<Rightarrow> release_open_session_reservation s ok g | None \<Rightarrow> g)"

text \<open>The ledger of the session and the guard of the process are asked before anything is sent.\<close>

definition reserve_session ::
    "('d, 'w) rebalance_env \<Rightarrow> pubkey \<Rightarrow> pubkey \<Rightarrow> string option \<Rightarrow> open_guard \<Rightarrow> 'w \<Rightarrow> string option \<times> open_guard \<times> 'w" where
  "reserve_session env pl_key pos session_id g w =
     (case trimmed session_id of
        None \<Rightarrow> (None, g, w)
      | Some sid \<Rightarrow>
          if session_has_bot_open_position (rx_json env) (rx_lifecycle_file env w) sid
          then (Some (''open guard: rebalance session '' @ sid @ '' already has bot_open_position row; blocking duplicate open''), g,
                rx_diagnostic env ''bot_open_guard_blocked'' ''open_guard'' pl_key pos (Some sid) w)
          else (case try_reserve_open_session sid g of
                  (False, g) \<Rightarrow> (Some (''open guard: rebalance session '' @ sid @ '' already inflight/completed in this process; blocking duplicate open''),
                                 g, rx_diagnostic env ''bot_open_guard_blocked'' ''open_guard'' pl_key pos (Some sid) w)
                | (True, g) \<Rightarrow> (None, g, w)))"

definition open_new_range_with_wallet_mix ::
    "'d decimal_json \<Rightarrow> float_fns \<Rightarrow> 'd decimal_conv \<Rightarrow> 'u u256_ops \<Rightarrow> ('d, 'w) rebalance_env \<Rightarrow> string option \<Rightarrow> pubkey \<Rightarrow> int \<times> int
      \<Rightarrow> u64 \<times> u64 \<Rightarrow> pubkey \<Rightarrow> string option \<Rightarrow> open_guard \<Rightarrow> 'w \<Rightarrow> (pubkey \<times> u32) rust_result \<times> open_guard \<times> 'w" where
  "open_new_range_with_wallet_mix ops fl dc u env active pl_key band returned pos session_id g w =
     (case rx_wallet env of
        None \<Rightarrow> (Some (Inl (''wallet missing on RebalanceExecutor after close '' @ em_dash @ '' cannot open new position'')), g, w)
      | Some owner \<Rightarrow>
          (case portfolio_caps_for_reopen ops env active session_id pos w of
             None \<Rightarrow> (None, g, w)
           | Some loaded \<Rightarrow>
               (case Option.bind loaded (portfolio_capital_error_if_strict (rx_vars env)) of
                  Some err \<Rightarrow> (Some (Inl err), g, w)
                | None \<Rightarrow>
                    (case reserve_session env pl_key pos session_id g w of
                       (Some err, g, w) \<Rightarrow> (Some (Inl err), g, w)
                     | (None, g, w) \<Rightarrow>
                         (case wallet_notional_refresh_until_reopen_target_met ops fl dc env active pl_key owner returned pos session_id w of
                            (None, w) \<Rightarrow> (None, g, w)
                          | (Some (Inl e), w) \<Rightarrow> (Some (Inl e), release_opt session_id False g, w)
                          | (Some (Inr ()), w) \<Rightarrow>
                              (case rx_swap_mix env pl_key band owner returned pos session_id (map_option loaded_caps loaded) w of
                                 (Inl e, w) \<Rightarrow> (Some (Inl e), release_opt session_id False g, w)
                               | (Inr swap_rounds, w) \<Rightarrow>
                                   (case open_attempts ops fl dc u env (map_option loaded_caps loaded) pl_key band owner returned pos session_id
                                           (unat (rebalance_open_max_attempts (rx_vars env))) 1 None False w of
                                      (None, w) \<Rightarrow> (None, g, w)
                                    | (Some (Inl e), w) \<Rightarrow>
                                        (Some (Inl (e @ '' Close succeeded but open failed after retries '' @ em_dash
                                           @ '' funds should be in wallet ATAs; token mix for new range may still require a swap before open.'')),
                                         release_opt session_id False g, w)
                                    | (Some (Inr np), w) \<Rightarrow> (Some (Inr (np, swap_rounds)), release_opt session_id True g, w))))))))"

section \<open>Before the close\<close>

definition estimate_benefit :: "('d, 'a) decimal_arith_scheme \<Rightarrow> 'd rebalance_params \<Rightarrow> 'd option" where
  "estimate_benefit ops p = do {
     il_recovery \<leftarrow> dec_mul ops (dec_abs ops (rb_current_il_pct p)) (dec_new ops 5 1);
     dec_mul ops il_recovery (dec_new ops 1000 0) }"

text \<open>Profitable or not, with the benefit and the least benefit.\<close>

definition is_profitable :: "'d decimal_json \<Rightarrow> 'd rebalance_config \<Rightarrow> 'd rebalance_params \<Rightarrow> (bool \<times> 'd \<times> 'd) option" where
  "is_profitable ops cfg p = do {
     benefit \<leftarrow> estimate_benefit ops p;
     required \<leftarrow> dec_mul ops (dec_from_int ops (uint (rc_est_tx_cost_lamports cfg))) (rc_min_profit_multiplier cfg);
     Some (dec_gt ops benefit required, benefit, required) }"

text \<open>The error with which the gate stops a rebalance, if it does.\<close>

definition profitability_gate :: "'d decimal_json \<Rightarrow> ('d, 'w) rebalance_env \<Rightarrow> 'd rebalance_params \<Rightarrow> string option option" where
  "profitability_gate ops env p =
     (if rc_profitability_mode (rx_config env) = ProfitOff then Some None
      else map_option (\<lambda>(ok, benefit, required).
             if ok \<or> rc_profitability_mode (rx_config env) = ProfitWarn then None
             else Some (''rebalance blocked by profitability gate: expected_benefit='' @ rx_show_dec env benefit @ '' min_required=''
               @ rx_show_dec env required @ '' (est tx '' @ show_nat (unat (rc_est_tx_cost_lamports (rx_config env)))
               @ '' lamports); set CLMM_REBALANCE_PROFITABILITY=off or warn''))
             (is_profitable ops (rx_config env) p))"

definition position_of :: "'d rebalance_params \<Rightarrow> on_chain_position" where
  "position_of p = \<lparr>oc_address = rb_position p, oc_pool = rb_pool p, oc_owner = replicate 32 0, oc_tick_lower = rb_current_tick_lower p,
     oc_tick_upper = rb_current_tick_upper p, oc_liquidity = rb_current_liquidity p, oc_fee_growth_inside_a = 0,
     oc_fee_growth_inside_b = 0, oc_fees_owed_a = 0, oc_fees_owed_b = 0\<rparr>"

text \<open>The first widening that the quote accepts; every try is logged.\<close>

fun widen_until_quoted ::
    "('d, 'w) rebalance_env \<Rightarrow> (int \<times> int \<Rightarrow> bool option) \<Rightarrow> (nat \<Rightarrow> int \<times> int) \<Rightarrow> pubkey \<Rightarrow> pubkey \<Rightarrow> nat list \<Rightarrow> 'w
      \<Rightarrow> (int \<times> int) option option \<times> 'w" where
  "widen_until_quoted env quoted widen pl_key pos [] w = (Some None, w)"
| "widen_until_quoted env quoted widen pl_key pos (step # steps) w =
     (case quoted (widen step) of
        None \<Rightarrow> (None, w)
      | Some ok \<Rightarrow>
          (let w = rx_diagnostic env ''bot_reopen_widen_ticks'' ''reopen_preflight'' pl_key pos None w
           in if ok then (Some (Some (widen step)), w) else widen_until_quoted env quoted widen pl_key pos steps w))"

text \<open>The budget of the check: what the position would return and what the wallet holds.\<close>

definition preflight_target ::
    "float_fns \<Rightarrow> swap_mix_wallet_inputs \<times> f64 \<times> f64 \<Rightarrow> u64 \<times> u64 \<Rightarrow> f64" where
  "preflight_target fl = (\<lambda>(i, pa, pb) returned.
     target_usd_for_close_reopen_preflight
       (prev_end_value_usd_from_close_amounts fl (fst returned) (snd returned) (wi_decimals_a i) (wi_decimals_b i) pa pb)
       (f64_add (f64_mul (ui_from_raw fl (wi_balance_a_raw i) (wi_decimals_a i)) pa)
                (f64_mul (ui_from_raw fl (wi_balance_b_raw i) (wi_decimals_b i)) pb)))"

definition is_quoted ::
    "'u u256_ops \<Rightarrow> float_fns \<Rightarrow> 'd whirlpool_state \<Rightarrow> swap_mix_wallet_inputs \<times> f64 \<times> f64 \<Rightarrow> f64 \<Rightarrow> int \<times> int \<Rightarrow> bool option" where
  "is_quoted u fl pl = (\<lambda>(i, pa, pb) target band.
     map_option (\<lambda>q. case q of Inr _ \<Rightarrow> True | Inl _ \<Rightarrow> False)
       (quote_deposit_budget_in_range u fl (fst band) (snd band) (ws_tick_current pl) (ws_sqrt_price pl)
         (wi_decimals_a i) (wi_decimals_b i) pa pb target))"

definition preflight_range ::
    "('d, 'w) rebalance_env \<Rightarrow> (int \<times> int \<Rightarrow> bool option) \<Rightarrow> 'd whirlpool_state \<Rightarrow> 'd rebalance_params \<Rightarrow> 'w \<Rightarrow> (int \<times> int) option option \<times> 'w" where
  "preflight_range env quoted pl p w =
     (let planned = (rb_new_tick_lower p, rb_new_tick_upper p) in
      case quoted planned of
        None \<Rightarrow> (None, w)
      | Some ok \<Rightarrow>
          if ok then (Some (Some planned), w)
          else if reopen_auto_widen_enabled (rx_vars env)
          then widen_until_quoted env quoted
                 (widen_ticks_around_current (ws_tick_current pl) (ws_tick_spacing pl) (fst planned) (snd planned))
                 (rb_pool p) (rb_position p) [1 ..< unat (reopen_auto_widen_max_steps (rx_vars env)) + 1] w
          else (Some None, w))"

definition preflight_returned ::
    "'u u256_ops \<Rightarrow> float_fns \<Rightarrow> ('d, 'w) rebalance_env \<Rightarrow> 'd whirlpool_state \<Rightarrow> 'd rebalance_params \<Rightarrow> u64 \<times> u64 \<Rightarrow> 'w \<Rightarrow> (u64 \<times> u64) option \<times> 'w" where
  "preflight_returned u fl env pl p fallback w =
     (case rx_position env (rb_position p) w of
        (Inl _, w) \<Rightarrow> (Some fallback, w)
      | (Inr op, w) \<Rightarrow>
          (map_option (\<lambda>(a, b). (saturating_add_w a (oc_fees_owed_a op), saturating_add_w b (oc_fees_owed_b op)))
             (calculate_token_amounts u fl op (ws_tick_current pl) (ws_sqrt_price pl)), w))"

text \<open>The range that will be opened, or the reason not to close. With the check disabled, the intended range.\<close>

definition reopen_preflight ::
    "'d decimal_json \<Rightarrow> float_fns \<Rightarrow> 'd decimal_conv \<Rightarrow> 'u u256_ops \<Rightarrow> ('d, 'w) rebalance_env \<Rightarrow> string option \<Rightarrow> string \<Rightarrow> u64 \<times> u64
      \<Rightarrow> 'd rebalance_params \<Rightarrow> 'w \<Rightarrow> (int \<times> int) rust_result \<times> 'w" where
  "reopen_preflight ops fl dc u env active sid fallback p w =
     (if \<not> no_close_unless_reopen_feasible (rx_vars env) then (Some (Inr (rb_new_tick_lower p, rb_new_tick_upper p)), w)
      else case rx_wallet env of
        None \<Rightarrow> (Some (Inl (''wallet missing on RebalanceExecutor '' @ em_dash @ '' cannot preflight reopen feasibility'')), w)
      | Some owner \<Rightarrow>
          (case portfolio_caps_for_reopen ops env active (Some sid) (rb_position p) w of
             None \<Rightarrow> (None, w)
           | Some loaded \<Rightarrow>
               (case rx_pool env (rb_pool p) w of
                  (Inl e, w) \<Rightarrow> (Some (Inl (''preflight: get_pool_state failed: '' @ e)), w)
                | (Inr pl, w) \<Rightarrow>
                    (let (r, w) = rx_reads env owner (ws_token_mint_a pl) (ws_token_mint_b pl) w in
                     case wallet_view ops dc env (map_option loaded_caps loaded) pl r of
                       None \<Rightarrow> (None, w)
                     | Some view \<Rightarrow>
                         (case preflight_returned u fl env pl p fallback w of
                            (None, w) \<Rightarrow> (None, w)
                          | (Some returned, w) \<Rightarrow>
                              (case preflight_range env (is_quoted u fl pl view (preflight_target fl view returned)) pl p w of
                                 (None, w) \<Rightarrow> (None, w)
                               | (Some (Some band), w) \<Rightarrow> (Some (Inr band), w)
                               | (Some None, w) \<Rightarrow>
                                   (Some (Inl (''reopen preflight failed (quote rejected) '' @ em_dash
                                      @ '' skipping close (no-close-unless-reopen-feasible)'')),
                                    rx_diagnostic env ''bot_reopen_preflight_failed'' ''reopen_preflight'' (rb_pool p) (rb_position p) None w)))))))"

section \<open>The rebalance\<close>

definition read_close_amounts_best_effort ::
    "'u u256_ops \<Rightarrow> float_fns \<Rightarrow> ('d, 'w) rebalance_env \<Rightarrow> pubkey \<Rightarrow> pubkey \<Rightarrow> 'w \<Rightarrow> (u64 \<times> u64) rust_result \<times> 'w" where
  "read_close_amounts_best_effort u fl env pos pl_key w =
     (case rx_position env pos w of
        (Inl e, w) \<Rightarrow> (Some (Inl e), w)
      | (Inr op, w) \<Rightarrow>
          (case rx_pool env pl_key w of
             (Inl e, w) \<Rightarrow> (Some (Inl e), w)
           | (Inr pl, w) \<Rightarrow> (map_option Inr (calculate_token_amounts u fl op (ws_tick_current pl) (ws_sqrt_price pl)), w)))"

text \<open>The amounts, price and liquidity of the new position, as far as they can be read.\<close>

definition state_after ::
    "'u u256_ops \<Rightarrow> float_fns \<Rightarrow> ('d, 'w) rebalance_env \<Rightarrow> pubkey \<Rightarrow> pubkey \<Rightarrow> 'w \<Rightarrow> (u64 \<times> u64 \<times> 'd \<times> u128) option option \<times> 'w" where
  "state_after u fl env pl_key np w =
     (case rx_pool env pl_key w of
        (Inl _, w) \<Rightarrow> (Some None, w)
      | (Inr pl, w) \<Rightarrow>
          (case rx_position env np w of
             (Inl _, w) \<Rightarrow> (Some None, w)
           | (Inr op, w) \<Rightarrow> (map_option (\<lambda>(a, b). Some (a, b, ws_price pl, oc_liquidity op))
                 (calculate_token_amounts u fl op (ws_tick_current pl) (ws_sqrt_price pl)), w)))"

definition unopened :: "pubkey \<Rightarrow> string option \<Rightarrow> rebalance_result" where
  "unopened pos sid = \<lparr>rs_success = False, rs_old_position_closed_on_chain = False, rs_old_position = pos, rs_new_position = None,
     rs_fees_collected = None, rs_liquidity_removed = 0, rs_liquidity_added = 0, rs_tx_cost_lamports = 0, rs_error = None, rs_session_id = sid\<rparr>"

definition failed :: "string \<Rightarrow> rebalance_result \<Rightarrow> rebalance_result" where
  "failed e res = res\<lparr>rs_error := Some e\<rparr>"

text \<open>The row of a completed rebalance.\<close>

definition rebalance_row ::
    "('d, 'w) rebalance_env \<Rightarrow> 'd rebalance_params \<Rightarrow> rebalance_result \<Rightarrow> u64 \<times> u64 \<Rightarrow> (u64 \<times> u64 \<times> 'd \<times> u128) option \<Rightarrow> 'd rebalance_data" where
  "rebalance_row env p res before after =
     \<lparr>old_tick_lower = rb_current_tick_lower p, old_tick_upper = rb_current_tick_upper p, new_tick_lower = rb_new_tick_lower p,
      new_tick_upper = rb_new_tick_upper p, old_liquidity = rb_current_liquidity p, new_liquidity = rs_liquidity_added res,
      tx_cost_lamports = rs_tx_cost_lamports res, il_at_rebalance = rb_current_il_pct p, rebalance_reason_of = rb_reason p,
      amount_a_before = or_else (rb_amount_a_before p) (Some (fst before)), amount_b_before = or_else (rb_amount_b_before p) (Some (snd before)),
      amount_a_after = map_option fst after, amount_b_after = map_option (fst \<circ> snd) after, price_ab_before = rb_price_ab_before p,
      price_ab_after = map_option (fst \<circ> snd \<circ> snd) after, fees_a_collected = Some (fst (unwrap_or (0, 0) (rs_fees_collected res))),
      fees_b_collected = Some (snd (unwrap_or (0, 0) (rs_fees_collected res))), optimization_run_id = rb_optimization_run_id p,
      range_adjustment_reason = None, old_position = Some (rx_show env (rb_position p))\<rparr>"

text \<open>The row has the intended range even if a widened one is opened, and no fees: \<open>rs_fees_collected\<close> is never set.\<close>

lemma rebalance_row_figures:
  assumes "rs_fees_collected res = None"
  shows "new_tick_lower (rebalance_row env p res before after) = rb_new_tick_lower p" "new_tick_upper (rebalance_row env p res before after) = rb_new_tick_upper p"
    "fees_a_collected (rebalance_row env p res before after) = Some 0" "fees_b_collected (rebalance_row env p res before after) = Some 0"
  using assms by (simp_all add: rebalance_row_def unwrap_or_def)

text \<open>From the closed position on.\<close>

definition reopen_after_close ::
    "'d decimal_json \<Rightarrow> float_fns \<Rightarrow> 'd decimal_conv \<Rightarrow> 'u u256_ops \<Rightarrow> ('d, 'w) rebalance_env \<Rightarrow> string option \<Rightarrow> string \<Rightarrow> u64 \<times> u64 \<Rightarrow> u64 \<times> u64
      \<Rightarrow> int \<times> int \<Rightarrow> 'd rebalance_params \<Rightarrow> rebalance_result \<Rightarrow> 'd lifecycle_tracker \<Rightarrow> open_guard \<Rightarrow> 'w
      \<Rightarrow> (rebalance_result \<times> 'd lifecycle_tracker \<times> open_guard \<times> 'w) option" where
  "reopen_after_close ops fl dc u env active sid before returned band p res t g w =
     (case rx_pool env (rb_pool p) w of
        (Inl e, w) \<Rightarrow> Some (failed (''fetch pool after close for open caps: '' @ e) res, t, g, w)
      | (Inr pl, w) \<Rightarrow>
          (case open_new_range_with_wallet_mix ops fl dc u env active (rb_pool p) band returned (rb_position p) (Some sid) g w of
             (None, g, w) \<Rightarrow> None
           | (Some (Inl e), g, w) \<Rightarrow> Some (failed e res, t, g, w)
           | (Some (Inr (np, swap_rounds)), g, w) \<Rightarrow>
               (let res = res\<lparr>rs_tx_cost_lamports :=
                            saturating_add_w (rs_tx_cost_lamports res) (saturating_mul_w 5000 (ucast swap_rounds)) + 5000,
                          rs_new_position := Some np, rs_liquidity_added := rb_current_liquidity p\<rparr> in
                case state_after u fl env (rb_pool p) np w of
                  (None, w) \<Rightarrow> None
                | (Some after, w) \<Rightarrow>
                    (let (ctx, w) = rx_ctx env w
                     in Some (res\<lparr>rs_success := True\<rparr>,
                              snd (record_rebalance ctx np (rb_pool p) (rebalance_row env p res before after) t), g, w)))))"

definition close_and_reopen ::
    "'d decimal_json \<Rightarrow> float_fns \<Rightarrow> 'd decimal_conv \<Rightarrow> 'u u256_ops \<Rightarrow> ('d, 'w) rebalance_env \<Rightarrow> string option \<Rightarrow> string \<Rightarrow> u64 \<times> u64
      \<Rightarrow> int \<times> int \<Rightarrow> 'd rebalance_params \<Rightarrow> 'd lifecycle_tracker \<Rightarrow> open_guard \<Rightarrow> 'w
      \<Rightarrow> (rebalance_result \<times> 'd lifecycle_tracker \<times> open_guard \<times> 'w) option" where
  "close_and_reopen ops fl dc u env active sid before band p t g w =
     (let res = (unopened (rb_position p) (Some sid))\<lparr>rs_liquidity_removed := rb_current_liquidity p\<rparr> in
      case read_close_amounts_best_effort u fl env (rb_position p) (rb_pool p) w of
        (None, w) \<Rightarrow> None
      | (Some amounts_read, w) \<Rightarrow>
          (let closing = (case amounts_read of Inr ab \<Rightarrow> ab | Inl _ \<Rightarrow> before) in
           case rx_close env (rb_position p) (rb_pool p) sid band closing w of
             (Inl e, w) \<Rightarrow> Some (failed e res, t, g, w)
           | (Inr fees, w) \<Rightarrow>
               reopen_after_close ops fl dc u env active sid before
                 (saturating_add_w (fst closing) (fst fees), saturating_add_w (snd closing) (snd fees)) band p
                 (res\<lparr>rs_old_position_closed_on_chain := True, rs_tx_cost_lamports := 5000\<rparr>) t g w))"

text \<open>\<^verbatim>\<open>execute\<close> after the check for a dry run.\<close>

definition execute_live ::
    "'d decimal_json \<Rightarrow> float_fns \<Rightarrow> 'd decimal_conv \<Rightarrow> 'u u256_ops \<Rightarrow> ('d, 'w) rebalance_env \<Rightarrow> 'd rebalance_params \<Rightarrow> string
      \<Rightarrow> 'd lifecycle_tracker \<Rightarrow> open_guard \<Rightarrow> 'w \<Rightarrow> (rebalance_result \<times> 'd lifecycle_tracker \<times> open_guard \<times> 'w) option" where
  "execute_live ops fl dc u env p sid t g w =
     (let (chain, w) = (case rx_chain_of env (rx_show env (rb_position p)) w of Some c \<Rightarrow> (c, w) | None \<Rightarrow> rx_uuid env w);
          res = unopened (rb_position p) (Some sid) in
      case profitability_gate ops env p of
        None \<Rightarrow> None
      | Some (Some msg) \<Rightarrow> Some (failed msg res, t, g, w)
      | Some None \<Rightarrow>
          (case calculate_token_amounts u fl (position_of p) (rb_pool_tick_current p) (rb_pool_sqrt_price p) of
             None \<Rightarrow> None
           | Some before \<Rightarrow>
               (case reopen_preflight ops fl dc u env (Some chain) sid before p w of
                  (None, w) \<Rightarrow> None
                | (Some (Inl e), w) \<Rightarrow> Some (failed e res, t, g, w)
                | (Some (Inr band), w) \<Rightarrow> close_and_reopen ops fl dc u env (Some chain) sid before band p t g w)))"

section \<open>The recovery\<close>

definition close_amounts_from_lifecycle_row :: "json \<Rightarrow> string \<Rightarrow> string option \<Rightarrow> (u64 \<times> u64) option" where
  "close_amounts_from_lifecycle_row row closed_key session_id = do {
     event \<leftarrow> Option.bind (json_get ''event'' row) as_str_json;
     row_position \<leftarrow> (if trim event \<noteq> ''bot_close_position'' then None else Option.bind (json_get ''position_pubkey'' row) as_str_json);
     (if trim row_position \<noteq> closed_key then None
      else if session_id \<noteq> None \<and> Some (str_field ''rebalance_session_id'' row) \<noteq> session_id then None
      else do {
        details \<leftarrow> json_get ''details'' row;
        _ \<leftarrow> as_object details;
        a \<leftarrow> Option.bind (json_get ''close_amount_a_raw'' details) as_u64;
        b \<leftarrow> Option.bind (json_get ''close_amount_b_raw'' details) as_u64;
        (let fee = (\<lambda>k. unwrap_or 0 (or_else (Option.bind (json_get k row) as_u64) (Option.bind (json_get k details) as_u64)))
         in Some (saturating_add_w a (fee ''lp_collected_token_a_raw''), saturating_add_w b (fee ''lp_collected_token_b_raw''))) }) }"

fun close_amounts_loop :: "(string \<Rightarrow> json option) \<Rightarrow> string \<Rightarrow> string option \<Rightarrow> string list \<Rightarrow> (u64 \<times> u64) option \<Rightarrow> (u64 \<times> u64) option" where
  "close_amounts_loop from_str closed_key session_id [] latest = latest"
| "close_amounts_loop from_str closed_key session_id (line # ls) latest =
     close_amounts_loop from_str closed_key session_id ls
       (if trim line = [] then latest
        else case from_str (trim line) of
               None \<Rightarrow> latest
             | Some row \<Rightarrow> or_else (close_amounts_from_lifecycle_row row closed_key session_id) latest)"

definition close_amounts_from_lifecycle_best_effort ::
    "(string \<Rightarrow> json option) \<Rightarrow> string list option \<Rightarrow> string \<Rightarrow> string option \<Rightarrow> (u64 \<times> u64) option" where
  "close_amounts_from_lifecycle_best_effort from_str file closed_key session_id =
     (case file of None \<Rightarrow> None | Some ls \<Rightarrow> close_amounts_loop from_str closed_key session_id ls None)"

definition recovery_row ::
    "('d, 'a) decimal_ops_scheme \<Rightarrow> ('d, 'w) rebalance_env \<Rightarrow> 'd recover_open_params \<Rightarrow> int \<times> int \<Rightarrow> string option \<Rightarrow> rebalance_result
      \<Rightarrow> (u64 \<times> u64 \<times> 'd \<times> u128) option \<Rightarrow> 'd rebalance_data" where
  "recovery_row ops env p band reason res after =
     \<lparr>old_tick_lower = rp_new_tick_lower p, old_tick_upper = rp_new_tick_upper p, new_tick_lower = fst band, new_tick_upper = snd band,
      old_liquidity = 0, new_liquidity = rs_liquidity_added res, tx_cost_lamports = rs_tx_cost_lamports res, il_at_rebalance = dec_zero ops,
      rebalance_reason_of = rp_reason p, amount_a_before = None, amount_b_before = None, amount_a_after = map_option fst after,
      amount_b_after = map_option (fst \<circ> snd) after, price_ab_before = None, price_ab_after = map_option (fst \<circ> snd \<circ> snd) after,
      fees_a_collected = None, fees_b_collected = None, optimization_run_id = rp_optimization_run_id p,
      range_adjustment_reason = reason, old_position = Some (rx_show env (rp_closed_position_nft p))\<rparr>"

text \<open>\<^verbatim>\<open>recover_open_after_incomplete\<close> after the check for a dry run.\<close>

definition recover_live ::
    "'d decimal_json \<Rightarrow> float_fns \<Rightarrow> 'd decimal_conv \<Rightarrow> 'u u256_ops \<Rightarrow> ('d, 'w) rebalance_env \<Rightarrow> 'd recover_open_params
      \<Rightarrow> 'd lifecycle_tracker \<Rightarrow> open_guard \<Rightarrow> 'w \<Rightarrow> (rebalance_result \<times> 'd lifecycle_tracker \<times> open_guard \<times> 'w) option" where
  "recover_live ops fl dc u env p t g w =
     (let res = unopened (rp_closed_position_nft p) (rp_session_id p) in
      case rx_pool env (rp_pool p) w of
        (Inl e, w) \<Rightarrow> Some (failed (''fetch pool for recover_open: '' @ e) res, t, g, w)
      | (Inr pl, w) \<Rightarrow>
          (let (now, w) = (if rp_reason p = RrRetouchShift then rx_clock env w else (0, w)) in
           case recovery_plan ops dc (rx_parse_f64 env) (rx_parse_time env) (rx_vars env) now pl p of
             None \<Rightarrow> None
           | Some (band, replan, reason) \<Rightarrow>
               (let w = (if replan = None then w
                         else rx_diagnostic env ''bot_recover_open_replanned'' ''recover_open'' (rp_pool p) (rp_closed_position_nft p) (rp_session_id p) w);
                    returned = unwrap_or (0, 0) (close_amounts_from_lifecycle_best_effort (rx_json env) (rx_lifecycle_file env w)
                                 (rx_show env (rp_closed_position_nft p)) (rp_session_id p))
                in case open_new_range_with_wallet_mix ops fl dc u env None (rp_pool p) band returned (rp_closed_position_nft p) (rp_session_id p) g w of
                     (None, g, w) \<Rightarrow> None
                   | (Some (Inl e), g, w) \<Rightarrow> Some (failed e res, t, g, w)
                   | (Some (Inr (np, swap_rounds)), g, w) \<Rightarrow>
                       (let res = res\<lparr>rs_tx_cost_lamports := saturating_add_w (saturating_mul_w 5000 (ucast swap_rounds)) 5000,
                                      rs_new_position := Some np\<rparr> in
                        case state_after u fl env (rp_pool p) np w of
                          (None, w) \<Rightarrow> None
                        | (Some after, w) \<Rightarrow>
                            (let (ctx, w) = rx_ctx env w;
                                 res = res\<lparr>rs_liquidity_added := (case after of Some (a, b, price, liq) \<Rightarrow> liq | None \<Rightarrow> 0)\<rparr>
                             in Some (res\<lparr>rs_success := True\<rparr>,
                                      snd (record_rebalance ctx np (rp_pool p) (recovery_row ops env p band reason res after) t), g, w))))))"

section \<open>What a rebalance leaves behind\<close>

lemma reserve_session_guard:
  assumes "reserve_session env pl_key pos (Some sid) g w = (err, g1, w1)" and "trim sid \<noteq> []"
  shows "g1 = (if err = None then g\<lparr>og_inflight := insert (trim sid) (og_inflight g)\<rparr> else g)"
    and "err = None \<Longrightarrow> trim sid \<notin> og_completed g \<and> trim sid \<notin> og_inflight g"
  using assms by (auto simp: reserve_session_def trimmed_def try_reserve_open_session_def Let_def split: if_splits)

lemma release_reserved:
  assumes "trim sid \<notin> og_inflight g" and "trim sid \<noteq> []"
  shows "release_opt (Some sid) ok (g\<lparr>og_inflight := insert (trim sid) (og_inflight g)\<rparr>)
    = (if ok then g\<lparr>og_completed := insert (trim sid) (og_completed g)\<rparr> else g)"
  using assms by (cases g) (simp add: release_opt_def release_open_session_reservation_def Let_def)

text \<open>The guard, once reserved, is given back on every way out.\<close>

lemma open_new_range_guard:
  assumes "open_new_range_with_wallet_mix ops fl dc u env active pl_key band returned pos (Some sid) g w = (Some r, g', w')"
    and sid: "trim sid \<noteq> []"
  shows "g' = (case r of Inl _ \<Rightarrow> g | Inr _ \<Rightarrow> g\<lparr>og_completed := insert (trim sid) (og_completed g)\<rparr>)
    \<and> (\<forall>x. r = Inr x \<longrightarrow> trim sid \<notin> og_completed g)"
proof (cases "\<exists>owner loaded. rx_wallet env = Some owner \<and> portfolio_caps_for_reopen ops env active (Some sid) pos w = Some loaded
    \<and> Option.bind loaded (portfolio_capital_error_if_strict (rx_vars env)) = None")
  case False
  with assms(1) show ?thesis unfolding open_new_range_with_wallet_mix_def by (auto split: option.splits)
next
  case True
  then obtain owner loaded where c: "rx_wallet env = Some owner" "portfolio_caps_for_reopen ops env active (Some sid) pos w = Some loaded"
    "Option.bind loaded (portfolio_capital_error_if_strict (rx_vars env)) = None" by blast
  obtain err g1 w1 where r: "reserve_session env pl_key pos (Some sid) g w = (err, g1, w1)" by (metis prod_cases3)
  note g1 = reserve_session_guard [OF r sid]
  show ?thesis
  proof (cases err)
    case (Some e)
    with assms(1) c r g1(1) show ?thesis unfolding open_new_range_with_wallet_mix_def by auto
  next
    case None
    from assms(1) c r None have "(\<exists>e. r = Inl e \<and> g' = release_opt (Some sid) False g1) \<or> (\<exists>x. r = Inr x \<and> g' = release_opt (Some sid) True g1)"
      unfolding open_new_range_with_wallet_mix_def
      by (simp split: prod.splits sum.splits option.splits unit.splits) blast+
    with None g1 release_reserved [OF _ sid] show ?thesis by auto
  qed
qed

lemma recorded [simp]:
  "\<exists>ctx' row'. snd (record_rebalance ctx np pl_key row t) = snd (record_rebalance ctx' np pl_key row' t)"
  by blast

definition settled_as :: "rebalance_result \<Rightarrow> 'd lifecycle_tracker \<Rightarrow> open_guard \<Rightarrow> string \<Rightarrow> pubkey \<Rightarrow> rebalance_result \<Rightarrow> 'd lifecycle_tracker \<Rightarrow> open_guard \<Rightarrow> bool" where
  "settled_as r0 t g sid pl_key res t' g' \<longleftrightarrow> rs_old_position res = rs_old_position r0 \<and> rs_session_id res = rs_session_id r0
     \<and> rs_old_position_closed_on_chain res = rs_old_position_closed_on_chain r0
     \<and> (if rs_success res
        then rs_error res = None \<and> trim sid \<notin> og_completed g \<and> g' = g\<lparr>og_completed := insert (trim sid) (og_completed g)\<rparr>
           \<and> (\<exists>np ctx row. rs_new_position res = Some np \<and> t' = snd (record_rebalance ctx np pl_key row t))
        else rs_error res \<noteq> None \<and> rs_new_position res = None \<and> g' = g \<and> t' = t)"

lemma reopen_after_close_settled:
  assumes "reopen_after_close ops fl dc u env active sid before returned band p r0 t g w = Some (res, t', g', w')"
    and "trim sid \<noteq> []" "rs_new_position r0 = None" "rs_error r0 = None" "\<not> rs_success r0"
  shows "settled_as r0 t g sid (rb_pool p) res t' g'"
proof (cases "rx_pool env (rb_pool p) w")
  case (Pair x w1)
  show ?thesis
  proof (cases x)
    case (Inl e)
    with Pair assms show ?thesis by (auto simp: reopen_after_close_def settled_as_def failed_def)
  next
    case (Inr pl)
    obtain r g1 w2 where o: "open_new_range_with_wallet_mix ops fl dc u env active (rb_pool p) band returned (rb_position p) (Some sid) g w1 = (Some r, g1, w2)"
      using assms(1) Pair Inr
      by (cases "open_new_range_with_wallet_mix ops fl dc u env active (rb_pool p) band returned (rb_position p) (Some sid) g w1"; cases "fst (open_new_range_with_wallet_mix ops fl dc u env active (rb_pool p) band returned (rb_position p) (Some sid) g w1)")
        (auto simp: reopen_after_close_def)
    from open_new_range_guard [OF o assms(2)] o assms Pair Inr show ?thesis
      by (auto simp: reopen_after_close_def settled_as_def failed_def Let_def split: sum.splits prod.splits option.splits)
  qed
qed

text \<open>The reads, the clock, identifiers, sleeping and the diagnostic rows leave what \<open>obs\<close> shows of the world.\<close>

definition reads_quietly :: "('d, 'w) rebalance_env \<Rightarrow> ('w \<Rightarrow> 'o) \<Rightarrow> bool" where
  "reads_quietly env obs \<longleftrightarrow> (\<forall>w. obs (snd (rx_uuid env w)) = obs w) \<and> (\<forall>k w. obs (snd (rx_pool env k w)) = obs w)
     \<and> (\<forall>k w. obs (snd (rx_position env k w)) = obs w) \<and> (\<forall>k a b w. obs (snd (rx_reads env k a b w)) = obs w)
     \<and> (\<forall>e st pl_key pos sid w. obs (rx_diagnostic env e st pl_key pos sid w) = obs w)"

lemma reads_quietlyD:
  assumes "reads_quietly env obs"
  shows "rx_uuid env w = (x1, w') \<Longrightarrow> obs w' = obs w" "rx_pool env k w = (x2, w') \<Longrightarrow> obs w' = obs w"
    "rx_position env k w = (x3, w') \<Longrightarrow> obs w' = obs w" "rx_reads env k a b w = (x4, w') \<Longrightarrow> obs w' = obs w"
    "obs (rx_diagnostic env e st pl_key pos sid w) = obs w"
  using assms unfolding reads_quietly_def by (metis snd_conv)+

lemma widen_until_quoted_result:
  assumes "widen_until_quoted env quoted widen pl_key pos steps w = (r, w')" and "reads_quietly env obs"
  shows "obs w' = obs w \<and> (\<forall>band. r = Some (Some band) \<longrightarrow> quoted band = Some True \<and> band \<in> widen ` set steps)"
  using assms
proof (induction steps arbitrary: w)
  case (Cons step steps)
  then show ?case by (fastforce simp: reads_quietlyD(5) Let_def split: option.splits if_splits)
qed auto

text \<open>A range the rebalance may open: the intended one, or one of its widenings.\<close>

definition candidate_ranges :: "('d, 'w) rebalance_env \<Rightarrow> 'd whirlpool_state \<Rightarrow> 'd rebalance_params \<Rightarrow> (int \<times> int) list" where
  "candidate_ranges env pl p = (rb_new_tick_lower p, rb_new_tick_upper p)
     # (if reopen_auto_widen_enabled (rx_vars env)
        then map (widen_ticks_around_current (ws_tick_current pl) (ws_tick_spacing pl) (rb_new_tick_lower p) (rb_new_tick_upper p))
               [1 ..< unat (reopen_auto_widen_max_steps (rx_vars env)) + 1] else [])"

lemma preflight_range_result:
  assumes "preflight_range env quoted pl p w = (r, w')" and "reads_quietly env obs"
  shows "obs w' = obs w \<and> (\<forall>band. r = Some (Some band) \<longrightarrow> quoted band = Some True \<and> band \<in> set (candidate_ranges env pl p))"
  using assms(1) unfolding preflight_range_def candidate_ranges_def Let_def
  by (auto dest!: widen_until_quoted_result [OF _ assms(2)] split: option.splits if_splits)

lemma preflight_returned_quiet:
  "preflight_returned u fl env pl p fallback w = (r, w') \<Longrightarrow> reads_quietly env obs \<Longrightarrow> obs w' = obs w"
  by (auto simp: preflight_returned_def dest: reads_quietlyD(3) split: prod.splits sum.splits)

definition quote_accepts ::
    "'u u256_ops \<Rightarrow> float_fns \<Rightarrow> 'd whirlpool_state \<Rightarrow> int \<times> int \<Rightarrow> bool" where
  "quote_accepts u fl pl band \<longleftrightarrow>
     (\<exists>da db pa pb target q. quote_deposit_budget_in_range u fl (fst band) (snd band) (ws_tick_current pl) (ws_sqrt_price pl) da db pa pb target = Some (Inr q))"

lemma quote_accepts_contains: "quote_accepts u fl pl band \<Longrightarrow> fst band \<le> ws_tick_current pl \<and> ws_tick_current pl < snd band"
  by (auto simp: quote_accepts_def quote_deposit_budget_in_range_def split: if_splits)

lemma is_quoted_accepts: "is_quoted u fl pl view target band = Some True \<Longrightarrow> quote_accepts u fl pl band"
proof -
  assume a: "is_quoted u fl pl view target band = Some True"
  obtain i pa pb where v: "view = (i, pa, pb)" by (rule prod_cases3)
  from a obtain z where z: "quote_deposit_budget_in_range u fl (fst band) (snd band) (ws_tick_current pl) (ws_sqrt_price pl)
      (wi_decimals_a i) (wi_decimals_b i) pa pb target = Some z" "case z of Inr _ \<Rightarrow> True | Inl _ \<Rightarrow> False"
    by (auto simp: is_quoted_def v)
  then obtain q where "z = Inr q" by (cases z) auto
  with z(1) show ?thesis unfolding quote_accepts_def by blast
qed

lemma reopen_preflight_result:
  assumes "reopen_preflight ops fl dc u env active sid fallback p w = (r, w')" and q: "reads_quietly env obs"
    and "no_close_unless_reopen_feasible (rx_vars env)"
  shows "obs w' = obs w"
    and "r = Some (Inr band) \<Longrightarrow> \<exists>pl. fst (rx_pool env (rb_pool p) w) = Inr pl \<and> band \<in> set (candidate_ranges env pl p) \<and> quote_accepts u fl pl band"
proof -
  note quiet = preflight_range_result [OF _ q] preflight_returned_quiet [OF _ q]
  from assms(1,3) show "obs w' = obs w" unfolding reopen_preflight_def Let_def
    by (auto simp: reads_quietlyD(5) [OF q] dest!: reads_quietlyD(2,4) [OF q] quiet split: option.splits prod.splits sum.splits if_splits)
  assume "r = Some (Inr band)"
  with assms(1,3) show "\<exists>pl. fst (rx_pool env (rb_pool p) w) = Inr pl \<and> band \<in> set (candidate_ranges env pl p) \<and> quote_accepts u fl pl band"
    unfolding reopen_preflight_def Let_def
    by (simp split: option.splits prod.splits sum.splits if_splits) (blast dest: quiet is_quoted_accepts)
qed

lemma unopened_simps [simp]:
  "\<not> rs_success (unopened pos sid)" "\<not> rs_old_position_closed_on_chain (unopened pos sid)" "rs_old_position (unopened pos sid) = pos"
  "rs_new_position (unopened pos sid) = None" "rs_error (unopened pos sid) = None" "rs_session_id (unopened pos sid) = sid"
  by (simp_all add: unopened_def)

lemma failed_simps [simp]:
  "rs_success (failed e res) = rs_success res" "rs_old_position_closed_on_chain (failed e res) = rs_old_position_closed_on_chain res"
  "rs_old_position (failed e res) = rs_old_position res" "rs_new_position (failed e res) = rs_new_position res"
  "rs_error (failed e res) = Some e" "rs_session_id (failed e res) = rs_session_id res"
  by (simp_all add: failed_def)

lemma read_close_amounts_quiet:
  assumes "read_close_amounts_best_effort u fl env pos pl_key w = (r, w')" and "reads_quietly env obs"
  shows "obs w' = obs w"
  using assms(1) by (auto simp: read_close_amounts_best_effort_def dest!: reads_quietlyD(2,3) [OF assms(2)] split: prod.splits sum.splits)

text \<open>Whether the close was sent and what came of it.\<close>

definition close_sent ::
    "('d, 'w) rebalance_env \<Rightarrow> 'd rebalance_params \<Rightarrow> string \<Rightarrow> int \<times> int \<Rightarrow> 'w \<Rightarrow> rebalance_result \<Rightarrow> 'w \<Rightarrow> bool" where
  "close_sent env p sid band w res w' \<longleftrightarrow> (\<exists>closing. case rx_close env (rb_position p) (rb_pool p) sid band closing w of
     (Inl e, w1) \<Rightarrow> \<not> rs_old_position_closed_on_chain res \<and> rs_error res = Some e \<and> w' = w1
   | (Inr _, _) \<Rightarrow> rs_old_position_closed_on_chain res)"

lemma close_sentI:
  "rx_close env (rb_position p) (rb_pool p) sid band closing w = (x, w1)
    \<Longrightarrow> (case x of Inl e \<Rightarrow> \<not> rs_old_position_closed_on_chain res \<and> rs_error res = Some e \<and> w' = w1 | Inr _ \<Rightarrow> rs_old_position_closed_on_chain res)
    \<Longrightarrow> close_sent env p sid band w res w'"
  unfolding close_sent_def by (rule exI [of _ closing]) (simp split: sum.splits)

lemma close_and_reopen_settled:
  assumes "close_and_reopen ops fl dc u env active sid before band p t g w = Some (res, t', g', w')" and sid: "trim sid \<noteq> []"
  shows "settled_as (unopened (rb_position p) (Some sid)\<lparr>rs_old_position_closed_on_chain := rs_old_position_closed_on_chain res\<rparr>) t g sid (rb_pool p) res t' g'"
    and "rs_success res \<Longrightarrow> rs_old_position_closed_on_chain res"
    and "reads_quietly env obs \<Longrightarrow> \<exists>w1. obs w1 = obs w \<and> close_sent env p sid band w1 res w'"
proof -
  let ?r = "unopened (rb_position p) (Some sid)\<lparr>rs_liquidity_removed := rb_current_liquidity p\<rparr>"
  obtain am w1 where a: "read_close_amounts_best_effort u fl env (rb_position p) (rb_pool p) w = (Some am, w1)"
    using assms(1) by (cases "read_close_amounts_best_effort u fl env (rb_position p) (rb_pool p) w"; cases "fst (read_close_amounts_best_effort u fl env (rb_position p) (rb_pool p) w)")
      (auto simp: close_and_reopen_def Let_def)
  define c where "c = (case am of Inr ab \<Rightarrow> ab | Inl _ \<Rightarrow> before)"
  obtain x w2 where x: "rx_close env (rb_position p) (rb_pool p) sid band c w1 = (x, w2)" by fastforce
  have "settled_as (unopened (rb_position p) (Some sid)\<lparr>rs_old_position_closed_on_chain := rs_old_position_closed_on_chain res\<rparr>) t g sid (rb_pool p) res t' g'
    \<and> (rs_success res \<longrightarrow> rs_old_position_closed_on_chain res) \<and> close_sent env p sid band w1 res w'"
  proof (cases x)
    case (Inl e)
    with assms(1) a x close_sentI [OF x] show ?thesis unfolding close_and_reopen_def
      by (auto simp: settled_as_def c_def [symmetric])
  next
    case (Inr fees)
    with assms(1) a x have r: "reopen_after_close ops fl dc u env active sid before
        (saturating_add_w (fst c) (fst fees), saturating_add_w (snd c) (snd fees)) band p
        (?r\<lparr>rs_old_position_closed_on_chain := True, rs_tx_cost_lamports := 5000\<rparr>) t g w2 = Some (res, t', g', w')"
      unfolding close_and_reopen_def by (simp add: c_def [symmetric])
    from reopen_after_close_settled [OF r sid] Inr close_sentI [OF x] show ?thesis by (auto simp: settled_as_def)
  qed
  then show "settled_as (unopened (rb_position p) (Some sid)\<lparr>rs_old_position_closed_on_chain := rs_old_position_closed_on_chain res\<rparr>) t g sid (rb_pool p) res t' g'"
    and "rs_success res \<Longrightarrow> rs_old_position_closed_on_chain res"
    and "reads_quietly env obs \<Longrightarrow> \<exists>w1. obs w1 = obs w \<and> close_sent env p sid band w1 res w'"
    using read_close_amounts_quiet [OF a] by auto
qed

text \<open>A live rebalance stops before the close with an error, or goes through the close with the range of its check.\<close>

lemma execute_live_cases:
  assumes "execute_live ops fl dc u env p sid t g w = Some (res, t', g', w')" and "reads_quietly env obs"
  obtains (stopped) e where "res = failed e (unopened (rb_position p) (Some sid))" "t' = t" "g' = g"
      "no_close_unless_reopen_feasible (rx_vars env) \<longrightarrow> obs w' = obs w"
  | (went_on) active before band w1 w2 where "obs w1 = obs w" "reopen_preflight ops fl dc u env active sid before p w1 = (Some (Inr band), w2)"
      "profitability_gate ops env p = Some None" "close_and_reopen ops fl dc u env active sid before band p t g w2 = Some (res, t', g', w')"
proof -
  obtain chain w1 where w1: "(case rx_chain_of env (rx_show env (rb_position p)) w of Some c \<Rightarrow> (c, w) | None \<Rightarrow> rx_uuid env w) = (chain, w1)" by fastforce
  then have o: "obs w1 = obs w" using reads_quietlyD(1) [OF assms(2)] by (auto split: option.splits)
  obtain stop where gate: "profitability_gate ops env p = Some stop" using assms(1) w1 by (cases "profitability_gate ops env p") (auto simp: execute_live_def Let_def)
  show ?thesis
  proof (cases stop)
    case (Some msg)
    with assms(1) w1 gate o stopped [of msg] show ?thesis by (simp add: execute_live_def Let_def)
  next
    case None
    with gate have gate: "profitability_gate ops env p = Some None" by simp
    with assms(1) w1 obtain before where b: "calculate_token_amounts u fl (position_of p) (rb_pool_tick_current p) (rb_pool_sqrt_price p) = Some before"
      by (cases "calculate_token_amounts u fl (position_of p) (rb_pool_tick_current p) (rb_pool_sqrt_price p)") (auto simp: execute_live_def Let_def)
    obtain x w2 where x: "reopen_preflight ops fl dc u env (Some chain) sid before p w1 = (x, w2)" by fastforce
    then obtain y where y: "x = Some y" using assms(1) w1 gate b by (cases x) (auto simp: execute_live_def Let_def)
    show ?thesis
    proof (cases y)
      case (Inl e)
      with assms(1) w1 gate b x y o reopen_preflight_result(1) [OF x assms(2)] stopped [of e] show ?thesis by (simp add: execute_live_def Let_def)
    next
      case (Inr band)
      with assms(1) w1 gate b x y o went_on [of w1 "Some chain" before band w2] show ?thesis by (simp add: execute_live_def Let_def)
    qed
  qed
qed

text \<open>C3. The outcome of a live rebalance. A rebalance of a named session succeeds exactly if it opened a new position;
  then the old one was closed, no error is reported, the session had not been opened in this process and is
  now marked as opened, and one rebalance of the new position is added to its lifecycle. Without a new position an
  error is reported, the lifecycle is unchanged, and the session is reserved and marked as it was before, so that a
  recovery may still open it.\<close>

theorem rebalance_outcomes:
  assumes "execute_live ops fl dc u env p sid t g w = Some (res, t', g', w')" and "trim sid \<noteq> []"
  shows "rs_old_position res = rb_position p \<and> rs_session_id res = Some sid
    \<and> (if rs_success res
       then rs_old_position_closed_on_chain res \<and> rs_error res = None
          \<and> trim sid \<notin> og_completed g \<and> g' = g\<lparr>og_completed := insert (trim sid) (og_completed g)\<rparr>
          \<and> (\<exists>np ctx row. rs_new_position res = Some np \<and> t' = snd (record_rebalance ctx np (rb_pool p) row t))
       else rs_error res \<noteq> None \<and> rs_new_position res = None \<and> g' = g \<and> t' = t)"
proof -
  have "reads_quietly env (\<lambda>_. ())" by (simp add: reads_quietly_def)
  from assms(1) this show ?thesis
  proof (cases rule: execute_live_cases)
    case (stopped e)
    then show ?thesis by simp
  next
    case (went_on active before band w1 w2)
    from close_and_reopen_settled(1,2) [OF went_on(4) assms(2)] show ?thesis by (auto simp: settled_as_def simp del: not_None_eq split: if_splits)
  qed
qed

text \<open>C2. Nothing is closed that cannot be reopened. With the check on (the default), a live rebalance either stops with an error and
  without an effect, or it passed the profitability gate and sends the close as its first effect, for a range
  that contains the current tick of the pool it read, is the intended one or a widening of it, and has a deposit quote. \<open>obs\<close> is any
  observation of the world that the reads and the diagnostic rows leave unchanged.\<close>

theorem close_needs_quote:
  assumes "execute_live ops fl dc u env p sid t g w = Some (res, t', g', w')" and "trim sid \<noteq> []"
    and "reads_quietly env obs" and "no_close_unless_reopen_feasible (rx_vars env)"
  shows "\<not> rs_old_position_closed_on_chain res \<and> rs_error res \<noteq> None \<and> obs w' = obs w
    \<or> profitability_gate ops env p = Some None
      \<and> (\<exists>w1 pl band w2. obs w1 = obs w \<and> fst (rx_pool env (rb_pool p) w1) = Inr pl \<and> band \<in> set (candidate_ranges env pl p)
           \<and> fst band \<le> ws_tick_current pl \<and> ws_tick_current pl < snd band \<and> quote_accepts u fl pl band
           \<and> obs w2 = obs w \<and> close_sent env p sid band w2 res w')"
  using assms(1,3)
proof (cases rule: execute_live_cases)
  case (stopped e)
  with assms(4) show ?thesis by simp
next
  case (went_on active before band w1 w2)
  note pre = reopen_preflight_result [OF went_on(2) assms(3,4)]
  from pre(2) [OF refl] obtain pl where pl: "fst (rx_pool env (rb_pool p) w1) = Inr pl" "band \<in> set (candidate_ranges env pl p)"
    "quote_accepts u fl pl band" by blast
  from close_and_reopen_settled(3) [OF went_on(4) assms(2,3)] obtain w3 where "obs w3 = obs w2" "close_sent env p sid band w3 res w'" by blast
  with went_on(1,3) pre(1) pl quote_accepts_contains [OF pl(3)] show ?thesis by metis
qed

text \<open>A world that counts what reaches the chain. Its floating-point powers are not numbers, so that the value of the
  closed position is unknown; the pool has left the range, so that no quote is given.\<close>

definition demo_pool :: "rat whirlpool_state" where
  "demo_pool = \<lparr>ws_address = [], ws_token_mint_a = [3], ws_token_mint_b = [4], ws_token_vault_a = [], ws_token_vault_b = [], ws_tick_current = 64,
     ws_tick_spacing = 64, ws_sqrt_price = 2 ^ 64, ws_price = 1, ws_liquidity = 0, ws_fee_rate_bps = 0, ws_protocol_fee_rate_bps = 0,
     ws_protocol_fee_owed_a = 0, ws_protocol_fee_owed_b = 0, ws_fee_growth_global_a = 0, ws_fee_growth_global_b = 0\<rparr>"

definition demo_rebalance_env :: "string \<Rightarrow> (rat, nat) rebalance_env" where
  "demo_rebalance_env check_first = \<lparr>rx_vars = [''CLMM_NO_CLOSE_UNLESS_REOPEN_FEASIBLE'' \<mapsto> check_first, ''CLMM_REOPEN_AUTO_WIDEN_TICKS'' \<mapsto> ''0''],
     rx_parse_f64 = (\<lambda>_. None), rx_powi10 = (\<lambda>_. Some 1), rx_show = (\<lambda>_. ''key''), rx_show_dec = (\<lambda>_. []), rx_wallet = Some [9],
     rx_config = rebalance_config_from_env rat_ops (\<lambda>_. None),
     rx_capital = (\<lambda>_. \<lparr>ctx_env = [''CLMM_REOPEN_USE_CHAIN_PORTFOLIO'' \<mapsto> ''0''], ctx_from_str = (\<lambda>_. None), ctx_ledger_file = None, ctx_chain_db = None, ctx_session_db = None\<rparr>),
     rx_chain_of = (\<lambda>_ _. None), rx_json = (\<lambda>_. None), rx_lifecycle_file = (\<lambda>_. None), rx_parse_time = (\<lambda>_. None),
     rx_clock = (\<lambda>w. (0, w)), rx_uuid = (\<lambda>w. (''chain'', w)),
     rx_ctx = (\<lambda>w. (\<lparr>ctx_id = [], ctx_now = 0, ctx_row_time = [], ctx_show_dec = (\<lambda>_. []), ctx_show_key = (\<lambda>_. []),
       ctx_session_env = None, ctx_write_ok = (\<lambda>_ _. True)\<rparr>, w)),
     rx_pool = (\<lambda>_ w. (Inr demo_pool, w)), rx_position = (\<lambda>_ w. (Inl ''gone'', w)),
     rx_reads = (\<lambda>_ _ _ w. (\<lparr>cr_decimals_a = None, cr_decimals_b = None, cr_balance_a = 0, cr_balance_b = 0, cr_native = None\<rparr>, w)),
     rx_sleep = (\<lambda>_ w. w), rx_diagnostic = (\<lambda>_ _ _ _ _ w. w), rx_below_text = (\<lambda>_ _ _ _. []), rx_caps_text = (\<lambda>_. []),
     rx_close = (\<lambda>_ _ _ _ _ w. (Inr (0, 0), Suc w)), rx_swap_mix = (\<lambda>_ _ _ _ _ _ _ w. (Inr 0, w)),
     rx_open = (\<lambda>_ _ _ _ _ _ _ w. (Inr [7], Suc w)), rx_topup = (\<lambda>_ _ _ _ _ _ _ w. w)\<rparr>"

definition demo_params :: "rat rebalance_params" where
  "demo_params = \<lparr>rb_position = [1], rb_pool = [2], rb_current_tick_lower = 0, rb_current_tick_upper = 64, rb_new_tick_lower = 0,
     rb_new_tick_upper = 64, rb_current_liquidity = 5, rb_pool_tick_current = 64, rb_pool_sqrt_price = 2 ^ 64, rb_reason = RrPeriodic,
     rb_current_il_pct = 0, rb_amount_a_before = None, rb_amount_b_before = None, rb_price_ab_before = None, rb_amount_a_after = None,
     rb_amount_b_after = None, rb_price_ab_after = None, rb_optimization_run_id = None\<rparr>"

abbreviation demo_floats :: float_fns where
  "demo_floats \<equiv> two_ticks\<lparr>f64_powi := \<lambda>_ _. F64_NaN\<rparr>"

lemma f64_div_NaN [simp]: "f64_div x F64_NaN = F64_NaN"
  by (cases x) simp_all

lemmas demo_defs = demo_rebalance_env_def demo_params_def demo_pool_def

lemma demo_not_profitability: "profitability_gate rat_json (demo_rebalance_env c) demo_params = Some None"
  by (simp add: demo_defs profitability_gate_def rebalance_config_from_env_def rebalance_profitability_mode_from_env_def)

lemma demo_amounts: "\<exists>b. calculate_token_amounts word_ops demo_floats (position_of demo_params) 64 s = Some (0, b)"
  by (simp add: calculate_token_amounts_def position_of_def demo_params_def)

lemma demo_flags [simp]: "\<not> env_truthy ''0''" "env_falsy ''0''" "env_truthy ''1''"
  by code_simp+

lemma demo_caps: "portfolio_caps_for_reopen rat_json (demo_rebalance_env c) active (Some ''s'') pos w = Some None"
  by (simp add: portfolio_caps_for_reopen_def demo_rebalance_env_def load_reopen_portfolio_caps_def trimmed_def chain_portfolio_enabled_def
      reopen_use_chain_portfolio_env_def load_session_mint_caps_def reopen_use_session_capital_def)

lemma demo_view: "\<exists>i pa pb. wallet_view rat_json rat_conv (demo_rebalance_env c) None demo_pool r = Some (i, pa, pb)"
  by (simp add: wallet_view_def synthetic_prices_for_deposit_quote_def demo_defs Let_def rat_json_def split: prod.split)

lemma demo_unquoted: "quote_deposit_budget_in_range u fl 0 64 64 sp da db pa pb target
    = Some (Inl ''current_tick must satisfy tick_lower <= current_tick < tick_upper (price in range)'')"
  by (simp add: quote_deposit_budget_in_range_def)

lemma demo_stopped:
  "\<exists>e. execute_live rat_json demo_floats rat_conv word_ops (demo_rebalance_env ''1'') demo_params ''s'' t g w
     = Some (failed e (unopened [1] (Some ''s'')), t, g, w)"
proof -
  let ?env = "demo_rebalance_env ''1''"
  obtain b where b: "calculate_token_amounts word_ops demo_floats (position_of demo_params) 64 (2 ^ 64) = Some (0, b)" using demo_amounts by blast
  obtain i pa pb where v: "wallet_view rat_json rat_conv ?env None demo_pool
      \<lparr>cr_decimals_a = None, cr_decimals_b = None, cr_balance_a = 0, cr_balance_b = 0, cr_native = None\<rparr> = Some (i, pa, pb)" using demo_view by blast
  have "\<exists>e. reopen_preflight rat_json demo_floats rat_conv word_ops ?env (Some ''chain'') ''s'' (0, b) demo_params w = (Some (Inl e), w)"
    using v demo_caps [of "''1''" "Some ''chain''" "[1]" w]
    by (simp add: reopen_preflight_def preflight_returned_def preflight_range_def is_quoted_def demo_unquoted demo_defs
        no_close_unless_reopen_feasible_def reopen_auto_widen_enabled_def env_on_by_default_def)
  with b demo_not_profitability [of "''1''"] show ?thesis
    by (auto simp: execute_live_def demo_defs Let_def)
qed

lemma demo_worthless: "\<not> known_value (prev_end_value_usd_from_close_amounts demo_floats a b da db pa pb)"
  by (simp add: known_value_def prev_end_value_usd_from_close_amounts_def ui_from_raw_def)

lemma demo_opened:
  "\<exists>res t' g'. execute_live rat_json demo_floats rat_conv word_ops (demo_rebalance_env ''0'') demo_params ''s'' t new_guard 0
     = Some (res, t', g', 2) \<and> rs_success res"
proof -
  let ?env = "demo_rebalance_env ''0''" and ?r = "\<lparr>cr_decimals_a = None, cr_decimals_b = None, cr_balance_a = 0, cr_balance_b = 0, cr_native = None\<rparr>"
  obtain b where b: "calculate_token_amounts word_ops demo_floats (position_of demo_params) 64 (2 ^ 64) = Some (0, b)" using demo_amounts by blast
  obtain i pa pb where v: "wallet_view rat_json rat_conv ?env None demo_pool ?r = Some (i, pa, pb)" using demo_view by blast
  have caps: "portfolio_caps_for_reopen rat_json ?env (Some ''chain'') (Some ''s'') [1] w = Some None" for w by (rule demo_caps)
  have refresh: "refresh_loop rat_json demo_floats rat_conv ?env None [2] [9] (x, y) [1] (Some ''s'') (Suc n) z w = (Some (Inr ()), w)" for x y z n w
    using v demo_worthless by (simp add: demo_defs Let_def split: prod.split)
  have attempt: "open_attempt rat_json demo_floats rat_conv word_ops ?env None [2] (0, 64) [9] (x, y) [1] (Some ''s'') 1 False w = (Some (Inr [7]), Suc w)" for x y w
    using v by (simp add: open_attempt_def figures_of_def demo_unquoted caps_cover_quote_def demo_defs Let_def split: prod.split)
  have n: "unat (reopen_wallet_refresh_attempts (rx_vars ?env)) = Suc 2" "unat (rebalance_open_max_attempts (rx_vars ?env)) = Suc 4"
    by (simp_all add: reopen_wallet_refresh_attempts_def rebalance_open_max_attempts_def env_u32_in_def demo_rebalance_env_def)
  have wallet: "wallet_notional_refresh_until_reopen_target_met rat_json demo_floats rat_conv ?env (Some ''chain'') [2] [9] (x, y) [1] (Some ''s'') w
     = (Some (Inr ()), w)" for x y w
    unfolding wallet_notional_refresh_until_reopen_target_met_def caps n using refresh [of x y 2] by (simp del: refresh_loop.simps)
  have res: "reserve_session ?env [2] [1] (Some ''s'') new_guard w = (None, new_guard\<lparr>og_inflight := {''s''}\<rparr>, w)" for w
    by (simp add: reserve_session_def trimmed_def trim_def is_space_def try_reserve_open_session_def new_guard_def demo_rebalance_env_def
        session_has_bot_open_position_def)
  have o: "\<exists>g'. open_new_range_with_wallet_mix rat_json demo_floats rat_conv word_ops ?env (Some ''chain'') [2] (0, 64) (x, y) [1] (Some ''s'') new_guard w
     = (Some (Inr ([7], 0)), g', Suc w)" for x y w
  proof -
    have "open_attempts rat_json demo_floats rat_conv word_ops ?env None [2] (0, 64) [9] (x, y) [1] (Some ''s'') (Suc 4) 1 None False w = (Some (Inr [7]), Suc w)"
      by (simp only: open_attempts.simps attempt prod.case option.case sum.case)
    moreover have "rx_wallet ?env = Some [9]" "rx_swap_mix ?env [2] (0, 64) [9] (x, y) [1] (Some ''s'') None w = (Inr 0, w)"
      by (simp_all add: demo_rebalance_env_def)
    ultimately show ?thesis by (simp add: open_new_range_with_wallet_mix_def caps res wallet n del: open_attempts.simps split: unit.split)
  qed
  show ?thesis
    using b o [of "saturating_add_w 0 0" "saturating_add_w b 0" 1] demo_not_profitability [of "''0''"]
    by (auto simp: execute_live_def close_and_reopen_def reopen_after_close_def reopen_preflight_def read_close_amounts_best_effort_def state_after_def
        demo_defs no_close_unless_reopen_feasible_def env_on_by_default_def Let_def)
qed

theorem rebalance_outcomes_witness:
  "\<exists>res t' g'. execute_live rat_json demo_floats rat_conv word_ops (demo_rebalance_env ''0'') demo_params ''s'' new_tracker new_guard 0
     = Some (res, t', g', 2) \<and> rs_success res \<and> rs_old_position_closed_on_chain res \<and> rs_error res = None
     \<and> og_completed g' = {''s''} \<and> og_inflight g' = {}"
proof -
  obtain res t' g' where r: "execute_live rat_json demo_floats rat_conv word_ops (demo_rebalance_env ''0'') demo_params ''s'' new_tracker new_guard 0
     = Some (res, t', g', 2)" "rs_success res" using demo_opened by blast
  have s: "trim ''s'' = ''s''" by code_simp
  from rebalance_outcomes [OF r(1)] r s show ?thesis by (auto simp: new_guard_def)
qed

theorem close_needs_quote_witness:
  "\<exists>res t' g' w'. execute_live rat_json demo_floats rat_conv word_ops (demo_rebalance_env ''1'') demo_params ''s'' new_tracker new_guard 0
     = Some (res, t', g', w') \<and> \<not> rs_old_position_closed_on_chain res \<and> rs_error res \<noteq> None \<and> w' = 0"
proof -
  obtain e where r: "execute_live rat_json demo_floats rat_conv word_ops (demo_rebalance_env ''1'') demo_params ''s'' new_tracker new_guard 0
     = Some (failed e (unopened [1] (Some ''s'')), new_tracker, new_guard, 0)" using demo_stopped by blast
  have s: "trim ''s'' \<noteq> []" "reads_quietly (demo_rebalance_env ''1'') id" "no_close_unless_reopen_feasible (rx_vars (demo_rebalance_env ''1''))"
    by (code_simp, simp_all add: reads_quietly_def demo_rebalance_env_def no_close_unless_reopen_feasible_def env_on_by_default_def)
  have "\<not> close_sent (demo_rebalance_env ''1'') demo_params ''s'' band w2 (failed e (unopened [1] (Some ''s''))) 0" for band w2
    by (simp add: close_sent_def demo_rebalance_env_def)
  with close_needs_quote [OF r s] r show ?thesis by auto
qed

end
