(* ===== verification/Spec2Isabelle.thy ===== *)
theory Spec2Isabelle
  imports Rpc_Send Transaction_Manager Memory_Cache File_Cache Scheduler Circuit_Breaker Emergency_Exit
    Account_Sync Whirlpool Tick_Array Swap_Events Q64_Math Constant_Product Decision_Engine
    Session_Capital Alerts Lifecycle Position_Monitor Monitor_Records Pending_Open Price_Bands Fee_Checkpoints Strategy_Executor Managed_Set Executor_Safety Operator_Calls
    Executor_Outcomes Executor_Isolation Position_Tracker Deposit_Quote Reopen_Plan Open_Guard Rebalance_Flow
begin

text \<open>
  DexAnalitics (CLMM liquidity provider): a verification library.

  The repository is a Rust workspace that watches, simulates and operates concentrated-liquidity
  positions on Solana exchanges. Its crates are \<^verbatim>\<open>domain\<close> (token, price and liquidity mathematics),
  \<^verbatim>\<open>protocols\<close> (the RPC provider and the on-chain formats), \<^verbatim>\<open>data\<close> (market data, caches, SQL
  repositories, session wallets), \<^verbatim>\<open>execution\<close> (transactions, monitoring, strategies, scheduling, emergency
  handling), \<^verbatim>\<open>simulation\<close> and \<^verbatim>\<open>optimization\<close> (backtests), and the two front ends \<^verbatim>\<open>api\<close> and
  \<^verbatim>\<open>cli\<close>. This library models the bot that operates positions, from the call of an endpoint up to the
  loop that rebalances, the accounting of the money it moves, and the simulators of its strategies.

  \<^bold>\<open>How the parts interact.\<close>
  \<^item> The strategy executor evaluates the monitored positions one after the other. It skips those outside its
    managed set, builds a context from the position, the pool, recent prices and the lifecycle, and
    asks the decision engine. A decision is carried out by the rebalance executor unless the executor
    may not act or runs dry.
  \<^item> A rebalance first checks that the position can be reopened (profitability gate, deposit quote,
    widening of the range), closes it, waits until the wallet shows the money, mixes the tokens by swaps and opens the
    new range with retries; a guard allows one opening per rebalance session. If the close succeeded
    and the opening did not, the executor queues a pending opening, which later ticks recover.
  \<^item> What a position did is recorded by the lifecycle tracker and in ledger files. Rows of these files are posted to
    the general ledger of the session wallets, whose balances, together with stored rows, cap the
    capital of a reopening.
  \<^item> The monitor reads positions and pools, computes the loss against the entry and raises alerts. The alert rules
    engine has its own cooldowns and notifiers.
  \<^item> Transactions are built, simulated, sent with retries and confirmed by the transaction manager. Each RPC call
    goes through the retry and failover loop of the provider, which chooses endpoints from its
    configuration and the records of the health checker. The provider also has a
    send-and-confirm operation that keeps one transaction on one endpoint at a time.
  \<^item> Accounts are decoded by the Whirlpool and tick-array readers, swap events from transaction logs;
    the account listener and the reconciler track which accounts are out of date. The circuit breaker
    stops a failing bot, the emergency exit unwinds positions, the scheduler triggers recurring
    work, the caches keep provider answers.
  \<^item> The simulators run strategies of the same kind over price paths; the position tracker values a position by
    segments.

  \<^bold>\<open>Theories, sources and state.\<close> Paths are below \<^verbatim>\<open>src/crates\<close>. Definitions keep the names of the
  Rust items; a prefix or suffix is added where two components use the same name.
  \<^item> \<open>Prelude\<close>: machine integers, time, hash maps, substring search, byte readers. \<open>Interfaces\<close>: the
    locales \<open>guarded_system\<close> (operations that keep an invariant) and \<open>retry_loop\<close> (a bounded retry
    loop around a fallible attempt). \<open>F64\<close>, \<open>F64_Order\<close>: IEEE 754 binary64 with one correct rounding per
    operation, and its monotonicity. \<open>Decimals\<close>: the interface of \<^verbatim>\<open>rust_decimal\<close>. \<open>Json\<close>: JSON values and ordered maps.
  \<^item> \<open>Rpc_Config\<close>, \<open>Rpc_Cluster\<close>, \<open>Rpc_Health\<close>, \<open>Rpc_Provider\<close>, \<open>Rpc_Send\<close>:
    \<^verbatim>\<open>protocols/src/rpc\<close>. The state is a provider record: the configuration, the health checker
    (two hash maps) and the index of the current endpoint.
  \<^item> \<open>Transaction_Manager\<close>: \<^verbatim>\<open>execution/src/transaction\<close>, on top of \<open>Rpc_Provider\<close>.
  \<^item> \<open>Cache_Types\<close>, \<open>Memory_Cache\<close>, \<open>File_Cache\<close>: \<^verbatim>\<open>data/src/cache\<close>. The trait \<^verbatim>\<open>Cache\<close> is the locale
    \<open>cache_contract\<close>; \<open>exact_cache\<close> extends it for caches that never evict. The state is the entry
    table, or the index together with the files of the cache directory.
  \<^item> \<open>Scheduler\<close>: \<^verbatim>\<open>execution/src/scheduler\<close>, the asynchronous loop as a step relation with the
    consumer of its bounded channel. \<open>Circuit_Breaker\<close>, \<open>Emergency_Exit\<close>: \<^verbatim>\<open>execution/src/emergency\<close>.
    \<open>Account_Sync\<close>: \<^verbatim>\<open>execution/src/sync\<close>, reconciler and account listener.
  \<^item> \<open>Whirlpool\<close>, \<open>Tick_Array\<close>, \<open>Pool_Reader\<close>, \<open>Position_Reader\<close>: the readers of \<^verbatim>\<open>protocols/src/orca\<close>.
    \<open>Swap_Events\<close>: the three swap event parsers of \<^verbatim>\<open>protocols/src/events\<close>.
  \<^item> \<open>Q64_Math\<close>: the module \<^verbatim>\<open>q64_64\<close> of \<^verbatim>\<open>domain/src/math/concentrated_liquidity.rs\<close>; \<open>Constant_Product\<close>:
    \<^verbatim>\<open>constant_product.rs\<close>; \<open>Impermanent_Loss\<close>: the decimal formulas and \<^verbatim>\<open>domain/src/metrics/impermanent_loss.rs\<close>.
    \<open>Deposit_Quote\<close>: \<^verbatim>\<open>protocols/src/orca/deposit_quote.rs\<close>.
  \<^item> \<open>Session_Deltas\<close>, \<open>Session_Ledger\<close>, \<open>Ledger_Refinement\<close>, \<open>Session_Caps\<close>: \<^verbatim>\<open>data/src/wallet_session.rs\<close>, the
    postings of a row, the three ledger tables, the refinement of the sums of rows by the tables (the locales
    \<open>posting_scope\<close> and \<open>ledger_scope\<close>, interpreted for sessions and for chains), and the caps.
    \<open>Session_Capital\<close>: \<^verbatim>\<open>execution/src/strategy/session_capital.rs\<close>.
  \<^item> \<open>Positions\<close>, \<open>Position_Monitor\<close>, \<open>Monitor_Records\<close>: \<^verbatim>\<open>execution/src/monitor\<close>. \<open>Alerts\<close>: \<^verbatim>\<open>execution/src/alerts\<close>.
    \<open>Lifecycle\<close>: \<^verbatim>\<open>execution/src/lifecycle\<close>. \<open>Fee_Checkpoints\<close>: the rows of fee checkpoints.
  \<^item> \<open>Decision_Engine\<close>, \<open>Price_Bands\<close>, \<open>Pending_Open\<close>, \<open>Strategy_Executor\<close>: \<^verbatim>\<open>execution/src/strategy\<close>, decisions, the
    price bands, the queue of pending openings and the executor. The state of the executor is the record
    \<open>strategy_executor\<close>; a tick of the loop is \<open>executor_tick\<close>. \<open>Operator_Calls\<close>: the calls by which an operator opens, swaps, closes, decreases
    or collects through the executor. \<open>Managed_Set\<close>, \<open>Executor_Safety\<close>,
    \<open>Executor_Outcomes\<close>, \<open>Executor_Isolation\<close> and the end of \<open>Operator_Calls\<close> hold the properties of the executor.
  \<^item> \<open>Reopen_Plan\<close>, \<open>Open_Guard\<close>, \<open>Rebalance_Flow\<close>: \<^verbatim>\<open>execution/src/strategy/rebalance.rs\<close>, settings, sizing and ticks of a
    reopening; the guard of the openings with its critical sections as a step relation; the live rebalance
    (\<open>execute_live\<close>) and the recovery (\<open>recover_live\<close>).
  \<^item> \<open>Sim_Strategies\<close>, \<open>Simulator\<close>, \<open>Simulator_Laws\<close>, \<open>Position_Tracker\<close>: \<^verbatim>\<open>simulation/src\<close>. The trait of the
    strategies is the locale \<open>rebalance_strategy\<close>.

  \<^bold>\<open>What is shown.\<close>
  \<^item> \<^emph>\<open>Rebalancing\<close>: with the check on, nothing is closed for which no deposit quote exists; success means a closed
    and an opened position, failure leaves lifecycle and guard as they were; the openings of a session never overlap; a
    recovery with widening enabled opens a range that contains the current tick; the deposit quote returns and is optimal
    (\<open>Rebalance_Flow\<close>, \<open>Open_Guard\<close>, \<open>Reopen_Plan\<close>, \<open>Deposit_Quote\<close>).
  \<^item> \<^emph>\<open>Executor\<close>: the managed set never grows, nothing is sent in a dry run, not even by an operator, and nothing
    by the loop without \<^verbatim>\<open>auto_execute\<close>; unmanaged positions are untouched, an
    incomplete rebalance is queued, a rebalance is followed by the waiting time where the strategy has one, a recovery pass drops an
    opening only for a reason, and what a decision requires.
  \<^item> \<^emph>\<open>Accounting\<close>: the tables of the ledger refine the sums of rows, are balanced, and reposting a recorded row changes
    nothing; the sums of a session without swaps and double debits are never negative; the caps of a session are those of its posted rows; a strict chain portfolio never
    falls back; the lifecycle log holds the events of the operations, and summaries replay it.
  \<^item> \<^emph>\<open>Sending\<close>: both send-and-confirm operations return for every environment whose clock advances
    while they sleep, and a success they report was sent and confirmed without an on-chain error. The
    number of attempts, the error returned and the endpoints tried are determined exactly.
  \<^item> \<^emph>\<open>Endpoints, safety devices, caches, scheduling\<close>: disabled endpoints are never chosen, and a call disables exactly those
    that refused one of its attempts; when the breaker opens,
    how long it blocks and how it closes; capacity, eviction and persistence of the caches, and that
    memory and single-file cache are interchangeable (below); the events delivered to a consumer and the spacing of
    interval tasks; exactly which alerts the rules return under their cooldowns; the update of a monitored position for every outcome of its reads.
  \<^item> \<^emph>\<open>Decoding and arithmetic\<close>: the two Whirlpool parsers agree, the tick reader finds the entry of a tick, fee
    growth is exact modulo \<open>2 ^ 128\<close>; liquidity is the exact quotient, the binary search over the value split is
    optimal, a constant product swap never shrinks the product, price bands contain the tick.
  \<^item> \<^emph>\<open>Simulation\<close>: the fixed-range simulator is the strategy simulator with the static strategy; the log of a run
    explains its ranges; the maximal drawdown is the worst loss from the highest value so far, for any ordered decimals; the
    periodic schedule of the tracker (the one of the simulator differs and is among the findings).
  \<^item> \<^emph>\<open>Surprising behaviour\<close> that the model exhibits, each with a lemma: keys that share a file in
    the multi-file cache, one-shot tasks that fire again, a reconnect limit that does not limit, a
    token-0 liquidity scaled by \<open>2 ^ 64\<close>, an exit without an executor that is reported as completed, summaries
    that are never created, a malformed pending item that repeats recoveries, a recentred range that misses the
    tick, two openings of one session that follow one another, a lifecycle row with the wrong range and no
    fees, a rebalance that the position tracker charges twice, and others in the manifest of findings.

  \<^bold>\<open>Conventions.\<close> Primitive integer arithmetic wraps (release profile); a panic is \<open>None\<close>; a
  \<^verbatim>\<open>Result\<close> is a sum with the error on the left; instants and durations are natural numbers of
  nanoseconds; a hash map is an association list with distinct keys and a hash set a list, whose iteration order, where
  it matters, is a parameter. Code outside the repository is a parameter, with its documented behaviour as a named
  hypothesis and a concrete instance in the witnesses: the Solana client, clock and timer (environment
  records over an abstract world), the JSON codec of the file cache (\<open>codec_laws\<close>), Borsh (\<open>borsh_law\<close>), Base64,
  \<^verbatim>\<open>rust_decimal\<close> (\<open>decimal_ops\<close>, extended to \<open>decimal_arith\<close>, \<open>decimal_json\<close>, and \<open>decimal_conv\<close> for conversions; laws such as
  \<open>zero_laws\<close>, \<open>width_laws\<close>, \<open>to_i128_law\<close>), floating-point powers, logarithms and roots (\<open>float_fns\<close>) and the 256-bit integers
  of \<^verbatim>\<open>primitive_types\<close> (\<open>u256_laws\<close>, \<open>checked_laws\<close>). A database is its tables together with the outcome of
  each statement. Operations on the chain are fields of the environments \<open>monitor_env\<close>, \<open>executor_env\<close>, \<open>recovery_env\<close>
  and \<open>rebalance_env\<close>; what they leave unchanged is said by an observation of the world. Calls of other
  tasks happen between the ticks of the executor, and in the monitor where it releases its lock.

  \<^bold>\<open>Bounds.\<close> No definition carries artificial fuel. The search of \<open>Q64_Math\<close> has the 64 rounds of the
  code, which suffice because each round halves an interval of at most \<open>2 ^ 64\<close> splits; the doubling loops of
  \<open>Deposit_Quote\<close> have the 130 rounds of the code, more than the 128 bits of a liquidity. Its bisections and the retry
  and polling loops that could run forever are partial functions with result \<open>None\<close> for a loop that
  does not return, and the properties about them prove that they return (and of the reconnect loop
  of the account listener, that it does not). The attempt counters are 32 bits wide; the retry loop of the provider
  assumes \<open>max_retries\<close> below \<open>2 ^ 32 - 1\<close>, since at that value the counter wraps around instead of passing the limit.

  \<^bold>\<open>Not modelled.\<close> The HTTP and command-line front ends, the SQL repositories and market data
  clients (input and output around data types), the web dashboard, deployment files and scripts; the Orca executor and
  the wallet (calls of SDKs); of the rebalance executor the swaps that mix the tokens, the top-up of native SOL and
  the enrichment of log rows, which are operations of its environment; Monte Carlo runs and optimisation (random paths and grid searches over the simulators); the price,
  fee and risk metrics over transcendental functions, whose rounding belongs to another library; and the
  ledger parsers of \<^verbatim>\<open>protocols\<close>, which reconstruct balances from encoded transactions of the RPC client.
\<close>

section \<open>The caches are interchangeable\<close>

lemma new_cache_unbounded: "mc_unbounded new_cache" "mc_abs new_cache = Map.empty"
  by (auto simp: mc_unbounded_def mc_inv_def new_cache_def mc_abs_def)

lemma new_file_cache_empty: "fc_inv j (new_file_cache j [])" "fc_abs j (new_file_cache j []) = Map.empty"
  by (auto simp: fc_inv_def fc_abs_def new_file_cache_def load_index_def load_single_file_index_def
      cache_data_or_default_def read_cache_file_def)

text \<open>C31. The memory cache without a bound and the single-file cache in an empty directory are
  indistinguishable to a client: every sequence of reads, stores, removals, clears and calls of
  the caching wrapper, at whatever times, gets the same replies from both, and these are the
  replies of a plain map from keys to data with an expiry time.\<close>

theorem caches_interchangeable:
  fixes qs :: "('e, 't) cache_call list"
  assumes "hash_order it" and "codec_laws j"
  shows "replies (serve mc_get (mc_set it) mc_remove mc_clear from_slice to_vec) qs new_cache =
           replies (serve (fc_get j) (fc_set j) (fc_remove j) fc_clear from_slice to_vec) qs (new_file_cache j [])
    \<and> replies (serve mc_get (mc_set it) mc_remove mc_clear from_slice to_vec) qs new_cache =
           replies (serve spec_get spec_put spec_remove spec_clear from_slice to_vec) qs Map.empty"
  using exact_cache.replies_refine [OF mc_exact [OF assms(1)] new_cache_unbounded(1), of from_slice to_vec qs]
    exact_cache.replies_refine [OF fc_exact [OF assms(2)] new_file_cache_empty(1), of from_slice to_vec qs]
  by (simp add: new_cache_unbounded(2) new_file_cache_empty(2))

theorem caches_interchangeable_witness:
  "replies (serve (fc_get unary_codec) (fc_set unary_codec) (fc_remove unary_codec) fc_clear Some Some)
     [Store 5 ''a'' [1] 10, Fetch 7 ''a'' (Inl ()) 10, Fetch 7 ''b'' (Inr [2]) 10, Read 16 ''a'',
      Read 16 ''b'', Remove ''b'', Fetch 16 ''b'' (Inl ()) 10]
     (new_file_cache unary_codec []) =
   [Done, Fetched False (Inr [1]), Fetched True (Inr [2]), Value None, Value (Some [2]), Done,
    Fetched True (Inl ())]"
proof -
  let ?qs = "[Store 5 ''a'' [1] 10, Fetch 7 ''a'' (Inl ()) 10, Fetch 7 ''b'' (Inr [2]) 10, Read 16 ''a'',
      Read 16 ''b'', Remove ''b'', Fetch 16 ''b'' (Inl ()) 10]"
  have "replies (serve (fc_get unary_codec) (fc_set unary_codec) (fc_remove unary_codec) fc_clear Some Some)
      ?qs (new_file_cache unary_codec []) =
    replies (serve spec_get spec_put spec_remove spec_clear Some Some) ?qs Map.empty"
    using caches_interchangeable [OF hash_order_id unary_codec_laws, of Some Some ?qs] by (rule conjE) argo
  then show ?thesis
    by (simp add: get_or_fetch_def spec_get_def spec_put_def spec_remove_def word_less_nat_alt)
qed

end
